(* ===== verification/Prelude.thy ===== *)
theory Prelude
  imports
    Main
    "HOL-Library.Word"
    "HOL-Library.Char_ord"
    "HOL-Library.List_Lexorder"
    "HOL-Library.Product_Lexorder"
    "HOL-Library.Monad_Syntax"
    "HOL-Library.Multiset"
begin

text \<open>
  Prelude of the FLUFFI development: the pieces of the C++ language and of its standard
  library that the components under \<open>src/core\<close> share.

  \<^item> \<open>std::set\<close> and \<open>std::map\<close> are lists kept strictly increasing in a key
    (\<open>set_insert\<close>), so that iteration runs in the order the containers guarantee.
  \<^item> \<open>std::string\<close> is a list of characters; \<open>str_find\<close> is \<open>std::string::find\<close>.
  \<^item> \<open>to_string\<close> and \<open>stoi\<close>/\<open>stoull\<close> are the decimal conversions, with the
    exceptions of the parsers as \<open>None\<close>.

  A function that changes state takes the state and returns the new one. Where the code may
  leave the process (\<open>_exit(EXIT_FAILURE)\<close>) or loop for ever, the result is an option
  and \<open>None\<close> reads: control does not come back to the caller.
\<close>

named_theorems oset \<open>facts on ordered sets represented by strictly increasing lists\<close>

section \<open>Ordered containers\<close>

type_synonym bytes = string

abbreviation oset_by :: "('a \<Rightarrow> 'k::linorder) \<Rightarrow> 'a list \<Rightarrow> bool" where
  "oset_by k xs \<equiv> sorted_wrt (\<lambda>x y. k x < k y) xs"

text \<open>
  \<open>std::set::insert\<close> and \<open>std::map::insert\<close>: an element whose key is present is not
  replaced.
\<close>

fun set_insert :: "('a \<Rightarrow> 'k::linorder) \<Rightarrow> 'a \<Rightarrow> 'a list \<Rightarrow> 'a list" where
  "set_insert k x [] = [x]"
| "set_insert k x (y # ys) =
     (if k x < k y then x # y # ys
      else if k x = k y then y # ys
      else y # set_insert k x ys)"

definition set_of_list :: "('a \<Rightarrow> 'k::linorder) \<Rightarrow> 'a list \<Rightarrow> 'a list" where
  "set_of_list k xs = fold (set_insert k) xs []"

lemma set_insert_keys [oset]: "k ` set (set_insert k x ys) = insert (k x) (k ` set ys)"
  by (induction ys) auto

lemma set_insert_subset: "set (set_insert k x ys) \<subseteq> insert x (set ys)"
  by (induction ys) auto

lemma set_insert_superset: "set ys \<subseteq> set (set_insert k x ys)"
  by (induction ys) auto

lemma set_insert_set [oset]: "set (set_insert (\<lambda>x. x) x ys) = insert x (set ys)"
  using set_insert_keys [of "\<lambda>x. x" x ys] by simp

lemma set_insert_not_Nil [simp]: "set_insert k x ys \<noteq> []"
  by (cases ys) auto

lemma set_insert_oset [oset]: "oset_by k ys \<Longrightarrow> oset_by k (set_insert k x ys)"
proof (induction ys)
  case Nil
  then show ?case by simp
next
  case (Cons y ys)
  have sub: "z \<in> set (set_insert k x ys) \<Longrightarrow> z = x \<or> z \<in> set ys" for z
    using set_insert_subset [of k x ys] by auto
  from Cons show ?case
    by (auto dest!: sub)
qed

lemma set_insert_length_le: "length (set_insert k x ys) \<le> Suc (length ys)"
  by (induction ys) auto

lemma set_insert_length:
  "oset_by k ys \<Longrightarrow> length (set_insert k x ys) = (if k x \<in> k ` set ys then length ys else Suc (length ys))"
  by (induction ys) auto

lemma fold_set_insert_oset: "oset_by k ys \<Longrightarrow> oset_by k (fold (set_insert k) xs ys)"
  by (induction xs arbitrary: ys) (auto intro: set_insert_oset)

lemma fold_set_insert_set:
  "set (fold (set_insert (\<lambda>x. x)) xs ys) = set xs \<union> set ys"
  by (induction xs arbitrary: ys) (auto simp: oset)

lemma set_of_list_oset [oset]: "oset_by k (set_of_list k xs)"
  by (simp add: set_of_list_def fold_set_insert_oset)

lemma set_of_list_set [oset]: "set (set_of_list (\<lambda>x. x) xs) = set xs"
  by (simp add: set_of_list_def fold_set_insert_set)

lemma oset_distinct: "oset_by k xs \<Longrightarrow> distinct xs"
  by (induction xs) auto

lemma oset_distinct_keys: "oset_by k xs \<Longrightarrow> distinct (map k xs)"
  by (induction xs) auto

lemma oset_filter: "oset_by k xs \<Longrightarrow> oset_by k (filter P xs)"
  by (induction xs) auto

lemma oset_remove1: "oset_by k xs \<Longrightarrow> oset_by k (remove1 x xs)"
  by (induction xs) (auto dest: notin_set_remove1 set_remove1_subset [THEN subsetD])

section \<open>Strings\<close>

text \<open>
  \<open>s.find(token, pos)\<close>: the least index at or after \<open>pos\<close> where \<open>token\<close> begins,
  \<open>None\<close> for \<open>npos\<close>. As in C++ the empty token is found at \<open>pos\<close> itself while
  \<open>pos\<close> is not past the end.
\<close>

definition starts_with :: "string \<Rightarrow> string \<Rightarrow> bool" where
  "starts_with s t \<longleftrightarrow> take (length t) s = t"

fun find_from :: "string \<Rightarrow> string \<Rightarrow> nat \<Rightarrow> nat option" where
  "find_from [] t i = (if t = [] then Some i else None)"
| "find_from (c # s) t i =
     (if starts_with (c # s) t then Some i else find_from s t (Suc i))"

definition str_find :: "string \<Rightarrow> string \<Rightarrow> nat \<Rightarrow> nat option" where
  "str_find s t pos = (if length s < pos then None else find_from (drop pos s) t pos)"

definition substr :: "string \<Rightarrow> nat \<Rightarrow> nat \<Rightarrow> string" where
  "substr s pos n = take n (drop pos s)"

lemma starts_withD: "starts_with s t \<Longrightarrow> s = t @ drop (length t) s"
  by (metis append_take_drop_id starts_with_def)

lemma find_from_Some:
  "find_from s t i = Some j \<Longrightarrow>
     i \<le> j \<and> j + length t \<le> i + length s \<and> starts_with (drop (j - i) s) t"
proof (induction s t i rule: find_from.induct)
  case (1 t i)
  then show ?case by (auto simp: starts_with_def split: if_splits)
next
  case (2 c s t i)
  show ?case
  proof (cases "starts_with (c # s) t")
    case True
    then have "length t \<le> length (c # s)"
      by (metis length_take min.cobounded1 min.commute starts_with_def)
    with True 2 show ?thesis by auto
  next
    case False
    with 2 have "Suc i \<le> j \<and> j + length t \<le> Suc i + length s \<and> starts_with (drop (j - Suc i) s) t"
      by simp
    then show ?thesis
      by (auto simp: drop_Cons' Suc_diff_le)
  qed
qed

lemma find_from_first:
  "find_from s t i = Some j \<Longrightarrow> i \<le> l \<Longrightarrow> l < j \<Longrightarrow> \<not> starts_with (drop (l - i) s) t"
proof (induction s t i rule: find_from.induct)
  case (1 t i)
  then show ?case by (auto split: if_splits)
next
  case (2 c s t i)
  show ?case
  proof (cases "l = i")
    case True
    with 2 show ?thesis by (auto split: if_splits)
  next
    case False
    with 2 have "\<not> starts_with (drop (l - Suc i) s) t"
      by (auto split: if_splits)
    moreover from False 2 have "l - i = Suc (l - Suc i)" by simp
    ultimately show ?thesis by simp
  qed
qed

lemma find_from_None: "find_from s t i = None \<Longrightarrow> \<not> starts_with (drop l s) t"
proof (induction s t i arbitrary: l rule: find_from.induct)
  case (1 t i)
  then show ?case by (auto simp: starts_with_def split: if_splits)
next
  case (2 c s t i)
  then show ?case by (cases l) (auto split: if_splits)
qed

lemma str_find_Some:
  assumes "str_find s t pos = Some j"
  shows "pos \<le> j" and "j + length t \<le> length s" and "starts_with (drop j s) t"
    and "\<And>l. pos \<le> l \<Longrightarrow> l < j \<Longrightarrow> \<not> starts_with (drop l s) t"
proof -
  from assms have ff: "find_from (drop pos s) t pos = Some j" and le: "pos \<le> length s"
    by (auto simp: str_find_def split: if_splits)
  from find_from_Some [OF ff] le show "pos \<le> j" and "j + length t \<le> length s"
    and "starts_with (drop j s) t" by auto
  fix l assume "pos \<le> l" and "l < j"
  from find_from_first [OF ff this] \<open>pos \<le> l\<close> show "\<not> starts_with (drop l s) t" by simp
qed

lemma str_find_bounds: "str_find s t pos = Some j \<Longrightarrow> pos \<le> j \<and> j + length t \<le> length s"
  using str_find_Some(1,2) by blast

lemma str_find_None:
  assumes "str_find s t pos = None" and "pos \<le> l" and "l \<le> length s"
  shows "\<not> starts_with (drop l s) t"
proof -
  from assms have "find_from (drop pos s) t pos = None"
    by (auto simp: str_find_def split: if_splits)
  from find_from_None [OF this, of "l - pos"] assms(2) show ?thesis by simp
qed

section \<open>Decimal conversions\<close>

definition digit_char :: "nat \<Rightarrow> char" where
  "digit_char d = char_of (48 + d)"

fun to_string :: "nat \<Rightarrow> string" where
  "to_string n = (if n < 10 then [digit_char n] else to_string (n div 10) @ [digit_char (n mod 10)])"

declare to_string.simps [simp del]

definition is_digit :: "char \<Rightarrow> bool" where
  "is_digit c \<longleftrightarrow> 48 \<le> (of_char c :: nat) \<and> (of_char c :: nat) \<le> 57"

definition is_space :: "char \<Rightarrow> bool" where
  "is_space c \<longleftrightarrow> c = CHR '' '' \<or> (9 \<le> (of_char c :: nat) \<and> (of_char c :: nat) \<le> 13)"

definition digits_val :: "string \<Rightarrow> nat" where
  "digits_val ds = foldl (\<lambda>n c. 10 * n + (of_char c - 48)) 0 ds"

text \<open>
  The common core of \<open>strtol\<close> and its kin: leading white space, an optional sign, then the
  longest run of decimal digits; \<open>None\<close> when there is no digit (\<open>std::invalid_argument\<close>).
\<close>

definition parse_number :: "string \<Rightarrow> int option" where
  "parse_number s =
     (let s1 = dropWhile is_space s;
          neg = (s1 \<noteq> [] \<and> hd s1 = CHR ''-'');
          s2 = (if s1 \<noteq> [] \<and> (hd s1 = CHR ''-'' \<or> hd s1 = CHR ''+'') then tl s1 else s1);
          ds = takeWhile is_digit s2
      in if ds = [] then None
         else Some (if neg then - int (digits_val ds) else int (digits_val ds)))"

text \<open>\<open>std::stoi\<close>: \<open>None\<close> where it throws (nothing to convert, or not an \<open>int\<close>).\<close>

definition stoi :: "string \<Rightarrow> int option" where
  "stoi s = (case parse_number s of None \<Rightarrow> None
     | Some v \<Rightarrow> if - (2 ^ 31) \<le> v \<and> v < 2 ^ 31 then Some v else None)"

text \<open>\<open>std::stoull\<close>: a leading minus sign negates modulo \<open>2 ^ 64\<close>, as \<open>strtoull\<close> does.\<close>

definition stoull :: "string \<Rightarrow> 64 word option" where
  "stoull s = (case parse_number s of None \<Rightarrow> None
     | Some v \<Rightarrow> if \<bar>v\<bar> < 2 ^ 64 then Some (word_of_int v) else None)"

text \<open>\<open>std::to_string\<close> of a signed number.\<close>

definition int_to_string :: "int \<Rightarrow> string" where
  "int_to_string i = (if i < 0 then ''-'' @ to_string (nat (- i)) else to_string (nat i))"

lemma of_char_digit_char [simp]: "d < 10 \<Longrightarrow> (of_char (digit_char d) :: nat) = 48 + d"
  by (simp add: digit_char_def)

lemma is_digit_digit_char [simp]: "d < 10 \<Longrightarrow> is_digit (digit_char d)"
  by (simp add: is_digit_def)

lemma to_string_not_Nil [simp]: "to_string n \<noteq> []"
  by (subst to_string.simps) simp

lemma to_string_digits: "\<forall>c \<in> set (to_string n). is_digit c"
proof (induction n rule: to_string.induct)
  case (1 n)
  then show ?case by (subst to_string.simps) auto
qed

lemma digits_val_snoc: "digits_val (ds @ [c]) = 10 * digits_val ds + (of_char c - 48)"
  by (simp add: digits_val_def)

lemma digits_val_to_string [simp]: "digits_val (to_string n) = n"
proof (induction n rule: to_string.induct)
  case (1 n)
  show ?case
  proof (cases "n < 10")
    case True
    then show ?thesis by (subst to_string.simps) (simp add: digits_val_def)
  next
    case False
    with 1 have "digits_val (to_string (n div 10)) = n div 10" by simp
    with False show ?thesis
      by (subst to_string.simps) (simp add: digits_val_snoc)
  qed
qed

lemma to_string_inject [simp]: "to_string m = to_string n \<longleftrightarrow> m = n"
  by (metis digits_val_to_string)

lemma is_digit_not_special:
  "is_digit c \<Longrightarrow> \<not> is_space c" "is_digit c \<Longrightarrow> c \<noteq> CHR ''-''" "is_digit c \<Longrightarrow> c \<noteq> CHR ''+''"
  by (auto simp: is_digit_def is_space_def)

lemma parse_number_to_string: "parse_number (to_string n) = Some (int n)"
proof -
  let ?s = "to_string n"
  have dg: "\<forall>c \<in> set ?s. is_digit c" by (rule to_string_digits)
  then have hd: "is_digit (hd ?s)" by simp
  then have sp: "dropWhile is_space ?s = ?s"
    by (cases ?s) (auto dest: is_digit_not_special)
  have tw: "takeWhile is_digit ?s = ?s" using dg by (simp add: takeWhile_eq_all_conv)
  show ?thesis
    using hd by (auto simp: parse_number_def Let_def sp tw dest: is_digit_not_special)
qed

lemma stoi_to_string: "n < 2 ^ 31 \<Longrightarrow> stoi (to_string n) = Some (int n)"
  by (simp add: stoi_def parse_number_to_string)

lemma stoull_to_string: "stoull (to_string (unat w)) = Some w"
proof -
  have "int (unat w) < 2 ^ 64"
    using uint_lt2p [of w] by simp
  then show ?thesis
    by (simp add: stoull_def parse_number_to_string)
qed

section \<open>Transition systems\<close>

text \<open>
  The programs are modelled as transition systems: the states a program can reach, invariants of
  all of them, and simulations between a detailed and an abstract system. The contracts are locales;
  each program interprets them with its own start states and steps.
\<close>

inductive reachable :: "('s \<Rightarrow> bool) \<Rightarrow> ('s \<Rightarrow> 's \<Rightarrow> bool) \<Rightarrow> 's \<Rightarrow> bool" for start step where
  at_start: "start s \<Longrightarrow> reachable start step s"
| by_step: "reachable start step s \<Longrightarrow> step s s' \<Longrightarrow> reachable start step s'"

lemma reachable_rtranclp:
  assumes "rtranclp step s s'" and "reachable start step s"
  shows "reachable start step s'"
  using assms by (induction rule: rtranclp_induct) (auto intro: by_step)

locale invariant_system =
  fixes start :: "'s \<Rightarrow> bool" and step :: "'s \<Rightarrow> 's \<Rightarrow> bool" and inv :: "'s \<Rightarrow> bool"
  assumes start_inv: "start s \<Longrightarrow> inv s"
    and step_inv: "inv s \<Longrightarrow> step s s' \<Longrightarrow> inv s'"
begin

lemma reachable_inv: "reachable start step s \<Longrightarrow> inv s"
  by (induction rule: reachable.induct) (auto intro: start_inv step_inv)

lemma run_inv: "rtranclp step s s' \<Longrightarrow> inv s \<Longrightarrow> inv s'"
  by (induction rule: rtranclp_induct) (auto intro: step_inv)

end

text \<open>
  An abstraction function maps every step of the detailed system to zero or more abstract steps;
  the detailed system may use its invariant.
\<close>

locale abstraction = invariant_system start step inv
  for start :: "'s \<Rightarrow> bool" and step :: "'s \<Rightarrow> 's \<Rightarrow> bool" and inv :: "'s \<Rightarrow> bool" +
  fixes astart :: "'a \<Rightarrow> bool" and astep :: "'a \<Rightarrow> 'a \<Rightarrow> bool" and abs :: "'s \<Rightarrow> 'a"
  assumes abs_start: "start s \<Longrightarrow> astart (abs s)"
    and abs_step: "inv s \<Longrightarrow> step s s' \<Longrightarrow> rtranclp astep (abs s) (abs s')"
begin

lemma abs_run:
  assumes "rtranclp step s s'" and "inv s" shows "rtranclp astep (abs s) (abs s')"
  using assms
proof (induction rule: rtranclp_induct)
  case (step u v)
  then show ?case using abs_step [OF run_inv [OF step(1,4)] step(2)] by auto
qed simp

lemma abs_reachable: "reachable start step s \<Longrightarrow> reachable astart astep (abs s)"
proof (induction rule: reachable.induct)
  case (by_step s s')
  then show ?case
    using abs_step [OF reachable_inv [OF by_step(1)] by_step(2)] by (blast intro: reachable_rtranclp)
qed (simp add: abs_start reachable.at_start)

text \<open>So an invariant of the abstract system carries over.\<close>

lemma transfer_inv:
  assumes "reachable start step s" and "\<And>a. reachable astart astep a \<Longrightarrow> I a"
  shows "I (abs s)"
  using abs_reachable [OF assms(1)] assms(2) by blast

end

section \<open>Numbers in memory\<close>

text \<open>Unsigned numbers, the least significant byte first.\<close>

fun le_nat :: "bytes \<Rightarrow> nat" where
  "le_nat [] = 0"
| "le_nat (c # cs) = of_char c + 256 * le_nat cs"

fun le_bytes :: "nat \<Rightarrow> nat \<Rightarrow> bytes" where
  "le_bytes 0 v = []"
| "le_bytes (Suc n) v = char_of (v mod 256) # le_bytes n (v div 256)"

lemma le_bytes_length [simp]: "length (le_bytes n v) = n"
  by (induction n arbitrary: v) auto

lemma le_nat_bytes: "le_nat (le_bytes n v) = v mod 256 ^ n"
proof (induction n arbitrary: v)
  case (Suc n)
  then show ?case by (simp add: mod_mult2_eq)
qed simp

text \<open>The text up to the first NUL.\<close>

definition c_string :: "bytes \<Rightarrow> string" where
  "c_string bs = takeWhile (\<lambda>c. c \<noteq> CHR 0x00) bs"

lemma c_string_append: "CHR 0x00 \<notin> set s \<Longrightarrow> c_string (s @ t) = s @ c_string t"
  by (auto simp: c_string_def takeWhile_append)

end
