(* ===== verification/Protocol.thy ===== *)
theory Protocol
  imports Prelude
begin

text \<open>
  The data the agents exchange: the messages of \<open>FLUFFI.proto\<close> and the wrapper classes of
  \<open>src/core/SharedCode\<close> (\<open>FluffiServiceDescriptor\<close>, \<open>FluffiTestcaseID\<close>,
  \<open>FluffiBasicBlock\<close>, \<open>FluffiTestResult\<close> and the smaller ones) with their
  conversions from and to the messages, their equality and their order.

  A proto3 enum is open: a peer may send a number without a name, so each enum has one more
  constructor for those. A sub-message that may be absent is an option, and reading it when
  absent gives the default instance.
\<close>

section \<open>Messages (FLUFFI.proto)\<close>

datatype AgentType =
    TestcaseGenerator | TestcaseRunner | TestcaseEvaluator | GlobalManager | LocalManager
  | AgentType_other int

datatype ExitType =
    CleanExit | Hang | Exception_AccessViolation | Exception_Other | ExitType_other int

datatype TestEvaluation = Keep | Discard | TestEvaluation_other int

record ServiceDescriptor =
  sd_serviceHostAndPort :: string
  sd_guid :: string

record TestcaseID =
  tid_serviceDescriptor :: "ServiceDescriptor option"
  tid_localID :: "64 word"

record BasicBlock =
  bb_RVA :: "64 word"
  bb_moduleID :: "32 word"

record TestResult =
  tr_exitType :: ExitType
  tr_blocks :: "BasicBlock list"
  tr_crashFootprint :: string
  tr_hasFullCoverage :: bool

record ServiceAndWeigth =
  saw_serviceDescriptor :: "ServiceDescriptor option"
  saw_weight :: "32 word"

record LMConfiguration =
  lmc_dbHost :: string
  lmc_dbUser :: string
  lmc_dbPassword :: string
  lmc_dbName :: string
  lmc_fuzzJobName :: string

record ModuleNameToID =
  mn_moduleName :: string
  mn_moduleID :: "32 word"
  mn_modulePath :: string

record Setting =
  st_settingName :: string
  st_settingValue :: string

record GetTestcaseResponse_t =
  gtr_success :: bool
  gtr_id :: "TestcaseID option"
  gtr_parentId :: "TestcaseID option"
  gtr_testCaseFirstChunk :: bytes
  gtr_isLastChunk :: bool
  gtr_forceFullCoverage :: bool

record PutTestResultRequest_t =
  ptr_id :: "TestcaseID option"
  ptr_parentId :: "TestcaseID option"
  ptr_result :: "TestResult option"
  ptr_testCaseFirstChunk :: bytes
  ptr_isLastChunk :: bool
  ptr_sdOfRunner :: "ServiceDescriptor option"

record PutTestEvaluationRequest_t =
  pte_id :: "TestcaseID option"
  pte_parentId :: "TestcaseID option"
  pte_eval :: TestEvaluation
  pte_parentRatingDelta :: int
  pte_result :: "TestResult option"
  pte_testCaseFirstChunk :: bytes
  pte_isLastChunk :: bool
  pte_sdOfEvaluator :: "ServiceDescriptor option"

record GetTestcaseToMutateResponse_t =
  gtm_id :: "TestcaseID option"
  gtm_testCaseFirstChunk :: bytes
  gtm_isLastChunk :: bool
  gtm_alsoRunWithoutMutation :: bool

record ReportTestcaseWithNoResultRequest_t =
  rnr_id :: "TestcaseID option"
  rnr_parentId :: "TestcaseID option"
  rnr_testCaseFirstChunk :: bytes
  rnr_isLastChunk :: bool

record GetTestCaseChunkRequest_t =
  gcq_id :: "TestcaseID option"
  gcq_chunkID :: int

record GetTestCaseChunkResponse_t =
  gcr_chunkID :: int
  gcr_testCaseChunk :: bytes
  gcr_isLastChunk :: bool

record RegisterRequest_t =
  reg_type :: AgentType
  reg_implementedAgentSubTypes :: "string list"
  reg_serviceDescriptor :: "ServiceDescriptor option"
  reg_location :: string

datatype gmResponse =
    gmResponse_unset | RetryLater bool | LmServiceDescriptor ServiceDescriptor
  | LmConfiguration LMConfiguration

text \<open>The one-of of all messages; \<open>FluffNotSet\<close> is an empty or unparsable message.\<close>

datatype FLUFFIMessage =
    FluffNotSet
  | GetStatusRequest "ServiceDescriptor option"
  | GetStatusResponse string "string list"
  | SetTGsAndTEsRequest "ServiceAndWeigth list" "ServiceAndWeigth list"
  | SetTGsAndTEsResponse bool
  | RegisterAtLMRequest RegisterRequest_t
  | RegisterAtLMResponse bool string
  | GetTestcaseRequest
  | GetTestcaseResponse GetTestcaseResponse_t
  | PutTestResultRequest PutTestResultRequest_t
  | PutTestResultResponse bool
  | PutTestEvaluationRequest PutTestEvaluationRequest_t
  | PutTestEvaluationResponse bool
  | GetCurrentBlockCoverageRequest
  | GetCurrentBlockCoverageResponse "BasicBlock list"
  | GetNewCompletedTestcaseIDsRequest "64 word"
  | GetNewCompletedTestcaseIDsResponse "64 word" "TestcaseID list"
  | GetTestcaseToMutateRequest
  | GetTestcaseToMutateResponse GetTestcaseToMutateResponse_t
  | ReportTestcaseWithNoResultRequest ReportTestcaseWithNoResultRequest_t
  | ReportTestcaseWithNoResultResponse bool
  | GetTestCaseChunkRequest GetTestCaseChunkRequest_t
  | GetTestCaseChunkResponse GetTestCaseChunkResponse_t
  | GetFuzzJobConfigurationRequest "ServiceDescriptor option"
  | GetFuzzJobConfigurationResponse "ModuleNameToID list" "BasicBlock list" "Setting list"
  | RequestTypeNotImplementedRequest
  | RequestTypeNotImplementedResponse
  | RegisterAtGMRequest RegisterRequest_t
  | RegisterAtGMResponse gmResponse
  | KillInstanceRequest
  | KillInstanceResponse bool
  | IsAgentWelcomedRequest AgentType "string list"
  | IsAgentWelcomedResponse bool
  | GetLMConfigurationRequest
  | GetLMConfigurationResponse "LMConfiguration option"
  | ReportNewMutationsRequest "TestcaseID option" int
  | ReportNewMutationsResponse bool

text \<open>Default instances, read where a sub-message or the one-of case is absent.\<close>

definition default_ServiceDescriptor :: ServiceDescriptor where
  "default_ServiceDescriptor = \<lparr>sd_serviceHostAndPort = '''', sd_guid = ''''\<rparr>"

definition default_TestcaseID :: TestcaseID where
  "default_TestcaseID = \<lparr>tid_serviceDescriptor = None, tid_localID = 0\<rparr>"

definition default_TestResult :: TestResult where
  "default_TestResult = \<lparr>tr_exitType = CleanExit, tr_blocks = [], tr_crashFootprint = '''',
     tr_hasFullCoverage = False\<rparr>"

definition default_LMConfiguration :: LMConfiguration where
  "default_LMConfiguration = \<lparr>lmc_dbHost = '''', lmc_dbUser = '''', lmc_dbPassword = '''',
     lmc_dbName = '''', lmc_fuzzJobName = ''''\<rparr>"

definition opt_or :: "'a \<Rightarrow> 'a option \<Rightarrow> 'a" where
  "opt_or d x = (case x of None \<Rightarrow> d | Some v \<Rightarrow> v)"

lemma opt_or_simps [simp]: "opt_or d None = d" "opt_or d (Some v) = v"
  by (simp_all add: opt_or_def)

text \<open>Accessors of response messages, with protobuf's default on another case.\<close>

definition gettestcasechunkresponse :: "FLUFFIMessage \<Rightarrow> GetTestCaseChunkResponse_t" where
  "gettestcasechunkresponse m = (case m of GetTestCaseChunkResponse r \<Rightarrow> r
     | _ \<Rightarrow> \<lparr>gcr_chunkID = 0, gcr_testCaseChunk = '''', gcr_isLastChunk = False\<rparr>)"

definition gettestcasetomutateresponse :: "FLUFFIMessage \<Rightarrow> GetTestcaseToMutateResponse_t" where
  "gettestcasetomutateresponse m = (case m of GetTestcaseToMutateResponse r \<Rightarrow> r
     | _ \<Rightarrow> \<lparr>gtm_id = None, gtm_testCaseFirstChunk = '''', gtm_isLastChunk = False,
              gtm_alsoRunWithoutMutation = False\<rparr>)"

definition getfuzzjobconfigurationresponse_settings :: "FLUFFIMessage \<Rightarrow> Setting list" where
  "getfuzzjobconfigurationresponse_settings m =
     (case m of GetFuzzJobConfigurationResponse ms bs ss \<Rightarrow> ss | _ \<Rightarrow> [])"

definition getnewcompletedtestcaseidsresponse :: "FLUFFIMessage \<Rightarrow> 64 word \<times> TestcaseID list" where
  "getnewcompletedtestcaseidsresponse m =
     (case m of GetNewCompletedTestcaseIDsResponse t ids \<Rightarrow> (t, ids) | _ \<Rightarrow> (0, []))"

definition getcurrentblockcoverageresponse :: "FLUFFIMessage \<Rightarrow> BasicBlock list" where
  "getcurrentblockcoverageresponse m =
     (case m of GetCurrentBlockCoverageResponse bs \<Rightarrow> bs | _ \<Rightarrow> [])"

definition puttestevaluationresponse_success :: "FLUFFIMessage \<Rightarrow> bool" where
  "puttestevaluationresponse_success m =
     (case m of PutTestEvaluationResponse b \<Rightarrow> b | _ \<Rightarrow> False)"

definition no_testcase :: GetTestcaseResponse_t where
  "no_testcase = \<lparr>gtr_success = False, gtr_id = None, gtr_parentId = None, gtr_testCaseFirstChunk = [],
     gtr_isLastChunk = False, gtr_forceFullCoverage = False\<rparr>"

definition gettestcaseresponse :: "FLUFFIMessage \<Rightarrow> GetTestcaseResponse_t" where
  "gettestcaseresponse m = (case m of GetTestcaseResponse r \<Rightarrow> r | _ \<Rightarrow> no_testcase)"

definition puttestresultresponse_success :: "FLUFFIMessage \<Rightarrow> bool" where
  "puttestresultresponse_success m = (case m of PutTestResultResponse b \<Rightarrow> b | _ \<Rightarrow> False)"

definition getfuzzjobconfigurationresponse_targetmodules :: "FLUFFIMessage \<Rightarrow> ModuleNameToID list" where
  "getfuzzjobconfigurationresponse_targetmodules m =
     (case m of GetFuzzJobConfigurationResponse ms bs ss \<Rightarrow> ms | _ \<Rightarrow> [])"

definition getfuzzjobconfigurationresponse_targetblocks :: "FLUFFIMessage \<Rightarrow> BasicBlock list" where
  "getfuzzjobconfigurationresponse_targetblocks m =
     (case m of GetFuzzJobConfigurationResponse ms bs ss \<Rightarrow> bs | _ \<Rightarrow> [])"

definition settgsandtesrequest :: "FLUFFIMessage \<Rightarrow> ServiceAndWeigth list \<times> ServiceAndWeigth list" where
  "settgsandtesrequest m = (case m of SetTGsAndTEsRequest tgs tes \<Rightarrow> (tgs, tes) | _ \<Rightarrow> ([], []))"

section \<open>Wrapper classes (src/core/SharedCode)\<close>

subsection \<open>FluffiServiceDescriptor\<close>

record FluffiServiceDescriptor =
  m_serviceHostAndPort :: string
  m_guid :: string
  m_isNull :: bool

definition mkServiceDescriptor :: "string \<Rightarrow> string \<Rightarrow> FluffiServiceDescriptor" where
  "mkServiceDescriptor hap g = \<lparr>m_serviceHostAndPort = hap, m_guid = g, m_isNull = False\<rparr>"

definition sd_of_proto :: "ServiceDescriptor \<Rightarrow> FluffiServiceDescriptor" where
  "sd_of_proto p = \<lparr>m_serviceHostAndPort = sd_serviceHostAndPort p, m_guid = sd_guid p,
     m_isNull = False\<rparr>"

definition sd_getNullObject :: FluffiServiceDescriptor where
  "sd_getNullObject = \<lparr>m_serviceHostAndPort = '''', m_guid = '''', m_isNull = True\<rparr>"

definition sd_getProtobuf :: "FluffiServiceDescriptor \<Rightarrow> ServiceDescriptor" where
  "sd_getProtobuf d = \<lparr>sd_serviceHostAndPort = m_serviceHostAndPort d, sd_guid = m_guid d\<rparr>"

definition sd_eq :: "FluffiServiceDescriptor \<Rightarrow> FluffiServiceDescriptor \<Rightarrow> bool" where
  "sd_eq a b \<longleftrightarrow> m_serviceHostAndPort a = m_serviceHostAndPort b \<and> m_guid a = m_guid b"

definition sd_less :: "FluffiServiceDescriptor \<Rightarrow> FluffiServiceDescriptor \<Rightarrow> bool" where
  "sd_less a b = (if m_serviceHostAndPort a = m_serviceHostAndPort b then m_guid a < m_guid b
     else m_serviceHostAndPort a < m_serviceHostAndPort b)"

definition sd_key :: "FluffiServiceDescriptor \<Rightarrow> string \<times> string" where
  "sd_key d = (m_serviceHostAndPort d, m_guid d)"

subsection \<open>FluffiTestcaseID\<close>

record FluffiTestcaseID =
  m_serviceDescriptor :: FluffiServiceDescriptor
  m_localID :: "64 word"

definition mkTestcaseID :: "FluffiServiceDescriptor \<Rightarrow> 64 word \<Rightarrow> FluffiTestcaseID" where
  "mkTestcaseID d n = \<lparr>m_serviceDescriptor = d, m_localID = n\<rparr>"

definition tid_of_proto :: "TestcaseID \<Rightarrow> FluffiTestcaseID" where
  "tid_of_proto p = \<lparr>m_serviceDescriptor =
       sd_of_proto (opt_or default_ServiceDescriptor (tid_serviceDescriptor p)),
     m_localID = tid_localID p\<rparr>"

definition tid_getProtobuf :: "FluffiTestcaseID \<Rightarrow> TestcaseID" where
  "tid_getProtobuf t = \<lparr>tid_serviceDescriptor = Some (sd_getProtobuf (m_serviceDescriptor t)),
     tid_localID = m_localID t\<rparr>"

abbreviation tid_guid :: "FluffiTestcaseID \<Rightarrow> string" where
  "tid_guid t \<equiv> m_guid (m_serviceDescriptor t)"

definition tid_eq :: "FluffiTestcaseID \<Rightarrow> FluffiTestcaseID \<Rightarrow> bool" where
  "tid_eq a b \<longleftrightarrow> tid_guid a = tid_guid b \<and> m_localID a = m_localID b"

definition tid_less :: "FluffiTestcaseID \<Rightarrow> FluffiTestcaseID \<Rightarrow> bool" where
  "tid_less a b = (if tid_guid a = tid_guid b then m_localID a < m_localID b
     else tid_guid a < tid_guid b)"

definition tid_key :: "FluffiTestcaseID \<Rightarrow> string \<times> 64 word" where
  "tid_key t = (tid_guid t, m_localID t)"

subsection \<open>FluffiBasicBlock\<close>

text \<open>
  The offset is unsigned, the module number is an \<open>int32_t\<close>: its order is the signed one.
\<close>

datatype FluffiBasicBlock = FluffiBasicBlock (m_rva: "64 word") (m_moduleID: "32 word")

instantiation FluffiBasicBlock :: linorder
begin

definition less_FluffiBasicBlock :: "FluffiBasicBlock \<Rightarrow> FluffiBasicBlock \<Rightarrow> bool" where
  "less_FluffiBasicBlock a b = (if m_moduleID a = m_moduleID b then m_rva a < m_rva b
     else sint (m_moduleID a) < sint (m_moduleID b))"

definition less_eq_FluffiBasicBlock :: "FluffiBasicBlock \<Rightarrow> FluffiBasicBlock \<Rightarrow> bool" where
  "less_eq_FluffiBasicBlock a b \<longleftrightarrow> a < b \<or> a = b"

instance
proof
  fix a b c :: FluffiBasicBlock
  have neq: "\<And>x y :: 32 word. x \<noteq> y \<Longrightarrow> sint x \<noteq> sint y"
    by (metis signed_word_eqI)
  show "a < b \<longleftrightarrow> a \<le> b \<and> \<not> b \<le> a"
    by (auto simp: less_FluffiBasicBlock_def less_eq_FluffiBasicBlock_def split: if_splits)
  show "a \<le> a" by (simp add: less_eq_FluffiBasicBlock_def)
  show "a \<le> b \<Longrightarrow> b \<le> c \<Longrightarrow> a \<le> c"
    by (auto simp: less_FluffiBasicBlock_def less_eq_FluffiBasicBlock_def split: if_splits)
  show "a \<le> b \<Longrightarrow> b \<le> a \<Longrightarrow> a = b"
    by (auto simp: less_FluffiBasicBlock_def less_eq_FluffiBasicBlock_def split: if_splits)
  show "a \<le> b \<or> b \<le> a"
    using neq [of "m_moduleID a" "m_moduleID b"]
    by (auto simp: less_FluffiBasicBlock_def less_eq_FluffiBasicBlock_def
        intro: FluffiBasicBlock.expand)
qed

end

definition block_of_proto :: "BasicBlock \<Rightarrow> FluffiBasicBlock" where
  "block_of_proto p = FluffiBasicBlock (bb_RVA p) (bb_moduleID p)"

definition block_getProtobuf :: "FluffiBasicBlock \<Rightarrow> BasicBlock" where
  "block_getProtobuf b = \<lparr>bb_RVA = m_rva b, bb_moduleID = m_moduleID b\<rparr>"

subsection \<open>FluffiTestResult\<close>

record FluffiTestResult =
  m_exitType :: ExitType
  m_blocks :: "FluffiBasicBlock list"
  m_crashFootprint :: string
  m_hasFullCoverage :: bool

definition result_of_proto :: "TestResult \<Rightarrow> FluffiTestResult" where
  "result_of_proto p = \<lparr>m_exitType = tr_exitType p, m_blocks = map block_of_proto (tr_blocks p),
     m_crashFootprint = tr_crashFootprint p, m_hasFullCoverage = tr_hasFullCoverage p\<rparr>"

definition result_getProtobuf :: "FluffiTestResult \<Rightarrow> TestResult" where
  "result_getProtobuf r = \<lparr>tr_exitType = m_exitType r, tr_blocks = map block_getProtobuf (m_blocks r),
     tr_crashFootprint = m_crashFootprint r, tr_hasFullCoverage = m_hasFullCoverage r\<rparr>"

text \<open>\<open>setProtobuf\<close> overwrites every field of the message it is given.\<close>

definition result_setProtobuf :: "FluffiTestResult \<Rightarrow> TestResult \<Rightarrow> TestResult" where
  "result_setProtobuf r tr =
     (let tr = tr\<lparr>tr_exitType := m_exitType r, tr_crashFootprint := m_crashFootprint r,
                  tr_hasFullCoverage := m_hasFullCoverage r\<rparr>;
          tr = tr\<lparr>tr_blocks := []\<rparr>
      in tr\<lparr>tr_blocks := fold (\<lambda>b bs. bs @ [block_getProtobuf b]) (m_blocks r) (tr_blocks tr)\<rparr>)"

subsection \<open>The smaller wrappers\<close>

record FluffiServiceAndWeight =
  sw_serviceDescriptor :: FluffiServiceDescriptor
  sw_weight :: "32 word"

definition sw_of_proto :: "ServiceAndWeigth \<Rightarrow> FluffiServiceAndWeight" where
  "sw_of_proto p = \<lparr>sw_serviceDescriptor =
       sd_of_proto (opt_or default_ServiceDescriptor (saw_serviceDescriptor p)),
     sw_weight = saw_weight p\<rparr>"

definition sw_getProtobuf :: "FluffiServiceAndWeight \<Rightarrow> ServiceAndWeigth" where
  "sw_getProtobuf w = \<lparr>saw_serviceDescriptor = Some (sd_getProtobuf (sw_serviceDescriptor w)),
     saw_weight = sw_weight w\<rparr>"

record FluffiModuleNameToID =
  m_moduleName :: string
  m_modulePath :: string
  m_moduleNumber :: "32 word"

definition module_of_proto :: "ModuleNameToID \<Rightarrow> FluffiModuleNameToID" where
  "module_of_proto p = \<lparr>m_moduleName = mn_moduleName p, m_modulePath = mn_modulePath p,
     m_moduleNumber = mn_moduleID p\<rparr>"

definition module_getProtobuf :: "FluffiModuleNameToID \<Rightarrow> ModuleNameToID" where
  "module_getProtobuf m = \<lparr>mn_moduleName = m_moduleName m, mn_moduleID = m_moduleNumber m,
     mn_modulePath = m_modulePath m\<rparr>"

record FluffiSetting =
  m_settingName :: string
  m_settingValue :: string

definition setting_of_proto :: "Setting \<Rightarrow> FluffiSetting" where
  "setting_of_proto p = \<lparr>m_settingName = st_settingName p, m_settingValue = st_settingValue p\<rparr>"

definition setting_getProtobuf :: "FluffiSetting \<Rightarrow> Setting" where
  "setting_getProtobuf s = \<lparr>st_settingName = m_settingName s, st_settingValue = m_settingValue s\<rparr>"

record FluffiLMConfiguration =
  m_dbHost :: string
  m_dbUser :: string
  m_dbPassword :: string
  m_dbName :: string
  m_fuzzJobName :: string

definition lmconfig_of_proto :: "LMConfiguration \<Rightarrow> FluffiLMConfiguration" where
  "lmconfig_of_proto p = \<lparr>m_dbHost = lmc_dbHost p, m_dbUser = lmc_dbUser p,
     m_dbPassword = lmc_dbPassword p, m_dbName = lmc_dbName p, m_fuzzJobName = lmc_fuzzJobName p\<rparr>"

definition lmconfig_getProtobuf :: "FluffiLMConfiguration \<Rightarrow> LMConfiguration" where
  "lmconfig_getProtobuf c = \<lparr>lmc_dbHost = m_dbHost c, lmc_dbUser = m_dbUser c,
     lmc_dbPassword = m_dbPassword c, lmc_dbName = m_dbName c, lmc_fuzzJobName = m_fuzzJobName c\<rparr>"

section \<open>Round trips and orders\<close>

lemmas proto_defs = sd_of_proto_def sd_getProtobuf_def tid_of_proto_def tid_getProtobuf_def
  block_of_proto_def block_getProtobuf_def result_of_proto_def result_getProtobuf_def
  sw_of_proto_def sw_getProtobuf_def module_of_proto_def module_getProtobuf_def
  setting_of_proto_def setting_getProtobuf_def lmconfig_of_proto_def lmconfig_getProtobuf_def

lemma block_roundtrip [simp]: "block_of_proto (block_getProtobuf b) = b"
  "block_getProtobuf (block_of_proto p) = p"
  by (simp_all add: proto_defs)

lemma block_of_proto_o [simp]: "block_of_proto \<circ> block_getProtobuf = id"
  by (rule ext) simp

lemma tid_of_getProtobuf_key [simp]: "tid_key (tid_of_proto (tid_getProtobuf t)) = tid_key t"
  by (simp add: proto_defs tid_key_def)

lemma tid_getProtobuf_Some [simp]: "tid_serviceDescriptor (tid_getProtobuf t) \<noteq> None"
  by (simp add: proto_defs)

lemma tid_key_fields: "tid_key (tid_of_proto (tid_getProtobuf t)) = (tid_guid t, m_localID t)"
  by (simp add: tid_key_def proto_defs)

lemma fold_snoc_map: "fold (\<lambda>b bs. bs @ [f b]) xs ys = ys @ map f xs"
  by (induction xs arbitrary: ys) auto

lemma result_roundtrip [simp]: "result_of_proto (result_getProtobuf r) = r"
  by (simp add: proto_defs comp_def)

lemma result_setProtobuf_eq: "result_setProtobuf r tr = result_getProtobuf r"
  by (simp add: result_setProtobuf_def result_getProtobuf_def fold_snoc_map Let_def)

lemma sd_less_key: "sd_less a b \<longleftrightarrow> sd_key a < sd_key b"
  by (auto simp: sd_less_def sd_key_def less_prod_def)

lemma sd_eq_key: "sd_eq a b \<longleftrightarrow> sd_key a = sd_key b"
  by (auto simp: sd_eq_def sd_key_def)

lemma tid_less_key: "tid_less a b \<longleftrightarrow> tid_key a < tid_key b"
  by (auto simp: tid_less_def tid_key_def less_prod_def)

lemma tid_eq_key: "tid_eq a b \<longleftrightarrow> tid_key a = tid_key b"
  by (auto simp: tid_eq_def tid_key_def)

text \<open>
  What \<open>std::set\<close>, \<open>std::map\<close> and \<open>std::find\<close> rely on: the order is a strict weak
  order whose incomparable elements are exactly those \<open>operator==\<close> identifies.
\<close>

locale strict_weak_order =
  fixes less :: "'a \<Rightarrow> 'a \<Rightarrow> bool" and equiv :: "'a \<Rightarrow> 'a \<Rightarrow> bool"
  assumes irrefl: "\<not> less a a"
    and transitive: "less a b \<Longrightarrow> less b c \<Longrightarrow> less a c"
    and incomparable: "equiv a b \<longleftrightarrow> \<not> less a b \<and> \<not> less b a"
    and equiv_transitive: "equiv a b \<Longrightarrow> equiv b c \<Longrightarrow> equiv a c"
begin

lemma asymmetric: "less a b \<Longrightarrow> \<not> less b a"
  using irrefl transitive by blast

lemma trichotomy: "less a b \<or> equiv a b \<or> less b a"
  using incomparable by blast

lemma equiv_reflexive: "equiv a a"
  using incomparable irrefl by blast

lemma equiv_symmetric: "equiv a b \<Longrightarrow> equiv b a"
  using incomparable by blast

lemma less_equiv_trans: "less a b \<Longrightarrow> equiv b c \<Longrightarrow> less a c"
  using incomparable transitive equiv_transitive equiv_symmetric by metis

end

interpretation sd_order: strict_weak_order sd_less sd_eq
  by unfold_locales (auto simp: sd_less_key sd_eq_key)

interpretation tid_order: strict_weak_order tid_less tid_eq
  by unfold_locales (auto simp: tid_less_key tid_eq_key)

end
