(* ===== verification/Util.thy ===== *)
theory Util
  imports Protocol
begin

text \<open>
  The pure helpers of \<open>src/core/SharedCode/Util.cpp\<close>: splitting and replacing in strings,
  suffix test, the names of agent types, and the name of the file a testcase is kept in.
\<close>

section \<open>splitString\<close>

text \<open>
  The loop of \<open>splitString\<close>. The test for an empty token repeats the early return of the
  caller (with it the loop would not advance); it makes the recursion terminate.
\<close>

function split_loop :: "string \<Rightarrow> string \<Rightarrow> nat \<Rightarrow> string list \<Rightarrow> string list" where
  "split_loop str token curIndex result =
     (if token = [] then result
      else case str_find str token curIndex of
        Some nextIndex \<Rightarrow>
          split_loop str token (nextIndex + length token)
            (result @ [substr str curIndex (nextIndex - curIndex)])
      | None \<Rightarrow> result @ [drop curIndex str])"
  by pat_completeness auto
termination
  by (relation "measure (\<lambda>(str, token, i, result). Suc (length str) - i)")
     (auto dest!: str_find_bounds simp: neq_Nil_conv)

declare split_loop.simps [simp del]

definition splitString :: "string \<Rightarrow> string \<Rightarrow> string list" where
  "splitString str token =
     (if str = [] then ['''']
      else if token = [] then [str]
      else split_loop str token 0 [])"

fun join :: "string \<Rightarrow> string list \<Rightarrow> string" where
  "join sep [] = []"
| "join sep [x] = x"
| "join sep (x # y # ys) = x @ sep @ join sep (y # ys)"

definition occurs_in :: "string \<Rightarrow> string \<Rightarrow> bool" where
  "occurs_in t s \<longleftrightarrow> (\<exists>l \<le> length s. starts_with (drop l s) t)"

lemma join_Cons: "ys \<noteq> [] \<Longrightarrow> join sep (x # ys) = x @ sep @ join sep ys"
  by (cases ys) auto

lemma split_loop_acc:
  "split_loop str token i (r1 @ r2) = r1 @ split_loop str token i r2"
proof (induction str token i r2 rule: split_loop.induct)
  case (1 str token i r2)
  then show ?case
    by (cases "token = []"; cases "str_find str token i")
       (simp_all add: split_loop.simps [of str token i] split_loop.simps [of str "[]" i])
qed

lemma split_loop_Some:
  assumes "token \<noteq> []" and "str_find str token i = Some n"
  shows "split_loop str token i [] =
    substr str i (n - i) # split_loop str token (n + length token) []"
  using assms split_loop_acc [of str token "n + length token" "[substr str i (n - i)]" "[]"]
  by (simp add: split_loop.simps [of str token i])

lemma split_loop_None:
  "token \<noteq> [] \<Longrightarrow> str_find str token i = None \<Longrightarrow> split_loop str token i [] = [drop i str]"
  by (simp add: split_loop.simps [of str token i])

lemma split_loop_not_Nil: "token \<noteq> [] \<Longrightarrow> split_loop str token i [] \<noteq> []"
  by (cases "str_find str token i") (simp_all add: split_loop_Some split_loop_None)

text \<open>A match at \<open>n\<close> cuts the rest of the string in three.\<close>

lemma drop_match:
  assumes "str_find str token i = Some n"
  shows "drop i str = substr str i (n - i) @ token @ drop (n + length token) str"
proof -
  from str_find_Some [OF assms] have le: "i \<le> n" and st: "starts_with (drop n str) token" by auto
  have "drop i str = take (n - i) (drop i str) @ drop n str"
    using le by (metis append_take_drop_id drop_drop le_add_diff_inverse2)
  also have "drop n str = token @ drop (n + length token) str"
    using starts_withD [OF st] by (simp add: add.commute)
  finally show ?thesis by (simp add: substr_def)
qed

lemma join_split_loop: "token \<noteq> [] \<Longrightarrow> join token (split_loop str token i []) = drop i str"
proof (induction "Suc (length str) - i" arbitrary: i rule: less_induct)
  case less
  show ?case
  proof (cases "str_find str token i")
    case None
    with less.prems show ?thesis by (simp add: split_loop_None)
  next
    case (Some n)
    have "join token (split_loop str token (n + length token) []) = drop (n + length token) str"
      using less.prems str_find_bounds [OF Some] by (intro less.hyps) (auto simp: neq_Nil_conv)
    with less.prems Some show ?thesis
      by (simp add: split_loop_Some join_Cons split_loop_not_Nil drop_match [OF Some])
  qed
qed

text \<open>No piece contains the token.\<close>

lemma occurs_in_substr:
  assumes "occurs_in token (substr str i m)" and "i \<le> length str"
  shows "\<exists>l \<ge> i. l + length token \<le> i + m \<and> l \<le> length str \<and> starts_with (drop l str) token"
proof -
  from assms(1) obtain l where l: "l \<le> length (substr str i m)"
      and t: "take (length token) (drop l (substr str i m)) = token"
    by (auto simp: occurs_in_def starts_with_def)
  from t have len: "length token \<le> length (substr str i m) - l"
    by (metis length_drop length_take min.cobounded1 min.commute)
  have "take (length token) (drop l (take m (drop i str))) = take (length token) (drop (i + l) str)"
    using len l by (auto simp: substr_def drop_take min_def add.commute split: if_splits)
  with t l len assms(2) show ?thesis
    by (intro exI [of _ "i + l"]) (auto simp: substr_def starts_with_def)
qed

lemma split_loop_pieces:
  "token \<noteq> [] \<Longrightarrow> i \<le> length str \<Longrightarrow> p \<in> set (split_loop str token i []) \<Longrightarrow> \<not> occurs_in token p"
proof (induction "Suc (length str) - i" arbitrary: i rule: less_induct)
  case less
  show ?case
  proof (cases "str_find str token i")
    case None
    with less.prems have p: "p = drop i str" by (simp add: split_loop_None)
    show ?thesis
    proof
      assume "occurs_in token p"
      then obtain l where "l \<le> length str - i" "starts_with (drop (l + i) str) token"
        by (auto simp: p occurs_in_def)
      moreover from this less.prems(2) have "l + i \<le> length str" by simp
      ultimately show False using str_find_None [OF None, of "l + i"] by simp
    qed
  next
    case (Some n)
    note b = str_find_bounds [OF Some]
    from less.prems Some consider "p = substr str i (n - i)"
      | "p \<in> set (split_loop str token (n + length token) [])"
      by (auto simp: split_loop_Some)
    then show ?thesis
    proof cases
      case 1
      show ?thesis
      proof
        assume "occurs_in token p"
        with 1 occurs_in_substr [of token str i "n - i"] less.prems(2) b
        obtain l where l: "i \<le> l" "l + length token \<le> n" "starts_with (drop l str) token"
          by auto
        moreover from l less.prems(1) have "l < n" by (cases token) auto
        ultimately show False using str_find_Some(4) [OF Some, of l] by simp
      qed
    next
      case 2
      with less.prems(1) b show ?thesis by (intro less.hyps) (auto simp: neq_Nil_conv)
    qed
  qed
qed

lemma splitString_not_Nil [simp]: "splitString str token \<noteq> []"
  by (simp add: splitString_def split_loop_not_Nil)

lemma join_splitString: "join token (splitString str token) = str"
  by (simp add: splitString_def join_split_loop)

lemma splitString_pieces:
  assumes "token \<noteq> []" and "p \<in> set (splitString str token)"
  shows "\<not> occurs_in token p"
proof (cases "str = []")
  case True
  with assms show ?thesis by (auto simp: splitString_def occurs_in_def starts_with_def)
next
  case False
  with assms show ?thesis by (auto simp: splitString_def dest: split_loop_pieces [of token 0])
qed


text \<open>Splitting at a token of one character undoes joining pieces free of it.\<close>

lemma starts_with_single: "starts_with s [c] \<longleftrightarrow> s \<noteq> [] \<and> hd s = c"
  by (cases s) (auto simp: starts_with_def)

lemma occurs_in_single: "occurs_in [c] s \<longleftrightarrow> c \<in> set s"
proof -
  have "starts_with (drop l s) [c] \<longleftrightarrow> l < length s \<and> s ! l = c" for l
    by (cases "l < length s") (simp_all add: starts_with_single hd_drop_conv_nth)
  then have "occurs_in [c] s \<longleftrightarrow> (\<exists>l < length s. s ! l = c)"
    by (auto simp: occurs_in_def intro: less_imp_le)
  then show ?thesis by (auto simp: in_set_conv_nth)
qed

lemma find_from_single:
  "c \<notin> set xs \<Longrightarrow> find_from (xs @ c # ys) [c] i = Some (i + length xs)"
  "c \<notin> set xs \<Longrightarrow> find_from xs [c] i = None"
  by (induction xs arbitrary: i) (auto simp: starts_with_single)

lemma split_loop_shift:
  "c \<notin> set xs \<Longrightarrow> split_loop (pre @ xs @ c # ys) [c] (length pre) [] =
     xs # split_loop ((pre @ xs @ [c]) @ ys) [c] (length (pre @ xs @ [c])) []"
  by (subst split_loop_Some [where n = "length pre + length xs"])
     (simp_all add: str_find_def find_from_single substr_def)

lemma split_loop_last:
  "c \<notin> set xs \<Longrightarrow> split_loop (pre @ xs) [c] (length pre) [] = [xs]"
  by (subst split_loop_None) (simp_all add: str_find_def find_from_single)

lemma split_loop_join:
  "ps \<noteq> [] \<Longrightarrow> \<forall>p \<in> set ps. c \<notin> set p \<Longrightarrow>
     split_loop (pre @ join [c] ps) [c] (length pre) [] = ps"
proof (induction ps arbitrary: pre)
  case Nil
  then show ?case by simp
next
  case (Cons p ps)
  show ?case
  proof (cases "ps = []")
    case True
    with Cons.prems show ?thesis by (simp add: split_loop_last)
  next
    case False
    have "split_loop ((pre @ p @ [c]) @ join [c] ps) [c] (length (pre @ p @ [c])) [] = ps"
      using Cons.prems False by (intro Cons.IH) auto
    moreover have "split_loop (pre @ p @ c # join [c] ps) [c] (length pre) [] =
        p # split_loop ((pre @ p @ [c]) @ join [c] ps) [c] (length (pre @ p @ [c])) []"
      using Cons.prems by (intro split_loop_shift) simp
    ultimately show ?thesis using False by (simp add: join_Cons)
  qed
qed

lemma join_eq_Nil: "join [c] ps = [] \<Longrightarrow> ps \<noteq> [] \<Longrightarrow> ps = [[]]"
  by (cases "([c], ps)" rule: join.cases) auto

lemma splitString_join:
  assumes "ps \<noteq> []" and "\<forall>p \<in> set ps. c \<notin> set p"
  shows "splitString (join [c] ps) [c] = ps"
  using assms split_loop_join [where pre = "[]", OF assms] join_eq_Nil [OF _ assms(1)]
  by (auto simp: splitString_def)

section \<open>replaceAll\<close>

text \<open>
  The loop has no bound of its own: with an empty search string it finds a match at every
  position. It is therefore a partial function, \<open>None\<close> when it does not return.
\<close>

partial_function (option) replace_loop ::
    "string \<Rightarrow> string \<Rightarrow> string \<Rightarrow> nat \<Rightarrow> string option" where
  "replace_loop s search replacement pos =
     (case str_find s search pos of
        None \<Rightarrow> Some s
      | Some p \<Rightarrow>
          replace_loop (take p s @ replacement @ drop (p + length search) s)
            search replacement (p + length replacement))"

definition replaceAll :: "string \<Rightarrow> string \<Rightarrow> string \<Rightarrow> string option" where
  "replaceAll s search replacement = replace_loop s search replacement 0"

lemma str_find_append:
  "str_find (pre @ s) t (length pre + i) = map_option (\<lambda>j. length pre + j) (str_find s t i)"
proof -
  have "find_from xs t (k + i) = map_option (\<lambda>j. k + j) (find_from xs t i)" for xs k i
    by (induction xs t i arbitrary: k rule: find_from.induct) (auto simp flip: add_Suc_right)
  then show ?thesis by (simp add: str_find_def)
qed

text \<open>
  For a non-empty search string the loop returns, and what it returns is the pieces of
  \<open>splitString\<close> joined by the replacement.
\<close>

lemma replace_loop_eq:
  assumes "search \<noteq> []"
  shows "replace_loop (pre @ drop i str) search replacement (length pre)
    = Some (pre @ join replacement (split_loop str search i []))"
proof (induction "Suc (length str) - i" arbitrary: i pre rule: less_induct)
  case less
  show ?case
  proof (cases "i \<le> length str")
    case False
    then have nf: "str_find str search i = None" by (simp add: str_find_def)
    have "str_find pre search (length pre) = None"
      using assms str_find_append [of pre "[]" search 0] by (simp add: str_find_def)
    with False nf assms show ?thesis
      by (simp add: replace_loop.simps split_loop_None)
  next
    case True
    have shift: "str_find str search i = map_option (\<lambda>j. i + j) (str_find (drop i str) search 0)"
      using str_find_append [of "take i str" "drop i str" search 0] True by simp
    have shift': "str_find (pre @ drop i str) search (length pre)
        = map_option (\<lambda>j. length pre + j) (str_find (drop i str) search 0)"
      using str_find_append [of pre "drop i str" search 0] by simp
    show ?thesis
    proof (cases "str_find (drop i str) search 0")
      case None
      with shift shift' assms show ?thesis
        by (simp add: replace_loop.simps split_loop_None)
    next
      case (Some j)
      with shift have n: "str_find str search i = Some (i + j)" by simp
      note b = str_find_bounds [OF n]
      let ?pre = "pre @ take j (drop i str) @ replacement"
      have "replace_loop (?pre @ drop (i + j + length search) str) search replacement (length ?pre)
          = Some (?pre @ join replacement (split_loop str search (i + j + length search) []))"
        using b assms by (intro less.hyps) (auto simp: neq_Nil_conv)
      moreover have "length (take j (drop i str)) = j" using b by simp
      ultimately show ?thesis
        using Some n shift' assms
        by (subst replace_loop.simps)
           (simp add: split_loop_Some join_Cons split_loop_not_Nil substr_def ac_simps)
    qed
  qed
qed

lemma replaceAll_eq:
  assumes "search \<noteq> []"
  shows "replaceAll s search replacement = Some (join replacement (splitString s search))"
proof (cases "s = []")
  case True
  with assms show ?thesis
    by (simp add: replaceAll_def replace_loop.simps splitString_def str_find_def)
next
  case False
  with assms replace_loop_eq [OF assms, of "[]" 0 s] show ?thesis
    by (simp add: replaceAll_def splitString_def)
qed

lemma replace_loop_empty_search:
  assumes "replace_loop s search replacement pos = Some r" and "search = []"
  shows "length s < pos"
proof -
  have "search = [] \<longrightarrow> length s < pos"
  proof (rule replace_loop.raw_induct
      [where P = "\<lambda>s search replacement pos r. search = [] \<longrightarrow> length s < pos", OF _ assms(1)])
    fix f :: "string \<Rightarrow> string \<Rightarrow> string \<Rightarrow> nat \<Rightarrow> string option"
      and s search replacement :: string and pos r
    assume IH: "\<And>s search replacement pos r.
        f s search replacement pos = Some r \<Longrightarrow> search = [] \<longrightarrow> length s < pos"
      and eq: "(case str_find s search pos of None \<Rightarrow> Some s
        | Some p \<Rightarrow> f (take p s @ replacement @ drop (p + length search) s)
            search replacement (p + length replacement)) = Some r"
    show "search = [] \<longrightarrow> length s < pos"
    proof (intro impI, rule ccontr)
      assume e: "search = []" and "\<not> length s < pos"
      then have found: "str_find s search pos = Some pos"
        by (cases "drop pos s") (simp_all add: str_find_def starts_with_def)
      with eq IH e \<open>\<not> length s < pos\<close> show False by fastforce
    qed
  qed
  with assms(2) show ?thesis by simp
qed

lemma replaceAll_empty_search: "replaceAll s [] replacement = None"
  using replace_loop_empty_search [of s "[]" replacement 0]
  by (cases "replaceAll s [] replacement") (auto simp: replaceAll_def)

section \<open>stringHasEnding, agentTypeToString\<close>

definition stringHasEnding :: "string \<Rightarrow> string \<Rightarrow> bool" where
  "stringHasEnding fullString ending =
     (if length ending \<le> length fullString
      then substr fullString (length fullString - length ending) (length ending) = ending
      else False)"

definition agentTypeToString :: "AgentType \<Rightarrow> string" where
  "agentTypeToString a = (case a of
     TestcaseGenerator \<Rightarrow> ''TG''
   | TestcaseRunner \<Rightarrow> ''TR''
   | TestcaseEvaluator \<Rightarrow> ''TE''
   | GlobalManager \<Rightarrow> ''GM''
   | LocalManager \<Rightarrow> ''LM''
   | _ \<Rightarrow> ''INVALID AgentType'')"

lemma stringHasEnding_iff: "stringHasEnding s e \<longleftrightarrow> (\<exists>p. s = p @ e)"
proof
  assume "stringHasEnding s e"
  then have "drop (length s - length e) s = e"
    by (auto simp: stringHasEnding_def substr_def split: if_splits)
  then show "\<exists>p. s = p @ e" by (metis append_take_drop_id)
qed (auto simp: stringHasEnding_def substr_def)

section \<open>Testcase files\<close>

text \<open>\<open>pathSeperator\<close> is the POSIX one; the Windows build has a backslash.\<close>

definition pathSeperator :: string where
  "pathSeperator = ''/''"

definition generateTestcasePathAndFilename :: "FluffiTestcaseID \<Rightarrow> string \<Rightarrow> string" where
  "generateTestcasePathAndFilename testcaseID testcaseDir =
     testcaseDir @ pathSeperator @ m_guid (m_serviceDescriptor testcaseID) @ ''-'' @
     to_string (unat (m_localID testcaseID))"

text \<open>Two testcases share a file name only when \<open>operator==\<close> identifies them.\<close>

lemma append_digits_inject:
  assumes "x @ CHR ''-'' # ds = y @ CHR ''-'' # es"
    and "\<forall>c \<in> set ds. is_digit c" and "\<forall>c \<in> set es. is_digit c"
  shows "x = y \<and> ds = es"
proof -
  have d: "CHR ''-'' \<notin> set ds" and e: "CHR ''-'' \<notin> set es"
    using assms(2,3) by (auto dest: is_digit_not_special)
  have tw: "takeWhile (\<lambda>c. c \<noteq> CHR ''-'') (rev zs @ CHR ''-'' # w) = rev zs"
    if "CHR ''-'' \<notin> set zs" for zs w
    using that by (subst takeWhile_append2) auto
  from arg_cong [OF assms(1), of rev]
  have r: "rev ds @ CHR ''-'' # rev x = rev es @ CHR ''-'' # rev y" by simp
  have "rev ds = rev es"
    using tw [OF d, of "rev x"] tw [OF e, of "rev y"] r by simp
  with r show ?thesis by simp
qed

lemma generateTestcasePathAndFilename_eq_iff:
  "generateTestcasePathAndFilename a dir = generateTestcasePathAndFilename b dir \<longleftrightarrow>
     tid_key a = tid_key b"
proof
  assume "generateTestcasePathAndFilename a dir = generateTestcasePathAndFilename b dir"
  then have "tid_guid a @ CHR ''-'' # to_string (unat (m_localID a))
      = tid_guid b @ CHR ''-'' # to_string (unat (m_localID b))"
    by (simp add: generateTestcasePathAndFilename_def)
  from append_digits_inject [OF this to_string_digits to_string_digits]
  show "tid_key a = tid_key b" by (simp add: tid_key_def word_unat_eq_iff)
qed (simp add: generateTestcasePathAndFilename_def tid_key_def)

end
