(* ===== verification/Agent.thy ===== *)
theory Agent
  imports Util
begin

text \<open>
  The state of an agent process that the shared code works on, the environment it runs in,
  and the garbage collector for testcase files (\<open>GarbageCollectorWorker.cpp\<close>).

  The environment answers every question the code asks the operating system, the network or a
  random number generator. Each such interaction takes one \<open>tick\<close>, so that answers may
  differ from call to call; theorems hold for every environment unless they say otherwise.
\<close>

section \<open>Environment and state\<close>

datatype net_result = SendTimeout | SendError | RecvTimeout | RecvError | Reply FLUFFIMessage

record env =
  env_rnd :: "nat \<Rightarrow> nat"                                    \<comment> \<open>raw random draws\<close>
  env_remove_ok :: "nat \<Rightarrow> string \<Rightarrow> bool"                   \<comment> \<open>\<open>std::remove\<close> on an existing file\<close>
  env_open_ok :: "nat \<Rightarrow> string \<Rightarrow> bool"                     \<comment> \<open>\<open>fopen\<close> for writing\<close>
  env_rename_ok :: "nat \<Rightarrow> string \<Rightarrow> bool"                   \<comment> \<open>\<open>std::rename\<close> of an existing file\<close>
  env_stop :: "nat \<Rightarrow> bool"                                   \<comment> \<open>\<open>m_stopRequested\<close> when polled\<close>
  env_kbhit :: "nat \<Rightarrow> bool"                                  \<comment> \<open>a key was pressed\<close>
  env_clock :: "nat \<Rightarrow> int"                                   \<comment> \<open>steady clock, milliseconds\<close>
  env_net :: "nat \<Rightarrow> string \<Rightarrow> FLUFFIMessage \<Rightarrow> net_result"   \<comment> \<open>one request to a peer\<close>
  env_uninit :: "nat \<Rightarrow> bool"                                 \<comment> \<open>value of an unwritten \<open>bool\<close>\<close>
  env_heap :: "nat \<Rightarrow> nat \<Rightarrow> bytes"                           \<comment> \<open>content of a fresh buffer\<close>

record agent =
  tick :: nat
  files :: "string \<rightharpoonup> bytes"
  m_setOfFilesToDelete :: "string list"
  m_waitedMS :: int
  m_intervallMS :: int
  m_zeroMQSockets :: "((string \<times> int) \<times> bool) list"         \<comment> \<open>True: awaiting a reply\<close>
  m_resetClock :: int
  m_lastRoundTripTimes :: "32 word list"
  m_lastUpdatedRoundTripTime :: nat
  m_lmServiceDescriptor :: FluffiServiceDescriptor
  m_ownHAP :: string
  m_ownGUID :: string

abbreviation next_tick :: "agent \<Rightarrow> agent" where
  "next_tick a \<equiv> a\<lparr>tick := Suc (tick a)\<rparr>"

text \<open>\<open>std::remove\<close>: it fails on a missing file, and may fail on an existing one.\<close>

definition fs_remove :: "env \<Rightarrow> string \<Rightarrow> agent \<Rightarrow> bool \<times> agent" where
  "fs_remove E f a =
     (if files a f \<noteq> None \<and> env_remove_ok E (tick a) f
      then (True, (next_tick a)\<lparr>files := (files a)(f := None)\<rparr>)
      else (False, next_tick a))"

section \<open>A quiet environment\<close>

text \<open>
  For the witnesses: an environment in which every operation succeeds, nobody asks for a
  stop and no peer answers, and an agent that has just started.
\<close>

definition quiet_env :: env where
  "quiet_env = \<lparr>env_rnd = (\<lambda>_. 0), env_remove_ok = (\<lambda>_ _. True), env_open_ok = (\<lambda>_ _. True),
     env_rename_ok = (\<lambda>_ _. True), env_stop = (\<lambda>_. False), env_kbhit = (\<lambda>_. False),
     env_clock = int, env_net = (\<lambda>_ _ _. RecvTimeout), env_uninit = (\<lambda>_. False),
     env_heap = (\<lambda>_ n. replicate n (CHR 0x00))\<rparr>"

definition fresh_agent :: agent where
  "fresh_agent = \<lparr>tick = 0, files = Map.empty, m_setOfFilesToDelete = [], m_waitedMS = 0,
     m_intervallMS = 1000, m_zeroMQSockets = [], m_resetClock = 0,
     m_lastRoundTripTimes = replicate 20 0, m_lastUpdatedRoundTripTime = 0,
     m_lmServiceDescriptor = mkServiceDescriptor '''' '''', m_ownHAP = '''', m_ownGUID = ''''\<rparr>"

section \<open>GarbageCollectorWorker\<close>

definition markFileForDelete :: "string \<Rightarrow> agent \<Rightarrow> agent" where
  "markFileForDelete fileToDelete a =
     a\<lparr>m_setOfFilesToDelete := set_insert (\<lambda>x. x) fileToDelete (m_setOfFilesToDelete a)\<rparr>"

definition isFileMarkedForDeletion :: "string \<Rightarrow> agent \<Rightarrow> bool" where
  "isFileMarkedForDeletion candidate a = list_ex (\<lambda>f. f = candidate) (m_setOfFilesToDelete a)"

definition collectNow :: "agent \<Rightarrow> agent" where
  "collectNow a = a\<lparr>m_waitedMS := m_intervallMS a\<rparr>"

text \<open>
  \<open>uniform_int_distribution(0, size - 1)\<close> yields some index of the set; the iterator is
  advanced so far and its element erased.
\<close>

definition getRandomFileToDelete :: "env \<Rightarrow> agent \<Rightarrow> string \<times> agent" where
  "getRandomFileToDelete E a =
     (let S = m_setOfFilesToDelete a in
      if length S = 0 then ('''', a)
      else let i = env_rnd E (tick a) mod length S
           in (S ! i, (next_tick a)\<lparr>m_setOfFilesToDelete := take i S @ drop (Suc i) S\<rparr>))"

fun collect_loop :: "env \<Rightarrow> nat \<Rightarrow> agent \<Rightarrow> agent" where
  "collect_loop E 0 a = a"
| "collect_loop E (Suc n) a =
     (let (fileToDelete, a) = getRandomFileToDelete E a in
      if fileToDelete = '''' then a
      else if files a fileToDelete = None then collect_loop E n a
      else let (removed, a) = fs_remove E fileToDelete a in
           if \<not> removed then collect_loop E n (markFileForDelete fileToDelete a)
           else collect_loop E n a)"

definition collectGarbage :: "env \<Rightarrow> agent \<Rightarrow> agent" where
  "collectGarbage E a = collect_loop E (length (m_setOfFilesToDelete a) * 10) a"

text \<open>One pass of the loop of \<open>workerMain\<close>: it wakes every 500 ms and collects when due.\<close>

definition gc_worker_pass :: "env \<Rightarrow> agent \<Rightarrow> agent" where
  "gc_worker_pass E a =
     (let checkAgainMS = 500 in
      if m_waitedMS a < m_intervallMS a then a\<lparr>m_waitedMS := m_waitedMS a + checkAgainMS\<rparr>
      else collectGarbage E (a\<lparr>m_waitedMS := 0\<rparr>))"

text \<open>The destructor tries each file that is left up to a hundred times.\<close>

fun delete_tries :: "env \<Rightarrow> nat \<Rightarrow> string \<Rightarrow> agent \<Rightarrow> bool \<times> agent" where
  "delete_tries E 0 f a = (False, a)"
| "delete_tries E (Suc n) f a =
     (let (removed, a) = fs_remove E f a in if removed then (True, a) else delete_tries E n f a)"

definition gc_destructor :: "env \<Rightarrow> agent \<Rightarrow> agent" where
  "gc_destructor E a = fold (\<lambda>f a. snd (delete_tries E 100 f a)) (m_setOfFilesToDelete a) a"

subsection \<open>Facts on the single operations\<close>

named_theorems gc \<open>field facts on garbage collector operations\<close>

lemma set_remove_nth: "i < length xs \<Longrightarrow> insert (xs ! i) (set (take i xs @ drop (Suc i) xs)) = set xs"
  by (metis Un_insert_right id_take_nth_drop list.simps(15) set_append)

lemma oset_remove_nth: "oset_by k xs \<Longrightarrow> oset_by k (take i xs @ drop (Suc i) xs)"
proof (induction xs arbitrary: i)
  case Nil
  then show ?case by simp
next
  case (Cons x xs)
  then show ?case
    by (cases i) (auto dest: in_set_takeD in_set_dropD)
qed

lemma fs_remove_simps [gc]:
  "m_setOfFilesToDelete (snd (fs_remove E f a)) = m_setOfFilesToDelete a"
  "fst (fs_remove E f a) \<longleftrightarrow> files a f \<noteq> None \<and> env_remove_ok E (tick a) f"
  "files (snd (fs_remove E f a)) = (if fst (fs_remove E f a) then (files a)(f := None) else files a)"
  by (auto simp: fs_remove_def)

lemma markFileForDelete_simps [gc]:
  "set (m_setOfFilesToDelete (markFileForDelete f a)) = insert f (set (m_setOfFilesToDelete a))"
  "files (markFileForDelete f a) = files a"
  "tick (markFileForDelete f a) = tick a"
  by (auto simp: markFileForDelete_def oset)

lemma markFileForDelete_oset:
  "oset_by (\<lambda>x. x) (m_setOfFilesToDelete a) \<Longrightarrow>
     oset_by (\<lambda>x. x) (m_setOfFilesToDelete (markFileForDelete f a))"
  by (simp add: markFileForDelete_def set_insert_oset)

lemma isFileMarked_iff [gc]:
  "isFileMarkedForDeletion f a \<longleftrightarrow> f \<in> set (m_setOfFilesToDelete a)"
  by (auto simp: isFileMarkedForDeletion_def list_ex_iff)

lemma collectNow_simps [gc]:
  "m_setOfFilesToDelete (collectNow a) = m_setOfFilesToDelete a"
  "files (collectNow a) = files a"
  by (simp_all add: collectNow_def)

lemma getRandomFileToDelete_files [gc]: "files (snd (getRandomFileToDelete E a)) = files a"
  by (simp add: getRandomFileToDelete_def Let_def)

lemma getRandomFileToDelete_cases:
  assumes "getRandomFileToDelete E a = (f, a')"
  obtains (empty) "m_setOfFilesToDelete a = []" "f = ''''" "a' = a"
  | (pick) "m_setOfFilesToDelete a \<noteq> []"
      "set (m_setOfFilesToDelete a) = insert f (set (m_setOfFilesToDelete a'))"
      "length (m_setOfFilesToDelete a) = Suc (length (m_setOfFilesToDelete a'))"
      "files a' = files a"
proof (cases "m_setOfFilesToDelete a = []")
  case True
  with assms show ?thesis by (intro empty) (simp_all add: getRandomFileToDelete_def)
next
  case False
  let ?S = "m_setOfFilesToDelete a" let ?i = "env_rnd E (tick a) mod length ?S"
  from False have i: "?i < length ?S" by simp
  from False assms have eqs: "f = ?S ! ?i"
      "m_setOfFilesToDelete a' = take ?i ?S @ drop (Suc ?i) ?S" "files a' = files a"
    by (auto simp: getRandomFileToDelete_def Let_def)
  show ?thesis
  proof (rule pick [OF False])
    show "set ?S = insert f (set (m_setOfFilesToDelete a'))"
      unfolding eqs using set_remove_nth [OF i] by simp
    show "length ?S = Suc (length (m_setOfFilesToDelete a'))"
      unfolding eqs using i by simp
    show "files a' = files a" by (rule eqs)
  qed
qed

lemma getRandomFileToDelete_oset:
  "oset_by (\<lambda>x. x) (m_setOfFilesToDelete a) \<Longrightarrow>
     oset_by (\<lambda>x. x) (m_setOfFilesToDelete (snd (getRandomFileToDelete E a)))"
  by (simp add: getRandomFileToDelete_def Let_def oset_remove_nth)

subsection \<open>A collection round\<close>

text \<open>One invariant relates the state before and after: what the collector may do.\<close>

definition gc_safe :: "agent \<Rightarrow> agent \<Rightarrow> bool" where
  "gc_safe a a' \<longleftrightarrow>
     set (m_setOfFilesToDelete a') \<subseteq> set (m_setOfFilesToDelete a) \<and>
     (\<forall>f. f \<notin> set (m_setOfFilesToDelete a) \<longrightarrow> files a' f = files a f) \<and>
     (\<forall>f. files a' f = None \<or> files a' f = files a f) \<and>
     (\<forall>f. f \<in> set (m_setOfFilesToDelete a) \<longrightarrow> f \<noteq> '''' \<longrightarrow>
        f \<in> set (m_setOfFilesToDelete a') \<or> files a' f = None)"

lemma gc_safe_refl: "gc_safe a a"
  by (simp add: gc_safe_def)

lemma gc_safeD:
  assumes "gc_safe a b"
  shows "f \<in> set (m_setOfFilesToDelete b) \<Longrightarrow> f \<in> set (m_setOfFilesToDelete a)"
    and "f \<notin> set (m_setOfFilesToDelete a) \<Longrightarrow> files b f = files a f"
    and "files b f = None \<or> files b f = files a f"
    and "f \<in> set (m_setOfFilesToDelete a) \<Longrightarrow> f \<noteq> '''' \<Longrightarrow>
           f \<in> set (m_setOfFilesToDelete b) \<or> files b f = None"
proof -
  note c = assms [unfolded gc_safe_def]
  note d = c [THEN conjunct2] note e = d [THEN conjunct2]
  show "f \<in> set (m_setOfFilesToDelete b) \<Longrightarrow> f \<in> set (m_setOfFilesToDelete a)"
    by (rule subsetD [OF c [THEN conjunct1]])
  show "f \<notin> set (m_setOfFilesToDelete a) \<Longrightarrow> files b f = files a f"
    by (rule d [THEN conjunct1, THEN spec, THEN mp])
  show "files b f = None \<or> files b f = files a f"
    by (rule e [THEN conjunct1, THEN spec])
  show "f \<in> set (m_setOfFilesToDelete a) \<Longrightarrow> f \<noteq> '''' \<Longrightarrow>
      f \<in> set (m_setOfFilesToDelete b) \<or> files b f = None"
    by (rule e [THEN conjunct2, THEN spec, THEN mp, THEN mp])
qed

lemma gc_safe_trans:
  assumes ab: "gc_safe a b" and bc: "gc_safe b c"
  shows "gc_safe a c"
  unfolding gc_safe_def
proof (intro conjI allI impI subsetI)
  fix f
  show "files c f = None \<or> files c f = files a f"
    using gc_safeD(3) [OF ab, of f] gc_safeD(3) [OF bc, of f] by auto
  show "f \<in> set (m_setOfFilesToDelete c) \<Longrightarrow> f \<in> set (m_setOfFilesToDelete a)"
    using gc_safeD(1) [OF ab] gc_safeD(1) [OF bc] by blast
  show "f \<notin> set (m_setOfFilesToDelete a) \<Longrightarrow> files c f = files a f"
    using gc_safeD(1,2) [OF ab, of f] gc_safeD(2) [OF bc, of f] by auto
  show "f \<in> set (m_setOfFilesToDelete a) \<Longrightarrow> f \<noteq> '''' \<Longrightarrow>
      f \<in> set (m_setOfFilesToDelete c) \<or> files c f = None"
    using gc_safeD(4) [OF ab, of f] gc_safeD(3,4) [OF bc, of f] by auto
qed

text \<open>The body of the loop, as one step: pick a file, delete it or mark it again.\<close>

definition collect_step :: "env \<Rightarrow> agent \<Rightarrow> agent" where
  "collect_step E a =
     (let (fileToDelete, a) = getRandomFileToDelete E a in
      if fileToDelete = '''' \<or> files a fileToDelete = None then a
      else let (removed, a) = fs_remove E fileToDelete a in
           if \<not> removed then markFileForDelete fileToDelete a else a)"

lemma collect_loop_step:
  "collect_loop E (Suc n) a =
     (if fst (getRandomFileToDelete E a) = '''' then collect_step E a
      else collect_loop E n (collect_step E a))"
  by (auto simp: collect_step_def Let_def split: prod.splits)

lemma collect_step_safe: "gc_safe a (collect_step E a)"
proof (cases "getRandomFileToDelete E a")
  case (Pair f a')
  from Pair show ?thesis
  proof (cases rule: getRandomFileToDelete_cases)
    case empty
    with Pair show ?thesis by (simp add: collect_step_def gc_safe_refl)
  next
    case pick
    show ?thesis
    proof (cases "f = '''' \<or> files a f = None")
      case True
      with pick Pair have st: "collect_step E a = a'" by (auto simp: collect_step_def)
      have kept: "\<forall>g. g \<in> set (m_setOfFilesToDelete a) \<longrightarrow> g \<noteq> '''' \<longrightarrow>
          g \<in> set (m_setOfFilesToDelete a') \<or> files a' g = None"
        using True pick by auto
      show ?thesis
        unfolding gc_safe_def st by (intro conjI kept) (auto simp: pick)
    next
      case False
      show ?thesis
      proof (cases "fst (fs_remove E f a')")
        case True
        with False pick Pair have "collect_step E a = snd (fs_remove E f a')"
          by (auto simp: collect_step_def split_beta)
        with True pick show ?thesis by (auto simp: gc_safe_def gc)
      next
        case ref: False
        with False pick Pair have "collect_step E a = markFileForDelete f (snd (fs_remove E f a'))"
          by (auto simp: collect_step_def split_beta)
        with ref pick show ?thesis by (auto simp: gc_safe_def gc)
      qed
    qed
  qed
qed

lemma collect_loop_safe: "gc_safe a (collect_loop E n a)"
proof (induction n arbitrary: a)
  case 0
  show ?case by (simp add: gc_safe_refl)
next
  case (Suc n)
  then show ?case
    by (auto simp only: collect_loop_step split: if_split
        intro: collect_step_safe gc_safe_trans [OF collect_step_safe])
qed

lemma collectGarbage_safe: "gc_safe a (collectGarbage E a)"
  by (simp add: collectGarbage_def collect_loop_safe)

lemma collect_step_oset:
  "oset_by (\<lambda>x. x) (m_setOfFilesToDelete a) \<Longrightarrow>
     oset_by (\<lambda>x. x) (m_setOfFilesToDelete (collect_step E a))"
  using getRandomFileToDelete_oset [of a E]
  by (auto simp: collect_step_def fs_remove_def markFileForDelete_oset split: prod.splits)

lemma collect_loop_oset:
  "oset_by (\<lambda>x. x) (m_setOfFilesToDelete a) \<Longrightarrow>
     oset_by (\<lambda>x. x) (m_setOfFilesToDelete (collect_loop E n a))"
proof (induction n arbitrary: a)
  case (Suc n)
  then show ?case by (simp only: collect_loop_step collect_step_oset split: if_split) simp
qed simp

lemma collectGarbage_oset:
  "oset_by (\<lambda>x. x) (m_setOfFilesToDelete a) \<Longrightarrow>
     oset_by (\<lambda>x. x) (m_setOfFilesToDelete (collectGarbage E a))"
  by (simp add: collectGarbage_def collect_loop_oset)

text \<open>When no deletion is refused, a round empties the set: each step takes a file out.\<close>

lemma collect_step_shrinks:
  assumes ok: "\<And>k f. env_remove_ok E k f" and ne: "m_setOfFilesToDelete a \<noteq> []"
  shows "Suc (length (m_setOfFilesToDelete (collect_step E a))) = length (m_setOfFilesToDelete a)"
proof (cases "getRandomFileToDelete E a")
  case (Pair f a')
  from Pair show ?thesis
  proof (cases rule: getRandomFileToDelete_cases)
    case empty
    with ne show ?thesis by simp
  next
    case pick
    with Pair ok show ?thesis by (simp add: collect_step_def fs_remove_def)
  qed
qed

lemma collect_loop_empties:
  assumes ok: "\<And>k f. env_remove_ok E k f"
  shows "'''' \<notin> set (m_setOfFilesToDelete a) \<Longrightarrow> length (m_setOfFilesToDelete a) \<le> n \<Longrightarrow>
    m_setOfFilesToDelete (collect_loop E n a) = []"
proof (induction n arbitrary: a)
  case 0
  then show ?case by simp
next
  case (Suc n)
  show ?case
  proof (cases "m_setOfFilesToDelete a = []")
    case True
    then show ?thesis by (simp add: getRandomFileToDelete_def)
  next
    case False
    obtain f a' where P: "getRandomFileToDelete E a = (f, a')" by fastforce
    from P have "fst (getRandomFileToDelete E a) \<in> set (m_setOfFilesToDelete a)"
      using False by (cases rule: getRandomFileToDelete_cases) (simp_all add: P)
    with Suc.prems(1) have "fst (getRandomFileToDelete E a) \<noteq> ''''" by metis
    then have "collect_loop E (Suc n) a = collect_loop E n (collect_step E a)"
      by (simp only: collect_loop_step if_False)
    moreover have "m_setOfFilesToDelete (collect_loop E n (collect_step E a)) = []"
    proof (rule Suc.IH)
      show "'''' \<notin> set (m_setOfFilesToDelete (collect_step E a))"
        using Suc.prems(1) gc_safeD(1) [OF collect_step_safe] by blast
      show "length (m_setOfFilesToDelete (collect_step E a)) \<le> n"
        using Suc.prems(2) collect_step_shrinks [where E = E, OF ok False] by simp
    qed
    ultimately show ?thesis by simp
  qed
qed

lemma collectGarbage_empties:
  assumes "\<And>k f. env_remove_ok E k f" and "'''' \<notin> set (m_setOfFilesToDelete a)"
  shows "m_setOfFilesToDelete (collectGarbage E a) = []"
  using assms by (simp add: collectGarbage_def collect_loop_empties)

end
