(* ===== verification/DBServer.thy ===== *)
theory DBServer
  imports Agent
begin

text \<open>
  The database server that both managers use (\<open>mysql_query\<close>, \<open>mysql_stmt_execute\<close>). It is not
  under the repository: whether it carries out a statement is the oracle \<open>db_ok\<close>, its clock is
  \<open>db_now\<close>, and the order in which it delivers the rows of a query that has no \<open>ORDER BY\<close> is
  \<open>db_order\<close>. A statement that it carries out has the effect that SQL gives it, or fails on a
  violated constraint; one statement is atomic. The tables of each manager extend the record \<open>server\<close>.
\<close>

record server =
  stmt_no :: nat

record dbenv =
  db_ok :: "nat \<Rightarrow> bool"
  db_now :: "nat \<Rightarrow> int"
  db_order :: "nat \<Rightarrow> nat list \<Rightarrow> nat list"

abbreviation next_stmt :: "'t server_scheme \<Rightarrow> 't server_scheme" where
  "next_stmt s \<equiv> s\<lparr>stmt_no := Suc (stmt_no s)\<rparr>"

text \<open>A statement that changes tables; its effect is \<open>None\<close> on a violated constraint.\<close>

definition exec_stmt ::
    "dbenv \<Rightarrow> (int \<Rightarrow> 't server_scheme \<Rightarrow> 't server_scheme option) \<Rightarrow> 't server_scheme \<Rightarrow> bool \<times> 't server_scheme" where
  "exec_stmt D f s =
     (if \<not> db_ok D (stmt_no s) then (False, next_stmt s)
      else case f (db_now D (stmt_no s)) s of
        None \<Rightarrow> (False, next_stmt s)
      | Some s' \<Rightarrow> (True, s'\<lparr>stmt_no := Suc (stmt_no s)\<rparr>))"

definition query :: "dbenv \<Rightarrow> ('t server_scheme \<Rightarrow> 'r) \<Rightarrow> 't server_scheme \<Rightarrow> 'r option \<times> 't server_scheme" where
  "query D f s = (if db_ok D (stmt_no s) then Some (f s) else None, next_stmt s)"

text \<open>\<open>SET TRANSACTION ISOLATION LEVEL\<close>: the code only logs a failure.\<close>

definition set_isolation :: "'t server_scheme \<Rightarrow> 't server_scheme" where
  "set_isolation s = next_stmt s"

text \<open>An age limit in seconds is bound as an unsigned 32-bit number.\<close>

definition older_than :: "int \<Rightarrow> int \<Rightarrow> int \<Rightarrow> bool" where
  "older_than now secs t \<longleftrightarrow> t < now - uint (word_of_int secs :: 32 word)"

text \<open>An invariant that does not mention the statement counter survives a statement.\<close>

lemma exec_stmt_inv:
  assumes "I s" and "\<And>s n. I (s\<lparr>stmt_no := n\<rparr>) = I s" and "\<And>now s'. f now s = Some s' \<Longrightarrow> I s'"
  shows "I (snd (exec_stmt D f s))"
  using assms by (simp add: exec_stmt_def split: option.splits)

lemma exec_stmt_cases:
  assumes "exec_stmt D f s = (ok, s')"
  obtains (failed) "\<not> ok" "s' = next_stmt s"
  | (executed) t where "ok" "db_ok D (stmt_no s)" "f (db_now D (stmt_no s)) s = Some t"
      "s' = t\<lparr>stmt_no := Suc (stmt_no s)\<rparr>"
  using assms by (auto simp: exec_stmt_def split: if_splits option.splits)

lemma exec_stmt_ok:
  assumes "db_ok D (stmt_no s)" and "f (db_now D (stmt_no s)) s = Some t"
  shows "exec_stmt D f s = (True, t\<lparr>stmt_no := Suc (stmt_no s)\<rparr>)"
  using assms by (simp add: exec_stmt_def)

end
