(* ===== verification/LMTables.thy ===== *)
theory LMTables
  imports DBServer
begin

text \<open>
  The tables of the local manager's database and the statements run on them. The schema is
  \<open>createLMDB.sql\<close>: one record per table row, one list per table in the order of the primary
  key, with the \<open>AUTO_INCREMENT\<close> counters, the \<open>UNIQUE\<close> keys and the foreign keys (deletions
  cascade from a testcase to its covered blocks and its crash description).
\<close>

section \<open>Rows and tables\<close>

datatype TestCaseType = Population | Hang_type | Exception_AccessViolation_type
  | Exception_Other_type | NoResponse | Inactive_Population | Locked

definition defaultInitialPopulationRating :: int where
  "defaultInitialPopulationRating = 10000"

record it_row =
  it_ID :: nat
  it_CreatorGUID :: string
  it_CreatorLocalID :: "64 word"
  it_ParentGUID :: string
  it_ParentLocalID :: "64 word"
  it_Rating :: int
  it_RawBytes :: bytes
  it_TestCaseType :: TestCaseType
  it_TimeOfInsertion :: int

record cb_row =
  cb_ID :: nat
  cb_CreatorTestcaseID :: nat
  cb_ModuleID :: "8 word"
  cb_Offset :: "64 word"
  cb_TimeOfInsertion :: int

record cd_row =
  cd_ID :: nat
  cd_CreatorTestcaseID :: nat
  cd_CrashFootprint :: string

record ct_row =
  ct_ID :: nat
  ct_CreatorGUID :: string
  ct_CreatorLocalID :: "64 word"
  ct_TimeOfCompletion :: int

record mi_row =
  mi_GUID :: string
  mi_HAP :: string
  mi_AgentType :: AgentType
  mi_AgentSubType :: string
  mi_Location :: string

record ms_row =
  ms_ID :: nat
  ms_GUID :: string
  ms_TimeOfStatus :: int
  ms_Status :: string

record ml_row =
  ml_ID :: nat
  ml_GUID :: string
  ml_TimeOfInsertion :: int
  ml_LogMessage :: string

record tm_row =
  tm_ID :: "8 word"
  tm_ModuleName :: string
  tm_ModulePath :: string

record lmdb = server +
  interesting_testcases :: "it_row list"
  next_it :: nat
  covered_blocks :: "cb_row list"
  next_cb :: nat
  crash_descriptions :: "cd_row list"
  next_cd :: nat
  completed_testcases :: "ct_row list"
  next_ct :: nat
  managed_instances :: "mi_row list"
  managed_instances_statuses :: "ms_row list"
  next_ms :: nat
  managed_instances_logmessages :: "ml_row list"
  next_ml :: nat
  nice_names_managed_instance :: "(string \<times> string) list"   \<comment> \<open>ServiceDescriptorGUID, NiceName\<close>
  target_modules :: "tm_row list"
  blocks_to_cover :: "(64 word \<times> 8 word) list"              \<comment> \<open>Offset, ModuleID\<close>
  settings :: "(string \<times> string) list"
  billing :: "(string \<times> int) list"

abbreviation it_key :: "it_row \<Rightarrow> string \<times> 64 word" where
  "it_key r \<equiv> (it_CreatorGUID r, it_CreatorLocalID r)"

abbreviation cb_key :: "cb_row \<Rightarrow> nat \<times> 8 word \<times> 64 word" where
  "cb_key r \<equiv> (cb_CreatorTestcaseID r, cb_ModuleID r, cb_Offset r)"

section \<open>The effects of the statements\<close>

text \<open>\<open>DELETE FROM interesting_testcases WHERE P\<close>, with both cascades.\<close>

definition delete_testcases :: "(it_row \<Rightarrow> bool) \<Rightarrow> lmdb \<Rightarrow> lmdb" where
  "delete_testcases P s =
     (let gone = map it_ID (filter P (interesting_testcases s)) in
      s\<lparr>interesting_testcases := filter (\<lambda>r. \<not> P r) (interesting_testcases s),
        covered_blocks := filter (\<lambda>b. cb_CreatorTestcaseID b \<notin> set gone) (covered_blocks s),
        crash_descriptions := filter (\<lambda>c. cd_CreatorTestcaseID c \<notin> set gone) (crash_descriptions s)\<rparr>)"

definition insert_testcase ::
    "string \<Rightarrow> 64 word \<Rightarrow> string \<Rightarrow> 64 word \<Rightarrow> int \<Rightarrow> bytes \<Rightarrow> TestCaseType \<Rightarrow> int \<Rightarrow> lmdb \<Rightarrow> lmdb option" where
  "insert_testcase guid localID pguid plocalID rating raw tcType now s =
     (if (guid, localID) \<in> set (map it_key (interesting_testcases s)) then None
      else Some (s\<lparr>interesting_testcases := interesting_testcases s @
          [\<lparr>it_ID = next_it s, it_CreatorGUID = guid, it_CreatorLocalID = localID,
            it_ParentGUID = pguid, it_ParentLocalID = plocalID, it_Rating = rating,
            it_RawBytes = raw, it_TestCaseType = tcType, it_TimeOfInsertion = now\<rparr>],
          next_it := Suc (next_it s)\<rparr>))"

text \<open>\<open>UPDATE interesting_testcases SET ... WHERE P\<close> for columns that are not keys.\<close>

definition update_testcases :: "(it_row \<Rightarrow> bool) \<Rightarrow> (it_row \<Rightarrow> it_row) \<Rightarrow> lmdb \<Rightarrow> lmdb" where
  "update_testcases P f s =
     s\<lparr>interesting_testcases := map (\<lambda>r. if P r then f r else r) (interesting_testcases s)\<rparr>"

definition insert_block :: "nat \<Rightarrow> 8 word \<Rightarrow> 64 word \<Rightarrow> int \<Rightarrow> lmdb \<Rightarrow> lmdb option" where
  "insert_block tc m off now s =
     (if tc \<notin> set (map it_ID (interesting_testcases s)) \<or> m \<notin> set (map tm_ID (target_modules s))
      then None
      else if (tc, m, off) \<in> set (map cb_key (covered_blocks s)) then
        Some (s\<lparr>covered_blocks := map (\<lambda>b. if cb_key b = (tc, m, off)
                 then b\<lparr>cb_TimeOfInsertion := now\<rparr> else b) (covered_blocks s)\<rparr>)
      else Some (s\<lparr>covered_blocks := covered_blocks s @
          [\<lparr>cb_ID = next_cb s, cb_CreatorTestcaseID = tc, cb_ModuleID = m, cb_Offset = off,
            cb_TimeOfInsertion = now\<rparr>], next_cb := Suc (next_cb s)\<rparr>))"

text \<open>A bulk insert binds an array of rows to one statement.\<close>

fun insert_blocks :: "nat \<Rightarrow> FluffiBasicBlock list \<Rightarrow> int \<Rightarrow> lmdb \<Rightarrow> lmdb option" where
  "insert_blocks tc [] now s = Some s"
| "insert_blocks tc (b # bs) now s =
     Option.bind (insert_block tc (ucast (m_moduleID b)) (m_rva b) now s) (insert_blocks tc bs now)"

definition replace_crash :: "(string \<times> 64 word) \<Rightarrow> string \<Rightarrow> lmdb \<Rightarrow> lmdb option" where
  "replace_crash key footprint s =
     (case find (\<lambda>r. it_key r = key) (interesting_testcases s) of
        None \<Rightarrow> None
      | Some r \<Rightarrow> Some (s\<lparr>crash_descriptions :=
            filter (\<lambda>c. cd_CreatorTestcaseID c \<noteq> it_ID r) (crash_descriptions s) @
            [\<lparr>cd_ID = next_cd s, cd_CreatorTestcaseID = it_ID r, cd_CrashFootprint = footprint\<rparr>],
          next_cd := Suc (next_cd s)\<rparr>))"

definition insert_completed :: "FluffiTestcaseID \<Rightarrow> int \<Rightarrow> lmdb \<Rightarrow> lmdb" where
  "insert_completed t now s =
     s\<lparr>completed_testcases := completed_testcases s @
         [\<lparr>ct_ID = next_ct s, ct_CreatorGUID = tid_guid t, ct_CreatorLocalID = m_localID t,
           ct_TimeOfCompletion = now\<rparr>],
       next_ct := Suc (next_ct s)\<rparr>"

definition upsert_instance :: "mi_row \<Rightarrow> lmdb \<Rightarrow> lmdb" where
  "upsert_instance m s =
     (if mi_GUID m \<in> set (map mi_GUID (managed_instances s))
      then s\<lparr>managed_instances :=
              map (\<lambda>r. if mi_GUID r = mi_GUID m then m else r) (managed_instances s)\<rparr>
      else s\<lparr>managed_instances := managed_instances s @ [m]\<rparr>)"

definition insert_status :: "string \<Rightarrow> string \<Rightarrow> int \<Rightarrow> lmdb \<Rightarrow> lmdb" where
  "insert_status guid st now s =
     s\<lparr>managed_instances_statuses := managed_instances_statuses s @
         [\<lparr>ms_ID = next_ms s, ms_GUID = guid, ms_TimeOfStatus = now, ms_Status = st\<rparr>],
       next_ms := Suc (next_ms s)\<rparr>"

definition insert_logmessage :: "string \<Rightarrow> int \<Rightarrow> string \<Rightarrow> lmdb \<Rightarrow> lmdb" where
  "insert_logmessage guid now msg s =
     s\<lparr>managed_instances_logmessages := managed_instances_logmessages s @
         [\<lparr>ml_ID = next_ml s, ml_GUID = guid, ml_TimeOfInsertion = now, ml_LogMessage = msg\<rparr>],
       next_ml := Suc (next_ml s)\<rparr>"

section \<open>What the schema guarantees\<close>

text \<open>
  Primary and unique keys, foreign keys, and counters above every identifier in use. The
  lemmas below show that every effect keeps them.
\<close>

named_theorems dbwf \<open>effects keep the schema's guarantees\<close>

definition testcases_wf :: "lmdb \<Rightarrow> bool" where
  "testcases_wf s \<longleftrightarrow> distinct (map it_ID (interesting_testcases s)) \<and>
     distinct (map it_key (interesting_testcases s)) \<and>
     (\<forall>r \<in> set (interesting_testcases s). it_ID r < next_it s)"

definition blocks_wf :: "lmdb \<Rightarrow> bool" where
  "blocks_wf s \<longleftrightarrow> distinct (map cb_key (covered_blocks s)) \<and>
     (\<forall>b \<in> set (covered_blocks s). cb_CreatorTestcaseID b \<in> it_ID ` set (interesting_testcases s) \<and>
        cb_ModuleID b \<in> tm_ID ` set (target_modules s))"

definition crashes_wf :: "lmdb \<Rightarrow> bool" where
  "crashes_wf s \<longleftrightarrow> distinct (map cd_CreatorTestcaseID (crash_descriptions s)) \<and>
     (\<forall>c \<in> set (crash_descriptions s). cd_CreatorTestcaseID c \<in> it_ID ` set (interesting_testcases s))"

definition instances_wf :: "lmdb \<Rightarrow> bool" where
  "instances_wf s \<longleftrightarrow> distinct (map mi_GUID (managed_instances s)) \<and>
     distinct (map fst (nice_names_managed_instance s)) \<and>
     distinct (map snd (nice_names_managed_instance s)) \<and>
     distinct (map fst (billing s))"

definition logs_wf :: "lmdb \<Rightarrow> bool" where
  "logs_wf s \<longleftrightarrow> sorted_wrt (<) (map ml_ID (managed_instances_logmessages s)) \<and>
     (\<forall>r \<in> set (managed_instances_logmessages s). ml_ID r < next_ml s)"

definition db_wf :: "lmdb \<Rightarrow> bool" where
  "db_wf s \<longleftrightarrow> testcases_wf s \<and> blocks_wf s \<and> crashes_wf s \<and> instances_wf s \<and> logs_wf s"

lemmas wf_defs = testcases_wf_def blocks_wf_def crashes_wf_def instances_wf_def logs_wf_def

lemma wf_stmt_no [simp]: "db_wf (s\<lparr>stmt_no := n\<rparr>) = db_wf s"
  by (simp add: db_wf_def wf_defs)

lemma db_wf_others [simp]:
  "db_wf (s\<lparr>completed_testcases := cs\<rparr>) = db_wf s"
  "db_wf (s\<lparr>next_ct := n\<rparr>) = db_wf s"
  "db_wf (s\<lparr>managed_instances_statuses := ms\<rparr>) = db_wf s"
  "db_wf (s\<lparr>next_ms := n\<rparr>) = db_wf s"
  "db_wf (s\<lparr>settings := st\<rparr>) = db_wf s"
  "db_wf (s\<lparr>next_cb := n\<rparr>) = db_wf s"
  "db_wf (s\<lparr>next_cd := n\<rparr>) = db_wf s"
  by (simp_all add: db_wf_def wf_defs)

lemma exec_stmt_wf:
  assumes "db_wf s" and "\<And>now s'. f now s = Some s' \<Longrightarrow> db_wf s'"
  shows "db_wf (snd (exec_stmt D f s))"
  by (rule exec_stmt_inv [where I = db_wf]) (use assms in auto)

lemma query_wf [simp]: "db_wf (snd (query D f s)) = db_wf s"
  by (simp add: query_def)

lemma sorted_wrt_map_filter: "sorted_wrt R (map f xs) \<Longrightarrow> sorted_wrt R (map f (filter P xs))"
  by (induction xs) auto

lemma distinct_map_filter_key: "distinct (map f xs) \<Longrightarrow> distinct (map f (filter P xs))"
  by (induction xs) auto

lemma delete_testcases_wf [dbwf]:
  assumes "db_wf s" shows "db_wf (delete_testcases P s)"
proof -
  let ?t = "interesting_testcases s"
  from assms have w: "testcases_wf s" "blocks_wf s" "crashes_wf s" "instances_wf s" "logs_wf s"
    by (simp_all add: db_wf_def)
  have left: "x \<in> it_ID ` set ?t \<Longrightarrow> x \<notin> it_ID ` set (filter P ?t) \<Longrightarrow>
      x \<in> it_ID ` set (filter (\<lambda>r. \<not> P r) ?t)" for x
    by auto
  have "testcases_wf (delete_testcases P s)"
    using w(1) by (auto simp: testcases_wf_def delete_testcases_def Let_def
        intro: distinct_map_filter_key)
  moreover have "blocks_wf (delete_testcases P s)"
    using w(2) left by (auto simp: blocks_wf_def delete_testcases_def Let_def
        intro!: distinct_map_filter_key)
  moreover have "crashes_wf (delete_testcases P s)"
    using w(3) left by (auto simp: crashes_wf_def delete_testcases_def Let_def
        intro!: distinct_map_filter_key)
  ultimately show ?thesis
    using w(4,5) by (simp add: db_wf_def instances_wf_def logs_wf_def delete_testcases_def Let_def)
qed

lemma insert_testcase_wf [dbwf]:
  assumes "db_wf s" and "insert_testcase g l pg pl rt raw ty now s = Some s'"
  shows "db_wf s'"
proof -
  from assms(1) have w: "testcases_wf s" "blocks_wf s" "crashes_wf s" "instances_wf s" "logs_wf s"
    by (simp_all add: db_wf_def)
  from assms(2) have s': "s' = s\<lparr>interesting_testcases := interesting_testcases s @
          [\<lparr>it_ID = next_it s, it_CreatorGUID = g, it_CreatorLocalID = l,
            it_ParentGUID = pg, it_ParentLocalID = pl, it_Rating = rt,
            it_RawBytes = raw, it_TestCaseType = ty, it_TimeOfInsertion = now\<rparr>],
          next_it := Suc (next_it s)\<rparr>"
    and new: "(g, l) \<notin> it_key ` set (interesting_testcases s)"
    by (auto simp: insert_testcase_def split: if_splits)
  have "testcases_wf s'"
    using w(1) new by (fastforce simp: testcases_wf_def s' less_Suc_eq)
  moreover have "blocks_wf s'" "crashes_wf s'"
    using w(2,3) by (auto simp: blocks_wf_def crashes_wf_def s')
  ultimately show ?thesis
    using w(4,5) by (simp add: db_wf_def instances_wf_def logs_wf_def s')
qed

text \<open>The updates of rating and type keep all keys.\<close>

lemma same_keys_wf:
  assumes "db_wf s" and ids: "map it_ID rs = map it_ID (interesting_testcases s)"
    and keys: "map it_key rs = map it_key (interesting_testcases s)"
  shows "db_wf (s\<lparr>interesting_testcases := rs\<rparr>)"
proof -
  have img: "it_ID ` set rs = it_ID ` set (interesting_testcases s)"
    using arg_cong [OF ids, of set] by simp
  have lt: "\<forall>r \<in> set rs. it_ID r < next_it s"
  proof
    fix r assume "r \<in> set rs"
    then have "it_ID r \<in> it_ID ` set (interesting_testcases s)" using img by blast
    with assms(1) show "it_ID r < next_it s"
      by (auto simp: db_wf_def testcases_wf_def)
  qed
  from assms(1) lt ids keys img show ?thesis
    by (simp add: db_wf_def wf_defs)
qed

lemma update_testcases_wf [dbwf]:
  assumes "db_wf s" and "\<And>r. it_ID (f r) = it_ID r" and "\<And>r. it_key (f r) = it_key r"
  shows "db_wf (update_testcases P f s)"
  unfolding update_testcases_def
  by (rule same_keys_wf) (use assms in \<open>simp_all add: o_def\<close>)

lemma insert_block_wf [dbwf]:
  assumes "db_wf s" and "insert_block tc m off now s = Some s'"
  shows "db_wf s'"
proof -
  let ?touch = "\<lambda>b. if cb_key b = (tc, m, off) then b\<lparr>cb_TimeOfInsertion := now\<rparr> else b"
  from assms(1) have w: "testcases_wf s" "blocks_wf s" "crashes_wf s" "instances_wf s" "logs_wf s"
    by (simp_all add: db_wf_def)
  have keys: "map cb_key (map ?touch bs) = map cb_key bs" for bs
    by simp
  have fk: "tc \<in> it_ID ` set (interesting_testcases s)" "m \<in> tm_ID ` set (target_modules s)"
    using assms(2) by (auto simp: insert_block_def split: if_splits)
  have "blocks_wf s'"
  proof (cases "(tc, m, off) \<in> set (map cb_key (covered_blocks s))")
    case True
    then have "s' = s\<lparr>covered_blocks := map ?touch (covered_blocks s)\<rparr>"
      using assms(2) fk by (auto simp: insert_block_def split: if_splits)
    then show ?thesis
      using w(2) keys [of "covered_blocks s"] unfolding blocks_wf_def
      by (auto simp del: map_map)
  next
    case False
    then have "s' = s\<lparr>covered_blocks := covered_blocks s @
        [\<lparr>cb_ID = next_cb s, cb_CreatorTestcaseID = tc, cb_ModuleID = m, cb_Offset = off,
          cb_TimeOfInsertion = now\<rparr>], next_cb := Suc (next_cb s)\<rparr>"
      using assms(2) fk by (auto simp: insert_block_def split: if_splits)
    with False w(2) fk show ?thesis by (auto simp: blocks_wf_def)
  qed
  moreover have "interesting_testcases s' = interesting_testcases s" "next_it s' = next_it s"
      "crash_descriptions s' = crash_descriptions s" "managed_instances s' = managed_instances s"
      "nice_names_managed_instance s' = nice_names_managed_instance s" "billing s' = billing s"
      "managed_instances_logmessages s' = managed_instances_logmessages s" "next_ml s' = next_ml s"
    using assms(2) by (auto simp: insert_block_def split: if_splits)
  ultimately show ?thesis
    using w by (simp add: db_wf_def wf_defs)
qed

lemma insert_blocks_wf [dbwf]:
  "db_wf s \<Longrightarrow> insert_blocks tc bs now s = Some s' \<Longrightarrow> db_wf s'"
  by (induction bs arbitrary: s) (auto split: bind_splits intro: insert_block_wf)

lemma replace_crash_wf [dbwf]:
  assumes "db_wf s" and "replace_crash k f s = Some s'"
  shows "db_wf s'"
proof -
  from assms(1) have w: "testcases_wf s" "blocks_wf s" "crashes_wf s" "instances_wf s" "logs_wf s"
    by (simp_all add: db_wf_def)
  from assms(2) obtain r where r: "find (\<lambda>r. it_key r = k) (interesting_testcases s) = Some r"
    and s': "s' = s\<lparr>crash_descriptions :=
            filter (\<lambda>c. cd_CreatorTestcaseID c \<noteq> it_ID r) (crash_descriptions s) @
            [\<lparr>cd_ID = next_cd s, cd_CreatorTestcaseID = it_ID r, cd_CrashFootprint = f\<rparr>],
          next_cd := Suc (next_cd s)\<rparr>"
    by (auto simp: replace_crash_def split: option.splits)
  from r have "r \<in> set (interesting_testcases s)"
    by (auto simp: find_Some_iff in_set_conv_nth)
  then have "crashes_wf s'"
    using w(3) by (auto simp: crashes_wf_def s' intro: distinct_map_filter_key)
  moreover have "testcases_wf s'" "blocks_wf s'" "instances_wf s'" "logs_wf s'"
    using w by (simp_all add: s' testcases_wf_def blocks_wf_def instances_wf_def logs_wf_def)
  ultimately show ?thesis by (simp add: db_wf_def)
qed

lemma insert_completed_wf [dbwf]: "db_wf s \<Longrightarrow> db_wf (insert_completed t now s)"
  by (simp add: insert_completed_def)

lemma insert_status_wf [dbwf]: "db_wf s \<Longrightarrow> db_wf (insert_status g st now s)"
  by (simp add: insert_status_def)

lemma upsert_instance_wf [dbwf]:
  assumes "db_wf s" shows "db_wf (upsert_instance m s)"
proof -
  let ?g = "\<lambda>r. if mi_GUID r = mi_GUID m then m else r"
  have "map mi_GUID (map ?g rs) = map mi_GUID rs" for rs
    by simp
  then have "instances_wf (upsert_instance m s)"
    using assms unfolding db_wf_def instances_wf_def upsert_instance_def
    by (simp del: map_map)
  with assms show ?thesis
    by (simp add: db_wf_def wf_defs upsert_instance_def)
qed

lemma insert_logmessage_wf [dbwf]:
  assumes "db_wf s" shows "db_wf (insert_logmessage g now msg s)"
proof -
  have "logs_wf (insert_logmessage g now msg s)"
    using assms by (auto simp: db_wf_def logs_wf_def insert_logmessage_def sorted_wrt_append)
  with assms show ?thesis
    by (simp add: db_wf_def wf_defs insert_logmessage_def)
qed

lemma fold_wf [dbwf]:
  "(\<And>x s. db_wf s \<Longrightarrow> db_wf (f x s)) \<Longrightarrow> db_wf s \<Longrightarrow> db_wf (fold f xs s)"
  by (induction xs arbitrary: s) auto

end
