(* ===== verification/CommInt.thy ===== *)
theory CommInt
  imports Agent
begin

text \<open>
  Communication of an agent (\<open>CommInt.cpp\<close>, \<open>WorkerThreadState.cpp\<close>,
  \<open>CommWorker.cpp\<close>): the cache of request sockets, one request with its reply, the ring of
  round-trip times, the registry of message handlers, and the registration at a manager.

  A ZeroMQ request socket alternates strictly between sending and receiving; sending on a
  socket that still awaits a reply raises an error, on which the code leaves the process
  (\<open>None\<close>). The cache records for each socket whether it awaits a reply.
\<close>

section \<open>Constants\<close>

definition GlobalManagerHAP :: string where
  "GlobalManagerHAP = ''gm.fluffi:6669''"

definition chunkSizeInBytes :: nat where
  "chunkSizeInBytes = 100 * 1000 * 1000"

definition timeoutGMRegisterMessage :: int where
  "timeoutGMRegisterMessage = 2000"

definition timeoutNormalMessage :: int where
  "timeoutNormalMessage = 10 * 1000"

definition timeoutFileTransferMessage :: int where
  "timeoutFileTransferMessage = 10 * timeoutNormalMessage"

section \<open>Socket cache (WorkerThreadState)\<close>

definition clearSocketCache :: "agent \<Rightarrow> agent" where
  "clearSocketCache a = a\<lparr>m_zeroMQSockets := []\<rparr>"

definition clearSocketFor :: "string \<Rightarrow> int \<Rightarrow> agent \<Rightarrow> agent" where
  "clearSocketFor targetHAP timeoutMS a =
     a\<lparr>m_zeroMQSockets := filter (\<lambda>e. fst e \<noteq> (targetHAP, timeoutMS)) (m_zeroMQSockets a)\<rparr>"

definition getSocketFor :: "env \<Rightarrow> string \<Rightarrow> int \<Rightarrow> agent \<Rightarrow> agent" where
  "getSocketFor E targetHAP timeoutMS a =
     (let now = env_clock E (tick a);
          a = (if now - m_resetClock a > 1000 * 10 * 60
               then (clearSocketCache a)\<lparr>m_resetClock := now\<rparr> else a);
          a = next_tick a
      in if map_of (m_zeroMQSockets a) (targetHAP, timeoutMS) \<noteq> None then a
         else a\<lparr>m_zeroMQSockets :=
                 set_insert fst ((targetHAP, timeoutMS), False) (m_zeroMQSockets a)\<rparr>)"

definition set_awaiting :: "string \<Rightarrow> int \<Rightarrow> bool \<Rightarrow> agent \<Rightarrow> agent" where
  "set_awaiting hap tmo w a =
     a\<lparr>m_zeroMQSockets := map (\<lambda>(k, s). (k, if k = (hap, tmo) then w else s)) (m_zeroMQSockets a)\<rparr>"

section \<open>sendReqAndRecvResp\<close>

definition numRoundTripTimes :: nat where
  "numRoundTripTimes = 20"

definition storeRoundTripTime :: "int \<Rightarrow> agent \<Rightarrow> agent" where
  "storeRoundTripTime elapsed a =
     a\<lparr>m_lastRoundTripTimes :=
          (m_lastRoundTripTimes a)[m_lastUpdatedRoundTripTime a := word_of_int elapsed],
       m_lastUpdatedRoundTripTime := (m_lastUpdatedRoundTripTime a + 1) mod numRoundTripTimes\<rparr>"

text \<open>
  The result is \<open>Some (Some resp, a)\<close> for success, \<open>Some (None, a)\<close> where the function
  returns \<open>false\<close>, and \<open>None\<close> where the process exits on a ZeroMQ error.
\<close>

definition sendReqAndRecvResp ::
    "env \<Rightarrow> FLUFFIMessage \<Rightarrow> string \<Rightarrow> int \<Rightarrow> agent \<Rightarrow> (FLUFFIMessage option \<times> agent) option" where
  "sendReqAndRecvResp E req destinationHAP timeoutMS a =
     (let a = getSocketFor E destinationHAP timeoutMS a;
          preSendTS = env_clock E (tick a)
      in if map_of (m_zeroMQSockets a) (destinationHAP, timeoutMS) = Some True then None
         else case env_net E (tick a) destinationHAP req of
           SendTimeout \<Rightarrow> Some (None, clearSocketFor destinationHAP timeoutMS (next_tick a))
         | SendError \<Rightarrow> None
         | RecvTimeout \<Rightarrow>
             (let a = set_awaiting destinationHAP timeoutMS True (next_tick a)
              in Some (None, clearSocketFor destinationHAP timeoutMS a))
         | RecvError \<Rightarrow> None
         | Reply resp \<Rightarrow>
             (let a = set_awaiting destinationHAP timeoutMS True (next_tick a);
                  a = set_awaiting destinationHAP timeoutMS False a;
                  a = storeRoundTripTime (env_clock E (tick a) - preSendTS) a
              in Some (Some resp, a)))"

text \<open>The sum of the round-trip times is an \<open>unsigned int\<close>; the quotient is taken after.\<close>

definition averageRoundTripTime :: "agent \<Rightarrow> nat" where
  "averageRoundTripTime a = unat (sum_list (m_lastRoundTripTimes a)) div numRoundTripTimes"

definition getAverageRoundTripTime :: "agent \<Rightarrow> string" where
  "getAverageRoundTripTime a = to_string (averageRoundTripTime a)"

section \<open>Facts on one request\<close>

named_theorems comm \<open>field facts on communication\<close>

definition sockets_idle :: "agent \<Rightarrow> bool" where
  "sockets_idle a \<longleftrightarrow> (\<forall>e \<in> set (m_zeroMQSockets a). \<not> snd e)"

definition rtt_ok :: "agent \<Rightarrow> bool" where
  "rtt_ok a \<longleftrightarrow> length (m_lastRoundTripTimes a) = numRoundTripTimes \<and>
     m_lastUpdatedRoundTripTime a < numRoundTripTimes"

lemma getSocketFor_simps [comm]:
  "files (getSocketFor E h t a) = files a"
  "m_setOfFilesToDelete (getSocketFor E h t a) = m_setOfFilesToDelete a"
  "m_lmServiceDescriptor (getSocketFor E h t a) = m_lmServiceDescriptor a"
  "m_lastRoundTripTimes (getSocketFor E h t a) = m_lastRoundTripTimes a"
  "m_lastUpdatedRoundTripTime (getSocketFor E h t a) = m_lastUpdatedRoundTripTime a"
  "tick (getSocketFor E h t a) = Suc (tick a)"
  by (simp_all add: getSocketFor_def clearSocketCache_def Let_def)

lemma getSocketFor_idle: "sockets_idle a \<Longrightarrow> sockets_idle (getSocketFor E h t a)"
  using set_insert_subset [of fst "((h, t), False)"]
  by (fastforce simp: sockets_idle_def getSocketFor_def clearSocketCache_def Let_def)

lemma getSocketFor_has: "map_of (m_zeroMQSockets (getSocketFor E h t a)) (h, t) \<noteq> None"
proof -
  have "(h, t) \<in> fst ` set (set_insert fst ((h, t), False) xs)" for xs
    by (simp add: set_insert_keys)
  then show ?thesis
    by (auto simp: getSocketFor_def Let_def map_of_eq_None_iff)
qed

lemma clearSocketFor_simps [comm]:
  "files (clearSocketFor h t a) = files a"
  "m_setOfFilesToDelete (clearSocketFor h t a) = m_setOfFilesToDelete a"
  "m_lmServiceDescriptor (clearSocketFor h t a) = m_lmServiceDescriptor a"
  "m_lastRoundTripTimes (clearSocketFor h t a) = m_lastRoundTripTimes a"
  "m_lastUpdatedRoundTripTime (clearSocketFor h t a) = m_lastUpdatedRoundTripTime a"
  by (simp_all add: clearSocketFor_def)

lemma set_awaiting_simps [comm]:
  "files (set_awaiting h t w a) = files a"
  "m_setOfFilesToDelete (set_awaiting h t w a) = m_setOfFilesToDelete a"
  "m_lmServiceDescriptor (set_awaiting h t w a) = m_lmServiceDescriptor a"
  "m_lastRoundTripTimes (set_awaiting h t w a) = m_lastRoundTripTimes a"
  "m_lastUpdatedRoundTripTime (set_awaiting h t w a) = m_lastUpdatedRoundTripTime a"
  by (simp_all add: set_awaiting_def)

lemma storeRoundTripTime_simps [comm]:
  "files (storeRoundTripTime d a) = files a"
  "m_setOfFilesToDelete (storeRoundTripTime d a) = m_setOfFilesToDelete a"
  "m_lmServiceDescriptor (storeRoundTripTime d a) = m_lmServiceDescriptor a"
  "m_zeroMQSockets (storeRoundTripTime d a) = m_zeroMQSockets a"
  by (simp_all add: storeRoundTripTime_def)

lemma sockets_idle_simps [simp]:
  "sockets_idle (a\<lparr>tick := n\<rparr>) = sockets_idle a"
  "sockets_idle (storeRoundTripTime d a) = sockets_idle a"
  by (simp_all add: sockets_idle_def comm)

lemma clear_after_await_idle:
  "sockets_idle a \<Longrightarrow> sockets_idle (clearSocketFor h t (set_awaiting h t True a))"
  by (auto simp: sockets_idle_def clearSocketFor_def set_awaiting_def)

lemma await_answered_idle:
  "sockets_idle a \<Longrightarrow> sockets_idle (set_awaiting h t False (set_awaiting h t True a))"
  by (fastforce simp: sockets_idle_def set_awaiting_def split: if_splits)

lemma sockets_idle_map_of: "sockets_idle a \<Longrightarrow> map_of (m_zeroMQSockets a) k \<noteq> Some True"
  by (auto simp: sockets_idle_def dest!: map_of_SomeD)

lemma sendReqAndRecvResp_cases:
  assumes "sendReqAndRecvResp E req hap tmo a = Some (r, a')"
  obtains (timeout) "r = None" "env_net E (Suc (tick a)) hap req \<in> {SendTimeout, RecvTimeout}"
  | (reply) resp where "r = Some resp" "env_net E (Suc (tick a)) hap req = Reply resp"
  using assms
  by (auto simp: sendReqAndRecvResp_def Let_def comm split: if_splits net_result.splits)

lemma sendReqAndRecvResp_frame [comm]:
  assumes "sendReqAndRecvResp E req hap tmo a = Some (r, a')"
  shows "files a' = files a" and "m_setOfFilesToDelete a' = m_setOfFilesToDelete a"
    and "m_lmServiceDescriptor a' = m_lmServiceDescriptor a"
  using assms
  by (auto simp: sendReqAndRecvResp_def Let_def comm split: if_splits net_result.splits)

lemma sendReqAndRecvResp_idle:
  assumes "sendReqAndRecvResp E req hap tmo a = Some (r, a')" and "sockets_idle a"
  shows "sockets_idle a'"
proof -
  let ?b = "next_tick (getSocketFor E hap tmo a)"
  from assms(2) have b: "sockets_idle ?b"
    by (simp add: getSocketFor_idle)
  then have "sockets_idle (clearSocketFor hap tmo ?b)"
    by (auto simp: sockets_idle_def clearSocketFor_def)
  with clear_after_await_idle [OF b, of hap tmo] await_answered_idle [OF b, of hap tmo] assms(1)
  show ?thesis
    by (auto simp: sendReqAndRecvResp_def Let_def comm split: if_splits net_result.splits)
qed

lemma sendReqAndRecvResp_returns:
  assumes "sockets_idle a" and "env_net E (Suc (tick a)) hap req \<notin> {SendError, RecvError}"
  shows "\<exists>r a'. sendReqAndRecvResp E req hap tmo a = Some (r, a')"
proof -
  have "map_of (m_zeroMQSockets (getSocketFor E hap tmo a)) (hap, tmo) \<noteq> Some True"
    using assms(1) by (intro sockets_idle_map_of getSocketFor_idle)
  with assms(2) show ?thesis
    by (auto simp: sendReqAndRecvResp_def Let_def comm split: net_result.splits)
qed

lemma storeRoundTripTime_ok: "rtt_ok a \<Longrightarrow> rtt_ok (storeRoundTripTime d a)"
  by (simp add: rtt_ok_def storeRoundTripTime_def numRoundTripTimes_def)

lemma sendReqAndRecvResp_rtt_ok:
  assumes "sendReqAndRecvResp E req hap tmo a = Some (r, a')" and "rtt_ok a"
  shows "rtt_ok a'"
  using assms storeRoundTripTime_ok
  by (auto simp: sendReqAndRecvResp_def Let_def comm rtt_ok_def storeRoundTripTime_def
      numRoundTripTimes_def split: if_splits net_result.splits)

section \<open>Registry of message handlers and dispatch\<close>

text \<open>The field number of the one-of case, as \<open>fluff_case()\<close> returns it.\<close>

fun fluff_case :: "FLUFFIMessage \<Rightarrow> nat" where
  "fluff_case FluffNotSet = 0"
| "fluff_case (GetStatusRequest _) = 1"
| "fluff_case (GetStatusResponse _ _) = 2"
| "fluff_case (SetTGsAndTEsRequest _ _) = 3"
| "fluff_case (SetTGsAndTEsResponse _) = 4"
| "fluff_case (RegisterAtLMRequest _) = 5"
| "fluff_case (RegisterAtLMResponse _ _) = 6"
| "fluff_case GetTestcaseRequest = 7"
| "fluff_case (GetTestcaseResponse _) = 8"
| "fluff_case (PutTestResultRequest _) = 9"
| "fluff_case (PutTestResultResponse _) = 10"
| "fluff_case (PutTestEvaluationRequest _) = 11"
| "fluff_case (PutTestEvaluationResponse _) = 12"
| "fluff_case GetCurrentBlockCoverageRequest = 13"
| "fluff_case (GetCurrentBlockCoverageResponse _) = 14"
| "fluff_case (GetNewCompletedTestcaseIDsRequest _) = 15"
| "fluff_case (GetNewCompletedTestcaseIDsResponse _ _) = 16"
| "fluff_case GetTestcaseToMutateRequest = 17"
| "fluff_case (GetTestcaseToMutateResponse _) = 18"
| "fluff_case (ReportTestcaseWithNoResultRequest _) = 19"
| "fluff_case (ReportTestcaseWithNoResultResponse _) = 20"
| "fluff_case (GetTestCaseChunkRequest _) = 21"
| "fluff_case (GetTestCaseChunkResponse _) = 22"
| "fluff_case (GetFuzzJobConfigurationRequest _) = 23"
| "fluff_case (GetFuzzJobConfigurationResponse _ _ _) = 24"
| "fluff_case RequestTypeNotImplementedRequest = 25"
| "fluff_case RequestTypeNotImplementedResponse = 26"
| "fluff_case (RegisterAtGMRequest _) = 27"
| "fluff_case (RegisterAtGMResponse _) = 28"
| "fluff_case KillInstanceRequest = 29"
| "fluff_case (KillInstanceResponse _) = 30"
| "fluff_case (IsAgentWelcomedRequest _ _) = 31"
| "fluff_case (IsAgentWelcomedResponse _) = 32"
| "fluff_case GetLMConfigurationRequest = 33"
| "fluff_case (GetLMConfigurationResponse _) = 34"
| "fluff_case (ReportNewMutationsRequest _ _) = 35"
| "fluff_case (ReportNewMutationsResponse _) = 36"

definition kRequestTypeNotImplementedRequest :: nat where
  "kRequestTypeNotImplementedRequest = 25"

type_synonym 's handler = "'s \<Rightarrow> FLUFFIMessage \<Rightarrow> FLUFFIMessage \<times> 's"

definition NotImplementedHandler :: "'s handler" where
  "NotImplementedHandler st req = (RequestTypeNotImplementedResponse, st)"

definition registerFLUFFIMessageHandler ::
    "'h \<Rightarrow> nat \<Rightarrow> (nat \<rightharpoonup> 'h) \<Rightarrow> (nat \<rightharpoonup> 'h)" where
  "registerFLUFFIMessageHandler handler whatfor reg = reg(whatfor \<mapsto> handler)"

text \<open>The registry as the constructor of \<open>CommInt\<close> leaves it.\<close>

definition init_registry :: "nat \<rightharpoonup> 's handler" where
  "init_registry =
     registerFLUFFIMessageHandler NotImplementedHandler kRequestTypeNotImplementedRequest Map.empty"

definition getFLUFFIMessageHandler :: "nat \<Rightarrow> (nat \<rightharpoonup> 'h) \<Rightarrow> 'h option" where
  "getFLUFFIMessageHandler whatfor reg =
     (case reg whatfor of Some h \<Rightarrow> Some h
      | None \<Rightarrow> reg kRequestTypeNotImplementedRequest)"

text \<open>
  One request in \<open>CommWorker::workerMain\<close>: look up the handler of its case and answer;
  \<open>None\<close> would be a call through a null pointer.
\<close>

definition CommWorker_handle ::
    "(nat \<rightharpoonup> 's handler) \<Rightarrow> 's \<Rightarrow> FLUFFIMessage \<Rightarrow> (FLUFFIMessage \<times> 's) option" where
  "CommWorker_handle reg st incoming =
     map_option (\<lambda>h. h st incoming) (getFLUFFIMessageHandler (fluff_case incoming) reg)"

definition register_all :: "(nat \<times> 's handler) list \<Rightarrow> (nat \<rightharpoonup> 's handler)" where
  "register_all hs = fold (\<lambda>(w, h). registerFLUFFIMessageHandler h w) hs init_registry"

lemma register_all_defined:
  "\<exists>h. register_all hs kRequestTypeNotImplementedRequest = Some h"
proof -
  have "dom (fold (\<lambda>(w, h). registerFLUFFIMessageHandler h w) hs reg) = fst ` set hs \<union> dom reg" for reg
    by (induction hs arbitrary: reg) (auto simp: registerFLUFFIMessageHandler_def)
  then have "kRequestTypeNotImplementedRequest \<in> dom (register_all hs)"
    by (simp add: register_all_def init_registry_def registerFLUFFIMessageHandler_def)
  then show ?thesis by auto
qed

lemma register_all_other: "w \<notin> fst ` set hs \<Longrightarrow> register_all hs w = init_registry w"
proof -
  have "w \<notin> fst ` set hs \<Longrightarrow>
      fold (\<lambda>(w, h). registerFLUFFIMessageHandler h w) hs reg w = reg w" for reg
    by (induction hs arbitrary: reg) (auto simp: registerFLUFFIMessageHandler_def)
  then show "w \<notin> fst ` set hs \<Longrightarrow> register_all hs w = init_registry w"
    by (simp add: register_all_def)
qed

lemma CommWorker_handle_total: "CommWorker_handle (register_all hs) st m \<noteq> None"
  using register_all_defined [of hs]
  by (auto simp: CommWorker_handle_def getFLUFFIMessageHandler_def split: option.splits)

lemma CommWorker_handle_unregistered:
  assumes "fluff_case m \<notin> fst ` set hs" and "kRequestTypeNotImplementedRequest \<notin> fst ` set hs"
  shows "CommWorker_handle (register_all hs) st m = Some (RequestTypeNotImplementedResponse, st)"
  using assms
  by (simp add: CommWorker_handle_def getFLUFFIMessageHandler_def register_all_other
      init_registry_def registerFLUFFIMessageHandler_def NotImplementedHandler_def)

section \<open>Registration at the managers\<close>

definition newGUID_of :: "(nat \<Rightarrow> string) \<Rightarrow> agent \<Rightarrow> string \<times> agent" where
  "newGUID_of gen a = (gen (tick a), next_tick a)"

text \<open>\<open>host\<close> is what \<open>gethostname\<close> gives, \<open>port\<close> the listening port, \<open>gen\<close> the GUIDs.\<close>

definition getOwnServiceDescriptor ::
    "string \<Rightarrow> nat \<Rightarrow> (nat \<Rightarrow> string) \<Rightarrow> agent \<Rightarrow> FluffiServiceDescriptor \<times> agent" where
  "getOwnServiceDescriptor host port gen a =
     (let a = (if m_ownHAP a = '''' \<or> m_ownGUID a = ''''
               then a\<lparr>m_ownHAP := take 127 host @ ''.fluffi'' @ '':'' @ to_string port\<rparr> else a);
          a = (if m_ownGUID a = '''' then (let (g, a) = newGUID_of gen a in a\<lparr>m_ownGUID := g\<rparr>) else a)
      in (mkServiceDescriptor (m_ownHAP a) (m_ownGUID a), a))"

definition getMyGUID :: "(nat \<Rightarrow> string) \<Rightarrow> agent \<Rightarrow> string \<times> agent" where
  "getMyGUID gen a =
     (let a = (if m_ownGUID a = '''' then (let (g, a) = newGUID_of gen a in a\<lparr>m_ownGUID := g\<rparr>) else a)
      in (m_ownGUID a, a))"

definition registerAtLM :: "env \<Rightarrow> FluffiServiceDescriptor \<Rightarrow> AgentType \<Rightarrow> string list \<Rightarrow> string \<Rightarrow>
    string \<Rightarrow> agent \<Rightarrow> (bool \<times> agent) option" where
  "registerAtLM E self type subTypes location LMHAP a =
     do {
       let req = RegisterAtLMRequest \<lparr>reg_type = type, reg_implementedAgentSubTypes = subTypes,
           reg_serviceDescriptor = Some (sd_getProtobuf self), reg_location = location\<rparr>;
       (resp, a) \<leftarrow> sendReqAndRecvResp E req LMHAP timeoutNormalMessage a;
       Some (case resp of Some (RegisterAtLMResponse ok fuzzjobname) \<Rightarrow> ok | _ \<Rightarrow> False, a)
     }"

definition registeratgmresponse :: "FLUFFIMessage \<Rightarrow> gmResponse" where
  "registeratgmresponse m = (case m of RegisterAtGMResponse r \<Rightarrow> r | _ \<Rightarrow> gmResponse_unset)"

definition getLMConfigFromGM :: "env \<Rightarrow> FluffiServiceDescriptor \<Rightarrow> string \<Rightarrow> string \<Rightarrow> agent \<Rightarrow>
    (FluffiLMConfiguration option \<times> agent) option" where
  "getLMConfigFromGM E self location GMHAP a =
     do {
       let req = RegisterAtGMRequest \<lparr>reg_type = LocalManager, reg_implementedAgentSubTypes = [],
           reg_serviceDescriptor = Some (sd_getProtobuf self), reg_location = location\<rparr>;
       (resp, a) \<leftarrow> sendReqAndRecvResp E req GMHAP timeoutGMRegisterMessage a;
       Some (case resp of None \<Rightarrow> None
         | Some m \<Rightarrow> (case registeratgmresponse m of
             RetryLater True \<Rightarrow> None
           | LmConfiguration c \<Rightarrow> Some (lmconfig_of_proto c)
           | _ \<Rightarrow> Some (lmconfig_of_proto default_LMConfiguration)), a)
     }"

definition registerAtGM :: "env \<Rightarrow> FluffiServiceDescriptor \<Rightarrow> AgentType \<Rightarrow> string list \<Rightarrow> string \<Rightarrow>
    string \<Rightarrow> agent \<Rightarrow> (bool \<times> agent) option" where
  "registerAtGM E self type subTypes location GMHAP a =
     do {
       let req = RegisterAtGMRequest \<lparr>reg_type = type, reg_implementedAgentSubTypes = subTypes,
           reg_serviceDescriptor = Some (sd_getProtobuf self), reg_location = location\<rparr>;
       (resp, a) \<leftarrow> sendReqAndRecvResp E req GMHAP timeoutGMRegisterMessage a;
       Some (case resp of None \<Rightarrow> (False, a)
         | Some m \<Rightarrow> (case registeratgmresponse m of
             RetryLater True \<Rightarrow> (False, a)
           | LmServiceDescriptor d \<Rightarrow> (True, a\<lparr>m_lmServiceDescriptor := sd_of_proto d\<rparr>)
           | _ \<Rightarrow> (True, a\<lparr>m_lmServiceDescriptor := sd_of_proto default_ServiceDescriptor\<rparr>)))
     }"

text \<open>The wait between two rounds, in steps of 500 ms, cut short by a key.\<close>

function key_wait :: "env \<Rightarrow> int \<Rightarrow> int \<Rightarrow> agent \<Rightarrow> bool \<times> agent" where
  "key_wait E interval waitedMS a =
     (let wasKeyPressed = env_kbhit E (tick a); a = next_tick a in
      if waitedMS < interval then
        (if wasKeyPressed then (True, a) else key_wait E interval (waitedMS + 500) a)
      else (wasKeyPressed, a))"
  by pat_completeness auto
termination
  by (relation "measure (\<lambda>(E, interval, waitedMS, a). nat (interval - waitedMS))") auto

declare key_wait.simps [simp del]

fun gm_registration_loop :: "env \<Rightarrow> FluffiServiceDescriptor \<Rightarrow> AgentType \<Rightarrow> string list \<Rightarrow> string \<Rightarrow>
    int \<Rightarrow> nat \<Rightarrow> agent \<Rightarrow> (bool \<times> agent) option" where
  "gm_registration_loop E self type subTypes location interval 0 a = Some (False, a)"
| "gm_registration_loop E self type subTypes location interval (Suc attempts) a =
     do {
       (ok, a) \<leftarrow> registerAtGM E self type subTypes location GlobalManagerHAP a;
       if ok then Some (True, a)
       else (let (wasKeyPressed, a) = key_wait E interval 0 a in
             if wasKeyPressed then Some (False, a)
             else gm_registration_loop E self type subTypes location interval attempts a)
     }"

definition waitForGMRegistration :: "env \<Rightarrow> FluffiServiceDescriptor \<Rightarrow> AgentType \<Rightarrow> string list \<Rightarrow>
    string \<Rightarrow> int \<Rightarrow> agent \<Rightarrow> (bool \<times> agent) option" where
  "waitForGMRegistration E self type subTypes location interval a =
     gm_registration_loop E self type subTypes location interval 5 a"

text \<open>The loop at the local manager has no limit on its attempts.\<close>

partial_function (option) waitForLMRegistration :: "env \<Rightarrow> FluffiServiceDescriptor \<Rightarrow> AgentType \<Rightarrow>
    string list \<Rightarrow> string \<Rightarrow> int \<Rightarrow> agent \<Rightarrow> (bool \<times> agent) option" where
  "waitForLMRegistration E self type subTypes location interval a =
     do {
       (ok, a) \<leftarrow> registerAtLM E self type subTypes location
           (m_serviceHostAndPort (m_lmServiceDescriptor a)) a;
       if ok then Some (True, a)
       else (let (wasKeyPressed, a) = key_wait E interval 0 a in
             if wasKeyPressed then Some (False, a)
             else waitForLMRegistration E self type subTypes location interval a)
     }"

section \<open>The configuration of a fuzz job\<close>

text \<open>\<open>std::map::insert\<close> keeps the first value of a name, as \<open>map_of\<close> does.\<close>

definition received_settings :: "FLUFFIMessage \<Rightarrow> (string \<rightharpoonup> string)" where
  "received_settings resp = map_of (map (\<lambda>i. let fs = setting_of_proto i in (m_settingName fs, m_settingValue fs))
     (getfuzzjobconfigurationresponse_settings resp))"

end
