(* ===== verification/FileTransfer.thy ===== *)
theory FileTransfer
  imports CommInt
begin

text \<open>
  Testcase files and their transfer between agents in chunks: the file functions of
  \<open>Util.cpp\<close> and \<open>GetTestcaseChunkRequestHandler.cpp\<close>. The main fact is that a peer
  serving a file with the handler and a client fetching it with \<open>storeTestcaseFileOnDisk\<close>
  reproduce the file byte by byte.
\<close>

section \<open>Reading files\<close>

text \<open>
  \<open>loadTestcaseChunkInMemory\<close> leaves its out-parameter \<open>isLastChunk\<close> unwritten on the two
  error paths (\<open>None\<close>). With a negative chunk number seeking fails, \<open>tellg\<close> yields -1 and the
  buffer is returned as it was allocated.
\<close>

definition loadTestcaseChunkInMemory ::
    "env \<Rightarrow> FluffiTestcaseID \<Rightarrow> string \<Rightarrow> int \<Rightarrow> agent \<Rightarrow> bytes \<times> bool option" where
  "loadTestcaseChunkInMemory E testcaseId testcaseDir chunkNum a =
     (let testfile = generateTestcasePathAndFilename testcaseId testcaseDir;
          chunk = int chunkSizeInBytes
      in case files a testfile of
        None \<Rightarrow> ('''', None)
      | Some content \<Rightarrow>
          (let completeFilelength = int (length content) in
           if chunkNum * chunk > completeFilelength then ('''', None)
           else let off = (if chunkNum < 0 then -1 else chunkNum * chunk);
                    more = (completeFilelength > off + chunk);
                    size = nat (if more then chunk else completeFilelength - off);
                    dat = (if chunkNum < 0 then take size (env_heap E (tick a) size)
                            else take size (drop (nat off) content))
                in (dat, Some (\<not> more))))"

definition loadTestcaseInMemory :: "FluffiTestcaseID \<Rightarrow> string \<Rightarrow> agent \<Rightarrow> bytes" where
  "loadTestcaseInMemory testcaseId testcaseDir a =
     (case files a (generateTestcasePathAndFilename testcaseId testcaseDir) of
        None \<Rightarrow> '''' | Some content \<Rightarrow> content)"

definition readAllBytesFromFile :: "string \<Rightarrow> agent \<Rightarrow> bytes" where
  "readAllBytesFromFile filename a =
     (case files a filename of None \<Rightarrow> '''' | Some content \<Rightarrow> content)"

section \<open>The chunk handler\<close>

definition the_flag :: "env \<Rightarrow> agent \<Rightarrow> bool option \<Rightarrow> bool" where
  "the_flag E a b = (case b of Some v \<Rightarrow> v | None \<Rightarrow> env_uninit E (tick a))"

definition gettestcasechunkrequest :: "FLUFFIMessage \<Rightarrow> GetTestCaseChunkRequest_t" where
  "gettestcasechunkrequest m =
     (case m of GetTestCaseChunkRequest r \<Rightarrow> r | _ \<Rightarrow> \<lparr>gcq_id = None, gcq_chunkID = 0\<rparr>)"

definition GetTestcaseChunkRequestHandler ::
    "env \<Rightarrow> string \<Rightarrow> bool \<Rightarrow> agent \<Rightarrow> FLUFFIMessage \<Rightarrow> FLUFFIMessage \<times> agent" where
  "GetTestcaseChunkRequestHandler E testcaseDir deleteFileOnLastChunk a req =
     (let r = gettestcasechunkrequest req;
          testcaseID = tid_of_proto (opt_or default_TestcaseID (gcq_id r));
          (dat, flag) = loadTestcaseChunkInMemory E testcaseID testcaseDir (gcq_chunkID r) a;
          isLastChunk = the_flag E a flag;
          a = (if isLastChunk \<and> deleteFileOnLastChunk
               then markFileForDelete (generateTestcasePathAndFilename testcaseID testcaseDir) a
               else a)
      in (GetTestCaseChunkResponse \<lparr>gcr_chunkID = gcq_chunkID r, gcr_testCaseChunk = dat,
            gcr_isLastChunk = isLastChunk\<rparr>, a))"

section \<open>Storing a testcase\<close>

definition fwrite :: "string \<Rightarrow> bytes \<Rightarrow> agent \<Rightarrow> agent" where
  "fwrite f bs a = a\<lparr>files := (files a)(f \<mapsto> opt_or '''' (files a f) @ bs)\<rparr>"

definition chunk_request :: "FluffiTestcaseID \<Rightarrow> int \<Rightarrow> FLUFFIMessage" where
  "chunk_request testcaseID chunkID =
     GetTestCaseChunkRequest \<lparr>gcq_id = Some (tid_getProtobuf testcaseID), gcq_chunkID = chunkID\<rparr>"

partial_function (option) appendRemainingChunks ::
    "env \<Rightarrow> string \<Rightarrow> FluffiTestcaseID \<Rightarrow> string \<Rightarrow> int \<Rightarrow> agent \<Rightarrow> (bool \<times> agent) option" where
  "appendRemainingChunks E outstream testcaseID sourceHAP chunkID a =
     do {
       (resp, a) \<leftarrow> sendReqAndRecvResp E (chunk_request testcaseID chunkID) sourceHAP
           timeoutNormalMessage a;
       (case resp of None \<Rightarrow> Some (False, a)
        | Some m \<Rightarrow>
            (let receivedTestcaseChunk = gettestcasechunkresponse m;
                 a = fwrite outstream (gcr_testCaseChunk receivedTestcaseChunk) a
             in if gcr_isLastChunk receivedTestcaseChunk then Some (True, a)
                else appendRemainingChunks E outstream testcaseID sourceHAP (chunkID + 1) a))
     }"

text \<open>The loop that waits for the garbage collector; \<open>None\<close> when it never ends.\<close>

partial_function (option) wait_until_deleted :: "env \<Rightarrow> string \<Rightarrow> agent \<Rightarrow> agent option" where
  "wait_until_deleted E filename a =
     (let stop = env_stop E (tick a); a = next_tick a in
      if \<not> stop \<and> files a filename \<noteq> None
      then wait_until_deleted E filename (collectGarbage E (collectNow a))
      else Some a)"

text \<open>The second half: open the file, write the first chunk, fetch the others.\<close>

definition write_testcase ::
    "env \<Rightarrow> FluffiTestcaseID \<Rightarrow> string \<Rightarrow> bytes \<Rightarrow> bool \<Rightarrow> string \<Rightarrow> agent \<Rightarrow>
     (bool \<times> agent) option" where
  "write_testcase E testcaseId filename firstChunk isLastChunk sourceHAP a =
     (if \<not> env_open_ok E (tick a) filename then Some (False, next_tick a)
      else
        (let a = fwrite filename firstChunk ((next_tick a)\<lparr>files := (files a)(filename \<mapsto> [])\<rparr>)
         in if \<not> isLastChunk
            then appendRemainingChunks E filename testcaseId sourceHAP 1 a
            else Some (True, a)))"

definition storeTestcaseFileOnDisk ::
    "env \<Rightarrow> FluffiTestcaseID \<Rightarrow> string \<Rightarrow> bytes \<Rightarrow> bool \<Rightarrow> string \<Rightarrow> agent \<Rightarrow>
     (bool \<times> agent) option" where
  "storeTestcaseFileOnDisk E testcaseId testcaseDir firstChunk isLastChunk sourceHAP a =
     (let filename = generateTestcasePathAndFilename testcaseId testcaseDir in
      if files a filename \<noteq> None then
        (if isFileMarkedForDeletion filename a then
           do {
             a \<leftarrow> wait_until_deleted E filename a;
             if files a filename \<noteq> None then Some (False, a)
             else write_testcase E testcaseId filename firstChunk isLastChunk sourceHAP a
           }
         else Some (False, a))
      else write_testcase E testcaseId filename firstChunk isLastChunk sourceHAP a)"

section \<open>Renaming\<close>

fun rename_tries :: "env \<Rightarrow> nat \<Rightarrow> string \<Rightarrow> string \<Rightarrow> agent \<Rightarrow> bool \<times> agent" where
  "rename_tries E 0 from to a = (False, a)"
| "rename_tries E (Suc n) from to a =
     (if files a from \<noteq> None \<and> env_rename_ok E (tick a) from
      then (True, (next_tick a)\<lparr>files := ((files a)(from := None))(to := files a from)\<rparr>)
      else rename_tries E n from to (next_tick a))"

definition attemptRenameFile :: "env \<Rightarrow> string \<Rightarrow> string \<Rightarrow> agent \<Rightarrow> bool \<times> agent" where
  "attemptRenameFile E from to a =
     (if files a from = None then (False, a) else rename_tries E 100 from to a)"

text \<open>
  \<open>entries\<close> is what the directory iterator yields: path, extension, and whether it is a
  regular file.
\<close>

definition markAllFilesOfTypeInPathForDeletion ::
    "(string \<times> string \<times> bool) list \<Rightarrow> string \<Rightarrow> agent \<Rightarrow> agent" where
  "markAllFilesOfTypeInPathForDeletion entries type a =
     fold (\<lambda>(path, extension, regular) a.
             if regular \<and> extension = type then markFileForDelete path a else a) entries a"

section \<open>The chunks of a file\<close>

lemma chunkSize_pos: "0 < chunkSizeInBytes"
  by (simp add: chunkSizeInBytes_def)

definition chunk_of :: "bytes \<Rightarrow> nat \<Rightarrow> bytes" where
  "chunk_of dat n = take chunkSizeInBytes (drop (n * chunkSizeInBytes) dat)"

definition last_chunk :: "bytes \<Rightarrow> nat \<Rightarrow> bool" where
  "last_chunk dat n \<longleftrightarrow> length dat \<le> (n + 1) * chunkSizeInBytes"

lemma take_chunk: "take (n * chunkSizeInBytes) dat @ chunk_of dat n = take (Suc n * chunkSizeInBytes) dat"
  using take_add [of "n * chunkSizeInBytes" chunkSizeInBytes dat]
  by (simp add: chunk_of_def add.commute)

lemma take_last_chunk: "last_chunk dat n \<Longrightarrow> take (Suc n * chunkSizeInBytes) dat = dat"
  by (simp add: last_chunk_def)

lemma loadTestcaseChunkInMemory_chunk:
  assumes f: "files a (generateTestcasePathAndFilename t dir) = Some dat"
    and n: "n * chunkSizeInBytes \<le> length dat"
  shows "loadTestcaseChunkInMemory E t dir (int n) a = (chunk_of dat n, Some (last_chunk dat n))"
proof -
  have le: "\<not> int n * int chunkSizeInBytes > int (length dat)"
    using n by (metis not_le of_nat_le_iff of_nat_mult)
  have more: "(int (length dat) > int n * int chunkSizeInBytes + int chunkSizeInBytes)
      \<longleftrightarrow> \<not> last_chunk dat n"
    by (simp add: last_chunk_def algebra_simps not_le flip: of_nat_mult of_nat_add)
  have dat: "take (length dat - n * chunkSizeInBytes) (drop (n * chunkSizeInBytes) dat) = chunk_of dat n"
    if "last_chunk dat n"
    using that by (simp add: chunk_of_def last_chunk_def)
  have sz: "nat (int (length dat) - int n * int chunkSizeInBytes) = length dat - n * chunkSizeInBytes"
    by (simp flip: of_nat_mult add: nat_diff_distrib)
  have off: "nat (int n * int chunkSizeInBytes) = n * chunkSizeInBytes"
    by (simp flip: of_nat_mult)
  show ?thesis
    using f le dat more unfolding loadTestcaseChunkInMemory_def
    by (cases "last_chunk dat n") (simp_all add: Let_def off sz chunk_of_def)
qed

text \<open>The handler answers a request for a chunk that exists with that chunk.\<close>

lemma generateTestcasePath_proto [simp]:
  "generateTestcasePathAndFilename (tid_of_proto (tid_getProtobuf t)) dir =
     generateTestcasePathAndFilename t dir"
  by (simp add: generateTestcasePathAndFilename_eq_iff)

lemma GetTestcaseChunkRequestHandler_chunk:
  assumes "files p (generateTestcasePathAndFilename t dir) = Some dat"
    and "n * chunkSizeInBytes \<le> length dat"
  shows "fst (GetTestcaseChunkRequestHandler E dir del p (chunk_request t (int n))) =
    GetTestCaseChunkResponse \<lparr>gcr_chunkID = int n, gcr_testCaseChunk = chunk_of dat n,
      gcr_isLastChunk = last_chunk dat n\<rparr>"
    and "snd (GetTestcaseChunkRequestHandler E dir del p (chunk_request t (int n))) =
      (if last_chunk dat n \<and> del then markFileForDelete (generateTestcasePathAndFilename t dir) p else p)"
  using loadTestcaseChunkInMemory_chunk [of p "tid_of_proto (tid_getProtobuf t)" dir dat n] assms
  by (simp_all add: GetTestcaseChunkRequestHandler_def gettestcasechunkrequest_def chunk_request_def
      the_flag_def opt_or_def Let_def)

section \<open>The transfer\<close>

text \<open>A peer that answers every chunk request for one testcase with the handler.\<close>

definition serves :: "env \<Rightarrow> string \<Rightarrow> env \<Rightarrow> string \<Rightarrow> bool \<Rightarrow> agent \<Rightarrow> FluffiTestcaseID \<Rightarrow> bool" where
  "serves E hap Ep dir del p t \<longleftrightarrow>
     (\<forall>k c. env_net E k hap (chunk_request t c) =
        Reply (fst (GetTestcaseChunkRequestHandler Ep dir del p (chunk_request t c))))"

lemma sendReqAndRecvResp_reply:
  assumes "sockets_idle a" and "\<And>k. env_net E k hap req = Reply m"
  obtains a' where "sendReqAndRecvResp E req hap tmo a = Some (Some m, a')"
    and "sockets_idle a'" and "files a' = files a"
    and "m_setOfFilesToDelete a' = m_setOfFilesToDelete a"
proof -
  have "env_net E (Suc (tick a)) hap req \<notin> {SendError, RecvError}"
    by (simp add: assms(2))
  from sendReqAndRecvResp_returns [OF assms(1) this, of tmo] obtain r a'
    where s: "sendReqAndRecvResp E req hap tmo a = Some (r, a')" by auto
  then have "r = Some m"
    by (cases rule: sendReqAndRecvResp_cases) (simp_all add: assms(2))
  with s show ?thesis
    using that sendReqAndRecvResp_idle [OF s assms(1)] sendReqAndRecvResp_frame [OF s] by blast
qed

lemma fwrite_simps [comm]:
  "files (fwrite f bs a) = (files a)(f \<mapsto> opt_or '''' (files a f) @ bs)"
  "m_setOfFilesToDelete (fwrite f bs a) = m_setOfFilesToDelete a"
  "sockets_idle (fwrite f bs a) = sockets_idle a"
  by (simp_all add: fwrite_def sockets_idle_def)

lemma appendRemainingChunks_complete:
  assumes srv: "serves E hap Ep dir del p t"
    and dat: "files p (generateTestcasePathAndFilename t dir) = Some dat"
  shows "files a f = Some (take (n * chunkSizeInBytes) dat) \<Longrightarrow> n * chunkSizeInBytes \<le> length dat \<Longrightarrow>
    sockets_idle a \<Longrightarrow>
    \<exists>a'. appendRemainingChunks E f t hap (int n) a = Some (True, a') \<and>
         files a' = (files a)(f \<mapsto> dat) \<and> m_setOfFilesToDelete a' = m_setOfFilesToDelete a"
proof (induction "length dat - n * chunkSizeInBytes" arbitrary: n a rule: less_induct)
  case less
  let ?r = "\<lparr>gcr_chunkID = int n, gcr_testCaseChunk = chunk_of dat n, gcr_isLastChunk = last_chunk dat n\<rparr>"
  have net: "env_net E k hap (chunk_request t (int n)) = Reply (GetTestCaseChunkResponse ?r)" for k
    using srv GetTestcaseChunkRequestHandler_chunk(1) [OF dat less.prems(2)]
    by (simp add: serves_def)
  obtain b where b: "sendReqAndRecvResp E (chunk_request t (int n)) hap timeoutNormalMessage a
        = Some (Some (GetTestCaseChunkResponse ?r), b)" "sockets_idle b" "files b = files a"
      "m_setOfFilesToDelete b = m_setOfFilesToDelete a"
    by (rule sendReqAndRecvResp_reply [OF less.prems(3) net])
  let ?c = "fwrite f (chunk_of dat n) b"
  have c: "files ?c = (files a)(f \<mapsto> take (Suc n * chunkSizeInBytes) dat)"
    using less.prems(1) by (simp add: fwrite_simps b(3) opt_or_def take_chunk del: mult_Suc)
  show ?case
  proof (cases "last_chunk dat n")
    case True
    then show ?thesis
      using take_last_chunk [OF True]
      by (subst appendRemainingChunks.simps)
        (simp add: b(1,4) c gettestcasechunkresponse_def fwrite_simps(2) Let_def True del: mult_Suc)
  next
    case False
    then have n: "Suc n * chunkSizeInBytes \<le> length dat"
      by (simp add: last_chunk_def)
    moreover have "length dat - Suc n * chunkSizeInBytes < length dat - n * chunkSizeInBytes"
      using n chunkSize_pos by simp
    moreover have "files ?c f = Some (take (Suc n * chunkSizeInBytes) dat)" "sockets_idle ?c"
      using c b(2) by (simp_all add: fwrite_simps(3))
    ultimately obtain a' where "appendRemainingChunks E f t hap (int (Suc n)) ?c = Some (True, a')"
        "files a' = (files ?c)(f \<mapsto> dat)" "m_setOfFilesToDelete a' = m_setOfFilesToDelete ?c"
      using less.hyps [of "Suc n" ?c] by metis
    with False show ?thesis
      by (subst appendRemainingChunks.simps)
        (simp add: b(1,4) c gettestcasechunkresponse_def fwrite_simps(2) Let_def add.commute del: mult_Suc)
  qed
qed

text \<open>
  The first chunk comes with the response that names the testcase
  (\<open>GetTestcaseResponse\<close>, \<open>GetTestcaseToMutateResponse\<close>); the rest is fetched.
\<close>

lemma storeTestcaseFileOnDisk_fetches:
  assumes idle: "sockets_idle a"
    and srv: "\<not> last_chunk dat 0 \<Longrightarrow> serves E hap Ep pdir del p t \<and>
          files p (generateTestcasePathAndFilename t pdir) = Some dat"
    and new: "files a (generateTestcasePathAndFilename t dir) = None"
    and open_ok: "env_open_ok E (tick a) (generateTestcasePathAndFilename t dir)"
  shows "\<exists>a'. storeTestcaseFileOnDisk E t dir (chunk_of dat 0) (last_chunk dat 0) hap a = Some (True, a') \<and>
    files a' = (files a)(generateTestcasePathAndFilename t dir \<mapsto> dat) \<and>
    m_setOfFilesToDelete a' = m_setOfFilesToDelete a"
proof -
  let ?f = "generateTestcasePathAndFilename t dir"
  let ?b = "fwrite ?f (chunk_of dat 0) ((next_tick a)\<lparr>files := (files a)(?f \<mapsto> [])\<rparr>)"
  have fb: "files ?b = (files a)(?f \<mapsto> take (1 * chunkSizeInBytes) dat)"
    by (simp add: fwrite_simps opt_or_def chunk_of_def)
  show ?thesis
  proof (cases "last_chunk dat 0")
    case True
    then have "take (1 * chunkSizeInBytes) dat = dat"
      by (simp add: last_chunk_def)
    with True fb show ?thesis
      by (simp add: storeTestcaseFileOnDisk_def write_testcase_def Let_def new open_ok fwrite_simps(2))
  next
    case False
    then have "1 * chunkSizeInBytes \<le> length dat"
      by (simp add: last_chunk_def)
    moreover have "sockets_idle ?b"
      using idle by (simp add: sockets_idle_def fwrite_def)
    moreover note srv [OF False]
    ultimately obtain a' where "appendRemainingChunks E ?f t hap (int 1) ?b = Some (True, a')"
        "files a' = (files ?b)(?f \<mapsto> dat)" "m_setOfFilesToDelete a' = m_setOfFilesToDelete ?b"
      using appendRemainingChunks_complete [of E hap Ep pdir del p t dat ?b ?f 1] fb by auto
    with False fb show ?thesis
      by (simp add: storeTestcaseFileOnDisk_def write_testcase_def Let_def new open_ok fwrite_simps(2))
  qed
qed

section \<open>What storing a testcase may touch\<close>

lemma appendRemainingChunks_frame:
  assumes "appendRemainingChunks E f t hap n a = Some y"
  shows "\<forall>g. g \<noteq> f \<longrightarrow> files (snd y) g = files a g"
    and "m_setOfFilesToDelete (snd y) = m_setOfFilesToDelete a"
proof -
  have "(\<forall>g. g \<noteq> f \<longrightarrow> files (snd y) g = files a g) \<and>
      m_setOfFilesToDelete (snd y) = m_setOfFilesToDelete a"
  proof (rule appendRemainingChunks.raw_induct [OF _ assms])
    fix rec E f t hap n a y
    assume IH: "\<And>E f t hap n a y. rec E f t hap n a = Some y \<Longrightarrow>
        (\<forall>g. g \<noteq> f \<longrightarrow> files (snd y) g = files a g) \<and>
        m_setOfFilesToDelete (snd y) = m_setOfFilesToDelete a"
      and step: "do {
          (resp, a) \<leftarrow> sendReqAndRecvResp E (chunk_request t n) hap timeoutNormalMessage a;
          (case resp of None \<Rightarrow> Some (False, a)
           | Some m \<Rightarrow>
               (let receivedTestcaseChunk = gettestcasechunkresponse m;
                    a = fwrite f (gcr_testCaseChunk receivedTestcaseChunk) a
                in if gcr_isLastChunk receivedTestcaseChunk then Some (True, a)
                   else rec E f t hap (n + 1) a)) } = Some y"
    then obtain x b
      where b: "sendReqAndRecvResp E (chunk_request t n) hap timeoutNormalMessage a = Some (x, b)"
      by (auto split: bind_splits)
    show "(\<forall>g. g \<noteq> f \<longrightarrow> files (snd y) g = files a g) \<and>
        m_setOfFilesToDelete (snd y) = m_setOfFilesToDelete a"
      using step b sendReqAndRecvResp_frame(1,2) [OF b]
      by (auto simp: Let_def fwrite_simps split: option.splits if_splits dest!: IH)
  qed
  then show "\<forall>g. g \<noteq> f \<longrightarrow> files (snd y) g = files a g"
    and "m_setOfFilesToDelete (snd y) = m_setOfFilesToDelete a" by simp_all
qed

lemma wait_until_deleted_safe:
  assumes "wait_until_deleted E f a = Some b"
  shows "gc_safe a b"
proof (rule wait_until_deleted.raw_induct [OF _ assms])
  fix rec E f a b
  assume IH: "\<And>E f a b. rec E f a = Some b \<Longrightarrow> gc_safe a b"
    and step: "(let stop = env_stop E (tick a); a = next_tick a in
        if \<not> stop \<and> files a f \<noteq> None then rec E f (collectGarbage E (collectNow a))
        else Some a) = Some b"
  have n: "gc_safe a (collectNow (next_tick a))" "gc_safe a (next_tick a)"
    by (simp_all add: gc_safe_def gc)
  show "gc_safe a b"
    using step n(2) gc_safe_trans [OF n(1) gc_safe_trans [OF collectGarbage_safe IH]]
    by (auto simp: Let_def split: if_splits)
qed

lemma write_testcase_frame:
  assumes "write_testcase E t f c l hap a = Some (r, a')"
  shows "\<forall>g. g \<noteq> f \<longrightarrow> files a' g = files a g"
proof (cases "env_open_ok E (tick a) f \<and> \<not> l")
  case True
  then have "appendRemainingChunks E f t hap 1
      (fwrite f c ((next_tick a)\<lparr>files := (files a)(f \<mapsto> [])\<rparr>)) = Some (r, a')"
    using assms by (simp add: write_testcase_def Let_def)
  from appendRemainingChunks_frame(1) [OF this] show ?thesis
    by (simp add: fwrite_simps)
next
  case False
  then show ?thesis
    using assms by (auto simp: write_testcase_def Let_def fwrite_simps split: if_splits)
qed

text \<open>
  Storing a testcase leaves every other file alone unless it was marked for deletion, and
  never touches an existing file of that name that is not marked.
\<close>

lemma storeTestcaseFileOnDisk_frame:
  assumes s: "storeTestcaseFileOnDisk E t dir c l hap a = Some (r, a')"
    and g: "g \<notin> set (m_setOfFilesToDelete a)"
      "g \<noteq> generateTestcasePathAndFilename t dir \<or> files a g \<noteq> None"
  shows "files a' g = files a g"
proof -
  let ?f = "generateTestcasePathAndFilename t dir"
  have keep: "files a' g = files b g"
    if "write_testcase E t ?f c l hap b = Some (r, a')" "g \<noteq> ?f" for b
    using write_testcase_frame [OF that(1)] that(2) by simp
  show ?thesis
  proof (cases "files a ?f = None")
    case True
    with s g keep show ?thesis by (auto simp: storeTestcaseFileOnDisk_def Let_def)
  next
    case old: False
    show ?thesis
    proof (cases "isFileMarkedForDeletion ?f a")
      case False
      with old s show ?thesis by (simp add: storeTestcaseFileOnDisk_def Let_def)
    next
      case True
      with g have gf: "g \<noteq> ?f" by (auto simp: gc)
      from True old s obtain b where b: "wait_until_deleted E ?f a = Some b"
        by (auto simp: storeTestcaseFileOnDisk_def Let_def split: bind_splits)
      have "files b g = files a g"
        by (rule gc_safeD(2) [OF wait_until_deleted_safe [OF b] g(1)])
      moreover have "files a' g = files b g"
        using True old s b keep [OF _ gf]
        by (auto simp: storeTestcaseFileOnDisk_def Let_def split: if_splits)
      ultimately show ?thesis by simp
    qed
  qed
qed

text \<open>When deletions succeed and nothing asks the worker to stop, waiting ends with the file gone.\<close>

lemma wait_until_deleted_ends:
  assumes ok: "\<And>k f. env_remove_ok E k f" and run: "\<And>k. \<not> env_stop E k"
    and ne: "'''' \<notin> set (m_setOfFilesToDelete a)" and m: "f \<in> set (m_setOfFilesToDelete a)"
  shows "\<exists>b. wait_until_deleted E f a = Some b \<and> files b f = None"
proof (cases "files a f = None")
  case True
  then show ?thesis
    by (subst wait_until_deleted.simps) (simp add: Let_def)
next
  case False
  let ?c = "collectNow (next_tick a)" let ?b = "collectGarbage E ?c"
  have "m_setOfFilesToDelete ?b = []"
    by (rule collectGarbage_empties [where E = E, OF ok]) (use ne in \<open>simp add: gc\<close>)
  moreover have "f \<in> set (m_setOfFilesToDelete ?b) \<or> files ?b f = None"
    by (rule gc_safeD(4) [OF collectGarbage_safe]) (use m ne in \<open>auto simp: gc\<close>)
  ultimately have gone: "files ?b f = None" by simp
  then have "wait_until_deleted E f ?b = Some (next_tick ?b)"
    by (subst wait_until_deleted.simps) (simp add: Let_def)
  with False run gone show ?thesis
    by (subst wait_until_deleted.simps) (simp add: Let_def)
qed

section \<open>Renaming a file\<close>

lemma rename_tries_result:
  "rename_tries E n from to a = (r, a') \<Longrightarrow>
     files a' = (if r then ((files a)(from := None))(to := files a from) else files a) \<and>
     (r \<longrightarrow> files a from \<noteq> None)"
proof (induction n arbitrary: a)
  case (Suc n)
  show ?case
  proof (cases "files a from \<noteq> None \<and> env_rename_ok E (tick a) from")
    case True
    with Suc.prems show ?thesis by auto
  next
    case False
    with Suc.prems have "rename_tries E n from to (next_tick a) = (r, a')" by auto
    from Suc.IH [OF this] show ?thesis by (simp del: fun_upd_apply)
  qed
qed simp

lemma attemptRenameFile_result:
  assumes "attemptRenameFile E from to a = (r, a')"
  shows "files a' = (if r then ((files a)(from := None))(to := files a from) else files a)"
    and "r \<Longrightarrow> files a from \<noteq> None"
  using assms rename_tries_result [of E 100 "from" to a r a']
  by (auto simp: attemptRenameFile_def split: if_splits)

section \<open>Properties\<close>

text \<open>
  C4: A testcase served in chunks by the chunk handler of one agent and fetched with
  \<open>storeTestcaseFileOnDisk\<close> by another arrives complete and unchanged, the transfer ends, and
  no other file and no deletion mark of the receiver changes.
\<close>

theorem chunked_transfer_roundtrip:
  assumes "sockets_idle a"
    and "files p (generateTestcasePathAndFilename t pdir) = Some content"
    and "loadTestcaseChunkInMemory Ep t pdir 0 p = (firstChunk, Some isLast)"
    and "serves E hap Ep pdir del p t"
    and "files a (generateTestcasePathAndFilename t dir) = None"
    and "env_open_ok E (tick a) (generateTestcasePathAndFilename t dir)"
  shows "\<exists>a'. storeTestcaseFileOnDisk E t dir firstChunk isLast hap a = Some (True, a') \<and>
    files a' = (files a)(generateTestcasePathAndFilename t dir \<mapsto> content) \<and>
    m_setOfFilesToDelete a' = m_setOfFilesToDelete a"
proof -
  have "firstChunk = chunk_of content 0" "isLast = last_chunk content 0"
    using loadTestcaseChunkInMemory_chunk [of p t pdir content 0 Ep] assms(2,3) by auto
  then show ?thesis
    using storeTestcaseFileOnDisk_fetches [of a content E hap Ep pdir del p t dir] assms by blast
qed

definition wit_tid :: FluffiTestcaseID where
  "wit_tid = mkTestcaseID (mkServiceDescriptor ''h:1'' ''g'') 7"

definition wit_peer :: agent where
  "wit_peer = fresh_agent\<lparr>files :=
     [generateTestcasePathAndFilename wit_tid ''p'' \<mapsto> replicate (2 * chunkSizeInBytes + 5) (CHR ''x'')]\<rparr>"

definition wit_net :: env where
  "wit_net = quiet_env\<lparr>env_net := \<lambda>_ _ req.
     Reply (fst (GetTestcaseChunkRequestHandler quiet_env ''p'' False wit_peer req))\<rparr>"

lemma wit_peer_file:
  "files wit_peer (generateTestcasePathAndFilename wit_tid ''p'') =
     Some (replicate (2 * chunkSizeInBytes + 5) (CHR ''x''))"
  by (simp add: wit_peer_def)

theorem chunked_transfer_roundtrip_witness:
  "\<exists>a'. storeTestcaseFileOnDisk wit_net wit_tid ''d''
      (chunk_of (replicate (2 * chunkSizeInBytes + 5) (CHR ''x'')) 0) False ''h:1'' fresh_agent
        = Some (True, a') \<and>
    files a' = [generateTestcasePathAndFilename wit_tid ''d'' \<mapsto>
      replicate (2 * chunkSizeInBytes + 5) (CHR ''x'')]"
proof -
  let ?c = "replicate (2 * chunkSizeInBytes + 5) (CHR ''x'')"
  have "\<not> last_chunk ?c 0" by (simp add: last_chunk_def)
  then have l: "loadTestcaseChunkInMemory quiet_env wit_tid ''p'' 0 wit_peer = (chunk_of ?c 0, Some False)"
    using loadTestcaseChunkInMemory_chunk [OF wit_peer_file, of 0 quiet_env] by simp
  have "sockets_idle fresh_agent" "files fresh_agent = Map.empty"
    by (simp_all add: sockets_idle_def fresh_agent_def)
  moreover have "serves wit_net ''h:1'' quiet_env ''p'' False wit_peer wit_tid"
    "env_open_ok wit_net (tick fresh_agent) (generateTestcasePathAndFilename wit_tid ''d'')"
    by (simp_all add: serves_def wit_net_def quiet_env_def)
  ultimately show ?thesis
    using chunked_transfer_roundtrip [OF _ wit_peer_file l, of fresh_agent wit_net "''h:1''" False "''d''"]
    by auto
qed

text \<open>
  Storing a testcase never harms another file: every file that is not marked for deletion
  keeps its content, whatever the peer answers, except the testcase's own file when that did not exist.
\<close>

theorem storeTestcaseFileOnDisk_keeps_files:
  assumes "storeTestcaseFileOnDisk E t dir firstChunk isLast hap a = Some (ok, a')"
    and "\<not> isFileMarkedForDeletion g a"
    and "g \<noteq> generateTestcasePathAndFilename t dir \<or> files a g \<noteq> None"
  shows "files a' g = files a g"
  using storeTestcaseFileOnDisk_frame [OF assms(1) _ assms(3)] assms(2) by (simp add: gc)

theorem storeTestcaseFileOnDisk_keeps_files_witness:
  "\<exists>ok a'. storeTestcaseFileOnDisk quiet_env wit_tid ''p'' ''new'' True ''h:1'' wit_peer = Some (ok, a') \<and>
     files a' (generateTestcasePathAndFilename wit_tid ''p'') =
       Some (replicate (2 * chunkSizeInBytes + 5) (CHR ''x''))"
proof -
  let ?f = "generateTestcasePathAndFilename wit_tid ''p''"
  have m: "\<not> isFileMarkedForDeletion ?f wit_peer"
    by (simp add: gc wit_peer_def fresh_agent_def)
  then have s: "storeTestcaseFileOnDisk quiet_env wit_tid ''p'' ''new'' True ''h:1'' wit_peer
      = Some (False, wit_peer)"
    by (simp add: storeTestcaseFileOnDisk_def wit_peer_file)
  show ?thesis
    using s storeTestcaseFileOnDisk_keeps_files [OF s m] wit_peer_file by auto
qed

end
