(* ===== verification/Status.thy ===== *)
theory Status
  imports CommInt
begin

text \<open>
  The status an agent reports to its manager (\<open>GetStatusRequestHandler.cpp\<close> and its versions
  for the generator, the evaluator and the runner), the queue of error messages that goes
  with it (\<open>FLUFFILogHandler.cpp\<close>), and the reader of the status line. The CPU loads are
  floating point numbers printed by the stream; here their text is given.
\<close>

section \<open>FLUFFILogHandler\<close>

definition addToMessageQueue :: "string \<Rightarrow> string list \<Rightarrow> string list" where
  "addToMessageQueue logLine errorMessages =
     (if length errorMessages > 1000 then tl errorMessages else errorMessages) @ [logLine]"

definition getAllMessages :: "string list \<Rightarrow> string list \<times> string list" where
  "getAllMessages errorMessages = (errorMessages, [])"

lemma addToMessageQueue_bound:
  "length errorMessages \<le> 1001 \<Longrightarrow> length (addToMessageQueue l errorMessages) \<le> 1001"
  by (auto simp: addToMessageQueue_def)

lemma addToMessageQueue_newest:
  "length q \<le> 1001 \<Longrightarrow> addToMessageQueue l q = drop (length (q @ [l]) - 1001) (q @ [l])"
proof (cases "length q > 1000")
  case True
  moreover assume "length q \<le> 1001"
  ultimately have "length q = 1001" by simp
  then show ?thesis by (simp add: addToMessageQueue_def drop_Suc)
qed (simp add: addToMessageQueue_def)

section \<open>GetStatusRequestHandler\<close>

record status_handler =
  m_timeOfLastManagerRequest :: int
  m_ManagerWasReplaced :: bool
  m_errorMessages :: "string list"

definition isManagerActive :: "int \<Rightarrow> int \<Rightarrow> status_handler \<Rightarrow> bool" where
  "isManagerActive now maxAllowedTimeOfInactivityMS h \<longleftrightarrow>
     now - m_timeOfLastManagerRequest h < maxAllowedTimeOfInactivityMS"

definition resetManagerActiveDetector :: "int \<Rightarrow> status_handler \<Rightarrow> status_handler" where
  "resetManagerActiveDetector now h = h\<lparr>m_timeOfLastManagerRequest := now\<rparr>"

definition wasManagerReplaced :: "status_handler \<Rightarrow> bool" where
  "wasManagerReplaced h = m_ManagerWasReplaced h"

text \<open>\<open>status\<close> is what \<open>generateStatus\<close> gives; \<open>myLM\<close> the manager the agent registered at.\<close>

definition GetStatusRequestHandler ::
    "FluffiServiceDescriptor \<Rightarrow> int \<Rightarrow> string \<Rightarrow> FLUFFIMessage \<Rightarrow> status_handler \<Rightarrow>
     FLUFFIMessage \<times> status_handler" where
  "GetStatusRequestHandler myLM now status m h =
     (let requester = sd_of_proto (opt_or default_ServiceDescriptor
            (case m of GetStatusRequest d \<Rightarrow> d | _ \<Rightarrow> None));
          h = (if \<not> sd_eq myLM (mkServiceDescriptor '''' '''') \<and> \<not> sd_eq myLM requester
               then h\<lparr>m_ManagerWasReplaced := True\<rparr> else h);
          h = h\<lparr>m_timeOfLastManagerRequest := now\<rparr>;
          (messages, left) = getAllMessages (m_errorMessages h)
      in (GetStatusResponse status messages, h\<lparr>m_errorMessages := left\<rparr>))"

definition generateGeneralStatus :: "string \<Rightarrow> string \<Rightarrow> agent \<Rightarrow> string" where
  "generateGeneralStatus sysCPU procCPU a =
     ''SysCPUUtil '' @ sysCPU @ '' | ProcCPUUtil '' @ procCPU @ '' | AverageRTT '' @
     getAverageRoundTripTime a @ '' |''"

definition TG_generateStatus :: "string \<Rightarrow> string \<Rightarrow> agent \<Rightarrow> nat \<Rightarrow> nat \<Rightarrow> string" where
  "TG_generateStatus sysCPU procCPU a pending sent =
     generateGeneralStatus sysCPU procCPU a @ '' TestCasesQueueSize '' @ to_string pending @ '' |'' @
     '' TestCasesWithoutResponse '' @ to_string sent @ '' |''"

definition TE_generateStatus :: "string \<Rightarrow> string \<Rightarrow> agent \<Rightarrow> nat \<Rightarrow> string" where
  "TE_generateStatus sysCPU procCPU a outcomes =
     generateGeneralStatus sysCPU procCPU a @ '' TestEvaluationsQueueSize '' @ to_string outcomes @ '' |''"

text \<open>The runner's counter starts again at 0 with every report.\<close>

definition TR_generateStatus :: "string \<Rightarrow> string \<Rightarrow> agent \<Rightarrow> nat \<Rightarrow> string \<times> nat" where
  "TR_generateStatus sysCPU procCPU a n =
     (generateGeneralStatus sysCPU procCPU a @ '' TestcasesSinceLastStatusRequest '' @ to_string n @ '' |'', 0)"

section \<open>Reading a status line\<close>

text \<open>As \<open>getStatusOfManagedInstances\<close> does; \<open>element\<close> is a piece between bars.\<close>

definition status_entry :: "string \<Rightarrow> (string \<rightharpoonup> string) \<Rightarrow> (string \<rightharpoonup> string)" where
  "status_entry element st =
     (let pair = splitString element '' '' in
      if length pair = 3 then st(pair ! 0 \<mapsto> pair ! 1)
      else if length pair = 4 then st(pair ! 1 \<mapsto> pair ! 2)
      else st)"

definition parse_status :: "string \<Rightarrow> (string \<rightharpoonup> string)" where
  "parse_status line = fold status_entry (splitString line ''|'') Map.empty"

definition plain :: "string \<Rightarrow> bool" where
  "plain s \<longleftrightarrow> s \<noteq> [] \<and> CHR '' '' \<notin> set s \<and> CHR ''|'' \<notin> set s"

lemma plain_to_string: "plain (to_string n)"
proof -
  have "CHR '' '' \<notin> set (to_string n)" "CHR ''|'' \<notin> set (to_string n)"
    using to_string_digits [of n] by (auto simp: is_digit_def)
  then show ?thesis by (simp add: plain_def)
qed

text \<open>The first entry has the form \<open>name value \<close>, every other one starts with a space.\<close>

definition first_entry :: "string \<Rightarrow> string \<Rightarrow> string" where
  "first_entry name val = join '' '' [name, val, '''']"

definition later_entry :: "string \<Rightarrow> string \<Rightarrow> string" where
  "later_entry name val = join '' '' ['''', name, val, '''']"

lemma status_entry_first:
  assumes "plain name" "plain val"
  shows "status_entry (first_entry name val) st = st(name \<mapsto> val)"
proof -
  have "splitString (first_entry name val) '' '' = [name, val, '''']"
    unfolding first_entry_def using assms by (intro splitString_join) (auto simp: plain_def)
  then show ?thesis by (simp add: status_entry_def Let_def)
qed

lemma status_entry_later:
  assumes "plain name" "plain val"
  shows "status_entry (later_entry name val) st = st(name \<mapsto> val)"
proof -
  have "splitString (later_entry name val) '' '' = ['''', name, val, '''']"
    unfolding later_entry_def using assms by (intro splitString_join) (auto simp: plain_def)
  then show ?thesis by (simp add: status_entry_def Let_def)
qed

lemma status_entry_Nil: "status_entry '''' st = st"
  by (simp add: status_entry_def splitString_def)

lemma entry_no_bar:
  "plain name \<Longrightarrow> plain val \<Longrightarrow> CHR ''|'' \<notin> set (first_entry name val)"
  "plain name \<Longrightarrow> plain val \<Longrightarrow> CHR ''|'' \<notin> set (later_entry name val)"
  by (auto simp: plain_def first_entry_def later_entry_def)

text \<open>A line of entries, each closed by a bar, is read back as the map of its entries.\<close>

lemma parse_status_line:
  assumes "plain n0" "plain v0" and "\<forall>(n, v) \<in> set es. plain n \<and> plain v"
  shows "parse_status (join ''|'' (first_entry n0 v0 # map (\<lambda>(n, v). later_entry n v) es @ [''''])) =
    fold (\<lambda>(n, v) st. st(n \<mapsto> v)) es [n0 \<mapsto> v0]"
proof -
  let ?ps = "first_entry n0 v0 # map (\<lambda>(n, v). later_entry n v) es @ ['''']"
  have "\<forall>p \<in> set ?ps. CHR ''|'' \<notin> set p"
    using assms entry_no_bar by auto
  then have "splitString (join ''|'' ?ps) ''|'' = ?ps"
    by (intro splitString_join) simp_all
  moreover have "fold status_entry (map (\<lambda>(n, v). later_entry n v) es) st = fold (\<lambda>(n, v) st. st(n \<mapsto> v)) es st"
    for st
    using assms(3) by (induction es arbitrary: st) (auto simp: status_entry_later)
  ultimately show ?thesis
    using assms(1,2) by (simp add: parse_status_def status_entry_first status_entry_Nil)
qed

lemma TG_status_read:
  assumes "plain sysCPU" "plain procCPU"
  shows "parse_status (TG_generateStatus sysCPU procCPU a pending sent) =
    [''SysCPUUtil'' \<mapsto> sysCPU, ''ProcCPUUtil'' \<mapsto> procCPU, ''AverageRTT'' \<mapsto> getAverageRoundTripTime a,
     ''TestCasesQueueSize'' \<mapsto> to_string pending, ''TestCasesWithoutResponse'' \<mapsto> to_string sent]"
proof -
  let ?es = "[(''ProcCPUUtil'', procCPU), (''AverageRTT'', getAverageRoundTripTime a),
      (''TestCasesQueueSize'', to_string pending), (''TestCasesWithoutResponse'', to_string sent)]"
  have "TG_generateStatus sysCPU procCPU a pending sent =
      join ''|'' (first_entry ''SysCPUUtil'' sysCPU # map (\<lambda>(n, v). later_entry n v) ?es @ [''''])"
    by (simp add: TG_generateStatus_def generateGeneralStatus_def first_entry_def later_entry_def)
  moreover have "plain (getAverageRoundTripTime a)"
    unfolding getAverageRoundTripTime_def by (rule plain_to_string)
  ultimately show ?thesis
    using parse_status_line [of "''SysCPUUtil''" sysCPU ?es] assms plain_to_string
    by (simp add: plain_def)
qed

lemma TE_status_read:
  assumes "plain sysCPU" "plain procCPU"
  shows "parse_status (TE_generateStatus sysCPU procCPU a outcomes) =
    [''SysCPUUtil'' \<mapsto> sysCPU, ''ProcCPUUtil'' \<mapsto> procCPU, ''AverageRTT'' \<mapsto> getAverageRoundTripTime a,
     ''TestEvaluationsQueueSize'' \<mapsto> to_string outcomes]"
proof -
  let ?es = "[(''ProcCPUUtil'', procCPU), (''AverageRTT'', getAverageRoundTripTime a),
      (''TestEvaluationsQueueSize'', to_string outcomes)]"
  have "TE_generateStatus sysCPU procCPU a outcomes =
      join ''|'' (first_entry ''SysCPUUtil'' sysCPU # map (\<lambda>(n, v). later_entry n v) ?es @ [''''])"
    by (simp add: TE_generateStatus_def generateGeneralStatus_def first_entry_def later_entry_def)
  moreover have "plain (getAverageRoundTripTime a)"
    unfolding getAverageRoundTripTime_def by (rule plain_to_string)
  ultimately show ?thesis
    using parse_status_line [of "''SysCPUUtil''" sysCPU ?es] assms plain_to_string
    by (simp add: plain_def)
qed

end
