(* ===== verification/LMDatabase.thy ===== *)
theory LMDatabase
  imports LMTables FileTransfer Status
begin

text \<open>
  The database manager of the local manager: one definition per method of
  \<open>LMDatabaseManager.cpp\<close>, with the statements it runs in their order and the value it
  returns on each outcome. Connection set-up and performance logging are left out.
\<close>

section \<open>Instances\<close>

datatype nice_result = nice_inserted | nice_guid_taken | nice_failed

text \<open>
  One attempt to insert a nice name. The server checks the key on the GUID before the key on
  the name, and the code recognises the former by the text of the error.
\<close>

definition try_nice_name :: "dbenv \<Rightarrow> string \<Rightarrow> string \<Rightarrow> lmdb \<Rightarrow> nice_result \<times> lmdb" where
  "try_nice_name D guid niceName s =
     (if \<not> db_ok D (stmt_no s) then (nice_failed, next_stmt s)
      else if guid \<in> fst ` set (nice_names_managed_instance s) then (nice_guid_taken, next_stmt s)
      else if niceName \<in> snd ` set (nice_names_managed_instance s) then (nice_failed, next_stmt s)
      else (nice_inserted, (next_stmt s)\<lparr>nice_names_managed_instance :=
              nice_names_managed_instance s @ [(guid, niceName)]\<rparr>))"

fun nice_name_loop :: "dbenv \<Rightarrow> nat \<Rightarrow> string \<Rightarrow> string \<Rightarrow> lmdb \<Rightarrow> bool \<times> lmdb" where
  "nice_name_loop D 0 guid niceName s = (False, s)"
| "nice_name_loop D (Suc n) guid niceName s =
     (case try_nice_name D guid niceName s of
        (nice_failed, s) \<Rightarrow> nice_name_loop D n guid niceName s
      | (_, s) \<Rightarrow> (True, s))"

definition writeManagedInstance ::
    "dbenv \<Rightarrow> FluffiServiceDescriptor \<Rightarrow> AgentType \<Rightarrow> string \<Rightarrow> string \<Rightarrow> lmdb \<Rightarrow> bool \<times> lmdb" where
  "writeManagedInstance D sd type subtype location s =
     (let (re, s) = exec_stmt D (\<lambda>_ s. Some (upsert_instance
            \<lparr>mi_GUID = m_guid sd, mi_HAP = m_serviceHostAndPort sd, mi_AgentType = type,
             mi_AgentSubType = subtype, mi_Location = location\<rparr> s)) s
      in if \<not> re then (False, s)
         else nice_name_loop D 9 (m_guid sd) (subtype @ m_serviceHostAndPort sd) s)"

definition getAllRegisteredInstances ::
    "dbenv \<Rightarrow> string \<Rightarrow> lmdb \<Rightarrow> (FluffiServiceDescriptor \<times> AgentType) list \<times> lmdb" where
  "getAllRegisteredInstances D location s =
     (let (rows, s) = query D (\<lambda>s. filter (\<lambda>m. mi_Location m = location) (managed_instances s)) s
      in (case rows of None \<Rightarrow> []
          | Some ms \<Rightarrow> map (\<lambda>m. (mkServiceDescriptor (mi_HAP m) (mi_GUID m), mi_AgentType m)) ms, s))"

definition getRegisteredInstancesOfAgentType ::
    "dbenv \<Rightarrow> AgentType \<Rightarrow> string \<Rightarrow> lmdb \<Rightarrow> FluffiServiceDescriptor list \<times> lmdb" where
  "getRegisteredInstancesOfAgentType D type location s =
     (let (rows, s) = query D (\<lambda>s. filter (\<lambda>m. mi_AgentType m = type \<and> mi_Location m = location)
            (managed_instances s)) s
      in (case rows of None \<Rightarrow> []
          | Some ms \<Rightarrow> map (\<lambda>m. mkServiceDescriptor (mi_HAP m) (mi_GUID m)) ms, s))"

definition addNewManagedInstanceStatus :: "dbenv \<Rightarrow> string \<Rightarrow> string \<Rightarrow> lmdb \<Rightarrow> bool \<times> lmdb" where
  "addNewManagedInstanceStatus D guid newStatus s =
     exec_stmt D (\<lambda>now s. Some (insert_status guid newStatus now s)) s"

definition removeManagedInstance :: "dbenv \<Rightarrow> string \<Rightarrow> string \<Rightarrow> lmdb \<Rightarrow> bool \<times> lmdb" where
  "removeManagedInstance D guid location s =
     exec_stmt D (\<lambda>_ s. Some (s\<lparr>managed_instances :=
       filter (\<lambda>m. \<not> (mi_GUID m = guid \<and> mi_Location m = location)) (managed_instances s)\<rparr>)) s"

definition getRegisteredInstanceSubType :: "dbenv \<Rightarrow> string \<Rightarrow> lmdb \<Rightarrow> string \<times> lmdb" where
  "getRegisteredInstanceSubType D guid s =
     (let (rows, s) = query D (\<lambda>s. filter (\<lambda>m. mi_GUID m = guid) (managed_instances s)) s
      in (case rows of Some [m] \<Rightarrow> mi_AgentSubType m | _ \<Rightarrow> '''', s))"

definition getRegisteredInstancesNumOfSubTypes :: "dbenv \<Rightarrow> lmdb \<Rightarrow> (string \<times> int) list \<times> lmdb" where
  "getRegisteredInstancesNumOfSubTypes D s =
     (let (rows, s) = query D (\<lambda>s. map mi_AgentSubType (managed_instances s)) s
      in (case rows of None \<Rightarrow> []
          | Some ts \<Rightarrow> map (\<lambda>t. (t, int (count_list ts t))) (remdups ts), s))"

text \<open>A row of \<open>StatusOfInstance\<close>; \<open>si_status\<close> is the \<open>std::map\<close> of its entries.\<close>

record StatusOfInstance =
  si_HostAndPort :: string
  si_GUID :: string
  si_type :: AgentType
  si_lastStatusUpdate :: int
  si_status :: "string \<rightharpoonup> string"

text \<open>The sub-query keeps per GUID one row among those with the latest time.\<close>

definition latest_status :: "string \<Rightarrow> lmdb \<Rightarrow> ms_row option" where
  "latest_status guid s =
     (let mine = filter (\<lambda>r. ms_GUID r = guid) (managed_instances_statuses s) in
      find (\<lambda>r. \<forall>q \<in> set mine. ms_TimeOfStatus q \<le> ms_TimeOfStatus r) mine)"

definition getStatusOfManagedInstances :: "dbenv \<Rightarrow> string \<Rightarrow> lmdb \<Rightarrow> StatusOfInstance list \<times> lmdb" where
  "getStatusOfManagedInstances D location s =
     (let (rows, s) = query D (\<lambda>s. List.map_filter (\<lambda>m.
             if mi_Location m = location
             then map_option (\<lambda>r. (m, r)) (latest_status (mi_GUID m) s) else None)
           (managed_instances s)) s
      in (case rows of None \<Rightarrow> []
          | Some ps \<Rightarrow> map (\<lambda>(m, r). \<lparr>si_HostAndPort = mi_HAP m, si_GUID = mi_GUID m,
              si_type = mi_AgentType m, si_lastStatusUpdate = ms_TimeOfStatus r,
              si_status = parse_status (ms_Status r)\<rparr>) ps, s))"

definition deleteManagedInstanceStatusOlderThanXSec :: "dbenv \<Rightarrow> int \<Rightarrow> lmdb \<Rightarrow> bool \<times> lmdb" where
  "deleteManagedInstanceStatusOlderThanXSec D secs s =
     exec_stmt D (\<lambda>now s. Some (s\<lparr>managed_instances_statuses :=
       filter (\<lambda>r. \<not> older_than now secs (ms_TimeOfStatus r)) (managed_instances_statuses s)\<rparr>)) s"

subsection \<open>Log messages\<close>

definition addNewManagedInstanceLogMessages :: "dbenv \<Rightarrow> string \<Rightarrow> string list \<Rightarrow> lmdb \<Rightarrow> bool \<times> lmdb" where
  "addNewManagedInstanceLogMessages D guid messages s =
     (let maxGUIDLength = 50; maxLogMessageLength = 1990 in
      if length guid \<ge> maxGUIDLength then (False, s)
      else if list_ex (\<lambda>m. length m \<ge> maxLogMessageLength) messages then (False, s)
      else if messages = [] then (True, s)
      else exec_stmt D (\<lambda>now s. Some (fold (insert_logmessage guid now) messages s))
             (set_isolation s))"

text \<open>The limiting row is the one \<open>num\<close> places behind the newest.\<close>

definition deleteManagedInstanceLogMessagesIfMoreThan :: "dbenv \<Rightarrow> int \<Rightarrow> lmdb \<Rightarrow> bool \<times> lmdb" where
  "deleteManagedInstanceLogMessagesIfMoreThan D num s =
     exec_stmt D (\<lambda>_ s.
       let ids = rev (sort (map ml_ID (managed_instances_logmessages s)));
           off = unat (word_of_int num :: 32 word)
       in Some (if off < length ids
                then s\<lparr>managed_instances_logmessages :=
                  filter (\<lambda>r. \<not> ml_ID r \<le> ids ! off) (managed_instances_logmessages s)\<rparr>
                else s)) s"

definition deleteManagedInstanceLogMessagesOlderThanXSec :: "dbenv \<Rightarrow> int \<Rightarrow> lmdb \<Rightarrow> bool \<times> lmdb" where
  "deleteManagedInstanceLogMessagesOlderThanXSec D secs s =
     exec_stmt D (\<lambda>now s. Some (s\<lparr>managed_instances_logmessages :=
       filter (\<lambda>r. \<not> older_than now secs (ml_TimeOfInsertion r)) (managed_instances_logmessages s)\<rparr>)) s"

section \<open>Testcases\<close>

definition has_id :: "FluffiTestcaseID \<Rightarrow> it_row \<Rightarrow> bool" where
  "has_id t r \<longleftrightarrow> it_key r = tid_key t"

definition getParentTCID :: "dbenv \<Rightarrow> FluffiTestcaseID \<Rightarrow> lmdb \<Rightarrow> FluffiTestcaseID option \<times> lmdb" where
  "getParentTCID D tcID s =
     (let (rows, s) = query D (\<lambda>s. filter (has_id tcID) (interesting_testcases s)) s
      in (case rows of
            Some [r] \<Rightarrow> Some (mkTestcaseID (mkServiceDescriptor ''not set'' (it_ParentGUID r))
                               (it_ParentLocalID r))
          | _ \<Rightarrow> None, s))"

text \<open>
  The testcase file is read and marked for deletion first; an older entry of the same
  testcase is deleted, and the outcome of the insertion is only logged.
\<close>

definition addEntryToInterestingTestcasesTable ::
    "dbenv \<Rightarrow> FluffiTestcaseID \<Rightarrow> FluffiTestcaseID \<Rightarrow> int \<Rightarrow> string \<Rightarrow> TestCaseType \<Rightarrow>
     lmdb \<Rightarrow> agent \<Rightarrow> bool \<times> lmdb \<times> agent" where
  "addEntryToInterestingTestcasesTable D tcID tcparentID rating testcaseDir tcType s a =
     (let (tcparentIDToSet, s) =
            (if tid_guid tcparentID = ''special''
             then (let (p, s) = getParentTCID D tcID s in (opt_or tcparentID p, s))
             else (tcparentID, s));
          rawBytes = loadTestcaseInMemory tcID testcaseDir a;
          a = markFileForDelete (generateTestcasePathAndFilename tcID testcaseDir) a;
          (re, s) = exec_stmt D (\<lambda>_ s. Some (delete_testcases (has_id tcID) s)) s
      in if \<not> re then (False, s, a)
         else let (re, s) = exec_stmt D (insert_testcase (tid_guid tcID) (m_localID tcID)
                    (tid_guid tcparentIDToSet) (m_localID tcparentIDToSet) rating rawBytes tcType) s
              in (True, s, a))"

definition addEntryToCompletedTestcasesTable :: "dbenv \<Rightarrow> FluffiTestcaseID \<Rightarrow> lmdb \<Rightarrow> bool \<times> lmdb" where
  "addEntryToCompletedTestcasesTable D tcID s =
     exec_stmt D (\<lambda>now s. Some (insert_completed tcID now s)) s"

definition addEntriesToCompletedTestcasesTable ::
    "dbenv \<Rightarrow> FluffiTestcaseID list \<Rightarrow> lmdb \<Rightarrow> bool \<times> lmdb" where
  "addEntriesToCompletedTestcasesTable D testcaseIDs s =
     (let maxGUIDLength = 50 in
      if list_ex (\<lambda>t. length (tid_guid t) \<ge> maxGUIDLength) testcaseIDs then (False, s)
      else if testcaseIDs = [] then (True, s)
      else exec_stmt D (\<lambda>now s. Some (fold (\<lambda>t. insert_completed t now) testcaseIDs s))
             (set_isolation s))"

definition int32_range :: "int \<Rightarrow> bool" where
  "int32_range i \<longleftrightarrow> - (2 ^ 31) \<le> i \<and> i < 2 ^ 31"

text \<open>The column is an \<open>INT\<close>: a sum outside its range is refused.\<close>

definition addDeltaToTestcaseRating :: "dbenv \<Rightarrow> FluffiTestcaseID \<Rightarrow> int \<Rightarrow> lmdb \<Rightarrow> bool \<times> lmdb" where
  "addDeltaToTestcaseRating D tcID ratingDelta s =
     (if ratingDelta = 0 then (True, s)
      else exec_stmt D (\<lambda>_ s.
        if list_ex (\<lambda>r. has_id tcID r \<and> \<not> int32_range (it_Rating r + ratingDelta))
             (interesting_testcases s) then None
        else Some (update_testcases (has_id tcID)
               (\<lambda>r. r\<lparr>it_Rating := it_Rating r + ratingDelta\<rparr>) s)) s)"

definition setTestcaseType :: "dbenv \<Rightarrow> FluffiTestcaseID \<Rightarrow> TestCaseType \<Rightarrow> lmdb \<Rightarrow> bool \<times> lmdb" where
  "setTestcaseType D tcID tcType s =
     exec_stmt D (\<lambda>_ s. Some (update_testcases (has_id tcID) (\<lambda>r. r\<lparr>it_TestCaseType := tcType\<rparr>) s)) s"

text \<open>
  The blocks come as a \<open>std::set\<close>, so in increasing order; the module number is cut to
  an \<open>unsigned char\<close>.
\<close>

definition addBlocksToCoveredBlocks ::
    "dbenv \<Rightarrow> FluffiTestcaseID \<Rightarrow> FluffiBasicBlock list \<Rightarrow> lmdb \<Rightarrow> bool \<times> lmdb" where
  "addBlocksToCoveredBlocks D tcID basicBlocks s =
     (let (rows, s) = query D (\<lambda>s. map it_ID (filter (has_id tcID) (interesting_testcases s))) s
      in case rows of
           Some [testcaseID] \<Rightarrow>
             (if basicBlocks = [] then (True, s)
              else exec_stmt D (insert_blocks testcaseID basicBlocks) (set_isolation s))
         | _ \<Rightarrow> (False, s))"

definition addEntryToCrashDescriptionsTable ::
    "dbenv \<Rightarrow> FluffiTestcaseID \<Rightarrow> string \<Rightarrow> lmdb \<Rightarrow> bool \<times> lmdb" where
  "addEntryToCrashDescriptionsTable D tcID crashFootprint s =
     exec_stmt D (\<lambda>_. replace_crash (tid_key tcID) crashFootprint) s"

text \<open>\<open>LIMIT 1 OFFSET ?\<close> yields one row or none; a negative offset is an error.\<close>

definition limit_offset :: "nat list \<Rightarrow> int \<Rightarrow> nat option option" where
  "limit_offset ids off =
     (if off < 0 then None
      else Some (if nat off < length ids then Some (ids ! nat off) else None))"

definition delete_above :: "(it_row \<Rightarrow> bool) \<Rightarrow> nat option \<Rightarrow> lmdb \<Rightarrow> lmdb" where
  "delete_above P lim s =
     (case lim of None \<Rightarrow> s | Some l \<Rightarrow> delete_testcases (\<lambda>r. P r \<and> it_ID r > l) s)"

definition dropTestcaseTypeIFMoreThan :: "dbenv \<Rightarrow> TestCaseType \<Rightarrow> int \<Rightarrow> lmdb \<Rightarrow> bool \<times> lmdb" where
  "dropTestcaseTypeIFMoreThan D type instances s =
     exec_stmt D (\<lambda>_ s.
       let ids = sort (map it_ID (filter (\<lambda>r. it_TestCaseType r = type) (interesting_testcases s)))
       in map_option (\<lambda>lim. delete_above (\<lambda>r. it_TestCaseType r = type) lim s)
            (limit_offset ids (instances - 1))) (set_isolation s)"

definition has_footprint :: "lmdb \<Rightarrow> string \<Rightarrow> it_row \<Rightarrow> bool" where
  "has_footprint s f r \<longleftrightarrow>
     list_ex (\<lambda>c. cd_CreatorTestcaseID c = it_ID r \<and> cd_CrashFootprint c = f) (crash_descriptions s)"

text \<open>Here the sub-query has no \<open>ORDER BY\<close>: the server decides which row has the offset.\<close>

definition dropTestcaseIfCrashFootprintAppearedMoreThanXTimes ::
    "dbenv \<Rightarrow> int \<Rightarrow> string \<Rightarrow> lmdb \<Rightarrow> bool \<times> lmdb" where
  "dropTestcaseIfCrashFootprintAppearedMoreThanXTimes D xTimes crashFootprint s =
     exec_stmt D (\<lambda>_ s.
       let ids = db_order D (stmt_no s)
             (map it_ID (filter (has_footprint s crashFootprint) (interesting_testcases s)))
       in map_option (\<lambda>lim. delete_above (has_footprint s crashFootprint) lim s)
            (limit_offset ids (xTimes - 1))) s"

section \<open>Answers to the agents\<close>

text \<open>
  The rows completed since the given time, and the latest of their times, 0 when there is
  none. The host and port of the creator is not known and stays empty.
\<close>

definition newest_time :: "int list \<Rightarrow> int" where
  "newest_time ts = fold (\<lambda>t latest. if latest = 0 then t else if t > latest then t else latest) ts 0"

definition id_proto :: "string \<Rightarrow> 64 word \<Rightarrow> TestcaseID" where
  "id_proto guid localID = \<lparr>tid_serviceDescriptor = Some (default_ServiceDescriptor\<lparr>sd_guid := guid\<rparr>),
     tid_localID = localID\<rparr>"

definition generateGetNewCompletedTestcaseIDsResponse ::
    "dbenv \<Rightarrow> int \<Rightarrow> lmdb \<Rightarrow> (int \<times> TestcaseID list) \<times> lmdb" where
  "generateGetNewCompletedTestcaseIDsResponse D lastUpdateTimeStamp s =
     (let (rows, s) = query D (\<lambda>s. filter (\<lambda>r. ct_TimeOfCompletion r \<ge> lastUpdateTimeStamp)
            (completed_testcases s)) s
      in (case rows of None \<Rightarrow> (0, [])
          | Some cs \<Rightarrow> (newest_time (map ct_TimeOfCompletion cs),
              map (\<lambda>r. id_proto (ct_CreatorGUID r) (ct_CreatorLocalID r)) cs), s))"

text \<open>\<open>ORDER BY Rating DESC LIMIT 1\<close>\<close>

definition best_rated :: "it_row list \<Rightarrow> it_row option" where
  "best_rated rows = find (\<lambda>r. \<forall>q \<in> set rows. it_Rating q \<le> it_Rating r) rows"

definition empty_mutate_response :: GetTestcaseToMutateResponse_t where
  "empty_mutate_response = \<lparr>gtm_id = None, gtm_testCaseFirstChunk = '''', gtm_isLastChunk = False,
     gtm_alsoRunWithoutMutation = False\<rparr>"

definition generateGetTestcaseToMutateResponse ::
    "dbenv \<Rightarrow> env \<Rightarrow> string \<Rightarrow> lmdb \<Rightarrow> agent \<Rightarrow> GetTestcaseToMutateResponse_t \<times> lmdb \<times> agent" where
  "generateGetTestcaseToMutateResponse D E testcaseTempDir s a =
     (let (row, s) = query D (\<lambda>s. best_rated
            (filter (\<lambda>r. it_TestCaseType r = Population) (interesting_testcases s))) s
      in case row of
           Some (Some r) \<Rightarrow>
             (let rawBytesFirstChunk = take chunkSizeInBytes (it_RawBytes r);
                  isOnlyOneChunk = length (it_RawBytes r) \<le> chunkSizeInBytes;
                  file = testcaseTempDir @ pathSeperator @ it_CreatorGUID r @ ''-'' @
                    int_to_string (sint (it_CreatorLocalID r))
              in if \<not> isOnlyOneChunk \<and> \<not> env_open_ok E (tick a) file
                 then (empty_mutate_response, s, next_tick a)
                 else let a = (if isOnlyOneChunk then a
                        else (next_tick a)\<lparr>files := (files a)(file \<mapsto> it_RawBytes r)\<rparr>);
                          (n, s) = query D (\<lambda>s. length (filter
                            (\<lambda>b. cb_CreatorTestcaseID b = it_ID r) (covered_blocks s))) s
                      in (\<lparr>gtm_id = Some (id_proto (it_CreatorGUID r) (it_CreatorLocalID r)),
                           gtm_testCaseFirstChunk = rawBytesFirstChunk,
                           gtm_isLastChunk = isOnlyOneChunk,
                           gtm_alsoRunWithoutMutation = (n = Some 0)\<rparr>, s, a))
         | _ \<Rightarrow> (empty_mutate_response, s, a))"

definition generateGetCurrentBlockCoverageResponse :: "dbenv \<Rightarrow> lmdb \<Rightarrow> BasicBlock list \<times> lmdb" where
  "generateGetCurrentBlockCoverageResponse D s =
     (let (rows, s) = query D (\<lambda>s. remdups (map (\<lambda>b. (cb_Offset b, cb_ModuleID b)) (covered_blocks s))) s
      in (case rows of None \<Rightarrow> []
          | Some bs \<Rightarrow> map (\<lambda>(off, m). \<lparr>bb_RVA = off, bb_moduleID = ucast m\<rparr>) bs, s))"

definition getAllCrashFootprints :: "dbenv \<Rightarrow> lmdb \<Rightarrow> string list \<times> lmdb" where
  "getAllCrashFootprints D s =
     (let (rows, s) = query D (\<lambda>s. remdups (map cd_CrashFootprint (crash_descriptions s))) s
      in (opt_or [] rows, s))"

section \<open>Configuration and billing\<close>

definition getAllSettings :: "dbenv \<Rightarrow> lmdb \<Rightarrow> FluffiSetting list \<times> lmdb" where
  "getAllSettings D s =
     (let (rows, s) = query D settings s
      in (map (\<lambda>(n, v). \<lparr>m_settingName = n, m_settingValue = v\<rparr>) (opt_or [] rows), s))"

definition getTargetBlocks :: "dbenv \<Rightarrow> lmdb \<Rightarrow> FluffiBasicBlock list \<times> lmdb" where
  "getTargetBlocks D s =
     (let (rows, s) = query D blocks_to_cover s
      in (map (\<lambda>(off, m). FluffiBasicBlock off (ucast m)) (opt_or [] rows), s))"

definition getTargetModules :: "dbenv \<Rightarrow> lmdb \<Rightarrow> FluffiModuleNameToID list \<times> lmdb" where
  "getTargetModules D s =
     (let (rows, s) = query D target_modules s
      in (map (\<lambda>t. \<lparr>m_moduleName = tm_ModuleName t, m_modulePath = tm_ModulePath t,
            m_moduleNumber = ucast (tm_ID t)\<rparr>) (opt_or [] rows), s))"

definition insert_resource :: "string \<Rightarrow> lmdb \<Rightarrow> lmdb" where
  "insert_resource r s =
     (if r \<in> fst ` set (billing s) then s else s\<lparr>billing := billing s @ [(r, 0)]\<rparr>)"

definition initializeBillingTable :: "dbenv \<Rightarrow> lmdb \<Rightarrow> bool \<times> lmdb" where
  "initializeBillingTable D s =
     (let (ok1, s) = exec_stmt D (\<lambda>_ s. Some (insert_resource ''RunnerSeconds'' s)) s;
          (ok2, s) = exec_stmt D (\<lambda>_ s. Some (insert_resource ''RunTestcasesNoLongerListed'' s)) s
      in (ok1 \<and> ok2, s))"

definition add_to_resource :: "string \<Rightarrow> int \<Rightarrow> lmdb \<Rightarrow> lmdb" where
  "add_to_resource r n s =
     s\<lparr>billing := map (\<lambda>(q, v). (q, if q = r then v + n else v)) (billing s)\<rparr>"

definition addRunnerSeconds :: "dbenv \<Rightarrow> 32 word \<Rightarrow> lmdb \<Rightarrow> bool \<times> lmdb" where
  "addRunnerSeconds D secondsToAdd s =
     exec_stmt D (\<lambda>_ s. Some (add_to_resource ''RunnerSeconds'' (uint secondsToAdd) s)) s"

definition addRunTestcasesNoLongerListed :: "dbenv \<Rightarrow> 32 word \<Rightarrow> lmdb \<Rightarrow> bool \<times> lmdb" where
  "addRunTestcasesNoLongerListed D n s =
     exec_stmt D (\<lambda>_ s. Some (add_to_resource ''RunTestcasesNoLongerListed'' (uint n) s)) s"

definition cleanCompletedTestcasesTableOlderThanXSec :: "dbenv \<Rightarrow> int \<Rightarrow> lmdb \<Rightarrow> nat \<times> lmdb" where
  "cleanCompletedTestcasesTableOlderThanXSec D secs s =
     (let before = completed_testcases s;
          (ok, s) = exec_stmt D (\<lambda>now s. Some (s\<lparr>completed_testcases :=
            filter (\<lambda>r. \<not> older_than now secs (ct_TimeOfCompletion r)) (completed_testcases s)\<rparr>)) s
      in (if ok then length before - length (completed_testcases s) else 0, s))"

section \<open>The methods keep the schema's guarantees\<close>

lemma try_nice_name_wf: "db_wf s \<Longrightarrow> db_wf (snd (try_nice_name D g n s))"
  by (auto simp: try_nice_name_def db_wf_def wf_defs)

lemma nice_name_loop_wf: "db_wf s \<Longrightarrow> db_wf (snd (nice_name_loop D n g name s))"
proof (induction n arbitrary: s)
  case (Suc n)
  obtain r t where t: "try_nice_name D g name s = (r, t)" by (cases "try_nice_name D g name s")
  then have "db_wf t" using try_nice_name_wf [OF Suc.prems, of D g name] by simp
  then show ?case using Suc.IH by (cases r) (simp_all add: t)
qed simp

lemma set_isolation_wf [simp]: "db_wf (set_isolation s) = db_wf s"
  by (simp add: set_isolation_def)

lemma writeManagedInstance_wf [dbwf]: "db_wf s \<Longrightarrow> db_wf (snd (writeManagedInstance D sd ty st l s))"
  unfolding writeManagedInstance_def Let_def split_beta
  by (auto intro!: nice_name_loop_wf exec_stmt_wf upsert_instance_wf)

lemma addNewManagedInstanceStatus_wf [dbwf]:
  "db_wf s \<Longrightarrow> db_wf (snd (addNewManagedInstanceStatus D g st s))"
  unfolding addNewManagedInstanceStatus_def by (auto intro!: exec_stmt_wf insert_status_wf)

lemma filter_instances_wf: "db_wf s \<Longrightarrow> db_wf (s\<lparr>managed_instances := filter P (managed_instances s)\<rparr>)"
  by (simp add: db_wf_def wf_defs distinct_map_filter_key)

lemma removeManagedInstance_wf [dbwf]: "db_wf s \<Longrightarrow> db_wf (snd (removeManagedInstance D g l s))"
  unfolding removeManagedInstance_def by (auto intro!: exec_stmt_wf filter_instances_wf)

lemma deleteStatus_wf [dbwf]: "db_wf s \<Longrightarrow> db_wf (snd (deleteManagedInstanceStatusOlderThanXSec D x s))"
  unfolding deleteManagedInstanceStatusOlderThanXSec_def by (auto intro!: exec_stmt_wf)

lemma filter_logs_wf:
  "db_wf s \<Longrightarrow> db_wf (s\<lparr>managed_instances_logmessages := filter P (managed_instances_logmessages s)\<rparr>)"
  by (auto simp: db_wf_def wf_defs sorted_wrt_map_filter)

lemma addLogMessages_wf [dbwf]: "db_wf s \<Longrightarrow> db_wf (snd (addNewManagedInstanceLogMessages D g ms s))"
  unfolding addNewManagedInstanceLogMessages_def Let_def
  by (auto intro!: exec_stmt_wf fold_wf insert_logmessage_wf)

lemma deleteLogsIfMore_wf [dbwf]: "db_wf s \<Longrightarrow> db_wf (snd (deleteManagedInstanceLogMessagesIfMoreThan D n s))"
  unfolding deleteManagedInstanceLogMessagesIfMoreThan_def Let_def
  by (rule exec_stmt_wf) (auto intro: filter_logs_wf)

lemma deleteLogsOlder_wf [dbwf]: "db_wf s \<Longrightarrow> db_wf (snd (deleteManagedInstanceLogMessagesOlderThanXSec D n s))"
  unfolding deleteManagedInstanceLogMessagesOlderThanXSec_def
  by (rule exec_stmt_wf) (auto intro: filter_logs_wf)

lemma getParentTCID_state: "snd (getParentTCID D t s) = next_stmt s"
  by (simp add: getParentTCID_def query_def Let_def)

lemma addEntryToInteresting_wf [dbwf]:
  assumes "db_wf s"
  shows "db_wf (fst (snd (addEntryToInterestingTestcasesTable D t p r dir ty s a)))"
proof -
  have i: "db_wf (snd (exec_stmt D (insert_testcase g l pg pl rt raw ty') u))" if "db_wf u"
    for g l pg pl rt raw ty' u
    by (rule exec_stmt_wf [OF that]) (rule insert_testcase_wf [OF that])
  have d: "db_wf (snd (exec_stmt D (\<lambda>_ s. Some (delete_testcases P s)) u))" if "db_wf u" for P u
    by (rule exec_stmt_wf [OF that]) (use delete_testcases_wf [OF that] in auto)
  have q: "db_wf (snd (getParentTCID D t s))"
    using assms by (simp add: getParentTCID_state)
  show ?thesis
    unfolding addEntryToInterestingTestcasesTable_def Let_def split_beta
    by (simp add: i d q assms)
qed

lemma addEntryToCompleted_wf [dbwf]: "db_wf s \<Longrightarrow> db_wf (snd (addEntryToCompletedTestcasesTable D t s))"
  unfolding addEntryToCompletedTestcasesTable_def by (auto intro!: exec_stmt_wf insert_completed_wf)

lemma addEntriesToCompleted_wf [dbwf]: "db_wf s \<Longrightarrow> db_wf (snd (addEntriesToCompletedTestcasesTable D ts s))"
  unfolding addEntriesToCompletedTestcasesTable_def Let_def
  by (auto intro!: exec_stmt_wf fold_wf insert_completed_wf)

lemma addDelta_wf [dbwf]: "db_wf s \<Longrightarrow> db_wf (snd (addDeltaToTestcaseRating D t d s))"
  unfolding addDeltaToTestcaseRating_def
  by (auto intro!: exec_stmt_wf update_testcases_wf split: if_splits)

lemma setTestcaseType_wf [dbwf]: "db_wf s \<Longrightarrow> db_wf (snd (setTestcaseType D t ty s))"
  unfolding setTestcaseType_def by (auto intro!: exec_stmt_wf update_testcases_wf)

lemma addBlocks_wf [dbwf]:
  assumes "db_wf s" shows "db_wf (snd (addBlocksToCoveredBlocks D t bs s))"
proof -
  have b: "db_wf (snd (exec_stmt D (insert_blocks i bs) u))" if "db_wf u" for i u
    by (rule exec_stmt_wf [OF that]) (rule insert_blocks_wf [OF that])
  show ?thesis
    using assms unfolding addBlocksToCoveredBlocks_def Let_def
    by (auto simp: query_def b split: list.splits)
qed

lemma addCrash_wf [dbwf]: "db_wf s \<Longrightarrow> db_wf (snd (addEntryToCrashDescriptionsTable D t f s))"
  unfolding addEntryToCrashDescriptionsTable_def by (auto intro!: exec_stmt_wf intro: replace_crash_wf)

lemma delete_above_wf: "db_wf s \<Longrightarrow> db_wf (delete_above P lim s)"
  by (auto simp: delete_above_def intro: delete_testcases_wf split: option.splits)

lemma dropTestcaseType_wf [dbwf]: "db_wf s \<Longrightarrow> db_wf (snd (dropTestcaseTypeIFMoreThan D ty n s))"
  unfolding dropTestcaseTypeIFMoreThan_def Let_def
  by (rule exec_stmt_wf) (auto intro: delete_above_wf)

lemma dropCrash_wf [dbwf]:
  "db_wf s \<Longrightarrow> db_wf (snd (dropTestcaseIfCrashFootprintAppearedMoreThanXTimes D n f s))"
  unfolding dropTestcaseIfCrashFootprintAppearedMoreThanXTimes_def Let_def
  by (rule exec_stmt_wf) (auto intro: delete_above_wf)

lemma insert_resource_wf: "db_wf s \<Longrightarrow> db_wf (insert_resource r s)"
  by (auto simp: db_wf_def wf_defs insert_resource_def)

lemma initializeBillingTable_wf [dbwf]: "db_wf s \<Longrightarrow> db_wf (snd (initializeBillingTable D s))"
  unfolding initializeBillingTable_def Let_def split_beta
  by (auto intro!: exec_stmt_wf insert_resource_wf)

lemma add_to_resource_wf: "db_wf s \<Longrightarrow> db_wf (add_to_resource r n s)"
  by (simp add: db_wf_def wf_defs add_to_resource_def o_def split_beta)

lemma billing_wf [dbwf]:
  "db_wf s \<Longrightarrow> db_wf (snd (addRunnerSeconds D w s))"
  "db_wf s \<Longrightarrow> db_wf (snd (addRunTestcasesNoLongerListed D w s))"
  unfolding addRunnerSeconds_def addRunTestcasesNoLongerListed_def
  by (auto intro!: exec_stmt_wf add_to_resource_wf)

lemma cleanCompleted_wf [dbwf]:
  "db_wf s \<Longrightarrow> db_wf (snd (cleanCompletedTestcasesTableOlderThanXSec D x s))"
  unfolding cleanCompletedTestcasesTableOlderThanXSec_def Let_def split_beta
  by (auto intro!: exec_stmt_wf)

end
