(* ===== verification/LMView.thy ===== *)
theory LMView
  imports LMDatabase
begin

text \<open>
  The abstract content of the database: a map from testcase identifiers to what is known
  about the testcase. Every method that changes testcases, when the server carries out its
  statements, implements one update of this map.
\<close>

section \<open>The abstract map\<close>

record tc_view =
  v_parent :: "string \<times> 64 word"
  v_rating :: int
  v_bytes :: bytes
  v_type :: TestCaseType
  v_blocks :: "(8 word \<times> 64 word) set"
  v_crash :: "string option"

definition lookup_row :: "lmdb \<Rightarrow> string \<times> 64 word \<Rightarrow> it_row option" where
  "lookup_row s k = find (\<lambda>r. it_key r = k) (interesting_testcases s)"

definition blocks_of :: "lmdb \<Rightarrow> nat \<Rightarrow> (8 word \<times> 64 word) set" where
  "blocks_of s i = (\<lambda>b. (cb_ModuleID b, cb_Offset b)) `
     {b \<in> set (covered_blocks s). cb_CreatorTestcaseID b = i}"

definition crash_of :: "lmdb \<Rightarrow> nat \<Rightarrow> string option" where
  "crash_of s i = map_option cd_CrashFootprint
     (find (\<lambda>c. cd_CreatorTestcaseID c = i) (crash_descriptions s))"

definition view_of :: "lmdb \<Rightarrow> it_row \<Rightarrow> tc_view" where
  "view_of s r = \<lparr>v_parent = (it_ParentGUID r, it_ParentLocalID r), v_rating = it_Rating r,
     v_bytes = it_RawBytes r, v_type = it_TestCaseType r, v_blocks = blocks_of s (it_ID r),
     v_crash = crash_of s (it_ID r)\<rparr>"

definition db_view :: "lmdb \<Rightarrow> string \<times> 64 word \<Rightarrow> tc_view option" where
  "db_view s k = map_option (view_of s) (lookup_row s k)"

named_theorems view \<open>the abstract content after an effect\<close>

section \<open>Looking up rows by their keys\<close>

lemma find_key_iff:
  assumes "distinct (map f xs)"
  shows "find (\<lambda>x. f x = k) xs = Some x \<longleftrightarrow> x \<in> set xs \<and> f x = k"
  using assms
proof (induction xs)
  case (Cons y ys)
  then show ?case by (cases "f y = k") (auto simp: rev_image_eqI)
qed simp

lemma lookup_row_iff:
  assumes "db_wf s"
  shows "lookup_row s k = Some r \<longleftrightarrow> r \<in> set (interesting_testcases s) \<and> it_key r = k"
  using assms unfolding lookup_row_def
  by (intro find_key_iff) (simp add: db_wf_def testcases_wf_def)

lemma lookup_row_None: "lookup_row s k = None \<longleftrightarrow> k \<notin> it_key ` set (interesting_testcases s)"
  by (auto simp: lookup_row_def find_None_iff image_iff)

lemma same_key_same_row:
  assumes "db_wf s" "r \<in> set (interesting_testcases s)" "q \<in> set (interesting_testcases s)"
    and "it_key r = it_key q"
  shows "r = q"
  using lookup_row_iff [OF assms(1), of "it_key r"] assms(2-4) by (metis option.inject)

lemma same_id_same_row:
  assumes "db_wf s" "r \<in> set (interesting_testcases s)" "q \<in> set (interesting_testcases s)"
    and "it_ID r = it_ID q"
  shows "r = q"
  using assms by (auto simp: db_wf_def testcases_wf_def distinct_map dest: inj_onD)

lemma view_of_stmt_no: "view_of (s\<lparr>stmt_no := n\<rparr>) = view_of s"
  by (simp add: view_of_def blocks_of_def crash_of_def fun_eq_iff)

lemma view_stmt_no [simp]: "db_view (s\<lparr>stmt_no := n\<rparr>) k = db_view s k"
  by (simp add: db_view_def lookup_row_def view_of_stmt_no)

lemma find_map_key:
  "(\<And>r. f (g r) = f r) \<Longrightarrow>
     find (\<lambda>r. f r = k) (map g rs) = map_option g (find (\<lambda>r. f r = k) rs)"
  by (induction rs) auto

lemma find_filter_same:
  "(\<And>x. x \<in> set xs \<Longrightarrow> Q x \<Longrightarrow> P x) \<Longrightarrow> find Q (filter P xs) = find Q xs"
  by (induction xs) auto

section \<open>The effects on the abstract map\<close>

lemma view_delete [view]:
  assumes wf: "db_wf s"
  shows "db_view (delete_testcases P s) k =
    (case lookup_row s k of None \<Rightarrow> None | Some r \<Rightarrow> if P r then None else db_view s k)"
proof -
  let ?s = "delete_testcases P s"
  have wf': "db_wf ?s" by (rule delete_testcases_wf [OF wf])
  have rows: "interesting_testcases ?s = filter (\<lambda>r. \<not> P r) (interesting_testcases s)"
    by (simp add: delete_testcases_def Let_def)
  show ?thesis
  proof (cases "lookup_row s k")
    case None
    then have "lookup_row ?s k = None"
      by (auto simp: lookup_row_None rows)
    with None show ?thesis by (simp add: db_view_def)
  next
    case (Some r)
    then have r: "r \<in> set (interesting_testcases s)" "it_key r = k"
      by (simp_all add: lookup_row_iff [OF wf])
    show ?thesis
    proof (cases "P r")
      case True
      have "lookup_row ?s k = None"
        unfolding lookup_row_None rows
      proof
        assume "k \<in> it_key ` set (filter (\<lambda>r. \<not> P r) (interesting_testcases s))"
        then obtain q where q: "q \<in> set (interesting_testcases s)" "\<not> P q" "it_key r = it_key q"
          unfolding r(2) [symmetric] by (elim imageE) (simp; blast)
        with True same_key_same_row [OF wf r(1) q(1) q(3)] show False by simp
      qed
      with Some True show ?thesis by (simp add: db_view_def)
    next
      case False
      then have l: "lookup_row ?s k = Some r"
        using r by (simp add: lookup_row_iff [OF wf'] rows)
      have kept: "it_ID q \<noteq> it_ID r" if "q \<in> set (interesting_testcases s)" "P q" for q
        using False that same_id_same_row [OF wf r(1) that(1)] by metis
      then have "{b \<in> set (covered_blocks ?s). cb_CreatorTestcaseID b = it_ID r} =
          {b \<in> set (covered_blocks s). cb_CreatorTestcaseID b = it_ID r}"
        by (auto simp: delete_testcases_def Let_def)
      then have "blocks_of ?s (it_ID r) = blocks_of s (it_ID r)"
        by (simp only: blocks_of_def)
      moreover have "crash_of ?s (it_ID r) = crash_of s (it_ID r)"
        using kept by (auto simp: crash_of_def delete_testcases_def Let_def
            intro!: arg_cong [where f = "map_option cd_CrashFootprint"] find_filter_same)
      ultimately show ?thesis
        using Some l False by (simp add: db_view_def view_of_def)
    qed
  qed
qed

lemma fresh_id_unused:
  assumes "db_wf s"
  shows "blocks_of s (next_it s) = {}" and "crash_of s (next_it s) = None"
proof -
  have "it_ID r \<noteq> next_it s" if "r \<in> set (interesting_testcases s)" for r
    using assms that by (auto simp: db_wf_def testcases_wf_def)
  then have n: "next_it s \<notin> it_ID ` set (interesting_testcases s)" by fastforce
  have "cb_CreatorTestcaseID b \<in> it_ID ` set (interesting_testcases s)"
    if "b \<in> set (covered_blocks s)" for b
    using assms that unfolding db_wf_def blocks_wf_def by blast
  with n have "cb_CreatorTestcaseID b \<noteq> next_it s" if "b \<in> set (covered_blocks s)" for b
    using that by metis
  then show "blocks_of s (next_it s) = {}" by (auto simp: blocks_of_def)
  have "cd_CreatorTestcaseID c \<in> it_ID ` set (interesting_testcases s)"
    if "c \<in> set (crash_descriptions s)" for c
    using assms that unfolding db_wf_def crashes_wf_def by blast
  with n have "cd_CreatorTestcaseID c \<noteq> next_it s" if "c \<in> set (crash_descriptions s)" for c
    using that by metis
  then show "crash_of s (next_it s) = None" by (auto simp: crash_of_def find_None_iff)
qed

lemma view_insert [view]:
  assumes wf: "db_wf s" and ins: "insert_testcase g l pg pl rt raw ty now s = Some s'"
  shows "db_view s' = (db_view s)((g, l) \<mapsto> \<lparr>v_parent = (pg, pl), v_rating = rt, v_bytes = raw,
    v_type = ty, v_blocks = {}, v_crash = None\<rparr>)"
proof
  fix k
  let ?r = "\<lparr>it_ID = next_it s, it_CreatorGUID = g, it_CreatorLocalID = l,
      it_ParentGUID = pg, it_ParentLocalID = pl, it_Rating = rt,
      it_RawBytes = raw, it_TestCaseType = ty, it_TimeOfInsertion = now\<rparr>"
  have s': "s' = s\<lparr>interesting_testcases := interesting_testcases s @ [?r], next_it := Suc (next_it s)\<rparr>"
    and new: "(g, l) \<notin> it_key ` set (interesting_testcases s)"
    using ins by (auto simp: insert_testcase_def split: if_splits)
  have v: "view_of s' = view_of s"
    by (simp add: fun_eq_iff s' view_of_def blocks_of_def crash_of_def)
  have "lookup_row s' k = (if k = (g, l) then Some ?r else lookup_row s k)"
  proof (cases "k = (g, l)")
    case True
    have "?r \<in> set (interesting_testcases s')" by (simp add: s')
    with True show ?thesis
      using lookup_row_iff [OF insert_testcase_wf [OF wf ins], of k ?r] by simp
  next
    case False
    then have "find (\<lambda>r. it_key r = k) (xs @ [?r]) = find (\<lambda>r. it_key r = k) xs" for xs
      by (induction xs) auto
    with False show ?thesis by (simp add: lookup_row_def s')
  qed
  then show "db_view s' k = ((db_view s)((g, l) \<mapsto> \<lparr>v_parent = (pg, pl), v_rating = rt, v_bytes = raw,
      v_type = ty, v_blocks = {}, v_crash = None\<rparr>)) k"
    by (simp add: db_view_def v) (simp add: view_of_def fresh_id_unused [OF wf])
qed

lemma view_update [view]:
  assumes wf: "db_wf s" and "\<And>r. it_ID (f r) = it_ID r" and "\<And>r. it_key (f r) = it_key r"
  shows "db_view (update_testcases P f s) k =
    map_option (\<lambda>r. view_of s (if P r then f r else r)) (lookup_row s k)"
proof -
  let ?g = "\<lambda>r. if P r then f r else r"
  have "it_key (?g r) = it_key r" for r
    using assms(3) by simp
  from find_map_key [of it_key ?g k, OF this]
  have "find (\<lambda>r. it_key r = k) (map ?g rs) = map_option ?g (find (\<lambda>r. it_key r = k) rs)" for rs .
  then show ?thesis
    by (simp add: db_view_def lookup_row_def update_testcases_def option.map_comp o_def
        view_of_def blocks_of_def crash_of_def)
qed

text \<open>Covered blocks and crash descriptions hang on the row of the testcase.\<close>

definition stored_block :: "FluffiBasicBlock \<Rightarrow> 8 word \<times> 64 word" where
  "stored_block b = (ucast (m_moduleID b), m_rva b)"

lemma insert_block_frame:
  assumes "insert_block tc m off now s = Some s'"
  shows "interesting_testcases s' = interesting_testcases s"
    and "crash_descriptions s' = crash_descriptions s" and "stmt_no s' = stmt_no s"
  using assms by (auto simp: insert_block_def split: if_splits)

lemma blocks_of_keys: "blocks_of s i = {p. (i, p) \<in> cb_key ` set (covered_blocks s)}"
  by (auto simp: blocks_of_def image_iff)

lemma insert_block_blocks:
  assumes "insert_block tc m off now s = Some s'"
  shows "blocks_of s' i = blocks_of s i \<union> (if i = tc then {(m, off)} else {})"
proof (cases "(tc, m, off) \<in> set (map cb_key (covered_blocks s))")
  case True
  let ?touch = "\<lambda>b. if cb_key b = (tc, m, off) then b\<lparr>cb_TimeOfInsertion := now\<rparr> else b"
  have "map cb_key (map ?touch bs) = map cb_key bs" for bs
    by simp
  then have "set (map cb_key (map ?touch bs)) = set (map cb_key bs)" for bs
    by (simp only:)
  moreover have "covered_blocks s' = map ?touch (covered_blocks s)"
    using assms True by (auto simp: insert_block_def split: if_splits)
  ultimately have "blocks_of s' i = blocks_of s i"
    by (simp only: blocks_of_keys set_map [symmetric])
  moreover have "i = tc \<Longrightarrow> (m, off) \<in> blocks_of s i"
    using True by (simp only: blocks_of_keys set_map [symmetric] mem_Collect_eq)
  ultimately show ?thesis by auto
next
  case False
  then have "covered_blocks s' = covered_blocks s @
      [\<lparr>cb_ID = next_cb s, cb_CreatorTestcaseID = tc, cb_ModuleID = m, cb_Offset = off,
        cb_TimeOfInsertion = now\<rparr>]"
    using assms by (auto simp: insert_block_def split: if_splits)
  then show ?thesis by (auto simp: blocks_of_keys)
qed

lemma insert_blocks_frame:
  "insert_blocks tc bs now s = Some s' \<Longrightarrow>
     interesting_testcases s' = interesting_testcases s \<and>
     crash_descriptions s' = crash_descriptions s"
  by (induction bs arbitrary: s) (fastforce split: bind_splits dest: insert_block_frame)+

lemma insert_blocks_blocks:
  "insert_blocks tc bs now s = Some s' \<Longrightarrow>
     blocks_of s' i = blocks_of s i \<union> (if i = tc then stored_block ` set bs else {})"
proof (induction bs arbitrary: s)
  case (Cons b bs)
  then obtain u where u: "insert_block tc (ucast (m_moduleID b)) (m_rva b) now s = Some u"
      "insert_blocks tc bs now u = Some s'"
    by (auto split: bind_splits)
  show ?case
    using insert_block_blocks [OF u(1), of i] Cons.IH [OF u(2)] by (auto simp: stored_block_def)
qed simp

lemma view_insert_blocks:
  assumes wf: "db_wf s" and ins: "insert_blocks tc bs now s = Some s'"
    and r: "r \<in> set (interesting_testcases s)" "it_ID r = tc"
  shows "db_view s' = (db_view s)(it_key r :=
    map_option (\<lambda>v. v\<lparr>v_blocks := v_blocks v \<union> stored_block ` set bs\<rparr>) (db_view s (it_key r)))"
proof
  fix k
  have rows: "lookup_row s' q = lookup_row s q" "crash_of s' i = crash_of s i" for q i
    using insert_blocks_frame [OF ins] by (simp_all add: lookup_row_def crash_of_def)
  note blocks = insert_blocks_blocks [OF ins]
  show "db_view s' k = ((db_view s)(it_key r :=
      map_option (\<lambda>v. v\<lparr>v_blocks := v_blocks v \<union> stored_block ` set bs\<rparr>) (db_view s (it_key r)))) k"
  proof (cases "lookup_row s k")
    case None
    then show ?thesis by (auto simp: db_view_def rows)
  next
    case (Some q)
    then have q: "q \<in> set (interesting_testcases s)" "it_key q = k"
      using lookup_row_iff [OF wf] by simp_all
    show ?thesis
    proof (cases "k = it_key r")
      case True
      with same_key_same_row [OF wf q(1) r(1)] q(2) have "q = r" by simp
      with Some True r(2) show ?thesis by (simp add: db_view_def rows view_of_def blocks)
    next
      case False
      then have "it_ID q \<noteq> tc"
        using same_id_same_row [OF wf q(1) r(1)] q(2) r(2) by auto
      with Some False show ?thesis by (simp add: db_view_def rows view_of_def blocks)
    qed
  qed
qed

lemma find_append_new:
  "\<forall>x \<in> set xs. \<not> Q x \<Longrightarrow> Q y \<Longrightarrow> find Q (xs @ [y]) = Some y"
  by (induction xs) auto

lemma find_append_other: "\<not> Q y \<Longrightarrow> find Q (xs @ [y]) = find Q xs"
  by (induction xs) auto

lemma view_replace_crash:
  assumes wf: "db_wf s" and rep: "replace_crash k f s = Some s'"
  shows "db_view s k \<noteq> None"
    and "db_view s' = (db_view s)(k := map_option (\<lambda>v. v\<lparr>v_crash := Some f\<rparr>) (db_view s k))"
proof -
  from rep obtain r where r: "lookup_row s k = Some r"
    and s': "s' = s\<lparr>crash_descriptions :=
            filter (\<lambda>c. cd_CreatorTestcaseID c \<noteq> it_ID r) (crash_descriptions s) @
            [\<lparr>cd_ID = next_cd s, cd_CreatorTestcaseID = it_ID r, cd_CrashFootprint = f\<rparr>],
          next_cd := Suc (next_cd s)\<rparr>"
    by (auto simp: replace_crash_def lookup_row_def split: option.splits)
  from r show "db_view s k \<noteq> None" by (simp add: db_view_def)
  have rk: "r \<in> set (interesting_testcases s)" "it_key r = k"
    using r lookup_row_iff [OF wf] by simp_all
  have crash: "crash_of s' i = (if i = it_ID r then Some f else crash_of s i)" for i
  proof (cases "i = it_ID r")
    case True
    then show ?thesis by (simp add: crash_of_def s') (subst find_append_new, auto)
  next
    case False
    then have "find (\<lambda>c. cd_CreatorTestcaseID c = i)
        (filter (\<lambda>c. cd_CreatorTestcaseID c \<noteq> it_ID r) cs) = find (\<lambda>c. cd_CreatorTestcaseID c = i) cs" for cs :: "cd_row list"
      by (intro find_filter_same) simp
    with False show ?thesis
      by (simp add: crash_of_def s' find_append_other)
  qed
  have rows: "lookup_row s' q = lookup_row s q" "blocks_of s' i = blocks_of s i" for q i
    by (simp_all add: s' lookup_row_def blocks_of_def)
  show "db_view s' = (db_view s)(k := map_option (\<lambda>v. v\<lparr>v_crash := Some f\<rparr>) (db_view s k))"
  proof
    fix q
    show "db_view s' q = ((db_view s)(k := map_option (\<lambda>v. v\<lparr>v_crash := Some f\<rparr>) (db_view s k))) q"
    proof (cases "lookup_row s q")
      case None
      then show ?thesis using r by (auto simp: db_view_def rows)
    next
      case (Some p)
      then have p: "p \<in> set (interesting_testcases s)" "it_key p = q"
        using lookup_row_iff [OF wf] by simp_all
      show ?thesis
      proof (cases "q = k")
        case True
        with Some r show ?thesis by (simp add: db_view_def rows view_of_def crash)
      next
        case False
        then have "it_ID p \<noteq> it_ID r"
          using same_id_same_row [OF wf p(1) rk(1)] p(2) rk(2) by auto
        with Some False show ?thesis by (simp add: db_view_def rows view_of_def crash)
      qed
    qed
  qed
qed

section \<open>The methods implement updates of the map\<close>

text \<open>\<open>modify f k m\<close> changes the entry of \<open>k\<close>, where there is one.\<close>

definition modify :: "('v \<Rightarrow> 'v) \<Rightarrow> 'k \<Rightarrow> ('k \<Rightarrow> 'v option) \<Rightarrow> 'k \<Rightarrow> 'v option" where
  "modify f k m = m(k := map_option f (m k))"

lemma modify_apply: "modify f k m q = (if q = k then map_option f (m k) else m q)"
  by (simp add: modify_def)

lemma view_update_id:
  assumes "db_wf s" and "\<And>r. it_ID (f r) = it_ID r" and "\<And>r. it_key (f r) = it_key r"
    and "\<And>r. view_of s (f r) = g (view_of s r)"
  shows "db_view (update_testcases (has_id t) f s) = modify g (tid_key t) (db_view s)"
proof
  fix k
  show "db_view (update_testcases (has_id t) f s) k = modify g (tid_key t) (db_view s) k"
  proof (cases "lookup_row s k")
    case None
    then show ?thesis
      by (auto simp: view_update [OF assms(1-3)] modify_apply db_view_def [of s])
  next
    case (Some r)
    then have "it_key r = k" by (simp add: lookup_row_iff [OF assms(1)])
    with Some show ?thesis
      by (auto simp: view_update [OF assms(1-3)] modify_apply has_id_def assms(4)) (auto simp: db_view_def)
  qed
qed

lemma exec_stmt_view:
  assumes "exec_stmt D f s = (ok, s')"
    and "\<And>now t. ok \<Longrightarrow> f now s = Some t \<Longrightarrow> db_view t = v"
  shows "db_view s' = (if ok then v else db_view s)"
  using assms by (cases rule: exec_stmt_cases [OF assms(1)]) (auto simp: fun_eq_iff)

lemma addDelta_view:
  assumes "db_wf s" and "addDeltaToTestcaseRating D t d s = (ok, s')"
  shows "db_view s' = (if ok then modify (\<lambda>v. v\<lparr>v_rating := v_rating v + d\<rparr>) (tid_key t) (db_view s)
    else db_view s)"
proof (cases "d = 0")
  case True
  have "modify (\<lambda>v. v\<lparr>v_rating := v_rating v\<rparr>) k m = m" for k :: "string \<times> 64 word" and m :: "_ \<Rightarrow> tc_view option"
    by (auto simp: modify_def fun_eq_iff option.map_ident)
  with True assms(2) show ?thesis by (simp add: addDeltaToTestcaseRating_def)
next
  case False
  with assms(2) show ?thesis
    by (intro exec_stmt_view [where D = D and s = s]) (auto simp: addDeltaToTestcaseRating_def view_of_def
        intro!: view_update_id [OF assms(1)] split: if_splits)
qed

lemma setTestcaseType_view:
  assumes "db_wf s" and "setTestcaseType D t ty s = (ok, s')"
  shows "db_view s' = (if ok then modify (\<lambda>v. v\<lparr>v_type := ty\<rparr>) (tid_key t) (db_view s) else db_view s)"
  by (rule exec_stmt_view [OF assms(2) [unfolded setTestcaseType_def]])
    (auto simp: view_of_def intro!: view_update_id [OF assms(1)])

lemma addCrash_view:
  assumes "db_wf s" and "addEntryToCrashDescriptionsTable D t f s = (ok, s')"
  shows "db_view s' = (if ok then modify (\<lambda>v. v\<lparr>v_crash := Some f\<rparr>) (tid_key t) (db_view s) else db_view s)"
  by (rule exec_stmt_view [OF assms(2) [unfolded addEntryToCrashDescriptionsTable_def]])
    (auto simp: modify_def view_replace_crash(2) [OF assms(1)])

lemma addBlocks_view:
  assumes wf: "db_wf s" and run: "addBlocksToCoveredBlocks D t bs s = (ok, s')"
  shows "db_view s' = (if ok then modify (\<lambda>v. v\<lparr>v_blocks := v_blocks v \<union> stored_block ` set bs\<rparr>)
      (tid_key t) (db_view s) else db_view s)"
    and "ok \<Longrightarrow> db_view s (tid_key t) \<noteq> None"
proof -
  let ?rows = "map it_ID (filter (has_id t) (interesting_testcases s))"
  have "db_view s' = (if ok then modify (\<lambda>v. v\<lparr>v_blocks := v_blocks v \<union> stored_block ` set bs\<rparr>)
      (tid_key t) (db_view s) else db_view s) \<and> (ok \<longrightarrow> db_view s (tid_key t) \<noteq> None)"
  proof (cases "db_ok D (stmt_no s) \<and> (\<exists>i. ?rows = [i])")
    case False
    then have "(ok, s') = (False, next_stmt s)"
      using run by (auto simp: addBlocksToCoveredBlocks_def query_def Let_def split: list.splits if_splits)
    then show ?thesis by (simp add: fun_eq_iff)
  next
    case True
    then obtain i where i: "?rows = [i]" by auto
    then obtain r where "filter (has_id t) (interesting_testcases s) = [r]" "it_ID r = i" by auto
    then have r: "r \<in> set (interesting_testcases s)" "it_key r = tid_key t" "it_ID r = i"
      by (auto simp: filter_eq_Cons_iff has_id_def)
    then have l: "lookup_row s (tid_key t) = Some r"
      using lookup_row_iff [OF wf] by simp
    let ?v = "modify (\<lambda>v. v\<lparr>v_blocks := v_blocks v \<union> stored_block ` set bs\<rparr>) (tid_key t) (db_view s)"
    have "db_view s' = (if ok then ?v else db_view s)"
    proof (cases "bs = []")
      case True
      then have "?v = db_view s"
        by (simp add: modify_def fun_eq_iff option.map_ident)
      with True i \<open>db_ok D (stmt_no s) \<and> _\<close> run show ?thesis
        by (auto simp: addBlocksToCoveredBlocks_def query_def Let_def fun_eq_iff)
    next
      case False
      let ?u = "set_isolation (next_stmt s)"
      have run': "exec_stmt D (insert_blocks i bs) ?u = (ok, s')"
        using False i \<open>db_ok D (stmt_no s) \<and> _\<close> run
        by (simp add: addBlocksToCoveredBlocks_def query_def Let_def)
      have u: "db_wf ?u" "r \<in> set (interesting_testcases ?u)" "db_view ?u = db_view s"
        using wf r(1) by (simp_all add: set_isolation_def fun_eq_iff)
      show ?thesis
        using exec_stmt_view [OF run', of ?v] view_insert_blocks [OF u(1) _ u(2) r(3)] r(2) u(3)
        by (simp add: modify_def)
    qed
    with l show ?thesis by (simp add: db_view_def)
  qed
  then show "db_view s' = (if ok then modify (\<lambda>v. v\<lparr>v_blocks := v_blocks v \<union> stored_block ` set bs\<rparr>)
      (tid_key t) (db_view s) else db_view s)" and "ok \<Longrightarrow> db_view s (tid_key t) \<noteq> None" by simp_all
qed

section \<open>Storing a testcase\<close>

definition parent_to_set :: "lmdb \<Rightarrow> FluffiTestcaseID \<Rightarrow> FluffiTestcaseID \<Rightarrow> string \<times> 64 word" where
  "parent_to_set s t p = (if tid_guid p = ''special''
     then (case db_view s (tid_key t) of Some v \<Rightarrow> v_parent v | None \<Rightarrow> tid_key p)
     else tid_key p)"

lemma rows_with_id:
  assumes "db_wf s"
  shows "filter (has_id t) (interesting_testcases s) =
    (case lookup_row s (tid_key t) of None \<Rightarrow> [] | Some r \<Rightarrow> [r])"
proof (cases "lookup_row s (tid_key t)")
  case None
  then have "\<not> has_id t r" if "r \<in> set (interesting_testcases s)" for r
    using that by (auto simp: lookup_row_None has_id_def image_iff)
  with None show ?thesis by (simp add: filter_empty_conv)
next
  case (Some r)
  then have r: "r \<in> set (interesting_testcases s)" "it_key r = tid_key t"
    using lookup_row_iff [OF assms] by simp_all
  have d: "distinct (filter (has_id t) (interesting_testcases s))"
    using assms by (auto simp: db_wf_def testcases_wf_def distinct_map)
  have "set (filter (has_id t) (interesting_testcases s)) = {r}"
  proof (intro set_eqI iffI)
    fix q assume "q \<in> set (filter (has_id t) (interesting_testcases s))"
    then show "q \<in> {r}" using same_key_same_row [OF assms _ r(1), of q] r(2) by (auto simp: has_id_def)
  qed (use r in \<open>simp add: has_id_def\<close>)
  with d have "filter (has_id t) (interesting_testcases s) = [r]"
    by (metis distinct_card card_1_singleton_iff One_nat_def length_0_conv length_Suc_conv
        list.set_intros(1) singletonD is_singletonI is_singleton_altdef)
  with Some show ?thesis by simp
qed

lemma getParentTCID_parent:
  assumes "db_wf s" and "getParentTCID D t s = (p, s')"
  shows "db_ok D (stmt_no s) \<Longrightarrow> map_option tid_key p = map_option v_parent (db_view s (tid_key t))"
    and "\<not> db_ok D (stmt_no s) \<Longrightarrow> p = None" and "s' = next_stmt s"
  using assms rows_with_id [OF assms(1), of t]
  by (auto simp: getParentTCID_def query_def Let_def db_view_def view_of_def tid_key_def
      mkTestcaseID_def mkServiceDescriptor_def split: option.splits)

definition new_view :: "string \<times> 64 word \<Rightarrow> int \<Rightarrow> bytes \<Rightarrow> TestCaseType \<Rightarrow> tc_view" where
  "new_view p r raw ty = \<lparr>v_parent = p, v_rating = r, v_bytes = raw, v_type = ty, v_blocks = {},
     v_crash = None\<rparr>"

lemma delete_id_view:
  assumes "db_wf s"
  shows "db_view (delete_testcases (has_id t) s) = (db_view s)(tid_key t := None)"
proof
  fix k
  show "db_view (delete_testcases (has_id t) s) k = ((db_view s)(tid_key t := None)) k"
  proof (cases "lookup_row s k")
    case None
    then show ?thesis by (simp add: view_delete [OF assms]) (simp add: db_view_def)
  next
    case (Some r)
    then have "has_id t r \<longleftrightarrow> k = tid_key t"
      using lookup_row_iff [OF assms] by (auto simp: has_id_def)
    with Some show ?thesis by (simp add: view_delete [OF assms])
  qed
qed

text \<open>The two statements of the method, after the parent has been fixed.\<close>

lemma replace_testcase_view:
  assumes wf: "db_wf s"
    and del: "exec_stmt D (\<lambda>_ s. Some (delete_testcases (has_id t) s)) s = (ok1, u)"
    and ins: "exec_stmt D (insert_testcase (tid_guid t) (m_localID t) (fst pk) (snd pk) r raw ty) u = (ok2, s')"
  shows "\<not> ok1 \<Longrightarrow> db_view u = db_view s"
    and "ok1 \<Longrightarrow> db_view s' = (db_view s)(tid_key t := (if ok2 then Some (new_view pk r raw ty) else None))"
    and "ok1 \<Longrightarrow> db_ok D (stmt_no u) \<Longrightarrow> ok2"
proof -
  show "\<not> ok1 \<Longrightarrow> db_view u = db_view s"
    by (cases rule: exec_stmt_cases [OF del]) (simp_all add: fun_eq_iff)
  assume ok1
  then have u: "u = (delete_testcases (has_id t) s)\<lparr>stmt_no := Suc (stmt_no s)\<rparr>"
    by (cases rule: exec_stmt_cases [OF del]) simp_all
  have wu: "db_wf u" using delete_testcases_wf [OF wf] by (simp add: u)
  have vu: "db_view u = (db_view s)(tid_key t := None)"
    by (simp add: u delete_id_view [OF wf, symmetric] fun_eq_iff del: fun_upd_apply)
  have "(db_view s)(tid_key t := None, tid_key t \<mapsto> new_view pk r raw ty) =
      (db_view s)(tid_key t \<mapsto> new_view pk r raw ty)" by simp
  then show "db_view s' = (db_view s)(tid_key t := (if ok2 then Some (new_view pk r raw ty) else None))"
    using exec_stmt_view [OF ins, of "(db_view u)(tid_key t \<mapsto> new_view pk r raw ty)"]
      view_insert [OF wu] by (auto simp: vu tid_key_def new_view_def)
  show "db_ok D (stmt_no u) \<Longrightarrow> ok2"
  proof -
    assume "db_ok D (stmt_no u)"
    moreover have "lookup_row u (tid_key t) = None"
      using fun_cong [OF vu, of "tid_key t"] by (simp add: db_view_def)
    then have "(tid_guid t, m_localID t) \<notin> set (map it_key (interesting_testcases u))"
      by (simp add: lookup_row_None tid_key_def)
    ultimately show ok2
      using ins unfolding exec_stmt_def insert_testcase_def by (simp split: if_splits)
  qed
qed

lemma addEntryToInteresting_view:
  assumes wf: "db_wf s"
    and run: "addEntryToInterestingTestcasesTable D t p r dir ty s a = (ok, s', a')"
  shows "\<not> ok \<Longrightarrow> db_view s' = db_view s"
    and "k \<noteq> tid_key t \<Longrightarrow> db_view s' k = db_view s k"
    and "(\<And>n. db_ok D n) \<Longrightarrow> ok \<and> db_view s' = (db_view s)(tid_key t \<mapsto>
      new_view (parent_to_set s t p) r (loadTestcaseInMemory t dir a) ty)"
    and "a' = markFileForDelete (generateTestcasePathAndFilename t dir) a"
    and "ok \<Longrightarrow> db_view s' (tid_key t) = None \<or>
      (\<exists>pk. db_view s' (tid_key t) = Some (new_view pk r (loadTestcaseInMemory t dir a) ty))"
proof -
  define q where "q = (if tid_guid p = ''special'' then opt_or p (fst (getParentTCID D t s)) else p)"
  define s1 where "s1 = (if tid_guid p = ''special'' then next_stmt s else s)"
  define del where "del = exec_stmt D (\<lambda>_ s. Some (delete_testcases (has_id t) s)) s1"
  define ins where "ins = exec_stmt D (insert_testcase (tid_guid t) (m_localID t)
    (tid_guid q) (m_localID q) r (loadTestcaseInMemory t dir a) ty) (snd del)"
  have "addEntryToInterestingTestcasesTable D t p r dir ty s a =
     (let a = markFileForDelete (generateTestcasePathAndFilename t dir) a in
      if \<not> fst del then (False, snd del, a) else (True, snd ins, a))"
    by (simp add: addEntryToInterestingTestcasesTable_def Let_def split_beta del_def ins_def q_def s1_def
        getParentTCID_state)
  with run have res: "ok = fst del" "s' = (if ok then snd ins else snd del)"
      "a' = markFileForDelete (generateTestcasePathAndFilename t dir) a"
    by (auto simp: Let_def split: if_splits)
  have w1: "db_wf s1" and v1: "db_view s1 = db_view s"
    using wf by (auto simp: s1_def fun_eq_iff)
  have del': "exec_stmt D (\<lambda>_ s. Some (delete_testcases (has_id t) s)) s1 = (fst del, snd del)"
    by (simp add: del_def)
  have ins': "exec_stmt D (insert_testcase (tid_guid t) (m_localID t) (fst (tid_key q)) (snd (tid_key q))
      r (loadTestcaseInMemory t dir a) ty) (snd del) = (fst ins, snd ins)"
    by (simp add: ins_def tid_key_def)
  note views = replace_testcase_view [OF w1 del' ins', unfolded v1]
  show "\<not> ok \<Longrightarrow> db_view s' = db_view s" using views(1) res by simp
  show "k \<noteq> tid_key t \<Longrightarrow> db_view s' k = db_view s k"
    using views(1,2) res by (cases ok) simp_all
  show "a' = markFileForDelete (generateTestcasePathAndFilename t dir) a" by (rule res)
  show "ok \<Longrightarrow> db_view s' (tid_key t) = None \<or>
      (\<exists>pk. db_view s' (tid_key t) = Some (new_view pk r (loadTestcaseInMemory t dir a) ty))"
    using views(2) res by (metis fun_upd_same)
  assume all: "\<And>n. db_ok D n"
  have "map_option tid_key (fst (getParentTCID D t s)) = map_option v_parent (db_view s (tid_key t))"
    using getParentTCID_parent(1) [OF wf surjective_pairing all] .
  then have "tid_key q = parent_to_set s t p"
    by (auto simp: q_def parent_to_set_def opt_or_def split: option.splits)
  moreover have "ok" using all res del_def by (simp add: exec_stmt_def)
  ultimately show "ok \<and> db_view s' = (db_view s)(tid_key t \<mapsto>
      new_view (parent_to_set s t p) r (loadTestcaseInMemory t dir a) ty)"
    using views(2,3) res all by simp
qed

end
