(* ===== verification/LMLimits.thy ===== *)
theory LMLimits
  imports LMView
begin

text \<open>
  The methods that bound the tables (testcases per type, testcases per crash footprint, log
  messages), the choice of the testcase to mutate, the registration of instances, and the
  time stamps agents poll with.
\<close>

section \<open>Limits by identifier\<close>

lemma filter_le_nth:
  fixes xs :: "nat list"
  assumes "sorted_wrt (<) xs" and "i < length xs"
  shows "filter (\<lambda>x. \<not> xs ! i < x) xs = take (Suc i) xs"
  using assms
proof (induction xs arbitrary: i)
  case (Cons x xs)
  show ?case
  proof (cases i)
    case 0
    with Cons.prems show ?thesis by (auto simp: filter_empty_conv)
  next
    case (Suc j)
    with Cons.prems have "x < xs ! j" by auto
    then have "\<not> xs ! j < x" by simp
    with Suc Cons show ?thesis by simp
  qed
qed simp

lemma sort_distinct_strict: "distinct xs \<Longrightarrow> sorted_wrt (<) (sort xs)" for xs :: "nat list"
  by (simp add: strict_sorted_iff)

lemma sort_filter: "sort (filter P xs) = filter P (sort xs)" for xs :: "'a::linorder list"
  using filter_sort [of P "\<lambda>x. x" xs] by simp

lemma map_filter_f: "map f (filter (\<lambda>x. P (f x)) xs) = filter P (map f xs)"
  by (induction xs) auto

text \<open>The identifiers of the rows that satisfy \<open>P\<close>, in ascending order.\<close>

definition ids_with :: "(it_row \<Rightarrow> bool) \<Rightarrow> lmdb \<Rightarrow> nat list" where
  "ids_with P s = sort (map it_ID (filter P (interesting_testcases s)))"

lemma ids_with_strict: "db_wf s \<Longrightarrow> sorted_wrt (<) (ids_with P s)"
  unfolding ids_with_def
  by (intro sort_distinct_strict distinct_map_filter_key) (simp add: db_wf_def testcases_wf_def)

lemma ids_with_stmt_no [simp]: "ids_with P (s\<lparr>stmt_no := n\<rparr>) = ids_with P s"
  by (simp add: ids_with_def)

lemma delete_testcases_rows:
  "interesting_testcases (delete_testcases P s) = filter (\<lambda>r. \<not> P r) (interesting_testcases s)"
  by (simp add: delete_testcases_def Let_def)

lemma ids_with_delete_above:
  "ids_with P (delete_testcases (\<lambda>r. P r \<and> it_ID r > l) s) = filter (\<lambda>i. \<not> l < i) (ids_with P s)"
proof -
  have "filter P (filter (\<lambda>r. \<not> (P r \<and> it_ID r > l)) rs) = filter (\<lambda>r. \<not> l < it_ID r) (filter P rs)" for rs
    by (induction rs) auto
  then have "map it_ID (filter P (filter (\<lambda>r. \<not> (P r \<and> it_ID r > l)) rs)) =
      filter (\<lambda>i. \<not> l < i) (map it_ID (filter P rs))" for rs
    using map_filter_f [of it_ID "\<lambda>i. \<not> l < i"] by metis
  then show ?thesis
    by (simp add: ids_with_def delete_testcases_rows sort_filter)
qed

lemma delete_above_limit:
  assumes "sorted_wrt (<) (ids_with P s)" and "limit_offset (ids_with P s) (n - 1) = Some lim"
  shows "ids_with P (delete_above P lim s) = take (nat n) (ids_with P s)"
proof -
  from assms(2) have n: "1 \<le> n"
    and lim: "lim = (if nat (n - 1) < length (ids_with P s) then Some (ids_with P s ! nat (n - 1)) else None)"
    by (auto simp: limit_offset_def split: if_splits)
  show ?thesis
  proof (cases "nat (n - 1) < length (ids_with P s)")
    case True
    moreover from n have "Suc (nat (n - 1)) = nat n" by simp
    ultimately show ?thesis
      using filter_le_nth [OF assms(1) True] by (simp add: lim delete_above_def ids_with_delete_above)
  next
    case False
    with n show ?thesis by (simp add: lim delete_above_def)
  qed
qed

lemma delete_above_other:
  assumes "\<And>r. Q r \<Longrightarrow> \<not> P r"
  shows "filter Q (interesting_testcases (delete_above P lim s)) = filter Q (interesting_testcases s)"
proof (cases lim)
  case (Some l)
  have "filter Q (filter (\<lambda>r. \<not> (P r \<and> it_ID r > l)) rs) = filter Q rs" for rs
    by (induction rs) (use assms in auto)
  with Some show ?thesis by (simp add: delete_above_def delete_testcases_rows)
qed (simp add: delete_above_def)

lemma dropTestcaseType_limit:
  assumes wf: "db_wf s" and run: "dropTestcaseTypeIFMoreThan D ty n s = (True, s')"
  shows "ids_with (\<lambda>r. it_TestCaseType r = ty) s' = take (nat n) (ids_with (\<lambda>r. it_TestCaseType r = ty) s)"
    and "filter (\<lambda>r. it_TestCaseType r \<noteq> ty) (interesting_testcases s') =
      filter (\<lambda>r. it_TestCaseType r \<noteq> ty) (interesting_testcases s)"
proof -
  let ?P = "\<lambda>r. it_TestCaseType r = ty" and ?u = "set_isolation s"
  from run obtain lim where lim: "limit_offset (ids_with ?P s) (n - 1) = Some lim"
    and s': "s' = (delete_above ?P lim ?u)\<lparr>stmt_no := Suc (stmt_no ?u)\<rparr>"
    by (auto simp: dropTestcaseTypeIFMoreThan_def exec_stmt_def ids_with_def set_isolation_def
        split: if_splits option.splits)
  have u: "ids_with ?P ?u = ids_with ?P s" by (simp add: set_isolation_def)
  show "ids_with ?P s' = take (nat n) (ids_with ?P s)"
    using delete_above_limit [of ?P ?u n lim] lim ids_with_strict [OF wf] by (simp add: s' u)
  show "filter (\<lambda>r. \<not> ?P r) (interesting_testcases s') = filter (\<lambda>r. \<not> ?P r) (interesting_testcases s)"
    using delete_above_other [of "\<lambda>r. \<not> ?P r" ?P lim ?u] by (simp add: s' set_isolation_def)
qed

text \<open>
  The limit on a crash footprint deletes rows above one that the server picked: whatever
  the order, the picked row and those below it stay.
\<close>

lemma has_footprint_delete:
  assumes "db_wf s" and "r \<in> set (interesting_testcases s)" and "\<not> P r"
  shows "has_footprint (delete_testcases P s) f r = has_footprint s f r"
proof -
  have "it_ID r \<notin> it_ID ` {q \<in> set (interesting_testcases s). P q}"
    using same_id_same_row [OF assms(1,2)] assms(3) by auto
  then have "cd_CreatorTestcaseID c = it_ID r \<and> cd_CrashFootprint c = f \<Longrightarrow>
      cd_CreatorTestcaseID c \<notin> it_ID ` {q \<in> set (interesting_testcases s). P q}" for c
    by metis
  then show ?thesis
    unfolding has_footprint_def list_ex_iff delete_testcases_def Let_def by auto
qed

lemma dropCrash_keeps:
  assumes wf: "db_wf s" and order: "\<And>k xs. mset (db_order D k xs) = mset xs"
    and run: "dropTestcaseIfCrashFootprintAppearedMoreThanXTimes D n f s = (ok, s')"
    and r: "r \<in> set (interesting_testcases s)" "has_footprint s f r"
  shows "\<exists>q \<in> set (interesting_testcases s'). has_footprint s' f q"
proof -
  let ?ids = "map it_ID (filter (has_footprint s f) (interesting_testcases s))"
  let ?ord = "db_order D (stmt_no s) ?ids"
  have same: "has_footprint (u\<lparr>stmt_no := m\<rparr>) f = has_footprint u f" for u m
    by (simp add: has_footprint_def fun_eq_iff)
  from run consider "s' = next_stmt s"
    | lim where "limit_offset ?ord (n - 1) = Some lim"
        "s' = (delete_above (has_footprint s f) lim s)\<lparr>stmt_no := Suc (stmt_no s)\<rparr>"
    by (auto simp: dropTestcaseIfCrashFootprintAppearedMoreThanXTimes_def exec_stmt_def
        split: if_splits option.splits)
  then show ?thesis
  proof cases
    case 1
    with r show ?thesis by (auto simp: same)
  next
    case 2
    show ?thesis
    proof (cases lim)
      case None
      with 2 r show ?thesis by (auto simp: same delete_above_def)
    next
      case (Some l)
      with 2(1) have "l \<in> set ?ord"
        by (auto simp: limit_offset_def split: if_splits)
      then have "l \<in> set ?ids" using order [of "stmt_no s" ?ids] by (metis mset_eq_setD)
      then obtain q where q: "q \<in> set (interesting_testcases s)" "has_footprint s f q" "it_ID q = l" by auto
      let ?P = "\<lambda>r. has_footprint s f r \<and> it_ID r > l"
      have "has_footprint (delete_testcases ?P s) f q"
        using has_footprint_delete [OF wf q(1), of ?P f] q by simp
      moreover have "q \<in> set (interesting_testcases (delete_testcases ?P s))"
        using q by (simp add: delete_testcases_rows)
      ultimately show ?thesis
        using 2(2) Some by (auto simp: same delete_above_def)
    qed
  qed
qed

text \<open>When the server happens to deliver ascending identifiers, exactly the oldest stay.\<close>

lemma dropCrash_limit:
  assumes wf: "db_wf s" and order: "\<And>k xs. db_order D k xs = sort xs"
    and run: "dropTestcaseIfCrashFootprintAppearedMoreThanXTimes D n f s = (True, s')"
  shows "ids_with (has_footprint s f) s' = take (nat n) (ids_with (has_footprint s f) s)"
proof -
  from run obtain lim where "limit_offset (ids_with (has_footprint s f) s) (n - 1) = Some lim"
    and s': "s' = (delete_above (has_footprint s f) lim s)\<lparr>stmt_no := Suc (stmt_no s)\<rparr>"
    by (auto simp: dropTestcaseIfCrashFootprintAppearedMoreThanXTimes_def exec_stmt_def ids_with_def order
        split: if_splits option.splits)
  then show ?thesis
    using delete_above_limit [OF ids_with_strict [OF wf]] by (simp add: s')
qed

section \<open>Log messages\<close>

lemma filter_above_nth_rev:
  fixes xs :: "nat list"
  assumes s: "sorted_wrt (<) xs" and n: "n < length xs"
  shows "filter (\<lambda>x. \<not> x \<le> rev xs ! n) xs = drop (length xs - n) xs"
proof -
  let ?k = "length xs - Suc n"
  have k: "?k < length xs" "rev xs ! n = xs ! ?k" "length xs - n = Suc ?k"
    using n by (simp_all add: rev_nth)
  have "filter (\<lambda>x. \<not> x \<le> xs ! ?k) (take (Suc ?k) xs) = []"
  proof -
    have "x \<le> xs ! ?k" if "x \<in> set (take (Suc ?k) xs)" for x
    proof -
      from that obtain j where "j \<le> ?k" "x = xs ! j"
        using k(1) by (auto simp: in_set_conv_nth less_Suc_eq_le)
      with s k(1) show ?thesis
        by (cases "j = ?k") (auto simp: sorted_wrt_iff_nth_less intro: less_imp_le)
    qed
    then show ?thesis by (auto simp: filter_empty_conv)
  qed
  moreover have "filter (\<lambda>x. \<not> x \<le> xs ! ?k) (drop (Suc ?k) xs) = drop (Suc ?k) xs"
  proof (rule filter_True, rule ballI)
    fix x assume "x \<in> set (drop (Suc ?k) xs)"
    then obtain j where "j < length xs - Suc ?k" "x = xs ! (Suc ?k + j)"
      by (auto simp: in_set_conv_nth)
    with s show "\<not> x \<le> xs ! ?k"
      by (auto simp: sorted_wrt_iff_nth_less not_le)
  qed
  ultimately show ?thesis
    unfolding k(2,3) by (metis append_Nil append_take_drop_id filter_append)
qed

lemma deleteLogs_keeps_newest:
  assumes wf: "db_wf s" and num: "0 \<le> num" "num < 2 ^ 31"
    and run: "deleteManagedInstanceLogMessagesIfMoreThan D num s = (True, s')"
  shows "managed_instances_logmessages s' =
    drop (length (managed_instances_logmessages s) - nat num) (managed_instances_logmessages s)"
proof -
  let ?ls = "managed_instances_logmessages s" let ?ids = "map ml_ID ?ls"
  have s: "sorted_wrt (<) ?ids" using wf by (simp add: db_wf_def logs_wf_def)
  then have sort: "sort ?ids = ?ids"
    by (simp add: sorted_sort_id strict_sorted_imp_sorted)
  have u: "unat (word_of_int num :: 32 word) = nat num"
    using num by (simp add: unat_eq_nat_uint uint_word_of_int_eq take_bit_int_eq_self)
  have s': "managed_instances_logmessages s' = (if nat num < length ?ls
      then filter (\<lambda>r. \<not> ml_ID r \<le> rev ?ids ! nat num) ?ls else ?ls)"
    using run by (auto simp: deleteManagedInstanceLogMessagesIfMoreThan_def exec_stmt_def Let_def sort u
        split: if_splits)
  show ?thesis
  proof (cases "nat num < length ?ls")
    case True
    have "distinct ?ids" using s by (simp add: strict_sorted_iff)
    have "map ml_ID (filter (\<lambda>r. \<not> ml_ID r \<le> rev ?ids ! nat num) ?ls) =
        map ml_ID (drop (length ?ls - nat num) ?ls)"
      using filter_above_nth_rev [OF s, of "nat num"] True
      by (simp add: map_filter_f [of ml_ID "\<lambda>i. \<not> i \<le> rev ?ids ! nat num"] drop_map)
    moreover have "inj_on ml_ID (set (filter (\<lambda>r. \<not> ml_ID r \<le> rev ?ids ! nat num) ?ls) \<union>
        set (drop (length ?ls - nat num) ?ls))"
      using \<open>distinct ?ids\<close> by (auto simp: distinct_map intro: inj_on_subset dest: in_set_dropD)
    ultimately show ?thesis
      unfolding s' by (simp add: True inj_on_map_eq_map)
  qed (simp add: s')
qed

section \<open>Registration of an instance\<close>

lemma nice_name_loop_result:
  assumes "\<And>n. db_ok D n"
  shows "nice_name_loop D (Suc n) g name s = (b, s') \<Longrightarrow>
    b = (g \<in> fst ` set (nice_names_managed_instance s) \<or> name \<notin> snd ` set (nice_names_managed_instance s)) \<and>
    managed_instances s' = managed_instances s \<and>
    (b \<longrightarrow> g \<in> fst ` set (nice_names_managed_instance s'))"
proof (induction n arbitrary: s)
  case 0
  then show ?case
    by (auto simp: try_nice_name_def assms split: if_splits)
next
  case (Suc n)
  show ?case
  proof (cases "g \<in> fst ` set (nice_names_managed_instance s) \<or> name \<notin> snd ` set (nice_names_managed_instance s)")
    case True
    with Suc.prems show ?thesis
      by (auto simp: try_nice_name_def assms split: if_splits)
  next
    case False
    then have "nice_name_loop D (Suc (Suc n)) g name s = nice_name_loop D (Suc n) g name (next_stmt s)"
      by (subst nice_name_loop.simps) (simp add: try_nice_name_def assms del: nice_name_loop.simps)
    with Suc.prems have "nice_name_loop D (Suc n) g name (next_stmt s) = (b, s')" by simp
    from Suc.IH [OF this] show ?thesis by simp
  qed
qed

definition instance_row :: "FluffiServiceDescriptor \<Rightarrow> AgentType \<Rightarrow> string \<Rightarrow> string \<Rightarrow> mi_row" where
  "instance_row sd ty st l = \<lparr>mi_GUID = m_guid sd, mi_HAP = m_serviceHostAndPort sd,
     mi_AgentType = ty, mi_AgentSubType = st, mi_Location = l\<rparr>"

lemma upsert_instance_set:
  "set (managed_instances (upsert_instance m s)) =
     insert m {q \<in> set (managed_instances s). mi_GUID q \<noteq> mi_GUID m}"
  by (auto simp: upsert_instance_def image_iff)

lemma writeManagedInstance_result:
  assumes ok: "\<And>n. db_ok D n" and run: "writeManagedInstance D sd ty st l s = (b, s')"
  shows "set (managed_instances s') = insert (instance_row sd ty st l)
      {q \<in> set (managed_instances s). mi_GUID q \<noteq> m_guid sd}"
    and "b \<longleftrightarrow> m_guid sd \<in> fst ` set (nice_names_managed_instance s) \<or>
      st @ m_serviceHostAndPort sd \<notin> snd ` set (nice_names_managed_instance s)"
proof -
  let ?u = "(upsert_instance (instance_row sd ty st l) s)\<lparr>stmt_no := Suc (stmt_no s)\<rparr>"
  have "nice_name_loop D (Suc 8) (m_guid sd) (st @ m_serviceHostAndPort sd) ?u = (b, s')"
    using run by (simp add: writeManagedInstance_def exec_stmt_def ok instance_row_def numeral_eq_Suc)
  from nice_name_loop_result [OF ok this]
  have r: "b = (m_guid sd \<in> fst ` set (nice_names_managed_instance ?u) \<or>
        st @ m_serviceHostAndPort sd \<notin> snd ` set (nice_names_managed_instance ?u))"
      "managed_instances s' = managed_instances ?u" by simp_all
  show "set (managed_instances s') = insert (instance_row sd ty st l)
      {q \<in> set (managed_instances s). mi_GUID q \<noteq> m_guid sd}"
    unfolding r(2) by (simp add: upsert_instance_set) (simp add: instance_row_def)
  show "b \<longleftrightarrow> m_guid sd \<in> fst ` set (nice_names_managed_instance s) \<or>
      st @ m_serviceHostAndPort sd \<notin> snd ` set (nice_names_managed_instance s)"
    unfolding r(1) by (simp add: upsert_instance_def)
qed

section \<open>The testcase to mutate\<close>

lemma best_rated_Some:
  "best_rated rows = Some r \<Longrightarrow> r \<in> set rows \<and> (\<forall>q \<in> set rows. it_Rating q \<le> it_Rating r)"
  by (auto simp: best_rated_def find_Some_iff)

lemma best_rated_None: "best_rated rows = None \<longleftrightarrow> rows = []"
proof
  assume none: "best_rated rows = None"
  show "rows = []"
  proof (rule ccontr)
    assume "rows \<noteq> []"
    then have "Max (it_Rating ` set rows) \<in> it_Rating ` set rows" by (intro Max_in) auto
    then obtain r where "r \<in> set rows" "it_Rating r = Max (it_Rating ` set rows)" by auto
    with none show False by (auto simp: best_rated_def find_None_iff)
  qed
qed (simp add: best_rated_def)

lemma int_to_string_sint:
  fixes w :: "64 word"
  assumes "unat w < 2 ^ 63"
  shows "int_to_string (sint w) = to_string (unat w)"
proof -
  have "int (unat w) < 2 ^ 63"
    using of_nat_less_iff [where 'a = int, of "unat w" "2 ^ 63"] assms by simp
  then have "uint w < 2 ^ 63" by simp
  moreover have "- (2 ^ 63) \<le> uint w"
    by (rule order_trans [OF _ uint_ge_0]) simp
  ultimately have "sint w = uint w"
    by (simp add: sint_uint signed_take_bit_int_eq_self del: uint_nat)
  then have "sint w = int (unat w)" by simp
  then show ?thesis
    by (simp only: int_to_string_def) simp
qed

lemma view_of_simps [simp]:
  "v_type (view_of s r) = it_TestCaseType r" "v_rating (view_of s r) = it_Rating r"
  "v_bytes (view_of s r) = it_RawBytes r" "v_blocks (view_of s r) = blocks_of s (it_ID r)"
  by (simp_all add: view_of_def)

lemma db_view_row: "db_wf s \<Longrightarrow> r \<in> set (interesting_testcases s) \<Longrightarrow> db_view s (it_key r) = Some (view_of s r)"
  using lookup_row_iff [of s "it_key r" r] by (simp add: db_view_def)

lemma db_view_SomeD:
  assumes "db_wf s" and "db_view s k = Some v"
  obtains r where "r \<in> set (interesting_testcases s)" "it_key r = k" "v = view_of s r"
  using assms by (auto simp: db_view_def lookup_row_iff)

definition path_of :: "string \<Rightarrow> string \<times> 64 word \<Rightarrow> string" where
  "path_of dir k = dir @ pathSeperator @ fst k @ ''-'' @ to_string (unat (snd k))"

lemma mutate_choice:
  assumes wf: "db_wf s" and ok: "\<And>n. db_ok D n" and opened: "\<And>n f. env_open_ok E n f"
    and small: "\<And>k v. db_view s k = Some v \<Longrightarrow> unat (snd k) < 2 ^ 63"
    and run: "generateGetTestcaseToMutateResponse D E dir s a = (resp, s', a')"
    and some: "db_view s k0 = Some v0" "v_type v0 = Population"
  obtains k v where "db_view s k = Some v" "v_type v = Population"
    "\<And>k' v'. db_view s k' = Some v' \<Longrightarrow> v_type v' = Population \<Longrightarrow> v_rating v' \<le> v_rating v"
    "gtm_id resp = Some (id_proto (fst k) (snd k))"
    "gtm_testCaseFirstChunk resp = take chunkSizeInBytes (v_bytes v)"
    "gtm_isLastChunk resp \<longleftrightarrow> length (v_bytes v) \<le> chunkSizeInBytes"
    "gtm_alsoRunWithoutMutation resp \<longleftrightarrow> v_blocks v = {}"
    "files a' = (if gtm_isLastChunk resp then files a else (files a)(path_of dir k \<mapsto> v_bytes v))"
    "db_view s' = db_view s"
proof -
  let ?pop = "filter (\<lambda>r. it_TestCaseType r = Population) (interesting_testcases s)"
  obtain r0 where "r0 \<in> set (interesting_testcases s)" "v0 = view_of s r0"
    using db_view_SomeD [OF wf some(1)] by metis
  with some(2) have "?pop \<noteq> []" by (auto simp: filter_empty_conv)
  then obtain r where r: "best_rated ?pop = Some r"
    using best_rated_None [of ?pop] by auto
  from best_rated_Some [OF r] have r': "r \<in> set (interesting_testcases s)" "it_TestCaseType r = Population"
    and best: "\<And>q. q \<in> set ?pop \<Longrightarrow> it_Rating q \<le> it_Rating r" by auto
  have v: "db_view s (it_key r) = Some (view_of s r)" by (rule db_view_row [OF wf r'(1)])
  have path: "dir @ pathSeperator @ it_CreatorGUID r @ ''-'' @ int_to_string (sint (it_CreatorLocalID r))
      = path_of dir (it_key r)"
    using small [OF v] by (simp add: path_of_def int_to_string_sint)
  have empty: "length (filter (\<lambda>b. cb_CreatorTestcaseID b = it_ID r) (covered_blocks s)) = 0 \<longleftrightarrow>
      blocks_of s (it_ID r) = {}"
    by (auto simp: blocks_of_def filter_empty_conv)
  show ?thesis
  proof (rule that [OF v])
    show "v_type (view_of s r) = Population" using r' by simp
    show "v_rating v' \<le> v_rating (view_of s r)" if "db_view s k' = Some v'" "v_type v' = Population" for k' v'
    proof -
      from db_view_SomeD [OF wf that(1)] obtain q where "q \<in> set (interesting_testcases s)" "v' = view_of s q"
        by metis
      with that(2) best [of q] show ?thesis by simp
    qed
  qed (use run r path empty ok opened in \<open>auto simp: generateGetTestcaseToMutateResponse_def query_def
      Let_def fun_eq_iff split: if_splits\<close>)
qed

lemma mutate_none:
  assumes wf: "db_wf s" and none: "\<And>k v. db_view s k = Some v \<Longrightarrow> v_type v \<noteq> Population"
  shows "fst (generateGetTestcaseToMutateResponse D E dir s a) = empty_mutate_response"
proof -
  have "filter (\<lambda>r. it_TestCaseType r = Population) (interesting_testcases s) = []"
    using none [OF db_view_row [OF wf]] by (auto simp: filter_empty_conv)
  then have "best_rated (filter (\<lambda>r. it_TestCaseType r = Population) (interesting_testcases s)) = None"
    by (simp add: best_rated_None)
  then show ?thesis
    by (simp add: generateGetTestcaseToMutateResponse_def query_def)
qed

section \<open>Polling for completed testcases\<close>

lemma newest_time_fold:
  assumes "\<forall>t \<in> set ts. 0 < t" and "0 \<le> l"
  shows "fold (\<lambda>t latest. if latest = 0 then t else if t > latest then t else latest) ts l =
    Max (insert l (set ts))"
  using assms
proof (induction ts arbitrary: l)
  case (Cons t ts)
  let ?m = "if l = 0 then t else if t > l then t else l"
  have m: "?m = max l t" using Cons.prems by auto
  have "Max (insert (max l t) (set ts)) = Max (insert l (insert t (set ts)))"
    by (cases "set ts = {}") (simp_all add: max.assoc)
  moreover have "0 \<le> max l t" using Cons.prems by (simp add: le_max_iff_disj)
  ultimately show ?case
    using Cons.IH [of "max l t"] Cons.prems m by simp
qed simp

lemma newest_time_Max:
  assumes "\<forall>t \<in> set ts. 0 < t" and "ts \<noteq> []"
  shows "newest_time ts = Max (set ts)"
proof -
  have "newest_time ts = max 0 (Max (set ts))"
    using newest_time_fold [OF assms(1), of 0] assms(2) by (simp add: newest_time_def)
  moreover have "0 < Max (set ts)"
    using assms by (simp add: Max_gr_iff) (metis last_in_set)
  ultimately show ?thesis by simp
qed

section \<open>Completed testcases and billing\<close>

definition amount_of :: "string \<Rightarrow> lmdb \<Rightarrow> int" where
  "amount_of r s = sum_list (map snd (filter (\<lambda>b. fst b = r) (billing s)))"

lemma amount_add:
  assumes "distinct (map fst (billing s))" and "r \<in> fst ` set (billing s)"
  shows "amount_of r (add_to_resource r n s) = amount_of r s + n"
proof -
  let ?f = "\<lambda>(q, v). (q, if q = r then v + n else v)"
  have absent: "filter (\<lambda>b. fst b = r) (map ?f bs) = []" "filter (\<lambda>b. fst b = r) bs = []"
    if "r \<notin> fst ` set bs" for bs :: "(string \<times> int) list"
    using that by (force simp: filter_empty_conv)+
  have "distinct (map fst bs) \<Longrightarrow> r \<in> fst ` set bs \<Longrightarrow>
      sum_list (map snd (filter (\<lambda>b. fst b = r) (map ?f bs))) =
      sum_list (map snd (filter (\<lambda>b. fst b = r) bs)) + n" for bs :: "(string \<times> int) list"
  proof (induction bs)
    case (Cons b bs)
    obtain q v where b: "b = (q, v)" by fastforce
    show ?case
    proof (cases "q = r")
      case True
      with Cons.prems b have "r \<notin> fst ` set bs" by auto
      with absent [OF this] True b show ?thesis by (simp add: o_def)
    next
      case False
      with Cons b show ?thesis by simp
    qed
  qed simp
  from this [OF assms] show ?thesis
    by (simp add: amount_of_def add_to_resource_def del: map_map)
qed

end
