(* ===== verification/LMHandlers.thy ===== *)
theory LMHandlers
  imports LMLimits "HOL-Library.Signed_Division"
begin

text \<open>
  The message handlers of the local manager: evaluations, registration and welcome of agents,
  configuration, and the reports of generators and runners. A handler works on the database,
  on the agent it runs in (files, network) and, for evaluations, on a cache of completed
  testcases. \<open>None\<close> is the exit of the process (a ZeroMQ error, an unparsable percentage, a
  division by zero) or a wait for the garbage collector that never ends.
\<close>

record lm =
  lm_db :: lmdb
  lm_agent :: agent
  m_completedTestcases_notYetPushedToDB :: "FluffiTestcaseID list"
  m_timeOfLastFlush :: int

record lm_config =
  m_testcaseDir :: string
  m_forceFlushAfterMS :: int
  m_mylocation :: string
  m_myfuzzjob :: string

section \<open>Evaluations\<close>

text \<open>The cache is a \<open>std::set\<close>; the clock is read only when the size does not decide.\<close>

definition markTestcaseAsCompleted ::
    "dbenv \<Rightarrow> env \<Rightarrow> int \<Rightarrow> FluffiTestcaseID \<Rightarrow> lm \<Rightarrow> bool \<times> lm" where
  "markTestcaseAsCompleted D E forceFlushAfterMS testcaseID st =
     (let cs = set_insert tid_key testcaseID (m_completedTestcases_notYetPushedToDB st);
          st = st\<lparr>m_completedTestcases_notYetPushedToDB := cs\<rparr>;
          now = env_clock E (tick (lm_agent st))
      in if length cs > 100 \<or> now - m_timeOfLastFlush st > forceFlushAfterMS
         then (let (success, db) = addEntriesToCompletedTestcasesTable D cs (lm_db st);
                   st = st\<lparr>lm_db := db, lm_agent := next_tick (lm_agent st)\<rparr>
               in if success
                  then (True, st\<lparr>m_completedTestcases_notYetPushedToDB := [],
                          m_timeOfLastFlush := env_clock E (tick (lm_agent st))\<rparr>)
                  else (False, st))
         else (True, st\<lparr>lm_agent := next_tick (lm_agent st)\<rparr>))"

definition tcType_of :: "ExitType \<Rightarrow> TestCaseType" where
  "tcType_of e = (case e of CleanExit \<Rightarrow> Population | Hang \<Rightarrow> Hang_type
     | Exception_AccessViolation \<Rightarrow> Exception_AccessViolation_type
     | Exception_Other \<Rightarrow> Exception_Other_type | _ \<Rightarrow> Exception_Other_type)"

definition lift_db :: "(lmdb \<Rightarrow> 'r \<times> lmdb) \<Rightarrow> lm \<Rightarrow> 'r \<times> lm" where
  "lift_db f st = (let (r, db) = f (lm_db st) in (r, st\<lparr>lm_db := db\<rparr>))"

text \<open>
  The branch \<open>Keep\<close> from the insertion of the testcase on: crashes get a description; a new
  population entry is locked until its blocks are stored.
\<close>

definition keep_testcase ::
    "dbenv \<Rightarrow> string \<Rightarrow> PutTestEvaluationRequest_t \<Rightarrow> lm \<Rightarrow> bool \<times> lm" where
  "keep_testcase D testcaseDir req st =
     (let testcaseID = tid_of_proto (opt_or default_TestcaseID (pte_id req));
          parentTestcaseID = tid_of_proto (opt_or default_TestcaseID (pte_parentId req));
          result = opt_or default_TestResult (pte_result req);
          tcType = tcType_of (tr_exitType result);
          (success, db, a) = addEntryToInterestingTestcasesTable D testcaseID parentTestcaseID
            (if tcType = Population then defaultInitialPopulationRating else 0) testcaseDir
            (if tcType = Population then Locked else tcType) (lm_db st) (lm_agent st);
          st = st\<lparr>lm_db := db, lm_agent := a\<rparr>
      in if \<not> success then (False, st)
         else if tcType = Exception_AccessViolation_type \<or> tcType = Exception_Other_type then
           lift_db (addEntryToCrashDescriptionsTable D testcaseID (tr_crashFootprint result)) st
         else if tcType = Population then
           (let blocksAsSet = set_of_list (\<lambda>b. b) (map block_of_proto (tr_blocks result));
                (success, st) = lift_db (addBlocksToCoveredBlocks D testcaseID blocksAsSet) st
            in if \<not> success then (False, st)
               else lift_db (setTestcaseType D testcaseID Population) st)
         else (True, st))"

definition puttestevaluationrequest :: "FLUFFIMessage \<Rightarrow> PutTestEvaluationRequest_t" where
  "puttestevaluationrequest m = (case m of PutTestEvaluationRequest r \<Rightarrow> r
     | _ \<Rightarrow> \<lparr>pte_id = None, pte_parentId = None, pte_eval = Keep, pte_parentRatingDelta = 0,
            pte_result = None, pte_testCaseFirstChunk = '''', pte_isLastChunk = False,
            pte_sdOfEvaluator = None\<rparr>)"

definition PutTestEvaluationRequestHandler ::
    "dbenv \<Rightarrow> env \<Rightarrow> lm_config \<Rightarrow> FLUFFIMessage \<Rightarrow> lm \<Rightarrow> (FLUFFIMessage \<times> lm) option" where
  "PutTestEvaluationRequestHandler D E cfg m st =
     (let req = puttestevaluationrequest m;
          testcaseID = tid_of_proto (opt_or default_TestcaseID (pte_id req));
          parentTestcaseID = tid_of_proto (opt_or default_TestcaseID (pte_parentId req));
          respond = (\<lambda>(success, st). (PutTestEvaluationResponse success, st));
          (success, st) = markTestcaseAsCompleted D E (m_forceFlushAfterMS cfg) testcaseID st
      in if \<not> success then Some (respond (False, st))
         else
           let (success, st) = lift_db (addDeltaToTestcaseRating D parentTestcaseID
                 (pte_parentRatingDelta req)) st
           in if \<not> success then Some (respond (False, st))
              else case pte_eval req of
                Keep \<Rightarrow>
                  do {
                    (success, a) \<leftarrow> storeTestcaseFileOnDisk E testcaseID (m_testcaseDir cfg)
                      (pte_testCaseFirstChunk req) (pte_isLastChunk req)
                      (sd_serviceHostAndPort (opt_or default_ServiceDescriptor (pte_sdOfEvaluator req)))
                      (lm_agent st);
                    let st = st\<lparr>lm_agent := a\<rparr>;
                    Some (respond (if \<not> success then (False, st)
                                   else keep_testcase D (m_testcaseDir cfg) req st))
                  }
              | _ \<Rightarrow> Some (respond (True, st)))"

section \<open>Reports\<close>

definition ReportNewMutationsRequestHandler :: "dbenv \<Rightarrow> FLUFFIMessage \<Rightarrow> lm \<Rightarrow> FLUFFIMessage \<times> lm" where
  "ReportNewMutationsRequestHandler D m st =
     (let (i, n) = (case m of ReportNewMutationsRequest i n \<Rightarrow> (i, n) | _ \<Rightarrow> (None, 0));
          (success, st) = lift_db (addDeltaToTestcaseRating D
             (tid_of_proto (opt_or default_TestcaseID i)) (0 - n)) st
      in (ReportNewMutationsResponse success, st))"

definition ReportTestcaseWithNoResultRequestHandler ::
    "dbenv \<Rightarrow> env \<Rightarrow> lm_config \<Rightarrow> ReportTestcaseWithNoResultRequest_t \<Rightarrow> lm \<Rightarrow> (FLUFFIMessage \<times> lm) option" where
  "ReportTestcaseWithNoResultRequestHandler D E cfg req st =
     (let i = opt_or default_TestcaseID (rnr_id req) in
      do {
        (success, a) \<leftarrow> storeTestcaseFileOnDisk E (tid_of_proto i) (m_testcaseDir cfg)
          (rnr_testCaseFirstChunk req) (rnr_isLastChunk req)
          (sd_serviceHostAndPort (opt_or default_ServiceDescriptor (tid_serviceDescriptor i)))
          (lm_agent st);
        let st = st\<lparr>lm_agent := a\<rparr>;
        Some (if \<not> success then (ReportTestcaseWithNoResultResponse False, st)
              else let (success, db, a) = addEntryToInterestingTestcasesTable D (tid_of_proto i)
                     (tid_of_proto (opt_or default_TestcaseID (rnr_parentId req))) 0
                     (m_testcaseDir cfg) NoResponse (lm_db st) (lm_agent st)
                   in (ReportTestcaseWithNoResultResponse success, st\<lparr>lm_db := db, lm_agent := a\<rparr>))
      })"

section \<open>Answers from the database\<close>

definition GetNewCompletedTestcaseIDsRequestHandler :: "dbenv \<Rightarrow> FLUFFIMessage \<Rightarrow> lm \<Rightarrow> FLUFFIMessage \<times> lm" where
  "GetNewCompletedTestcaseIDsRequestHandler D m st =
     (let timestamp = (case m of GetNewCompletedTestcaseIDsRequest t \<Rightarrow> sint t | _ \<Rightarrow> 0);
          ((t, ids), st) = lift_db (generateGetNewCompletedTestcaseIDsResponse D timestamp) st
      in (GetNewCompletedTestcaseIDsResponse (word_of_int t) ids, st))"

definition GetTestcaseToMutateRequestHandler ::
    "dbenv \<Rightarrow> env \<Rightarrow> lm_config \<Rightarrow> FLUFFIMessage \<Rightarrow> lm \<Rightarrow> FLUFFIMessage \<times> lm" where
  "GetTestcaseToMutateRequestHandler D E cfg m st =
     (let (r, db, a) = generateGetTestcaseToMutateResponse D E (m_testcaseDir cfg) (lm_db st) (lm_agent st)
      in (GetTestcaseToMutateResponse r, st\<lparr>lm_db := db, lm_agent := a\<rparr>))"

definition GetCurrentBlockCoverageRequestHandler :: "dbenv \<Rightarrow> FLUFFIMessage \<Rightarrow> lm \<Rightarrow> FLUFFIMessage \<times> lm" where
  "GetCurrentBlockCoverageRequestHandler D m st =
     (let (bs, st) = lift_db (generateGetCurrentBlockCoverageResponse D) st
      in (GetCurrentBlockCoverageResponse bs, st))"

definition GetLMConfigurationRequestHandler :: "FluffiLMConfiguration \<Rightarrow> FLUFFIMessage \<Rightarrow> lm \<Rightarrow> FLUFFIMessage \<times> lm" where
  "GetLMConfigurationRequestHandler conf m st =
     (GetLMConfigurationResponse (Some (lmconfig_getProtobuf conf)), st)"

definition GetFuzzJobConfigurationRequestHandler :: "dbenv \<Rightarrow> FLUFFIMessage \<Rightarrow> lm \<Rightarrow> FLUFFIMessage \<times> lm" where
  "GetFuzzJobConfigurationRequestHandler D m st =
     (let (modules, st) = lift_db (getTargetModules D) st;
          (blocks, st) = lift_db (getTargetBlocks D) st;
          (sets, st) = lift_db (getAllSettings D) st;
          fsd = sd_of_proto (opt_or default_ServiceDescriptor
            (case m of GetFuzzJobConfigurationRequest d \<Rightarrow> d | _ \<Rightarrow> None));
          (selectedSubType, st) = lift_db (getRegisteredInstanceSubType D (m_guid fsd)) st
      in (GetFuzzJobConfigurationResponse (map module_getProtobuf modules) (map block_getProtobuf blocks)
            (map setting_getProtobuf sets @
             [setting_getProtobuf \<lparr>m_settingName = ''chosenSubtype'', m_settingValue = selectedSubType\<rparr>]), st))"

section \<open>Registration\<close>

definition setting_value :: "string \<Rightarrow> FluffiSetting list \<Rightarrow> string option" where
  "setting_value name sets = map_option m_settingValue (find (\<lambda>s. m_settingName s = name) sets)"

text \<open>\<open>A=50|B=50\<close>: pieces without exactly one \<open>=\<close> are skipped; a bad number ends the process.\<close>

fun desired_of_pieces :: "string list \<Rightarrow> (string \<times> int) list option" where
  "desired_of_pieces [] = Some []"
| "desired_of_pieces (p # ps) =
     (case splitString p ''='' of
        [name, num] \<Rightarrow>
          do {
            n \<leftarrow> stoi num;
            rest \<leftarrow> desired_of_pieces ps;
            Some ((name, n) # rest)
          }
      | _ \<Rightarrow> desired_of_pieces ps)"

definition desiredSubTypes :: "AgentType \<Rightarrow> FluffiSetting list \<Rightarrow> (string \<times> int) list option" where
  "desiredSubTypes type sets =
     (case type of
        TestcaseGenerator \<Rightarrow> (case setting_value ''generatorTypes'' sets of None \<Rightarrow> Some []
          | Some v \<Rightarrow> desired_of_pieces (splitString v ''|''))
      | TestcaseEvaluator \<Rightarrow> (case setting_value ''evaluatorTypes'' sets of None \<Rightarrow> Some []
          | Some v \<Rightarrow> desired_of_pieces (splitString v ''|''))
      | TestcaseRunner \<Rightarrow> Some (case setting_value ''runnerType'' sets of None \<Rightarrow> [] | Some v \<Rightarrow> [(v, 100)])
      | _ \<Rightarrow> Some [])"

text \<open>Normalising to 100; dividing by a sum of zero kills the process.\<close>

definition normalize :: "(string \<times> int) list \<Rightarrow> (string \<times> int) list option" where
  "normalize xs =
     (let sumOfAllSubtypes = sum_list (map snd xs) in
      if xs = [] then Some []
      else if sumOfAllSubtypes = 0 then None
      else Some (map (\<lambda>(t, v). (t, v * 100 sdiv sumOfAllSubtypes)) xs))"

definition subtypeDiffs ::
    "(string \<times> int) list \<Rightarrow> (string \<times> int) list \<Rightarrow> string list \<Rightarrow> (string \<times> int) list" where
  "subtypeDiffs desired current implementedSubtypes =
     fold (\<lambda>t ds. case map_of desired t of None \<Rightarrow> ds
            | Some d \<Rightarrow> set_insert fst (t, d - opt_or 0 (map_of current t)) ds)
       implementedSubtypes []"

definition most_needed :: "(string \<times> int) list \<Rightarrow> string" where
  "most_needed diffs =
     fst (fold (\<lambda>(t, v) (maxIndex, maxValue). if v > maxValue then (t, v) else (maxIndex, maxValue))
       diffs ('''', -200))"

definition decideSubAgentType ::
    "dbenv \<Rightarrow> AgentType \<Rightarrow> string list \<Rightarrow> lmdb \<Rightarrow> (string \<times> lmdb) option" where
  "decideSubAgentType D type implementedSubtypes s =
     (let (sets, s) = getAllSettings D s in
      if type \<notin> {TestcaseGenerator, TestcaseEvaluator, TestcaseRunner} then Some ('''', s)
      else do {
        desired \<leftarrow> desiredSubTypes type sets;
        if desired = [] then Some ('''', s)
        else do {
          desired \<leftarrow> normalize desired;
          let (current, s) = getRegisteredInstancesNumOfSubTypes D s;
          current \<leftarrow> normalize current;
          Some (most_needed (subtypeDiffs desired current implementedSubtypes), s)
        }
      })"

definition registeratlmrequest :: "FLUFFIMessage \<Rightarrow> RegisterRequest_t" where
  "registeratlmrequest m = (case m of RegisterAtLMRequest r \<Rightarrow> r
     | _ \<Rightarrow> \<lparr>reg_type = TestcaseGenerator, reg_implementedAgentSubTypes = [],
            reg_serviceDescriptor = None, reg_location = ''''\<rparr>)"

definition RegisterAtLMRequestHandler ::
    "dbenv \<Rightarrow> lm_config \<Rightarrow> FLUFFIMessage \<Rightarrow> lm \<Rightarrow> (FLUFFIMessage \<times> lm) option" where
  "RegisterAtLMRequestHandler D cfg m st =
     (let req = registeratlmrequest m;
          type = reg_type req;
          fsd = sd_of_proto (opt_or default_ServiceDescriptor (reg_serviceDescriptor req));
          respond = (\<lambda>(success, st).
            (RegisterAtLMResponse success (if success then m_myfuzzjob cfg else ''''), st))
      in if reg_location req \<noteq> m_mylocation cfg then Some (respond (False, st))
         else
           let (subtype, st) = lift_db (getRegisteredInstanceSubType D (m_guid fsd)) st in
           if subtype \<noteq> '''' then Some (respond (True, st))
           else if type \<notin> {TestcaseGenerator, TestcaseRunner, TestcaseEvaluator}
           then Some (respond (False, st))
           else do {
             (selected, db) \<leftarrow> decideSubAgentType D type (reg_implementedAgentSubTypes req) (lm_db st);
             let st = st\<lparr>lm_db := db\<rparr>;
             Some (respond (if selected = '''' then (False, st)
               else lift_db (writeManagedInstance D fsd type selected (reg_location req)) st))
           })"

definition acceptedAgentSubTypes :: "AgentType \<Rightarrow> FluffiSetting list \<Rightarrow> string list" where
  "acceptedAgentSubTypes type sets =
     (let pieces = (\<lambda>name. case setting_value name sets of None \<Rightarrow> []
            | Some v \<Rightarrow> set_of_list (\<lambda>x. x) (map (\<lambda>p. hd (splitString p ''='')) (splitString v ''|'')))
      in case type of
           TestcaseGenerator \<Rightarrow> pieces ''generatorTypes''
         | TestcaseEvaluator \<Rightarrow> pieces ''evaluatorTypes''
         | TestcaseRunner \<Rightarrow> (case setting_value ''runnerType'' sets of None \<Rightarrow> [] | Some v \<Rightarrow> [v])
         | _ \<Rightarrow> [])"

definition IsAgentWelcomedRequestHandler :: "dbenv \<Rightarrow> FLUFFIMessage \<Rightarrow> lm \<Rightarrow> FLUFFIMessage \<times> lm" where
  "IsAgentWelcomedRequestHandler D m st =
     (let (type, implementedSubtypes) = (case m of IsAgentWelcomedRequest t sts \<Rightarrow> (t, sts)
            | _ \<Rightarrow> (TestcaseGenerator, []));
          (sets, st) = lift_db (getAllSettings D) st
      in (IsAgentWelcomedResponse
            (type \<in> {TestcaseGenerator, TestcaseRunner, TestcaseEvaluator} \<and>
             list_ex (\<lambda>t. t \<in> set (acceptedAgentSubTypes type sets)) implementedSubtypes), st))"

section \<open>Facts on evaluations\<close>

lemma lift_db_simps [simp]:
  "lm_db (snd (lift_db f st)) = snd (f (lm_db st))"
  "lm_agent (snd (lift_db f st)) = lm_agent st"
  "m_completedTestcases_notYetPushedToDB (snd (lift_db f st)) = m_completedTestcases_notYetPushedToDB st"
  "fst (lift_db f st) = fst (f (lm_db st))"
  by (simp_all add: lift_db_def Let_def split_beta)

definition request_id :: "PutTestEvaluationRequest_t \<Rightarrow> FluffiTestcaseID" where
  "request_id req = tid_of_proto (opt_or default_TestcaseID (pte_id req))"

definition request_parent :: "PutTestEvaluationRequest_t \<Rightarrow> FluffiTestcaseID" where
  "request_parent req = tid_of_proto (opt_or default_TestcaseID (pte_parentId req))"

definition request_result :: "PutTestEvaluationRequest_t \<Rightarrow> TestResult" where
  "request_result req = opt_or default_TestResult (pte_result req)"

definition request_blocks :: "PutTestEvaluationRequest_t \<Rightarrow> (8 word \<times> 64 word) set" where
  "request_blocks req = stored_block ` set (map block_of_proto (tr_blocks (request_result req)))"

text \<open>The three steps that store a population entry, and the states between them.\<close>

lemma keep_population_cases:
  assumes wf: "db_wf (lm_db st)" and clean: "tcType_of (tr_exitType (request_result req)) = Population"
    and run: "keep_testcase D dir req st = (ok, st')"
  obtains ok1 db1 a1 ok2 db2 ok3 db3 where
    "addEntryToInterestingTestcasesTable D (request_id req) (request_parent req)
       defaultInitialPopulationRating dir Locked (lm_db st) (lm_agent st) = (ok1, db1, a1)"
    "addBlocksToCoveredBlocks D (request_id req)
       (set_of_list (\<lambda>b. b) (map block_of_proto (tr_blocks (request_result req)))) db1 = (ok2, db2)"
    "setTestcaseType D (request_id req) Population db2 = (ok3, db3)"
    "db_wf db1" "db_wf db2" "ok \<longleftrightarrow> ok1 \<and> ok2 \<and> ok3" "lm_agent st' = a1"
    "lm_db st' = (if \<not> ok1 then db1 else if \<not> ok2 then db2 else db3)"
proof -
  let ?add = "addEntryToInterestingTestcasesTable D (request_id req) (request_parent req)
       defaultInitialPopulationRating dir Locked (lm_db st) (lm_agent st)"
  let ?bs = "set_of_list (\<lambda>b. b) (map block_of_proto (tr_blocks (request_result req)))"
  obtain ok1 db1 a1 where add: "?add = (ok1, db1, a1)" by (cases ?add) auto
  have wf1: "db_wf db1" using addEntryToInteresting_wf [OF wf] add by (metis fst_conv snd_conv)
  obtain ok2 db2 where cov: "addBlocksToCoveredBlocks D (request_id req) ?bs db1 = (ok2, db2)" by fastforce
  have wf2: "db_wf db2" using addBlocks_wf [OF wf1] cov by (metis snd_conv)
  obtain ok3 db3 where sty: "setTestcaseType D (request_id req) Population db2 = (ok3, db3)" by fastforce
  have "ok \<longleftrightarrow> ok1 \<and> ok2 \<and> ok3" "lm_agent st' = a1"
      "lm_db st' = (if \<not> ok1 then db1 else if \<not> ok2 then db2 else db3)"
    using run clean add cov sty
    by (auto simp: keep_testcase_def Let_def lift_db_def request_id_def request_parent_def
        request_result_def split: if_splits)
  with that add cov sty wf1 wf2 show ?thesis by blast
qed

lemma keep_population_complete:
  assumes wf: "db_wf (lm_db st)" and clean: "tcType_of (tr_exitType (request_result req)) = Population"
    and run: "keep_testcase D dir req st = (ok, st')"
    and v: "db_view (lm_db st') (tid_key (request_id req)) = Some v" "v_type v = Population"
    and new: "\<And>v. db_view (lm_db st) (tid_key (request_id req)) = Some v \<Longrightarrow> v_type v \<noteq> Population"
  shows "v_blocks v = request_blocks req"
proof -
  let ?k = "tid_key (request_id req)"
  from wf clean run show ?thesis
  proof (cases rule: keep_population_cases)
    case (1 ok1 db1 a1 ok2 db2 ok3 db3)
    have locked: "\<And>w. ok1 \<Longrightarrow> db_view db1 ?k = Some w \<Longrightarrow> v_type w = Locked \<and> v_blocks w = {}"
      using addEntryToInteresting_view(5) [OF wf 1(1)] by (auto simp: new_view_def)
    have blocks: "db_view db2 = (if ok2 then modify (\<lambda>v. v\<lparr>v_blocks := v_blocks v \<union> request_blocks req\<rparr>) ?k
        (db_view db1) else db_view db1)"
      using addBlocks_view(1) [OF 1(4,2)] by (simp add: request_blocks_def set_of_list_set)
    have ty3: "db_view db3 = (if ok3 then modify (\<lambda>v. v\<lparr>v_type := Population\<rparr>) ?k (db_view db2)
        else db_view db2)"
      by (rule setTestcaseType_view [OF 1(5,3)])
    show ?thesis
    proof (cases ok1)
      case False
      then have "db_view (lm_db st') = db_view (lm_db st)"
        using addEntryToInteresting_view(1) [OF wf 1(1)] 1(8) by simp
      with v new show ?thesis by simp
    next
      case True
      then have st': "lm_db st' = (if ok2 then db3 else db2)" using 1(8) by simp
      show ?thesis
      proof (cases "db_view db1 ?k")
        case None
        then have "db_view (lm_db st') ?k = None"
          by (simp add: st' blocks ty3 modify_apply)
        with v(1) show ?thesis by simp
      next
        case (Some w)
        from locked [OF True Some] have w: "v_type w = Locked" "v_blocks w = {}" by simp_all
        have v2: "db_view db2 ?k = Some (if ok2 then w\<lparr>v_blocks := request_blocks req\<rparr> else w)"
          by (simp add: blocks modify_apply Some w(2))
        show ?thesis
          using v w(1) v2 by (cases ok2; cases ok3) (auto simp: st' ty3 modify_apply)
      qed
    qed
  qed
qed

text \<open>With a server that carries out every statement, a kept clean run is stored completely.\<close>

lemma keep_population_stored:
  assumes wf: "db_wf (lm_db st)" and clean: "tcType_of (tr_exitType (request_result req)) = Population"
    and run: "keep_testcase D dir req st = (ok, st')" and all: "\<And>n. db_ok D n"
    and ok: ok
  shows "db_view (lm_db st') = (db_view (lm_db st))(tid_key (request_id req) \<mapsto>
    \<lparr>v_parent = parent_to_set (lm_db st) (request_id req) (request_parent req),
     v_rating = defaultInitialPopulationRating,
     v_bytes = loadTestcaseInMemory (request_id req) dir (lm_agent st),
     v_type = Population, v_blocks = request_blocks req, v_crash = None\<rparr>)"
  using wf clean run
proof (cases rule: keep_population_cases)
  case (1 ok1 db1 a1 ok2 db2 ok3 db3)
  have "db_view db1 = (db_view (lm_db st))(tid_key (request_id req) \<mapsto>
      new_view (parent_to_set (lm_db st) (request_id req) (request_parent req))
        defaultInitialPopulationRating (loadTestcaseInMemory (request_id req) dir (lm_agent st)) Locked)"
    using addEntryToInteresting_view(3) [OF wf 1(1) all] by simp
  moreover have "db_view db2 = modify (\<lambda>v. v\<lparr>v_blocks := v_blocks v \<union> request_blocks req\<rparr>)
      (tid_key (request_id req)) (db_view db1)"
    using addBlocks_view(1) [OF 1(4,2)] ok 1(6) by (simp add: request_blocks_def set_of_list_set)
  moreover have "db_view db3 = modify (\<lambda>v. v\<lparr>v_type := Population\<rparr>) (tid_key (request_id req)) (db_view db2)"
    using setTestcaseType_view [OF 1(5,3)] ok 1(6) by simp
  ultimately show ?thesis
    using ok 1(6,8) by (simp add: modify_def new_view_def)
qed

section \<open>The cache of completed testcases\<close>

definition completed_keys :: "lmdb \<Rightarrow> (string \<times> 64 word) set" where
  "completed_keys s = (\<lambda>r. (ct_CreatorGUID r, ct_CreatorLocalID r)) ` set (completed_testcases s)"

definition reported_keys :: "lm \<Rightarrow> (string \<times> 64 word) set" where
  "reported_keys st =
     tid_key ` set (m_completedTestcases_notYetPushedToDB st) \<union> completed_keys (lm_db st)"

lemma fold_insert_completed:
  "completed_keys (fold (\<lambda>t. insert_completed t now) ts s) = completed_keys s \<union> tid_key ` set ts"
  by (induction ts arbitrary: s) (auto simp: completed_keys_def insert_completed_def tid_key_def)

lemma addEntries_keys:
  assumes "addEntriesToCompletedTestcasesTable D ts s = (ok, s')"
  shows "completed_keys s' = completed_keys s \<union> (if ok then tid_key ` set ts else {})"
proof -
  have c: "completed_keys (u\<lparr>stmt_no := n\<rparr>) = completed_keys u" for u n
    by (simp add: completed_keys_def)
  show ?thesis
    using assms by (auto simp: addEntriesToCompletedTestcasesTable_def Let_def exec_stmt_def set_isolation_def
        fold_insert_completed c split: if_splits)
qed

lemma markTestcaseAsCompleted_cases:
  assumes "markTestcaseAsCompleted D E force t st = (ok, st')"
  obtains (cached) "ok" "lm_db st' = lm_db st" "m_completedTestcases_notYetPushedToDB st' =
      set_insert tid_key t (m_completedTestcases_notYetPushedToDB st)"
      "length (m_completedTestcases_notYetPushedToDB st') \<le> 100"
  | (flush) db where "addEntriesToCompletedTestcasesTable D
      (set_insert tid_key t (m_completedTestcases_notYetPushedToDB st)) (lm_db st) = (ok, db)"
      "lm_db st' = db" "m_completedTestcases_notYetPushedToDB st' =
        (if ok then [] else set_insert tid_key t (m_completedTestcases_notYetPushedToDB st))"
proof -
  let ?cs = "set_insert tid_key t (m_completedTestcases_notYetPushedToDB st)"
  obtain ok2 db where add: "addEntriesToCompletedTestcasesTable D ?cs (lm_db st) = (ok2, db)" by fastforce
  show ?thesis
  proof (cases "length ?cs > 100 \<or> env_clock E (tick (lm_agent st)) - m_timeOfLastFlush st > force")
    case True
    then have "ok = ok2" "lm_db st' = db"
        "m_completedTestcases_notYetPushedToDB st' = (if ok2 then [] else ?cs)"
      using assms by (cases ok2; auto simp: markTestcaseAsCompleted_def Let_def add)+
    with add show ?thesis by (intro flush) simp_all
  next
    case False
    with assms have "ok" "st' = st\<lparr>m_completedTestcases_notYetPushedToDB := ?cs,
        lm_agent := next_tick (lm_agent st)\<rparr>"
      by (simp_all add: markTestcaseAsCompleted_def Let_def)
    with False show ?thesis by (intro cached) simp_all
  qed
qed

lemma markTestcaseAsCompleted_keys:
  assumes "markTestcaseAsCompleted D E force t st = (ok, st')"
  shows "reported_keys st' = insert (tid_key t) (reported_keys st)"
proof -
  have keys: "tid_key ` set (set_insert tid_key t cs) = insert (tid_key t) (tid_key ` set cs)" for cs
    by (rule set_insert_keys)
  from assms show ?thesis
  proof (cases rule: markTestcaseAsCompleted_cases)
    case cached
    then show ?thesis by (simp add: reported_keys_def keys)
  next
    case (flush db)
    with addEntries_keys [OF flush(1)] keys show ?thesis
      by (cases ok) (auto simp: reported_keys_def)
  qed
qed

lemma markTestcaseAsCompleted_bound:
  assumes "markTestcaseAsCompleted D E force t st = (True, st')"
  shows "length (m_completedTestcases_notYetPushedToDB st') \<le> 100"
  by (cases rule: markTestcaseAsCompleted_cases [OF assms]) simp_all

lemma markTestcaseAsCompleted_oset:
  assumes "markTestcaseAsCompleted D E force t st = (ok, st')"
    and "oset_by tid_key (m_completedTestcases_notYetPushedToDB st)"
  shows "oset_by tid_key (m_completedTestcases_notYetPushedToDB st')"
  using set_insert_oset [OF assms(2), of t]
  by (cases rule: markTestcaseAsCompleted_cases [OF assms(1)]) simp_all

text \<open>A single identifier whose GUID is too long for the bulk insert blocks every later flush.\<close>

lemma markTestcaseAsCompleted_blocked:
  assumes long: "x \<in> set (m_completedTestcases_notYetPushedToDB st)" "50 \<le> length (tid_guid x)"
    and due: "m_forceFlush < env_clock E (tick (lm_agent st)) - m_timeOfLastFlush st"
  shows "fst (markTestcaseAsCompleted D E m_forceFlush t st) = False"
    and "x \<in> set (m_completedTestcases_notYetPushedToDB (snd (markTestcaseAsCompleted D E m_forceFlush t st)))"
proof -
  have x: "x \<in> set (set_insert tid_key t (m_completedTestcases_notYetPushedToDB st))"
    using long(1) set_insert_superset by (metis subsetD)
  then have "list_ex (\<lambda>t. 50 \<le> length (tid_guid t))
      (set_insert tid_key t (m_completedTestcases_notYetPushedToDB st))"
    using long(2) by (auto simp: list_ex_iff)
  with due x show "fst (markTestcaseAsCompleted D E m_forceFlush t st) = False"
    and "x \<in> set (m_completedTestcases_notYetPushedToDB (snd (markTestcaseAsCompleted D E m_forceFlush t st)))"
    by (simp_all add: markTestcaseAsCompleted_def Let_def split_beta addEntriesToCompletedTestcasesTable_def)
qed

section \<open>Facts on registration\<close>

lemma most_needed_fold:
  "let (m, v) = fold (\<lambda>(t, v) (maxIndex, maxValue). if v > maxValue then (t, v) else (maxIndex, maxValue))
      diffs (m0, v0 :: int)
   in (m, v) \<in> insert (m0, v0) (set diffs) \<and> v0 \<le> v \<and> (\<forall>(t, w) \<in> set diffs. w \<le> v)"
proof (induction diffs arbitrary: m0 v0)
  case (Cons d ds)
  obtain t w where d: "d = (t, w)" by fastforce
  have "let (m, v) = fold (\<lambda>(t, v) (maxIndex, maxValue). if v > maxValue then (t, v) else (maxIndex, maxValue))
      ds (if w > v0 then (t, w) else (m0, v0))
    in (m, v) \<in> insert (if w > v0 then (t, w) else (m0, v0)) (set ds) \<and>
      (if w > v0 then w else v0) \<le> v \<and> (\<forall>(t, w) \<in> set ds. w \<le> v)"
    using Cons.IH [of t w] Cons.IH [of m0 v0] by simp
  then show ?case
    by (auto simp: d Let_def split: prod.splits if_splits)
qed simp

lemma most_needed_max:
  assumes "(t0, v0) \<in> set diffs" and "-200 < v0"
  obtains v where "(most_needed diffs, v) \<in> set diffs" and "\<forall>(t, w) \<in> set diffs. w \<le> v"
proof -
  obtain m v where f: "fold (\<lambda>(t, v) (maxIndex, maxValue). if v > maxValue then (t, v) else (maxIndex, maxValue))
      diffs ('''', -200) = (m, v)" by fastforce
  have mv: "(m, v) \<in> insert ('''', -200) (set diffs)" "\<forall>(t, w) \<in> set diffs. w \<le> v"
    using most_needed_fold [of diffs "''''" "-200"] unfolding f Let_def prod.case by blast+
  moreover from mv(2) assms have "-200 < v" by force
  ultimately have "(m, v) \<in> set diffs" by auto
  with that mv(2) show ?thesis by (simp add: most_needed_def f)
qed

lemma most_needed_Nil [simp]: "most_needed [] = ''''"
  by (simp add: most_needed_def)

lemma subtypeDiffs_keys:
  "fst ` set (subtypeDiffs ds cs ts) = {t \<in> set ts. t \<in> fst ` set ds}"
proof -
  have "fst ` set (fold (\<lambda>t ds'. case map_of ds t of None \<Rightarrow> ds'
            | Some d \<Rightarrow> set_insert fst (t, d - opt_or 0 (map_of cs t)) ds') ts acc) =
      fst ` set acc \<union> {t \<in> set ts. t \<in> fst ` set ds}" for acc
  proof (induction ts arbitrary: acc)
    case (Cons t ts)
    show ?case
    proof (cases "map_of ds t")
      case None
      then have "t \<notin> fst ` set ds" by (simp add: map_of_eq_None_iff)
      with None Cons.IH [of acc] show ?thesis by auto
    next
      case (Some d)
      then have "t \<in> fst ` set ds" by (metis map_of_eq_None_iff option.distinct(1))
      moreover have "fst ` set (set_insert fst (t, d - opt_or 0 (map_of cs t)) acc) = insert t (fst ` set acc)"
        using set_insert_keys [of fst "(t, d - opt_or 0 (map_of cs t))" acc] by simp
      ultimately show ?thesis
        using Some Cons.IH [of "set_insert fst (t, d - opt_or 0 (map_of cs t)) acc"] by auto
    qed
  qed simp
  from this [of "[]"] show ?thesis by (simp add: subtypeDiffs_def)
qed

lemma subtypeDiffs_values:
  assumes "(t, v) \<in> set (subtypeDiffs ds cs ts)"
  shows "\<exists>d. map_of ds t = Some d \<and> v = d - opt_or 0 (map_of cs t)"
proof -
  have "(t, v) \<in> set (fold (\<lambda>t ds'. case map_of ds t of None \<Rightarrow> ds'
            | Some d \<Rightarrow> set_insert fst (t, d - opt_or 0 (map_of cs t)) ds') ts acc) \<Longrightarrow>
      (t, v) \<in> set acc \<or> (\<exists>d. map_of ds t = Some d \<and> v = d - opt_or 0 (map_of cs t))" for acc
  proof (induction ts arbitrary: acc)
    case (Cons u ts)
    show ?case
    proof (cases "map_of ds u")
      case None
      with Cons show ?thesis by simp
    next
      case (Some d)
      with Cons.prems Cons.IH [of "set_insert fst (u, d - opt_or 0 (map_of cs u)) acc"]
        set_insert_subset [of fst "(u, d - opt_or 0 (map_of cs u))" acc]
      show ?thesis by auto
    qed
  qed simp
  from this [of "[]"] assms show ?thesis by (simp add: subtypeDiffs_def)
qed

lemma normalize_bounds:
  assumes nn: "\<forall>(t, v) \<in> set xs. 0 \<le> v" and sum: "0 < sum_list (map snd xs)"
  obtains ys where "normalize xs = Some ys" "map fst ys = map fst xs" "\<forall>(t, v) \<in> set ys. 0 \<le> v \<and> v \<le> 100"
proof -
  let ?S = "sum_list (map snd xs)"
  have le: "v \<le> ?S" if "(t, v) \<in> set xs" for t v
    using that nn by (intro member_le_sum_list) (force simp: image_iff)+
  have b: "0 \<le> v * 100 sdiv ?S \<and> v * 100 sdiv ?S \<le> 100" if "(t, v) \<in> set xs" for t v
  proof -
    from that nn have v: "0 \<le> v" by auto
    have "v * 100 sdiv ?S = v * 100 div ?S"
      using v sum by (cases "v = 0") (simp_all add: signed_divide_int_def sgn_mult)
    moreover have "v * 100 div ?S \<le> ?S * 100 div ?S"
      using le [OF that] sum by (intro zdiv_mono1) auto
    ultimately show ?thesis
      using v sum by (simp add: pos_imp_zdiv_nonneg_iff)
  qed
  show ?thesis
  proof (rule that)
    show "normalize xs = Some (map (\<lambda>(t, v). (t, v * 100 sdiv ?S)) xs)"
      using sum by (auto simp: normalize_def Let_def)
  qed (use b in \<open>auto simp: split_beta\<close>)
qed

text \<open>Percentages as an operator should configure them.\<close>

definition percentages_ok :: "(string \<times> int) list \<Rightarrow> bool" where
  "percentages_ok ds \<longleftrightarrow> ds \<noteq> [] \<and> '''' \<notin> fst ` set ds \<and>
     (\<forall>(t, v) \<in> set ds. 0 \<le> v) \<and> 0 < sum_list (map snd ds)"

lemma counts_normalize:
  assumes "\<forall>(t, v) \<in> set cs. 0 < v"
  obtains ys where "normalize cs = Some ys" "\<forall>(t, v) \<in> set ys. 0 \<le> v \<and> v \<le> 100"
proof (cases "cs = []")
  case True
  then show ?thesis using that [of "[]"] by (simp add: normalize_def)
next
  case False
  then obtain c cs' where c: "cs = c # cs'" by (cases cs) auto
  have "0 \<le> sum_list (map snd cs')"
    using assms c by (intro sum_list_nonneg) fastforce
  then have "0 < sum_list (map snd cs)"
    using assms c by auto
  moreover have "\<forall>(t, v) \<in> set cs. 0 \<le> v" using assms by auto
  ultimately show ?thesis using normalize_bounds [of cs] that by blast
qed

lemma subtype_counts_pos:
  "\<forall>(t, v) \<in> set (fst (getRegisteredInstancesNumOfSubTypes D s)). 0 < v"
proof -
  have "0 < count_list ts t" if "t \<in> set ts" for ts and t :: string
    using that by (metis count_list_0_iff gr0I)
  then show ?thesis
    by (auto simp: getRegisteredInstancesNumOfSubTypes_def query_def)
qed

definition settings_of :: "lmdb \<Rightarrow> FluffiSetting list" where
  "settings_of s = map (\<lambda>(n, v). \<lparr>m_settingName = n, m_settingValue = v\<rparr>) (settings s)"

text \<open>
  With sane percentages the decision returns, and picks an implemented and desired type if
  there is one; otherwise it is empty.
\<close>

lemma decideSubAgentType_result:
  assumes ok: "db_ok D (stmt_no s)" and ty: "type \<in> {TestcaseGenerator, TestcaseEvaluator, TestcaseRunner}"
    and ds: "desiredSubTypes type (settings_of s) = Some ds" "percentages_ok ds"
  shows "\<exists>t s'. decideSubAgentType D type ts s = Some (t, s') \<and>
    (if \<exists>u \<in> set ts. u \<in> fst ` set ds then t \<in> set ts \<and> t \<in> fst ` set ds else t = '''')"
proof -
  have sets: "getAllSettings D s = (settings_of s, next_stmt s)"
    using ok by (simp add: getAllSettings_def query_def settings_of_def opt_or_def)
  let ?s = "next_stmt s"
  obtain cs s2 where cs: "getRegisteredInstancesNumOfSubTypes D ?s = (cs, s2)" by fastforce
  then have "\<forall>(t, v) \<in> set cs. 0 < v" using subtype_counts_pos [of D ?s] by simp
  then obtain nc where nc: "normalize cs = Some nc" "\<forall>(t, v) \<in> set nc. 0 \<le> v \<and> v \<le> 100"
    by (rule counts_normalize)
  from ds(2) obtain nd where nd: "normalize ds = Some nd" "map fst nd = map fst ds"
      "\<forall>(t, v) \<in> set nd. 0 \<le> v \<and> v \<le> 100"
    using normalize_bounds [of ds] unfolding percentages_ok_def by blast
  let ?diffs = "subtypeDiffs nd nc ts"
  have res: "decideSubAgentType D type ts s = Some (most_needed ?diffs, s2)"
    using ty ds by (auto simp: decideSubAgentType_def sets cs nc nd percentages_ok_def)
  have keys: "fst ` set ?diffs = {t \<in> set ts. t \<in> fst ` set ds}"
    using subtypeDiffs_keys [of nd nc ts] arg_cong [OF nd(2), of set] by simp
  show ?thesis
  proof (cases "\<exists>u \<in> set ts. u \<in> fst ` set ds")
    case True
    then obtain u where "u \<in> fst ` set ?diffs" unfolding keys by auto
    then obtain v where uv: "(u, v) \<in> set ?diffs" by auto
    from subtypeDiffs_values [OF this] obtain d where
      d: "map_of nd u = Some d" "v = d - opt_or 0 (map_of nc u)" by auto
    have "0 \<le> d" using nd(3) map_of_SomeD [OF d(1)] by auto
    moreover have "opt_or 0 (map_of nc u) \<le> 100"
      using nc(2) by (auto simp: opt_or_def split: option.splits dest!: map_of_SomeD)
    ultimately have "-200 < v" using d(2) by simp
    from most_needed_max [OF uv this] obtain w where "(most_needed ?diffs, w) \<in> set ?diffs" by metis
    then have "most_needed ?diffs \<in> fst ` set ?diffs" by force
    with res True show ?thesis by (auto simp: keys)
  next
    case False
    then have "fst ` set ?diffs = {}" unfolding keys by auto
    then have "?diffs = []" by simp
    with res False show ?thesis by simp
  qed
qed

text \<open>Every piece of the setting has the documented form \<open>name=number\<close>.\<close>

definition pieces_ok :: "string \<Rightarrow> FluffiSetting list \<Rightarrow> bool" where
  "pieces_ok name sets = (case setting_value name sets of None \<Rightarrow> True
     | Some v \<Rightarrow> list_all (\<lambda>p. length (splitString p ''='') = 2) (splitString v ''|''))"

lemma desired_of_pieces_names:
  "desired_of_pieces ps = Some ds \<Longrightarrow> \<forall>p \<in> set ps. length (splitString p ''='') = 2 \<Longrightarrow>
     map fst ds = map (\<lambda>p. hd (splitString p ''='')) ps"
proof (induction ps arbitrary: ds)
  case (Cons p ps)
  then have "length (splitString p ''='') = Suc (Suc 0)" by simp
  then obtain a b where "splitString p ''='' = [a, b]" by (auto simp: length_Suc_conv)
  with Cons show ?case by (auto split: bind_splits)
qed simp

lemma accepted_iff_desired:
  assumes ty: "type \<in> {TestcaseGenerator, TestcaseEvaluator, TestcaseRunner}"
    and ds: "desiredSubTypes type sets = Some ds"
    and form: "pieces_ok ''generatorTypes'' sets" "pieces_ok ''evaluatorTypes'' sets"
  shows "set (acceptedAgentSubTypes type sets) = fst ` set ds"
proof -
  have pieces: "set (case setting_value name sets of None \<Rightarrow> []
        | Some v \<Rightarrow> set_of_list (\<lambda>x. x) (map (\<lambda>p. hd (splitString p ''='')) (splitString v ''|''))) = fst ` set ds"
    if "pieces_ok name sets"
      "(case setting_value name sets of None \<Rightarrow> Some [] | Some v \<Rightarrow> desired_of_pieces (splitString v ''|'')) = Some ds"
    for name
  proof (cases "setting_value name sets")
    case (Some v)
    with that have "desired_of_pieces (splitString v ''|'') = Some ds"
        "\<forall>p \<in> set (splitString v ''|''). length (splitString p ''='') = 2"
      by (simp_all add: pieces_ok_def list_all_iff)
    from arg_cong [OF desired_of_pieces_names [OF this], of set] Some show ?thesis
      by (simp add: set_of_list_set)
  qed (use that in simp)
  consider "type = TestcaseGenerator" | "type = TestcaseEvaluator" | "type = TestcaseRunner"
    using ty by blast
  then show ?thesis
  proof cases
    case 1
    with pieces [OF form(1)] ds show ?thesis by (simp add: acceptedAgentSubTypes_def desiredSubTypes_def)
  next
    case 2
    with pieces [OF form(2)] ds show ?thesis by (simp add: acceptedAgentSubTypes_def desiredSubTypes_def)
  next
    case 3
    with ds show ?thesis
      by (auto simp: acceptedAgentSubTypes_def desiredSubTypes_def split: option.splits)
  qed
qed

lemma welcomed_iff_decided:
  assumes ok: "\<And>n. db_ok D n" and ty: "type \<in> {TestcaseGenerator, TestcaseEvaluator, TestcaseRunner}"
    and ds: "desiredSubTypes type (settings_of (lm_db st)) = Some ds" "percentages_ok ds"
    and form: "pieces_ok ''generatorTypes'' (settings_of (lm_db st))"
      "pieces_ok ''evaluatorTypes'' (settings_of (lm_db st))"
  shows "fst (IsAgentWelcomedRequestHandler D (IsAgentWelcomedRequest type ts) st) = IsAgentWelcomedResponse True \<longleftrightarrow>
    (\<exists>t s'. decideSubAgentType D type ts (lm_db st) = Some (t, s') \<and> t \<noteq> '''')"
proof -
  have sets: "fst (getAllSettings D (lm_db st)) = settings_of (lm_db st)"
    by (simp add: getAllSettings_def query_def settings_of_def opt_or_def ok)
  have "fst (IsAgentWelcomedRequestHandler D (IsAgentWelcomedRequest type ts) st) = IsAgentWelcomedResponse True
      \<longleftrightarrow> (\<exists>u \<in> set ts. u \<in> fst ` set ds)"
    using ty accepted_iff_desired [OF ty ds(1) form]
    by (auto simp: IsAgentWelcomedRequestHandler_def Let_def split_beta sets list_ex_iff)
  moreover have "'''' \<notin> fst ` set ds" using ds(2) by (simp add: percentages_ok_def)
  moreover obtain t s' where t: "decideSubAgentType D type ts (lm_db st) = Some (t, s')"
      "if \<exists>u \<in> set ts. u \<in> fst ` set ds then t \<in> set ts \<and> t \<in> fst ` set ds else t = ''''"
    using decideSubAgentType_result [OF ok ty ds, of ts] by blast
  ultimately have "fst (IsAgentWelcomedRequestHandler D (IsAgentWelcomedRequest type ts) st) =
      IsAgentWelcomedResponse True \<longleftrightarrow> t \<noteq> ''''"
    by (metis (full_types))
  with t(1) show ?thesis by simp
qed

text \<open>
  A registration that fails because the nice name is taken has still written the instance,
  so the next attempt of the same agent succeeds.
\<close>

lemma decideSubAgentType_frame:
  assumes "decideSubAgentType D ty ts s = Some (t, s')"
  shows "managed_instances s' = managed_instances s"
    and "nice_names_managed_instance s' = nice_names_managed_instance s"
proof -
  obtain sets where g: "getAllSettings D s = (sets, next_stmt s)"
    by (simp add: getAllSettings_def query_def)
  obtain cs where n: "getRegisteredInstancesNumOfSubTypes D (next_stmt s) = (cs, next_stmt (next_stmt s))"
    by (simp add: getRegisteredInstancesNumOfSubTypes_def query_def)
  have "s' = next_stmt s \<or> s' = next_stmt (next_stmt s)"
    using assms by (auto simp: decideSubAgentType_def g n split: bind_splits if_splits)
  then show "managed_instances s' = managed_instances s"
    and "nice_names_managed_instance s' = nice_names_managed_instance s" by auto
qed

lemma filter_key_single:
  "distinct (map f xs) \<Longrightarrow> x \<in> set xs \<Longrightarrow> filter (\<lambda>y. f y = f x) xs = [x]"
  by (induction xs) (auto simp: filter_empty_conv image_iff)

lemma instance_known:
  assumes wf: "db_wf s" and ok: "db_ok D (stmt_no s)" and m: "m \<in> set (managed_instances s)"
  shows "fst (getRegisteredInstanceSubType D (mi_GUID m) s) = mi_AgentSubType m"
proof -
  have d: "distinct (map mi_GUID (managed_instances s))" using wf by (simp add: db_wf_def instances_wf_def)
  have "filter (\<lambda>q. mi_GUID q = mi_GUID m) (managed_instances s) = [m]"
    by (rule filter_key_single [OF d m])
  then show ?thesis
    using ok by (simp add: getRegisteredInstanceSubType_def query_def)
qed

end
