(* ===== verification/LMEvaluation.thy ===== *)
theory LMEvaluation imports LMHandlers
begin

text \<open>
  The whole path of an evaluation through the local manager: when every statement of the database is
  executed and the transfer of the content succeeds, an evaluation that keeps a clean run is answered
  with success and the abstract map of the database is exactly the old map with the rating of the parent
  changed and the new testcase, its content, its blocks and its type added. The lemmas here are the
  frame conditions of the steps and the facts that each step succeeds.
\<close>

section \<open>A kept clean run, from the request to the database\<close>

lemma db_view_cong:
  assumes "interesting_testcases s' = interesting_testcases s" "covered_blocks s' = covered_blocks s"
    "crash_descriptions s' = crash_descriptions s"
  shows "db_view s' = db_view s"
proof -
  have v: "view_of s' = view_of s"
    by (rule ext) (simp add: view_of_def blocks_of_def crash_of_def lookup_row_def assms)
  show ?thesis by (rule ext) (simp add: db_view_def lookup_row_def assms v)
qed

lemma fold_insert_completed_frame:
  "interesting_testcases (fold (\<lambda>t. insert_completed t now) ts s) = interesting_testcases s \<and>
   covered_blocks (fold (\<lambda>t. insert_completed t now) ts s) = covered_blocks s \<and>
   crash_descriptions (fold (\<lambda>t. insert_completed t now) ts s) = crash_descriptions s \<and>
   target_modules (fold (\<lambda>t. insert_completed t now) ts s) = target_modules s"
  by (induction ts arbitrary: s) (simp_all add: insert_completed_def)

lemma addEntries_exec_frame:
  assumes "exec_stmt D (\<lambda>now s. Some (fold (\<lambda>t. insert_completed t now) ts s)) (next_stmt s) = (ok, s')"
  shows "interesting_testcases s' = interesting_testcases s \<and> covered_blocks s' = covered_blocks s \<and>
      crash_descriptions s' = crash_descriptions s \<and> target_modules s' = target_modules s"
  using assms
  by (simp add: exec_stmt_def fold_insert_completed_frame split: if_splits)
    (auto simp: fold_insert_completed_frame)

lemma addEntries_frame:
  assumes "addEntriesToCompletedTestcasesTable D ts s = (ok, s')"
  shows "db_view s' = db_view s" and "target_modules s' = target_modules s"
proof -
  have "interesting_testcases s' = interesting_testcases s \<and> covered_blocks s' = covered_blocks s \<and>
      crash_descriptions s' = crash_descriptions s \<and> target_modules s' = target_modules s"
  proof (cases "list_ex (\<lambda>t. 50 \<le> length (tid_guid t)) ts \<or> ts = []")
    case True
    with assms show ?thesis by (auto simp: addEntriesToCompletedTestcasesTable_def)
  next
    case False
    with assms have e: "exec_stmt D (\<lambda>now s. Some (fold (\<lambda>t. insert_completed t now) ts s))
        (set_isolation s) = (ok, s')"
      by (simp add: addEntriesToCompletedTestcasesTable_def)
    show ?thesis by (rule addEntries_exec_frame [OF e [unfolded set_isolation_def]])
  qed
  then show "db_view s' = db_view s" and "target_modules s' = target_modules s"
    by (blast intro: db_view_cong)+
qed

lemma markTestcaseAsCompleted_ok:
  assumes wf: "db_wf (lm_db st)" and all: "\<And>n. db_ok D n"
    and short: "\<And>x. x \<in> insert t (set (m_completedTestcases_notYetPushedToDB st)) \<Longrightarrow> length (tid_guid x) < 50"
  obtains st' where "markTestcaseAsCompleted D E force t st = (True, st')" "db_wf (lm_db st')"
    "db_view (lm_db st') = db_view (lm_db st)" "target_modules (lm_db st') = target_modules (lm_db st)"
    "lm_agent st' = next_tick (lm_agent st)"
proof -
  let ?cs = "set_insert tid_key t (m_completedTestcases_notYetPushedToDB st)"
  obtain ok st' where m: "markTestcaseAsCompleted D E force t st = (ok, st')" by fastforce
  obtain ok2 db where add: "addEntriesToCompletedTestcasesTable D ?cs (lm_db st) = (ok2, db)" by fastforce
  have "length (tid_guid x) < 50" if "x \<in> set ?cs" for x
    using that set_insert_subset [of tid_key t] short by (meson subsetD)
  then have "\<not> list_ex (\<lambda>t. 50 \<le> length (tid_guid t)) ?cs"
    by (auto simp: list_ex_iff not_le)
  then have ok2 using add by (simp add: addEntriesToCompletedTestcasesTable_def exec_stmt_def all split: if_splits)
  have a: "lm_agent st' = next_tick (lm_agent st)"
    using m \<open>ok2\<close> by (auto simp: markTestcaseAsCompleted_def Let_def add split: if_splits)
  have wf': "db_wf db" using addEntriesToCompleted_wf [OF wf, of D ?cs] add by simp
  from m show ?thesis
  proof (cases rule: markTestcaseAsCompleted_cases)
    case cached
    with that [of st'] m a wf show ?thesis by simp
  next
    case (flush db')
    with add \<open>ok2\<close> have "ok" "lm_db st' = db" by simp_all
    with that [of st'] m a wf' addEntries_frame [OF add] show ?thesis by simp
  qed
qed

lemma addDelta_ok:
  assumes wf: "db_wf s" and all: "\<And>n. db_ok D n"
    and range: "\<And>v. db_view s (tid_key t) = Some v \<Longrightarrow> int32_range (v_rating v + d)"
  obtains s' where "addDeltaToTestcaseRating D t d s = (True, s')" "db_wf s'"
    "db_view s' = modify (\<lambda>v. v\<lparr>v_rating := v_rating v + d\<rparr>) (tid_key t) (db_view s)"
    "target_modules s' = target_modules s"
proof -
  obtain ok s' where r: "addDeltaToTestcaseRating D t d s = (ok, s')" by fastforce
  have "int32_range (it_Rating q + d)" if "q \<in> set (interesting_testcases s)" "has_id t q" for q
    using range [of "view_of s q"] db_view_row [OF wf that(1)] that(2) by (simp add: has_id_def)
  then have "\<not> list_ex (\<lambda>q. has_id t q \<and> \<not> int32_range (it_Rating q + d)) (interesting_testcases s)"
    by (auto simp: list_ex_iff)
  then have "ok" "target_modules s' = target_modules s"
    using r by (auto simp: addDeltaToTestcaseRating_def exec_stmt_def all update_testcases_def split: if_splits)
  with that [of s'] r addDelta_wf [OF wf, of D t d] addDelta_view [OF wf r] show ?thesis by simp
qed

lemma insert_blocks_Some:
  "tc \<in> it_ID ` set (interesting_testcases s) \<Longrightarrow>
   \<forall>b \<in> set bs. ucast (m_moduleID b) \<in> tm_ID ` set (target_modules s) \<Longrightarrow>
   insert_blocks tc bs now s \<noteq> None"
proof (induction bs arbitrary: s)
  case (Cons b bs)
  from Cons.prems have "insert_block tc (ucast (m_moduleID b)) (m_rva b) now s \<noteq> None"
    unfolding insert_block_def by simp
  then obtain u where u: "insert_block tc (ucast (m_moduleID b)) (m_rva b) now s = Some u" by blast
  then have "target_modules u = target_modules s"
    by (auto simp: insert_block_def split: if_splits)
  with Cons u insert_block_frame(1) [OF u] show ?case by simp
qed simp

lemma addBlocks_ok:
  assumes wf: "db_wf s" and all: "\<And>n. db_ok D n" and key: "db_view s (tid_key t) \<noteq> None"
    and fk: "\<forall>b \<in> set bs. ucast (m_moduleID b) \<in> tm_ID ` set (target_modules s)"
  shows "fst (addBlocksToCoveredBlocks D t bs s)"
proof -
  from key obtain r where r: "lookup_row s (tid_key t) = Some r" by (auto simp: db_view_def)
  then have rows: "filter (has_id t) (interesting_testcases s) = [r]"
    using rows_with_id [OF wf, of t] by simp
  have "r \<in> set (interesting_testcases s)" using r lookup_row_iff [OF wf] by simp
  then have "insert_blocks (it_ID r) bs now (set_isolation (next_stmt s)) \<noteq> None" for now
    using fk by (intro insert_blocks_Some) (simp_all add: set_isolation_def)
  then obtain u where "insert_blocks (it_ID r) bs (db_now D (stmt_no (set_isolation (next_stmt s))))
      (set_isolation (next_stmt s)) = Some u" by blast
  then show ?thesis
    by (simp add: addBlocksToCoveredBlocks_def query_def all rows exec_stmt_def)
qed

lemma keep_population_succeeds:
  assumes wf: "db_wf (lm_db st)" and all: "\<And>n. db_ok D n"
    and clean: "tr_exitType (request_result req) = CleanExit"
    and fk: "fst ` request_blocks req \<subseteq> tm_ID ` set (target_modules (lm_db st))"
  shows "fst (keep_testcase D dir req st)"
proof -
  obtain ok st' where run: "keep_testcase D dir req st = (ok, st')" by fastforce
  have cl: "tcType_of (tr_exitType (request_result req)) = Population"
    by (simp add: clean tcType_of_def)
  from wf cl run show ?thesis
  proof (cases rule: keep_population_cases)
    case (1 ok1 db1 a1 ok2 db2 ok3 db3)
    have v: "ok1" "db_view db1 (tid_key (request_id req)) \<noteq> None"
      using addEntryToInteresting_view(3) [OF wf 1(1) all] by simp_all
    have tm: "target_modules db1 = target_modules (lm_db st)"
    proof -
      have "target_modules (snd (exec_stmt D (\<lambda>_ s. Some (delete_testcases P s)) u)) = target_modules u"
          "target_modules (snd (exec_stmt D (insert_testcase g l pg pl rt raw ty) u)) = target_modules u"
        for P u g l pg pl rt raw ty
        by (auto simp: exec_stmt_def delete_testcases_def insert_testcase_def Let_def split: option.splits)
      then show ?thesis
        using arg_cong [OF 1(1), of "\<lambda>x. target_modules (fst (snd x))"]
        by (simp add: addEntryToInterestingTestcasesTable_def Let_def split_beta getParentTCID_state
            split: if_splits)
    qed
    have "ok2"
      using addBlocks_ok [OF 1(4) all v(2), of "set_of_list (\<lambda>b. b) (map block_of_proto (tr_blocks (request_result req)))"]
        fk 1(2) by (force simp: tm set_of_list_set request_blocks_def stored_block_def)
    moreover have "ok3" using 1(3) by (simp add: setTestcaseType_def exec_stmt_def all)
    ultimately show ?thesis using v(1) 1(6) run by simp
  qed
qed

lemma evaluation_stored:
  assumes wf: "db_wf (lm_db st)" and all: "\<And>n. db_ok D n"
    and short: "\<And>x. x \<in> insert (request_id req) (set (m_completedTestcases_notYetPushedToDB st)) \<Longrightarrow>
          length (tid_guid x) < 50"
    and range: "\<And>v. db_view (lm_db st) (tid_key (request_parent req)) = Some v \<Longrightarrow>
          int32_range (v_rating v + pte_parentRatingDelta req)"
    and keep: "pte_eval req = Keep" and clean: "tr_exitType (request_result req) = CleanExit"
    and fk: "fst ` request_blocks req \<subseteq> tm_ID ` set (target_modules (lm_db st))"
    and stored: "\<And>a. a = next_tick (lm_agent st) \<Longrightarrow>
          \<exists>a'. storeTestcaseFileOnDisk E (request_id req) (m_testcaseDir cfg) (pte_testCaseFirstChunk req)
            (pte_isLastChunk req)
            (sd_serviceHostAndPort (opt_or default_ServiceDescriptor (pte_sdOfEvaluator req))) a = Some (True, a') \<and>
          files a' = (files a)(generateTestcasePathAndFilename (request_id req) (m_testcaseDir cfg) \<mapsto> content)"
  obtains st' p where "PutTestEvaluationRequestHandler D E cfg (PutTestEvaluationRequest req) st =
      Some (PutTestEvaluationResponse True, st')"
    "db_wf (lm_db st')"
    "db_view (lm_db st') = (modify (\<lambda>v. v\<lparr>v_rating := v_rating v + pte_parentRatingDelta req\<rparr>)
       (tid_key (request_parent req)) (db_view (lm_db st)))
     (tid_key (request_id req) \<mapsto> \<lparr>v_parent = p, v_rating = defaultInitialPopulationRating,
       v_bytes = content, v_type = Population, v_blocks = request_blocks req, v_crash = None\<rparr>)"
    "tid_guid (request_parent req) \<noteq> ''special'' \<Longrightarrow> p = tid_key (request_parent req)"
proof -
  let ?force = "m_forceFlushAfterMS cfg" let ?dir = "m_testcaseDir cfg"
  obtain st1 where m: "markTestcaseAsCompleted D E ?force (request_id req) st = (True, st1)" "db_wf (lm_db st1)"
      "db_view (lm_db st1) = db_view (lm_db st)" "target_modules (lm_db st1) = target_modules (lm_db st)"
      "lm_agent st1 = next_tick (lm_agent st)"
    using markTestcaseAsCompleted_ok [OF wf all short] by metis
  obtain db2 where d: "addDeltaToTestcaseRating D (request_parent req) (pte_parentRatingDelta req) (lm_db st1)
        = (True, db2)" "db_wf db2"
      "db_view db2 = modify (\<lambda>v. v\<lparr>v_rating := v_rating v + pte_parentRatingDelta req\<rparr>)
        (tid_key (request_parent req)) (db_view (lm_db st))"
      "target_modules db2 = target_modules (lm_db st)"
    by (rule addDelta_ok [OF m(2) all]) (use range m(3,4) in simp_all)
  obtain a3 where a3: "storeTestcaseFileOnDisk E (request_id req) ?dir (pte_testCaseFirstChunk req)
        (pte_isLastChunk req) (sd_serviceHostAndPort (opt_or default_ServiceDescriptor (pte_sdOfEvaluator req)))
        (lm_agent st1) = Some (True, a3)"
      "files a3 = (files (lm_agent st1))(generateTestcasePathAndFilename (request_id req) ?dir \<mapsto> content)"
    using stored [OF m(5)] by metis
  let ?st3 = "st1\<lparr>lm_db := db2, lm_agent := a3\<rparr>"
  obtain ok st' where k: "keep_testcase D ?dir req ?st3 = (ok, st')" by fastforce
  have ok using keep_population_succeeds [of ?st3 D req ?dir] d fk all clean k by simp
  have cl: "tcType_of (tr_exitType (request_result req)) = Population"
    by (simp add: clean tcType_of_def)
  have load: "loadTestcaseInMemory (request_id req) ?dir a3 = content"
    by (simp add: loadTestcaseInMemory_def a3(2))
  show ?thesis
  proof (rule that)
    show "PutTestEvaluationRequestHandler D E cfg (PutTestEvaluationRequest req) st =
        Some (PutTestEvaluationResponse True, st')"
      using m(1) d(1) a3(1) k keep \<open>ok\<close>
      by (simp add: PutTestEvaluationRequestHandler_def puttestevaluationrequest_def Let_def lift_db_def
          request_id_def request_parent_def)
    show "db_wf (lm_db st')"
    proof -
      have "db_wf (lm_db ?st3)" using d(2) by simp
      then show ?thesis using cl k
      proof (cases rule: keep_population_cases)
        case (1 ok1 db1 a1 ok2 db2 ok3 db3)
        have "db_wf db3" using setTestcaseType_wf [OF 1(5), of D "request_id req" Population] 1(3) by simp
        with 1 show ?thesis by simp
      qed
    qed
    show "db_view (lm_db st') = (modify (\<lambda>v. v\<lparr>v_rating := v_rating v + pte_parentRatingDelta req\<rparr>)
        (tid_key (request_parent req)) (db_view (lm_db st)))
      (tid_key (request_id req) \<mapsto> \<lparr>v_parent = parent_to_set db2 (request_id req) (request_parent req),
        v_rating = defaultInitialPopulationRating,
        v_bytes = content, v_type = Population, v_blocks = request_blocks req, v_crash = None\<rparr>)"
      using keep_population_stored [OF _ cl k all \<open>ok\<close>] d by (simp add: load)
    show "tid_guid (request_parent req) \<noteq> ''special'' \<Longrightarrow>
        parent_to_set db2 (request_id req) (request_parent req) = tid_key (request_parent req)"
      by (simp add: parent_to_set_def)
  qed
qed

end
