(* ===== verification/LMWorkers.thy ===== *)
theory LMWorkers
  imports LMHandlers
begin

text \<open>
  The worker threads of the local manager, each as one pass of its loop: clean-up and billing
  (\<open>DBCleanupWorker\<close>), polling of all instances (\<open>InstanceMonitorWorker\<close>), and the weighting
  of generators and evaluators that is sent to the runners (\<open>WorkerWeightCalculator\<close>,
  \<open>InstanceControlWorker\<close>).
\<close>

section \<open>DBCleanupWorker\<close>

text \<open>The product and the quotient are taken in \<open>unsigned int\<close>.\<close>

definition updateRunnerSeconds :: "dbenv \<Rightarrow> int \<Rightarrow> string \<Rightarrow> lmdb \<Rightarrow> lmdb" where
  "updateRunnerSeconds D timeBetweenTwoCleanupRoundsInMS location s =
     (let (runners, s) = getRegisteredInstancesOfAgentType D TestcaseRunner location s;
          activeRunners = (of_nat (length runners) :: 32 word)
      in snd (addRunnerSeconds D
           (activeRunners * word_of_int timeBetweenTwoCleanupRoundsInMS div 1000) s))"

definition updateRunTestcasesNoLongerShowing :: "dbenv \<Rightarrow> lmdb \<Rightarrow> lmdb" where
  "updateRunTestcasesNoLongerShowing D s =
     (let (deletedRows, s) = cleanCompletedTestcasesTableOlderThanXSec D (3 * 60) s
      in snd (addRunTestcasesNoLongerListed D (of_nat deletedRows) s))"

definition dropCrashesThatAppearedMoreThanXTimes :: "dbenv \<Rightarrow> int \<Rightarrow> lmdb \<Rightarrow> lmdb" where
  "dropCrashesThatAppearedMoreThanXTimes D xTimes s =
     (let (footprints, s) = getAllCrashFootprints D s
      in fold (\<lambda>f s. snd (dropTestcaseIfCrashFootprintAppearedMoreThanXTimes D xTimes f s)) footprints s)"

definition DBCleanupWorker_round :: "dbenv \<Rightarrow> int \<Rightarrow> string \<Rightarrow> lmdb \<Rightarrow> lmdb" where
  "DBCleanupWorker_round D interval location s =
     (let s = updateRunnerSeconds D interval location s;
          s = updateRunTestcasesNoLongerShowing D s;
          s = dropCrashesThatAppearedMoreThanXTimes D 1000 s;
          s = snd (dropTestcaseTypeIFMoreThan D Hang_type 10000 s)
      in snd (dropTestcaseTypeIFMoreThan D NoResponse 10000 s))"

section \<open>WorkerWeightCalculator\<close>

definition calculateGeneratorWeight :: "StatusOfInstance \<Rightarrow> 32 word" where
  "calculateGeneratorWeight status =
     (case Option.bind (si_status status ''TestCasesQueueSize'') stoi of
        None \<Rightarrow> 100 | Some n \<Rightarrow> 100 + word_of_int n)"

definition calculateEvaluatorWeight :: "StatusOfInstance \<Rightarrow> 32 word" where
  "calculateEvaluatorWeight status =
     (case Option.bind (si_status status ''TestEvaluationsQueueSize'') stoi of
        None \<Rightarrow> 100 | Some n \<Rightarrow> word_of_int (max 100 (1000 - n)))"

text \<open>Generators and evaluators with their weights, taken from the back of the vector.\<close>

definition updateStatusInformation ::
    "dbenv \<Rightarrow> string \<Rightarrow> lmdb \<Rightarrow>
     ((StatusOfInstance \<times> 32 word) list \<times> (StatusOfInstance \<times> 32 word) list) \<times> lmdb" where
  "updateStatusInformation D location s =
     (let (statusVector, s) = getStatusOfManagedInstances D location s;
          v = rev statusVector
      in ((map (\<lambda>st. (st, calculateGeneratorWeight st)) (filter (\<lambda>st. si_type st = TestcaseGenerator) v),
           map (\<lambda>st. (st, calculateEvaluatorWeight st)) (filter (\<lambda>st. si_type st = TestcaseEvaluator) v)), s))"

section \<open>InstanceControlWorker\<close>

definition service_and_weight :: "StatusOfInstance \<times> 32 word \<Rightarrow> ServiceAndWeigth" where
  "service_and_weight p = sw_getProtobuf
     \<lparr>sw_serviceDescriptor = mkServiceDescriptor (si_HostAndPort (fst p)) (si_GUID (fst p)),
      sw_weight = snd p\<rparr>"

text \<open>One message to all runners; a runner that does not answer is removed.\<close>

fun inform_runners ::
    "dbenv \<Rightarrow> env \<Rightarrow> FLUFFIMessage \<Rightarrow> string \<Rightarrow> FluffiServiceDescriptor list \<Rightarrow> lm \<Rightarrow> lm option" where
  "inform_runners D E req location [] st = Some st"
| "inform_runners D E req location (r # rs) st =
     (if env_stop E (tick (lm_agent st)) then Some st
      else do {
        (resp, a) \<leftarrow> sendReqAndRecvResp E req (m_serviceHostAndPort r) timeoutNormalMessage
          (next_tick (lm_agent st));
        let st = st\<lparr>lm_agent := a\<rparr>;
        inform_runners D E req location rs
          (if resp = None then snd (lift_db (removeManagedInstance D (m_guid r) location) st) else st)
      })"

text \<open>\<open>shuffle\<close> is the permutation that \<open>std::random_shuffle\<close> makes.\<close>

definition setTGsAndTEsAtTRs ::
    "dbenv \<Rightarrow> env \<Rightarrow> (FluffiServiceDescriptor list \<Rightarrow> FluffiServiceDescriptor list) \<Rightarrow> string \<Rightarrow> lm \<Rightarrow> lm option" where
  "setTGsAndTEsAtTRs D E shuffle location st =
     (let ((generators, evaluators), st) = lift_db (updateStatusInformation D location) st;
          req = SetTGsAndTEsRequest (map service_and_weight generators) (map service_and_weight evaluators);
          (runners, st) = lift_db (getRegisteredInstancesOfAgentType D TestcaseRunner location) st
      in inform_runners D E req location (shuffle runners) st)"

section \<open>InstanceMonitorWorker\<close>

definition TestcasesSinceLast :: string where
  "TestcasesSinceLast = '' TestcasesSinceLastStatusRequest''"

text \<open>
  The runner's counter becomes a rate. \<open>fmt\<close> prints the quotient of two numbers as
  \<open>std::to_string(double)\<close> does. \<open>None\<close>: the number does not parse and the process exits,
  or the piece has too few parts and the access is out of range.
\<close>

definition rewrite_piece :: "(int \<Rightarrow> int \<Rightarrow> string) \<Rightarrow> int \<Rightarrow> string \<Rightarrow> string option" where
  "rewrite_piece fmt loopIntervalMS piece =
     (if substr piece 0 32 = TestcasesSinceLast then
        (let parts = splitString piece '' '' in
         if length parts \<le> 2 then None
         else map_option (\<lambda>n. '' TestcasesPerSecond '' @ fmt (n * 1000) loopIntervalMS @ '' '')
                (stoi (parts ! 2)))
      else Some piece)"

fun rewrite_pieces :: "(int \<Rightarrow> int \<Rightarrow> string) \<Rightarrow> int \<Rightarrow> string list \<Rightarrow> string list option" where
  "rewrite_pieces fmt loopIntervalMS [] = Some []"
| "rewrite_pieces fmt loopIntervalMS (p # ps) =
     do {
       q \<leftarrow> rewrite_piece fmt loopIntervalMS p;
       qs \<leftarrow> rewrite_pieces fmt loopIntervalMS ps;
       Some (q # qs)
     }"

definition storeStatus ::
    "dbenv \<Rightarrow> (int \<Rightarrow> int \<Rightarrow> string) \<Rightarrow> int \<Rightarrow> FluffiServiceDescriptor \<times> AgentType \<Rightarrow> string \<Rightarrow> lm \<Rightarrow> lm option" where
  "storeStatus D fmt loopIntervalMS inst statusToStore st =
     do {
       line \<leftarrow> (if snd inst = TestcaseRunner
                 then map_option (join ''|'') (rewrite_pieces fmt loopIntervalMS (splitString statusToStore ''|''))
                 else Some statusToStore);
       Some (snd (lift_db (addNewManagedInstanceStatus D (m_guid (fst inst)) line) st))
     }"

fun poll_instances ::
    "dbenv \<Rightarrow> env \<Rightarrow> (int \<Rightarrow> int \<Rightarrow> string) \<Rightarrow> int \<Rightarrow> FluffiServiceDescriptor \<Rightarrow> string \<Rightarrow>
     (FluffiServiceDescriptor \<times> AgentType) list \<Rightarrow> lm \<Rightarrow> lm option" where
  "poll_instances D E fmt interval self location [] st = Some st"
| "poll_instances D E fmt interval self location (i # is) st =
     (if env_stop E (tick (lm_agent st)) then Some st
      else do {
        (resp, a) \<leftarrow> sendReqAndRecvResp E (GetStatusRequest (Some (sd_getProtobuf self)))
          (m_serviceHostAndPort (fst i)) timeoutNormalMessage (next_tick (lm_agent st));
        let st = st\<lparr>lm_agent := a\<rparr>;
        st \<leftarrow> (case resp of
             None \<Rightarrow> Some (snd (lift_db (removeManagedInstance D (m_guid (fst i)) location) st))
           | Some (GetStatusResponse status logmessages) \<Rightarrow>
               storeStatus D fmt interval i status
                 (snd (lift_db (addNewManagedInstanceLogMessages D (m_guid (fst i)) logmessages) st))
           | Some _ \<Rightarrow> Some st);
        poll_instances D E fmt interval self location is st
      })"

definition InstanceMonitorWorker_round ::
    "dbenv \<Rightarrow> env \<Rightarrow> (int \<Rightarrow> int \<Rightarrow> string) \<Rightarrow> int \<Rightarrow> FluffiServiceDescriptor \<Rightarrow> string \<Rightarrow> lm \<Rightarrow> lm option" where
  "InstanceMonitorWorker_round D E fmt interval self location st =
     (let st = snd (lift_db (deleteManagedInstanceStatusOlderThanXSec D 60) st);
          st = snd (lift_db (deleteManagedInstanceLogMessagesIfMoreThan D 1000) st);
          st = snd (lift_db (deleteManagedInstanceLogMessagesOlderThanXSec D (60 * 60 * 24 * 7)) st);
          (instances, st) = lift_db (getAllRegisteredInstances D location) st
      in poll_instances D E fmt interval self location instances st)"

section \<open>Facts on clean-up and billing\<close>

lemma getRunners_state: "snd (getRegisteredInstancesOfAgentType D ty l s) = next_stmt s"
  by (simp add: getRegisteredInstancesOfAgentType_def query_def)

lemma getAllCrashFootprints_state: "snd (getAllCrashFootprints D s) = next_stmt s"
  by (simp add: getAllCrashFootprints_def query_def)

lemma DBCleanupWorker_round_wf [dbwf]:
  assumes "db_wf s" shows "db_wf (DBCleanupWorker_round D interval location s)"
proof -
  have 1: "db_wf (updateRunnerSeconds D interval location u)" if "db_wf u" for u
    using that unfolding updateRunnerSeconds_def Let_def split_beta
    by (intro billing_wf) (simp add: getRunners_state)
  have 2: "db_wf (updateRunTestcasesNoLongerShowing D u)" if "db_wf u" for u
    using that unfolding updateRunTestcasesNoLongerShowing_def Let_def split_beta
    by (intro billing_wf cleanCompleted_wf)
  have 3: "db_wf (dropCrashesThatAppearedMoreThanXTimes D n u)" if "db_wf u" for n u
    using that unfolding dropCrashesThatAppearedMoreThanXTimes_def Let_def split_beta
    by (intro fold_wf dropCrash_wf) (simp_all add: getAllCrashFootprints_state)
  show ?thesis
    unfolding DBCleanupWorker_round_def Let_def
    by (intro dropTestcaseType_wf 1 2 3 assms)
qed

text \<open>
  Testcases leave the table of completed testcases only for the billing counter: the sum of
  both stays the same.
\<close>

definition executed_total :: "lmdb \<Rightarrow> int" where
  "executed_total s = int (length (completed_testcases s)) + amount_of ''RunTestcasesNoLongerListed'' s"

lemma cleanCompleted_count:
  assumes "cleanCompletedTestcasesTableOlderThanXSec D x s = (n, s')"
  shows "length (completed_testcases s) = length (completed_testcases s') + n" and "billing s' = billing s"
proof -
  let ?f = "\<lambda>now s. Some (s\<lparr>completed_testcases :=
      filter (\<lambda>r. \<not> older_than now x (ct_TimeOfCompletion r)) (completed_testcases s)\<rparr>)"
  obtain ok u where e: "exec_stmt D ?f s = (ok, u)" by fastforce
  have u: "s' = u" "n = (if ok then length (completed_testcases s) - length (completed_testcases u) else 0)"
    using assms by (simp_all add: cleanCompletedTestcasesTableOlderThanXSec_def e)
  have "length (completed_testcases s) = length (completed_testcases s') + n \<and> billing s' = billing s"
    using e
  proof (cases rule: exec_stmt_cases)
    case (executed t)
    then have "length (completed_testcases u) \<le> length (completed_testcases s)" by (auto simp: le_trans)
    with executed u show ?thesis by auto
  qed (use u in simp)
  then show "length (completed_testcases s) = length (completed_testcases s') + n" and "billing s' = billing s"
    by simp_all
qed

lemma updateRunTestcases_total:
  assumes wf: "db_wf s" and row: "''RunTestcasesNoLongerListed'' \<in> fst ` set (billing s)"
    and ok: "\<And>n. db_ok D n" and small: "length (completed_testcases s) < 2 ^ 32"
  shows "executed_total (updateRunTestcasesNoLongerShowing D s) = executed_total s"
proof -
  obtain n u where c: "cleanCompletedTestcasesTableOlderThanXSec D (3 * 60) s = (n, u)" by fastforce
  note count = cleanCompleted_count [OF c]
  have n: "uint (of_nat n :: 32 word) = int n"
    using count(1) small by (simp add: unsigned_of_nat take_bit_nat_eq_self flip: of_nat_take_bit)
  have d: "distinct (map fst (billing s))" using wf by (simp add: db_wf_def instances_wf_def)
  have "billing (snd (addRunTestcasesNoLongerListed D (of_nat n) u)) =
      billing (add_to_resource ''RunTestcasesNoLongerListed'' (int n) u)"
    "completed_testcases (snd (addRunTestcasesNoLongerListed D (of_nat n) u)) = completed_testcases u"
    by (simp_all add: addRunTestcasesNoLongerListed_def exec_stmt_def ok n add_to_resource_def)
  moreover have "amount_of ''RunTestcasesNoLongerListed'' (add_to_resource ''RunTestcasesNoLongerListed'' (int n) u) =
      amount_of ''RunTestcasesNoLongerListed'' u + int n"
    using d row by (intro amount_add) (simp_all add: count(2))
  ultimately show ?thesis
    using count by (simp add: executed_total_def updateRunTestcasesNoLongerShowing_def c [simplified] amount_of_def)
qed

section \<open>Facts on weights\<close>

lemma latest_status_new:
  assumes "\<And>r. r \<in> set (managed_instances_statuses s) \<Longrightarrow> ms_GUID r = g \<Longrightarrow> ms_TimeOfStatus r < now"
  shows "latest_status g (insert_status g line now s) =
    Some \<lparr>ms_ID = next_ms s, ms_GUID = g, ms_TimeOfStatus = now, ms_Status = line\<rparr>"
proof -
  let ?new = "\<lparr>ms_ID = next_ms s, ms_GUID = g, ms_TimeOfStatus = now, ms_Status = line\<rparr>"
  let ?old = "filter (\<lambda>r. ms_GUID r = g) (managed_instances_statuses s)"
  have "find (\<lambda>r. \<forall>q \<in> set (?old @ [?new]). ms_TimeOfStatus q \<le> ms_TimeOfStatus r) (?old @ [?new]) = Some ?new"
    by (rule find_append_new) (use assms in \<open>auto simp: less_imp_le not_le\<close>)
  then show ?thesis
    by (simp add: latest_status_def insert_status_def)
qed

lemma map_filter_memI: "x \<in> set xs \<Longrightarrow> f x = Some y \<Longrightarrow> y \<in> set (List.map_filter f xs)"
  by (force simp: List.map_filter_def)

lemma status_listed:
  assumes m: "m \<in> set (managed_instances s)" "mi_Location m = location"
    and r: "latest_status (mi_GUID m) s = Some r" and ok: "db_ok D (stmt_no s)"
  shows "\<lparr>si_HostAndPort = mi_HAP m, si_GUID = mi_GUID m, si_type = mi_AgentType m,
      si_lastStatusUpdate = ms_TimeOfStatus r, si_status = parse_status (ms_Status r)\<rparr>
    \<in> set (fst (getStatusOfManagedInstances D location s))"
proof -
  let ?f = "\<lambda>m. if mi_Location m = location then map_option (\<lambda>r. (m, r)) (latest_status (mi_GUID m) s) else None"
  have "(m, r) \<in> set (List.map_filter ?f (managed_instances s))"
    by (rule map_filter_memI [OF m(1)]) (simp add: m(2) r)
  then show ?thesis
    by (force simp: getStatusOfManagedInstances_def query_def ok)
qed

lemma generator_weight_listed:
  assumes m: "m \<in> set (managed_instances s)" "mi_Location m = location" "mi_AgentType m = TestcaseGenerator"
    and later: "\<And>r. r \<in> set (managed_instances_statuses s) \<Longrightarrow> ms_GUID r = mi_GUID m \<Longrightarrow>
          ms_TimeOfStatus r < db_now D (stmt_no s)"
    and ok: "\<And>n. db_ok D n" and pl: "plain sysCPU" "plain procCPU" and small: "pending < 2 ^ 31"
    and st: "addNewManagedInstanceStatus D (mi_GUID m) (TG_generateStatus sysCPU procCPU a pending sent) s = (True, s')"
  shows "\<exists>si. (si, 100 + of_nat pending) \<in> set (fst (fst (updateStatusInformation D location s'))) \<and>
    si_GUID si = mi_GUID m \<and> si_HostAndPort si = mi_HAP m"
proof -
  let ?line = "TG_generateStatus sysCPU procCPU a pending sent" let ?now = "db_now D (stmt_no s)"
  have s': "s' = (insert_status (mi_GUID m) ?line ?now s)\<lparr>stmt_no := Suc (stmt_no s)\<rparr>"
    using st by (simp add: addNewManagedInstanceStatus_def exec_stmt_def ok)
  have "latest_status (mi_GUID m) s' = latest_status (mi_GUID m) (insert_status (mi_GUID m) ?line ?now s)"
    by (simp add: s' latest_status_def)
  also have "\<dots> = Some \<lparr>ms_ID = next_ms s, ms_GUID = mi_GUID m, ms_TimeOfStatus = ?now, ms_Status = ?line\<rparr>"
    by (rule latest_status_new [OF later])
  finally have r: "latest_status (mi_GUID m) s' =
      Some \<lparr>ms_ID = next_ms s, ms_GUID = mi_GUID m, ms_TimeOfStatus = ?now, ms_Status = ?line\<rparr>" .
  have m': "m \<in> set (managed_instances s')" using m(1) by (simp add: s' insert_status_def)
  let ?si = "\<lparr>si_HostAndPort = mi_HAP m, si_GUID = mi_GUID m, si_type = TestcaseGenerator,
      si_lastStatusUpdate = ?now, si_status = parse_status ?line\<rparr>"
  have "?si \<in> set (fst (getStatusOfManagedInstances D location s'))"
    using status_listed [OF m' m(2) r ok] m(3) by simp
  moreover have "calculateGeneratorWeight ?si = 100 + of_nat pending"
    using small by (simp add: calculateGeneratorWeight_def TG_status_read [OF pl] stoi_to_string)
  ultimately have "(?si, 100 + of_nat pending) \<in> set (fst (fst (updateStatusInformation D location s')))"
    by (force simp: updateStatusInformation_def Let_def split_beta image_iff)
  then show ?thesis by (intro exI [of _ ?si]) simp
qed

lemma evaluator_weight_bounds:
  assumes "Option.bind (si_status st ''TestEvaluationsQueueSize'') stoi = Some n" and "0 \<le> n"
  shows "100 \<le> unat (calculateEvaluatorWeight st)" and "unat (calculateEvaluatorWeight st) \<le> 1000"
    and "unat (calculateEvaluatorWeight st) = nat (max 100 (1000 - n))"
proof -
  let ?m = "max 100 (1000 - n)"
  have b: "100 \<le> ?m" "?m \<le> 1000" using assms(2) by auto
  then have "unat (word_of_int ?m :: 32 word) = nat ?m"
    by (simp add: unat_eq_nat_uint uint_word_of_int_eq take_bit_int_eq_self del: max.bounded_iff)
  then show w: "unat (calculateEvaluatorWeight st) = nat ?m"
    using assms(1) by (simp add: calculateEvaluatorWeight_def)
  show "100 \<le> unat (calculateEvaluatorWeight st)" and "unat (calculateEvaluatorWeight st) \<le> 1000"
    using b unfolding w by linarith+
qed

end
