(* ===== verification/LMSystem.thy ===== *)
theory LMSystem
  imports LMEvaluation LMWorkers
begin

text \<open>
  The local manager as a state machine. A step is the handling of one message or one pass of one
  worker thread; steps run one after the other, because every handler holds one database connection
  and the tables are changed only by whole statements. The reachable states are those of a local
  manager that starts on a freshly set-up database, with any settings, target modules and blocks to
  cover, any environment and any failing statements.
\<close>

section \<open>The step relation\<close>

definition lmdb_setup :: "tm_row list \<Rightarrow> (64 word \<times> 8 word) list \<Rightarrow> (string \<times> string) list \<Rightarrow> lmdb" where
  "lmdb_setup modules toCover sets =
     \<lparr>stmt_no = 0, interesting_testcases = [], next_it = 1, covered_blocks = [], next_cb = 1,
      crash_descriptions = [], next_cd = 1, completed_testcases = [], next_ct = 1,
      managed_instances = [], managed_instances_statuses = [], next_ms = 1,
      managed_instances_logmessages = [], next_ml = 1, nice_names_managed_instance = [],
      target_modules = modules, blocks_to_cover = toCover, settings = sets, billing = []\<rparr>"

inductive lm_start :: "dbenv \<Rightarrow> lm \<Rightarrow> bool" for D where
  start: "initializeBillingTable D (lmdb_setup modules toCover sets) = (ok, db) \<Longrightarrow>
    m_setOfFilesToDelete a = [] \<Longrightarrow>
    lm_start D \<lparr>lm_db = db, lm_agent = a, m_completedTestcases_notYetPushedToDB = [], m_timeOfLastFlush = t\<rparr>"

inductive lm_step :: "dbenv \<Rightarrow> env \<Rightarrow> lm_config \<Rightarrow> lm \<Rightarrow> lm \<Rightarrow> bool" for D E cfg where
  evaluation: "PutTestEvaluationRequestHandler D E cfg m st = Some (r, st') \<Longrightarrow> lm_step D E cfg st st'"
| registration: "RegisterAtLMRequestHandler D cfg m st = Some (r, st') \<Longrightarrow> lm_step D E cfg st st'"
| welcomed: "IsAgentWelcomedRequestHandler D m st = (r, st') \<Longrightarrow> lm_step D E cfg st st'"
| mutations: "ReportNewMutationsRequestHandler D m st = (r, st') \<Longrightarrow> lm_step D E cfg st st'"
| no_result: "ReportTestcaseWithNoResultRequestHandler D E cfg req st = Some (r, st') \<Longrightarrow>
    lm_step D E cfg st st'"
| completed: "GetNewCompletedTestcaseIDsRequestHandler D m st = (r, st') \<Longrightarrow> lm_step D E cfg st st'"
| to_mutate: "GetTestcaseToMutateRequestHandler D E cfg m st = (r, st') \<Longrightarrow> lm_step D E cfg st st'"
| coverage: "GetCurrentBlockCoverageRequestHandler D m st = (r, st') \<Longrightarrow> lm_step D E cfg st st'"
| fuzzjob: "GetFuzzJobConfigurationRequestHandler D m st = (r, st') \<Longrightarrow> lm_step D E cfg st st'"
| cleanup: "st' = st\<lparr>lm_db := DBCleanupWorker_round D interval (m_mylocation cfg) (lm_db st)\<rparr> \<Longrightarrow>
    lm_step D E cfg st st'"
| monitor: "InstanceMonitorWorker_round D E fmt interval self (m_mylocation cfg) st = Some st' \<Longrightarrow>
    lm_step D E cfg st st'"
| control: "setTGsAndTEsAtTRs D E shuffle (m_mylocation cfg) st = Some st' \<Longrightarrow> lm_step D E cfg st st'"
| garbage: "st' = st\<lparr>lm_agent := gc_worker_pass E (lm_agent st)\<rparr> \<Longrightarrow> lm_step D E cfg st st'"

abbreviation lm_reach :: "dbenv \<Rightarrow> env \<Rightarrow> lm_config \<Rightarrow> lm \<Rightarrow> bool" where
  "lm_reach D E cfg \<equiv> reachable (lm_start D) (lm_step D E cfg)"

inductive_cases lm_startE: "lm_start D st"
inductive_cases lm_stepE: "lm_step D E cfg st st'"

section \<open>The handlers keep the schema's guarantees\<close>

lemma state_only [simp]:
  "snd (getAllSettings D s) = next_stmt s"
  "snd (getTargetBlocks D s) = next_stmt s"
  "snd (getTargetModules D s) = next_stmt s"
  "snd (getRegisteredInstanceSubType D g s) = next_stmt s"
  "snd (getRegisteredInstancesNumOfSubTypes D s) = next_stmt s"
  "snd (getAllRegisteredInstances D l s) = next_stmt s"
  "snd (getRegisteredInstancesOfAgentType D ty l s) = next_stmt s"
  "snd (getStatusOfManagedInstances D l s) = next_stmt s"
  "snd (generateGetNewCompletedTestcaseIDsResponse D t s) = next_stmt s"
  "snd (generateGetCurrentBlockCoverageResponse D s) = next_stmt s"
  by (simp_all add: getAllSettings_def getTargetBlocks_def getTargetModules_def
      getRegisteredInstanceSubType_def getRegisteredInstancesNumOfSubTypes_def
      getAllRegisteredInstances_def getRegisteredInstancesOfAgentType_def
      getStatusOfManagedInstances_def generateGetNewCompletedTestcaseIDsResponse_def
      generateGetCurrentBlockCoverageResponse_def query_def)

lemma to_mutate_wf:
  "db_wf s \<Longrightarrow> db_wf (fst (snd (generateGetTestcaseToMutateResponse D E dir s a)))"
  by (auto simp: generateGetTestcaseToMutateResponse_def query_def Let_def split: option.splits)

lemma markTestcaseAsCompleted_wf [dbwf]:
  assumes "db_wf (lm_db st)" shows "db_wf (lm_db (snd (markTestcaseAsCompleted D E force t st)))"
proof -
  obtain ok st' where m: "markTestcaseAsCompleted D E force t st = (ok, st')" by fastforce
  show ?thesis
    using assms addEntriesToCompleted_wf [OF assms, of D]
    by (cases rule: markTestcaseAsCompleted_cases [OF m]) (auto simp: m, metis snd_conv)
qed

lemmas method_wf = addEntryToInteresting_wf addEntriesToCompleted_wf addDelta_wf setTestcaseType_wf
  addBlocks_wf addCrash_wf writeManagedInstance_wf addNewManagedInstanceStatus_wf
  removeManagedInstance_wf deleteStatus_wf addLogMessages_wf deleteLogsIfMore_wf deleteLogsOlder_wf

lemma keep_testcase_wf [dbwf]:
  assumes "db_wf (lm_db st)" shows "db_wf (lm_db (snd (keep_testcase D dir req st)))"
proof -
  have "db_wf (fst (snd (addEntryToInterestingTestcasesTable D t p r d ty (lm_db st) a)))" for t p r d ty a
    by (rule addEntryToInteresting_wf [OF assms])
  then show ?thesis
    unfolding keep_testcase_def Let_def split_beta by (simp add: method_wf)
qed

lemma evaluation_wf:
  assumes "db_wf (lm_db st)" and "PutTestEvaluationRequestHandler D E cfg m st = Some (r, st')"
  shows "db_wf (lm_db st')"
proof -
  let ?r = "puttestevaluationrequest m"
  obtain ok1 st1 where m: "markTestcaseAsCompleted D E (m_forceFlushAfterMS cfg)
      (tid_of_proto (opt_or default_TestcaseID (pte_id ?r))) st = (ok1, st1)" by fastforce
  obtain ok2 st2 where d: "lift_db (addDeltaToTestcaseRating D
      (tid_of_proto (opt_or default_TestcaseID (pte_parentId ?r))) (pte_parentRatingDelta ?r)) st1
      = (ok2, st2)" by fastforce
  have w1: "db_wf (lm_db st1)" using markTestcaseAsCompleted_wf [OF assms(1)] m by (metis snd_conv)
  have w2: "db_wf (lm_db st2)" using addDelta_wf [OF w1] d by (metis lift_db_simps(1) snd_conv)
  have w3: "db_wf (lm_db (snd (keep_testcase D dir ?r (st2\<lparr>lm_agent := a\<rparr>))))" for dir a
    by (rule keep_testcase_wf) (simp add: w2)
  show ?thesis
    using assms(2) w1 w2 w3 unfolding PutTestEvaluationRequestHandler_def Let_def m d split_beta
    by (auto simp: d split: if_splits bind_splits TestEvaluation.splits)
qed

lemma no_result_wf:
  assumes "db_wf (lm_db st)" and "ReportTestcaseWithNoResultRequestHandler D E cfg req st = Some (r, st')"
  shows "db_wf (lm_db st')"
  using assms unfolding ReportTestcaseWithNoResultRequestHandler_def Let_def split_beta
  by (auto simp: addEntryToInteresting_wf split: if_splits bind_splits)

lemma decideSubAgentType_wf:
  assumes "db_wf s" and "decideSubAgentType D ty ts s = Some (t, s')"
  shows "db_wf s'"
  using assms unfolding decideSubAgentType_def Let_def split_beta
  by (auto split: if_splits bind_splits)

lemma registration_wf:
  assumes "db_wf (lm_db st)" and "RegisterAtLMRequestHandler D cfg m st = Some (r, st')"
  shows "db_wf (lm_db st')"
proof -
  have d: "db_wf s'" if "decideSubAgentType D ty ts (next_stmt (lm_db st)) = Some (t, s')" for ty ts t s'
    by (rule decideSubAgentType_wf [OF _ that]) (simp add: assms(1))
  show ?thesis
    using assms unfolding RegisterAtLMRequestHandler_def Let_def split_beta
    by (auto simp: writeManagedInstance_wf dest!: d split: if_splits bind_splits)
qed

section \<open>The workers keep the schema's guarantees\<close>

lemma inform_runners_Cons:
  assumes "inform_runners D E req location (r # rs) st = Some st'"
  obtains (stopped) "st' = st"
  | (sent) resp a where "sendReqAndRecvResp E req (m_serviceHostAndPort r) timeoutNormalMessage
        (next_tick (lm_agent st)) = Some (resp, a)"
      "inform_runners D E req location rs
        (if resp = None then snd (lift_db (removeManagedInstance D (m_guid r) location) (st\<lparr>lm_agent := a\<rparr>))
         else st\<lparr>lm_agent := a\<rparr>) = Some st'"
proof (cases "env_stop E (tick (lm_agent st))")
  case True
  then show ?thesis using assms stopped by simp
next
  case False
  show ?thesis
  proof (cases "sendReqAndRecvResp E req (m_serviceHostAndPort r) timeoutNormalMessage (next_tick (lm_agent st))")
    case None
    then show ?thesis using assms False by simp
  next
    case (Some p)
    then show ?thesis
      using assms False by (cases p) (auto simp: Let_def intro: sent)
  qed
qed

lemma inform_runners_wf:
  "inform_runners D E req location rs st = Some st' \<Longrightarrow> db_wf (lm_db st) \<Longrightarrow> db_wf (lm_db st')"
proof (induction rs arbitrary: st)
  case (Cons r rs)
  from Cons.prems(1) show ?case
  proof (cases rule: inform_runners_Cons)
    case sent
    then show ?thesis by (rule_tac Cons.IH) (auto simp: removeManagedInstance_wf Cons.prems(2))
  qed (use Cons.prems in simp)
qed simp

lemma inform_runners_cache:
  "inform_runners D E req location rs st = Some st' \<Longrightarrow>
    m_completedTestcases_notYetPushedToDB st' = m_completedTestcases_notYetPushedToDB st"
proof (induction rs arbitrary: st)
  case (Cons r rs)
  from Cons.prems show ?case
  proof (cases rule: inform_runners_Cons)
    case sent
    from Cons.IH [OF sent(2)] show ?thesis by (simp split: if_splits)
  qed simp
qed simp

lemma setTGsAndTEsAtTRs_wf:
  assumes "setTGsAndTEsAtTRs D E shuffle location st = Some st'" and "db_wf (lm_db st)"
  shows "db_wf (lm_db st')"
proof -
  have "snd (updateStatusInformation D location s) = next_stmt s" for s
    by (simp add: updateStatusInformation_def Let_def split_beta)
  then show ?thesis
    using assms unfolding setTGsAndTEsAtTRs_def Let_def split_beta
    by (auto elim!: inform_runners_wf)
qed

lemma storeStatus_wf:
  "storeStatus D fmt i inst line st = Some st' \<Longrightarrow> db_wf (lm_db st) \<Longrightarrow> db_wf (lm_db st')"
  by (auto simp: storeStatus_def addNewManagedInstanceStatus_wf split: bind_splits)

lemma storeStatus_cache:
  "storeStatus D fmt i inst line st = Some st' \<Longrightarrow>
    m_completedTestcases_notYetPushedToDB st' = m_completedTestcases_notYetPushedToDB st"
  by (auto simp: storeStatus_def split: bind_splits)

lemma poll_instances_Cons:
  assumes "poll_instances D E fmt interval self location (i # is) st = Some st'"
  obtains (stopped) "st' = st"
  | (gone) a where "poll_instances D E fmt interval self location is
      (snd (lift_db (removeManagedInstance D (m_guid (fst i)) location) (st\<lparr>lm_agent := a\<rparr>))) = Some st'"
  | (answered) a status msgs st1 where "storeStatus D fmt interval i status
      (snd (lift_db (addNewManagedInstanceLogMessages D (m_guid (fst i)) msgs) (st\<lparr>lm_agent := a\<rparr>))) = Some st1"
      "poll_instances D E fmt interval self location is st1 = Some st'"
  | (other) a where "poll_instances D E fmt interval self location is (st\<lparr>lm_agent := a\<rparr>) = Some st'"
proof (cases "env_stop E (tick (lm_agent st))")
  case True
  then show ?thesis using assms stopped by simp
next
  case False
  show ?thesis
  proof (cases "sendReqAndRecvResp E (GetStatusRequest (Some (sd_getProtobuf self)))
      (m_serviceHostAndPort (fst i)) timeoutNormalMessage (next_tick (lm_agent st))")
    case None
    then show ?thesis using assms False by simp
  next
    case (Some p)
    obtain resp a where p: "p = (resp, a)" by fastforce
    note run = assms [simplified, unfolded if_not_P [OF False] Some p Let_def, simplified]
    show ?thesis
    proof (cases resp)
      case None
      with run show ?thesis by (auto intro: gone)
    next
      case (Some m)
      with run show ?thesis
        by (cases m) (auto split: bind_splits intro: answered other)
    qed
  qed
qed

lemma poll_instances_wf:
  "poll_instances D E fmt interval self location is st = Some st' \<Longrightarrow> db_wf (lm_db st) \<Longrightarrow> db_wf (lm_db st')"
proof (induction "is" arbitrary: st)
  case (Cons i "is")
  from Cons.prems(1) show ?case
  proof (cases rule: poll_instances_Cons)
    case gone
    then show ?thesis by (rule_tac Cons.IH) (auto simp: removeManagedInstance_wf Cons.prems(2))
  next
    case (answered a status msgs st1)
    from storeStatus_wf [OF answered(1)] have "db_wf (lm_db st1)"
      by (simp add: addLogMessages_wf Cons.prems(2))
    with answered(2) show ?thesis by (rule Cons.IH)
  next
    case other
    then show ?thesis by (rule_tac Cons.IH) (auto simp: Cons.prems(2))
  qed (use Cons.prems in simp)
qed simp

lemma poll_instances_cache:
  "poll_instances D E fmt interval self location is st = Some st' \<Longrightarrow>
    m_completedTestcases_notYetPushedToDB st' = m_completedTestcases_notYetPushedToDB st"
proof (induction "is" arbitrary: st)
  case (Cons i "is")
  from Cons.prems show ?case
    by (cases rule: poll_instances_Cons) (auto dest!: Cons.IH storeStatus_cache)
qed simp

lemma InstanceMonitorWorker_round_wf:
  assumes "InstanceMonitorWorker_round D E fmt interval self location st = Some st'" and "db_wf (lm_db st)"
  shows "db_wf (lm_db st')"
  using assms unfolding InstanceMonitorWorker_round_def Let_def split_beta
  by (auto elim!: poll_instances_wf simp: method_wf)

section \<open>The invariant of the local manager\<close>

text \<open>
  The schema's guarantees, and the cache of completed testcases is a set in the order of the keys.
\<close>

definition lm_inv :: "lm \<Rightarrow> bool" where
  "lm_inv st \<longleftrightarrow> db_wf (lm_db st) \<and> oset_by tid_key (m_completedTestcases_notYetPushedToDB st)"

lemma lmdb_setup_wf: "db_wf (lmdb_setup modules toCover sets)"
  by (simp add: lmdb_setup_def db_wf_def wf_defs)

lemma lm_start_inv: "lm_start D st \<Longrightarrow> lm_inv st"
proof (erule lm_startE)
  fix modules toCover sets ok db a t
  assume "st = \<lparr>lm_db = db, lm_agent = a, m_completedTestcases_notYetPushedToDB = [], m_timeOfLastFlush = t\<rparr>"
    and "initializeBillingTable D (lmdb_setup modules toCover sets) = (ok, db)"
  then show "lm_inv st"
    using initializeBillingTable_wf [OF lmdb_setup_wf, of D modules toCover sets] by (simp add: lm_inv_def)
qed

lemma lift_db_cache: "lift_db f st = (r, st') \<Longrightarrow>
    m_completedTestcases_notYetPushedToDB st' = m_completedTestcases_notYetPushedToDB st"
  using lift_db_simps(3) [of f st] by simp

lemma keep_testcase_cache [simp]:
  "m_completedTestcases_notYetPushedToDB (snd (keep_testcase D dir req st)) =
     m_completedTestcases_notYetPushedToDB st"
  unfolding keep_testcase_def Let_def split_beta by simp

lemma evaluation_cache:
  assumes "PutTestEvaluationRequestHandler D E cfg m st = Some (r, st')"
  shows "m_completedTestcases_notYetPushedToDB st' = m_completedTestcases_notYetPushedToDB
    (snd (markTestcaseAsCompleted D E (m_forceFlushAfterMS cfg)
      (tid_of_proto (opt_or default_TestcaseID (pte_id (puttestevaluationrequest m)))) st))"
  using assms unfolding PutTestEvaluationRequestHandler_def Let_def split_beta
  by (auto split: if_splits bind_splits TestEvaluation.splits)

lemma registration_cache:
  assumes "RegisterAtLMRequestHandler D cfg m st = Some (r, st')"
  shows "m_completedTestcases_notYetPushedToDB st' = m_completedTestcases_notYetPushedToDB st"
  using assms unfolding RegisterAtLMRequestHandler_def Let_def split_beta
  by (auto split: if_splits bind_splits)

lemma lm_step_inv:
  assumes "lm_step D E cfg st st'" and "lm_inv st"
  shows "lm_inv st'"
proof -
  note cache = keep_testcase_cache lift_db_cache
  have wf: "db_wf (lm_db st)" and os: "oset_by tid_key (m_completedTestcases_notYetPushedToDB st)"
    using assms(2) by (simp_all add: lm_inv_def)
  have same: "lm_inv st'" if "db_wf (lm_db st')"
    "m_completedTestcases_notYetPushedToDB st' = m_completedTestcases_notYetPushedToDB st"
    using that os by (simp add: lm_inv_def)
  from assms(1) show ?thesis
  proof cases
    case (evaluation m r)
    have "oset_by tid_key (m_completedTestcases_notYetPushedToDB
        (snd (markTestcaseAsCompleted D E force t st)))" for force t
      using markTestcaseAsCompleted_oset [OF _ os] by (metis prod.collapse)
    then show ?thesis
      using evaluation_wf [OF wf evaluation] by (simp add: lm_inv_def evaluation_cache [OF evaluation])
  next
    case registration
    then show ?thesis by (intro same registration_wf [OF wf] registration_cache)
  next
    case welcomed
    then show ?thesis
      using wf by (intro same) (auto simp: IsAgentWelcomedRequestHandler_def Let_def split_beta)
  next
    case mutations
    then show ?thesis
      using wf by (intro same)
        (auto simp: ReportNewMutationsRequestHandler_def Let_def split_beta addDelta_wf)
  next
    case no_result
    then show ?thesis
      by (intro same no_result_wf [OF wf])
        (auto simp: ReportTestcaseWithNoResultRequestHandler_def Let_def split_beta split: if_splits bind_splits)
  next
    case completed
    then show ?thesis
      using wf by (intro same)
        (auto simp: GetNewCompletedTestcaseIDsRequestHandler_def Let_def split_beta)
  next
    case to_mutate
    then show ?thesis
      using to_mutate_wf [OF wf] by (intro same)
        (auto simp: GetTestcaseToMutateRequestHandler_def Let_def split_beta)
  next
    case coverage
    then show ?thesis
      using wf by (intro same)
        (auto simp: GetCurrentBlockCoverageRequestHandler_def Let_def split_beta)
  next
    case fuzzjob
    then show ?thesis
      using wf by (intro same)
        (auto simp: GetFuzzJobConfigurationRequestHandler_def Let_def split_beta)
  next
    case cleanup
    then show ?thesis by (intro same) (simp_all add: DBCleanupWorker_round_wf [OF wf])
  next
    case monitor
    then show ?thesis
      by (intro same InstanceMonitorWorker_round_wf [OF _ wf])
        (auto simp: InstanceMonitorWorker_round_def Let_def split_beta dest: poll_instances_cache)
  next
    case control
    then show ?thesis
      by (intro same setTGsAndTEsAtTRs_wf [OF _ wf])
        (auto simp: setTGsAndTEsAtTRs_def Let_def split_beta dest: inform_runners_cache)
  next
    case garbage
    then show ?thesis using wf by (intro same) simp_all
  qed
qed

interpretation lm_system: invariant_system "lm_start D" "lm_step D E cfg" lm_inv for D E cfg
  by unfold_locales (auto intro: lm_start_inv lm_step_inv)

end
