(* ===== verification/LMStore.thy ===== *)
theory LMStore
  imports LMSystem
begin

text \<open>
  The abstract specification of the local manager: a store of testcases. An abstract step puts a new
  entry, drops entries, changes a rating, stores the blocks of a locked entry, unlocks an entry into
  the population, or describes a crash. Every step of the local manager is a sequence of these.
\<close>

section \<open>The abstract store\<close>

type_synonym tc_store = "string \<times> 64 word \<Rightarrow> tc_view option"

inductive store_step :: "tc_store \<Rightarrow> tc_store \<Rightarrow> bool" where
  put: "ty \<notin> {Population, Inactive_Population} \<Longrightarrow> store_step m (m(k \<mapsto> new_view p r raw ty))"
| drop: "store_step m (m |` K)"
| rate: "store_step m (modify (\<lambda>v. v\<lparr>v_rating := v_rating v + d\<rparr>) k m)"
| cover: "(\<And>v. m k = Some v \<Longrightarrow> v_type v = Locked) \<Longrightarrow>
    store_step m (modify (\<lambda>v. v\<lparr>v_blocks := v_blocks v \<union> bs\<rparr>) k m)"
| unlock: "(\<And>v. m k = Some v \<Longrightarrow> v_type v = Locked) \<Longrightarrow>
    store_step m (modify (\<lambda>v. v\<lparr>v_type := Population\<rparr>) k m)"
| describe: "(\<And>v. m k = Some v \<Longrightarrow> v_type v \<in> {Exception_AccessViolation_type, Exception_Other_type}) \<Longrightarrow>
    store_step m (modify (\<lambda>v. v\<lparr>v_crash := Some f\<rparr>) k m)"

abbreviation store_steps :: "tc_store \<Rightarrow> tc_store \<Rightarrow> bool" where
  "store_steps \<equiv> rtranclp store_step"

definition entry_inv :: "tc_view \<Rightarrow> bool" where
  "entry_inv v \<longleftrightarrow> v_type v \<noteq> Inactive_Population \<and>
     (v_blocks v \<noteq> {} \<longrightarrow> v_type v \<in> {Locked, Population}) \<and>
     (v_crash v \<noteq> None \<longrightarrow> v_type v \<in> {Exception_AccessViolation_type, Exception_Other_type})"

definition store_inv :: "tc_store \<Rightarrow> bool" where
  "store_inv m \<longleftrightarrow> (\<forall>k v. m k = Some v \<longrightarrow> entry_inv v)"

lemma store_inv_modify:
  assumes "store_inv m" and "\<And>v. m k = Some v \<Longrightarrow> entry_inv v \<Longrightarrow> entry_inv (f v)"
  shows "store_inv (modify f k m)"
  using assms unfolding store_inv_def modify_def by (metis fun_upd_apply map_option_eq_Some)

lemma store_step_inv:
  assumes "store_step m m'" and inv: "store_inv m"
  shows "store_inv m'"
  using assms(1)
proof cases
  case (put ty k p r raw)
  then have "entry_inv (new_view p r raw ty)" by (simp add: entry_inv_def new_view_def)
  with put inv show ?thesis unfolding store_inv_def by (metis fun_upd_apply option.inject)
next
  case (drop K)
  with inv show ?thesis unfolding store_inv_def restrict_map_def by (metis option.distinct(1))
qed (use inv in \<open>force intro!: store_inv_modify simp: entry_inv_def\<close>)+

interpretation store_system: invariant_system "\<lambda>m. m = Map.empty" store_step store_inv
  by unfold_locales (simp add: store_inv_def, rule store_step_inv)

section \<open>Methods that leave the store alone\<close>

lemma exec_stmt_same:
  assumes "\<And>now t. f now s = Some t \<Longrightarrow> interesting_testcases t = interesting_testcases s \<and>
      covered_blocks t = covered_blocks s \<and> crash_descriptions t = crash_descriptions s"
  shows "db_view (snd (exec_stmt D f s)) = db_view s"
proof -
  obtain ok s' where e: "exec_stmt D f s = (ok, s')" by fastforce
  then have "db_view s' = db_view s"
  proof (cases rule: exec_stmt_cases)
    case (executed t)
    then show ?thesis using assms [OF executed(3)] by (intro db_view_cong) simp_all
  qed (auto intro: db_view_cong)
  with e show ?thesis by simp
qed

lemma next_stmt_same [simp]: "db_view (next_stmt s) = db_view s"
  by (simp add: fun_eq_iff)

lemma fold_insert_logmessage_frame:
  "interesting_testcases (fold (insert_logmessage g now) ms s) = interesting_testcases s \<and>
   covered_blocks (fold (insert_logmessage g now) ms s) = covered_blocks s \<and>
   crash_descriptions (fold (insert_logmessage g now) ms s) = crash_descriptions s"
  by (induction ms arbitrary: s) (simp_all add: insert_logmessage_def)

lemma nice_name_loop_same: "db_view (snd (nice_name_loop D n g name s)) = db_view s"
proof (induction n arbitrary: s)
  case (Suc n)
  have "db_view (snd (try_nice_name D g name s)) = db_view s"
    by (auto simp: try_nice_name_def intro!: db_view_cong)
  with Suc show ?case by (auto split: prod.splits nice_result.splits)
qed simp

lemma methods_same [simp]:
  "db_view (snd (addEntriesToCompletedTestcasesTable D ts s)) = db_view s"
  "db_view (snd (writeManagedInstance D sd ty st l s)) = db_view s"
  "db_view (snd (addNewManagedInstanceStatus D g line s)) = db_view s"
  "db_view (snd (removeManagedInstance D g l s)) = db_view s"
  "db_view (snd (deleteManagedInstanceStatusOlderThanXSec D x s)) = db_view s"
  "db_view (snd (addNewManagedInstanceLogMessages D g ms s)) = db_view s"
  "db_view (snd (deleteManagedInstanceLogMessagesIfMoreThan D x s)) = db_view s"
  "db_view (snd (deleteManagedInstanceLogMessagesOlderThanXSec D x s)) = db_view s"
  "db_view (snd (initializeBillingTable D s)) = db_view s"
  "db_view (snd (addRunnerSeconds D w s)) = db_view s"
  "db_view (snd (addRunTestcasesNoLongerListed D w s)) = db_view s"
  "db_view (snd (cleanCompletedTestcasesTableOlderThanXSec D x s)) = db_view s"
proof -
  show "db_view (snd (addEntriesToCompletedTestcasesTable D ts s)) = db_view s"
    using addEntries_frame(1) by (metis prod.collapse)
  have "db_view (snd (exec_stmt D (\<lambda>_ s. Some (upsert_instance m s)) s)) = db_view s" for m
    by (rule exec_stmt_same) (auto simp: upsert_instance_def)
  then show "db_view (snd (writeManagedInstance D sd ty st l s)) = db_view s"
    by (simp add: writeManagedInstance_def split_beta Let_def nice_name_loop_same)
  have "db_view (snd (exec_stmt D (\<lambda>now s. Some (fold (insert_logmessage g now) ms s)) (next_stmt s))) =
      db_view (next_stmt s)"
    by (rule exec_stmt_same) (use fold_insert_logmessage_frame in auto)
  then show "db_view (snd (addNewManagedInstanceLogMessages D g ms s)) = db_view s"
    by (simp add: addNewManagedInstanceLogMessages_def set_isolation_def)
  have res: "db_view (snd (exec_stmt D (\<lambda>_ s. Some (insert_resource r s)) s)) = db_view s" for r s
    by (rule exec_stmt_same) (auto simp: insert_resource_def)
  then show "db_view (snd (initializeBillingTable D s)) = db_view s"
    by (simp add: initializeBillingTable_def split_beta Let_def)
  have "db_view (snd (exec_stmt D (\<lambda>now s. Some (s\<lparr>completed_testcases := F now s\<rparr>)) s)) = db_view s" for F
    by (rule exec_stmt_same) auto
  then show "db_view (snd (cleanCompletedTestcasesTableOlderThanXSec D x s)) = db_view s"
    by (simp add: cleanCompletedTestcasesTableOlderThanXSec_def split_beta Let_def)
qed (auto simp: addNewManagedInstanceStatus_def removeManagedInstance_def
    deleteManagedInstanceStatusOlderThanXSec_def deleteManagedInstanceLogMessagesIfMoreThan_def
    deleteManagedInstanceLogMessagesOlderThanXSec_def addRunnerSeconds_def
    addRunTestcasesNoLongerListed_def Let_def insert_status_def add_to_resource_def
    intro!: exec_stmt_same split: if_splits)

section \<open>Methods that change the store\<close>

lemma drop_steps: "store_steps m (m |` K)"
  by (rule r_into_rtranclp) (rule store_step.drop)

lemma delete_testcases_steps:
  assumes "db_wf s" shows "store_steps (db_view s) (db_view (delete_testcases P s))"
proof -
  have "db_view (delete_testcases P s) = db_view s |` {k. \<exists>r. lookup_row s k = Some r \<and> \<not> P r}"
    by (rule ext, unfold view_delete [OF assms]) (auto simp: restrict_map_def db_view_def split: option.splits)
  then show ?thesis by (simp only: drop_steps)
qed

lemma exec_stmt_steps:
  assumes "\<And>now t. f now s = Some t \<Longrightarrow> store_steps (db_view s) (db_view t)"
  shows "store_steps (db_view s) (db_view (snd (exec_stmt D f s)))"
proof -
  obtain ok s' where e: "exec_stmt D f s = (ok, s')" by fastforce
  then have "store_steps (db_view s) (db_view s')"
  proof (cases rule: exec_stmt_cases)
    case (executed t)
    then have "db_view s' = db_view t" by (auto intro!: db_view_cong)
    with executed assms [OF executed(3)] show ?thesis by simp
  qed simp
  with e show ?thesis by simp
qed

lemma delete_above_steps:
  "db_wf s \<Longrightarrow> store_steps (db_view s) (db_view (delete_above P lim s))"
  by (auto simp: delete_above_def delete_testcases_steps split: option.splits)

lemma dropTestcaseType_steps:
  assumes "db_wf s" shows "store_steps (db_view s) (db_view (snd (dropTestcaseTypeIFMoreThan D ty n s)))"
proof -
  have "store_steps (db_view (next_stmt s)) (db_view (snd (dropTestcaseTypeIFMoreThan D ty n s)))"
    unfolding dropTestcaseTypeIFMoreThan_def set_isolation_def
    by (rule exec_stmt_steps) (auto simp: Let_def delete_above_steps assms simp del: next_stmt_same view_stmt_no)
  then show ?thesis by simp
qed

lemma dropCrash_steps:
  assumes "db_wf s"
  shows "store_steps (db_view s) (db_view (snd (dropTestcaseIfCrashFootprintAppearedMoreThanXTimes D n f s)))"
  unfolding dropTestcaseIfCrashFootprintAppearedMoreThanXTimes_def
  by (rule exec_stmt_steps) (auto simp: Let_def delete_above_steps assms)

lemma addDelta_steps:
  assumes "db_wf s" shows "store_steps (db_view s) (db_view (snd (addDeltaToTestcaseRating D t d s)))"
proof -
  obtain ok s' where "addDeltaToTestcaseRating D t d s = (ok, s')" by fastforce
  with addDelta_view [OF assms this] show ?thesis by (auto intro: store_step.rate)
qed

lemma addEntry_steps:
  assumes "db_wf s" and "ty \<notin> {Population, Inactive_Population}"
    and "addEntryToInterestingTestcasesTable D t p r dir ty s a = (ok, s', a')"
  shows "store_steps (db_view s) (db_view s')"
proof (cases ok)
  case False
  then show ?thesis using addEntryToInteresting_view(1) [OF assms(1,3)] by simp
next
  case True
  let ?k = "tid_key t" let ?m = "db_view s |` (- {?k})"
  have m: "store_steps (db_view s) ?m" by (rule drop_steps)
  have other: "db_view s' q = ?m q" if "q \<noteq> ?k" for q
    using addEntryToInteresting_view(2) [OF assms(1,3) that] that by simp
  from addEntryToInteresting_view(5) [OF assms(1,3) True] show ?thesis
  proof
    assume none: "db_view s' ?k = None"
    have "db_view s' q = ?m q" for q
    proof (cases "q = ?k")
      case True
      then show ?thesis unfolding True none by simp
    qed (rule other)
    then have "db_view s' = ?m" by (rule ext)
    with m show ?thesis by (simp only:)
  next
    assume "\<exists>pk. db_view s' ?k = Some (new_view pk r (loadTestcaseInMemory t dir a) ty)"
    then obtain v pk where v: "v = new_view pk r (loadTestcaseInMemory t dir a) ty" and
        new: "db_view s' ?k = Some v" by blast
    have "db_view s' q = (?m(?k \<mapsto> v)) q" for q
    proof (cases "q = ?k")
      case True
      then show ?thesis unfolding True new by simp
    next
      case False
      then show ?thesis using other [OF False] by (metis fun_upd_other)
    qed
    then have "db_view s' = ?m(?k \<mapsto> v)" by (rule ext)
    then have "store_step ?m (db_view s')" unfolding v by (simp only: store_step.put [OF assms(2)])
    with m show ?thesis by (rule rtranclp.rtrancl_into_rtrancl [of store_step])
  qed
qed

lemma keep_testcase_steps:
  assumes wf: "db_wf (lm_db st)" and run: "keep_testcase D dir req st = (ok, st')"
  shows "store_steps (db_view (lm_db st)) (db_view (lm_db st'))"
proof -
  let ?ty = "tcType_of (tr_exitType (request_result req))" and ?k = "tid_key (request_id req)"
  have types: "?ty \<in> {Population, Hang_type, Exception_AccessViolation_type, Exception_Other_type}"
    by (simp add: tcType_of_def split: ExitType.splits)
  let ?add = "addEntryToInterestingTestcasesTable D (request_id req) (request_parent req)
       (if ?ty = Population then defaultInitialPopulationRating else 0) dir
       (if ?ty = Population then Locked else ?ty) (lm_db st) (lm_agent st)"
  obtain ok1 db1 a1 where add: "?add = (ok1, db1, a1)" by (cases ?add) auto
  have s1: "store_steps (db_view (lm_db st)) (db_view db1)"
    by (rule addEntry_steps [OF wf _ add]) (use types in auto)
  have wf1: "db_wf db1" using addEntryToInteresting_wf [OF wf] add by (metis fst_conv snd_conv)
  have new: "\<And>v. ok1 \<Longrightarrow> db_view db1 ?k = Some v \<Longrightarrow> v_type v = (if ?ty = Population then Locked else ?ty)"
    using addEntryToInteresting_view(5) [OF wf add] by (fastforce simp: new_view_def)
  show ?thesis
  proof (cases "?ty = Population")
    case True
    from wf True run show ?thesis
    proof (cases rule: keep_population_cases)
      case (1 ok1' db1' a1' ok2 db2 ok3 db3)
      have same: "ok1' = ok1" "db1' = db1" using 1(1) add True by simp_all
      let ?bs = "set_of_list (\<lambda>b. b) (map block_of_proto (tr_blocks (request_result req)))"
      have v2: "db_view db2 = (if ok2 then modify (\<lambda>v. v\<lparr>v_blocks := v_blocks v \<union> stored_block ` set ?bs\<rparr>) ?k
          (db_view db1) else db_view db1)"
        using addBlocks_view(1) [OF 1(4,2)] by (simp only: same)
      have v3: "db_view db3 = (if ok3 then modify (\<lambda>v. v\<lparr>v_type := Population\<rparr>) ?k (db_view db2)
          else db_view db2)"
        by (rule setTestcaseType_view [OF 1(5,3)])
      have s2: "ok1 \<Longrightarrow> store_steps (db_view db1) (db_view db2)"
        unfolding v2 using new True by (auto intro!: r_into_rtranclp store_step.cover)
      have "ok1 \<Longrightarrow> db_view db2 ?k = Some v \<Longrightarrow> v_type v = Locked" for v
        unfolding v2 using new True by (auto simp: modify_def split: if_splits)
      then have s3: "ok1 \<Longrightarrow> store_steps (db_view db2) (db_view db3)"
        unfolding v3 by (auto intro!: r_into_rtranclp store_step.unlock)
      show ?thesis
        unfolding 1(8) same using s1 s2 s3 by (auto intro: rtranclp_trans)
    qed
  next
    case False
    let ?f = "tr_crashFootprint (request_result req)"
    obtain ok2 db2 where cd: "addEntryToCrashDescriptionsTable D (request_id req) ?f db1 = (ok2, db2)"
      by fastforce
    have st': "lm_db st' = (if ok1 \<and> ?ty \<noteq> Hang_type then db2 else db1)"
      using run add cd False types
      unfolding keep_testcase_def request_id_def request_parent_def request_result_def
      by (auto simp: Let_def lift_db_def split: if_splits)
    have "ok1 \<and> ?ty \<noteq> Hang_type \<Longrightarrow> store_steps (db_view db1) (db_view db2)"
      unfolding addCrash_view [OF wf1 cd] using new False types
      by (auto intro!: r_into_rtranclp store_step.describe)
    with st' s1 show ?thesis by (auto intro: rtranclp_trans)
  qed
qed

section \<open>The local manager implements the store\<close>

abbreviation lm_store :: "lm \<Rightarrow> tc_store" where
  "lm_store st \<equiv> db_view (lm_db st)"

lemma markTestcaseAsCompleted_same:
  "db_view (lm_db (snd (markTestcaseAsCompleted D E force t st))) = db_view (lm_db st)"
proof -
  obtain ok st' where m: "markTestcaseAsCompleted D E force t st = (ok, st')" by fastforce
  then have "db_view (lm_db st') = db_view (lm_db st)"
  proof (cases rule: markTestcaseAsCompleted_cases)
    case (flush db)
    then show ?thesis using addEntries_frame(1) [OF flush(1)] by simp
  qed simp
  with m show ?thesis by simp
qed

lemma evaluation_steps:
  assumes wf: "db_wf (lm_db st)" and run: "PutTestEvaluationRequestHandler D E cfg m st = Some (r, st')"
  shows "store_steps (lm_store st) (lm_store st')"
proof -
  let ?r = "puttestevaluationrequest m"
  obtain ok1 st1 where m: "markTestcaseAsCompleted D E (m_forceFlushAfterMS cfg)
      (tid_of_proto (opt_or default_TestcaseID (pte_id ?r))) st = (ok1, st1)" by fastforce
  obtain ok2 st2 where d: "lift_db (addDeltaToTestcaseRating D
      (tid_of_proto (opt_or default_TestcaseID (pte_parentId ?r))) (pte_parentRatingDelta ?r)) st1
      = (ok2, st2)" by fastforce
  have w1: "db_wf (lm_db st1)" using markTestcaseAsCompleted_wf [OF wf] m by (metis snd_conv)
  have w2: "db_wf (lm_db st2)" using addDelta_wf [OF w1] d by (metis lift_db_simps(1) snd_conv)
  have s1: "lm_store st1 = lm_store st" using markTestcaseAsCompleted_same m by (metis snd_conv)
  have s2: "store_steps (lm_store st) (lm_store st2)"
    using addDelta_steps [OF w1] d by (metis lift_db_simps(1) snd_conv s1)
  have s3: "store_steps (lm_store st2) (lm_store (snd (keep_testcase D dir ?r (st2\<lparr>lm_agent := a\<rparr>))))" for dir a
    using keep_testcase_steps [of "st2\<lparr>lm_agent := a\<rparr>" D dir ?r, OF _ surjective_pairing] w2 by simp
  note s23 = rtranclp_trans [OF s2 s3]
  show ?thesis
    using run s1 s2 s23 unfolding PutTestEvaluationRequestHandler_def Let_def m d split_beta
    by (auto simp: d split: if_splits bind_splits TestEvaluation.splits)
qed

lemma no_result_steps:
  assumes wf: "db_wf (lm_db st)"
    and run: "ReportTestcaseWithNoResultRequestHandler D E cfg req st = Some (r, st')"
  shows "store_steps (lm_store st) (lm_store st')"
proof -
  have "store_steps (lm_store st) (db_view (fst (snd
      (addEntryToInterestingTestcasesTable D t p rt dir NoResponse (lm_db st) a))))" for t p rt dir a
    by (rule addEntry_steps [OF wf]) (auto simp: prod_eq_iff)
  with run show ?thesis
    unfolding ReportTestcaseWithNoResultRequestHandler_def Let_def split_beta
    by (auto split: if_splits bind_splits)
qed

lemma registration_same:
  assumes "RegisterAtLMRequestHandler D cfg m st = Some (r, st')"
  shows "lm_store st' = lm_store st"
proof -
  have d: "db_view s' = db_view (lm_db st)" if "decideSubAgentType D ty ts (next_stmt (lm_db st)) = Some (t, s')"
    for ty ts t s'
    using that unfolding decideSubAgentType_def Let_def split_beta
    by (auto split: if_splits bind_splits)
  show ?thesis
    using assms unfolding RegisterAtLMRequestHandler_def Let_def split_beta
    by (auto dest!: d split: if_splits bind_splits)
qed

lemma cleanup_steps:
  assumes "db_wf s"
  shows "store_steps (db_view s) (db_view (DBCleanupWorker_round D interval location s))"
proof -
  have 1: "db_view (updateRunnerSeconds D interval location u) = db_view u"
      "db_view (updateRunTestcasesNoLongerShowing D u) = db_view u" for u
    by (simp_all add: updateRunnerSeconds_def updateRunTestcasesNoLongerShowing_def Let_def split_beta)
  have 2: "store_steps (db_view u) (db_view (dropCrashesThatAppearedMoreThanXTimes D n u))" if "db_wf u" for n u
  proof -
    have "db_wf w \<Longrightarrow> store_steps (db_view w) (db_view (fold (\<lambda>f s. snd
        (dropTestcaseIfCrashFootprintAppearedMoreThanXTimes D n f s)) fs w))" for fs w
      by (induction fs arbitrary: w) (auto intro: rtranclp_trans [OF dropCrash_steps] dropCrash_wf)
    from this [of "next_stmt u"] that show ?thesis
      by (simp add: dropCrashesThatAppearedMoreThanXTimes_def Let_def split_beta getAllCrashFootprints_state)
  qed
  have w: "db_wf (updateRunTestcasesNoLongerShowing D (updateRunnerSeconds D interval location s))"
    by (simp add: updateRunTestcasesNoLongerShowing_def updateRunnerSeconds_def Let_def split_beta
        assms billing_wf cleanCompleted_wf)
  have w2: "db_wf (dropCrashesThatAppearedMoreThanXTimes D 1000
      (updateRunTestcasesNoLongerShowing D (updateRunnerSeconds D interval location s)))"
    using w unfolding dropCrashesThatAppearedMoreThanXTimes_def Let_def split_beta
    by (intro fold_wf dropCrash_wf) (simp_all add: getAllCrashFootprints_state)
  show ?thesis
    unfolding DBCleanupWorker_round_def Let_def
    using rtranclp_trans [OF rtranclp_trans [OF 2 [OF w, of 1000, unfolded 1] dropTestcaseType_steps [OF w2]]
      dropTestcaseType_steps [OF dropTestcaseType_wf [OF w2]]] .
qed

lemma inform_runners_same:
  "inform_runners D E req location rs st = Some st' \<Longrightarrow> lm_store st' = lm_store st"
proof (induction rs arbitrary: st)
  case (Cons r rs)
  from Cons.prems show ?case
  proof (cases rule: inform_runners_Cons)
    case sent
    from Cons.IH [OF sent(2)] show ?thesis by (simp split: if_splits)
  qed simp
qed simp

lemma poll_instances_same:
  "poll_instances D E fmt interval self location is st = Some st' \<Longrightarrow> lm_store st' = lm_store st"
proof (induction "is" arbitrary: st)
  case (Cons i "is")
  have "lm_store st2 = lm_store st1" if "storeStatus D fmt interval i line st1 = Some st2" for line st1 st2
    using that by (auto simp: storeStatus_def split: bind_splits)
  note status = this
  from Cons.prems show ?case
    by (cases rule: poll_instances_Cons) (auto dest!: Cons.IH status)
qed simp

lemma lm_step_store:
  assumes "lm_step D E cfg st st'" and inv: "lm_inv st"
  shows "store_steps (lm_store st) (lm_store st')"
proof -
  have wf: "db_wf (lm_db st)" using inv by (simp add: lm_inv_def)
  have same: ?thesis if "lm_store st' = lm_store st" using that by simp
  from assms(1) show ?thesis
  proof cases
    case evaluation
    then show ?thesis by (rule evaluation_steps [OF wf])
  next
    case registration
    then show ?thesis by (intro same registration_same)
  next
    case welcomed
    then show ?thesis by (intro same) (auto simp: IsAgentWelcomedRequestHandler_def Let_def split_beta)
  next
    case mutations
    then show ?thesis
      using addDelta_steps [OF wf] by (auto simp: ReportNewMutationsRequestHandler_def Let_def split_beta)
  next
    case no_result
    then show ?thesis by (rule no_result_steps [OF wf])
  next
    case completed
    then show ?thesis
      by (intro same) (auto simp: GetNewCompletedTestcaseIDsRequestHandler_def Let_def split_beta)
  next
    case to_mutate
    have "db_view (fst (snd (generateGetTestcaseToMutateResponse D E dir s a))) = db_view s" for dir s a
      by (auto simp: generateGetTestcaseToMutateResponse_def query_def Let_def split: option.splits)
    with to_mutate show ?thesis
      by (intro same) (auto simp: GetTestcaseToMutateRequestHandler_def Let_def split_beta)
  next
    case coverage
    then show ?thesis
      by (intro same) (auto simp: GetCurrentBlockCoverageRequestHandler_def Let_def split_beta)
  next
    case fuzzjob
    then show ?thesis
      by (intro same) (auto simp: GetFuzzJobConfigurationRequestHandler_def Let_def split_beta)
  next
    case cleanup
    then show ?thesis using cleanup_steps [OF wf] by simp
  next
    case monitor
    then show ?thesis
      by (intro same) (auto simp: InstanceMonitorWorker_round_def Let_def split_beta dest: poll_instances_same)
  next
    case control
    then show ?thesis
      by (intro same) (auto simp: setTGsAndTEsAtTRs_def updateStatusInformation_def Let_def split_beta
          dest!: inform_runners_same)
  next
    case garbage
    then show ?thesis by (intro same) simp
  qed
qed

lemma lm_start_store: "lm_start D st \<Longrightarrow> lm_store st = Map.empty"
proof (erule lm_startE)
  fix modules toCover sets ok db a t
  assume "st = \<lparr>lm_db = db, lm_agent = a, m_completedTestcases_notYetPushedToDB = [], m_timeOfLastFlush = t\<rparr>"
    and "initializeBillingTable D (lmdb_setup modules toCover sets) = (ok, db)"
  then have "lm_store st = db_view (lmdb_setup modules toCover sets)"
    using methods_same(9) [of D "lmdb_setup modules toCover sets"] by simp
  then show "lm_store st = Map.empty"
    by (simp add: fun_eq_iff db_view_def lookup_row_def lmdb_setup_def)
qed

interpretation lm_implements_store: abstraction "lm_start D" "lm_step D E cfg" lm_inv
    "\<lambda>m. m = Map.empty" store_step lm_store for D E cfg
  by unfold_locales (rule lm_start_store, assumption, rule lm_step_store)

end
