(* ===== verification/LMProps.thy ===== *)
theory LMProps
  imports LMStore
begin

text \<open>
  The properties of the local manager, each with a witness where it has hypotheses, and the concrete
  database and environment that the witnesses run on.
\<close>

section \<open>A concrete local manager\<close>

definition wit_D :: dbenv where
  "wit_D = \<lparr>db_ok = \<lambda>_. True, db_now = int, db_order = \<lambda>_. sort\<rparr>"

definition wit_sets :: "(string \<times> string) list" where
  "wit_sets = [(''generatorTypes'', ''A=70|B=30''), (''runnerType'', ''X'')]"

definition wit_setup :: lmdb where
  "wit_setup = lmdb_setup [\<lparr>tm_ID = 1, tm_ModuleName = ''m'', tm_ModulePath = ''*''\<rparr>] [] wit_sets"

definition wit_lm :: lm where
  "wit_lm = \<lparr>lm_db = snd (initializeBillingTable wit_D wit_setup), lm_agent = fresh_agent,
     m_completedTestcases_notYetPushedToDB = [], m_timeOfLastFlush = 0\<rparr>"

definition wit_cfg :: lm_config where
  "wit_cfg = \<lparr>m_testcaseDir = ''d'', m_forceFlushAfterMS = 1000, m_mylocation = ''here'', m_myfuzzjob = ''job''\<rparr>"

lemma wit_D_ok [simp]: "db_ok wit_D n" "db_order wit_D k xs = sort xs" "db_now wit_D n = int n"
  by (simp_all add: wit_D_def)

lemma wit_lm_db: "lm_db wit_lm = wit_setup\<lparr>stmt_no := 2,
    billing := [(''RunnerSeconds'', 0), (''RunTestcasesNoLongerListed'', 0)]\<rparr>"
  by (simp add: wit_lm_def initializeBillingTable_def exec_stmt_def insert_resource_def wit_setup_def
      lmdb_setup_def Let_def numeral_2_eq_2)

lemma wit_lm_reach: "lm_reach wit_D E wit_cfg wit_lm"
  unfolding wit_lm_def wit_setup_def
  by (rule reachable.at_start, rule lm_start.start [OF surjective_pairing]) (simp add: fresh_agent_def)

lemma wit_lm_wf: "db_wf (lm_db wit_lm)"
  using lm_system.reachable_inv [OF wit_lm_reach] by (simp add: lm_inv_def)

lemma wit_lm_empty [simp]: "db_view (lm_db wit_lm) k = None"
  by (simp add: wit_lm_db db_view_def lookup_row_def wit_setup_def lmdb_setup_def)

text \<open>Three population entries, a hang and two crashes of one footprint.\<close>

definition wit_it :: "nat \<Rightarrow> int \<Rightarrow> TestCaseType \<Rightarrow> it_row" where
  "wit_it i rating ty = \<lparr>it_ID = i, it_CreatorGUID = ''g'', it_CreatorLocalID = of_nat i,
     it_ParentGUID = ''g'', it_ParentLocalID = 0, it_Rating = rating, it_RawBytes = ''abc'',
     it_TestCaseType = ty, it_TimeOfInsertion = 0\<rparr>"

definition wit_db :: lmdb where
  "wit_db = wit_setup\<lparr>interesting_testcases := [wit_it 1 5 Population, wit_it 2 9 Population,
       wit_it 3 7 Population, wit_it 4 0 Hang_type, wit_it 5 0 Exception_Other_type,
       wit_it 6 0 Exception_Other_type],
     next_it := 7,
     crash_descriptions := [\<lparr>cd_ID = 1, cd_CreatorTestcaseID = 5, cd_CrashFootprint = ''f''\<rparr>,
       \<lparr>cd_ID = 2, cd_CreatorTestcaseID = 6, cd_CrashFootprint = ''f''\<rparr>],
     next_cd := 3\<rparr>"

lemma wit_db_wf: "db_wf wit_db"
  by (simp add: wit_db_def wit_setup_def lmdb_setup_def wit_it_def db_wf_def wf_defs)

section \<open>The state machine\<close>





section \<open>Evaluations\<close>

lemma kept_evaluation:
  assumes "lm_reach D E cfg st" and "\<And>n. db_ok D n"
    and "\<And>x. x \<in> insert (request_id req) (set (m_completedTestcases_notYetPushedToDB st)) \<Longrightarrow>
          length (tid_guid x) < 50"
    and "\<And>v. db_view (lm_db st) (tid_key (request_parent req)) = Some v \<Longrightarrow>
          int32_range (v_rating v + pte_parentRatingDelta req)"
    and "pte_eval req = Keep" and "tr_exitType (request_result req) = CleanExit"
    and "fst ` request_blocks req \<subseteq> tm_ID ` set (target_modules (lm_db st))"
    and "tid_guid (request_parent req) \<noteq> ''special''"
    and "pte_testCaseFirstChunk req = chunk_of content 0" and "pte_isLastChunk req = last_chunk content 0"
    and "sockets_idle (lm_agent st)"
    and "\<not> last_chunk content 0 \<Longrightarrow> serves E (sd_serviceHostAndPort (opt_or default_ServiceDescriptor
          (pte_sdOfEvaluator req))) Ep pdir del p (request_id req) \<and>
          files p (generateTestcasePathAndFilename (request_id req) pdir) = Some content"
    and "files (lm_agent st) (generateTestcasePathAndFilename (request_id req) (m_testcaseDir cfg)) = None"
    and "env_open_ok E (Suc (tick (lm_agent st)))
          (generateTestcasePathAndFilename (request_id req) (m_testcaseDir cfg))"
  shows "\<exists>st'. PutTestEvaluationRequestHandler D E cfg (PutTestEvaluationRequest req) st =
      Some (PutTestEvaluationResponse True, st') \<and>
    lm_store st' = (modify (\<lambda>v. v\<lparr>v_rating := v_rating v + pte_parentRatingDelta req\<rparr>)
       (tid_key (request_parent req)) (lm_store st))
     (tid_key (request_id req) \<mapsto> \<lparr>v_parent = tid_key (request_parent req),
       v_rating = defaultInitialPopulationRating,
       v_bytes = content, v_type = Population, v_blocks = request_blocks req, v_crash = None\<rparr>)"
proof -
  have wf: "db_wf (lm_db st)" using lm_system.reachable_inv [OF assms(1)] by (simp add: lm_inv_def)
  have fetched: "\<exists>a'. storeTestcaseFileOnDisk E (request_id req) (m_testcaseDir cfg) (pte_testCaseFirstChunk req)
        (pte_isLastChunk req) (sd_serviceHostAndPort (opt_or default_ServiceDescriptor (pte_sdOfEvaluator req))) a =
        Some (True, a') \<and>
      files a' = (files a)(generateTestcasePathAndFilename (request_id req) (m_testcaseDir cfg) \<mapsto> content)"
    if a: "a = next_tick (lm_agent st)" for a
    using storeTestcaseFileOnDisk_fetches [of a content E _ Ep pdir del p "request_id req" "m_testcaseDir cfg"]
      assms(9-14) by (fastforce simp: a sockets_idle_def)
  from evaluation_stored [OF wf assms(2,3,4,5,6,7) fetched] obtain st' q where
    "PutTestEvaluationRequestHandler D E cfg (PutTestEvaluationRequest req) st =
      Some (PutTestEvaluationResponse True, st')"
    "lm_store st' = (modify (\<lambda>v. v\<lparr>v_rating := v_rating v + pte_parentRatingDelta req\<rparr>)
       (tid_key (request_parent req)) (lm_store st))
     (tid_key (request_id req) \<mapsto> \<lparr>v_parent = q, v_rating = defaultInitialPopulationRating,
       v_bytes = content, v_type = Population, v_blocks = request_blocks req, v_crash = None\<rparr>)"
    "tid_guid (request_parent req) \<noteq> ''special'' \<Longrightarrow> q = tid_key (request_parent req)"
    by blast
  with assms(8) show ?thesis by auto
qed

definition wit_eval :: PutTestEvaluationRequest_t where
  "wit_eval = \<lparr>pte_id = Some (tid_getProtobuf wit_tid),
     pte_parentId = Some (tid_getProtobuf (mkTestcaseID (mkServiceDescriptor ''h:1'' ''g'') 1)),
     pte_eval = Keep, pte_parentRatingDelta = 3,
     pte_result = Some \<lparr>tr_exitType = CleanExit, tr_blocks = [\<lparr>bb_RVA = 16, bb_moduleID = 1\<rparr>],
       tr_crashFootprint = '''', tr_hasFullCoverage = True\<rparr>,
     pte_testCaseFirstChunk = ''abc'', pte_isLastChunk = True, pte_sdOfEvaluator = None\<rparr>"

lemma wit_eval_simps [simp]:
  "request_id wit_eval = wit_tid" "tid_key (request_parent wit_eval) = (''g'', 1)"
  "tid_guid (request_parent wit_eval) = ''g''" "tid_key wit_tid = (''g'', 7)" "tid_guid wit_tid = ''g''"
  "request_blocks wit_eval = {(1, 16)}" "tr_exitType (request_result wit_eval) = CleanExit"
  by (simp_all add: wit_eval_def request_id_def request_parent_def request_blocks_def request_result_def
      wit_tid_def tid_key_def mkTestcaseID_def mkServiceDescriptor_def tid_of_proto_def tid_getProtobuf_def
      sd_of_proto_def sd_getProtobuf_def stored_block_def block_of_proto_def)

lemma wit_lm_simps [simp]:
  "lm_agent wit_lm = fresh_agent" "m_completedTestcases_notYetPushedToDB wit_lm = []"
  "target_modules (lm_db wit_lm) = [\<lparr>tm_ID = 1, tm_ModuleName = ''m'', tm_ModulePath = ''*''\<rparr>]"
  by (simp_all add: wit_lm_def initializeBillingTable_def exec_stmt_def insert_resource_def wit_setup_def
      lmdb_setup_def Let_def)

lemma wit_content: "chunk_of ''abc'' 0 = ''abc''" "last_chunk ''abc'' 0"
  by (simp_all add: chunk_of_def last_chunk_def chunkSizeInBytes_def)

lemma wit_eval_fields [simp]:
  "pte_eval wit_eval = Keep" "pte_testCaseFirstChunk wit_eval = ''abc''" "pte_isLastChunk wit_eval"
  "pte_parentRatingDelta wit_eval = 3"
  by (simp_all add: wit_eval_def)

lemma wit_eval_run:
  "\<exists>st'. PutTestEvaluationRequestHandler wit_D quiet_env wit_cfg (PutTestEvaluationRequest wit_eval) wit_lm =
      Some (PutTestEvaluationResponse True, st') \<and>
    lm_store st' (''g'', 7) = Some \<lparr>v_parent = (''g'', 1), v_rating = 10000, v_bytes = ''abc'',
      v_type = Population, v_blocks = {(1, 16)}, v_crash = None\<rparr>"
proof -
  have "\<exists>st'. PutTestEvaluationRequestHandler wit_D quiet_env wit_cfg (PutTestEvaluationRequest wit_eval) wit_lm =
      Some (PutTestEvaluationResponse True, st') \<and>
    lm_store st' = (modify (\<lambda>v. v\<lparr>v_rating := v_rating v + pte_parentRatingDelta wit_eval\<rparr>)
       (tid_key (request_parent wit_eval)) (lm_store wit_lm))
     (tid_key (request_id wit_eval) \<mapsto> \<lparr>v_parent = tid_key (request_parent wit_eval),
       v_rating = defaultInitialPopulationRating,
       v_bytes = ''abc'', v_type = Population, v_blocks = request_blocks wit_eval, v_crash = None\<rparr>)"
    by (rule kept_evaluation [OF wit_lm_reach])
      (simp_all add: wit_content fresh_agent_def sockets_idle_def quiet_env_def)
  then show ?thesis by (auto simp: defaultInitialPopulationRating_def)
qed

text \<open>
  C1: When the server executes the statements, an evaluation that keeps a clean run is answered with
  success, and the abstract content of the database is the old one with the parent's rating changed and
  the new population entry: the content that the evaluator serves in chunks, byte by byte, its blocks
  and its parent.
\<close>

theorem kept_evaluation_is_stored:
  assumes "lm_reach D E cfg st" and "\<And>n. db_ok D n"
    and "\<And>x. x \<in> insert (request_id req) (set (m_completedTestcases_notYetPushedToDB st)) \<Longrightarrow>
          length (tid_guid x) < 50"
    and "\<And>v. db_view (lm_db st) (tid_key (request_parent req)) = Some v \<Longrightarrow>
          int32_range (v_rating v + pte_parentRatingDelta req)"
    and "pte_eval req = Keep" and "tr_exitType (request_result req) = CleanExit"
    and "fst ` request_blocks req \<subseteq> tm_ID ` set (target_modules (lm_db st))"
    and "tid_guid (request_parent req) \<noteq> ''special''"
    and "pte_testCaseFirstChunk req = chunk_of content 0" and "pte_isLastChunk req = last_chunk content 0"
    and "sockets_idle (lm_agent st)"
    and "\<not> last_chunk content 0 \<Longrightarrow> serves E (sd_serviceHostAndPort (opt_or default_ServiceDescriptor
          (pte_sdOfEvaluator req))) Ep pdir del p (request_id req) \<and>
          files p (generateTestcasePathAndFilename (request_id req) pdir) = Some content"
    and "files (lm_agent st) (generateTestcasePathAndFilename (request_id req) (m_testcaseDir cfg)) = None"
    and "env_open_ok E (Suc (tick (lm_agent st)))
          (generateTestcasePathAndFilename (request_id req) (m_testcaseDir cfg))"
  shows "\<exists>st'. PutTestEvaluationRequestHandler D E cfg (PutTestEvaluationRequest req) st =
      Some (PutTestEvaluationResponse True, st') \<and>
    lm_store st' = (modify (\<lambda>v. v\<lparr>v_rating := v_rating v + pte_parentRatingDelta req\<rparr>)
       (tid_key (request_parent req)) (lm_store st))
     (tid_key (request_id req) \<mapsto> \<lparr>v_parent = tid_key (request_parent req),
       v_rating = defaultInitialPopulationRating,
       v_bytes = content, v_type = Population, v_blocks = request_blocks req, v_crash = None\<rparr>)"
  by (rule kept_evaluation [OF assms])

theorem kept_evaluation_is_stored_witness:
  "\<exists>st'. PutTestEvaluationRequestHandler wit_D quiet_env wit_cfg (PutTestEvaluationRequest wit_eval) wit_lm =
      Some (PutTestEvaluationResponse True, st') \<and>
    lm_store st' (''g'', 7) = Some \<lparr>v_parent = (''g'', 1), v_rating = 10000, v_bytes = ''abc'',
      v_type = Population, v_blocks = {(1, 16)}, v_crash = None\<rparr>"
proof -
  have "\<exists>st'. PutTestEvaluationRequestHandler wit_D quiet_env wit_cfg (PutTestEvaluationRequest wit_eval) wit_lm =
      Some (PutTestEvaluationResponse True, st') \<and>
    lm_store st' = (modify (\<lambda>v. v\<lparr>v_rating := v_rating v + pte_parentRatingDelta wit_eval\<rparr>)
       (tid_key (request_parent wit_eval)) (lm_store wit_lm))
     (tid_key (request_id wit_eval) \<mapsto> \<lparr>v_parent = tid_key (request_parent wit_eval),
       v_rating = defaultInitialPopulationRating,
       v_bytes = ''abc'', v_type = Population, v_blocks = request_blocks wit_eval, v_crash = None\<rparr>)"
    by (rule kept_evaluation_is_stored [OF wit_lm_reach])
      (simp_all add: wit_content fresh_agent_def sockets_idle_def quiet_env_def)
  then show ?thesis by (auto simp: defaultInitialPopulationRating_def)
qed

text \<open>
  In every reachable state, only locked and population entries have covered blocks, only crashes
  have a crash description, and no entry is inactive. So the generators, who mutate population
  entries, never see an entry that was stored as a crash, a hang or without response.
\<close>

theorem lm_reachable_entries:
  assumes "lm_reach D E cfg st" and "lm_store st k = Some v"
  shows "v_type v \<noteq> Inactive_Population \<and> (v_blocks v = {} \<or> v_type v \<in> {Locked, Population}) \<and>
    (v_crash v = None \<or> v_type v \<in> {Exception_AccessViolation_type, Exception_Other_type})"
proof -
  have "store_inv (lm_store st)"
    by (rule lm_implements_store.transfer_inv [OF assms(1)]) (rule store_system.reachable_inv)
  then have "entry_inv v" using assms(2) unfolding store_inv_def by blast
  then show ?thesis by (auto simp: entry_inv_def)
qed

theorem lm_reachable_entries_witness:
  "\<exists>st v. lm_store st (''g'', 7) = Some v \<and> v_blocks v = {(1, 16)} \<and> v_type v \<in> {Locked, Population}"
proof -
  obtain st where e: "PutTestEvaluationRequestHandler wit_D quiet_env wit_cfg (PutTestEvaluationRequest wit_eval)
      wit_lm = Some (PutTestEvaluationResponse True, st)"
    and v: "lm_store st (''g'', 7) = Some \<lparr>v_parent = (''g'', 1), v_rating = 10000, v_bytes = ''abc'',
      v_type = Population, v_blocks = {(1, 16)}, v_crash = None\<rparr>"
    using wit_eval_run by blast
  have "lm_reach wit_D quiet_env wit_cfg st"
    by (rule reachable.by_step [OF wit_lm_reach lm_step.evaluation [OF e]])
  from lm_reachable_entries [OF this v] have "v_type (the (lm_store st (''g'', 7))) \<in> {Locked, Population}"
    unfolding v option.sel by simp
  moreover have "v_blocks (the (lm_store st (''g'', 7))) = {(1, 16)}" unfolding v option.sel by simp
  moreover have "lm_store st (''g'', 7) = Some (the (lm_store st (''g'', 7)))"
    unfolding v option.sel by (rule refl)
  ultimately show ?thesis by (intro exI conjI)
qed

text \<open>
  C5: Whatever fails on the way, a testcase that was not in the population before never appears there
  with only some of its blocks: if the entry is in the population after the handling, all blocks of the
  request are stored with it.
\<close>

theorem population_entries_complete:
  assumes "lm_reach D E cfg st" and "tr_exitType (request_result req) = CleanExit"
    and "keep_testcase D dir req st = (ok, st')"
    and "db_view (lm_db st') (tid_key (request_id req)) = Some v" and "v_type v = Population"
    and "\<And>v. db_view (lm_db st) (tid_key (request_id req)) = Some v \<Longrightarrow> v_type v \<noteq> Population"
  shows "v_blocks v = request_blocks req"
  using lm_system.reachable_inv [OF assms(1)]
  by (intro keep_population_complete [OF _ _ assms(3-6)]) (simp_all add: lm_inv_def assms(2) tcType_of_def)

theorem population_entries_complete_witness:
  "let st' = snd (keep_testcase wit_D ''d'' wit_eval wit_lm) in
    \<exists>v. db_view (lm_db st') (''g'', 7) = Some v \<and> v_type v = Population \<and> v_blocks v = {(1, 16)}"
proof -
  obtain ok st' where k: "keep_testcase wit_D ''d'' wit_eval wit_lm = (ok, st')" by fastforce
  have t: "tcType_of (tr_exitType (request_result wit_eval)) = Population" by (simp add: tcType_of_def)
  have ok using keep_population_succeeds [OF wit_lm_wf, of wit_D wit_eval "''d''"] k by simp
  from keep_population_stored [OF wit_lm_wf t k _ this] obtain v where
    v: "db_view (lm_db st') (''g'', 7) = Some v" "v_type v = Population" by simp
  have "v_blocks v = request_blocks wit_eval"
    by (rule population_entries_complete [OF wit_lm_reach [of quiet_env] _ k]) (use v in simp_all)
  with v k show ?thesis by simp
qed

text \<open>
  No completed testcase is forgotten: after every report, whether the bulk insert is due, succeeds or
  fails, the identifiers in the cache and in the table together are those before and the new one.
\<close>

theorem completed_never_lost:
  "reported_keys (snd (markTestcaseAsCompleted D E force t st)) = insert (tid_key t) (reported_keys st)"
  using markTestcaseAsCompleted_keys [OF surjective_pairing] .

text \<open>
  One identifier whose GUID has 50 characters or more blocks the bulk insert: once it is cached, every
  report after the flush interval fails and the identifier stays in the cache.
\<close>

theorem long_guid_blocks_flush:
  assumes "x \<in> set (m_completedTestcases_notYetPushedToDB st)" and "50 \<le> length (tid_guid x)"
    and "force < env_clock E (tick (lm_agent st)) - m_timeOfLastFlush st"
  shows "\<exists>st'. markTestcaseAsCompleted D E force t st = (False, st') \<and>
    x \<in> set (m_completedTestcases_notYetPushedToDB st')"
  using markTestcaseAsCompleted_blocked [OF assms, of D t] by (metis prod.collapse)

theorem long_guid_blocks_flush_witness:
  "\<exists>st'. markTestcaseAsCompleted wit_D quiet_env (-1) wit_tid
      (wit_lm\<lparr>m_completedTestcases_notYetPushedToDB :=
        [mkTestcaseID (mkServiceDescriptor '''' (replicate 50 (CHR ''x''))) 1]\<rparr>) = (False, st')"
  using long_guid_blocks_flush [of "mkTestcaseID (mkServiceDescriptor '''' (replicate 50 (CHR ''x''))) 1"
      "wit_lm\<lparr>m_completedTestcases_notYetPushedToDB :=
        [mkTestcaseID (mkServiceDescriptor '''' (replicate 50 (CHR ''x''))) 1]\<rparr>" "-1" quiet_env wit_D wit_tid]
  by (auto simp: wit_lm_def mkTestcaseID_def mkServiceDescriptor_def quiet_env_def fresh_agent_def)

text \<open>
  A refused \<open>INSERT\<close> is not noticed: when the deletion of the old entry is executed and the
  insertion is not, the method reports success, the testcase is in the database no more, and its file is
  marked for deletion.
\<close>

theorem refused_insert_reports_success:
  assumes "db_wf s" and "tid_guid p \<noteq> ''special''"
    and "db_ok D (stmt_no s)" and "\<not> db_ok D (Suc (stmt_no s))"
  shows "\<exists>s' a'. addEntryToInterestingTestcasesTable D t p r dir ty s a = (True, s', a') \<and>
    db_view s' (tid_key t) = None \<and> isFileMarkedForDeletion (generateTestcasePathAndFilename t dir) a'"
proof -
  let ?s = "(delete_testcases (has_id t) s)\<lparr>stmt_no := Suc (stmt_no s)\<rparr>"
  have "addEntryToInterestingTestcasesTable D t p r dir ty s a =
      (True, next_stmt ?s, markFileForDelete (generateTestcasePathAndFilename t dir) a)"
    using assms(2-4) by (simp add: addEntryToInterestingTestcasesTable_def exec_stmt_def Let_def)
  moreover have "db_view (next_stmt ?s) (tid_key t) = None"
    by (simp add: delete_id_view [OF assms(1)])
  moreover have "isFileMarkedForDeletion f (markFileForDelete f a)" for f
    by (simp add: gc set_insert_set)
  ultimately show ?thesis by blast
qed

theorem refused_insert_reports_success_witness:
  "fst (addEntryToInterestingTestcasesTable (wit_D\<lparr>db_ok := \<lambda>n. n = 0\<rparr>)
      (mkTestcaseID (mkServiceDescriptor ''h:1'' ''g'') 2) wit_tid 0 ''d'' Hang_type wit_db fresh_agent)"
  using refused_insert_reports_success [OF wit_db_wf, of wit_tid "wit_D\<lparr>db_ok := \<lambda>n. n = 0\<rparr>"
      "mkTestcaseID (mkServiceDescriptor ''h:1'' ''g'') 2" 0 "''d''" Hang_type fresh_agent]
  by (auto simp: wit_db_def wit_setup_def lmdb_setup_def)

section \<open>What the generators get to mutate\<close>

text \<open>
  C6: A generator that asks for a testcase gets one of the best rated entries of the population, with
  its first chunk; it is told to run it unmutated exactly when no block of it is known; what does not
  fit into one chunk is written to the file that chunk requests are answered from.
\<close>

theorem best_rated_is_mutated:
  assumes "db_wf s" and "\<And>n. db_ok D n" and "\<And>n f. env_open_ok E n f"
    and "\<And>k v. db_view s k = Some v \<Longrightarrow> unat (snd k) < 2 ^ 63"
    and "generateGetTestcaseToMutateResponse D E dir s a = (resp, s', a')"
    and "db_view s k0 = Some v0" and "v_type v0 = Population"
  shows "\<exists>k v. db_view s k = Some v \<and> v_type v = Population \<and>
    (\<forall>k' v'. db_view s k' = Some v' \<and> v_type v' = Population \<longrightarrow> v_rating v' \<le> v_rating v) \<and>
    gtm_id resp = Some (id_proto (fst k) (snd k)) \<and>
    gtm_testCaseFirstChunk resp = take chunkSizeInBytes (v_bytes v) \<and>
    (gtm_isLastChunk resp \<longleftrightarrow> length (v_bytes v) \<le> chunkSizeInBytes) \<and>
    (gtm_alsoRunWithoutMutation resp \<longleftrightarrow> v_blocks v = {}) \<and>
    files a' = (if gtm_isLastChunk resp then files a else (files a)(path_of dir k \<mapsto> v_bytes v)) \<and>
    db_view s' = db_view s"
  by (rule mutate_choice [OF assms(1-3) _ assms(5-7)], erule assms(4))
    (intro exI conjI allI impI, (assumption | blast)+)

lemma wit_db_rows: "interesting_testcases wit_db = [wit_it 1 5 Population, wit_it 2 9 Population,
       wit_it 3 7 Population, wit_it 4 0 Hang_type, wit_it 5 0 Exception_Other_type,
       wit_it 6 0 Exception_Other_type]"
  by (simp add: wit_db_def wit_setup_def lmdb_setup_def)

lemma wit_db_view_small: "db_view wit_db k = Some v \<Longrightarrow> unat (snd k) < 2 ^ 63"
proof -
  assume "db_view wit_db k = Some v"
  then obtain r where "r \<in> set (interesting_testcases wit_db)" "it_key r = k"
    using lookup_row_iff [OF wit_db_wf] by (auto simp: db_view_def)
  then show ?thesis by (auto simp: wit_db_rows wit_it_def)
qed

lemma wit_db_view2: "\<exists>v. db_view wit_db (''g'', 2) = Some v \<and> v_type v = Population \<and> v_rating v = 9"
  by (simp add: db_view_def lookup_row_def wit_db_rows wit_it_def)

theorem best_rated_is_mutated_witness:
  "\<exists>r k v. fst (generateGetTestcaseToMutateResponse wit_D quiet_env ''d'' wit_db fresh_agent) = r \<and>
    gtm_id r = Some (id_proto (fst k) (snd k)) \<and> db_view wit_db k = Some v \<and> 9 \<le> v_rating v"
proof -
  obtain resp s' a' where r: "generateGetTestcaseToMutateResponse wit_D quiet_env ''d'' wit_db fresh_agent =
      (resp, s', a')" by (metis prod.exhaust)
  obtain v0 where v0: "db_view wit_db (''g'', 2) = Some v0" "v_type v0 = Population" "v_rating v0 = 9"
    using wit_db_view2 by blast
  have o: "\<And>n f. env_open_ok quiet_env n f" by (simp add: quiet_env_def)
  have "\<exists>k v. db_view wit_db k = Some v \<and> v_type v = Population \<and>
      (\<forall>k' v'. db_view wit_db k' = Some v' \<and> v_type v' = Population \<longrightarrow> v_rating v' \<le> v_rating v) \<and>
      gtm_id resp = Some (id_proto (fst k) (snd k)) \<and>
      gtm_testCaseFirstChunk resp = take chunkSizeInBytes (v_bytes v) \<and>
      (gtm_isLastChunk resp \<longleftrightarrow> length (v_bytes v) \<le> chunkSizeInBytes) \<and>
      (gtm_alsoRunWithoutMutation resp \<longleftrightarrow> v_blocks v = {}) \<and>
      files a' = (if gtm_isLastChunk resp then files fresh_agent
        else (files fresh_agent)(path_of ''d'' k \<mapsto> v_bytes v)) \<and>
      db_view s' = db_view wit_db"
    by (rule best_rated_is_mutated [OF wit_db_wf wit_D_ok(1) o _ r v0(1,2)]) (erule wit_db_view_small)
  then obtain k v where kv: "db_view wit_db k = Some v" "gtm_id resp = Some (id_proto (fst k) (snd k))"
      "\<forall>k' v'. db_view wit_db k' = Some v' \<and> v_type v' = Population \<longrightarrow> v_rating v' \<le> v_rating v" by blast
  have "9 \<le> v_rating v" using kv(3) v0 by metis
  with kv r show ?thesis by (intro exI [of _ resp] exI [of _ k] exI [of _ v]) simp
qed

section \<open>Limits\<close>

text \<open>
  C7: \<open>dropTestcaseTypeIFMoreThan\<close> keeps exactly the oldest \<open>n\<close> testcases of the type and every
  testcase of another type.
\<close>

theorem drop_type_keeps_oldest:
  assumes "db_wf s" and "dropTestcaseTypeIFMoreThan D ty n s = (True, s')"
  shows "ids_with (\<lambda>r. it_TestCaseType r = ty) s' = take (nat n) (ids_with (\<lambda>r. it_TestCaseType r = ty) s) \<and>
    filter (\<lambda>r. it_TestCaseType r \<noteq> ty) (interesting_testcases s') =
      filter (\<lambda>r. it_TestCaseType r \<noteq> ty) (interesting_testcases s)"
  using dropTestcaseType_limit [OF assms] by simp

theorem drop_type_keeps_oldest_witness:
  "ids_with (\<lambda>r. it_TestCaseType r = Population)
     (snd (dropTestcaseTypeIFMoreThan wit_D Population 2 wit_db)) = [1, 2]"
proof -
  obtain s' where r: "dropTestcaseTypeIFMoreThan wit_D Population 2 wit_db = (True, s')"
    by (simp add: dropTestcaseTypeIFMoreThan_def exec_stmt_def limit_offset_def)
  have "ids_with (\<lambda>r. it_TestCaseType r = Population) wit_db = [1, 2, 3]"
    by (simp add: ids_with_def wit_db_rows wit_it_def)
  with drop_type_keeps_oldest [OF wit_db_wf r] r show ?thesis by simp
qed

text \<open>
  Dropping the testcases of a frequent crash never loses the crash: in whatever order the server
  delivers the rows of the sub-query, a testcase with the footprint is left.
\<close>

theorem drop_crashes_keeps_one:
  assumes "db_wf s" and "\<And>k xs. mset (db_order D k xs) = mset xs"
    and "dropTestcaseIfCrashFootprintAppearedMoreThanXTimes D n f s = (ok, s')"
    and "r \<in> set (interesting_testcases s)" and "has_footprint s f r"
  shows "\<exists>q \<in> set (interesting_testcases s'). has_footprint s' f q"
  using dropCrash_keeps [OF assms] .

theorem drop_crashes_keeps_one_witness:
  "\<exists>q \<in> set (interesting_testcases (snd (dropTestcaseIfCrashFootprintAppearedMoreThanXTimes wit_D 1 ''f'' wit_db))).
     has_footprint (snd (dropTestcaseIfCrashFootprintAppearedMoreThanXTimes wit_D 1 ''f'' wit_db)) ''f'' q"
proof -
  have m: "\<And>k xs. mset (db_order wit_D k xs) = mset xs" by simp
  have r: "wit_it 5 0 Exception_Other_type \<in> set (interesting_testcases wit_db)" by (simp add: wit_db_rows)
  have f: "has_footprint wit_db ''f'' (wit_it 5 0 Exception_Other_type)"
    by (simp add: has_footprint_def wit_db_def wit_setup_def lmdb_setup_def wit_it_def)
  show ?thesis by (rule drop_crashes_keeps_one [OF wit_db_wf m surjective_pairing r f])
qed

text \<open>
  \<open>deleteManagedInstanceLogMessagesIfMoreThan\<close> keeps exactly the newest \<open>num\<close> messages.
\<close>

theorem newest_logs_kept:
  assumes "db_wf s" and "0 \<le> num" and "num < 2 ^ 31"
    and "deleteManagedInstanceLogMessagesIfMoreThan D num s = (True, s')"
  shows "managed_instances_logmessages s' =
    drop (length (managed_instances_logmessages s) - nat num) (managed_instances_logmessages s)"
  using deleteLogs_keeps_newest [OF assms] .

theorem newest_logs_kept_witness:
  "let s = snd (addNewManagedInstanceLogMessages wit_D ''g'' [''a'', ''b'', ''c''] wit_db) in
   map ml_LogMessage (managed_instances_logmessages
     (snd (deleteManagedInstanceLogMessagesIfMoreThan wit_D 2 s))) = [''b'', ''c'']"
proof -
  let ?s = "snd (addNewManagedInstanceLogMessages wit_D ''g'' [''a'', ''b'', ''c''] wit_db)"
  have logs: "map ml_LogMessage (managed_instances_logmessages ?s) = [''a'', ''b'', ''c'']"
    by (simp add: addNewManagedInstanceLogMessages_def exec_stmt_def set_isolation_def insert_logmessage_def
        wit_db_def wit_setup_def lmdb_setup_def)
  then have len: "length (managed_instances_logmessages ?s) = 3" by (metis length_map length_Cons list.size(3)
    One_nat_def Suc_1 numeral_3_eq_3 numeral_2_eq_2)
  obtain s' where r: "deleteManagedInstanceLogMessagesIfMoreThan wit_D 2 ?s = (True, s')"
    by (simp add: deleteManagedInstanceLogMessagesIfMoreThan_def exec_stmt_def Let_def)
  have "map ml_LogMessage (managed_instances_logmessages s') = drop 1 (map ml_LogMessage (managed_instances_logmessages ?s))"
    using newest_logs_kept [OF addLogMessages_wf [OF wit_db_wf] _ _ r] len by (simp add: drop_map)
  with r logs show ?thesis by (simp add: Let_def)
qed

section \<open>Agents\<close>

text \<open>
  An agent is welcomed exactly when its registration would find a sub-type for it, as long as the
  settings have the form \<open>A=50|B=50\<close> with sane percentages.
\<close>

theorem welcomed_iff_subtype_found:
  assumes "\<And>n. db_ok D n" and "type \<in> {TestcaseGenerator, TestcaseEvaluator, TestcaseRunner}"
    and "desiredSubTypes type (settings_of (lm_db st)) = Some ds" and "percentages_ok ds"
    and "pieces_ok ''generatorTypes'' (settings_of (lm_db st))"
    and "pieces_ok ''evaluatorTypes'' (settings_of (lm_db st))"
  shows "fst (IsAgentWelcomedRequestHandler D (IsAgentWelcomedRequest type ts) st) = IsAgentWelcomedResponse True \<longleftrightarrow>
    (\<exists>t s'. decideSubAgentType D type ts (lm_db st) = Some (t, s') \<and> t \<noteq> '''')"
  by (rule welcomed_iff_decided [OF assms])

lemma wit_settings: "settings_of (lm_db wit_lm) =
    [\<lparr>m_settingName = ''generatorTypes'', m_settingValue = ''A=70|B=30''\<rparr>,
     \<lparr>m_settingName = ''runnerType'', m_settingValue = ''X''\<rparr>]"
  by (simp add: settings_of_def wit_lm_db wit_setup_def lmdb_setup_def wit_sets_def)

theorem welcomed_iff_subtype_found_witness:
  "\<exists>t s'. decideSubAgentType wit_D TestcaseRunner [''Y'', ''X''] (lm_db wit_lm) = Some (t, s') \<and> t \<noteq> ''''"
proof -
  have ds: "desiredSubTypes TestcaseRunner (settings_of (lm_db wit_lm)) = Some [(''X'', 100)]"
    by (simp add: wit_settings desiredSubTypes_def setting_value_def)
  have g: "pieces_ok ''generatorTypes'' (settings_of (lm_db wit_lm))"
    unfolding wit_settings by code_simp
  have e: "pieces_ok ''evaluatorTypes'' (settings_of (lm_db wit_lm))"
    by (simp add: wit_settings pieces_ok_def setting_value_def)
  have "fst (IsAgentWelcomedRequestHandler wit_D (IsAgentWelcomedRequest TestcaseRunner [''Y'', ''X'']) wit_lm) =
      IsAgentWelcomedResponse True"
    by (simp add: IsAgentWelcomedRequestHandler_def lift_db_def getAllSettings_def query_def
        acceptedAgentSubTypes_def setting_value_def wit_lm_db wit_setup_def lmdb_setup_def wit_sets_def)
  then show ?thesis
    using welcomed_iff_subtype_found [OF wit_D_ok(1) _ ds _ g e, of "[''Y'', ''X'']"] by (simp add: percentages_ok_def)
qed

text \<open>
  A registration that was answered with success lasts: while the instance is not removed, every
  further registration of the same GUID from the location is answered with success and writes nothing.
\<close>

theorem registration_lasts:
  assumes "lm_reach D E cfg st" and "\<And>n. db_ok D n"
    and "RegisterAtLMRequestHandler D cfg (RegisterAtLMRequest req) st = Some (RegisterAtLMResponse True job, st1)"
    and "reg_location req2 = m_mylocation cfg"
    and "reg_serviceDescriptor req2 = reg_serviceDescriptor req"
  shows "RegisterAtLMRequestHandler D cfg (RegisterAtLMRequest req2) st1 =
    Some (RegisterAtLMResponse True (m_myfuzzjob cfg), st1\<lparr>lm_db := next_stmt (lm_db st1)\<rparr>)"
proof -
  let ?fsd = "sd_of_proto (opt_or default_ServiceDescriptor (reg_serviceDescriptor req))"
  have wf: "db_wf (lm_db st)" using lm_system.reachable_inv [OF assms(1)] by (simp add: lm_inv_def)
  have wf1: "db_wf (lm_db st1)" by (rule registration_wf [OF wf assms(3)])
  have "fst (getRegisteredInstanceSubType D (m_guid ?fsd) (lm_db st1)) \<noteq> ''''"
  proof (cases "fst (getRegisteredInstanceSubType D (m_guid ?fsd) (lm_db st)) = ''''")
    case False
    then have "lm_db st1 = next_stmt (lm_db st)"
      using assms(3) by (auto simp: RegisterAtLMRequestHandler_def registeratlmrequest_def Let_def split_beta
          lift_db_def split: if_splits)
    with False show ?thesis by (simp add: getRegisteredInstanceSubType_def query_def assms(2))
  next
    case True
    with assms(3) obtain t db1 where t: "t \<noteq> ''''"
      and w: "lm_db st1 = snd (writeManagedInstance D ?fsd (reg_type req) t (reg_location req) db1)"
      by (auto simp: RegisterAtLMRequestHandler_def registeratlmrequest_def Let_def split_beta
          split: if_splits bind_splits)
    let ?m = "instance_row ?fsd (reg_type req) t (reg_location req)"
    have "?m \<in> set (managed_instances (lm_db st1))"
      using writeManagedInstance_result(1) [OF assms(2) surjective_pairing, of ?fsd "reg_type req" t
          "reg_location req" db1] w by simp
    from instance_known [OF wf1 assms(2) this] t show ?thesis by (simp add: instance_row_def)
  qed
  then show ?thesis
    using assms(4,5)
    by (simp add: RegisterAtLMRequestHandler_def registeratlmrequest_def Let_def split_beta lift_db_def)
qed

text \<open>
  Registering writes the instance, but reports failure exactly when another GUID holds the nice name
  made of the sub-type and the address, as after a restart of an agent under a new GUID; the row of the
  instance is written all the same, so that the next attempt succeeds.
\<close>

theorem nice_name_conflict:
  assumes "\<And>n. db_ok D n" and "writeManagedInstance D sd ty st l s = (b, s')"
  shows "set (managed_instances s') = insert (instance_row sd ty st l)
      {q \<in> set (managed_instances s). mi_GUID q \<noteq> m_guid sd} \<and>
    (b \<longleftrightarrow> m_guid sd \<in> fst ` set (nice_names_managed_instance s) \<or>
      st @ m_serviceHostAndPort sd \<notin> snd ` set (nice_names_managed_instance s))"
  using writeManagedInstance_result [OF assms] by blast

theorem nice_name_conflict_witness:
  "let sd2 = mkServiceDescriptor ''h:1'' ''g2'';
       s = snd (writeManagedInstance wit_D (mkServiceDescriptor ''h:1'' ''g1'') TestcaseRunner ''X'' ''here'' wit_db)
   in fst (writeManagedInstance wit_D sd2 TestcaseRunner ''X'' ''here'' s) = False \<and>
      instance_row sd2 TestcaseRunner ''X'' ''here'' \<in>
        set (managed_instances (snd (writeManagedInstance wit_D sd2 TestcaseRunner ''X'' ''here'' s)))"
proof -
  let ?s = "snd (writeManagedInstance wit_D (mkServiceDescriptor ''h:1'' ''g1'') TestcaseRunner ''X'' ''here'' wit_db)"
  have "nice_names_managed_instance ?s = [(''g1'', ''Xh:1'')]"
    by (simp add: writeManagedInstance_def exec_stmt_def upsert_instance_def try_nice_name_def
        mkServiceDescriptor_def wit_db_def wit_setup_def lmdb_setup_def eval_nat_numeral)
  then show ?thesis
    using nice_name_conflict [OF wit_D_ok(1) surjective_pairing, of "mkServiceDescriptor ''h:1'' ''g2''"
        TestcaseRunner "''X''" "''here''" ?s] by (simp add: mkServiceDescriptor_def Let_def)
qed

definition wit_reg :: RegisterRequest_t where
  "wit_reg = \<lparr>reg_type = TestcaseRunner, reg_implementedAgentSubTypes = [''X''],
     reg_serviceDescriptor = Some \<lparr>sd_serviceHostAndPort = ''h:1'', sd_guid = ''g1''\<rparr>, reg_location = ''here''\<rparr>"

lemma wit_reg_run: "\<exists>st'. RegisterAtLMRequestHandler wit_D wit_cfg (RegisterAtLMRequest wit_reg) wit_lm =
    Some (RegisterAtLMResponse True ''job'', st')"
  by (simp add: RegisterAtLMRequestHandler_def registeratlmrequest_def wit_reg_def wit_cfg_def lift_db_def
      getRegisteredInstanceSubType_def query_def wit_lm_db wit_setup_def lmdb_setup_def wit_sets_def
      decideSubAgentType_def getAllSettings_def desiredSubTypes_def setting_value_def normalize_def
      getRegisteredInstancesNumOfSubTypes_def subtypeDiffs_def most_needed_def signed_divide_int_def
      writeManagedInstance_def exec_stmt_def upsert_instance_def try_nice_name_def eval_nat_numeral)

theorem registration_lasts_witness:
  "\<exists>st st'. RegisterAtLMRequestHandler wit_D wit_cfg (RegisterAtLMRequest wit_reg) st =
    Some (RegisterAtLMResponse True ''job'', st') \<and> managed_instances (lm_db st') = managed_instances (lm_db st)"
proof -
  obtain st1 where s: "RegisterAtLMRequestHandler wit_D wit_cfg (RegisterAtLMRequest wit_reg) wit_lm =
    Some (RegisterAtLMResponse True ''job'', st1)" using wit_reg_run by blast
  have "reg_location wit_reg = m_mylocation wit_cfg" by (simp add: wit_reg_def wit_cfg_def)
  from registration_lasts [OF wit_lm_reach [of quiet_env] wit_D_ok(1) s this refl] show ?thesis
    by (intro exI [of _ st1] exI [of _ "st1\<lparr>lm_db := next_stmt (lm_db st1)\<rparr>"]) (simp add: wit_cfg_def)
qed

section \<open>Clean-up, billing and weights\<close>



text \<open>
  The length of a generator's queue reaches the runners: the status line that the generator prints,
  once stored as its newest status, gives the generator the weight of 100 plus its pending testcases in
  the next list.
\<close>

theorem generator_queue_is_its_weight:
  assumes "m \<in> set (managed_instances s)" and "mi_Location m = location" and "mi_AgentType m = TestcaseGenerator"
    and "\<And>r. r \<in> set (managed_instances_statuses s) \<Longrightarrow> ms_GUID r = mi_GUID m \<Longrightarrow>
          ms_TimeOfStatus r < db_now D (stmt_no s)"
    and "\<And>n. db_ok D n" and "plain sysCPU" and "plain procCPU" and "pending < 2 ^ 31"
    and "addNewManagedInstanceStatus D (mi_GUID m) (TG_generateStatus sysCPU procCPU a pending sent) s = (True, s')"
  shows "\<exists>si. (si, 100 + of_nat pending) \<in> set (fst (fst (updateStatusInformation D location s'))) \<and>
    si_GUID si = mi_GUID m \<and> si_HostAndPort si = mi_HAP m"
  by (rule generator_weight_listed [OF assms])

theorem generator_queue_is_its_weight_witness:
  "let s = snd (writeManagedInstance wit_D (mkServiceDescriptor ''h:1'' ''g1'') TestcaseGenerator ''A'' ''here'' wit_db) in
   \<exists>si. (si, 142) \<in> set (fst (fst (updateStatusInformation wit_D ''here''
     (snd (addNewManagedInstanceStatus wit_D ''g1'' (TG_generateStatus ''1'' ''2'' fresh_agent 42 7) s))))) \<and>
     si_GUID si = ''g1''"
proof -
  let ?s = "snd (writeManagedInstance wit_D (mkServiceDescriptor ''h:1'' ''g1'') TestcaseGenerator ''A'' ''here'' wit_db)"
  let ?m = "instance_row (mkServiceDescriptor ''h:1'' ''g1'') TestcaseGenerator ''A'' ''here''"
  have s: "managed_instances ?s = [?m]" "managed_instances_statuses ?s = []"
    by (simp_all add: writeManagedInstance_def exec_stmt_def upsert_instance_def try_nice_name_def instance_row_def
        mkServiceDescriptor_def wit_db_def wit_setup_def lmdb_setup_def eval_nat_numeral)
  have mk: "m_guid (mkServiceDescriptor h i) = i" "m_serviceHostAndPort (mkServiceDescriptor h i) = h" for h i
    by (simp_all add: mkServiceDescriptor_def)
  have g: "mi_GUID ?m = ''g1''" by (simp add: instance_row_def mk)
  have "addNewManagedInstanceStatus wit_D (mi_GUID ?m) (TG_generateStatus ''1'' ''2'' fresh_agent 42 7) ?s =
      (True, snd (addNewManagedInstanceStatus wit_D ''g1'' (TG_generateStatus ''1'' ''2'' fresh_agent 42 7) ?s))"
    by (simp add: addNewManagedInstanceStatus_def exec_stmt_def g)
  from generator_queue_is_its_weight [OF _ _ _ _ _ _ _ _ this, of "''here''"] show ?thesis
    by (auto simp: s g plain_def instance_row_def Let_def mk)
qed

end
