(* ===== verification/TGQueue.thy ===== *)
theory TGQueue
  imports FileTransfer "HOL-Library.Multiset"
begin

text \<open>
  The testcase queue of the generator (\<open>TestcaseDescriptor.cpp\<close>, \<open>TGTestcaseManager.cpp\<close>) and the
  handler that hands testcases to the runners (\<open>GetTestcaseRequestHandler.cpp\<close>). A testcase is
  pending, or it was sent and waits for its evaluation; the contract of the queue is a locale over the
  bag of the testcases it holds.
\<close>

section \<open>TestcaseDescriptor\<close>

record testcase_descriptor =
  td_id :: FluffiTestcaseID
  td_parentId :: FluffiTestcaseID
  m_pathAndFileName :: string
  m_numOfProcessingAttempts :: int
  m_forceFullCoverage :: bool
  m_timeOfLastSend :: int

definition mkTestcaseDescriptor ::
    "FluffiTestcaseID \<Rightarrow> FluffiTestcaseID \<Rightarrow> string \<Rightarrow> bool \<Rightarrow> testcase_descriptor" where
  "mkTestcaseDescriptor i parentId pathAndFileName forceFullCoverage =
     \<lparr>td_id = i, td_parentId = parentId, m_pathAndFileName = pathAndFileName,
      m_numOfProcessingAttempts = 0, m_forceFullCoverage = forceFullCoverage, m_timeOfLastSend = 0\<rparr>"

definition increaseNumOfProcessingAttempts :: "testcase_descriptor \<Rightarrow> testcase_descriptor" where
  "increaseNumOfProcessingAttempts t = t\<lparr>m_numOfProcessingAttempts := m_numOfProcessingAttempts t + 1\<rparr>"

definition updateTimeOfLastSend :: "int \<Rightarrow> testcase_descriptor \<Rightarrow> testcase_descriptor" where
  "updateTimeOfLastSend now t = t\<lparr>m_timeOfLastSend := now\<rparr>"

definition deleteFile :: "testcase_descriptor \<Rightarrow> agent \<Rightarrow> agent" where
  "deleteFile t a = markFileForDelete (m_pathAndFileName t) a"

section \<open>TGTestcaseManager\<close>

record tg_manager =
  m_pendingTestcaseQueue :: "testcase_descriptor list"
  m_sentButNotEvaluatedTestcaseSet :: "testcase_descriptor list"

definition pushNewGeneratedTestcase :: "testcase_descriptor \<Rightarrow> tg_manager \<Rightarrow> tg_manager" where
  "pushNewGeneratedTestcase t q = q\<lparr>m_pendingTestcaseQueue := m_pendingTestcaseQueue q @ [t]\<rparr>"

definition pushNewGeneratedTestcases :: "testcase_descriptor list \<Rightarrow> tg_manager \<Rightarrow> tg_manager" where
  "pushNewGeneratedTestcases ts q = q\<lparr>m_pendingTestcaseQueue := m_pendingTestcaseQueue q @ ts\<rparr>"

text \<open>\<open>None\<close> is the exception \<open>No pending testcases\<close>.\<close>

definition popPendingTCForProcessing ::
    "int \<Rightarrow> tg_manager \<Rightarrow> (testcase_descriptor \<times> tg_manager) option" where
  "popPendingTCForProcessing now q =
     (case m_pendingTestcaseQueue q of
        [] \<Rightarrow> None
      | t # rest \<Rightarrow>
          (let t = updateTimeOfLastSend now (increaseNumOfProcessingAttempts t)
           in Some (t, q\<lparr>m_pendingTestcaseQueue := rest,
                m_sentButNotEvaluatedTestcaseSet := m_sentButNotEvaluatedTestcaseSet q @ [t]\<rparr>)))"

fun remove_evaluated ::
    "FluffiTestcaseID list \<Rightarrow> testcase_descriptor list \<Rightarrow> agent \<Rightarrow> testcase_descriptor list \<times> agent" where
  "remove_evaluated evaluated [] a = ([], a)"
| "remove_evaluated evaluated (t # ts) a =
     (if list_ex (\<lambda>i. tid_eq i (td_id t)) evaluated
      then remove_evaluated evaluated ts (deleteFile t a)
      else (let (rest, a) = remove_evaluated evaluated ts a in (t # rest, a)))"

definition removeEvaluatedTestcases ::
    "FluffiTestcaseID list \<Rightarrow> tg_manager \<Rightarrow> agent \<Rightarrow> tg_manager \<times> agent" where
  "removeEvaluatedTestcases evaluated q a =
     (let (sent, a) = remove_evaluated evaluated (m_sentButNotEvaluatedTestcaseSet q) a
      in (q\<lparr>m_sentButNotEvaluatedTestcaseSet := sent\<rparr>, a))"

text \<open>Both loops walk over the set once and erase the elements that satisfy the condition.\<close>

definition reinsertTestcasesHavingNoAnswerSince :: "int \<Rightarrow> tg_manager \<Rightarrow> tg_manager" where
  "reinsertTestcasesHavingNoAnswerSince before q =
     (let (old, rest) = partition (\<lambda>t. m_timeOfLastSend t < before) (m_sentButNotEvaluatedTestcaseSet q)
      in \<lparr>m_pendingTestcaseQueue = m_pendingTestcaseQueue q @ old, m_sentButNotEvaluatedTestcaseSet = rest\<rparr>)"

definition handMeAllTestcasesWithTooManyRetries ::
    "int \<Rightarrow> tg_manager \<Rightarrow> testcase_descriptor list \<times> tg_manager" where
  "handMeAllTestcasesWithTooManyRetries maxRetriesBeforeReport q =
     (let (many, rest) = partition (\<lambda>t. m_numOfProcessingAttempts t \<ge> maxRetriesBeforeReport)
            (m_sentButNotEvaluatedTestcaseSet q)
      in (many, q\<lparr>m_sentButNotEvaluatedTestcaseSet := rest\<rparr>))"

text \<open>The destructor hands every file to the garbage collector.\<close>

definition destroy_manager :: "tg_manager \<Rightarrow> agent \<Rightarrow> agent" where
  "destroy_manager q a =
     fold deleteFile (m_sentButNotEvaluatedTestcaseSet q) (fold deleteFile (m_pendingTestcaseQueue q) a)"

section \<open>The contract of the queue\<close>

text \<open>
  A queue holds a bag of keys. Sending and reinserting keep the bag; pushing adds to it; only the
  removal of evaluated testcases and the hand-over of testcases with too many retries take from it.
\<close>

locale testcase_queue =
  fixes keys :: "'q \<Rightarrow> 'k multiset" and key :: "'d \<Rightarrow> 'k"
    and push :: "'d list \<Rightarrow> 'q \<Rightarrow> 'q" and pop :: "int \<Rightarrow> 'q \<Rightarrow> ('d \<times> 'q) option"
    and reinsert :: "int \<Rightarrow> 'q \<Rightarrow> 'q" and hand :: "int \<Rightarrow> 'q \<Rightarrow> 'd list \<times> 'q"
    and remove :: "'k set \<Rightarrow> 'q \<Rightarrow> 'q"
  assumes push_keys: "keys (push ds q) = keys q + image_mset key (mset ds)"
    and pop_keys: "pop now q = Some (d, q') \<Longrightarrow> keys q' = keys q"
    and pop_member: "pop now q = Some (d, q') \<Longrightarrow> key d \<in># keys q"
    and reinsert_keys: "keys (reinsert t q) = keys q"
    and hand_keys: "hand n q = (ds, q') \<Longrightarrow> keys q = keys q' + image_mset key (mset ds)"
    and remove_keys: "keys (remove K q) \<subseteq># keys q"
    and remove_only: "k \<notin> K \<Longrightarrow> count (keys (remove K q)) k = count (keys q) k"
begin

text \<open>A hand-over followed by pushing back what was handed over loses nothing.\<close>

lemma hand_push_back:
  assumes "hand n q = (ds, q')" and "mset ds = mset kept + mset gone"
  shows "keys (push kept q') + image_mset key (mset gone) = keys q"
  using hand_keys [OF assms(1)] push_keys [of kept q'] assms(2) by (simp add: ac_simps)

lemma still_there:
  assumes "k \<in># keys q" and "k \<notin> K" shows "k \<in># keys (remove K q)"
  using remove_only [OF assms(2), of q] assms(1) by (metis count_greater_zero_iff)

lemma pop_still_there: "pop now q = Some (d, q') \<Longrightarrow> k \<in># keys q \<Longrightarrow> k \<in># keys q'"
  using pop_keys by metis

end

abbreviation td_key :: "testcase_descriptor \<Rightarrow> string \<times> 64 word" where
  "td_key t \<equiv> tid_key (td_id t)"

definition queue_keys :: "tg_manager \<Rightarrow> (string \<times> 64 word) multiset" where
  "queue_keys q = image_mset td_key (mset (m_pendingTestcaseQueue q @ m_sentButNotEvaluatedTestcaseSet q))"

lemma evaluated_iff: "list_ex (\<lambda>i. tid_eq i (td_id t)) evaluated \<longleftrightarrow> td_key t \<in> tid_key ` set evaluated"
  by (induction evaluated) (auto simp: tid_eq_def tid_key_def)

lemma remove_evaluated_filter:
  "fst (remove_evaluated evaluated ts a) =
     filter (\<lambda>t. td_key t \<notin> tid_key ` set evaluated) ts"
  by (induction ts arbitrary: a) (simp_all add: evaluated_iff split_beta Let_def)

lemma deleteFile_simps [simp]:
  "set (m_setOfFilesToDelete (deleteFile t a)) = insert (m_pathAndFileName t) (set (m_setOfFilesToDelete a))"
  "files (deleteFile t a) = files a"
  by (simp_all add: deleteFile_def gc oset)

lemma remove_evaluated_agent:
  "set (m_setOfFilesToDelete (snd (remove_evaluated evaluated ts a))) = set (m_setOfFilesToDelete a) \<union>
     m_pathAndFileName ` {t \<in> set ts. td_key t \<in> tid_key ` set evaluated}"
  "files (snd (remove_evaluated evaluated ts a)) = files a"
proof (induction ts arbitrary: a)
  case (Cons t ts)
  {
    case 1
    have "{u \<in> set (t # ts). td_key u \<in> tid_key ` set evaluated} =
        (if td_key t \<in> tid_key ` set evaluated then {t} else {}) \<union>
        {u \<in> set ts. td_key u \<in> tid_key ` set evaluated}" by auto
    then show ?case using Cons(1) by (simp add: evaluated_iff split_beta Let_def image_Un)
  next
    case 2
    show ?case using Cons(2) by (simp add: evaluated_iff split_beta Let_def)
  }
qed simp_all

lemma removeEvaluatedTestcases_result:
  assumes "removeEvaluatedTestcases evaluated q a = (q', a')"
  shows "m_pendingTestcaseQueue q' = m_pendingTestcaseQueue q"
    and "m_sentButNotEvaluatedTestcaseSet q' = filter (\<lambda>t. td_key t \<notin> tid_key ` set evaluated)
      (m_sentButNotEvaluatedTestcaseSet q)"
    and "set (m_setOfFilesToDelete a') = set (m_setOfFilesToDelete a) \<union> m_pathAndFileName `
      {t \<in> set (m_sentButNotEvaluatedTestcaseSet q). td_key t \<in> tid_key ` set evaluated}"
    and "files a' = files a"
  using assms remove_evaluated_filter [of evaluated "m_sentButNotEvaluatedTestcaseSet q" a]
    remove_evaluated_agent [of evaluated "m_sentButNotEvaluatedTestcaseSet q" a]
  by (auto simp: removeEvaluatedTestcases_def split_beta Let_def)

definition remove_keys_of :: "(string \<times> 64 word) set \<Rightarrow> tg_manager \<Rightarrow> tg_manager" where
  "remove_keys_of K q = q\<lparr>m_sentButNotEvaluatedTestcaseSet :=
     filter (\<lambda>t. td_key t \<notin> K) (m_sentButNotEvaluatedTestcaseSet q)\<rparr>"

lemma removeEvaluatedTestcases_keys:
  "fst (removeEvaluatedTestcases evaluated q a) = remove_keys_of (tid_key ` set evaluated) q"
  using removeEvaluatedTestcases_result(1,2) [OF surjective_pairing, of evaluated q a]
  by (simp add: remove_keys_of_def removeEvaluatedTestcases_def split_beta Let_def)

lemma count_filtered:
  "k \<notin> K \<Longrightarrow> count (image_mset f (mset (filter (\<lambda>t. f t \<notin> K) ts))) k = count (image_mset f (mset ts)) k"
  by (induction ts) auto

interpretation tgq: testcase_queue queue_keys td_key pushNewGeneratedTestcases popPendingTCForProcessing
    reinsertTestcasesHavingNoAnswerSince handMeAllTestcasesWithTooManyRetries remove_keys_of
proof
  fix q :: tg_manager and ds :: "testcase_descriptor list"
  show "queue_keys (pushNewGeneratedTestcases ds q) = queue_keys q + image_mset td_key (mset ds)"
    by (simp add: queue_keys_def pushNewGeneratedTestcases_def ac_simps)
next
  fix q q' :: tg_manager and now d
  assume "popPendingTCForProcessing now q = Some (d, q')"
  then show "queue_keys q' = queue_keys q"
    by (auto simp: popPendingTCForProcessing_def queue_keys_def Let_def updateTimeOfLastSend_def
        increaseNumOfProcessingAttempts_def split: list.splits)
next
  fix q q' :: tg_manager and now d
  assume "popPendingTCForProcessing now q = Some (d, q')"
  then show "td_key d \<in># queue_keys q"
    by (auto simp: popPendingTCForProcessing_def queue_keys_def Let_def updateTimeOfLastSend_def
        increaseNumOfProcessingAttempts_def split: list.splits)
next
  fix q :: tg_manager and t
  have "mset (filter P xs) + mset (filter (Not \<circ> P) xs) = mset xs" for P and xs :: "testcase_descriptor list"
    by (simp add: comp_def)
  then have "image_mset td_key (mset (filter P xs)) + image_mset td_key (mset (filter (Not \<circ> P) xs)) =
      image_mset td_key (mset xs)" for P and xs :: "testcase_descriptor list"
    by (metis image_mset_union)
  then show "queue_keys (reinsertTestcasesHavingNoAnswerSince t q) = queue_keys q"
    by (simp add: reinsertTestcasesHavingNoAnswerSince_def queue_keys_def Let_def ac_simps)
next
  fix q q' :: tg_manager and n ds
  assume h: "handMeAllTestcasesWithTooManyRetries n q = (ds, q')"
  have "mset (filter P xs) + mset (filter (Not \<circ> P) xs) = mset xs" for P and xs :: "testcase_descriptor list"
    by (simp add: comp_def)
  then have "image_mset td_key (mset (filter P xs)) + image_mset td_key (mset (filter (Not \<circ> P) xs)) =
      image_mset td_key (mset xs)" for P and xs :: "testcase_descriptor list"
    by (metis image_mset_union)
  then show "queue_keys q = queue_keys q' + image_mset td_key (mset ds)"
    using h by (auto simp: handMeAllTestcasesWithTooManyRetries_def queue_keys_def Let_def ac_simps)
next
  fix q :: tg_manager and K
  show "queue_keys (remove_keys_of K q) \<subseteq># queue_keys q"
    by (simp add: queue_keys_def remove_keys_of_def image_mset_subseteq_mono)
next
  fix q :: tg_manager and k :: "string \<times> 64 word" and K
  assume "k \<notin> K"
  then show "count (queue_keys (remove_keys_of K q)) k = count (queue_keys q) k"
    using count_filtered [of k K td_key "m_sentButNotEvaluatedTestcaseSet q"]
    by (simp add: queue_keys_def remove_keys_of_def)
qed

end
