(* ===== verification/TGMutators.thy ===== *)
theory TGMutators
  imports TGQueue
begin

text \<open>
  The mutators of the generator. The mutation engines themselves (AFL's havoc stage, Honggfuzz's
  mangling, the programs radamsa, CaRRoT and Oedipus, the content of the directory of an external
  generator) are not under the repository: they are the parameters of the record \<open>engines\<close>. The code
  around them is modelled: numbering the children, writing and renaming their files, and the errors.
\<close>

section \<open>The generator's state\<close>

datatype mutator = RadamsaMutator | AFLMutator | CaRRoTMutator | HonggfuzzMutator | OedipusMutator
  | ExternalMutator

record tg =
  tg_queue :: tg_manager
  tg_agent :: agent
  s_numMutations :: "64 word"
  encodedDBcredentials :: string
  m_serverTimestampOfNewestEvaluationResult :: "64 word"
  m_intervallToWaitForReinsertionInMillisec :: int
  m_gotConfigFromLM :: bool
  m_mutator :: "mutator option"
  m_mutatorNeedsParents :: bool
  m_extTestcaseDir :: string
  m_bulkGenerationSize :: int

record tg_config =
  tg_self :: FluffiServiceDescriptor
  tg_testcaseDir :: string
  m_queueFillerTempDir :: string
  m_desiredQueueFillLevel :: nat
  m_maxBulkGenerationSize :: int
  m_maxRetriesBeforeReport :: int
  m_intervallBetweenTwoCleaningRoundsInMillisec :: int
  m_myAgentSubTypes :: "string list"

text \<open>
  \<open>e_process\<close> runs a command line: its effect on the files and whether it completed in time. The other
  engines get a number that differs from call to call; the settings of Honggfuzz's mangling depend on the
  size of the parent. \<open>e_listing\<close> is what the iterators over the
  directory of an external generator yield: the sub-directories and their files; \<open>e_directory\<close> says which
  directories exist.
\<close>

record engines =
  e_process :: "string \<Rightarrow> agent \<Rightarrow> bool \<times> agent"
  e_havoc :: "nat \<Rightarrow> bytes \<Rightarrow> bytes"
  e_mangle :: "nat \<Rightarrow> nat \<Rightarrow> bytes \<times> nat \<Rightarrow> bytes \<times> nat"
  e_listing :: "string \<Rightarrow> agent \<Rightarrow> (string \<times> string list) list"
  e_directory :: "nat \<Rightarrow> string \<Rightarrow> bool"

type_synonym batch_result = "(string + testcase_descriptor list) \<times> tg"

definition genNewLocalFluffiTestcaseID :: "tg_config \<Rightarrow> tg \<Rightarrow> FluffiTestcaseID \<times> tg" where
  "genNewLocalFluffiTestcaseID cfg st =
     (mkTestcaseID (tg_self cfg) (s_numMutations st), st\<lparr>s_numMutations := s_numMutations st + 1\<rparr>)"

section \<open>Mutators that write the files themselves\<close>

text \<open>
  One round of the loop: a new identifier, and the file of the child, which may fail to open; the bytes
  are given. The result is the descriptor of the child if there is one.
\<close>

definition write_child ::
    "env \<Rightarrow> tg_config \<Rightarrow> FluffiTestcaseID \<Rightarrow> bytes \<Rightarrow> tg \<Rightarrow> testcase_descriptor option \<times> tg" where
  "write_child E cfg parentID bs st =
     (let (testcaseID, st) = genNewLocalFluffiTestcaseID cfg st;
          pathAndFilename = generateTestcasePathAndFilename testcaseID (tg_testcaseDir cfg);
          a = tg_agent st
      in if \<not> env_open_ok E (tick a) pathAndFilename then (None, st\<lparr>tg_agent := next_tick a\<rparr>)
         else (Some (mkTestcaseDescriptor testcaseID parentID pathAndFilename False),
           st\<lparr>tg_agent := (next_tick a)\<lparr>files := (files a)(pathAndFilename \<mapsto> bs)\<rparr>\<rparr>))"

fun afl_loop ::
    "env \<Rightarrow> engines \<Rightarrow> tg_config \<Rightarrow> FluffiTestcaseID \<Rightarrow> bytes \<Rightarrow> nat \<Rightarrow> tg \<Rightarrow> testcase_descriptor list \<times> tg" where
  "afl_loop E X cfg parentID parentBytes 0 st = ([], st)"
| "afl_loop E X cfg parentID parentBytes (Suc n) st =
     (let (child, st) = write_child E cfg parentID
            (e_havoc X (unat (s_numMutations st)) parentBytes) st;
          (children, st) = afl_loop E X cfg parentID parentBytes n st
      in ((case child of None \<Rightarrow> children | Some c \<Rightarrow> c # children), st))"

definition AFL_batchMutate ::
    "env \<Rightarrow> engines \<Rightarrow> tg_config \<Rightarrow> nat \<Rightarrow> FluffiTestcaseID \<Rightarrow> string \<Rightarrow> tg \<Rightarrow> batch_result" where
  "AFL_batchMutate E X cfg numToGenerate parentID parentPathAndFilename st =
     (let a = tg_agent st in
      if files a parentPathAndFilename = None then (Inl ''Parent does not exist'', st)
      else
        let parentBytes = readAllBytesFromFile parentPathAndFilename a;
            parentBytes = (if parentBytes = [] then [char_of (env_rnd E (tick a) mod 256)] else parentBytes);
            (children, st) = afl_loop E X cfg parentID parentBytes numToGenerate
              (st\<lparr>tg_agent := next_tick a\<rparr>)
        in (Inr children, st))"

text \<open>
  Honggfuzz mangles one buffer again and again: the parent's bytes are copied back before each round,
  but the size of the file is not.
\<close>

definition HONGGFUZZ_MAXSIZE :: nat where
  "HONGGFUZZ_MAXSIZE = 1024 * 1024 * 200"

fun honggfuzz_loop ::
    "env \<Rightarrow> engines \<Rightarrow> tg_config \<Rightarrow> FluffiTestcaseID \<Rightarrow> bytes \<Rightarrow> nat \<Rightarrow> bytes \<times> nat \<Rightarrow> tg \<Rightarrow>
     testcase_descriptor list \<times> tg" where
  "honggfuzz_loop E X cfg parentID parentBytes 0 run st = ([], st)"
| "honggfuzz_loop E X cfg parentID parentBytes (Suc n) (fileBuffer, dynamicFileSz) st =
     (if length parentBytes \<ge> HONGGFUZZ_MAXSIZE then ([], st)
      else
        let fileBuffer = parentBytes @ drop (length parentBytes) fileBuffer;
            (fileBuffer, dynamicFileSz) = e_mangle X (unat (s_numMutations st)) (length parentBytes) (fileBuffer, dynamicFileSz);
            (child, st) = write_child E cfg parentID (take dynamicFileSz fileBuffer) st;
            (children, st) = honggfuzz_loop E X cfg parentID parentBytes n (fileBuffer, dynamicFileSz) st
        in ((case child of None \<Rightarrow> children | Some c \<Rightarrow> c # children), st))"

definition Honggfuzz_batchMutate ::
    "env \<Rightarrow> engines \<Rightarrow> tg_config \<Rightarrow> nat \<Rightarrow> FluffiTestcaseID \<Rightarrow> string \<Rightarrow> tg \<Rightarrow> batch_result" where
  "Honggfuzz_batchMutate E X cfg numToGenerate parentID parentPathAndFilename st =
     (let a = tg_agent st in
      if files a parentPathAndFilename = None then (Inl ''Parent does not exist'', st)
      else
        let parentBytes = readAllBytesFromFile parentPathAndFilename a;
            parentBytes = (if parentBytes = [] then [char_of (42::nat)] else parentBytes);
            (children, st) = honggfuzz_loop E X cfg parentID parentBytes numToGenerate
              (replicate (HONGGFUZZ_MAXSIZE) (CHR 0x00), length parentBytes) st
        in (Inr children, st))"

section \<open>Mutators that run a program\<close>

text \<open>The loop over the expected files \<open>prefix1\<close>, \<open>prefix2\<close>, ...; it stops at a missing file.\<close>

fun collect_children ::
    "env \<Rightarrow> tg_config \<Rightarrow> string \<Rightarrow> FluffiTestcaseID \<Rightarrow> nat \<Rightarrow> nat \<Rightarrow> tg \<Rightarrow> testcase_descriptor list \<times> tg" where
  "collect_children E cfg filePrefix parentID i 0 st = ([], st)"
| "collect_children E cfg filePrefix parentID i (Suc n) st =
     (let currentFile = tg_testcaseDir cfg @ pathSeperator @ filePrefix @ to_string i;
          (testcaseID, st) = genNewLocalFluffiTestcaseID cfg st;
          pathAndFilename = generateTestcasePathAndFilename testcaseID (tg_testcaseDir cfg)
      in if files (tg_agent st) currentFile = None then ([], st)
         else let (renamed, a) = attemptRenameFile E currentFile pathAndFilename (tg_agent st);
                  (children, st) = collect_children E cfg filePrefix parentID (Suc i) n (st\<lparr>tg_agent := a\<rparr>)
              in ((if renamed then mkTestcaseDescriptor testcaseID parentID pathAndFilename False # children
                   else children), st))"

definition run_and_collect ::
    "env \<Rightarrow> engines \<Rightarrow> tg_config \<Rightarrow> string \<Rightarrow> string \<Rightarrow> string \<Rightarrow> nat \<Rightarrow> FluffiTestcaseID \<Rightarrow> tg \<Rightarrow> batch_result" where
  "run_and_collect E X cfg cmdline filePrefix errorMessage numToGenerate parentID st =
     (let (completed, a) = e_process X cmdline (tg_agent st);
          st = st\<lparr>tg_agent := a\<rparr>
      in if \<not> completed then (Inl errorMessage, st)
         else let (children, st) = collect_children E cfg filePrefix parentID 1 numToGenerate st
              in (Inr children, st))"

definition Radamsa_batchMutate ::
    "env \<Rightarrow> engines \<Rightarrow> tg_config \<Rightarrow> nat \<Rightarrow> FluffiTestcaseID \<Rightarrow> string \<Rightarrow> tg \<Rightarrow> batch_result" where
  "Radamsa_batchMutate E X cfg numToGenerate parentID parentPathAndFilename st =
     (if files (tg_agent st) parentPathAndFilename = None then (Inl ''Parent does not exist'', st)
      else run_and_collect E X cfg
        (''./radamsa.exe --count '' @ to_string numToGenerate @ '' --output '' @ tg_testcaseDir cfg @
         pathSeperator @ ''radamsa_%n '' @ parentPathAndFilename)
        ''radamsa_'' ''Could not generate testcase with radamsa'' numToGenerate parentID st)"

definition CaRRoT_batchMutate ::
    "env \<Rightarrow> engines \<Rightarrow> tg_config \<Rightarrow> nat \<Rightarrow> FluffiTestcaseID \<Rightarrow> string \<Rightarrow> tg \<Rightarrow> batch_result" where
  "CaRRoT_batchMutate E X cfg numToGenerate parentID parentPathAndFilename st =
     (if files (tg_agent st) parentPathAndFilename = None then (Inl ''Parent does not exist'', st)
      else run_and_collect E X cfg
        (''CaRRoT -d -n '' @ to_string numToGenerate @ '' -o '' @ tg_testcaseDir cfg @ pathSeperator @
         ''CaRRoT_ '' @ parentPathAndFilename)
        ''CaRRoT_'' ''Could not generate testcase with CaRRoT'' numToGenerate parentID st)"

definition hex_digit :: "nat \<Rightarrow> char" where
  "hex_digit n = ''0123456789abcdef'' ! n"

definition string2hex :: "string \<Rightarrow> string" where
  "string2hex s = concat (map (\<lambda>c. [hex_digit (of_char c div 16), hex_digit (of_char c mod 16)]) s)"

definition getlmconfigurationresponse :: "FLUFFIMessage \<Rightarrow> FluffiLMConfiguration" where
  "getlmconfigurationresponse m = lmconfig_of_proto (opt_or default_LMConfiguration
     (case m of GetLMConfigurationResponse c \<Rightarrow> c | _ \<Rightarrow> None))"

definition db_credentials :: "FluffiLMConfiguration \<Rightarrow> string" where
  "db_credentials c = m_dbUser c @ '':'' @ m_dbPassword c @ ''@tcp('' @ m_dbHost c @ '':3306)/'' @ m_dbName c"

text \<open>The credentials are asked for once; \<open>None\<close>: the process exits on a ZeroMQ error.\<close>

definition Oedipus_batchMutate ::
    "env \<Rightarrow> engines \<Rightarrow> tg_config \<Rightarrow> nat \<Rightarrow> FluffiTestcaseID \<Rightarrow> string \<Rightarrow> tg \<Rightarrow> batch_result option" where
  "Oedipus_batchMutate E X cfg numToGenerate parentID parentPathAndFilename st =
     do {
       (gotCredentials, st) \<leftarrow> (if encodedDBcredentials st = ''''
         then do {
           (resp, a) \<leftarrow> sendReqAndRecvResp E GetLMConfigurationRequest
             (m_serviceHostAndPort (m_lmServiceDescriptor (tg_agent st))) timeoutNormalMessage (tg_agent st);
           let st = st\<lparr>tg_agent := a\<rparr>;
           Some (case resp of None \<Rightarrow> (False, st)
             | Some m \<Rightarrow> (True, st\<lparr>encodedDBcredentials :=
                 string2hex (db_credentials (getlmconfigurationresponse m))\<rparr>))
         }
         else Some (True, st));
       Some (if \<not> gotCredentials then (Inl ''cannot get db creds'', st)
         else if files (tg_agent st) parentPathAndFilename = None then (Inl ''Parent does not exist'', st)
         else run_and_collect E X cfg
           (''Oedipus -g -r -m -d '' @ encodedDBcredentials st @ '' -n '' @ to_string numToGenerate @ '' -o '' @
            tg_testcaseDir cfg @ pathSeperator @ ''Oedipus_ '' @ parentPathAndFilename)
           ''Oedipus_'' ''Could not generate testcase with Oedipus'' numToGenerate parentID st)
     }"

section \<open>External generators\<close>

text \<open>
  The file name is \<open>parentGUID_parentLocalID_localID\<close>; the directory is named after the generator. A file
  that does not fit, or that cannot be renamed, ends the walk through its directory.
\<close>

definition external_child ::
    "tg_config \<Rightarrow> string \<Rightarrow> string \<Rightarrow> (FluffiTestcaseID \<times> FluffiTestcaseID) option" where
  "external_child cfg generatorGUID file =
     (case splitString file ''_'' of
        [parentGUID, p, l] \<Rightarrow>
          do {
            parentLocalID \<leftarrow> stoull p;
            localID \<leftarrow> stoull l;
            Some (mkTestcaseID (mkServiceDescriptor '''' generatorGUID) localID,
              mkTestcaseID (mkServiceDescriptor '''' parentGUID) parentLocalID)
          }
      | _ \<Rightarrow> None)"

fun external_walk ::
    "env \<Rightarrow> tg_config \<Rightarrow> nat \<Rightarrow> string \<Rightarrow> string \<Rightarrow> string list \<Rightarrow> testcase_descriptor list \<Rightarrow> agent \<Rightarrow>
     testcase_descriptor list \<times> agent" where
  "external_walk E cfg numToGenerate dir generatorGUID [] children a = (children, a)"
| "external_walk E cfg numToGenerate dir generatorGUID (file # rest) children a =
     (case external_child cfg generatorGUID file of
        None \<Rightarrow> (children, a)
      | Some (testcaseID, parentTestcaseID) \<Rightarrow>
          (let pathAndFilename = generateTestcasePathAndFilename testcaseID (tg_testcaseDir cfg);
               (renamed, a) = attemptRenameFile E
                 (dir @ pathSeperator @ generatorGUID @ pathSeperator @ file) pathAndFilename a
           in if \<not> renamed then (children, a)
              else let children = children @ [mkTestcaseDescriptor testcaseID parentTestcaseID pathAndFilename False]
                   in if length children \<ge> numToGenerate then (children, a)
                      else external_walk E cfg numToGenerate dir generatorGUID rest children a))"

fun external_dirs ::
    "env \<Rightarrow> tg_config \<Rightarrow> nat \<Rightarrow> string \<Rightarrow> (string \<times> string list) list \<Rightarrow> testcase_descriptor list \<Rightarrow> agent \<Rightarrow>
     testcase_descriptor list \<times> agent" where
  "external_dirs E cfg numToGenerate dir [] children a = (children, a)"
| "external_dirs E cfg numToGenerate dir ((generatorGUID, listed) # rest) children a =
     (let (children, a) = external_walk E cfg numToGenerate dir generatorGUID listed children a
      in if length children \<ge> numToGenerate then (children, a)
         else external_dirs E cfg numToGenerate dir rest children a)"

definition External_batchMutate ::
    "env \<Rightarrow> engines \<Rightarrow> tg_config \<Rightarrow> nat \<Rightarrow> FluffiTestcaseID \<Rightarrow> string \<Rightarrow> tg \<Rightarrow> batch_result" where
  "External_batchMutate E X cfg numToGenerate parentID parentPathAndFilename st =
     (if numToGenerate = 0 then (Inr [], st)
      else let dir = m_extTestcaseDir st;
               (children, a) = external_dirs E cfg numToGenerate dir (e_listing X dir (tg_agent st)) [] (tg_agent st)
           in (Inr children, st\<lparr>tg_agent := a\<rparr>))"

text \<open>The virtual call.\<close>

definition batchMutate ::
    "env \<Rightarrow> engines \<Rightarrow> tg_config \<Rightarrow> mutator \<Rightarrow> nat \<Rightarrow> FluffiTestcaseID \<Rightarrow> string \<Rightarrow> tg \<Rightarrow> batch_result option" where
  "batchMutate E X cfg m numToGenerate parentID parentPathAndFilename st =
     (case m of
        RadamsaMutator \<Rightarrow> Some (Radamsa_batchMutate E X cfg numToGenerate parentID parentPathAndFilename st)
      | AFLMutator \<Rightarrow> Some (AFL_batchMutate E X cfg numToGenerate parentID parentPathAndFilename st)
      | CaRRoTMutator \<Rightarrow> Some (CaRRoT_batchMutate E X cfg numToGenerate parentID parentPathAndFilename st)
      | HonggfuzzMutator \<Rightarrow> Some (Honggfuzz_batchMutate E X cfg numToGenerate parentID parentPathAndFilename st)
      | OedipusMutator \<Rightarrow> Oedipus_batchMutate E X cfg numToGenerate parentID parentPathAndFilename st
      | ExternalMutator \<Rightarrow> Some (External_batchMutate E X cfg numToGenerate parentID parentPathAndFilename st))"

text \<open>
  The check of the set-up: the programs and directories have to exist; the external mutator also writes
  the name of the fuzz job into the directory of the generators. \<open>None\<close>: the process exits.
\<close>

definition External_isSetupFunctionable :: "env \<Rightarrow> engines \<Rightarrow> tg_config \<Rightarrow> tg \<Rightarrow> (bool \<times> tg) option" where
  "External_isSetupFunctionable E X cfg st =
     (let a = tg_agent st in
      if \<not> e_directory X (tick a) (tg_testcaseDir cfg) then Some (False, st)
      else if \<not> e_directory X (tick a) (m_extTestcaseDir st) then Some (False, st)
      else do {
        (resp, a) \<leftarrow> sendReqAndRecvResp E GetLMConfigurationRequest
          (m_serviceHostAndPort (m_lmServiceDescriptor a)) timeoutNormalMessage a;
        Some (case resp of None \<Rightarrow> (False, st\<lparr>tg_agent := a\<rparr>)
          | Some m \<Rightarrow>
              (let lmConfig = getlmconfigurationresponse m;
                   outFilePath = m_extTestcaseDir st @ pathSeperator @ ''fuzzjob.name''
               in if \<not> env_open_ok E (tick a) outFilePath then (False, st\<lparr>tg_agent := next_tick a\<rparr>)
                  else (True, st\<lparr>tg_agent := (next_tick a)\<lparr>files :=
                    (files a)(outFilePath \<mapsto> m_fuzzJobName lmConfig @ [CHR 0x0A])\<rparr>\<rparr>)))
      })"

definition isSetupFunctionable ::
    "env \<Rightarrow> engines \<Rightarrow> tg_config \<Rightarrow> mutator \<Rightarrow> tg \<Rightarrow> (bool \<times> tg) option" where
  "isSetupFunctionable E X cfg m st =
     (let a = tg_agent st;
          testcaseDir = e_directory X (tick a) (tg_testcaseDir cfg)
      in case m of
        RadamsaMutator \<Rightarrow> Some (files a ''./radamsa.exe'' \<noteq> None \<and> testcaseDir, st)
      | AFLMutator \<Rightarrow> Some (testcaseDir, st)
      | CaRRoTMutator \<Rightarrow> Some (files a ''./CaRRoT'' \<noteq> None \<and> testcaseDir, st)
      | HonggfuzzMutator \<Rightarrow> Some (testcaseDir, st)
      | OedipusMutator \<Rightarrow> Some (files a ''./Oedipus'' \<noteq> None \<and> testcaseDir, st)
      | ExternalMutator \<Rightarrow> External_isSetupFunctionable E X cfg st)"

section \<open>Facts on the children\<close>

text \<open>
  The children of one batch of the internal mutators have consecutive numbers from the counter on; the
  counter only advances.
\<close>

definition fresh_child :: "tg_config \<Rightarrow> FluffiTestcaseID \<Rightarrow> 64 word \<Rightarrow> nat \<Rightarrow> testcase_descriptor \<Rightarrow> bool" where
  "fresh_child cfg parentID n i t \<longleftrightarrow>
     t = mkTestcaseDescriptor (mkTestcaseID (tg_self cfg) (n + of_nat i)) parentID
       (generateTestcasePathAndFilename (mkTestcaseID (tg_self cfg) (n + of_nat i)) (tg_testcaseDir cfg)) False"

definition fresh_children ::
    "tg_config \<Rightarrow> FluffiTestcaseID \<Rightarrow> 64 word \<Rightarrow> nat \<Rightarrow> testcase_descriptor list \<Rightarrow> bool" where
  "fresh_children cfg parentID n k ts \<longleftrightarrow>
     (\<exists>is. sorted_wrt (<) is \<and> (\<forall>i \<in> set is. i < k) \<and> list_all2 (fresh_child cfg parentID n) is ts)"

lemma fresh_children_Nil [simp]: "fresh_children cfg p n k []"
  unfolding fresh_children_def by (rule exI [of _ "[]"]) simp

lemma fresh_child_Suc: "fresh_child cfg p (n + 1) i t \<Longrightarrow> fresh_child cfg p n (Suc i) t"
  by (simp add: fresh_child_def ac_simps)

lemma sorted_map_Suc: "sorted_wrt (<) (is :: nat list) \<Longrightarrow> sorted_wrt (<) (map Suc is)"
  by (induction "is") auto

lemma fresh_children_later:
  assumes "fresh_children cfg p (n + 1) k ts" shows "fresh_children cfg p n (Suc k) ts"
proof -
  from assms obtain "is" where i: "sorted_wrt (<) is" "\<forall>i \<in> set is. i < k"
      "list_all2 (fresh_child cfg p (n + 1)) is ts" by (auto simp: fresh_children_def)
  have "list_all2 (fresh_child cfg p n) (map Suc is) ts"
    using i(3) by (auto simp: list_all2_conv_all_nth intro: fresh_child_Suc)
  with i sorted_map_Suc [OF i(1)] show ?thesis
    unfolding fresh_children_def by (intro exI [of _ "map Suc is"]) auto
qed

lemma fresh_children_Cons:
  assumes "fresh_children cfg p (n + 1) k ts" and "fresh_child cfg p n 0 t"
  shows "fresh_children cfg p n (Suc k) (t # ts)"
proof -
  from assms(1) obtain "is" where i: "sorted_wrt (<) is" "\<forall>i \<in> set is. i < k"
      "list_all2 (fresh_child cfg p (n + 1)) is ts" by (auto simp: fresh_children_def)
  have "list_all2 (fresh_child cfg p n) (map Suc is) ts"
    using i(3) by (auto simp: list_all2_conv_all_nth intro: fresh_child_Suc)
  with assms(2) have "list_all2 (fresh_child cfg p n) (0 # map Suc is) (t # ts)" by simp
  with i sorted_map_Suc [OF i(1)] show ?thesis
    unfolding fresh_children_def by (intro exI [of _ "0 # map Suc is"]) auto
qed

lemma write_child_result:
  assumes "write_child E cfg p bs st = (child, st')"
  shows "s_numMutations st' = s_numMutations st + 1" and "tg_queue st' = tg_queue st"
    and "case child of None \<Rightarrow> files (tg_agent st') = files (tg_agent st)
      | Some c \<Rightarrow> fresh_child cfg p (s_numMutations st) 0 c \<and>
          files (tg_agent st') = (files (tg_agent st))(m_pathAndFileName c \<mapsto> bs)"
  using assms by (auto simp: write_child_def genNewLocalFluffiTestcaseID_def Let_def fresh_child_def
      mkTestcaseDescriptor_def split: if_splits)

lemma afl_loop_fresh:
  "afl_loop E X cfg p bs k st = (ts, st') \<Longrightarrow>
     fresh_children cfg p (s_numMutations st) k ts \<and> tg_queue st' = tg_queue st \<and>
     s_numMutations st' = s_numMutations st + of_nat k"
proof (induction k arbitrary: st ts st')
  case (Suc k)
  obtain child st1 where w: "write_child E cfg p (e_havoc X (unat (s_numMutations st)) bs) st = (child, st1)"
    by fastforce
  obtain us st2 where l: "afl_loop E X cfg p bs k st1 = (us, st2)" by fastforce
  note wr = write_child_result [OF w]
  have r: "ts = (case child of None \<Rightarrow> us | Some c \<Rightarrow> c # us)" "st' = st2" using Suc.prems w l by auto
  from Suc.IH [OF l] wr(1,2) have ih: "fresh_children cfg p (s_numMutations st + 1) k us"
    "tg_queue st2 = tg_queue st" "s_numMutations st2 = s_numMutations st + of_nat (Suc k)"
    by (simp_all add: ac_simps)
  show ?case
    using r ih wr(3) by (cases child) (auto intro: fresh_children_later fresh_children_Cons)
qed simp

lemma honggfuzz_loop_fresh:
  "honggfuzz_loop E X cfg p bs k run st = (ts, st') \<Longrightarrow>
     fresh_children cfg p (s_numMutations st) k ts \<and> tg_queue st' = tg_queue st \<and>
     (\<exists>j \<le> k. s_numMutations st' = s_numMutations st + of_nat j)"
proof (induction k arbitrary: run st ts st')
  case (Suc k)
  obtain buf sz where run: "run = (buf, sz)" by fastforce
  show ?case
  proof (cases "length bs \<ge> HONGGFUZZ_MAXSIZE")
    case True
    then show ?thesis using Suc.prems run by (auto intro: exI [of _ 0])
  next
    case False
    obtain buf' sz' where m: "e_mangle X (unat (s_numMutations st)) (length bs) (bs @ drop (length bs) buf, sz) = (buf', sz')"
      by fastforce
    obtain child st1 where w: "write_child E cfg p (take sz' buf') st = (child, st1)" by fastforce
    obtain us st2 where l: "honggfuzz_loop E X cfg p bs k (buf', sz') st1 = (us, st2)" by fastforce
    note wr = write_child_result [OF w]
    have r: "ts = (case child of None \<Rightarrow> us | Some c \<Rightarrow> c # us)" "st' = st2"
      using Suc.prems False run m w l by (auto simp: Let_def)
    from Suc.IH [OF l] wr(1,2) obtain j where ih: "fresh_children cfg p (s_numMutations st + 1) k us"
      "tg_queue st2 = tg_queue st" "j \<le> k" "s_numMutations st2 = s_numMutations st + 1 + of_nat j" by auto
    have "\<exists>j \<le> Suc k. s_numMutations st2 = s_numMutations st + of_nat j"
      using ih(3,4) by (intro exI [of _ "Suc j"]) (simp add: ac_simps)
    then show ?thesis
      using r ih(1,2) wr(3) by (cases child) (auto intro: fresh_children_later fresh_children_Cons)
  qed
qed auto

lemma collect_children_fresh:
  "collect_children E cfg filePrefix p i k st = (ts, st') \<Longrightarrow>
     fresh_children cfg p (s_numMutations st) k ts \<and> tg_queue st' = tg_queue st \<and>
     (\<exists>j \<le> k. s_numMutations st' = s_numMutations st + of_nat j)"
proof (induction k arbitrary: i st ts st')
  case (Suc k)
  let ?f = "tg_testcaseDir cfg @ pathSeperator @ filePrefix @ to_string i"
  let ?t = "mkTestcaseID (tg_self cfg) (s_numMutations st)"
  let ?p = "generateTestcasePathAndFilename ?t (tg_testcaseDir cfg)"
  let ?st1 = "st\<lparr>s_numMutations := s_numMutations st + 1\<rparr>"
  show ?case
  proof (cases "files (tg_agent st) ?f = None")
    case True
    then show ?thesis using Suc.prems by (auto simp: genNewLocalFluffiTestcaseID_def Let_def intro: exI [of _ 1])
  next
    case False
    obtain renamed a where n: "attemptRenameFile E ?f ?p (tg_agent st) = (renamed, a)" by fastforce
    obtain us st2 where l: "collect_children E cfg filePrefix p (Suc i) k (?st1\<lparr>tg_agent := a\<rparr>) = (us, st2)"
      by fastforce
    have r: "ts = (if renamed then mkTestcaseDescriptor ?t p ?p False # us else us)" "st' = st2"
      using Suc.prems False n l by (auto simp: genNewLocalFluffiTestcaseID_def Let_def)
    from Suc.IH [OF l] obtain j where ih: "fresh_children cfg p (s_numMutations st + 1) k us"
      "tg_queue st2 = tg_queue st" "j \<le> k" "s_numMutations st2 = s_numMutations st + 1 + of_nat j" by auto
    have "\<exists>j \<le> Suc k. s_numMutations st2 = s_numMutations st + of_nat j"
      using ih(3,4) by (intro exI [of _ "Suc j"]) (simp add: ac_simps)
    moreover have "fresh_child cfg p (s_numMutations st) 0 (mkTestcaseDescriptor ?t p ?p False)"
      by (simp add: fresh_child_def)
    ultimately show ?thesis
      using r ih(1,2) by (auto intro: fresh_children_later fresh_children_Cons)
  qed
qed auto

lemma fresh_children_length: "fresh_children cfg p n k ts \<Longrightarrow> length ts \<le> k"
proof -
  assume "fresh_children cfg p n k ts"
  then obtain "is" where i: "sorted_wrt (<) is" "\<forall>i \<in> set is. i < k"
      "list_all2 (fresh_child cfg p n) is ts" by (auto simp: fresh_children_def)
  have "length is = card (set is)" using i(1) by (simp add: distinct_card strict_sorted_iff)
  also have "\<dots> \<le> k" using card_mono [of "{..<k}" "set is"] i(2) by auto
  finally show ?thesis using list_all2_lengthD [OF i(3)] by simp
qed

lemma fresh_children_distinct:
  assumes "fresh_children cfg p n k ts" and "k \<le> 2 ^ 64"
  shows "distinct (map td_key ts)"
proof -
  from assms(1) obtain "is" where i: "sorted_wrt (<) is" "\<forall>i \<in> set is. i < k"
      "list_all2 (fresh_child cfg p n) is ts" by (auto simp: fresh_children_def)
  let ?g = "\<lambda>i. (m_guid (tg_self cfg), n + of_nat i :: 64 word)"
  have keys: "map td_key ts = map ?g is"
    using i(3) by (auto simp: list_all2_conv_all_nth fresh_child_def mkTestcaseDescriptor_def tid_key_def
        mkTestcaseID_def intro!: nth_equalityI)
  have "inj_on (\<lambda>i. of_nat i :: 64 word) {..<2 ^ 64}"
  proof (rule inj_onI)
    fix x y :: nat
    assume x: "x \<in> {..<2 ^ 64}" and y: "y \<in> {..<2 ^ 64}" and eq: "(of_nat x :: 64 word) = of_nat y"
    have "unat (of_nat x :: 64 word) = x" by (rule of_nat_inverse [OF refl]) (use x in simp)
    moreover have "unat (of_nat y :: 64 word) = y" by (rule of_nat_inverse [OF refl]) (use y in simp)
    ultimately show "x = y" unfolding eq by (rule subst)
  qed
  moreover have "set is \<subseteq> {..<2 ^ 64}"
    using i(2) assms(2) by (auto intro: less_le_trans)
  ultimately have "inj_on (\<lambda>i. of_nat i :: 64 word) (set is)" by (rule inj_on_subset)
  then have "inj_on ?g (set is)" by (simp add: inj_on_def)
  moreover have "distinct is" using i(1) by (simp add: strict_sorted_iff)
  ultimately show ?thesis by (simp add: keys distinct_map)
qed

end
