(* ===== verification/TGWorkers.thy ===== *)
theory TGWorkers
  imports TGMutators
begin

text \<open>
  The workers of the generator and the handler that feeds the runners: \<open>GetTestcaseRequestHandler.cpp\<close>,
  \<open>QueueCleanerWorker.cpp\<close> and \<open>QueueFillerWorker.cpp\<close>, and the generator as a transition system.
\<close>

section \<open>GetTestcaseRequestHandler\<close>

definition GetTestcaseRequestHandler :: "env \<Rightarrow> tg_config \<Rightarrow> tg \<Rightarrow> FLUFFIMessage \<Rightarrow> FLUFFIMessage \<times> tg" where
  "GetTestcaseRequestHandler E cfg st req =
     (let a = tg_agent st in
      case popPendingTCForProcessing (env_clock E (tick a)) (tg_queue st) of
        None \<Rightarrow> (GetTestcaseResponse no_testcase, st)
      | Some (testcase, q) \<Rightarrow>
          (let (dat, flag) = loadTestcaseChunkInMemory E (td_id testcase) (tg_testcaseDir cfg) 0 a
           in (GetTestcaseResponse \<lparr>gtr_success = True, gtr_id = Some (tid_getProtobuf (td_id testcase)),
                 gtr_parentId = Some (tid_getProtobuf (td_parentId testcase)), gtr_testCaseFirstChunk = dat,
                 gtr_isLastChunk = the_flag E a flag, gtr_forceFullCoverage = m_forceFullCoverage testcase\<rparr>,
               st\<lparr>tg_queue := q, tg_agent := next_tick a\<rparr>)))"

section \<open>Requests of the workers to the local manager\<close>

text \<open>As for \<open>sendReqAndRecvResp\<close>, \<open>None\<close> stands for an exit of the process.\<close>

definition ask_lm :: "env \<Rightarrow> FLUFFIMessage \<Rightarrow> int \<Rightarrow> tg \<Rightarrow> (FLUFFIMessage option \<times> tg) option" where
  "ask_lm E req timeoutMS st =
     do {
       (resp, a) \<leftarrow> sendReqAndRecvResp E req
         (m_serviceHostAndPort (m_lmServiceDescriptor (tg_agent st))) timeoutMS (tg_agent st);
       Some (resp, st\<lparr>tg_agent := a\<rparr>)
     }"

definition config_request :: "tg_config \<Rightarrow> FLUFFIMessage" where
  "config_request cfg = GetFuzzJobConfigurationRequest (Some (sd_getProtobuf (tg_self cfg)))"

section \<open>QueueCleanerWorker\<close>

definition removeCompletedTestcases :: "env \<Rightarrow> tg \<Rightarrow> tg option" where
  "removeCompletedTestcases E st =
     do {
       (resp, st) \<leftarrow> ask_lm E (GetNewCompletedTestcaseIDsRequest (m_serverTimestampOfNewestEvaluationResult st))
         timeoutNormalMessage st;
       Some (case resp of None \<Rightarrow> st
         | Some m \<Rightarrow>
             (let (updatetimestamp, ids) = getnewcompletedtestcaseidsresponse m;
                  (q, a) = removeEvaluatedTestcases (map tid_of_proto ids) (tg_queue st) (tg_agent st)
              in st\<lparr>m_serverTimestampOfNewestEvaluationResult := updatetimestamp, tg_queue := q, tg_agent := a\<rparr>))
     }"

definition reinsertBefore :: "env \<Rightarrow> tg \<Rightarrow> tg" where
  "reinsertBefore E st =
     (let a = tg_agent st;
          timeBeforeWhichShouldBeReinserted = env_clock E (tick a) - m_intervallToWaitForReinsertionInMillisec st
      in st\<lparr>tg_queue := reinsertTestcasesHavingNoAnswerSince timeBeforeWhichShouldBeReinserted (tg_queue st),
            tg_agent := next_tick a\<rparr>)"

text \<open>
  The interval is determined once: while it is 0. It is set to five minutes before the configuration is
  asked for. \<open>None\<close>: the process exits, on a ZeroMQ error or on an unreadable \<open>hangTimeout\<close>.
\<close>

definition reinsertTestcasesWithNoResponse :: "env \<Rightarrow> tg_config \<Rightarrow> tg \<Rightarrow> tg option" where
  "reinsertTestcasesWithNoResponse E cfg st =
     (if m_intervallToWaitForReinsertionInMillisec st = 0 then
        do {
          (resp, st) \<leftarrow> ask_lm E (config_request cfg) timeoutNormalMessage
            (st\<lparr>m_intervallToWaitForReinsertionInMillisec := 5 * 60 * 1000\<rparr>);
          (case resp of None \<Rightarrow> Some st
           | Some m \<Rightarrow>
               (case received_settings m ''hangTimeout'' of None \<Rightarrow> Some st
                | Some v \<Rightarrow>
                    do {
                      hangTimeout \<leftarrow> stoi v;
                      Some (reinsertBefore E
                        (if m_intervallToWaitForReinsertionInMillisec st < 2 * hangTimeout
                         then st\<lparr>m_intervallToWaitForReinsertionInMillisec := 2 * hangTimeout\<rparr> else st))
                    }))
        }
      else Some (reinsertBefore E st))"

text \<open>The report on one testcase; the answer is not looked at, only whether there is one.\<close>

definition report_request :: "env \<Rightarrow> tg_config \<Rightarrow> testcase_descriptor \<Rightarrow> agent \<Rightarrow> FLUFFIMessage" where
  "report_request E cfg tcToReport a =
     (let (dat, flag) = loadTestcaseChunkInMemory E (td_id tcToReport) (tg_testcaseDir cfg) 0 a
      in ReportTestcaseWithNoResultRequest \<lparr>rnr_id = Some (tid_getProtobuf (td_id tcToReport)),
           rnr_parentId = Some (tid_getProtobuf (td_parentId tcToReport)), rnr_testCaseFirstChunk = dat,
           rnr_isLastChunk = the_flag E a flag\<rparr>)"

fun report_loop :: "env \<Rightarrow> tg_config \<Rightarrow> testcase_descriptor list \<Rightarrow> tg \<Rightarrow> tg option" where
  "report_loop E cfg [] st = Some st"
| "report_loop E cfg (tcToReport # rest) st =
     do {
       (resp, st) \<leftarrow> ask_lm E (report_request E cfg tcToReport (tg_agent st)) timeoutFileTransferMessage st;
       report_loop E cfg rest
         (case resp of
            None \<Rightarrow> st\<lparr>tg_queue := pushNewGeneratedTestcase tcToReport (tg_queue st)\<rparr>
          | Some m \<Rightarrow> st\<lparr>tg_agent := deleteFile tcToReport (tg_agent st)\<rparr>)
     }"

definition reportTestcasesWithMultipleNoResponse :: "env \<Rightarrow> tg_config \<Rightarrow> tg \<Rightarrow> tg option" where
  "reportTestcasesWithMultipleNoResponse E cfg st =
     (let (testcasesThatNeedToBeReported, q) =
            handMeAllTestcasesWithTooManyRetries (m_maxRetriesBeforeReport cfg) (tg_queue st)
      in report_loop E cfg (rev testcasesThatNeedToBeReported) (st\<lparr>tg_queue := q\<rparr>))"

text \<open>One pass of the loop of \<open>workerMain\<close>; \<open>waitedMS\<close> is its local variable.\<close>

definition cleaner_pass :: "env \<Rightarrow> tg_config \<Rightarrow> int \<times> tg \<Rightarrow> (int \<times> tg) option" where
  "cleaner_pass E cfg = (\<lambda>(waitedMS, st).
     let checkAgainMS = 500 in
     if waitedMS < m_intervallBetweenTwoCleaningRoundsInMillisec cfg then Some (waitedMS + checkAgainMS, st)
     else do {
       st \<leftarrow> removeCompletedTestcases E st;
       st \<leftarrow> reportTestcasesWithMultipleNoResponse E cfg st;
       st \<leftarrow> reinsertTestcasesWithNoResponse E cfg st;
       Some (0, st)
     })"

section \<open>QueueFillerWorker\<close>

definition mutator_of_name :: "string \<Rightarrow> mutator option" where
  "mutator_of_name n =
     (if n = ''RadamsaMutator'' then Some RadamsaMutator
      else if n = ''AFLMutator'' then Some AFLMutator
      else if n = ''CaRRoTMutator'' then Some CaRRoTMutator
      else if n = ''HonggfuzzMutator'' then Some HonggfuzzMutator
      else if n = ''OedipusMutator'' then Some OedipusMutator
      else if n = ''ExternalMutator'' then Some ExternalMutator
      else None)"

text \<open>\<open>None\<close>: the process exits, also for an unknown mutator and for a set-up that does not work.\<close>

definition tryGetConfigFromLM :: "env \<Rightarrow> engines \<Rightarrow> tg_config \<Rightarrow> tg \<Rightarrow> (bool \<times> tg) option" where
  "tryGetConfigFromLM E X cfg st =
     do {
       (resp, st) \<leftarrow> ask_lm E (config_request cfg) timeoutNormalMessage st;
       (case resp of None \<Rightarrow> Some (False, st)
        | Some m \<Rightarrow>
            (let settings = received_settings m in
             case settings ''chosenSubtype'' of None \<Rightarrow> Some (False, st)
             | Some chosenSubtype \<Rightarrow>
                 if chosenSubtype \<notin> set (m_myAgentSubTypes cfg) then Some (False, st)
                 else do {
                   mut \<leftarrow> mutator_of_name chosenSubtype;
                   let st = st\<lparr>m_mutator := Some mut\<rparr>;
                   let st = (if mut = ExternalMutator
                     then st\<lparr>m_extTestcaseDir := opt_or '''' (settings ''extGeneratorDirectory''),
                             m_mutatorNeedsParents := False\<rparr>
                     else st);
                   (functionable, st) \<leftarrow> isSetupFunctionable E X cfg mut st;
                   if functionable then Some (True, st) else None
                 }))
     }"

text \<open>
  The parent is stored in the temporary directory. An exception is an \<open>Inl\<close>; copying the parent to the
  testcase directory may fail on the target file.
\<close>

definition special_id :: FluffiTestcaseID where
  "special_id = mkTestcaseID (mkServiceDescriptor ''special'' ''special'') 0"

definition queue_parent :: "env \<Rightarrow> tg_config \<Rightarrow> FluffiTestcaseID \<Rightarrow> tg \<Rightarrow> (string + FluffiTestcaseID) \<times> tg" where
  "queue_parent E cfg parentID st =
     (let a = tg_agent st;
          filenameInTestcaseDir = generateTestcasePathAndFilename parentID (tg_testcaseDir cfg);
          filenameInTemp = generateTestcasePathAndFilename parentID (m_queueFillerTempDir cfg)
      in if files a filenameInTestcaseDir \<noteq> None then (Inr parentID, st)
         else if \<not> env_open_ok E (tick a) filenameInTestcaseDir \<or> files a filenameInTemp = None
         then (Inl ''filesystem error'', st\<lparr>tg_agent := next_tick a\<rparr>)
         else (Inr parentID,
           st\<lparr>tg_agent := (next_tick a)\<lparr>files := (files a)(filenameInTestcaseDir := files a filenameInTemp)\<rparr>,
              tg_queue := pushNewGeneratedTestcase
                (mkTestcaseDescriptor parentID special_id filenameInTestcaseDir True) (tg_queue st)\<rparr>))"

definition getNewParent :: "env \<Rightarrow> tg_config \<Rightarrow> tg \<Rightarrow> ((string + FluffiTestcaseID) \<times> tg) option" where
  "getNewParent E cfg st =
     do {
       (resp, st) \<leftarrow> ask_lm E GetTestcaseToMutateRequest timeoutNormalMessage st;
       (case resp of None \<Rightarrow> Some (Inl ''GetTestcase unsuccesful'', st)
        | Some m \<Rightarrow>
            (let receivedTestcase = gettestcasetomutateresponse m;
                 parentID = tid_of_proto (opt_or default_TestcaseID (gtm_id receivedTestcase))
             in do {
               (fileStored, a) \<leftarrow> storeTestcaseFileOnDisk E parentID (m_queueFillerTempDir cfg)
                 (gtm_testCaseFirstChunk receivedTestcase) (gtm_isLastChunk receivedTestcase)
                 (m_serviceHostAndPort (m_lmServiceDescriptor (tg_agent st))) (tg_agent st);
               let st = st\<lparr>tg_agent := a\<rparr>;
               Some (if \<not> fileStored then (Inl ''File storage unsuccesful'', st)
                 else if gtm_alsoRunWithoutMutation receivedTestcase then queue_parent E cfg parentID st
                 else (Inr parentID, st))
             }))
     }"

definition reportNewMutations :: "env \<Rightarrow> FluffiTestcaseID \<Rightarrow> int \<Rightarrow> tg \<Rightarrow> tg option" where
  "reportNewMutations E i numOfNewMutations st =
     map_option snd (ask_lm E (ReportNewMutationsRequest (Some (tid_getProtobuf i)) numOfNewMutations)
       timeoutNormalMessage st)"

text \<open>What follows the call of \<open>batchMutate\<close>: the adaptation of the bulk size and the parent's file.\<close>

definition after_batch ::
    "env \<Rightarrow> tg_config \<Rightarrow> FluffiTestcaseID \<Rightarrow> string + testcase_descriptor list \<Rightarrow> tg \<Rightarrow> tg option" where
  "after_batch E cfg parentID r st =
     (case r of
        Inl e \<Rightarrow> Some (if m_bulkGenerationSize st > 1
          then st\<lparr>m_bulkGenerationSize := m_bulkGenerationSize st - 1\<rparr> else st)
      | Inr children \<Rightarrow>
          if length children > 0 then
            do {
              st \<leftarrow> reportNewMutations E parentID (int (length children))
                (st\<lparr>tg_queue := pushNewGeneratedTestcases children (tg_queue st)\<rparr>);
              Some (if m_bulkGenerationSize st < m_maxBulkGenerationSize cfg
                then st\<lparr>m_bulkGenerationSize := m_bulkGenerationSize st + 1\<rparr> else st)
            }
          else Some st)"

definition delete_parent :: "env \<Rightarrow> string \<Rightarrow> tg \<Rightarrow> tg" where
  "delete_parent E parentPathAndFileName st =
     (if m_mutatorNeedsParents st then
        (let (removed, a) = fs_remove E parentPathAndFileName (tg_agent st) in
         if removed then st\<lparr>tg_agent := a\<rparr>
         else st\<lparr>tg_agent := collectNow (markFileForDelete parentPathAndFileName a)\<rparr>)
      else st)"

text \<open>
  One pass of the loop of \<open>workerMain\<close>. The mutator is dereferenced; that it is there is part of the
  invariant below.
\<close>

definition no_parent :: FluffiTestcaseID where
  "no_parent = mkTestcaseID (mkServiceDescriptor '''' '''') 0"

definition fill_queue :: "env \<Rightarrow> engines \<Rightarrow> tg_config \<Rightarrow> tg \<Rightarrow> tg option" where
  "fill_queue E X cfg st =
     (if length (m_pendingTestcaseQueue (tg_queue st)) > m_desiredQueueFillLevel cfg then Some st
      else do {
        (parent, st) \<leftarrow> (if m_mutatorNeedsParents st then getNewParent E cfg st else Some (Inr no_parent, st));
        (case parent of Inl e \<Rightarrow> Some st
         | Inr parentID \<Rightarrow>
             (let parentPathAndFileName = generateTestcasePathAndFilename parentID (m_queueFillerTempDir cfg)
              in do {
                mut \<leftarrow> m_mutator st;
                (r, st) \<leftarrow> batchMutate E X cfg mut (nat (m_bulkGenerationSize st)) parentID
                  parentPathAndFileName st;
                st \<leftarrow> after_batch E cfg parentID r st;
                Some (delete_parent E parentPathAndFileName st)
              }))
      })"

definition filler_pass :: "env \<Rightarrow> engines \<Rightarrow> tg_config \<Rightarrow> tg \<Rightarrow> tg option" where
  "filler_pass E X cfg st =
     do {
       (got, st) \<leftarrow> (if m_gotConfigFromLM st then Some (True, st) else tryGetConfigFromLM E X cfg st);
       let st = st\<lparr>m_gotConfigFromLM := got\<rparr>;
       if got then fill_queue E X cfg st else Some st
     }"

section \<open>The generator as a transition system\<close>

text \<open>
  The steps of the threads: the handler of the communication threads, the rounds of the two queue
  workers (the cleaner's three operations one by one) and of the garbage collector.
\<close>

inductive tg_step :: "env \<Rightarrow> engines \<Rightarrow> tg_config \<Rightarrow> tg \<Rightarrow> tg \<Rightarrow> bool" for E X cfg where
  get_testcase: "GetTestcaseRequestHandler E cfg st GetTestcaseRequest = (resp, st') \<Longrightarrow>
    tg_step E X cfg st st'"
| fill: "filler_pass E X cfg st = Some st' \<Longrightarrow> tg_step E X cfg st st'"
| remove_completed: "removeCompletedTestcases E st = Some st' \<Longrightarrow> tg_step E X cfg st st'"
| report_no_response: "reportTestcasesWithMultipleNoResponse E cfg st = Some st' \<Longrightarrow> tg_step E X cfg st st'"
| reinsert: "reinsertTestcasesWithNoResponse E cfg st = Some st' \<Longrightarrow> tg_step E X cfg st st'"
| collect: "tg_step E X cfg st (st\<lparr>tg_agent := gc_worker_pass E (tg_agent st)\<rparr>)"

inductive tg_start :: "tg_config \<Rightarrow> tg \<Rightarrow> bool" for cfg where
  "tg_start cfg \<lparr>tg_queue = \<lparr>m_pendingTestcaseQueue = [], m_sentButNotEvaluatedTestcaseSet = []\<rparr>,
     tg_agent = a, s_numMutations = 0, encodedDBcredentials = '''',
     m_serverTimestampOfNewestEvaluationResult = 0, m_intervallToWaitForReinsertionInMillisec = 0,
     m_gotConfigFromLM = False, m_mutator = None, m_mutatorNeedsParents = True, m_extTestcaseDir = '''',
     m_bulkGenerationSize = m_maxBulkGenerationSize cfg\<rparr>"

end
