(* ===== verification/TGFacts.thy ===== *)
theory TGFacts
  imports TGWorkers
begin

text \<open>
  Facts on the generator: what each operation leaves alone, the invariant of the reachable states, the
  conservation of the queue, and the order in which testcases are handed out.
\<close>

section \<open>What operations leave alone\<close>

text \<open>Everything of the state but the process' surroundings and the counter of the identifiers.\<close>

definition tg_rest where
  "tg_rest st = (tg_queue st, m_serverTimestampOfNewestEvaluationResult st,
     m_intervallToWaitForReinsertionInMillisec st, m_gotConfigFromLM st, m_mutator st, m_mutatorNeedsParents st,
     m_extTestcaseDir st, m_bulkGenerationSize st)"

lemma tg_rest_updates [simp]:
  "tg_rest (st\<lparr>tg_agent := a\<rparr>) = tg_rest st" "tg_rest (st\<lparr>s_numMutations := n\<rparr>) = tg_rest st"
  "tg_rest (st\<lparr>encodedDBcredentials := c\<rparr>) = tg_rest st"
  by (simp_all add: tg_rest_def)

lemma tg_rest_fields:
  assumes "tg_rest st' = tg_rest st"
  shows "tg_queue st' = tg_queue st"
    and "m_intervallToWaitForReinsertionInMillisec st' = m_intervallToWaitForReinsertionInMillisec st"
    and "m_gotConfigFromLM st' = m_gotConfigFromLM st" and "m_mutator st' = m_mutator st"
    and "m_mutatorNeedsParents st' = m_mutatorNeedsParents st"
    and "m_bulkGenerationSize st' = m_bulkGenerationSize st"
  using assms by (simp_all add: tg_rest_def)

abbreviation lm_hap :: "tg \<Rightarrow> string" where
  "lm_hap st \<equiv> m_serviceHostAndPort (m_lmServiceDescriptor (tg_agent st))"

lemma ask_lm_result:
  assumes "ask_lm E req tmo st = Some (r, st')"
  shows "st' = st\<lparr>tg_agent := tg_agent st'\<rparr>" and "tg_rest st' = tg_rest st" and "lm_hap st' = lm_hap st"
    and "r = Some m \<Longrightarrow> env_net E (Suc (tick (tg_agent st))) (lm_hap st) req = Reply m"
    and "files (tg_agent st') = files (tg_agent st)"
    and "sockets_idle (tg_agent st) \<Longrightarrow> sockets_idle (tg_agent st')"
    and "m_setOfFilesToDelete (tg_agent st') = m_setOfFilesToDelete (tg_agent st)"
proof -
  from assms obtain a where s: "sendReqAndRecvResp E req (lm_hap st) tmo (tg_agent st) = Some (r, a)"
    and st': "st' = st\<lparr>tg_agent := a\<rparr>" by (auto simp: ask_lm_def bind_eq_Some_conv)
  show "st' = st\<lparr>tg_agent := tg_agent st'\<rparr>" "tg_rest st' = tg_rest st" using st' by simp_all
  show "lm_hap st' = lm_hap st" "files (tg_agent st') = files (tg_agent st)"
    "m_setOfFilesToDelete (tg_agent st') = m_setOfFilesToDelete (tg_agent st)"
    using st' sendReqAndRecvResp_frame [OF s] by simp_all
  show "sockets_idle (tg_agent st')" if "sockets_idle (tg_agent st)"
    using st' sendReqAndRecvResp_idle [OF s that] by simp
  show "env_net E (Suc (tick (tg_agent st))) (lm_hap st) req = Reply m" if "r = Some m"
    using s that by (cases rule: sendReqAndRecvResp_cases) auto
qed

lemma write_child_rest [simp]: "tg_rest (snd (write_child E cfg p bs st)) = tg_rest st"
  by (simp add: write_child_def genNewLocalFluffiTestcaseID_def Let_def)

lemma afl_loop_rest: "tg_rest (snd (afl_loop E X cfg p bs k st)) = tg_rest st"
proof (induction k arbitrary: st)
  case (Suc k)
  show ?case using Suc [of "snd (write_child E cfg p (e_havoc X (unat (s_numMutations st)) bs) st)"]
    by (simp add: Let_def split_beta)
qed simp

lemma honggfuzz_loop_rest: "tg_rest (snd (honggfuzz_loop E X cfg p bs k run st)) = tg_rest st"
proof (induction k arbitrary: run st)
  case (Suc k)
  obtain buf sz where run: "run = (buf, sz)" by fastforce
  obtain buf' sz' where m: "e_mangle X (unat (s_numMutations st)) (length bs) (bs @ drop (length bs) buf, sz) = (buf', sz')"
    by fastforce
  show ?case
    using Suc [of "(buf', sz')" "snd (write_child E cfg p (take sz' buf') st)"]
    by (simp add: run m Let_def split_beta)
qed simp

lemma collect_children_rest: "tg_rest (snd (collect_children E cfg f p i k st)) = tg_rest st"
  by (induction k arbitrary: i st) (simp_all add: Let_def split_beta genNewLocalFluffiTestcaseID_def)

lemma run_and_collect_rest: "run_and_collect E X cfg c f e k p st = (r, st') \<Longrightarrow> tg_rest st' = tg_rest st"
  using collect_children_rest [of E cfg f p 1 k]
  by (auto simp: run_and_collect_def Let_def split_beta split: if_splits)

lemma batchMutate_rest:
  assumes "batchMutate E X cfg m k p f st = Some (r, st')" shows "tg_rest st' = tg_rest st"
proof (cases m)
  case RadamsaMutator
  then show ?thesis using assms run_and_collect_rest
    by (auto simp: batchMutate_def Radamsa_batchMutate_def split: if_splits)
next
  case CaRRoTMutator
  then show ?thesis using assms run_and_collect_rest
    by (auto simp: batchMutate_def CaRRoT_batchMutate_def split: if_splits)
next
  case AFLMutator
  then show ?thesis using assms
    by (auto simp: batchMutate_def AFL_batchMutate_def Let_def split_beta afl_loop_rest split: if_splits)
next
  case HonggfuzzMutator
  then show ?thesis using assms
    by (auto simp: batchMutate_def Honggfuzz_batchMutate_def Let_def split_beta honggfuzz_loop_rest
        split: if_splits)
next
  case ExternalMutator
  then show ?thesis using assms
    by (auto simp: batchMutate_def External_batchMutate_def Let_def split_beta split: if_splits)
next
  case OedipusMutator
  then show ?thesis using assms
    by (auto simp: batchMutate_def Oedipus_batchMutate_def Let_def bind_eq_Some_conv
        dest!: run_and_collect_rest split: if_splits option.splits)
qed

section \<open>The cleaner\<close>

text \<open>The local manager settled a testcase: it listed its identifier, or took the report on it.\<close>

definition settled :: "env \<Rightarrow> string \<Rightarrow> string \<times> 64 word \<Rightarrow> bool" where
  "settled E hap k \<longleftrightarrow>
     (\<exists>n ts m. env_net E n hap (GetNewCompletedTestcaseIDsRequest ts) = Reply m \<and>
        k \<in> tid_key ` tid_of_proto ` set (snd (getnewcompletedtestcaseidsresponse m))) \<or>
     (\<exists>n r m. env_net E n hap (ReportTestcaseWithNoResultRequest r) = Reply m \<and>
        k \<in> tid_key ` tid_of_proto ` set_option (rnr_id r))"

lemma removeCompletedTestcases_result:
  assumes "removeCompletedTestcases E st = Some st'"
  obtains (no_answer) "tg_rest st' = tg_rest st" "lm_hap st' = lm_hap st"
  | (removed) n m where "env_net E n (lm_hap st)
        (GetNewCompletedTestcaseIDsRequest (m_serverTimestampOfNewestEvaluationResult st)) = Reply m"
      "tg_queue st' = remove_keys_of (tid_key ` tid_of_proto ` set (snd (getnewcompletedtestcaseidsresponse m)))
         (tg_queue st)"
      "tg_rest (st'\<lparr>tg_queue := tg_queue st,
         m_serverTimestampOfNewestEvaluationResult := m_serverTimestampOfNewestEvaluationResult st\<rparr>) = tg_rest st"
      "m_serverTimestampOfNewestEvaluationResult st' = fst (getnewcompletedtestcaseidsresponse m)"
proof -
  from assms obtain r st1 where a: "ask_lm E (GetNewCompletedTestcaseIDsRequest
      (m_serverTimestampOfNewestEvaluationResult st)) timeoutNormalMessage st = Some (r, st1)"
    by (auto simp: removeCompletedTestcases_def bind_eq_Some_conv)
  show ?thesis
  proof (cases r)
    case None
    then show ?thesis using assms a ask_lm_result(2,3) [OF a] no_answer
      by (simp add: removeCompletedTestcases_def)
  next
    case (Some m)
    let ?ids = "map tid_of_proto (snd (getnewcompletedtestcaseidsresponse m))"
    from assms a Some have st': "st' = st1\<lparr>m_serverTimestampOfNewestEvaluationResult :=
          fst (getnewcompletedtestcaseidsresponse m),
        tg_queue := fst (removeEvaluatedTestcases ?ids (tg_queue st1) (tg_agent st1)),
        tg_agent := snd (removeEvaluatedTestcases ?ids (tg_queue st1) (tg_agent st1))\<rparr>"
      by (simp add: removeCompletedTestcases_def Let_def split_beta)
    show ?thesis
    proof (rule removed)
      show "env_net E (Suc (tick (tg_agent st))) (lm_hap st)
          (GetNewCompletedTestcaseIDsRequest (m_serverTimestampOfNewestEvaluationResult st)) = Reply m"
        by (rule ask_lm_result(4) [OF a Some])
      have r1: "tg_rest st1 = tg_rest st" by (rule ask_lm_result(2) [OF a])
      then show "tg_queue st' = remove_keys_of (tid_key ` tid_of_proto `
          set (snd (getnewcompletedtestcaseidsresponse m))) (tg_queue st)"
        by (simp add: st' removeEvaluatedTestcases_keys tg_rest_fields(1) [OF r1])
      show "tg_rest (st'\<lparr>tg_queue := tg_queue st, m_serverTimestampOfNewestEvaluationResult :=
          m_serverTimestampOfNewestEvaluationResult st\<rparr>) = tg_rest st"
        using r1 by (simp add: st' tg_rest_def)
    qed (simp add: st')
  qed
qed

text \<open>The report loop: each testcase is either pushed back or taken by the local manager.\<close>

lemma deleteFile_lm [simp]: "m_lmServiceDescriptor (deleteFile t a) = m_lmServiceDescriptor a"
  by (simp add: deleteFile_def markFileForDelete_def)

lemma deleteFile_idle [simp]: "sockets_idle (deleteFile t a) = sockets_idle a"
  by (simp add: deleteFile_def markFileForDelete_def sockets_idle_def)

definition taken :: "env \<Rightarrow> string \<Rightarrow> testcase_descriptor \<Rightarrow> bool" where
  "taken E hap t \<longleftrightarrow> (\<exists>n r m. env_net E n hap (ReportTestcaseWithNoResultRequest r) = Reply m \<and>
     rnr_id r = Some (tid_getProtobuf (td_id t)))"

lemma taken_settled: "taken E hap t \<Longrightarrow> settled E hap (td_key t)"
  unfolding taken_def settled_def by fastforce

lemma report_request_id:
  obtains r where "report_request E cfg t a = ReportTestcaseWithNoResultRequest r"
    and "rnr_id r = Some (tid_getProtobuf (td_id t))"
  by (simp add: report_request_def Let_def split_beta)

lemma report_loop_result:
  assumes "report_loop E cfg ts st = Some st'"
  shows "\<exists>kept gone. mset ts = mset kept + mset gone \<and>
    tg_queue st' = pushNewGeneratedTestcases kept (tg_queue st) \<and>
    (\<forall>t \<in> set gone. taken E (lm_hap st) t \<and>
        m_pathAndFileName t \<in> set (m_setOfFilesToDelete (tg_agent st'))) \<and>
    set (m_setOfFilesToDelete (tg_agent st)) \<subseteq> set (m_setOfFilesToDelete (tg_agent st')) \<and>
    tg_rest (st'\<lparr>tg_queue := tg_queue st\<rparr>) = tg_rest st"
  using assms
proof (induction ts arbitrary: st)
  case Nil
  then show ?case by (intro exI [of _ "[]"]) (simp add: pushNewGeneratedTestcases_def)
next
  case (Cons t ts)
  from Cons.prems obtain r st1
    where a: "ask_lm E (report_request E cfg t (tg_agent st)) timeoutFileTransferMessage st = Some (r, st1)"
    by (auto simp: bind_eq_Some_conv)
  note ar = ask_lm_result [OF a]
  let ?st2 = "case r of None \<Rightarrow> st1\<lparr>tg_queue := pushNewGeneratedTestcase t (tg_queue st1)\<rparr>
    | Some m \<Rightarrow> st1\<lparr>tg_agent := deleteFile t (tg_agent st1)\<rparr>"
  from Cons.prems a have l: "report_loop E cfg ts ?st2 = Some st'" by simp
  from Cons.IH [OF l] obtain kept gone where ih: "mset ts = mset kept + mset gone"
    "tg_queue st' = pushNewGeneratedTestcases kept (tg_queue ?st2)"
    "\<forall>t \<in> set gone. taken E (lm_hap ?st2) t \<and> m_pathAndFileName t \<in> set (m_setOfFilesToDelete (tg_agent st'))"
    "set (m_setOfFilesToDelete (tg_agent ?st2)) \<subseteq> set (m_setOfFilesToDelete (tg_agent st'))"
    "tg_rest (st'\<lparr>tg_queue := tg_queue ?st2\<rparr>) = tg_rest ?st2" by blast
  have hap: "lm_hap ?st2 = lm_hap st" using ar(3) by (simp split: option.split)
  have rest: "tg_rest (st'\<lparr>tg_queue := tg_queue st\<rparr>) = tg_rest st"
    using ih(5) ar(2) by (auto simp: tg_rest_def split: option.splits)
  have q1: "tg_queue st1 = tg_queue st" by (rule tg_rest_fields(1) [OF ar(2)])
  show ?case
  proof (cases r)
    case None
    have "tg_queue st' = pushNewGeneratedTestcases (t # kept) (tg_queue st)"
      using ih(2) q1 None by (simp add: pushNewGeneratedTestcases_def pushNewGeneratedTestcase_def)
    moreover have "mset (t # ts) = mset (t # kept) + mset gone" using ih(1) by simp
    moreover have "set (m_setOfFilesToDelete (tg_agent st)) \<subseteq> set (m_setOfFilesToDelete (tg_agent st'))"
      using ih(4) ar(7) None by simp
    moreover note ih(3) [unfolded hap] rest
    ultimately show ?thesis by blast
  next
    case (Some m)
    have "taken E (lm_hap st) t"
      using ar(4) [OF Some] report_request_id unfolding taken_def by metis
    moreover have sub: "set (m_setOfFilesToDelete (tg_agent st)) \<subseteq> set (m_setOfFilesToDelete (tg_agent st'))"
      "m_pathAndFileName t \<in> set (m_setOfFilesToDelete (tg_agent st'))"
      using ih(4) ar(7) Some by simp_all
    ultimately have "\<forall>t \<in> set (t # gone). taken E (lm_hap st) t \<and>
        m_pathAndFileName t \<in> set (m_setOfFilesToDelete (tg_agent st'))"
      using ih(3) [unfolded hap] by simp
    moreover have "tg_queue st' = pushNewGeneratedTestcases kept (tg_queue st)"
      using ih(2) q1 Some by simp
    moreover have "mset (t # ts) = mset kept + mset (t # gone)" using ih(1) by simp
    moreover note sub(1) rest
    ultimately show ?thesis by blast
  qed
qed

lemma report_result:
  assumes "reportTestcasesWithMultipleNoResponse E cfg st = Some st'"
  obtains kept gone where
    "queue_keys (tg_queue st) = queue_keys (tg_queue st') + image_mset td_key (mset gone)"
    "m_sentButNotEvaluatedTestcaseSet (tg_queue st') =
       filter (\<lambda>t. m_numOfProcessingAttempts t < m_maxRetriesBeforeReport cfg)
         (m_sentButNotEvaluatedTestcaseSet (tg_queue st))"
    "m_pendingTestcaseQueue (tg_queue st') = m_pendingTestcaseQueue (tg_queue st) @ kept"
    "mset (filter (\<lambda>t. m_maxRetriesBeforeReport cfg \<le> m_numOfProcessingAttempts t)
         (m_sentButNotEvaluatedTestcaseSet (tg_queue st))) = mset kept + mset gone"
    "\<forall>t \<in> set gone. taken E (lm_hap st) t \<and>
       m_pathAndFileName t \<in> set (m_setOfFilesToDelete (tg_agent st'))"
    "tg_rest (st'\<lparr>tg_queue := tg_queue st\<rparr>) = tg_rest st"
proof -
  obtain ts q where h: "handMeAllTestcasesWithTooManyRetries (m_maxRetriesBeforeReport cfg) (tg_queue st) = (ts, q)"
    by fastforce
  then have ts: "ts = filter (\<lambda>t. m_maxRetriesBeforeReport cfg \<le> m_numOfProcessingAttempts t)
      (m_sentButNotEvaluatedTestcaseSet (tg_queue st))"
    and q: "q = (tg_queue st)\<lparr>m_sentButNotEvaluatedTestcaseSet :=
        filter (\<lambda>t. m_numOfProcessingAttempts t < m_maxRetriesBeforeReport cfg)
          (m_sentButNotEvaluatedTestcaseSet (tg_queue st))\<rparr>"
    by (auto simp: handMeAllTestcasesWithTooManyRetries_def Let_def comp_def not_le)
  from assms h have l: "report_loop E cfg (rev ts) (st\<lparr>tg_queue := q\<rparr>) = Some st'"
    by (simp add: reportTestcasesWithMultipleNoResponse_def)
  from report_loop_result [OF l] obtain kept gone where r: "mset ts = mset kept + mset gone"
    "tg_queue st' = pushNewGeneratedTestcases kept q"
    "\<forall>t \<in> set gone. taken E (lm_hap st) t \<and> m_pathAndFileName t \<in> set (m_setOfFilesToDelete (tg_agent st'))"
    "tg_rest (st'\<lparr>tg_queue := q\<rparr>) = tg_rest (st\<lparr>tg_queue := q\<rparr>)" by auto
  show ?thesis
  proof (rule that [of gone kept])
    show "queue_keys (tg_queue st) = queue_keys (tg_queue st') + image_mset td_key (mset gone)"
      using tgq.hand_push_back [OF h r(1)] by (simp add: r(2))
    show "tg_rest (st'\<lparr>tg_queue := tg_queue st\<rparr>) = tg_rest st"
      using r(4) by (simp add: tg_rest_def)
  qed (use r(1,3) in \<open>simp_all add: r(2) q ts pushNewGeneratedTestcases_def\<close>)
qed

lemma reinsertBefore_result:
  "queue_keys (tg_queue (reinsertBefore E st)) = queue_keys (tg_queue st)"
  "set (m_sentButNotEvaluatedTestcaseSet (tg_queue (reinsertBefore E st))) \<subseteq>
     set (m_sentButNotEvaluatedTestcaseSet (tg_queue st))"
  "set (m_pendingTestcaseQueue (tg_queue (reinsertBefore E st))) \<subseteq>
     set (m_pendingTestcaseQueue (tg_queue st)) \<union> set (m_sentButNotEvaluatedTestcaseSet (tg_queue st))"
  "tg_rest ((reinsertBefore E st)\<lparr>tg_queue := tg_queue st\<rparr>) = tg_rest st"
  subgoal by (simp add: reinsertBefore_def Let_def tgq.reinsert_keys)
  by (auto simp: reinsertBefore_def Let_def tg_rest_def reinsertTestcasesHavingNoAnswerSince_def)

lemma reinsert_result:
  assumes "reinsertTestcasesWithNoResponse E cfg st = Some st'"
  obtains (asked) st1 where "m_intervallToWaitForReinsertionInMillisec st = 0"
      "tg_rest (st1\<lparr>m_intervallToWaitForReinsertionInMillisec := 0\<rparr>) = tg_rest st"
      "300000 \<le> m_intervallToWaitForReinsertionInMillisec st1" "st' = st1 \<or> st' = reinsertBefore E st1"
  | (known) "m_intervallToWaitForReinsertionInMillisec st \<noteq> 0" "st' = reinsertBefore E st"
proof (cases "m_intervallToWaitForReinsertionInMillisec st = 0")
  case False
  then show ?thesis using assms known by (simp add: reinsertTestcasesWithNoResponse_def)
next
  case True
  let ?st0 = "st\<lparr>m_intervallToWaitForReinsertionInMillisec := 5 * 60 * 1000\<rparr>"
  from assms True obtain r st1
    where a: "ask_lm E (config_request cfg) timeoutNormalMessage ?st0 = Some (r, st1)"
    by (auto simp: reinsertTestcasesWithNoResponse_def bind_eq_Some_conv)
  have i1: "m_intervallToWaitForReinsertionInMillisec st1 = 300000"
    using tg_rest_fields(2) [OF ask_lm_result(2) [OF a]] by simp
  have r1: "tg_rest (st1\<lparr>m_intervallToWaitForReinsertionInMillisec := 0\<rparr>) = tg_rest st"
    "tg_rest (st1\<lparr>m_intervallToWaitForReinsertionInMillisec := h,
       m_intervallToWaitForReinsertionInMillisec := 0\<rparr>) = tg_rest st" for h
    using ask_lm_result(2) [OF a] True by (simp_all add: tg_rest_def)
  show ?thesis
  proof (cases r)
    case None
    then have "st' = st1" using assms True a by (simp add: reinsertTestcasesWithNoResponse_def)
    then show ?thesis using asked [OF True r1(1)] i1 by simp
  next
    case (Some m)
    show ?thesis
    proof (cases "received_settings m ''hangTimeout''")
      case None
      then have "st' = st1" using assms True a Some by (simp add: reinsertTestcasesWithNoResponse_def)
      then show ?thesis using asked [OF True r1(1)] i1 by simp
    next
      case v: (Some v)
      then obtain h where "stoi v = Some h" and "st' = reinsertBefore E
          (if 300000 < 2 * h then st1\<lparr>m_intervallToWaitForReinsertionInMillisec := 2 * h\<rparr> else st1)"
        using assms True a Some i1 by (auto simp: reinsertTestcasesWithNoResponse_def bind_eq_Some_conv)
      then show ?thesis
        using asked [OF True r1(1)] asked [OF True r1(2) [of "2 * h"]] i1 by (auto split: if_splits)
    qed
  qed
qed

section \<open>The filler\<close>

lemma tryGetConfigFromLM_result:
  assumes "tryGetConfigFromLM E X cfg st = Some (ok, st')"
  obtains (refused) "\<not> ok" "tg_rest st' = tg_rest st"
  | (configured) mut where "ok" "m_mutator st' = Some mut"
      "m_mutatorNeedsParents st' = (if mut = ExternalMutator then False else m_mutatorNeedsParents st)"
      "tg_queue st' = tg_queue st" "m_bulkGenerationSize st' = m_bulkGenerationSize st"
      "m_intervallToWaitForReinsertionInMillisec st' = m_intervallToWaitForReinsertionInMillisec st"
proof -
  from assms obtain r st1 where a: "ask_lm E (config_request cfg) timeoutNormalMessage st = Some (r, st1)"
    by (auto simp: tryGetConfigFromLM_def bind_eq_Some_conv)
  note r1 = ask_lm_result(2) [OF a]
  have fn: "tg_rest u' = tg_rest u" if "isSetupFunctionable E X cfg m u = Some (b, u')" for m u b u'
    using that by (auto simp: isSetupFunctionable_def External_isSetupFunctionable_def Let_def
        bind_eq_Some_conv split: mutator.splits if_splits option.splits)
  show ?thesis
  proof (cases ok)
    case False
    then show ?thesis
      using assms a r1 refused
      by (auto simp: tryGetConfigFromLM_def Let_def bind_eq_Some_conv split: option.splits if_splits)
  next
    case True
    let ?u = "\<lambda>m mut. let st = st1\<lparr>m_mutator := Some mut\<rparr> in if mut = ExternalMutator
      then st\<lparr>m_extTestcaseDir := opt_or '''' (received_settings m ''extGeneratorDirectory''),
              m_mutatorNeedsParents := False\<rparr> else st"
    from True assms a obtain m where m: "r = Some m" by (cases r) (simp_all add: tryGetConfigFromLM_def)
    with True assms a obtain cs where cs: "received_settings m ''chosenSubtype'' = Some cs"
        "cs \<in> set (m_myAgentSubTypes cfg)"
      by (auto simp: tryGetConfigFromLM_def Let_def split: option.splits if_splits)
    with m assms a obtain mut where mut: "mutator_of_name cs = Some mut"
      by (cases "mutator_of_name cs") (simp_all add: tryGetConfigFromLM_def Let_def)
    have s: "isSetupFunctionable E X cfg mut (?u m mut) = Some (True, st')"
      using assms a m cs mut True
      by (cases "isSetupFunctionable E X cfg mut (?u m mut)")
        (auto simp: tryGetConfigFromLM_def Let_def split: if_splits)
    note u = fn [OF s]
    show ?thesis
      by (rule configured [OF True, of mut])
        (use tg_rest_fields [OF u] tg_rest_fields [OF r1] in \<open>auto simp: Let_def\<close>)
  qed
qed

lemma queue_parent_result:
  assumes "queue_parent E cfg p st = (r, st')"
  shows "\<exists>ts. tg_queue st' = pushNewGeneratedTestcases ts (tg_queue st) \<and>
      (\<forall>t \<in> set ts. m_numOfProcessingAttempts t = 0)"
    and "tg_rest (st'\<lparr>tg_queue := tg_queue st\<rparr>) = tg_rest st"
  subgoal
    using assms
    by (intro exI [of _ "drop (length (m_pendingTestcaseQueue (tg_queue st))) (m_pendingTestcaseQueue (tg_queue st'))"])
      (auto simp: queue_parent_def Let_def pushNewGeneratedTestcase_def pushNewGeneratedTestcases_def
        mkTestcaseDescriptor_def split: if_splits)
  using assms by (auto simp: queue_parent_def Let_def tg_rest_def split: if_splits)

text \<open>What a pass of the filler may do: append testcases that were never sent, and adapt the bulk size.\<close>

definition appends :: "tg_config \<Rightarrow> tg \<Rightarrow> tg \<Rightarrow> bool" where
  "appends cfg st st' \<longleftrightarrow>
     (\<exists>ts. tg_queue st' = pushNewGeneratedTestcases ts (tg_queue st) \<and>
        (\<forall>t \<in> set ts. m_numOfProcessingAttempts t = 0)) \<and>
     m_intervallToWaitForReinsertionInMillisec st' = m_intervallToWaitForReinsertionInMillisec st \<and>
     m_gotConfigFromLM st' = m_gotConfigFromLM st \<and> m_mutator st' = m_mutator st \<and>
     m_mutatorNeedsParents st' = m_mutatorNeedsParents st \<and>
     (m_bulkGenerationSize st' = m_bulkGenerationSize st \<or>
      m_bulkGenerationSize st < m_maxBulkGenerationSize cfg \<and> m_bulkGenerationSize st' = m_bulkGenerationSize st + 1 \<or>
      m_bulkGenerationSize st > 1 \<and> m_bulkGenerationSize st' = m_bulkGenerationSize st - 1)"

lemma appends_rest: "tg_rest st' = tg_rest st \<Longrightarrow> appends cfg st st'"
  unfolding appends_def
  by (auto simp: tg_rest_def pushNewGeneratedTestcases_def intro: exI [of _ "[]"])

lemma appends_then:
  assumes "tg_queue st1 = pushNewGeneratedTestcases ts (tg_queue st)"
    and "\<forall>t \<in> set ts. m_numOfProcessingAttempts t = 0"
    and "tg_rest (st1\<lparr>tg_queue := tg_queue st\<rparr>) = tg_rest st" and "appends cfg st1 st2"
  shows "appends cfg st st2"
proof -
  from assms(4) obtain us where us: "tg_queue st2 = pushNewGeneratedTestcases us (tg_queue st1)"
    "\<forall>t \<in> set us. m_numOfProcessingAttempts t = 0" by (auto simp: appends_def)
  have "tg_queue st2 = pushNewGeneratedTestcases (ts @ us) (tg_queue st)"
    using us(1) assms(1) by (simp add: pushNewGeneratedTestcases_def)
  moreover have "\<forall>t \<in> set (ts @ us). m_numOfProcessingAttempts t = 0" using us(2) assms(2) by auto
  ultimately have "\<exists>ts. tg_queue st2 = pushNewGeneratedTestcases ts (tg_queue st) \<and>
      (\<forall>t \<in> set ts. m_numOfProcessingAttempts t = 0)" by blast
  then show ?thesis
    using assms(3,4) unfolding appends_def by (simp add: tg_rest_def)
qed

lemma appends_rest_then:
  "tg_rest st1 = tg_rest st \<Longrightarrow> appends cfg st1 st2 \<Longrightarrow> appends cfg st st2"
  by (rule appends_then [where ts = "[]"]) (auto simp: pushNewGeneratedTestcases_def tg_rest_def)

lemma appends_then_rest:
  "appends cfg st st1 \<Longrightarrow> tg_rest st2 = tg_rest st1 \<Longrightarrow> appends cfg st st2"
  unfolding appends_def using tg_rest_fields [of st2 st1] by simp

lemma getNewParent_appends:
  assumes "getNewParent E cfg st = Some (r, st')"
  shows "appends cfg st st'"
proof -
  from assms obtain resp st1 where a: "ask_lm E GetTestcaseToMutateRequest timeoutNormalMessage st = Some (resp, st1)"
    by (auto simp: getNewParent_def bind_eq_Some_conv)
  note r1 = ask_lm_result(2) [OF a]
  show ?thesis
  proof (cases resp)
    case None
    then show ?thesis using assms a r1 by (simp add: getNewParent_def appends_rest)
  next
    case (Some m)
    with assms a obtain b where "tg_rest st' = tg_rest (st1\<lparr>tg_agent := b\<rparr>) \<or>
        (\<exists>p. queue_parent E cfg p (st1\<lparr>tg_agent := b\<rparr>) = (r, st'))"
      by (auto simp: getNewParent_def Let_def bind_eq_Some_conv split: if_splits)
    then show ?thesis
    proof
      assume "\<exists>p. queue_parent E cfg p (st1\<lparr>tg_agent := b\<rparr>) = (r, st')"
      then obtain p where q: "queue_parent E cfg p (st1\<lparr>tg_agent := b\<rparr>) = (r, st')" by auto
      from queue_parent_result(1) [OF q] obtain ts
        where ts: "tg_queue st' = pushNewGeneratedTestcases ts (tg_queue (st1\<lparr>tg_agent := b\<rparr>))"
          "\<forall>t \<in> set ts. m_numOfProcessingAttempts t = 0" by auto
      have "appends cfg (st1\<lparr>tg_agent := b\<rparr>) st'"
        by (rule appends_then [OF ts queue_parent_result(2) [OF q] appends_rest [OF refl]])
      then show ?thesis by (rule appends_rest_then [rotated]) (simp add: r1)
    qed (use r1 in \<open>simp add: appends_rest\<close>)
  qed
qed

lemma collect_children_unsent:
  "t \<in> set (fst (collect_children E cfg f p i k st)) \<Longrightarrow> m_numOfProcessingAttempts t = 0"
  by (induction k arbitrary: i st)
    (auto simp: Let_def split_beta genNewLocalFluffiTestcaseID_def mkTestcaseDescriptor_def split: if_splits)

lemma fresh_children_unsent: "fresh_children cfg p n k ts \<Longrightarrow> t \<in> set ts \<Longrightarrow> m_numOfProcessingAttempts t = 0"
  by (auto simp: fresh_children_def fresh_child_def mkTestcaseDescriptor_def list_all2_conv_all_nth in_set_conv_nth)

lemma external_walk_unsent:
  "external_walk E cfg k d g fs ts a = (us, a') \<Longrightarrow> \<forall>t \<in> set ts. m_numOfProcessingAttempts t = 0 \<Longrightarrow>
     \<forall>t \<in> set us. m_numOfProcessingAttempts t = 0"
proof (induction fs arbitrary: ts a)
  case (Cons f fs)
  show ?case
  proof (cases "external_child cfg g f")
    case None
    then show ?thesis using Cons.prems by simp
  next
    case (Some ip)
    obtain i p where ip: "ip = (i, p)" by fastforce
    let ?n = "generateTestcasePathAndFilename i (tg_testcaseDir cfg)"
    let ?c = "ts @ [mkTestcaseDescriptor i p ?n False]"
    obtain ok b where n: "attemptRenameFile E (d @ pathSeperator @ g @ pathSeperator @ f) ?n a = (ok, b)" by fastforce
    have c: "\<forall>t \<in> set ?c. m_numOfProcessingAttempts t = 0"
      using Cons.prems(2) by (simp add: mkTestcaseDescriptor_def)
    consider "us = ts" | "us = ?c" | "external_walk E cfg k d g fs ?c b = (us, a')"
      using Cons.prems(1) by (simp add: Some ip n Let_def split: if_splits)
    then show ?thesis
    proof cases
      case 3
      then show ?thesis using c by (rule Cons.IH)
    qed (use Cons.prems(2) c in \<open>simp_all only:\<close>)
  qed
qed simp

lemma external_dirs_unsent:
  "external_dirs E cfg k d ds ts a = (us, a') \<Longrightarrow> \<forall>t \<in> set ts. m_numOfProcessingAttempts t = 0 \<Longrightarrow>
     \<forall>t \<in> set us. m_numOfProcessingAttempts t = 0"
proof (induction ds arbitrary: ts a)
  case (Cons d' ds)
  obtain g fs where d': "d' = (g, fs)" by fastforce
  obtain vs b where w: "external_walk E cfg k d g fs ts a = (vs, b)" by fastforce
  note vs = external_walk_unsent [OF w Cons.prems(2)]
  show ?case
    using Cons.prems(1) Cons.IH [OF _ vs, of b] vs by (auto simp: d' w split: if_splits)
qed simp

text \<open>The children of the internal mutators are numbered from the counter on.\<close>

lemma run_and_collect_fresh:
  "run_and_collect E X cfg c f e k p st = (Inr ts, st') \<Longrightarrow> fresh_children cfg p (s_numMutations st) k ts"
  by (auto simp: run_and_collect_def Let_def split: if_splits prod.splits dest!: collect_children_fresh)

lemma batchMutate_fresh:
  assumes "batchMutate E X cfg m k p f st = Some (Inr ts, st')" and "m \<noteq> ExternalMutator"
  shows "fresh_children cfg p (s_numMutations st) k ts"
proof (cases m)
  case RadamsaMutator
  then show ?thesis using assms
    by (auto simp: batchMutate_def Radamsa_batchMutate_def split: if_splits intro: run_and_collect_fresh)
next
  case CaRRoTMutator
  then show ?thesis using assms
    by (auto simp: batchMutate_def CaRRoT_batchMutate_def split: if_splits intro: run_and_collect_fresh)
next
  case AFLMutator
  then obtain bs a where "afl_loop E X cfg p bs k (st\<lparr>tg_agent := a\<rparr>) = (ts, st')"
    using assms by (auto simp: batchMutate_def AFL_batchMutate_def Let_def split: if_splits prod.splits)
  from afl_loop_fresh [OF this] show ?thesis by simp
next
  case HonggfuzzMutator
  then obtain bs run where "honggfuzz_loop E X cfg p bs k run st = (ts, st')"
    using assms by (auto simp: batchMutate_def Honggfuzz_batchMutate_def Let_def split: if_splits prod.splits)
  from honggfuzz_loop_fresh [OF this] show ?thesis by simp
next
  case ExternalMutator
  then show ?thesis using assms(2) by simp
next
  case OedipusMutator
  then show ?thesis using assms(1)
    by (auto simp: batchMutate_def Oedipus_batchMutate_def Let_def bind_eq_Some_conv
        dest!: run_and_collect_fresh split: if_splits option.splits)
qed

lemma batchMutate_unsent:
  assumes "batchMutate E X cfg m k p f st = Some (Inr ts, st')"
  shows "\<forall>t \<in> set ts. m_numOfProcessingAttempts t = 0"
proof (cases "m = ExternalMutator")
  case True
  then have "ts = [] \<or> (\<exists>d ds a b. external_dirs E cfg k d ds [] a = (ts, b))"
    using assms by (auto simp: batchMutate_def External_batchMutate_def Let_def split: if_splits prod.splits)
  then show ?thesis
  proof (elim disjE exE)
    fix d ds a b assume "external_dirs E cfg k d ds [] a = (ts, b)"
    then show ?thesis by (rule external_dirs_unsent) simp
  qed simp
qed (use fresh_children_unsent [OF batchMutate_fresh [OF assms]] in auto)


lemma after_batch_appends:
  assumes "after_batch E cfg p r st = Some st'"
    and "\<And>ts. r = Inr ts \<Longrightarrow> \<forall>t \<in> set ts. m_numOfProcessingAttempts t = 0"
  shows "appends cfg st st'"
proof (cases r)
  case (Inl e)
  have "appends cfg st (st\<lparr>m_bulkGenerationSize := m_bulkGenerationSize st - 1\<rparr>)" if "m_bulkGenerationSize st > 1"
    using that by (auto simp: appends_def pushNewGeneratedTestcases_def intro: exI [of _ "[]"])
  with Inl assms(1) show ?thesis by (auto simp: after_batch_def appends_rest split: if_splits)
next
  case (Inr ts)
  show ?thesis
  proof (cases "ts = []")
    case True
    with Inr assms(1) show ?thesis by (simp add: after_batch_def appends_rest)
  next
    case False
    let ?st1 = "st\<lparr>tg_queue := pushNewGeneratedTestcases ts (tg_queue st)\<rparr>"
    from False Inr assms(1) obtain st2 where s2: "reportNewMutations E p (int (length ts)) ?st1 = Some st2"
      and st': "st' = (if m_bulkGenerationSize st2 < m_maxBulkGenerationSize cfg
        then st2\<lparr>m_bulkGenerationSize := m_bulkGenerationSize st2 + 1\<rparr> else st2)"
      by (auto simp: after_batch_def bind_eq_Some_conv)
    from s2 obtain resp where "ask_lm E (ReportNewMutationsRequest (Some (tid_getProtobuf p)) (int (length ts)))
        timeoutNormalMessage ?st1 = Some (resp, st2)" by (auto simp: reportNewMutations_def)
    note r2 = ask_lm_result(2) [OF this]
    have "appends cfg ?st1 st'"
      unfolding st' using tg_rest_fields [OF r2]
      by (auto simp: appends_rest [OF r2] appends_def pushNewGeneratedTestcases_def intro: exI [of _ "[]"])
    then show ?thesis
      by (rule appends_then [rotated 3]) (use assms(2) [OF Inr] in \<open>simp_all add: tg_rest_def\<close>)
  qed
qed

lemma delete_parent_rest [simp]: "tg_rest (delete_parent E f st) = tg_rest st"
  by (simp add: delete_parent_def split_beta Let_def)

lemma appends_trans_rest:
  "appends cfg st st1 \<Longrightarrow> m_bulkGenerationSize st1 = m_bulkGenerationSize st \<Longrightarrow> appends cfg st1 st2 \<Longrightarrow>
     appends cfg st st2"
  unfolding appends_def
  by (elim conjE exE, intro conjI) (rule_tac x = "ts @ tsa" in exI, auto simp: pushNewGeneratedTestcases_def)

lemma getNewParent_bulk:
  "getNewParent E cfg st = Some (r, st') \<Longrightarrow> m_bulkGenerationSize st' = m_bulkGenerationSize st"
  by (auto simp: getNewParent_def queue_parent_def Let_def bind_eq_Some_conv
      dest!: ask_lm_result(2) tg_rest_fields(6) split: option.splits if_splits)

lemma fill_queue_appends:
  assumes "fill_queue E X cfg st = Some st'" shows "appends cfg st st'"
proof (cases "length (m_pendingTestcaseQueue (tg_queue st)) > m_desiredQueueFillLevel cfg")
  case True
  then show ?thesis using assms by (simp add: fill_queue_def appends_rest)
next
  case False
  with assms obtain parent st1 where p: "(if m_mutatorNeedsParents st then getNewParent E cfg st
      else Some (Inr no_parent, st)) = Some (parent, st1)"
    by (auto simp: fill_queue_def bind_eq_Some_conv)
  have a1: "appends cfg st st1" and b1: "m_bulkGenerationSize st1 = m_bulkGenerationSize st"
    using p getNewParent_appends getNewParent_bulk by (auto simp: appends_rest split: if_splits)
  show ?thesis
  proof (cases parent)
    case (Inl e)
    with False assms p a1 show ?thesis by (simp add: fill_queue_def)
  next
    case (Inr parentID)
    with False assms p obtain mut f r st2 st3 where
      m: "batchMutate E X cfg mut (nat (m_bulkGenerationSize st1)) parentID f st1 = Some (r, st2)"
      and b: "after_batch E cfg parentID r st2 = Some st3" and st': "st' = delete_parent E f st3"
      by (auto simp: fill_queue_def Let_def bind_eq_Some_conv)
    have "appends cfg st2 st3"
      using after_batch_appends [OF b] batchMutate_unsent m by blast
    then have "appends cfg st1 st'"
      unfolding st' by (intro appends_rest_then [OF batchMutate_rest [OF m]]) (rule appends_then_rest, simp_all)
    with a1 b1 show ?thesis by (rule appends_trans_rest)
  qed
qed

lemma filler_pass_result:
  assumes "filler_pass E X cfg st = Some st'"
  obtains (waiting) "\<not> m_gotConfigFromLM st" "tg_rest st' = tg_rest st"
  | (configured) mut st1 where "m_mutator st1 = Some mut"
      "m_mutatorNeedsParents st1 = (if mut = ExternalMutator then False else m_mutatorNeedsParents st)"
      "tg_queue st1 = tg_queue st" "m_bulkGenerationSize st1 = m_bulkGenerationSize st"
      "m_intervallToWaitForReinsertionInMillisec st1 = m_intervallToWaitForReinsertionInMillisec st"
      "appends cfg st1 st'" "\<not> m_gotConfigFromLM st"
      "m_gotConfigFromLM st1"
  | (filled) "m_gotConfigFromLM st" "appends cfg st st'"
proof (cases "m_gotConfigFromLM st")
  case True
  then have e: "st\<lparr>m_gotConfigFromLM := True\<rparr> = st" by simp
  show ?thesis
    using assms True filled by (simp add: e filler_pass_def fill_queue_appends)
next
  case False
  with assms obtain got st1 where t: "tryGetConfigFromLM E X cfg st = Some (got, st1)"
    by (auto simp: filler_pass_def bind_eq_Some_conv)
  from t show ?thesis
  proof (cases rule: tryGetConfigFromLM_result)
    case refused
    then have "tg_rest st' = tg_rest st" using assms False t by (auto simp: filler_pass_def tg_rest_def)
    with False show ?thesis by (rule waiting)
  next
    case (configured mut)
    have "appends cfg (st1\<lparr>m_gotConfigFromLM := True\<rparr>) st'"
      using assms False t configured(1) by (simp add: filler_pass_def fill_queue_appends)
    then show ?thesis
      by (rule that(2) [rotated 5, where mut = mut]) (use configured False in simp_all)
  qed
qed

section \<open>The invariant\<close>

text \<open>
  The bulk size stays within its bounds, a configured generator has a mutator (so that dereferencing it
  is safe) and only the external one works without parents, a testcase waits for its evaluation only
  after it was sent, and the interval of reinsertion is undetermined or at least five minutes.
\<close>

definition tg_inv :: "tg_config \<Rightarrow> tg \<Rightarrow> bool" where
  "tg_inv cfg st \<longleftrightarrow>
     1 \<le> m_bulkGenerationSize st \<and> m_bulkGenerationSize st \<le> m_maxBulkGenerationSize cfg \<and>
     (m_gotConfigFromLM st \<longrightarrow> m_mutator st \<noteq> None) \<and>
     (m_mutatorNeedsParents st \<longleftrightarrow> m_mutator st \<noteq> Some ExternalMutator) \<and>
     (\<not> m_gotConfigFromLM st \<longrightarrow> m_mutator st = None) \<and>
     (\<forall>t \<in> set (m_sentButNotEvaluatedTestcaseSet (tg_queue st)). 1 \<le> m_numOfProcessingAttempts t) \<and>
     (\<forall>t \<in> set (m_pendingTestcaseQueue (tg_queue st)). 0 \<le> m_numOfProcessingAttempts t) \<and>
     (m_intervallToWaitForReinsertionInMillisec st = 0 \<or>
      300000 \<le> m_intervallToWaitForReinsertionInMillisec st)"

lemma appends_inv:
  assumes "appends cfg st st'" and "tg_inv cfg st" shows "tg_inv cfg st'"
proof -
  from assms(1) obtain ts where q: "tg_queue st' = pushNewGeneratedTestcases ts (tg_queue st)"
    "\<forall>t \<in> set ts. m_numOfProcessingAttempts t = 0" by (auto simp: appends_def)
  have b: "1 \<le> m_bulkGenerationSize st' \<and> m_bulkGenerationSize st' \<le> m_maxBulkGenerationSize cfg"
    using assms unfolding appends_def tg_inv_def by linarith
  have f: "m_intervallToWaitForReinsertionInMillisec st' = m_intervallToWaitForReinsertionInMillisec st"
    "m_gotConfigFromLM st' = m_gotConfigFromLM st" "m_mutator st' = m_mutator st"
    "m_mutatorNeedsParents st' = m_mutatorNeedsParents st"
    using assms(1) by (simp_all add: appends_def)
  have "\<forall>t \<in> set (m_pendingTestcaseQueue (tg_queue st')). 0 \<le> m_numOfProcessingAttempts t"
    "\<forall>t \<in> set (m_sentButNotEvaluatedTestcaseSet (tg_queue st')). 1 \<le> m_numOfProcessingAttempts t"
    using q assms(2) by (auto simp: tg_inv_def pushNewGeneratedTestcases_def)
  with b f assms(2) show ?thesis by (simp add: tg_inv_def)
qed

lemma tg_inv_attempts:
  assumes "tg_inv cfg st"
  shows "t \<in> set (m_sentButNotEvaluatedTestcaseSet (tg_queue st)) \<Longrightarrow> 1 \<le> m_numOfProcessingAttempts t"
    and "t \<in> set (m_pendingTestcaseQueue (tg_queue st)) \<union> set (m_sentButNotEvaluatedTestcaseSet (tg_queue st)) \<Longrightarrow>
      0 \<le> m_numOfProcessingAttempts t"
proof -
  show "t \<in> set (m_sentButNotEvaluatedTestcaseSet (tg_queue st)) \<Longrightarrow> 1 \<le> m_numOfProcessingAttempts t"
    using assms by (simp add: tg_inv_def)
  then show "t \<in> set (m_pendingTestcaseQueue (tg_queue st)) \<union> set (m_sentButNotEvaluatedTestcaseSet (tg_queue st)) \<Longrightarrow>
      0 \<le> m_numOfProcessingAttempts t"
    using assms by (auto simp: tg_inv_def)
qed

lemma rest_inv: "tg_rest st' = tg_rest st \<Longrightarrow> tg_inv cfg st \<Longrightarrow> tg_inv cfg st'"
  by (rule appends_inv [OF appends_rest])


lemma filler_pass_inv:
  assumes "filler_pass E X cfg st = Some st'" and i: "tg_inv cfg st" shows "tg_inv cfg st'"
  using assms(1)
proof (cases rule: filler_pass_result)
  case waiting
  then show ?thesis using rest_inv i by blast
next
  case (configured mut st1)
  have "tg_inv cfg st1" using i configured unfolding tg_inv_def by (auto split: if_splits)
  then show ?thesis by (rule appends_inv [OF configured(6)])
next
  case filled
  then show ?thesis using appends_inv i by blast
qed

lemma queue_inv:
  assumes "tg_inv cfg st" and "tg_rest (st'\<lparr>tg_queue := tg_queue st\<rparr>) = tg_rest st"
    and "\<And>t. t \<in> set (m_sentButNotEvaluatedTestcaseSet (tg_queue st')) \<Longrightarrow> 1 \<le> m_numOfProcessingAttempts t"
    and "\<And>t. t \<in> set (m_pendingTestcaseQueue (tg_queue st')) \<Longrightarrow> 0 \<le> m_numOfProcessingAttempts t"
  shows "tg_inv cfg st'"
  using assms unfolding tg_inv_def by (simp add: tg_rest_def)

lemma GetTestcaseRequestHandler_inv:
  assumes "GetTestcaseRequestHandler E cfg st req = (resp, st')" and i: "tg_inv cfg st"
  shows "tg_inv cfg st'"
proof (cases "popPendingTCForProcessing (env_clock E (tick (tg_agent st))) (tg_queue st)")
  case None
  then show ?thesis using assms by (simp add: GetTestcaseRequestHandler_def)
next
  case (Some tq)
  obtain t q where tq: "tq = (t, q)" by fastforce
  have st': "st' = st\<lparr>tg_queue := q, tg_agent := next_tick (tg_agent st)\<rparr>"
    using assms(1) Some tq by (simp add: GetTestcaseRequestHandler_def Let_def split_beta)
  show ?thesis
  proof (rule queue_inv [OF i])
    fix u assume "u \<in> set (m_sentButNotEvaluatedTestcaseSet (tg_queue st'))"
    then show "1 \<le> m_numOfProcessingAttempts u"
      using Some i unfolding st' tq tg_inv_def
      by (auto simp: popPendingTCForProcessing_def increaseNumOfProcessingAttempts_def updateTimeOfLastSend_def
          Let_def split: list.splits)
  next
    fix u assume "u \<in> set (m_pendingTestcaseQueue (tg_queue st'))"
    then show "0 \<le> m_numOfProcessingAttempts u"
      using Some i unfolding st' tq tg_inv_def
      by (auto simp: popPendingTCForProcessing_def Let_def split: list.splits)
  qed (simp add: st' tg_rest_def)
qed

lemma reinsertBefore_inv: "tg_inv cfg st \<Longrightarrow> tg_inv cfg (reinsertBefore E st)"
  by (rule queue_inv [OF _ reinsertBefore_result(4)])
    (use reinsertBefore_result(2,3) [of E st] in \<open>blast dest: tg_inv_attempts\<close>)+

lemma tg_step_inv:
  assumes "tg_inv cfg st" and "tg_step E X cfg st st'" shows "tg_inv cfg st'"
  using assms(2)
proof (cases rule: tg_step.cases)
  case (get_testcase resp)
  then show ?thesis using GetTestcaseRequestHandler_inv assms(1) by blast
next
  case fill
  then show ?thesis using filler_pass_inv assms(1) by blast
next
  case remove_completed
  then show ?thesis
  proof (cases rule: removeCompletedTestcases_result)
    case no_answer
    then show ?thesis using rest_inv assms(1) by blast
  next
    case (removed n m)
    then show ?thesis
      using assms(1) unfolding tg_inv_def by (simp add: tg_rest_def remove_keys_of_def)
  qed
next
  case report_no_response
  then show ?thesis
  proof (cases rule: report_result)
    case (1 kept gone)
    have "set kept \<subseteq> set (m_sentButNotEvaluatedTestcaseSet (tg_queue st))"
      using 1(4) by (metis (no_types, lifting) filter_is_subset mset_subset_eq_add_left set_mset_mono
          set_mset_mset subset_trans)
    then show ?thesis
      using 1(2,3) tg_inv_attempts [OF assms(1)] by (intro queue_inv [OF assms(1) 1(6)]) auto
  qed
next
  case reinsert
  then show ?thesis
  proof (cases rule: reinsert_result)
    case (asked st1)
    have "tg_inv cfg st1" using assms(1) asked(2,3) unfolding tg_inv_def by (simp add: tg_rest_def)
    then show ?thesis using asked(4) reinsertBefore_inv by blast
  next
    case known
    then show ?thesis using reinsertBefore_inv assms(1) by blast
  qed
next
  case collect
  then show ?thesis using assms(1) by (simp add: tg_inv_def)
qed


lemma tg_start_inv: "1 \<le> m_maxBulkGenerationSize cfg \<Longrightarrow> tg_start cfg st \<Longrightarrow> tg_inv cfg st"
  by (auto simp: tg_inv_def elim!: tg_start.cases)

text \<open>The contract of the prelude holds for a generator whose bulk size can be at least 1.\<close>

interpretation tg_system: invariant_system "\<lambda>st. 1 \<le> m_maxBulkGenerationSize cfg \<and> tg_start cfg st"
    "tg_step E X cfg" "tg_inv cfg" for E X cfg
  by unfold_locales (auto intro: tg_start_inv tg_step_inv)

section \<open>Conservation\<close>

text \<open>A step takes a testcase from the queue only when the local manager settled it.\<close>

lemma tg_step_conserves:
  assumes "tg_step E X cfg st st'"
    and "count (queue_keys (tg_queue st')) k < count (queue_keys (tg_queue st)) k"
  shows "settled E (lm_hap st) k"
  using assms(1)
proof (cases rule: tg_step.cases)
  case (get_testcase resp)
  have "queue_keys (tg_queue st') = queue_keys (tg_queue st)"
  proof (cases "popPendingTCForProcessing (env_clock E (tick (tg_agent st))) (tg_queue st)")
    case None
    then show ?thesis using get_testcase by (simp add: GetTestcaseRequestHandler_def)
  next
    case (Some tq)
    then have "tg_queue st' = snd tq"
      using get_testcase by (auto simp: GetTestcaseRequestHandler_def Let_def split_beta)
    then show ?thesis using tgq.pop_keys [of _ _ "fst tq" "snd tq"] Some by simp
  qed
  then show ?thesis using assms(2) by simp
next
  case fill
  have "\<exists>ts. tg_queue st' = pushNewGeneratedTestcases ts (tg_queue st)"
    using fill
  proof (cases rule: filler_pass_result)
    case waiting
    then show ?thesis using appends_rest [of st' st] by (auto simp: appends_def)
  next
    case (configured mut st1)
    then show ?thesis by (auto simp: appends_def)
  next
    case filled
    then show ?thesis by (auto simp: appends_def)
  qed
  then show ?thesis using assms(2) by (auto simp: tgq.push_keys)
next
  case remove_completed
  then show ?thesis
  proof (cases rule: removeCompletedTestcases_result)
    case no_answer
    then show ?thesis using assms(2) by (simp add: tg_rest_def)
  next
    case (removed n m)
    let ?K = "tid_key ` tid_of_proto ` set (snd (getnewcompletedtestcaseidsresponse m))"
    have "k \<in> ?K" using assms(2) tgq.remove_only [of k ?K "tg_queue st"] removed(2) by auto
    then show ?thesis using removed(1) unfolding settled_def by blast
  qed
next
  case report_no_response
  then show ?thesis
  proof (cases rule: report_result)
    case (1 kept gone)
    have "0 < count (image_mset td_key (mset gone)) k"
      using assms(2) unfolding 1(1) count_union by linarith
    then have "k \<in> td_key ` set gone" by simp
    then show ?thesis using 1(5) taken_settled by auto
  qed
next
  case reinsert
  then have "queue_keys (tg_queue st') = queue_keys (tg_queue st)"
  proof (cases rule: reinsert_result)
    case (asked st1)
    have "tg_queue st1 = tg_queue st" using asked(2) by (simp add: tg_rest_def)
    then show ?thesis using asked(4) reinsertBefore_result(1) by auto
  qed (simp add: reinsertBefore_result)
  then show ?thesis using assms(2) by simp
next
  case collect
  then show ?thesis using assms(2) by simp
qed

lemma tg_run_conserves:
  assumes "(tg_step E X cfg)\<^sup>*\<^sup>* st st'" and "k \<in># queue_keys (tg_queue st)"
    and "k \<notin># queue_keys (tg_queue st')"
  shows "\<exists>st1 st2. (tg_step E X cfg)\<^sup>*\<^sup>* st st1 \<and> tg_step E X cfg st1 st2 \<and> (tg_step E X cfg)\<^sup>*\<^sup>* st2 st' \<and>
    settled E (lm_hap st1) k"
  using assms
proof (induction rule: converse_rtranclp_induct)
  case (step st st1)
  show ?case
  proof (cases "k \<in># queue_keys (tg_queue st1)")
    case True
    then show ?thesis using step by (meson converse_rtranclp_into_rtranclp)
  next
    case False
    have "settled E (lm_hap st) k"
      using False step.prems(1) by (intro tg_step_conserves [OF step.hyps(1)]) (simp add: not_in_iff)
    then show ?thesis using step.hyps by blast
  qed
qed simp

section \<open>Handing out\<close>

text \<open>The answers to \<open>n\<close> requests in a row.\<close>

fun handouts :: "env \<Rightarrow> tg_config \<Rightarrow> nat \<Rightarrow> tg \<Rightarrow> FLUFFIMessage list \<times> tg" where
  "handouts E cfg 0 st = ([], st)"
| "handouts E cfg (Suc n) st =
     (let (resp, st) = GetTestcaseRequestHandler E cfg st GetTestcaseRequest;
          (resps, st) = handouts E cfg n st
      in (resp # resps, st))"

lemma GetTestcaseRequestHandler_pending:
  assumes "m_pendingTestcaseQueue (tg_queue st) = t # rest"
    and "GetTestcaseRequestHandler E cfg st req = (m, st')"
  shows "m = GetTestcaseResponse (gettestcaseresponse m)"
    and "gtr_success (gettestcaseresponse m)"
    and "gtr_id (gettestcaseresponse m) = Some (tid_getProtobuf (td_id t))"
    and "gtr_testCaseFirstChunk (gettestcaseresponse m) =
      fst (loadTestcaseChunkInMemory E (td_id t) (tg_testcaseDir cfg) 0 (tg_agent st))"
    and "gtr_isLastChunk (gettestcaseresponse m) = the_flag E (tg_agent st)
      (snd (loadTestcaseChunkInMemory E (td_id t) (tg_testcaseDir cfg) 0 (tg_agent st)))"
    and "m_pendingTestcaseQueue (tg_queue st') = rest" and "files (tg_agent st') = files (tg_agent st)"
  using assms
  by (auto simp: GetTestcaseRequestHandler_def popPendingTCForProcessing_def Let_def split_beta
      updateTimeOfLastSend_def increaseNumOfProcessingAttempts_def gettestcaseresponse_def)

lemma GetTestcaseRequestHandler_empty:
  "m_pendingTestcaseQueue (tg_queue st) = [] \<Longrightarrow>
     GetTestcaseRequestHandler E cfg st req = (GetTestcaseResponse no_testcase, st)"
  by (simp add: GetTestcaseRequestHandler_def popPendingTCForProcessing_def)

lemma handouts_in_order:
  "map (\<lambda>m. (gtr_success (gettestcaseresponse m), gtr_id (gettestcaseresponse m))) (fst (handouts E cfg n st)) =
     map (\<lambda>t. (True, Some (tid_getProtobuf (td_id t)))) (take n (m_pendingTestcaseQueue (tg_queue st))) @
     replicate (n - length (m_pendingTestcaseQueue (tg_queue st))) (False, None)"
proof (induction n arbitrary: st)
  case (Suc n)
  show ?case
  proof (cases "m_pendingTestcaseQueue (tg_queue st)")
    case Nil
    with Suc.IH [of st] show ?thesis
      by (simp add: GetTestcaseRequestHandler_empty split_beta gettestcaseresponse_def no_testcase_def)
  next
    case (Cons t rest)
    obtain m st' where h: "GetTestcaseRequestHandler E cfg st GetTestcaseRequest = (m, st')" by fastforce
    note hp = GetTestcaseRequestHandler_pending [OF Cons h]
    show ?thesis using Suc.IH [of st'] h hp(2,3,6) Cons by (simp add: split_beta)
  qed
qed simp

section \<open>The interval of reinsertion\<close>

lemma tg_step_interval:
  assumes "tg_step E X cfg st st'" and nz: "m_intervallToWaitForReinsertionInMillisec st \<noteq> 0"
  shows "m_intervallToWaitForReinsertionInMillisec st' = m_intervallToWaitForReinsertionInMillisec st"
  using assms(1)
proof (cases rule: tg_step.cases)
  case (get_testcase resp)
  then show ?thesis
    by (auto simp: GetTestcaseRequestHandler_def Let_def split_beta split: option.splits)
next
  case fill
  then show ?thesis
    by (cases rule: filler_pass_result) (simp_all add: tg_rest_def appends_def)
next
  case remove_completed
  then show ?thesis
    by (cases rule: removeCompletedTestcases_result) (simp_all add: tg_rest_def)
next
  case report_no_response
  then show ?thesis by (cases rule: report_result) (simp add: tg_rest_def)
next
  case reinsert
  then show ?thesis
    using nz by (cases rule: reinsert_result) (simp_all add: reinsertBefore_def Let_def)
next
  case collect
  then show ?thesis by simp
qed

lemma tg_run_interval:
  assumes "(tg_step E X cfg)\<^sup>*\<^sup>* st st'" and "m_intervallToWaitForReinsertionInMillisec st \<noteq> 0"
  shows "m_intervallToWaitForReinsertionInMillisec st' = m_intervallToWaitForReinsertionInMillisec st"
  using assms by (induction rule: rtranclp_induct) (simp_all add: tg_step_interval)

section \<open>The cleaner returns\<close>

lemma ask_lm_returns:
  assumes "\<forall>k hap req. env_net E k hap req \<notin> {SendError, RecvError}" and "sockets_idle (tg_agent st)"
  obtains r st' where "ask_lm E req tmo st = Some (r, st')" and "sockets_idle (tg_agent st')"
proof -
  from sendReqAndRecvResp_returns [OF assms(2), of E "lm_hap st" req tmo] assms(1) obtain r a
    where "sendReqAndRecvResp E req (lm_hap st) tmo (tg_agent st) = Some (r, a)" by blast
  then have "ask_lm E req tmo st = Some (r, st\<lparr>tg_agent := a\<rparr>)" by (simp add: ask_lm_def)
  then show ?thesis using that ask_lm_result(6) assms(2) by blast
qed

lemma remove_evaluated_idle:
  "sockets_idle (snd (remove_evaluated evaluated ts a)) = sockets_idle a"
  by (induction ts arbitrary: a) (simp_all add: split_beta Let_def)

lemma remove_returns:
  assumes "\<forall>k hap req. env_net E k hap req \<notin> {SendError, RecvError}" and "sockets_idle (tg_agent st)"
  shows "\<exists>st'. removeCompletedTestcases E st = Some st' \<and> sockets_idle (tg_agent st')"
proof -
  obtain r st1 where a: "ask_lm E (GetNewCompletedTestcaseIDsRequest
      (m_serverTimestampOfNewestEvaluationResult st)) timeoutNormalMessage st = Some (r, st1)"
    and i: "sockets_idle (tg_agent st1)" by (rule ask_lm_returns [OF assms])
  then show ?thesis
    by (simp add: removeCompletedTestcases_def Let_def split_beta removeEvaluatedTestcases_def
        remove_evaluated_idle split: option.split)
qed

lemma report_loop_returns:
  assumes "\<forall>k hap req. env_net E k hap req \<notin> {SendError, RecvError}"
  shows "sockets_idle (tg_agent st) \<Longrightarrow> \<exists>st'. report_loop E cfg ts st = Some st' \<and> sockets_idle (tg_agent st')"
proof (induction ts arbitrary: st)
  case (Cons t ts)
  obtain r st1 where a: "ask_lm E (report_request E cfg t (tg_agent st)) timeoutFileTransferMessage st = Some (r, st1)"
    and i: "sockets_idle (tg_agent st1)" by (rule ask_lm_returns [OF assms Cons.prems])
  show ?case using Cons.IH i by (simp add: a split: option.split)
qed simp

lemma report_returns:
  assumes "\<forall>k hap req. env_net E k hap req \<notin> {SendError, RecvError}" and "sockets_idle (tg_agent st)"
  shows "\<exists>st'. reportTestcasesWithMultipleNoResponse E cfg st = Some st' \<and> sockets_idle (tg_agent st')"
  using report_loop_returns [OF assms(1), of "st\<lparr>tg_queue := q\<rparr>" for q] assms(2)
  by (simp add: reportTestcasesWithMultipleNoResponse_def Let_def split_beta)

lemma reinsertBefore_idle: "sockets_idle (tg_agent (reinsertBefore E st)) = sockets_idle (tg_agent st)"
  by (simp add: reinsertBefore_def Let_def sockets_idle_def)

lemma reinsert_returns:
  assumes "\<forall>k hap req. env_net E k hap req \<notin> {SendError, RecvError}" and "sockets_idle (tg_agent st)"
    and "\<forall>k hap m v. env_net E k hap (config_request cfg) = Reply m \<longrightarrow>
      received_settings m ''hangTimeout'' = Some v \<longrightarrow> stoi v \<noteq> None"
  shows "\<exists>st'. reinsertTestcasesWithNoResponse E cfg st = Some st' \<and> sockets_idle (tg_agent st')"
proof (cases "m_intervallToWaitForReinsertionInMillisec st = 0")
  case False
  then show ?thesis by (simp add: reinsertTestcasesWithNoResponse_def reinsertBefore_idle assms(2))
next
  case True
  let ?st0 = "st\<lparr>m_intervallToWaitForReinsertionInMillisec := 5 * 60 * 1000\<rparr>"
  have i0: "sockets_idle (tg_agent ?st0)" using assms(2) by simp
  obtain r st1 where a: "ask_lm E (config_request cfg) timeoutNormalMessage ?st0 = Some (r, st1)"
    and i: "sockets_idle (tg_agent st1)" by (rule ask_lm_returns [OF assms(1) i0])
  have "stoi v \<noteq> None" if "r = Some m" "received_settings m ''hangTimeout'' = Some v" for m v
    using assms(3) ask_lm_result(4) [OF a that(1)] that(2) by blast
  then consider "r = None" | m where "r = Some m" "received_settings m ''hangTimeout'' = None"
    | m v h where "r = Some m" "received_settings m ''hangTimeout'' = Some v" "stoi v = Some h" by fastforce
  then show ?thesis
    by cases (use i True a in \<open>simp_all add: reinsertTestcasesWithNoResponse_def reinsertBefore_idle\<close>)
qed

lemma cleaner_pass_returns:
  assumes "\<forall>k hap req. env_net E k hap req \<notin> {SendError, RecvError}"
    and "\<forall>k hap m v. env_net E k hap (config_request cfg) = Reply m \<longrightarrow>
      received_settings m ''hangTimeout'' = Some v \<longrightarrow> stoi v \<noteq> None"
    and "sockets_idle (tg_agent st)"
  shows "\<exists>w st'. cleaner_pass E cfg (waitedMS, st) = Some (w, st') \<and> sockets_idle (tg_agent st')"
proof (cases "waitedMS < m_intervallBetweenTwoCleaningRoundsInMillisec cfg")
  case True
  then show ?thesis using assms(3) by (simp add: cleaner_pass_def Let_def)
next
  case False
  from remove_returns [OF assms(1,3)] obtain st1 where s1: "removeCompletedTestcases E st = Some st1"
    and i1: "sockets_idle (tg_agent st1)" by blast
  from report_returns [OF assms(1) i1] obtain st2 where s2: "reportTestcasesWithMultipleNoResponse E cfg st1 = Some st2"
    and i2: "sockets_idle (tg_agent st2)" by blast
  from reinsert_returns [OF assms(1) i2 assms(2)] obtain st3
    where "reinsertTestcasesWithNoResponse E cfg st2 = Some st3" "sockets_idle (tg_agent st3)" by blast
  then show ?thesis using False s1 s2 by (simp add: cleaner_pass_def Let_def)
qed

end
