(* ===== verification/TGProps.thy ===== *)
theory TGProps
  imports TGFacts LMProps
begin

text \<open>
  The properties of the generator: its queue, its mutators and its workers, each with a witness on a
  generator that has been filled by the AFL mutator.
\<close>

section \<open>A concrete generator\<close>

text \<open>
  The local manager answers every request: it configures the AFL mutator and a hang time-out, it has one
  testcase to mutate that is also to be run as it is, and it lists that testcase as completed.
\<close>

definition wit_parent :: FluffiTestcaseID where
  "wit_parent = mkTestcaseID (mkServiceDescriptor ''h:1'' ''p'') 4"

definition wit_tg_net :: "nat \<Rightarrow> string \<Rightarrow> FLUFFIMessage \<Rightarrow> net_result" where
  "wit_tg_net k hap m = (case m of
     GetFuzzJobConfigurationRequest _ \<Rightarrow> Reply (GetFuzzJobConfigurationResponse [] []
       [\<lparr>st_settingName = ''chosenSubtype'', st_settingValue = ''AFLMutator''\<rparr>,
        \<lparr>st_settingName = ''hangTimeout'', st_settingValue = ''400000''\<rparr>])
   | GetTestcaseToMutateRequest \<Rightarrow> Reply (GetTestcaseToMutateResponse \<lparr>gtm_id = Some (tid_getProtobuf wit_parent),
       gtm_testCaseFirstChunk = ''AB'', gtm_isLastChunk = True, gtm_alsoRunWithoutMutation = True\<rparr>)
   | ReportNewMutationsRequest _ _ \<Rightarrow> Reply (ReportNewMutationsResponse True)
   | ReportTestcaseWithNoResultRequest _ \<Rightarrow> Reply (ReportTestcaseWithNoResultResponse True)
   | GetNewCompletedTestcaseIDsRequest _ \<Rightarrow> Reply (GetNewCompletedTestcaseIDsResponse 7 [tid_getProtobuf wit_parent])
   | _ \<Rightarrow> RecvTimeout)"

definition wit_tgE :: env where
  "wit_tgE = quiet_env\<lparr>env_net := wit_tg_net\<rparr>"

definition wit_X :: engines where
  "wit_X = \<lparr>e_process = \<lambda>_ a. (True, a), e_havoc = \<lambda>n bs. bs @ bs, e_mangle = \<lambda>n l r. r,
     e_listing = \<lambda>_ _. [], e_directory = \<lambda>_ _. True\<rparr>"

definition wit_tgcfg :: tg_config where
  "wit_tgcfg = \<lparr>tg_self = mkServiceDescriptor ''h:2'' ''g'', tg_testcaseDir = ''d'', m_queueFillerTempDir = ''t'',
     m_desiredQueueFillLevel = 5, m_maxBulkGenerationSize = 2, m_maxRetriesBeforeReport = 3,
     m_intervallBetweenTwoCleaningRoundsInMillisec = 30000, m_myAgentSubTypes = [''AFLMutator'']\<rparr>"

definition wit_tg0 :: tg where
  "wit_tg0 = \<lparr>tg_queue = \<lparr>m_pendingTestcaseQueue = [], m_sentButNotEvaluatedTestcaseSet = []\<rparr>,
     tg_agent = fresh_agent, s_numMutations = 0, encodedDBcredentials = '''',
     m_serverTimestampOfNewestEvaluationResult = 0, m_intervallToWaitForReinsertionInMillisec = 0,
     m_gotConfigFromLM = False, m_mutator = None, m_mutatorNeedsParents = True, m_extTestcaseDir = '''',
     m_bulkGenerationSize = 2\<rparr>"

definition wit_tg1 :: tg where
  "wit_tg1 = the (filler_pass wit_tgE wit_X wit_tgcfg wit_tg0)"

lemma wit_fill: "map_option (\<lambda>st. (map td_key (m_pendingTestcaseQueue (tg_queue st)), s_numMutations st,
    files (tg_agent st) ''d/g-1'')) (filler_pass wit_tgE wit_X wit_tgcfg wit_tg0) =
  Some ([(''p'', 4), (''g'', 0), (''g'', 1)], 2, Some ''ABAB'')"
  by code_simp


lemma wit_fill_Some: "filler_pass wit_tgE wit_X wit_tgcfg wit_tg0 = Some wit_tg1"
  using wit_fill by (cases "filler_pass wit_tgE wit_X wit_tgcfg wit_tg0") (simp_all add: wit_tg1_def)

lemma wit_tg1_pending: "map td_key (m_pendingTestcaseQueue (tg_queue wit_tg1)) = [(''p'', 4), (''g'', 0), (''g'', 1)]"
  using wit_fill wit_fill_Some by simp

lemma wit_tg0_start: "tg_start wit_tgcfg wit_tg0"
  using tg_start.intros [of wit_tgcfg fresh_agent] by (simp add: wit_tg0_def wit_tgcfg_def)

abbreviation tg_reach :: "env \<Rightarrow> engines \<Rightarrow> tg_config \<Rightarrow> tg \<Rightarrow> bool" where
  "tg_reach E X cfg \<equiv> reachable (\<lambda>st. 1 \<le> m_maxBulkGenerationSize cfg \<and> tg_start cfg st) (tg_step E X cfg)"

lemma wit_tg1_reach: "tg_reach wit_tgE wit_X wit_tgcfg wit_tg1"
proof (rule reachable.by_step)
  show "tg_reach wit_tgE wit_X wit_tgcfg wit_tg0"
    by (rule reachable.at_start) (simp add: wit_tg0_start, simp add: wit_tgcfg_def)
  show "tg_step wit_tgE wit_X wit_tgcfg wit_tg0 wit_tg1" by (rule tg_step.fill [OF wit_fill_Some])
qed

section \<open>Properties\<close>

text \<open>
  C10: In every state the generator can reach, the bulk size is between 1 and its maximum, a configured
  generator has a mutator, only the external mutator works without parents, every testcase that waits
  for its evaluation was sent at least once, and the reinsertion interval is undetermined or at least
  five minutes.
\<close>

theorem generator_reachable_inv:
  assumes "tg_reach E X cfg st" shows "tg_inv cfg st"
  using assms by (rule tg_system.reachable_inv)

theorem generator_reachable_inv_witness: "tg_inv wit_tgcfg wit_tg1"
  by (rule generator_reachable_inv [OF wit_tg1_reach])

text \<open>
  C9: A testcase in the queue of the generator, pending or sent, leaves it only when the local manager
  has settled it: listed its identifier as completed, or answered a report on it.
\<close>

theorem testcase_settled_before_it_leaves:
  assumes "(tg_step E X cfg)\<^sup>*\<^sup>* st st'" and "k \<in># queue_keys (tg_queue st)"
    and "k \<notin># queue_keys (tg_queue st')"
  shows "\<exists>st1 st2. (tg_step E X cfg)\<^sup>*\<^sup>* st st1 \<and> tg_step E X cfg st1 st2 \<and> (tg_step E X cfg)\<^sup>*\<^sup>* st2 st' \<and>
    settled E (lm_hap st1) k"
  using assms by (rule tg_run_conserves)

text \<open>One testcase waits for its evaluation and is listed as completed.\<close>

definition wit_sent :: "testcase_descriptor \<Rightarrow> tg" where
  "wit_sent t = wit_tg0\<lparr>tg_queue := \<lparr>m_pendingTestcaseQueue = [], m_sentButNotEvaluatedTestcaseSet = [t]\<rparr>\<rparr>"

definition wit_desc :: testcase_descriptor where
  "wit_desc = (mkTestcaseDescriptor wit_parent wit_parent ''d/p-4'' False)\<lparr>m_numOfProcessingAttempts := 3\<rparr>"

lemma wit_remove: "map_option (\<lambda>st. m_pendingTestcaseQueue (tg_queue st) @
    m_sentButNotEvaluatedTestcaseSet (tg_queue st)) (removeCompletedTestcases wit_tgE (wit_sent wit_desc)) = Some []"
  by code_simp

theorem testcase_settled_before_it_leaves_witness:
  "\<exists>st1. settled wit_tgE (lm_hap st1) (''p'', 4)"
proof -
  from wit_remove obtain st' where r: "removeCompletedTestcases wit_tgE (wit_sent wit_desc) = Some st'"
    and e: "m_pendingTestcaseQueue (tg_queue st') = []" "m_sentButNotEvaluatedTestcaseSet (tg_queue st') = []"
    by auto
  have "(tg_step wit_tgE wit_X wit_tgcfg)\<^sup>*\<^sup>* (wit_sent wit_desc) st'"
    using tg_step.remove_completed [OF r] by (rule r_into_rtranclp)
  moreover have "(''p'', 4) \<in># queue_keys (tg_queue (wit_sent wit_desc))"
    by (simp add: queue_keys_def wit_sent_def wit_desc_def wit_parent_def mkTestcaseDescriptor_def tid_key_def
        mkTestcaseID_def mkServiceDescriptor_def)
  moreover have "(''p'', 4) \<notin># queue_keys (tg_queue st')" by (simp add: queue_keys_def e)
  ultimately show ?thesis using testcase_settled_before_it_leaves by blast
qed

text \<open>
  After a report round no testcase that waits for its evaluation has reached the limit of attempts;
  the ones that had are pending again, or the local manager took the report and their files are marked
  for deletion.
\<close>

theorem report_round_clears_overdue:
  assumes "reportTestcasesWithMultipleNoResponse E cfg st = Some st'"
    and "t \<in> set (m_sentButNotEvaluatedTestcaseSet (tg_queue st))"
    and "m_maxRetriesBeforeReport cfg \<le> m_numOfProcessingAttempts t"
  shows "(\<forall>u \<in> set (m_sentButNotEvaluatedTestcaseSet (tg_queue st')).
        m_numOfProcessingAttempts u < m_maxRetriesBeforeReport cfg) \<and>
    (t \<in> set (m_pendingTestcaseQueue (tg_queue st')) \<or>
     taken E (lm_hap st) t \<and> m_pathAndFileName t \<in> set (m_setOfFilesToDelete (tg_agent st')))"
  using assms(1)
proof (cases rule: report_result)
  case (1 kept gone)
  have "t \<in># mset kept + mset gone" using assms(2,3) by (simp flip: 1(4))
  then show ?thesis using 1(2,3,5) by auto
qed

lemma wit_tgE_answers: "\<forall>k hap req. env_net wit_tgE k hap req \<notin> {SendError, RecvError}"
  by (simp add: wit_tgE_def wit_tg_net_def split: FLUFFIMessage.split)

theorem report_round_clears_overdue_witness:
  "\<exists>st' :: tg. (\<forall>u \<in> set (m_sentButNotEvaluatedTestcaseSet (tg_queue st')).
      m_numOfProcessingAttempts u < m_maxRetriesBeforeReport wit_tgcfg) \<and>
    (wit_desc \<in> set (m_pendingTestcaseQueue (tg_queue st')) \<or>
     taken wit_tgE (lm_hap (wit_sent wit_desc)) wit_desc \<and>
     m_pathAndFileName wit_desc \<in> set (m_setOfFilesToDelete (tg_agent st')))"
proof -
  have "sockets_idle (tg_agent (wit_sent wit_desc))"
    by (simp add: wit_sent_def wit_tg0_def fresh_agent_def sockets_idle_def)
  from report_returns [OF wit_tgE_answers this, of wit_tgcfg] obtain st'
    where r: "reportTestcasesWithMultipleNoResponse wit_tgE wit_tgcfg (wit_sent wit_desc) = Some st'" by auto
  have "wit_desc \<in> set (m_sentButNotEvaluatedTestcaseSet (tg_queue (wit_sent wit_desc)))"
    and "m_maxRetriesBeforeReport wit_tgcfg \<le> m_numOfProcessingAttempts wit_desc"
    by (simp add: wit_sent_def) (simp add: wit_tgcfg_def wit_desc_def)
  from report_round_clears_overdue [OF r this] show ?thesis by (intro exI [of _ st'])
qed

text \<open>
  C11: A round of the queue cleaner ends: when no ZeroMQ call fails and no received hang time-out is
  unreadable, its three operations return, whatever is answered or not answered, and the sockets are
  usable again.
\<close>

theorem cleaner_round_returns:
  assumes "\<forall>k hap req. env_net E k hap req \<notin> {SendError, RecvError}"
    and "\<forall>k hap m v. env_net E k hap (config_request cfg) = Reply m \<longrightarrow>
      received_settings m ''hangTimeout'' = Some v \<longrightarrow> stoi v \<noteq> None"
    and "sockets_idle (tg_agent st)"
  shows "\<exists>waitedMS' st'. cleaner_pass E cfg (waitedMS, st) = Some (waitedMS', st') \<and> sockets_idle (tg_agent st')"
  using cleaner_pass_returns [OF assms] by blast

theorem cleaner_round_returns_witness:
  "\<exists>waitedMS' st'. cleaner_pass wit_tgE wit_tgcfg (30000, wit_sent wit_desc) = Some (waitedMS', st') \<and>
    sockets_idle (tg_agent st')"
proof (rule cleaner_round_returns [OF wit_tgE_answers])
  show "sockets_idle (tg_agent (wit_sent wit_desc))"
    by (simp add: wit_sent_def wit_tg0_def fresh_agent_def sockets_idle_def)
  have "stoi ''400000'' = Some 400000"
    by (simp add: stoi_def parse_number_def is_space_def is_digit_def digits_val_def)
  moreover have "received_settings (GetFuzzJobConfigurationResponse [] []
       [\<lparr>st_settingName = ''chosenSubtype'', st_settingValue = ''AFLMutator''\<rparr>,
        \<lparr>st_settingName = ''hangTimeout'', st_settingValue = ''400000''\<rparr>]) ''hangTimeout'' = Some ''400000''"
    by (simp add: received_settings_def setting_of_proto_def getfuzzjobconfigurationresponse_settings_def)
  ultimately show "\<forall>k hap m v. env_net wit_tgE k hap (config_request wit_tgcfg) = Reply m \<longrightarrow>
      received_settings m ''hangTimeout'' = Some v \<longrightarrow> stoi v \<noteq> None"
    by (auto simp: wit_tgE_def wit_tg_net_def config_request_def)
qed

text \<open>
  C12: The testcases are handed out in the order in which they became pending: any number of requests in a
  row is answered with the pending testcases, one after the other, and with failure when there are none
  left.
\<close>

theorem handed_out_in_order:
  "map (\<lambda>m. (gtr_success (gettestcaseresponse m), gtr_id (gettestcaseresponse m))) (fst (handouts E cfg n st)) =
     map (\<lambda>t. (True, Some (tid_getProtobuf (td_id t)))) (take n (m_pendingTestcaseQueue (tg_queue st))) @
     replicate (n - length (m_pendingTestcaseQueue (tg_queue st))) (False, None)"
  by (rule handouts_in_order)

text \<open>
  A runner that asks for a testcase and stores it with what the response holds gets the file of the
  next pending testcase byte by byte, the missing chunks coming from the generator's chunk handler.
\<close>

theorem handed_testcase_arrives:
  assumes "m_pendingTestcaseQueue (tg_queue st) = t # rest"
    and "files (tg_agent st) (generateTestcasePathAndFilename (td_id t) (tg_testcaseDir cfg)) = Some dat"
    and "GetTestcaseRequestHandler Eg cfg st GetTestcaseRequest = (m, st')"
    and "i = tid_of_proto (tid_getProtobuf (td_id t))"
    and "serves E hap Eg (tg_testcaseDir cfg) False (tg_agent st') i"
    and "sockets_idle a" and "files a (generateTestcasePathAndFilename i dir) = None"
    and "env_open_ok E (tick a) (generateTestcasePathAndFilename i dir)"
  shows "\<exists>a'. storeTestcaseFileOnDisk E i dir (gtr_testCaseFirstChunk (gettestcaseresponse m))
      (gtr_isLastChunk (gettestcaseresponse m)) hap a = Some (True, a') \<and>
    files a' = (files a)(generateTestcasePathAndFilename i dir \<mapsto> dat)"
proof -
  note h = GetTestcaseRequestHandler_pending [OF assms(1,3)]
  have l: "loadTestcaseChunkInMemory Eg (td_id t) (tg_testcaseDir cfg) 0 (tg_agent st) =
      (chunk_of dat 0, Some (last_chunk dat 0))"
    using loadTestcaseChunkInMemory_chunk [OF assms(2), of 0 Eg] by simp
  have f: "files (tg_agent st') (generateTestcasePathAndFilename i (tg_testcaseDir cfg)) = Some dat"
    using assms(2) h(7) by (simp add: assms(4))
  have r: "gtr_testCaseFirstChunk (gettestcaseresponse m) = chunk_of dat 0"
    "gtr_isLastChunk (gettestcaseresponse m) = last_chunk dat 0"
    using h(4,5) l by (simp_all add: the_flag_def)
  show ?thesis
    unfolding r using storeTestcaseFileOnDisk_fetches [OF assms(6) _ assms(7,8)] assms(5) f by blast
qed

text \<open>The file of the pending testcase is in the directory of the generator.\<close>

definition wit_stored :: tg where
  "wit_stored = wit_tg0\<lparr>tg_queue := \<lparr>m_pendingTestcaseQueue = [wit_desc], m_sentButNotEvaluatedTestcaseSet = []\<rparr>,
     tg_agent := fresh_agent\<lparr>files := [''d/p-4'' \<mapsto> ''AB'']\<rparr>\<rparr>"

definition wit_fetch :: "agent \<Rightarrow> env" where
  "wit_fetch p = quiet_env\<lparr>env_net := \<lambda>k hap m. Reply (fst (GetTestcaseChunkRequestHandler wit_tgE ''d'' False p m))\<rparr>"

lemma wit_path: "generateTestcasePathAndFilename (td_id wit_desc) ''d'' = ''d/p-4''"
  by code_simp

theorem handed_testcase_arrives_witness:
  "\<exists>m a'. storeTestcaseFileOnDisk (wit_fetch (tg_agent (snd (GetTestcaseRequestHandler wit_tgE wit_tgcfg wit_stored
        GetTestcaseRequest)))) (tid_of_proto (tid_getProtobuf (td_id wit_desc))) ''r''
      (gtr_testCaseFirstChunk (gettestcaseresponse m)) (gtr_isLastChunk (gettestcaseresponse m)) ''h:1''
      fresh_agent = Some (True, a') \<and>
    files a' (generateTestcasePathAndFilename (td_id wit_desc) ''r'') = Some ''AB''"
proof -
  let ?i = "tid_of_proto (tid_getProtobuf (td_id wit_desc))"
  obtain m st' where h: "GetTestcaseRequestHandler wit_tgE wit_tgcfg wit_stored GetTestcaseRequest = (m, st')"
    by fastforce
  have "\<exists>a'. storeTestcaseFileOnDisk (wit_fetch (tg_agent st')) ?i ''r'' (gtr_testCaseFirstChunk (gettestcaseresponse m))
      (gtr_isLastChunk (gettestcaseresponse m)) ''h:1'' fresh_agent = Some (True, a') \<and>
    files a' = (files fresh_agent)(generateTestcasePathAndFilename ?i ''r'' \<mapsto> ''AB'')"
  proof (rule handed_testcase_arrives [OF _ _ h refl])
    show "m_pendingTestcaseQueue (tg_queue wit_stored) = wit_desc # []" by (simp add: wit_stored_def)
    show "files (tg_agent wit_stored) (generateTestcasePathAndFilename (td_id wit_desc) (tg_testcaseDir wit_tgcfg)) =
        Some ''AB''" by (simp add: wit_stored_def wit_tgcfg_def wit_path)
    show "serves (wit_fetch (tg_agent st')) ''h:1'' wit_tgE (tg_testcaseDir wit_tgcfg) False (tg_agent st') ?i"
      by (simp add: serves_def wit_fetch_def wit_tgcfg_def)
  qed (simp_all add: fresh_agent_def sockets_idle_def wit_fetch_def quiet_env_def)
  then obtain a' where "storeTestcaseFileOnDisk (wit_fetch (tg_agent st')) ?i ''r''
      (gtr_testCaseFirstChunk (gettestcaseresponse m)) (gtr_isLastChunk (gettestcaseresponse m)) ''h:1'' fresh_agent =
      Some (True, a')" and "files a' = (files fresh_agent)(generateTestcasePathAndFilename ?i ''r'' \<mapsto> ''AB'')" by blast
  then show ?thesis using h by (intro exI [of _ m] exI [of _ a']) simp
qed

text \<open>
  C13: The children of one call of a mutator that numbers its testcases have different identifiers, also
  when the 64-bit counter wraps around, and at most as many as asked for; a child's identifier is the
  generator's own.
\<close>

theorem children_have_distinct_ids:
  assumes "batchMutate E X cfg mut n parentID parentPathAndFilename st = Some (Inr ts, st')"
    and "mut \<noteq> ExternalMutator" and "n \<le> 2 ^ 64"
  shows "distinct (map td_key ts) \<and> length ts \<le> n \<and> (\<forall>t \<in> set ts. fst (td_key t) = m_guid (tg_self cfg))"
proof -
  note f = batchMutate_fresh [OF assms(1,2)]
  have "\<forall>t \<in> set ts. fst (td_key t) = m_guid (tg_self cfg)"
    using f by (auto simp: fresh_children_def fresh_child_def list_all2_conv_all_nth in_set_conv_nth
        mkTestcaseDescriptor_def tid_key_def mkTestcaseID_def)
  then show ?thesis using fresh_children_distinct [OF f assms(3)] fresh_children_length [OF f] by simp
qed

lemma wit_batch: "map_option (\<lambda>r. case fst r of Inr ts \<Rightarrow> Some (length ts) | Inl _ \<Rightarrow> None)
    (batchMutate wit_tgE wit_X wit_tgcfg AFLMutator 2 wit_parent ''d/p-4'' wit_stored) = Some (Some 2)"
  by code_simp

theorem children_have_distinct_ids_witness:
  "\<exists>ts. length ts = 2 \<and> distinct (map td_key ts) \<and> (\<forall>t \<in> set ts. fst (td_key t) = ''g'')"
proof -
  from wit_batch obtain r st' where
    b: "batchMutate wit_tgE wit_X wit_tgcfg AFLMutator 2 wit_parent ''d/p-4'' wit_stored = Some (r, st')"
    and r: "(case r of Inr ts \<Rightarrow> Some (length ts) | Inl _ \<Rightarrow> None) = Some 2" by auto
  from r obtain ts where ts: "r = Inr ts" "length ts = 2" by (cases r) simp_all
  from children_have_distinct_ids [OF b [unfolded ts(1)]] ts(2) show ?thesis
    by (auto simp: wit_tgcfg_def mkServiceDescriptor_def)
qed

text \<open>
  When the first request for the configuration is not answered, the interval of reinsertion is five
  minutes for the rest of the run, whatever hang time-out the fuzz job has.
\<close>

theorem unanswered_configuration_fixes_interval:
  assumes "m_intervallToWaitForReinsertionInMillisec st = 0"
    and "reinsertTestcasesWithNoResponse E cfg st = Some st1"
    and "env_net E (Suc (tick (tg_agent st))) (lm_hap st) (config_request cfg) \<in> {SendTimeout, RecvTimeout}"
    and "(tg_step E X cfg)\<^sup>*\<^sup>* st1 st2"
  shows "m_intervallToWaitForReinsertionInMillisec st2 = 300000"
proof -
  let ?st0 = "st\<lparr>m_intervallToWaitForReinsertionInMillisec := 5 * 60 * 1000\<rparr>"
  from assms(1,2) obtain r st' where a: "ask_lm E (config_request cfg) timeoutNormalMessage ?st0 = Some (r, st')"
    by (auto simp: reinsertTestcasesWithNoResponse_def bind_eq_Some_conv)
  have "r = None" using ask_lm_result(4) [OF a] assms(3) by (cases r) auto
  then have "st1 = st'" using assms(1,2) a by (simp add: reinsertTestcasesWithNoResponse_def)
  then have "m_intervallToWaitForReinsertionInMillisec st1 = 300000"
    using tg_rest_fields(2) [OF ask_lm_result(2) [OF a]] by simp
  then show ?thesis using tg_run_interval [OF assms(4)] by simp
qed

theorem unanswered_configuration_fixes_interval_witness:
  "\<exists>st. reinsertTestcasesWithNoResponse quiet_env wit_tgcfg wit_tg0 = Some st \<and>
    m_intervallToWaitForReinsertionInMillisec st = 300000"
proof -
  have "sockets_idle (tg_agent wit_tg0)" by (simp add: wit_tg0_def fresh_agent_def sockets_idle_def)
  then obtain st where r: "reinsertTestcasesWithNoResponse quiet_env wit_tgcfg wit_tg0 = Some st"
    using reinsert_returns [of quiet_env wit_tg0 wit_tgcfg] by (auto simp: quiet_env_def)
  have "m_intervallToWaitForReinsertionInMillisec wit_tg0 = 0" by (simp add: wit_tg0_def)
  from unanswered_configuration_fixes_interval [OF this r _ rtranclp.rtrancl_refl [of "tg_step quiet_env wit_X wit_tgcfg"]] r
  show ?thesis by (simp add: quiet_env_def)
qed

text \<open>
  A testcase that the local manager has in its table of completed testcases no longer waits for its
  evaluation once the generator has the answer of the manager's handler, its file is marked for
  deletion, and the pending testcases stay.
\<close>

theorem completed_testcase_leaves_generator:
  assumes "env_net E (Suc (tick (tg_agent st))) (lm_hap st)
      (GetNewCompletedTestcaseIDsRequest (m_serverTimestampOfNewestEvaluationResult st)) =
      Reply (fst (GetNewCompletedTestcaseIDsRequestHandler D
        (GetNewCompletedTestcaseIDsRequest (m_serverTimestampOfNewestEvaluationResult st)) lm))"
    and "removeCompletedTestcases E st = Some st'"
    and "db_ok D (stmt_no (lm_db lm))" and "c \<in> set (completed_testcases (lm_db lm))"
    and "sint (m_serverTimestampOfNewestEvaluationResult st) \<le> ct_TimeOfCompletion c"
    and "t \<in> set (m_sentButNotEvaluatedTestcaseSet (tg_queue st))"
    and "td_key t = (ct_CreatorGUID c, ct_CreatorLocalID c)"
  shows "t \<notin> set (m_sentButNotEvaluatedTestcaseSet (tg_queue st')) \<and>
    m_pathAndFileName t \<in> set (m_setOfFilesToDelete (tg_agent st')) \<and>
    m_pendingTestcaseQueue (tg_queue st') = m_pendingTestcaseQueue (tg_queue st)"
proof -
  let ?req = "GetNewCompletedTestcaseIDsRequest (m_serverTimestampOfNewestEvaluationResult st)"
  let ?m = "fst (GetNewCompletedTestcaseIDsRequestHandler D ?req lm)"
  let ?ids = "map tid_of_proto (snd (getnewcompletedtestcaseidsresponse ?m))"
  from assms(2) obtain r st1 where a: "ask_lm E ?req timeoutNormalMessage st = Some (r, st1)"
    by (auto simp: removeCompletedTestcases_def bind_eq_Some_conv)
  have r: "r = Some ?m \<or> r = None" using ask_lm_result(4) [OF a] assms(1) by (cases r) auto
  have "r \<noteq> None"
    using a assms(1) by (auto simp: ask_lm_def bind_eq_Some_conv elim!: sendReqAndRecvResp_cases)
  with r have r: "r = Some ?m" by simp
  have q1: "tg_queue st1 = tg_queue st" by (rule tg_rest_fields(1) [OF ask_lm_result(2) [OF a]])
  obtain q b where e: "removeEvaluatedTestcases ?ids (tg_queue st) (tg_agent st1) = (q, b)" by fastforce
  then have st': "tg_queue st' = q" "tg_agent st' = b"
    using assms(2) a r q1 by (auto simp: removeCompletedTestcases_def Let_def split_beta)
  have "id_proto (ct_CreatorGUID c) (ct_CreatorLocalID c) \<in> set (snd (getnewcompletedtestcaseidsresponse ?m))"
    using assms(3-5) by (force simp: GetNewCompletedTestcaseIDsRequestHandler_def lift_db_def Let_def split_beta
        generateGetNewCompletedTestcaseIDsResponse_def query_def getnewcompletedtestcaseidsresponse_def)
  then have "td_key t \<in> tid_key ` set ?ids"
    using assms(7) by (force simp: id_proto_def tid_key_def proto_defs default_ServiceDescriptor_def)
  then show ?thesis using removeEvaluatedTestcases_result(1,2,3) [OF e] assms(6) by (auto simp: st')
qed

definition wit_done :: lm where
  "wit_done = wit_lm\<lparr>lm_db := (lm_db wit_lm)\<lparr>completed_testcases := [\<lparr>ct_ID = 1, ct_CreatorGUID = ''p'',
     ct_CreatorLocalID = 4, ct_TimeOfCompletion = 9\<rparr>]\<rparr>\<rparr>"

theorem completed_testcase_leaves_generator_witness:
  "\<exists>E st'. removeCompletedTestcases E (wit_sent wit_desc) = Some st' \<and>
    wit_desc \<notin> set (m_sentButNotEvaluatedTestcaseSet (tg_queue st')) \<and>
    m_pathAndFileName wit_desc \<in> set (m_setOfFilesToDelete (tg_agent st'))"
proof -
  let ?E = "quiet_env\<lparr>env_net := \<lambda>k hap m. Reply (fst (GetNewCompletedTestcaseIDsRequestHandler wit_D m wit_done))\<rparr>"
  have "sockets_idle (tg_agent (wit_sent wit_desc))"
    by (simp add: wit_sent_def wit_tg0_def fresh_agent_def sockets_idle_def)
  then obtain st' where r: "removeCompletedTestcases ?E (wit_sent wit_desc) = Some st'"
    using remove_returns [of ?E "wit_sent wit_desc"] by auto
  let ?c = "\<lparr>ct_ID = 1, ct_CreatorGUID = ''p'', ct_CreatorLocalID = 4, ct_TimeOfCompletion = 9\<rparr>"
  have "wit_desc \<notin> set (m_sentButNotEvaluatedTestcaseSet (tg_queue st')) \<and>
      m_pathAndFileName wit_desc \<in> set (m_setOfFilesToDelete (tg_agent st')) \<and>
      m_pendingTestcaseQueue (tg_queue st') = m_pendingTestcaseQueue (tg_queue (wit_sent wit_desc))"
  proof (rule completed_testcase_leaves_generator [OF _ r, where c = ?c and D = wit_D and lm = wit_done])
    show "td_key wit_desc = (ct_CreatorGUID ?c, ct_CreatorLocalID ?c)" by code_simp
  qed (simp_all add: wit_done_def wit_sent_def wit_tg0_def)
  then show ?thesis using r by blast
qed

end
