(* ===== verification/TEEval.thy ===== *)
theory TEEval
  imports FileTransfer
begin

text \<open>
  The evaluator: the cache of covered blocks (\<open>BlockCoverageCache.cpp\<close>), the queue of test outcomes
  (\<open>TETestResultManager.cpp\<close>), the handler that receives them (\<open>PutTestResultRequestHandler.cpp\<close>), the
  coverage evaluator (\<open>CoverageEvaluator.cpp\<close>) and the two workers (\<open>TEMainWorker.cpp\<close>,
  \<open>CoveragePullerWorker.cpp\<close>).
\<close>

section \<open>State\<close>

record outcome =
  tod_id :: FluffiTestcaseID
  tod_parentId :: FluffiTestcaseID
  tod_testResult :: FluffiTestResult

record te =
  m_testOutcomeQueue :: "outcome list"
  m_blockCoverageCache :: "FluffiBasicBlock list"
  m_currentTestcaseEvaluationSendTimeout :: int
  te_gotConfig :: bool
  te_hasEvaluator :: bool
  te_agent :: agent

record te_config =
  te_self :: FluffiServiceDescriptor
  te_testcaseDir :: string
  te_agentSubTypes :: "string list"
  m_intervallBetweenTwoPullingRoundsInMillisec :: int

section \<open>BlockCoverageCache\<close>

definition addBlockToCache :: "FluffiBasicBlock \<Rightarrow> FluffiBasicBlock list \<Rightarrow> FluffiBasicBlock list" where
  "addBlockToCache newBlock cache = set_insert (\<lambda>b. b) newBlock cache"

definition addBlocksToCache :: "FluffiBasicBlock list \<Rightarrow> FluffiBasicBlock list \<Rightarrow> FluffiBasicBlock list" where
  "addBlocksToCache newBlocks cache = fold (set_insert (\<lambda>b. b)) newBlocks cache"

definition isBlockInCache :: "FluffiBasicBlock \<Rightarrow> FluffiBasicBlock list \<Rightarrow> bool" where
  "isBlockInCache theBlock cache \<longleftrightarrow> theBlock \<in> set cache"

definition isBlockInCacheAndAddItIfNot ::
    "FluffiBasicBlock \<Rightarrow> FluffiBasicBlock list \<Rightarrow> bool \<times> FluffiBasicBlock list" where
  "isBlockInCacheAndAddItIfNot theBlock cache =
     (let wasAlreadyInSet = isBlockInCache theBlock cache
      in (wasAlreadyInSet, if \<not> wasAlreadyInSet then set_insert (\<lambda>b. b) theBlock cache else cache))"

section \<open>TETestResultManager\<close>

definition pushNewTestOutcomeFromTCRunner :: "outcome \<Rightarrow> outcome list \<Rightarrow> outcome list" where
  "pushNewTestOutcomeFromTCRunner newTestcaseOutcome q = q @ [newTestcaseOutcome]"

definition isThereAlreadyAToDFor :: "FluffiTestcaseID \<Rightarrow> outcome list \<Rightarrow> bool" where
  "isThereAlreadyAToDFor i q = list_ex (\<lambda>t. tid_eq (tod_id t) i) q"

definition popTestOutcomeForEvaluation :: "outcome list \<Rightarrow> outcome option \<times> outcome list" where
  "popTestOutcomeForEvaluation q = (case q of [] \<Rightarrow> (None, []) | t # rest \<Rightarrow> (Some t, rest))"

definition destroy_results :: "string \<Rightarrow> outcome list \<Rightarrow> agent \<Rightarrow> agent" where
  "destroy_results testcaseDir q a =
     fold (\<lambda>t. markFileForDelete (generateTestcasePathAndFilename (tod_id t) testcaseDir)) q a"

section \<open>PutTestResultRequestHandler\<close>

definition puttestresultrequest :: "FLUFFIMessage \<Rightarrow> PutTestResultRequest_t" where
  "puttestresultrequest m = (case m of PutTestResultRequest r \<Rightarrow> r
     | _ \<Rightarrow> \<lparr>ptr_id = None, ptr_parentId = None, ptr_result = None, ptr_testCaseFirstChunk = '''',
              ptr_isLastChunk = False, ptr_sdOfRunner = None\<rparr>)"

text \<open>The outcome that a request carries; absent parts read as their defaults.\<close>

definition received_outcome :: "PutTestResultRequest_t \<Rightarrow> outcome" where
  "received_outcome r = \<lparr>tod_id = tid_of_proto (opt_or default_TestcaseID (ptr_id r)),
     tod_parentId = tid_of_proto (opt_or default_TestcaseID (ptr_parentId r)),
     tod_testResult = result_of_proto (opt_or default_TestResult (ptr_result r))\<rparr>"

definition PutTestResultRequestHandler ::
    "env \<Rightarrow> te_config \<Rightarrow> FLUFFIMessage \<Rightarrow> te \<Rightarrow> (FLUFFIMessage \<times> te) option" where
  "PutTestResultRequestHandler E cfg req st =
     (let r = puttestresultrequest req; outcomeDesc = received_outcome r in
      do {
        (success, a) \<leftarrow> storeTestcaseFileOnDisk E (tod_id outcomeDesc) (te_testcaseDir cfg)
          (ptr_testCaseFirstChunk r) (ptr_isLastChunk r)
          (sd_serviceHostAndPort (opt_or default_ServiceDescriptor (ptr_sdOfRunner r))) (te_agent st);
        let st = st\<lparr>te_agent := a\<rparr>;
        Some (if success
          then (PutTestResultResponse True,
            st\<lparr>m_testOutcomeQueue := pushNewTestOutcomeFromTCRunner outcomeDesc (m_testOutcomeQueue st)\<rparr>)
          else (PutTestResultResponse (isThereAlreadyAToDFor (tod_id outcomeDesc) (m_testOutcomeQueue st)), st))
      })"

section \<open>CoverageEvaluator\<close>

definition m_deltaNewBlocks :: int where "m_deltaNewBlocks = 100"
definition m_deltaHang :: int where "m_deltaHang = -10"
definition m_deltaAccessViolation :: int where "m_deltaAccessViolation = -10"
definition m_deltaOtherException :: int where "m_deltaOtherException = -10"

definition generateParentRatingDelta :: "ExitType \<Rightarrow> bool \<Rightarrow> bool \<Rightarrow> int" where
  "generateParentRatingDelta exitType hasNewBlocks isSpecial =
     (if isSpecial then 0
      else
        (case exitType of CleanExit \<Rightarrow> 0 | Hang \<Rightarrow> m_deltaHang
         | Exception_AccessViolation \<Rightarrow> m_deltaAccessViolation | Exception_Other \<Rightarrow> m_deltaOtherException
         | ExitType_other _ \<Rightarrow> 0) + (if hasNewBlocks then m_deltaNewBlocks else 0))"

definition copyTestResultButStripDuplicateBlocks :: "FluffiTestResult \<Rightarrow> FluffiTestResult" where
  "copyTestResultButStripDuplicateBlocks r = r\<lparr>m_blocks := set_of_list (\<lambda>b. b) (m_blocks r)\<rparr>"

definition updateTestcaseEvaluationSendTimeout :: "bool \<Rightarrow> TestEvaluation \<Rightarrow> ExitType \<Rightarrow> int \<Rightarrow> int" where
  "updateTestcaseEvaluationSendTimeout wasLastTransferSuccessful eval exitType timeout =
     (if wasLastTransferSuccessful then
        (if timeout - 1000 > timeoutFileTransferMessage \<and> eval = Keep \<and> exitType = CleanExit
         then timeout - 1000 else timeout)
      else timeout + 5000)"

text \<open>The loop over the blocks of a result: is one of them new, and the cache with all of them.\<close>

fun check_blocks :: "FluffiBasicBlock list \<Rightarrow> bool \<Rightarrow> FluffiBasicBlock list \<Rightarrow> bool \<times> FluffiBasicBlock list" where
  "check_blocks [] hasNewBlocks cache = (hasNewBlocks, cache)"
| "check_blocks (b # bs) hasNewBlocks cache =
     (let (wasIn, cache) = isBlockInCacheAndAddItIfNot b cache
      in check_blocks bs (hasNewBlocks \<or> \<not> wasIn) cache)"

text \<open>The request on an outcome, and the state when it is sent.\<close>

definition test_evaluation :: "outcome \<Rightarrow> bool \<Rightarrow> TestEvaluation" where
  "test_evaluation tod hasNewBlocks =
     (if m_guid (m_serviceDescriptor (tod_parentId tod)) \<noteq> ''special'' \<and>
         m_exitType (tod_testResult tod) = CleanExit \<and> \<not> hasNewBlocks then Discard else Keep)"

definition reported_result :: "outcome \<Rightarrow> FluffiTestResult" where
  "reported_result tod =
     (let r = tod_testResult tod in
      if m_hasFullCoverage r then copyTestResultButStripDuplicateBlocks r
      else \<lparr>m_exitType = m_exitType r, m_blocks = [], m_crashFootprint = m_crashFootprint r,
            m_hasFullCoverage = False\<rparr>)"

definition evaluation_request ::
    "env \<Rightarrow> te_config \<Rightarrow> outcome \<Rightarrow> te \<Rightarrow> PutTestEvaluationRequest_t \<times> te" where
  "evaluation_request E cfg tod st =
     (let (hasNewBlocks, cache) = check_blocks (m_blocks (tod_testResult tod)) False (m_blockCoverageCache st);
          st = st\<lparr>m_blockCoverageCache := cache\<rparr>;
          a = te_agent st;
          testfile = generateTestcasePathAndFilename (tod_id tod) (te_testcaseDir cfg);
          eval = test_evaluation tod hasNewBlocks;
          req = \<lparr>pte_id = Some (tid_getProtobuf (tod_id tod)),
                 pte_parentId = Some (tid_getProtobuf (tod_parentId tod)), pte_eval = eval,
                 pte_parentRatingDelta = 0, pte_result = None, pte_testCaseFirstChunk = '''',
                 pte_isLastChunk = False, pte_sdOfEvaluator = None\<rparr>
      in if eval = Discard then (req, st\<lparr>te_agent := markFileForDelete testfile a\<rparr>)
         else
           let (dat, flag) = loadTestcaseChunkInMemory E (tod_id tod) (te_testcaseDir cfg) 0 a;
               isLastChunk = the_flag E a flag
           in (req\<lparr>pte_parentRatingDelta := generateParentRatingDelta (m_exitType (tod_testResult tod)) hasNewBlocks
                     (m_guid (m_serviceDescriptor (tod_parentId tod)) = ''special''),
                   pte_result := Some (result_setProtobuf (reported_result tod) default_TestResult),
                   pte_testCaseFirstChunk := dat, pte_isLastChunk := isLastChunk,
                   pte_sdOfEvaluator := Some (sd_getProtobuf (te_self cfg))\<rparr>,
               if isLastChunk then st\<lparr>te_agent := markFileForDelete testfile a\<rparr> else st))"

text \<open>
  The answer of the local manager only tells whether there was one; \<open>success\<close> in it is merely logged.
  \<open>None\<close>: the process exits on a ZeroMQ error.
\<close>

definition te_ask :: "env \<Rightarrow> FLUFFIMessage \<Rightarrow> int \<Rightarrow> te \<Rightarrow> (FLUFFIMessage option \<times> te) option" where
  "te_ask E req timeoutMS st =
     do {
       (resp, a) \<leftarrow> sendReqAndRecvResp E req
         (m_serviceHostAndPort (m_lmServiceDescriptor (te_agent st))) timeoutMS (te_agent st);
       Some (resp, st\<lparr>te_agent := a\<rparr>)
     }"

definition processTestOutcomeDescriptor :: "env \<Rightarrow> te_config \<Rightarrow> outcome \<Rightarrow> te \<Rightarrow> te option" where
  "processTestOutcomeDescriptor E cfg tod st =
     (let (req, st) = evaluation_request E cfg tod st in
      do {
        (resp, st) \<leftarrow> te_ask E (PutTestEvaluationRequest req) (m_currentTestcaseEvaluationSendTimeout st) st;
        Some (st\<lparr>m_currentTestcaseEvaluationSendTimeout :=
          updateTestcaseEvaluationSendTimeout (resp \<noteq> None) (pte_eval req) (m_exitType (tod_testResult tod))
            (m_currentTestcaseEvaluationSendTimeout st)\<rparr>)
      })"

section \<open>TEMainWorker\<close>

definition te_config_request :: "te_config \<Rightarrow> FLUFFIMessage" where
  "te_config_request cfg = GetFuzzJobConfigurationRequest (Some (sd_getProtobuf (te_self cfg)))"

definition te_tryGetConfigFromLM :: "env \<Rightarrow> te_config \<Rightarrow> te \<Rightarrow> (bool \<times> te) option" where
  "te_tryGetConfigFromLM E cfg st =
     do {
       (resp, st) \<leftarrow> te_ask E (te_config_request cfg) timeoutNormalMessage st;
       (case resp of None \<Rightarrow> Some (False, st)
        | Some m \<Rightarrow>
            (case received_settings m ''chosenSubtype'' of None \<Rightarrow> Some (False, st)
             | Some chosenSubtype \<Rightarrow>
                 if chosenSubtype \<notin> set (te_agentSubTypes cfg) then Some (False, st)
                 else if chosenSubtype = ''CoverageEvaluator'' then Some (True, st\<lparr>te_hasEvaluator := True\<rparr>)
                 else None))
     }"

text \<open>One pass of the loop of \<open>workerMain\<close>.\<close>

definition te_main_pass :: "env \<Rightarrow> te_config \<Rightarrow> te \<Rightarrow> te option" where
  "te_main_pass E cfg st =
     do {
       (got, st) \<leftarrow> (if te_gotConfig st then Some (True, st) else te_tryGetConfigFromLM E cfg st);
       let st = st\<lparr>te_gotConfig := got\<rparr>;
       if \<not> got then Some st
       else (let (tod, q) = popTestOutcomeForEvaluation (m_testOutcomeQueue st) in
             case tod of None \<Rightarrow> Some st
             | Some t \<Rightarrow> if te_hasEvaluator st
                 then processTestOutcomeDescriptor E cfg t (st\<lparr>m_testOutcomeQueue := q\<rparr>) else None)
     }"

section \<open>CoveragePullerWorker\<close>

definition pullCoverageFromLM :: "env \<Rightarrow> te \<Rightarrow> te option" where
  "pullCoverageFromLM E st =
     do {
       (resp, st) \<leftarrow> te_ask E GetCurrentBlockCoverageRequest timeoutNormalMessage st;
       Some (case resp of None \<Rightarrow> st
         | Some m \<Rightarrow>
             (let blocksAsSet = set_of_list (\<lambda>b. b) (map block_of_proto (getcurrentblockcoverageresponse m))
              in st\<lparr>m_blockCoverageCache := addBlocksToCache blocksAsSet (m_blockCoverageCache st)\<rparr>))
     }"

text \<open>One pass of the loop of \<open>workerMain\<close>; \<open>waitedMS\<close> is its local variable, at first the interval.\<close>

definition puller_pass :: "env \<Rightarrow> te_config \<Rightarrow> int \<times> te \<Rightarrow> (int \<times> te) option" where
  "puller_pass E cfg = (\<lambda>(waitedMS, st).
     let checkAgainMS = 500 in
     if waitedMS < m_intervallBetweenTwoPullingRoundsInMillisec cfg then Some (waitedMS + checkAgainMS, st)
     else map_option (\<lambda>st. (0, st)) (pullCoverageFromLM E st))"

section \<open>The evaluator as a transition system\<close>

inductive te_step :: "env \<Rightarrow> te_config \<Rightarrow> te \<Rightarrow> te \<Rightarrow> bool" for E cfg where
  put_result: "PutTestResultRequestHandler E cfg m st = Some (resp, st') \<Longrightarrow> te_step E cfg st st'"
| get_chunk: "GetTestcaseChunkRequestHandler E (te_testcaseDir cfg) True (te_agent st) m = (resp, a) \<Longrightarrow>
    te_step E cfg st (st\<lparr>te_agent := a\<rparr>)"
| main: "te_main_pass E cfg st = Some st' \<Longrightarrow> te_step E cfg st st'"
| pull: "pullCoverageFromLM E st = Some st' \<Longrightarrow> te_step E cfg st st'"
| collect: "te_step E cfg st (st\<lparr>te_agent := gc_worker_pass E (te_agent st)\<rparr>)"

inductive te_start :: "te \<Rightarrow> bool" where
  "te_start \<lparr>m_testOutcomeQueue = [], m_blockCoverageCache = [],
     m_currentTestcaseEvaluationSendTimeout = timeoutFileTransferMessage, te_gotConfig = False,
     te_hasEvaluator = False, te_agent = a\<rparr>"

section \<open>The cache\<close>

lemma check_blocks_result:
  "check_blocks bs new cache = (new', cache') \<Longrightarrow>
     (new' \<longleftrightarrow> new \<or> \<not> set bs \<subseteq> set cache) \<and> set cache' = set cache \<union> set bs \<and>
     (oset_by (\<lambda>b. b) cache \<longrightarrow> oset_by (\<lambda>b. b) cache')"
proof (induction bs arbitrary: new cache)
  case (Cons b bs)
  let ?c = "if b \<in> set cache then cache else set_insert (\<lambda>b. b) b cache"
  have i: "isBlockInCacheAndAddItIfNot b cache = (b \<in> set cache, ?c)"
    by (simp add: isBlockInCacheAndAddItIfNot_def isBlockInCache_def)
  have c: "set ?c = insert b (set cache)" "oset_by (\<lambda>b. b) cache \<Longrightarrow> oset_by (\<lambda>b. b) ?c"
    by (auto simp: oset)
  from Cons.prems i have "check_blocks bs (new \<or> b \<notin> set cache) ?c = (new', cache')" by simp
  from Cons.IH [OF this] c show ?case by auto
qed simp

lemma addBlocksToCache_set:
  "set (addBlocksToCache bs cache) = set cache \<union> set bs"
  "oset_by (\<lambda>b. b) cache \<Longrightarrow> oset_by (\<lambda>b. b) (addBlocksToCache bs cache)"
  by (auto simp: addBlocksToCache_def fold_set_insert_set fold_set_insert_oset)

section \<open>The evaluation\<close>

lemma evaluation_request_result:
  assumes "evaluation_request E cfg tod st = (req, st')"
  shows "pte_id req = Some (tid_getProtobuf (tod_id tod))"
    and "pte_parentId req = Some (tid_getProtobuf (tod_parentId tod))"
    and "pte_eval req = test_evaluation tod (\<not> set (m_blocks (tod_testResult tod)) \<subseteq> set (m_blockCoverageCache st))"
    and "set (m_blockCoverageCache st') = set (m_blockCoverageCache st) \<union> set (m_blocks (tod_testResult tod))"
    and "oset_by (\<lambda>b. b) (m_blockCoverageCache st) \<Longrightarrow> oset_by (\<lambda>b. b) (m_blockCoverageCache st')"
    and "m_testOutcomeQueue st' = m_testOutcomeQueue st" and "te_gotConfig st' = te_gotConfig st"
    and "te_hasEvaluator st' = te_hasEvaluator st"
    and "m_currentTestcaseEvaluationSendTimeout st' = m_currentTestcaseEvaluationSendTimeout st"
    and "m_lmServiceDescriptor (te_agent st') = m_lmServiceDescriptor (te_agent st)"
    and "sockets_idle (te_agent st') = sockets_idle (te_agent st)" and "tick (te_agent st') = tick (te_agent st)"
proof -
  obtain new cache where c: "check_blocks (m_blocks (tod_testResult tod)) False (m_blockCoverageCache st) = (new, cache)"
    by fastforce
  note r = check_blocks_result [OF c]
  show "pte_eval req = test_evaluation tod (\<not> set (m_blocks (tod_testResult tod)) \<subseteq> set (m_blockCoverageCache st))"
    using assms c r by (auto simp: evaluation_request_def Let_def split_beta split: if_splits)
  have "m_blockCoverageCache st' = cache"
    using assms c by (auto simp: evaluation_request_def Let_def split_beta split: if_splits)
  then show "set (m_blockCoverageCache st') = set (m_blockCoverageCache st) \<union> set (m_blocks (tod_testResult tod))"
    and "oset_by (\<lambda>b. b) (m_blockCoverageCache st) \<Longrightarrow> oset_by (\<lambda>b. b) (m_blockCoverageCache st')"
    using r by simp_all
qed (use assms in \<open>auto simp: evaluation_request_def Let_def split_beta markFileForDelete_def sockets_idle_def
    split: if_splits\<close>)

lemma te_ask_result:
  assumes "te_ask E req tmo st = Some (r, st')"
  shows "st' = st\<lparr>te_agent := te_agent st'\<rparr>"
    and "r = Some m \<Longrightarrow> env_net E (Suc (tick (te_agent st)))
      (m_serviceHostAndPort (m_lmServiceDescriptor (te_agent st))) req = Reply m"
    and "r = None \<Longrightarrow> env_net E (Suc (tick (te_agent st)))
      (m_serviceHostAndPort (m_lmServiceDescriptor (te_agent st))) req \<in> {SendTimeout, RecvTimeout}"
    and "sockets_idle (te_agent st) \<Longrightarrow> sockets_idle (te_agent st')"
proof -
  from assms obtain a where s: "sendReqAndRecvResp E req
      (m_serviceHostAndPort (m_lmServiceDescriptor (te_agent st))) tmo (te_agent st) = Some (r, a)"
    and st': "st' = st\<lparr>te_agent := a\<rparr>" by (auto simp: te_ask_def bind_eq_Some_conv)
  show "st' = st\<lparr>te_agent := te_agent st'\<rparr>" using st' by simp
  show "sockets_idle (te_agent st')" if "sockets_idle (te_agent st)"
    using st' sendReqAndRecvResp_idle [OF s that] by simp
  from s show "r = Some m \<Longrightarrow> env_net E (Suc (tick (te_agent st)))
      (m_serviceHostAndPort (m_lmServiceDescriptor (te_agent st))) req = Reply m"
    and "r = None \<Longrightarrow> env_net E (Suc (tick (te_agent st)))
      (m_serviceHostAndPort (m_lmServiceDescriptor (te_agent st))) req \<in> {SendTimeout, RecvTimeout}"
    by (cases rule: sendReqAndRecvResp_cases; auto)+
qed

lemma te_ask_returns:
  assumes "\<forall>k hap req. env_net E k hap req \<notin> {SendError, RecvError}" and "sockets_idle (te_agent st)"
  obtains r st' where "te_ask E req tmo st = Some (r, st')" and "sockets_idle (te_agent st')"
proof -
  from sendReqAndRecvResp_returns [OF assms(2), of E "m_serviceHostAndPort (m_lmServiceDescriptor (te_agent st))"
      req tmo] assms(1) obtain r a where "sendReqAndRecvResp E req
      (m_serviceHostAndPort (m_lmServiceDescriptor (te_agent st))) tmo (te_agent st) = Some (r, a)" by blast
  then have "te_ask E req tmo st = Some (r, st\<lparr>te_agent := a\<rparr>)" by (simp add: te_ask_def)
  then show ?thesis using that te_ask_result(4) assms(2) by blast
qed

lemma process_returns:
  assumes "\<forall>k hap req. env_net E k hap req \<notin> {SendError, RecvError}" and "sockets_idle (te_agent st)"
  shows "\<exists>st'. processTestOutcomeDescriptor E cfg tod st = Some st' \<and> sockets_idle (te_agent st')"
proof -
  obtain req st1 where e: "evaluation_request E cfg tod st = (req, st1)" by fastforce
  have "sockets_idle (te_agent st1)" using evaluation_request_result(11) [OF e] assms(2) by simp
  from te_ask_returns [OF assms(1) this] obtain r st2 where
    "te_ask E (PutTestEvaluationRequest req) (m_currentTestcaseEvaluationSendTimeout st1) st1 = Some (r, st2)"
    "sockets_idle (te_agent st2)" by blast
  then show ?thesis by (simp add: processTestOutcomeDescriptor_def e)
qed

section \<open>The invariant\<close>

text \<open>
  The cache is an ordered set, a configured evaluator process has its evaluator, and the send time-out
  never falls below the one for file transfers, from which it differs by a multiple of a second.
\<close>

definition te_inv :: "te \<Rightarrow> bool" where
  "te_inv st \<longleftrightarrow> oset_by (\<lambda>b. b) (m_blockCoverageCache st) \<and> (te_gotConfig st \<longrightarrow> te_hasEvaluator st) \<and>
     timeoutFileTransferMessage \<le> m_currentTestcaseEvaluationSendTimeout st \<and>
     1000 dvd m_currentTestcaseEvaluationSendTimeout st"

text \<open>What every step does: blocks stay in the cache, and the invariant holds after it.\<close>

definition te_grows :: "te \<Rightarrow> te \<Rightarrow> bool" where
  "te_grows st st' \<longleftrightarrow> set (m_blockCoverageCache st) \<subseteq> set (m_blockCoverageCache st') \<and> (te_inv st \<longrightarrow> te_inv st')"

lemma te_grows_refl [simp]: "te_grows st st"
  by (simp add: te_grows_def)

lemma te_grows_trans: "te_grows st st1 \<Longrightarrow> te_grows st1 st2 \<Longrightarrow> te_grows st st2"
  by (auto simp: te_grows_def)

lemma te_grows_agent:
  assumes "st' = st\<lparr>te_agent := te_agent st'\<rparr>" shows "te_grows st st'"
  by (subst assms) (simp add: te_grows_def te_inv_def)

lemma update_timeout_bounds:
  "timeoutFileTransferMessage \<le> t \<Longrightarrow> timeoutFileTransferMessage \<le> updateTestcaseEvaluationSendTimeout ok eval x t"
  "1000 dvd t \<Longrightarrow> 1000 dvd updateTestcaseEvaluationSendTimeout ok eval x t"
  by (auto simp: updateTestcaseEvaluationSendTimeout_def intro: dvd_diff dvd_add)

lemma process_result:
  assumes "processTestOutcomeDescriptor E cfg tod st = Some st'"
  shows "te_grows st st'" and "set (m_blocks (tod_testResult tod)) \<subseteq> set (m_blockCoverageCache st')"
    and "m_testOutcomeQueue st' = m_testOutcomeQueue st"
proof -
  obtain req st1 where e: "evaluation_request E cfg tod st = (req, st1)" by fastforce
  from assms e obtain r st2 where a: "te_ask E (PutTestEvaluationRequest req)
      (m_currentTestcaseEvaluationSendTimeout st1) st1 = Some (r, st2)"
    and st': "st' = st2\<lparr>m_currentTestcaseEvaluationSendTimeout := updateTestcaseEvaluationSendTimeout (r \<noteq> None)
      (pte_eval req) (m_exitType (tod_testResult tod)) (m_currentTestcaseEvaluationSendTimeout st2)\<rparr>"
    by (auto simp: processTestOutcomeDescriptor_def bind_eq_Some_conv)
  note er = evaluation_request_result [OF e]
  have f: "m_blockCoverageCache st2 = m_blockCoverageCache st1" "te_gotConfig st2 = te_gotConfig st1"
    "te_hasEvaluator st2 = te_hasEvaluator st1" "m_testOutcomeQueue st2 = m_testOutcomeQueue st1"
    "m_currentTestcaseEvaluationSendTimeout st2 = m_currentTestcaseEvaluationSendTimeout st1"
    by (subst te_ask_result(1) [OF a], simp)+
  show "te_grows st st'"
    using er update_timeout_bounds unfolding te_grows_def te_inv_def st' by (simp add: f)
  show "set (m_blocks (tod_testResult tod)) \<subseteq> set (m_blockCoverageCache st')" using er f(1) by (simp add: st')
  show "m_testOutcomeQueue st' = m_testOutcomeQueue st" using er f by (simp add: st')
qed

lemma te_main_pass_grows:
  assumes "te_main_pass E cfg st = Some st'" shows "te_grows st st'"
proof -
  from assms obtain got st1 where c: "(if te_gotConfig st then Some (True, st) else te_tryGetConfigFromLM E cfg st) =
      Some (got, st1)" by (auto simp: te_main_pass_def bind_eq_Some_conv)
  have g1: "te_grows st (st1\<lparr>te_gotConfig := got\<rparr>)"
  proof (cases "te_gotConfig st")
    case True
    then show ?thesis using c by (auto simp: te_grows_def te_inv_def)
  next
    case False
    then obtain r st2 where a: "te_ask E (te_config_request cfg) timeoutNormalMessage st = Some (r, st2)"
      using c by (auto simp: te_tryGetConfigFromLM_def bind_eq_Some_conv)
    have "\<not> got \<and> st1 = st2 \<or> got \<and> st1 = st2\<lparr>te_hasEvaluator := True\<rparr>"
      using False c a by (auto simp: te_tryGetConfigFromLM_def split: option.splits if_splits)
    moreover have "te_grows st (st2\<lparr>te_gotConfig := False\<rparr>)"
      "te_grows st (st2\<lparr>te_hasEvaluator := True, te_gotConfig := True\<rparr>)"
      by (subst te_ask_result(1) [OF a], simp add: te_grows_def te_inv_def)+
    ultimately show ?thesis by auto
  qed
  let ?st = "st1\<lparr>te_gotConfig := got\<rparr>"
  obtain tod q where p: "popTestOutcomeForEvaluation (m_testOutcomeQueue ?st) = (tod, q)" by fastforce
  have "te_grows ?st st'"
  proof (cases "got \<and> tod \<noteq> None")
    case False
    then have "st' = ?st" using assms c p by (cases got) (simp_all add: te_main_pass_def)
    then show ?thesis by simp
  next
    case True
    then obtain t where t: "tod = Some t" by auto
    then have "processTestOutcomeDescriptor E cfg t (?st\<lparr>m_testOutcomeQueue := q\<rparr>) = Some st'"
      using assms c p True by (simp add: te_main_pass_def split: if_splits)
    from process_result(1) [OF this] show ?thesis by (simp add: te_grows_def te_inv_def)
  qed
  with g1 show ?thesis by (rule te_grows_trans)
qed

lemma te_step_grows:
  assumes "te_step E cfg st st'" shows "te_grows st st'"
  using assms
proof (cases rule: te_step.cases)
  case (put_result m resp)
  then show ?thesis
    by (auto simp: PutTestResultRequestHandler_def Let_def bind_eq_Some_conv te_grows_def te_inv_def split: if_splits)
next
  case (get_chunk m resp a)
  then show ?thesis by (simp add: te_grows_def te_inv_def)
next
  case main
  then show ?thesis by (rule te_main_pass_grows)
next
  case pull
  then obtain r st1 where a: "te_ask E GetCurrentBlockCoverageRequest timeoutNormalMessage st = Some (r, st1)"
    by (auto simp: pullCoverageFromLM_def bind_eq_Some_conv)
  have "te_grows st1 st'"
    using pull a addBlocksToCache_set
    by (auto simp: pullCoverageFromLM_def te_grows_def te_inv_def Let_def split: option.splits)
  then show ?thesis by (rule te_grows_trans [OF te_grows_agent [OF te_ask_result(1) [OF a]]])
next
  case collect
  then show ?thesis by (simp add: te_grows_def te_inv_def)
qed

lemma te_run_cache:
  assumes "(te_step E cfg)\<^sup>*\<^sup>* st st'"
  shows "set (m_blockCoverageCache st) \<subseteq> set (m_blockCoverageCache st')"
  using assms by (induction rule: rtranclp_induct) (auto dest!: te_step_grows simp: te_grows_def subset_iff)

interpretation te_system: invariant_system te_start "te_step E cfg" te_inv for E cfg
proof
  show "te_start s \<Longrightarrow> te_inv s" for s
    by (auto simp: te_inv_def timeoutFileTransferMessage_def timeoutNormalMessage_def elim!: te_start.cases)
  show "te_inv s \<Longrightarrow> te_step E cfg s s' \<Longrightarrow> te_inv s'" for s s'
    using te_step_grows by (auto simp: te_grows_def)
qed

end
