(* ===== verification/TEProps.thy ===== *)
theory TEProps
  imports TEEval LMProps
begin

text \<open>
  The properties of the evaluator, alone and together with the local manager, and a concrete evaluator
  for the witnesses.
\<close>

lemma small_module_ucast: "m < 256 \<Longrightarrow> (ucast (ucast (m :: 32 word) :: 8 word) :: 32 word) = m"
  by (rule word_uint_eqI)
    (simp add: unsigned_ucast_eq unsigned_take_bit_eq take_bit_int_eq_self_iff word_less_def)

definition wit_outcome :: outcome where
  "wit_outcome = \<lparr>tod_id = wit_tid, tod_parentId = mkTestcaseID (mkServiceDescriptor ''h:1'' ''g'') 1,
     tod_testResult = \<lparr>m_exitType = CleanExit, m_blocks = [FluffiBasicBlock 16 1, FluffiBasicBlock 16 1],
       m_crashFootprint = '''', m_hasFullCoverage = True\<rparr>\<rparr>"

definition wit_te :: te where
  "wit_te = \<lparr>m_testOutcomeQueue = [], m_blockCoverageCache = [],
     m_currentTestcaseEvaluationSendTimeout = timeoutFileTransferMessage, te_gotConfig = False,
     te_hasEvaluator = False, te_agent = fresh_agent\<lparr>files := [''e/g-7'' \<mapsto> ''abc'']\<rparr>\<rparr>"

definition wit_tecfg :: te_config where
  "wit_tecfg = \<lparr>te_self = mkServiceDescriptor ''h:3'' ''e'', te_testcaseDir = ''e'',
     te_agentSubTypes = [''CoverageEvaluator''], m_intervallBetweenTwoPullingRoundsInMillisec = 60000\<rparr>"

text \<open>
  C17: In every state the evaluator can reach, the cache is an ordered set of blocks, a configured process
  has its evaluator, and the time-out for sending evaluations is a multiple of a second that never falls
  below the time-out of file transfers.
\<close>

theorem evaluator_reachable_inv:
  assumes "reachable te_start (te_step E cfg) st" shows "te_inv st"
  using assms by (rule te_system.reachable_inv)

text \<open>The local manager answers the pull with two blocks in descending order.\<close>

definition wit_teE :: env where
  "wit_teE = quiet_env\<lparr>env_net := \<lambda>k hap m. (case m of
     GetCurrentBlockCoverageRequest \<Rightarrow> Reply (GetCurrentBlockCoverageResponse
       [\<lparr>bb_RVA = 16, bb_moduleID = 1\<rparr>, \<lparr>bb_RVA = 8, bb_moduleID = 1\<rparr>])
   | _ \<Rightarrow> RecvTimeout)\<rparr>"

lemma wit_pull: "map_option m_blockCoverageCache (pullCoverageFromLM wit_teE wit_te) =
    Some [FluffiBasicBlock 8 1, FluffiBasicBlock 16 1]"
  by code_simp

theorem evaluator_reachable_inv_witness:
  "\<exists>st :: te. m_blockCoverageCache st = [FluffiBasicBlock 8 1, FluffiBasicBlock 16 1] \<and> te_inv st"
proof -
  from wit_pull obtain st where p: "pullCoverageFromLM wit_teE wit_te = Some st"
    and c: "m_blockCoverageCache st = [FluffiBasicBlock 8 1, FluffiBasicBlock 16 1]" by auto
  have "reachable te_start (te_step wit_teE wit_tecfg) wit_te"
    by (rule reachable.at_start) (simp add: wit_te_def te_start.intros)
  then have "reachable te_start (te_step wit_teE wit_tecfg) st"
    by (rule reachable.by_step) (rule te_step.pull [OF p])
  from evaluator_reachable_inv [OF this] c show ?thesis by blast
qed





text \<open>
  A runner is told success exactly when an outcome for its testcase is in the queue of the evaluator
  afterwards, also when storing the file fails; no other outcome is lost.
\<close>

theorem accepted_iff_queued:
  assumes "PutTestResultRequestHandler E cfg (PutTestResultRequest r) st = Some (resp, st')"
  shows "resp = PutTestResultResponse (\<exists>t \<in> set (m_testOutcomeQueue st').
      tid_key (tod_id t) = tid_key (tod_id (received_outcome r))) \<and>
    (m_testOutcomeQueue st' = m_testOutcomeQueue st \<or>
     m_testOutcomeQueue st' = m_testOutcomeQueue st @ [received_outcome r])"
  using assms
  by (auto simp: PutTestResultRequestHandler_def puttestresultrequest_def Let_def bind_eq_Some_conv
      pushNewTestOutcomeFromTCRunner_def isThereAlreadyAToDFor_def list_ex_iff tid_eq_key split: if_splits)

definition wit_put :: PutTestResultRequest_t where
  "wit_put = \<lparr>ptr_id = Some (tid_getProtobuf wit_tid), ptr_parentId = None, ptr_result = None,
     ptr_testCaseFirstChunk = ''abc'', ptr_isLastChunk = True, ptr_sdOfRunner = None\<rparr>"

text \<open>The file is there already and not marked for deletion, so it is not stored.\<close>

theorem accepted_iff_queued_witness:
  "\<exists>st'. PutTestResultRequestHandler quiet_env wit_tecfg (PutTestResultRequest wit_put) wit_te =
    Some (PutTestResultResponse False, st') \<and> m_testOutcomeQueue st' = []"
proof -
  have "map_option (\<lambda>(r, st). m_testOutcomeQueue st)
      (PutTestResultRequestHandler quiet_env wit_tecfg (PutTestResultRequest wit_put) wit_te) = Some []"
    by code_simp
  then obtain r st' where h: "PutTestResultRequestHandler quiet_env wit_tecfg (PutTestResultRequest wit_put) wit_te =
      Some (r, st')" and q: "m_testOutcomeQueue st' = []" by auto
  from accepted_iff_queued [OF h] q h show ?thesis by simp
qed

text \<open>
  After a pull that the local manager answers, every clean run of a generated testcase whose blocks
  the manager has stored, of modules that its table can tell apart, is discarded from then on.
\<close>

theorem pulled_coverage_is_discarded:
  assumes "pullCoverageFromLM E st = Some st1"
    and "env_net E (Suc (tick (te_agent st))) (m_serviceHostAndPort (m_lmServiceDescriptor (te_agent st)))
      GetCurrentBlockCoverageRequest =
      Reply (fst (GetCurrentBlockCoverageRequestHandler D GetCurrentBlockCoverageRequest lm))"
    and "db_ok D (stmt_no (lm_db lm))" and "(te_step E cfg)\<^sup>*\<^sup>* st1 st2"
    and "stored_block ` set (m_blocks (tod_testResult tod)) \<subseteq>
      (\<lambda>b. (cb_ModuleID b, cb_Offset b)) ` set (covered_blocks (lm_db lm))"
    and "\<forall>b \<in> set (m_blocks (tod_testResult tod)). m_moduleID b < 256"
    and "m_exitType (tod_testResult tod) = CleanExit"
    and "m_guid (m_serviceDescriptor (tod_parentId tod)) \<noteq> ''special''"
  shows "pte_eval (fst (evaluation_request E cfg tod st2)) = Discard"
proof -
  let ?m = "fst (GetCurrentBlockCoverageRequestHandler D GetCurrentBlockCoverageRequest lm)"
  from assms(1) obtain r st0 where a: "te_ask E GetCurrentBlockCoverageRequest timeoutNormalMessage st = Some (r, st0)"
    by (auto simp: pullCoverageFromLM_def bind_eq_Some_conv)
  have r: "r = Some ?m"
    using te_ask_result(2,3) [OF a] assms(2) by (cases r) auto
  have bs: "set (getcurrentblockcoverageresponse ?m) =
      (\<lambda>b. \<lparr>bb_RVA = cb_Offset b, bb_moduleID = ucast (cb_ModuleID b)\<rparr>) ` set (covered_blocks (lm_db lm))"
    using assms(3) by (simp add: GetCurrentBlockCoverageRequestHandler_def lift_db_def Let_def split_beta
        generateGetCurrentBlockCoverageResponse_def query_def getcurrentblockcoverageresponse_def image_image)
  have st1: "block_of_proto ` set (getcurrentblockcoverageresponse ?m) \<subseteq> set (m_blockCoverageCache st1)"
    using assms(1) a r addBlocksToCache_set(1) by (auto simp: pullCoverageFromLM_def Let_def set_of_list_set)
  have "b \<in> set (m_blockCoverageCache st1)" if b: "b \<in> set (m_blocks (tod_testResult tod))" for b
  proof -
    obtain c where c: "c \<in> set (covered_blocks (lm_db lm))" "stored_block b = (cb_ModuleID c, cb_Offset c)"
      using assms(5) b by blast
    have "(ucast (ucast (m_moduleID b) :: 8 word) :: 32 word) = m_moduleID b"
      using assms(6) b by (intro small_module_ucast) blast
    then have "b = block_of_proto \<lparr>bb_RVA = cb_Offset c, bb_moduleID = ucast (cb_ModuleID c)\<rparr>"
      using c(2) by (cases b) (auto simp: stored_block_def block_of_proto_def)
    then show ?thesis using st1 bs c(1) by blast
  qed
  then have "set (m_blocks (tod_testResult tod)) \<subseteq> set (m_blockCoverageCache st2)"
    using te_run_cache [OF assms(4)] by blast
  then show ?thesis
    using evaluation_request_result(3) [OF surjective_pairing, of E cfg tod st2] assms(7,8)
    by (simp add: test_evaluation_def)
qed

theorem pulled_coverage_is_discarded_witness:
  "\<exists>E st1. pullCoverageFromLM E wit_te = Some st1 \<and>
    pte_eval (fst (evaluation_request E wit_tecfg wit_outcome st1)) = Discard"
proof -
  let ?lm = "wit_lm\<lparr>lm_db := (lm_db wit_lm)\<lparr>covered_blocks := [\<lparr>cb_ID = 1, cb_CreatorTestcaseID = 1,
    cb_ModuleID = 1, cb_Offset = 16, cb_TimeOfInsertion = 0\<rparr>]\<rparr>\<rparr>"
  let ?E = "quiet_env\<lparr>env_net := \<lambda>k hap m. Reply (fst (GetCurrentBlockCoverageRequestHandler wit_D m ?lm))\<rparr>"
  have idle: "sockets_idle (te_agent wit_te)" by (simp add: wit_te_def fresh_agent_def sockets_idle_def)
  have "\<forall>k hap req. env_net ?E k hap req \<notin> {SendError, RecvError}" by simp
  from te_ask_returns [OF this idle]
  obtain r st where "te_ask ?E GetCurrentBlockCoverageRequest timeoutNormalMessage wit_te = Some (r, st)" by blast
  then obtain st1 where p: "pullCoverageFromLM ?E wit_te = Some st1" by (auto simp: pullCoverageFromLM_def)
  have "pte_eval (fst (evaluation_request ?E wit_tecfg wit_outcome st1)) = Discard"
    by (rule pulled_coverage_is_discarded [OF p, where D = wit_D and lm = ?lm])
      (simp_all add: wit_outcome_def stored_block_def mkTestcaseID_def mkServiceDescriptor_def)
  with p show ?thesis by blast
qed



end
