(* ===== verification/GMDatabase.thy ===== *)
theory GMDatabase
  imports LMTables
begin

text \<open>
  The tables of the global manager's database (\<open>createGMDB.sql\<close>) and its database manager
  (\<open>GMDatabaseManager.cpp\<close>): one definition per method, with the statement it runs and the value it
  returns on each outcome. Jobs, locations and the commands are created in the web interface, the
  manager reads them; a nullable text column reads as the empty string.
\<close>

section \<open>Rows and tables\<close>

record cq_row =
  cq_ID :: nat
  cq_Command :: string
  cq_Argument :: string
  cq_CreationDate :: int
  cq_Done :: bool
  cq_Error :: string

record fj_row =
  fj_ID :: nat
  fj_name :: string
  fj_DBHost :: string
  fj_DBUser :: string
  fj_DBPass :: string
  fj_DBName :: string

record wk_row =
  wk_GUID :: string
  wk_HAP :: string
  wk_FuzzJob :: "nat option"
  wk_Location :: nat
  wk_TimeOfLastRequest :: int
  wk_AgentType :: AgentType
  wk_AgentSubTypes :: string

record gl_row =
  gl_GUID :: string
  gl_HAP :: string
  gl_Location :: nat
  gl_FuzzJob :: nat

record gmdb = server +
  command_queue :: "cq_row list"
  fuzzjob :: "fj_row list"
  locations :: "(nat \<times> string) list"
  location_fuzzjobs :: "(nat \<times> nat) list"
  workers :: "wk_row list"
  localmanagers :: "gl_row list"
  localmanagers_statuses :: "ms_row list"
  next_ls :: nat
  localmanagers_logmessages :: "ml_row list"
  next_ll :: nat

abbreviation gl_job :: "gl_row \<Rightarrow> nat \<times> nat" where
  "gl_job l \<equiv> (gl_Location l, gl_FuzzJob l)"

text \<open>\<open>(SELECT locations.ID FROM locations WHERE locations.Name = ?)\<close>; \<open>None\<close> is \<open>NULL\<close>.\<close>

definition location_id :: "string \<Rightarrow> gmdb \<Rightarrow> nat option" where
  "location_id name s = map_option fst (find (\<lambda>l. snd l = name) (locations s))"

section \<open>Agents\<close>

definition getLMServiceDescriptorForWorker ::
    "dbenv \<Rightarrow> FluffiServiceDescriptor \<Rightarrow> gmdb \<Rightarrow> FluffiServiceDescriptor \<times> gmdb" where
  "getLMServiceDescriptorForWorker D fsd s =
     (let (rows, s) = query D (\<lambda>s. [l. w \<leftarrow> workers s, l \<leftarrow> localmanagers s,
            wk_GUID w = m_guid fsd \<and> wk_Location w = gl_Location l \<and> wk_FuzzJob w = Some (gl_FuzzJob l)]) s
      in (case rows of Some [l] \<Rightarrow> mkServiceDescriptor (gl_HAP l) (gl_GUID l) | _ \<Rightarrow> sd_getNullObject, s))"

definition removeWorkerFromDatabase :: "dbenv \<Rightarrow> FluffiServiceDescriptor \<Rightarrow> gmdb \<Rightarrow> bool \<times> gmdb" where
  "removeWorkerFromDatabase D fsd s =
     exec_stmt D (\<lambda>_ s. Some (s\<lparr>workers := filter (\<lambda>w. wk_GUID w \<noteq> m_guid fsd) (workers s)\<rparr>)) s"

text \<open>\<open>REPLACE\<close> of the row of a GUID; a location without a row is \<open>NULL\<close> in a \<open>NOT NULL\<close> column.\<close>

definition replace_worker :: "wk_row \<Rightarrow> gmdb \<Rightarrow> gmdb" where
  "replace_worker w s = s\<lparr>workers := filter (\<lambda>v. wk_GUID v \<noteq> wk_GUID w) (workers s) @ [w]\<rparr>"

definition addWorkerToDatabase ::
    "dbenv \<Rightarrow> FluffiServiceDescriptor \<Rightarrow> AgentType \<Rightarrow> string \<Rightarrow> string \<Rightarrow> gmdb \<Rightarrow> bool \<times> gmdb" where
  "addWorkerToDatabase D fsd type subtypes location s =
     exec_stmt D (\<lambda>now s. map_option (\<lambda>l. replace_worker
         \<lparr>wk_GUID = m_guid fsd, wk_HAP = m_serviceHostAndPort fsd, wk_FuzzJob = None, wk_Location = l,
          wk_TimeOfLastRequest = now, wk_AgentType = type, wk_AgentSubTypes = subtypes\<rparr> s)
       (location_id location s)) s"

definition deleteWorkersNotSeenSinceXSec :: "dbenv \<Rightarrow> int \<Rightarrow> gmdb \<Rightarrow> bool \<times> gmdb" where
  "deleteWorkersNotSeenSinceXSec D secs s =
     exec_stmt D (\<lambda>now s. Some (s\<lparr>workers :=
       filter (\<lambda>w. \<not> older_than now secs (wk_TimeOfLastRequest w)) (workers s)\<rparr>)) s"

section \<open>Local managers\<close>

text \<open>\<open>None\<close> is an exception: a failed query, no job of the number, or more than one.\<close>

definition getLMConfigurationForFuzzJob :: "dbenv \<Rightarrow> int \<Rightarrow> gmdb \<Rightarrow> FluffiLMConfiguration option \<times> gmdb" where
  "getLMConfigurationForFuzzJob D fuzzJob s =
     (let (rows, s) = query D (\<lambda>s. filter (\<lambda>f. int (fj_ID f) = fuzzJob) (fuzzjob s)) s
      in (case rows of Some [f] \<Rightarrow> Some \<lparr>m_dbHost = fj_DBHost f, m_dbUser = fj_DBUser f,
             m_dbPassword = fj_DBPass f, m_dbName = fj_DBName f, m_fuzzJobName = fj_name f\<rparr>
           | _ \<Rightarrow> None, s))"

text \<open>
  The insertion fails on a second row of a GUID or of a job at a location, and on a job that is not
  assigned to the location; the code then throws (\<open>False\<close>).
\<close>

definition insert_lm :: "gl_row \<Rightarrow> gmdb \<Rightarrow> gmdb option" where
  "insert_lm l s =
     (if gl_GUID l \<in> gl_GUID ` set (localmanagers s) \<or> gl_job l \<in> gl_job ` set (localmanagers s) \<or>
         gl_job l \<notin> set (location_fuzzjobs s)
      then None else Some (s\<lparr>localmanagers := localmanagers s @ [l]\<rparr>))"

definition setLMForLocationAndFuzzJob ::
    "dbenv \<Rightarrow> string \<Rightarrow> FluffiServiceDescriptor \<Rightarrow> int \<Rightarrow> gmdb \<Rightarrow> bool \<times> gmdb" where
  "setLMForLocationAndFuzzJob D location lmServiceDescriptor fuzzJob s =
     exec_stmt D (\<lambda>_ s. Option.bind (location_id location s) (\<lambda>l.
       insert_lm \<lparr>gl_GUID = m_guid lmServiceDescriptor, gl_HAP = m_serviceHostAndPort lmServiceDescriptor,
         gl_Location = l, gl_FuzzJob = nat fuzzJob\<rparr> s)) s"

definition getAllRegisteredLMs :: "dbenv \<Rightarrow> gmdb \<Rightarrow> (string \<times> string) list \<times> gmdb" where
  "getAllRegisteredLMs D s =
     (let (rows, s) = query D (\<lambda>s. map (\<lambda>l. (gl_GUID l, gl_HAP l)) (localmanagers s)) s
      in (opt_or [] rows, s))"

definition removeManagedLM :: "dbenv \<Rightarrow> string \<Rightarrow> gmdb \<Rightarrow> bool \<times> gmdb" where
  "removeManagedLM D guid s =
     exec_stmt D (\<lambda>_ s. Some (s\<lparr>localmanagers := filter (\<lambda>l. gl_GUID l \<noteq> guid) (localmanagers s)\<rparr>)) s"

text \<open>The jobs of a location that no local manager there has, \<open>LIMIT 1\<close> of them without an order.\<close>

definition vacant_jobs :: "string \<Rightarrow> gmdb \<Rightarrow> nat list" where
  "vacant_jobs location s =
     map snd (filter (\<lambda>(l, f). (l, location) \<in> set (locations s) \<and> (l, f) \<notin> gl_job ` set (localmanagers s))
       (location_fuzzjobs s))"

definition getFuzzJobWithoutLM :: "dbenv \<Rightarrow> string \<Rightarrow> gmdb \<Rightarrow> int \<times> gmdb" where
  "getFuzzJobWithoutLM D location s =
     (let (rows, s) = query D (\<lambda>s. db_order D (stmt_no s) (vacant_jobs location s)) s
      in (case rows of Some (f # _) \<Rightarrow> int f | _ \<Rightarrow> -1, s))"

section \<open>Status and log messages\<close>

definition addNewManagedLMStatus :: "dbenv \<Rightarrow> string \<Rightarrow> string \<Rightarrow> gmdb \<Rightarrow> bool \<times> gmdb" where
  "addNewManagedLMStatus D guid newStatus s =
     exec_stmt D (\<lambda>now s. Some (s\<lparr>localmanagers_statuses := localmanagers_statuses s @
         [\<lparr>ms_ID = next_ls s, ms_GUID = guid, ms_TimeOfStatus = now, ms_Status = newStatus\<rparr>],
       next_ls := Suc (next_ls s)\<rparr>)) s"

definition deleteManagedLMStatusOlderThanXSec :: "dbenv \<Rightarrow> int \<Rightarrow> gmdb \<Rightarrow> bool \<times> gmdb" where
  "deleteManagedLMStatusOlderThanXSec D secs s =
     exec_stmt D (\<lambda>now s. Some (s\<lparr>localmanagers_statuses :=
       filter (\<lambda>r. \<not> older_than now secs (ms_TimeOfStatus r)) (localmanagers_statuses s)\<rparr>)) s"

definition insert_lm_logmessage :: "string \<Rightarrow> int \<Rightarrow> string \<Rightarrow> gmdb \<Rightarrow> gmdb" where
  "insert_lm_logmessage guid now msg s =
     s\<lparr>localmanagers_logmessages := localmanagers_logmessages s @
         [\<lparr>ml_ID = next_ll s, ml_GUID = guid, ml_TimeOfInsertion = now, ml_LogMessage = msg\<rparr>],
       next_ll := Suc (next_ll s)\<rparr>"

definition addNewManagedLMLogMessages :: "dbenv \<Rightarrow> string \<Rightarrow> string list \<Rightarrow> gmdb \<Rightarrow> bool \<times> gmdb" where
  "addNewManagedLMLogMessages D guid messages s =
     (let maxGUIDLength = 50; maxLogMessageLength = 1990 in
      if length guid \<ge> maxGUIDLength then (False, s)
      else if list_ex (\<lambda>m. length m \<ge> maxLogMessageLength) messages then (False, s)
      else if messages = [] then (True, s)
      else exec_stmt D (\<lambda>now s. Some (fold (insert_lm_logmessage guid now) messages s)) (set_isolation s))"

definition deleteManagedLMLogMessagesIfMoreThan :: "dbenv \<Rightarrow> int \<Rightarrow> gmdb \<Rightarrow> bool \<times> gmdb" where
  "deleteManagedLMLogMessagesIfMoreThan D num s =
     exec_stmt D (\<lambda>_ s.
       let ids = rev (sort (map ml_ID (localmanagers_logmessages s)));
           off = unat (word_of_int num :: 32 word)
       in Some (if off < length ids
                then s\<lparr>localmanagers_logmessages :=
                  filter (\<lambda>r. \<not> ml_ID r \<le> ids ! off) (localmanagers_logmessages s)\<rparr>
                else s)) s"

definition deleteManagedLMLogMessagesOlderThanXSec :: "dbenv \<Rightarrow> int \<Rightarrow> gmdb \<Rightarrow> bool \<times> gmdb" where
  "deleteManagedLMLogMessagesOlderThanXSec D secs s =
     exec_stmt D (\<lambda>now s. Some (s\<lparr>localmanagers_logmessages :=
       filter (\<lambda>r. \<not> older_than now secs (ml_TimeOfInsertion r)) (localmanagers_logmessages s)\<rparr>)) s"

section \<open>Commands\<close>

definition getNewCommands :: "dbenv \<Rightarrow> gmdb \<Rightarrow> (nat \<times> string \<times> string) list \<times> gmdb" where
  "getNewCommands D s =
     (let (rows, s) = query D (\<lambda>s. map (\<lambda>c. (cq_ID c, cq_Command c, cq_Argument c))
            (filter (\<lambda>c. \<not> cq_Done c) (command_queue s))) s
      in (opt_or [] rows, s))"

definition setCommandAsDone :: "dbenv \<Rightarrow> nat \<Rightarrow> string \<Rightarrow> gmdb \<Rightarrow> bool \<times> gmdb" where
  "setCommandAsDone D commandID errorMessage s =
     exec_stmt D (\<lambda>_ s. Some (s\<lparr>command_queue := map (\<lambda>c. if cq_ID c = commandID
         then c\<lparr>cq_Done := True, cq_Error := errorMessage\<rparr> else c) (command_queue s)\<rparr>)) s"

definition deleteDoneCommandsOlderThanXSec :: "dbenv \<Rightarrow> int \<Rightarrow> gmdb \<Rightarrow> bool \<times> gmdb" where
  "deleteDoneCommandsOlderThanXSec D secs s =
     exec_stmt D (\<lambda>now s. Some (s\<lparr>command_queue :=
       filter (\<lambda>c. \<not> (cq_Done c \<and> older_than now secs (cq_CreationDate c))) (command_queue s)\<rparr>)) s"

section \<open>What the schema guarantees\<close>

named_theorems gmwf \<open>methods keep the schema of the global manager\<close>

definition places_wf :: "gmdb \<Rightarrow> bool" where
  "places_wf s \<longleftrightarrow> distinct (map fj_ID (fuzzjob s)) \<and> distinct (map fst (locations s)) \<and>
     distinct (map snd (locations s)) \<and> distinct (location_fuzzjobs s) \<and>
     (\<forall>(l, f) \<in> set (location_fuzzjobs s). l \<in> fst ` set (locations s) \<and> f \<in> fj_ID ` set (fuzzjob s))"

definition workers_wf :: "gmdb \<Rightarrow> bool" where
  "workers_wf s \<longleftrightarrow> distinct (map wk_GUID (workers s)) \<and> wk_Location ` set (workers s) \<subseteq> fst ` set (locations s)"

definition localmanagers_wf :: "gmdb \<Rightarrow> bool" where
  "localmanagers_wf s \<longleftrightarrow> distinct (map gl_GUID (localmanagers s)) \<and> distinct (map gl_job (localmanagers s)) \<and>
     gl_job ` set (localmanagers s) \<subseteq> set (location_fuzzjobs s)"

definition gm_logs_wf :: "gmdb \<Rightarrow> bool" where
  "gm_logs_wf s \<longleftrightarrow> distinct (map cq_ID (command_queue s)) \<and>
     sorted_wrt (<) (map ml_ID (localmanagers_logmessages s)) \<and>
     (\<forall>r \<in> set (localmanagers_logmessages s). ml_ID r < next_ll s)"

definition gm_wf :: "gmdb \<Rightarrow> bool" where
  "gm_wf s \<longleftrightarrow> places_wf s \<and> workers_wf s \<and> localmanagers_wf s \<and> gm_logs_wf s"

lemmas gm_wf_defs = gm_wf_def places_wf_def workers_wf_def localmanagers_wf_def gm_logs_wf_def

lemma gm_wf_stmt_no [simp]: "gm_wf (s\<lparr>stmt_no := n\<rparr>) = gm_wf s"
  by (simp add: gm_wf_defs)

lemma exec_gm_wf:
  assumes "gm_wf s" and "\<And>now s'. f now s = Some s' \<Longrightarrow> gm_wf s'"
  shows "gm_wf (snd (exec_stmt D f s))"
  by (rule exec_stmt_inv [where I = gm_wf]) (use assms in auto)

lemma location_id_Some:
  assumes "location_id name s = Some l" shows "(l, name) \<in> set (locations s)"
proof -
  from assms obtain p where "find (\<lambda>l. snd l = name) (locations s) = Some p" and l: "fst p = l"
    by (auto simp: location_id_def)
  then obtain i where "i < length (locations s)" "snd p = name" "p = locations s ! i"
    by (auto simp: find_Some_iff)
  then show ?thesis using l by (metis nth_mem prod.collapse)
qed

lemma location_id_iff: "gm_wf s \<Longrightarrow> location_id name s = Some l \<longleftrightarrow> (l, name) \<in> set (locations s)"
proof
  assume wf: "gm_wf s" and l: "(l, name) \<in> set (locations s)"
  then obtain k where k: "location_id name s = Some k"
    by (cases "location_id name s") (auto simp: location_id_def find_None_iff)
  have "inj_on snd (set (locations s))" using wf by (simp add: gm_wf_defs distinct_map)
  with l location_id_Some [OF k] have "k = l" by (auto dest: inj_onD [of snd _ "(l, name)" "(k, name)"])
  with k show "location_id name s = Some l" by simp
qed (rule location_id_Some)

lemma remove_workers_wf: "gm_wf s \<Longrightarrow> gm_wf (s\<lparr>workers := filter P (workers s)\<rparr>)"
  by (auto simp: gm_wf_defs distinct_map_filter_key)

lemma replace_worker_wf: "gm_wf s \<Longrightarrow> wk_Location w \<in> fst ` set (locations s) \<Longrightarrow> gm_wf (replace_worker w s)"
  by (auto simp: gm_wf_defs replace_worker_def distinct_map_filter_key)

lemma insert_lm_wf:
  assumes "gm_wf s" and "insert_lm l s = Some s'" shows "gm_wf s'"
proof -
  from assms(2) have "s' = s\<lparr>localmanagers := localmanagers s @ [l]\<rparr>" "gl_GUID l \<notin> gl_GUID ` set (localmanagers s)"
    "gl_job l \<notin> gl_job ` set (localmanagers s)" "gl_job l \<in> set (location_fuzzjobs s)"
    by (simp_all add: insert_lm_def split: if_splits)
  with assms(1) show ?thesis by (simp add: gm_wf_defs)
qed

lemma worker_methods_wf [gmwf]:
  assumes "gm_wf s"
  shows "gm_wf (snd (removeWorkerFromDatabase D fsd s))"
    and "gm_wf (snd (addWorkerToDatabase D fsd type sts loc s))"
    and "gm_wf (snd (deleteWorkersNotSeenSinceXSec D x s))"
  using assms
  by (auto simp: removeWorkerFromDatabase_def addWorkerToDatabase_def deleteWorkersNotSeenSinceXSec_def
      intro!: exec_gm_wf remove_workers_wf replace_worker_wf dest!: location_id_Some intro: rev_image_eqI)

lemma lm_methods_wf [gmwf]:
  assumes "gm_wf s"
  shows "gm_wf (snd (setLMForLocationAndFuzzJob D loc fsd job s))" and "gm_wf (snd (removeManagedLM D g s))"
proof -
  show "gm_wf (snd (setLMForLocationAndFuzzJob D loc fsd job s))"
    using assms by (auto simp: setLMForLocationAndFuzzJob_def bind_eq_Some_conv intro!: exec_gm_wf intro: insert_lm_wf)
  have "gm_wf (s\<lparr>localmanagers := filter P (localmanagers s)\<rparr>)" for P
    using assms by (auto simp: gm_wf_defs distinct_map_filter_key)
  then show "gm_wf (snd (removeManagedLM D g s))"
    using assms by (auto simp: removeManagedLM_def intro!: exec_gm_wf)
qed

lemma fold_logs_wf: "gm_wf s \<Longrightarrow> gm_wf (fold (insert_lm_logmessage g now) ms s)"
proof (induction ms arbitrary: s)
  case (Cons m ms)
  have "gm_wf (insert_lm_logmessage g now m s)"
    using Cons.prems by (auto simp: gm_wf_defs insert_lm_logmessage_def sorted_wrt_append)
  then show ?case by (simp add: Cons.IH)
qed simp

lemma log_methods_wf [gmwf]:
  assumes "gm_wf s"
  shows "gm_wf (snd (addNewManagedLMStatus D g st s))" and "gm_wf (snd (deleteManagedLMStatusOlderThanXSec D x s))"
    and "gm_wf (snd (addNewManagedLMLogMessages D g ms s))"
    and "gm_wf (snd (deleteManagedLMLogMessagesIfMoreThan D n s))"
    and "gm_wf (snd (deleteManagedLMLogMessagesOlderThanXSec D x s))"
proof -
  have f: "gm_wf (s\<lparr>localmanagers_logmessages := filter P (localmanagers_logmessages s)\<rparr>)" for P
    using assms by (auto simp: gm_wf_defs sorted_wrt_map_filter)
  have st: "gm_wf (s\<lparr>localmanagers_statuses := ss\<rparr>) = gm_wf s" "gm_wf (s\<lparr>localmanagers_statuses := ss, next_ls := n\<rparr>) = gm_wf s"
    for ss n by (simp_all add: gm_wf_defs)
  show "gm_wf (snd (addNewManagedLMStatus D g st s))" "gm_wf (snd (deleteManagedLMStatusOlderThanXSec D x s))"
    using assms by (auto simp: addNewManagedLMStatus_def deleteManagedLMStatusOlderThanXSec_def st intro!: exec_gm_wf)
  show "gm_wf (snd (addNewManagedLMLogMessages D g ms s))"
    using assms by (auto simp: addNewManagedLMLogMessages_def Let_def set_isolation_def intro!: exec_gm_wf fold_logs_wf)
  show "gm_wf (snd (deleteManagedLMLogMessagesIfMoreThan D n s))"
    using assms f by (auto simp: deleteManagedLMLogMessagesIfMoreThan_def Let_def intro!: exec_gm_wf split: if_splits)
  show "gm_wf (snd (deleteManagedLMLogMessagesOlderThanXSec D x s))"
    using assms f by (auto simp: deleteManagedLMLogMessagesOlderThanXSec_def intro!: exec_gm_wf)
qed

lemma command_methods_wf [gmwf]:
  assumes "gm_wf s"
  shows "gm_wf (snd (setCommandAsDone D i e s))" and "gm_wf (snd (deleteDoneCommandsOlderThanXSec D x s))"
proof -
  let ?f = "\<lambda>c :: cq_row. if cq_ID c = i then c\<lparr>cq_Done := True, cq_Error := e\<rparr> else c"
  have "cq_ID \<circ> ?f = cq_ID" by auto
  then have "gm_wf (s\<lparr>command_queue := map ?f (command_queue s)\<rparr>)"
    using assms by (simp add: gm_wf_defs)
  then show "gm_wf (snd (setCommandAsDone D i e s))"
    using assms by (auto simp: setCommandAsDone_def intro!: exec_gm_wf)
  have "gm_wf (s\<lparr>command_queue := filter P (command_queue s)\<rparr>)" for P
    using assms by (auto simp: gm_wf_defs distinct_map_filter_key)
  then show "gm_wf (snd (deleteDoneCommandsOlderThanXSec D x s))"
    using assms by (auto simp: deleteDoneCommandsOlderThanXSec_def intro!: exec_gm_wf)
qed

lemma query_methods_state [simp]:
  "snd (getLMServiceDescriptorForWorker D fsd s) = next_stmt s"
  "snd (getLMConfigurationForFuzzJob D j s) = next_stmt s"
  "snd (getAllRegisteredLMs D s) = next_stmt s"
  "snd (getFuzzJobWithoutLM D loc s) = next_stmt s"
  "snd (getNewCommands D s) = next_stmt s"
  by (simp_all add: getLMServiceDescriptorForWorker_def getLMConfigurationForFuzzJob_def
      getAllRegisteredLMs_def getFuzzJobWithoutLM_def getNewCommands_def query_def)

end
