(* ===== verification/GMSystem.thy ===== *)
theory GMSystem
  imports GMDatabase CommInt
begin

text \<open>
  The global manager at work: the registration of agents (\<open>RegisterAtGMRequestHandler.cpp\<close>), the worker
  that carries out commands, cleans the tables up and polls the local managers (\<open>LMMonitorWorker.cpp\<close>),
  and the manager as a transition system.
\<close>

record gm =
  gm_db :: gmdb
  gm_agent :: agent

definition lift_gm :: "(gmdb \<Rightarrow> 'r \<times> gmdb) \<Rightarrow> gm \<Rightarrow> 'r \<times> gm" where
  "lift_gm f st = (let (r, db) = f (gm_db st) in (r, st\<lparr>gm_db := db\<rparr>))"

section \<open>RegisterAtGMRequestHandler\<close>

definition registeratgmrequest :: "FLUFFIMessage \<Rightarrow> RegisterRequest_t" where
  "registeratgmrequest m = (case m of RegisterAtGMRequest r \<Rightarrow> r
     | _ \<Rightarrow> \<lparr>reg_type = TestcaseGenerator, reg_implementedAgentSubTypes = [],
            reg_serviceDescriptor = None, reg_location = ''''\<rparr>)"

definition agentIsWelcomedAt ::
    "env \<Rightarrow> AgentType \<Rightarrow> string list \<Rightarrow> FluffiServiceDescriptor \<Rightarrow> agent \<Rightarrow> (bool \<times> agent) option" where
  "agentIsWelcomedAt E type sts lmServiceDescriptor a =
     do {
       (resp, a) \<leftarrow> sendReqAndRecvResp E (IsAgentWelcomedRequest type sts)
         (m_serviceHostAndPort lmServiceDescriptor) timeoutNormalMessage a;
       Some (case resp of Some (IsAgentWelcomedResponse isWelcomed) \<Rightarrow> isWelcomed | _ \<Rightarrow> False, a)
     }"

text \<open>The case of generators, runners and evaluators. \<open>None\<close>: the process exits on a ZeroMQ error.\<close>

definition register_worker ::
    "dbenv \<Rightarrow> env \<Rightarrow> FluffiServiceDescriptor \<Rightarrow> AgentType \<Rightarrow> string list \<Rightarrow> string \<Rightarrow> gm \<Rightarrow> (gmResponse \<times> gm) option" where
  "register_worker D E fsd type sts location st =
     (let (lmServiceDescriptor, st) = lift_gm (getLMServiceDescriptorForWorker D fsd) st in
      do {
        (lmServiceDescriptor, st) \<leftarrow>
          (if m_isNull lmServiceDescriptor then Some (lmServiceDescriptor, st)
           else do {
             (welcomed, a) \<leftarrow> agentIsWelcomedAt E type sts lmServiceDescriptor (gm_agent st);
             let st = st\<lparr>gm_agent := a\<rparr>;
             Some (if welcomed then (lmServiceDescriptor, st)
                   else (sd_getNullObject, snd (lift_gm (removeWorkerFromDatabase D fsd) st)))
           });
        Some (if \<not> m_isNull lmServiceDescriptor
              then (LmServiceDescriptor (sd_getProtobuf lmServiceDescriptor), st)
              else (RetryLater True, snd (lift_gm (addWorkerToDatabase D fsd type (join ''|'' sts) location) st)))
      })"

text \<open>
  A local manager for a job that was vacant when it was looked up. The answer is a one-of: an exception
  after the configuration was put in replaces it.
\<close>

definition register_lm_for_job ::
    "dbenv \<Rightarrow> FluffiServiceDescriptor \<Rightarrow> string \<Rightarrow> int \<Rightarrow> gm \<Rightarrow> gmResponse \<times> gm" where
  "register_lm_for_job D fsd location job st =
     (let (lmConfiguration, st) = lift_gm (getLMConfigurationForFuzzJob D job) st in
      case lmConfiguration of None \<Rightarrow> (RetryLater True, st)
      | Some c \<Rightarrow>
          (let (registered, st) = lift_gm (setLMForLocationAndFuzzJob D location fsd job) st
           in (if registered then LmConfiguration (lmconfig_getProtobuf c) else RetryLater True, st)))"

definition register_lm ::
    "dbenv \<Rightarrow> FluffiServiceDescriptor \<Rightarrow> string list \<Rightarrow> string \<Rightarrow> gm \<Rightarrow> gmResponse \<times> gm" where
  "register_lm D fsd sts location st =
     (let (job, st) = lift_gm (getFuzzJobWithoutLM D location) st in
      if job = -1
      then (RetryLater True, snd (lift_gm (addWorkerToDatabase D fsd LocalManager (join ''|'' sts) location) st))
      else register_lm_for_job D fsd location job st)"

definition RegisterAtGMRequestHandler :: "dbenv \<Rightarrow> env \<Rightarrow> FLUFFIMessage \<Rightarrow> gm \<Rightarrow> (FLUFFIMessage \<times> gm) option" where
  "RegisterAtGMRequestHandler D E m st =
     (let req = registeratgmrequest m;
          type = reg_type req;
          sts = reg_implementedAgentSubTypes req;
          fsd = sd_of_proto (opt_or default_ServiceDescriptor (reg_serviceDescriptor req))
      in map_option (\<lambda>(r, st). (RegisterAtGMResponse r, st))
           (if type \<in> {TestcaseGenerator, TestcaseRunner, TestcaseEvaluator}
            then register_worker D E fsd type sts (reg_location req) st
            else if type = LocalManager then Some (register_lm D fsd sts (reg_location req) st)
            else Some (RetryLater True, st)))"

section \<open>LMMonitorWorker\<close>

definition commandHandler :: "env \<Rightarrow> string \<Rightarrow> string \<Rightarrow> agent \<Rightarrow> (bool \<times> agent) option" where
  "commandHandler E command argument a =
     (if command = ''kill'' then do {
        (resp, a) \<leftarrow> sendReqAndRecvResp E KillInstanceRequest argument 1000 a;
        Some (case resp of Some (KillInstanceResponse _) \<Rightarrow> True | _ \<Rightarrow> False, a)
      } else Some (False, a))"

fun handle_commands :: "dbenv \<Rightarrow> env \<Rightarrow> (nat \<times> string \<times> string) list \<Rightarrow> gm \<Rightarrow> gm option" where
  "handle_commands D E [] st = Some st"
| "handle_commands D E ((commandID, command, argument) # cs) st =
     do {
       (done_ok, a) \<leftarrow> commandHandler E command argument (gm_agent st);
       let st = st\<lparr>gm_agent := a\<rparr>;
       handle_commands D E cs (snd (lift_gm (setCommandAsDone D commandID
         (if done_ok then '''' else ''Could not perform command'')) st))
     }"

fun poll_lms :: "dbenv \<Rightarrow> env \<Rightarrow> FluffiServiceDescriptor \<Rightarrow> (string \<times> string) list \<Rightarrow> gm \<Rightarrow> gm option" where
  "poll_lms D E self [] st = Some st"
| "poll_lms D E self ((guid, hap) # ls) st =
     do {
       (resp, a) \<leftarrow> sendReqAndRecvResp E (GetStatusRequest (Some (sd_getProtobuf self))) hap
         timeoutNormalMessage (gm_agent st);
       let st = st\<lparr>gm_agent := a\<rparr>;
       poll_lms D E self ls (case resp of
           None \<Rightarrow> snd (lift_gm (removeManagedLM D guid) st)
         | Some (GetStatusResponse status logmessages) \<Rightarrow>
             snd (lift_gm (addNewManagedLMLogMessages D guid logmessages)
               (snd (lift_gm (addNewManagedLMStatus D guid status) st)))
         | Some _ \<Rightarrow> st)
     }"

definition clean_up :: "dbenv \<Rightarrow> gm \<Rightarrow> gm" where
  "clean_up D st =
     (let st = snd (lift_gm (deleteDoneCommandsOlderThanXSec D (60 * 30)) st);
          st = snd (lift_gm (deleteManagedLMStatusOlderThanXSec D (60 * 3)) st);
          st = snd (lift_gm (deleteWorkersNotSeenSinceXSec D (60 * 1)) st);
          st = snd (lift_gm (deleteManagedLMLogMessagesIfMoreThan D 1000) st)
      in snd (lift_gm (deleteManagedLMLogMessagesOlderThanXSec D (60 * 60 * 24 * 7)) st))"

text \<open>One round of the loop of \<open>workerMain\<close>, the wait before it left out.\<close>

definition LMMonitorWorker_round :: "dbenv \<Rightarrow> env \<Rightarrow> FluffiServiceDescriptor \<Rightarrow> gm \<Rightarrow> gm option" where
  "LMMonitorWorker_round D E self st =
     (let (commands, st) = lift_gm (getNewCommands D) st in
      do {
        st \<leftarrow> handle_commands D E commands st;
        let (lms, st) = lift_gm (getAllRegisteredLMs D) (clean_up D st);
        poll_lms D E self lms st
      })"

section \<open>The global manager as a transition system\<close>

text \<open>The web interface and other clients may change the tables in every way that keeps the schema.\<close>

inductive gm_step :: "dbenv \<Rightarrow> env \<Rightarrow> FluffiServiceDescriptor \<Rightarrow> gm \<Rightarrow> gm \<Rightarrow> bool" for D E self where
  register: "RegisterAtGMRequestHandler D E m st = Some (resp, st') \<Longrightarrow> gm_step D E self st st'"
| monitor: "LMMonitorWorker_round D E self st = Some st' \<Longrightarrow> gm_step D E self st st'"
| web: "gm_wf db \<Longrightarrow> stmt_no db = stmt_no (gm_db st) \<Longrightarrow> gm_step D E self st (st\<lparr>gm_db := db\<rparr>)"

inductive gm_start :: "gm \<Rightarrow> bool" where
  "gm_wf db \<Longrightarrow> sockets_idle a \<Longrightarrow> gm_start \<lparr>gm_db = db, gm_agent = a\<rparr>"

section \<open>Facts on single operations\<close>

lemma lift_gm_simps [simp]:
  "gm_db (snd (lift_gm f st)) = snd (f (gm_db st))"
  "gm_agent (snd (lift_gm f st)) = gm_agent st"
  "fst (lift_gm f st) = fst (f (gm_db st))"
  by (simp_all add: lift_gm_def split_beta)

definition gm_inv :: "gm \<Rightarrow> bool" where
  "gm_inv st \<longleftrightarrow> gm_wf (gm_db st) \<and> sockets_idle (gm_agent st)"

lemma lift_gm_inv: "gm_inv st \<Longrightarrow> (gm_wf (gm_db st) \<Longrightarrow> gm_wf (snd (f (gm_db st)))) \<Longrightarrow> gm_inv (snd (lift_gm f st))"
  by (simp add: gm_inv_def)

lemma gm_inv_methods [gmwf]:
  assumes "gm_inv st"
  shows "gm_inv (snd (lift_gm (getLMServiceDescriptorForWorker D fsd) st))"
    and "gm_inv (snd (lift_gm (removeWorkerFromDatabase D fsd) st))"
    and "gm_inv (snd (lift_gm (addWorkerToDatabase D fsd type subtypes loc) st))"
    and "gm_inv (snd (lift_gm (setCommandAsDone D i e) st))"
  using assms by (auto intro: lift_gm_inv worker_methods_wf command_methods_wf)

lemma gm_inv_agent: "gm_inv st \<Longrightarrow> sockets_idle a \<Longrightarrow> gm_inv (st\<lparr>gm_agent := a\<rparr>)"
  by (simp add: gm_inv_def)

lemma welcome_idle: "agentIsWelcomedAt E type sts lm a = Some (w, a') \<Longrightarrow> sockets_idle a \<Longrightarrow> sockets_idle a'"
  by (auto simp: agentIsWelcomedAt_def bind_eq_Some_conv dest: sendReqAndRecvResp_idle)

lemma register_worker_inv:
  assumes "register_worker D E fsd type sts loc st = Some (r, st')" and "gm_inv st"
  shows "gm_inv st'"
proof -
  obtain lm st1 where l: "lift_gm (getLMServiceDescriptorForWorker D fsd) st = (lm, st1)" by fastforce
  have 1: "gm_inv st1" using gm_inv_methods(1) [OF assms(2), of D fsd] by (simp add: l)
  have 2: "gm_inv (st1\<lparr>gm_agent := a\<rparr>)"
    if "agentIsWelcomedAt E type sts lm (gm_agent st1) = Some (w, a)" for w a
    using that 1 by (intro gm_inv_agent) (auto simp: gm_inv_def dest: welcome_idle)
  show ?thesis
    using assms(1) 1 2
    by (auto simp: register_worker_def l bind_eq_Some_conv Let_def sd_getNullObject_def gm_inv_methods split: if_splits)
qed

lemma register_lm_inv: "gm_inv st \<Longrightarrow> gm_inv (snd (register_lm D fsd sts loc st))"
  unfolding register_lm_def register_lm_for_job_def Let_def split_beta
  by (auto intro!: lift_gm_inv worker_methods_wf lm_methods_wf split: option.splits)

lemma handler_inv:
  assumes "RegisterAtGMRequestHandler D E m st = Some (resp, st')" and "gm_inv st"
  shows "gm_inv st'"
proof -
  have "gm_inv st'" if "register_lm D fsd sts loc st = (r, st')" for fsd sts loc r
    using register_lm_inv [OF assms(2), of D fsd sts loc] that by simp
  then show ?thesis
    using assms by (auto simp: RegisterAtGMRequestHandler_def Let_def split: if_splits dest!: register_worker_inv)
qed

lemma commandHandler_idle:
  "commandHandler E c arg a = Some (b, a') \<Longrightarrow> sockets_idle a \<Longrightarrow> sockets_idle a'"
  by (auto simp: commandHandler_def bind_eq_Some_conv split: if_splits dest: sendReqAndRecvResp_idle)

lemma handle_commands_inv: "handle_commands D E cs st = Some st' \<Longrightarrow> gm_inv st \<Longrightarrow> gm_inv st'"
proof (induction cs arbitrary: st)
  case (Cons c cs)
  obtain i cmd arg where c: "c = (i, cmd, arg)" by (cases c)
  from Cons.prems(1) obtain b a where h: "commandHandler E cmd arg (gm_agent st) = Some (b, a)"
    and rest: "handle_commands D E cs (snd (lift_gm (setCommandAsDone D i
      (if b then '''' else ''Could not perform command'')) (st\<lparr>gm_agent := a\<rparr>))) = Some st'"
    by (auto simp: c bind_eq_Some_conv)
  have "sockets_idle a" using commandHandler_idle [OF h] Cons.prems(2) by (simp add: gm_inv_def)
  then show ?case using Cons.prems(2) by (intro Cons.IH [OF rest] gm_inv_methods gm_inv_agent)
qed simp

lemma clean_up_inv: "gm_inv st \<Longrightarrow> gm_inv (clean_up D st)"
  by (auto simp: clean_up_def Let_def intro!: lift_gm_inv gmwf)

text \<open>What the answer to a status request does to the state.\<close>

definition poll_effect :: "dbenv \<Rightarrow> string \<Rightarrow> FLUFFIMessage option \<Rightarrow> gm \<Rightarrow> gm" where
  "poll_effect D guid resp st = (case resp of
      None \<Rightarrow> snd (lift_gm (removeManagedLM D guid) st)
    | Some (GetStatusResponse status logmessages) \<Rightarrow>
        snd (lift_gm (addNewManagedLMLogMessages D guid logmessages)
          (snd (lift_gm (addNewManagedLMStatus D guid status) st)))
    | Some _ \<Rightarrow> st)"

lemma poll_lms_Cons:
  "poll_lms D E self (l # ls) st =
     Option.bind (sendReqAndRecvResp E (GetStatusRequest (Some (sd_getProtobuf self))) (snd l)
       timeoutNormalMessage (gm_agent st))
     (\<lambda>(resp, a). poll_lms D E self ls (poll_effect D (fst l) resp (st\<lparr>gm_agent := a\<rparr>)))"
  by (cases l) (simp add: poll_effect_def Let_def)

lemma poll_effect_inv: "gm_inv st \<Longrightarrow> gm_inv (poll_effect D g resp st)"
  by (auto simp: poll_effect_def intro!: lift_gm_inv gmwf split: option.splits FLUFFIMessage.splits)

lemma poll_lms_inv: "poll_lms D E self ls st = Some st' \<Longrightarrow> gm_inv st \<Longrightarrow> gm_inv st'"
proof (induction ls arbitrary: st)
  case (Cons l ls)
  from Cons.prems(1) obtain resp a where
    s: "sendReqAndRecvResp E (GetStatusRequest (Some (sd_getProtobuf self))) (snd l) timeoutNormalMessage
      (gm_agent st) = Some (resp, a)"
    and rest: "poll_lms D E self ls (poll_effect D (fst l) resp (st\<lparr>gm_agent := a\<rparr>)) = Some st'"
    unfolding poll_lms_Cons by (auto simp: bind_eq_Some_conv)
  have "gm_inv (st\<lparr>gm_agent := a\<rparr>)"
    using sendReqAndRecvResp_idle [OF s] Cons.prems(2) by (simp add: gm_inv_def)
  then show ?case by (rule Cons.IH [OF rest poll_effect_inv])
qed simp

lemma round_inv:
  assumes "LMMonitorWorker_round D E self st = Some st'" and "gm_inv st" shows "gm_inv st'"
proof -
  from assms(1) obtain st1 where
    h: "handle_commands D E (fst (lift_gm (getNewCommands D) st)) (snd (lift_gm (getNewCommands D) st)) = Some st1"
    and p: "poll_lms D E self (fst (lift_gm (getAllRegisteredLMs D) (clean_up D st1)))
      (snd (lift_gm (getAllRegisteredLMs D) (clean_up D st1))) = Some st'"
    by (auto simp: LMMonitorWorker_round_def Let_def split_beta bind_eq_Some_conv)
  have "gm_inv st1" by (rule handle_commands_inv [OF h]) (simp add: assms(2) lift_gm_inv)
  then show ?thesis by (intro poll_lms_inv [OF p] lift_gm_inv clean_up_inv) simp_all
qed

interpretation gm_system: invariant_system gm_start "gm_step D E self" gm_inv for D E self
proof
  show "gm_start st \<Longrightarrow> gm_inv st" for st by (auto simp: gm_start.simps gm_inv_def)
  show "gm_inv st \<Longrightarrow> gm_step D E self st st' \<Longrightarrow> gm_inv st'" for st st'
    by (auto elim!: gm_step.cases dest: handler_inv round_inv simp: gm_inv_def [of "_\<lparr>gm_db := _\<rparr>"] gm_inv_def [of st])
qed

end
