(* ===== verification/GMFacts.thy ===== *)
theory GMFacts
  imports GMSystem LMHandlers
begin

text \<open>
  Facts on the operations of the global manager: the registration of local managers and agents, the vacant
  jobs of a location, and the parts of a round of the monitor.
\<close>

section \<open>Registration of local managers\<close>

definition job_conf :: "fj_row \<Rightarrow> FluffiLMConfiguration" where
  "job_conf f = \<lparr>m_dbHost = fj_DBHost f, m_dbUser = fj_DBUser f, m_dbPassword = fj_DBPass f,
     m_dbName = fj_DBName f, m_fuzzJobName = fj_name f\<rparr>"

lemma conf_of_job:
  assumes "gm_wf s" and "db_ok D (stmt_no s)" and "f \<in> set (fuzzjob s)"
  shows "getLMConfigurationForFuzzJob D (int (fj_ID f)) s = (Some (job_conf f), next_stmt s)"
proof -
  have "filter (\<lambda>g. fj_ID g = fj_ID f) (fuzzjob s) = [f]"
    using assms(1,3) by (intro filter_key_single) (simp_all add: gm_wf_defs)
  then show ?thesis
    using assms(2) by (simp add: getLMConfigurationForFuzzJob_def query_def job_conf_def)
qed

lemma conf_SomeD:
  assumes "getLMConfigurationForFuzzJob D (int j) s = (Some c, s')"
  shows "\<exists>f \<in> set (fuzzjob s). fj_ID f = j \<and> c = job_conf f"
proof -
  from assms obtain f where "filter (\<lambda>f. fj_ID f = j) (fuzzjob s) = [f]" "c = job_conf f"
    by (auto simp: getLMConfigurationForFuzzJob_def query_def job_conf_def split: if_splits list.splits)
  moreover from this have "f \<in> set (fuzzjob s)" "fj_ID f = j"
    using Cons_eq_filterD [of f "[]" "\<lambda>f. fj_ID f = j" "fuzzjob s"] by auto
  ultimately show ?thesis by blast
qed

text \<open>What \<open>setLMForLocationAndFuzzJob\<close> does, as an equivalence.\<close>

lemma set_lm_result:
  assumes "setLMForLocationAndFuzzJob D loc fsd (int j) s = (ok, s')"
  shows "if ok then \<exists>l. location_id loc s = Some l \<and> (l, j) \<in> set (location_fuzzjobs s) \<and>
      (l, j) \<notin> gl_job ` set (localmanagers s) \<and> m_guid fsd \<notin> gl_GUID ` set (localmanagers s) \<and>
      s' = s\<lparr>localmanagers := localmanagers s @ [\<lparr>gl_GUID = m_guid fsd, gl_HAP = m_serviceHostAndPort fsd,
        gl_Location = l, gl_FuzzJob = j\<rparr>], stmt_no := Suc (stmt_no s)\<rparr>
    else s' = next_stmt s"
  using assms unfolding setLMForLocationAndFuzzJob_def
  by (elim exec_stmt_cases) (auto simp: bind_eq_Some_conv insert_lm_def split: if_splits)

lemma set_lm_ok:
  assumes "db_ok D (stmt_no s)" and "location_id loc s = Some l" and "(l, j) \<in> set (location_fuzzjobs s)"
    and "(l, j) \<notin> gl_job ` set (localmanagers s)" and "m_guid fsd \<notin> gl_GUID ` set (localmanagers s)"
  shows "fst (setLMForLocationAndFuzzJob D loc fsd (int j) s)"
  unfolding setLMForLocationAndFuzzJob_def
  by (subst exec_stmt_ok) (use assms in \<open>simp_all add: insert_lm_def\<close>)

lemma register_lm_for_job_result:
  assumes "register_lm_for_job D fsd loc (int j) st = (r, st')" and "gm_wf (gm_db st)"
  shows "(\<exists>l f. location_id loc (gm_db st) = Some l \<and> (l, j) \<in> set (location_fuzzjobs (gm_db st)) \<and>
      (l, j) \<notin> gl_job ` set (localmanagers (gm_db st)) \<and> m_guid fsd \<notin> gl_GUID ` set (localmanagers (gm_db st)) \<and>
      f \<in> set (fuzzjob (gm_db st)) \<and> fj_ID f = j \<and> r = LmConfiguration (lmconfig_getProtobuf (job_conf f)) \<and>
      localmanagers (gm_db st') = localmanagers (gm_db st) @
        [\<lparr>gl_GUID = m_guid fsd, gl_HAP = m_serviceHostAndPort fsd, gl_Location = l, gl_FuzzJob = j\<rparr>])
    \<or> r = RetryLater True \<and> localmanagers (gm_db st') = localmanagers (gm_db st)"
    (is "?told \<or> ?retry")
    and "gm_agent st' = gm_agent st" and "fuzzjob (gm_db st') = fuzzjob (gm_db st)"
    and "locations (gm_db st') = locations (gm_db st)"
    and "location_fuzzjobs (gm_db st') = location_fuzzjobs (gm_db st)"
    and "workers (gm_db st') = workers (gm_db st)"
proof -
  obtain oc db1 where c: "getLMConfigurationForFuzzJob D (int j) (gm_db st) = (oc, db1)" by fastforce
  then have db1: "db1 = next_stmt (gm_db st)"
    using query_methods_state(2) [of D "int j" "gm_db st"] by simp
  obtain ok db2 where s: "setLMForLocationAndFuzzJob D loc fsd (int j) db1 = (ok, db2)" by fastforce
  have 1: "oc = None \<Longrightarrow> r = RetryLater True \<and> st' = st\<lparr>gm_db := db1\<rparr>"
    using assms(1) by (simp add: register_lm_for_job_def lift_gm_def c)
  have 2: "r = (if ok then LmConfiguration (lmconfig_getProtobuf (the oc)) else RetryLater True) \<and>
      st' = st\<lparr>gm_db := db2\<rparr>" if "oc \<noteq> None"
    using assms(1) that by (auto simp: register_lm_for_job_def lift_gm_def c s)
  note res = set_lm_result [OF s]
  show "?told \<or> ?retry"
  proof (cases "oc \<noteq> None \<and> ok")
    case True
    then obtain f where "f \<in> set (fuzzjob (gm_db st))" "fj_ID f = j" "the oc = job_conf f"
      using conf_SomeD c by fastforce
    with True res 2 show ?thesis by (auto simp: db1 location_id_def)
  next
    case False
    then have ?retry using 1 2 res by (cases oc) (auto simp: db1)
    then show ?thesis ..
  qed
  have "fuzzjob db2 = fuzzjob db1 \<and> locations db2 = locations db1 \<and>
      location_fuzzjobs db2 = location_fuzzjobs db1 \<and> workers db2 = workers db1"
    using res by (auto split: if_splits)
  then show "gm_agent st' = gm_agent st" "fuzzjob (gm_db st') = fuzzjob (gm_db st)"
    "locations (gm_db st') = locations (gm_db st)" "location_fuzzjobs (gm_db st') = location_fuzzjobs (gm_db st)"
    "workers (gm_db st') = workers (gm_db st)"
    using 1 2 by (cases oc; simp add: db1)+
qed

lemma register_lm_for_job_ok:
  assumes "gm_wf (gm_db st)" and ok: "\<And>n. db_ok D n" and "location_id loc (gm_db st) = Some l"
    and "(l, j) \<in> set (location_fuzzjobs (gm_db st))" and "(l, j) \<notin> gl_job ` set (localmanagers (gm_db st))"
    and "m_guid fsd \<notin> gl_GUID ` set (localmanagers (gm_db st))"
  shows "fst (register_lm_for_job D fsd loc (int j) st) \<noteq> RetryLater True"
proof -
  from assms(1,4) obtain f where f: "f \<in> set (fuzzjob (gm_db st))" "j = fj_ID f"
    by (auto simp: gm_wf_defs)
  have "fst (setLMForLocationAndFuzzJob D loc fsd (int j) (next_stmt (gm_db st)))"
    by (rule set_lm_ok [where l = l]) (use assms in \<open>simp_all add: location_id_def\<close>)
  then show ?thesis
    using conf_of_job [OF assms(1) ok f(1)]
    by (auto simp: register_lm_for_job_def lift_gm_def Let_def f(2) split_beta)
qed

lemma vacant_jobs_mem:
  "gm_wf s \<Longrightarrow> j \<in> set (vacant_jobs loc s) \<longleftrightarrow> (\<exists>l. location_id loc s = Some l \<and>
     (l, j) \<in> set (location_fuzzjobs s) \<and> (l, j) \<notin> gl_job ` set (localmanagers s))"
  by (auto simp: vacant_jobs_def location_id_iff image_iff)

section \<open>Vacant jobs are taken\<close>

lemma vacant_jobs_distinct: "gm_wf s \<Longrightarrow> distinct (vacant_jobs loc s)"
proof -
  assume wf: "gm_wf s"
  then have "inj_on snd (set (locations s))" by (simp add: gm_wf_defs distinct_map)
  then have "l = l'" if "(l, loc) \<in> set (locations s)" "(l', loc) \<in> set (locations s)" for l l'
    using that by (auto dest: inj_onD [of snd _ "(l, loc)" "(l', loc)"])
  then have "inj_on snd (set (filter (\<lambda>(l, f). (l, loc) \<in> set (locations s) \<and> (l, f) \<notin> gl_job ` set (localmanagers s))
      (location_fuzzjobs s)))"
    by (auto simp: inj_on_def)
  with wf show ?thesis by (simp add: vacant_jobs_def distinct_map gm_wf_defs)
qed

text \<open>A registration for a vacant job takes exactly this job off the list.\<close>

lemma vacant_jobs_taken:
  assumes "gm_wf s" and "location_id loc s = Some l" and "locations s' = locations s"
    and "location_fuzzjobs s' = location_fuzzjobs s"
    and "gl_job ` set (localmanagers s') = insert (l, j) (gl_job ` set (localmanagers s))"
  shows "vacant_jobs loc s' = filter (\<lambda>f. f \<noteq> j) (vacant_jobs loc s)"
proof -
  have "k = l" if "(k, loc) \<in> set (locations s)" for k
    using that assms(1,2) location_id_iff [of s loc k] by simp
  then have "(k, loc) \<in> set (locations s) \<and> (k, f) \<notin> insert (l, j) G \<longleftrightarrow>
      ((k, loc) \<in> set (locations s) \<and> (k, f) \<notin> G) \<and> f \<noteq> j" for k f G
    by (cases "(k, loc) \<in> set (locations s)") auto
  then have "(\<lambda>(k, f). (k, loc) \<in> set (locations s) \<and> (k, f) \<notin> gl_job ` set (localmanagers s')) =
      (\<lambda>p. (case p of (k, f) \<Rightarrow> (k, loc) \<in> set (locations s) \<and> (k, f) \<notin> gl_job ` set (localmanagers s)) \<and> snd p \<noteq> j)"
    unfolding assms(5) by (intro ext) (simp only: split_beta prod.collapse)
  then have "filter (\<lambda>(k, f). (k, loc) \<in> set (locations s) \<and> (k, f) \<notin> gl_job ` set (localmanagers s'))
        (location_fuzzjobs s) =
      filter (\<lambda>p. snd p \<noteq> j) (filter (\<lambda>(k, f). (k, loc) \<in> set (locations s) \<and>
        (k, f) \<notin> gl_job ` set (localmanagers s)) (location_fuzzjobs s))"
    by (simp only: filter_filter)
  then show ?thesis
    by (simp only: vacant_jobs_def assms(3,4) filter_map o_def)
qed

lemma register_lm_wf: "gm_wf (gm_db st) \<Longrightarrow> gm_wf (gm_db (snd (register_lm D fsd sts loc st)))"
  unfolding register_lm_def register_lm_for_job_def Let_def split_beta
  by (auto intro!: worker_methods_wf lm_methods_wf split: option.splits)

lemma register_lm_vacant:
  assumes wf: "gm_wf (gm_db st)" and ok: "\<And>n. db_ok D n" and order: "\<And>k xs. mset (db_order D k xs) = mset xs"
    and new: "m_guid fsd \<notin> gl_GUID ` set (localmanagers (gm_db st))"
    and r: "register_lm D fsd sts loc st = (r, st')"
  shows "(case vacant_jobs loc (gm_db st) of
      [] \<Rightarrow> r = RetryLater True \<and> localmanagers (gm_db st') = localmanagers (gm_db st) \<and>
        vacant_jobs loc (gm_db st') = []
    | _ \<Rightarrow> (\<exists>c. r = LmConfiguration c) \<and>
        map gl_GUID (localmanagers (gm_db st')) = map gl_GUID (localmanagers (gm_db st)) @ [m_guid fsd] \<and>
        Suc (length (vacant_jobs loc (gm_db st'))) = length (vacant_jobs loc (gm_db st)))"
proof -
  let ?v = "vacant_jobs loc (gm_db st)" and ?o = "db_order D (stmt_no (gm_db st)) (vacant_jobs loc (gm_db st))"
  have o: "?o = [] \<longleftrightarrow> ?v = []" "set ?o = set ?v"
    using order [of _ ?v] by (metis mset.simps(1) mset_zero_iff, metis set_mset_mset)
  show ?thesis
  proof (cases "?v")
    case Nil
    have "st' = snd (lift_gm (addWorkerToDatabase D fsd LocalManager (join ''|'' sts) loc)
        (st\<lparr>gm_db := next_stmt (gm_db st)\<rparr>)) \<and> r = RetryLater True"
      using r ok o(1) Nil by (auto simp: register_lm_def lift_gm_def getFuzzJobWithoutLM_def query_def)
    then show ?thesis
      using Nil by (auto simp: addWorkerToDatabase_def exec_stmt_def replace_worker_def vacant_jobs_def
          split: option.splits)
  next
    case (Cons x xs)
    then obtain j js where j: "?o = j # js" using o(1) by (cases ?o) auto
    then have jv: "j \<in> set ?v" using o(2) by auto
    let ?st = "st\<lparr>gm_db := next_stmt (gm_db st)\<rparr>"
    have reg: "register_lm_for_job D fsd loc (int j) ?st = (r, st')"
      using r ok by (simp add: register_lm_def lift_gm_def getFuzzJobWithoutLM_def query_def j)
    have wf': "gm_wf (gm_db ?st)" and v': "j \<in> set (vacant_jobs loc (gm_db ?st))"
      and l': "location_id loc (gm_db ?st) = location_id loc (gm_db st)"
      using wf jv by (simp_all add: vacant_jobs_def location_id_def)
    obtain l where l: "location_id loc (gm_db ?st) = Some l" "(l, j) \<in> set (location_fuzzjobs (gm_db ?st))"
      "(l, j) \<notin> gl_job ` set (localmanagers (gm_db ?st))"
      using v' unfolding vacant_jobs_mem [OF wf'] by blast
    note res = register_lm_for_job_result [OF reg wf']
    have told: "r \<noteq> RetryLater True"
      using register_lm_for_job_ok [OF wf' ok l, of fsd] new reg by simp
    then obtain f where c: "r = LmConfiguration (lmconfig_getProtobuf (job_conf f))"
      and lm: "localmanagers (gm_db st') = localmanagers (gm_db st) @
        [\<lparr>gl_GUID = m_guid fsd, gl_HAP = m_serviceHostAndPort fsd, gl_Location = l, gl_FuzzJob = j\<rparr>]"
      using res(1) l(1) by auto
    have "vacant_jobs loc (gm_db st') = filter (\<lambda>f. f \<noteq> j) ?v"
      by (rule vacant_jobs_taken [OF wf]) (use l(1) l' res(4,5) lm in auto)
    also have "filter (\<lambda>f. f \<noteq> j) ?v = remove1 j ?v"
      unfolding distinct_remove1_removeAll [OF vacant_jobs_distinct [OF wf]] removeAll_filter_not_eq
      by (rule filter_cong) auto
    finally have "Suc (length (vacant_jobs loc (gm_db st'))) = length ?v"
      using length_pos_if_in_set [OF jv] jv by (simp add: length_remove1)
    then show ?thesis using c lm Cons by simp
  qed
qed

text \<open>Local managers that ask one after the other for a job at a location.\<close>

definition lm_request :: "FluffiServiceDescriptor \<Rightarrow> string \<Rightarrow> FLUFFIMessage" where
  "lm_request fsd location = RegisterAtGMRequest \<lparr>reg_type = LocalManager, reg_implementedAgentSubTypes = [],
     reg_serviceDescriptor = Some (sd_getProtobuf fsd), reg_location = location\<rparr>"

fun lm_requests :: "dbenv \<Rightarrow> env \<Rightarrow> string \<Rightarrow> FluffiServiceDescriptor list \<Rightarrow> gm \<Rightarrow> (FLUFFIMessage list \<times> gm) option" where
  "lm_requests D E location [] st = Some ([], st)"
| "lm_requests D E location (d # ds) st =
     do {
       (m, st) \<leftarrow> RegisterAtGMRequestHandler D E (lm_request d location) st;
       (ms, st) \<leftarrow> lm_requests D E location ds st;
       Some (m # ms, st)
     }"

definition configured :: "FLUFFIMessage \<Rightarrow> bool" where
  "configured m \<longleftrightarrow> (case m of RegisterAtGMResponse (LmConfiguration c) \<Rightarrow> True | _ \<Rightarrow> False)"

lemma configured_simps [simp]:
  "configured (RegisterAtGMResponse (LmConfiguration c))" "\<not> configured (RegisterAtGMResponse (RetryLater b))"
  by (simp_all add: configured_def)

lemma lm_request_handled:
  "RegisterAtGMRequestHandler D E (lm_request d loc) st =
     Some (map_prod RegisterAtGMResponse id (register_lm D (sd_of_proto (sd_getProtobuf d)) [] loc st))"
  by (simp add: RegisterAtGMRequestHandler_def registeratgmrequest_def lm_request_def opt_or_def split_beta
      map_prod_def Let_def)

section \<open>Registration of agents\<close>

lemma concat_filter_key:
  assumes "distinct (map key ws)" and "w \<in> set ws"
  shows "concat (map (\<lambda>v. filter (\<lambda>l. key v = key w \<and> Q v l) ls) ws) = filter (Q w) ls"
  using assms
proof (induction ws)
  case (Cons v ws)
  have "concat (map (\<lambda>v. filter (\<lambda>l. key v = key w \<and> Q v l) ls) us) = []" if "key w \<notin> key ` set us" for us
    using that by (induction us) auto
  then show ?case using Cons by (cases "v = w") (auto simp: image_iff)
qed simp

text \<open>The join finds the one manager of the job that the agent is assigned to.\<close>

lemma assigned_lm:
  assumes "gm_wf s" and "db_ok D (stmt_no s)" and "w \<in> set (workers s)" and "wk_GUID w = m_guid fsd"
    and "l \<in> set (localmanagers s)" and "wk_Location w = gl_Location l" and "wk_FuzzJob w = Some (gl_FuzzJob l)"
  shows "getLMServiceDescriptorForWorker D fsd s = (mkServiceDescriptor (gl_HAP l) (gl_GUID l), next_stmt s)"
proof -
  have f: "concat (map (\<lambda>l. if P l then [l] else []) ls) = filter P ls" for P and ls :: "gl_row list"
    by (induction ls) auto
  have "concat (map (\<lambda>v. filter (\<lambda>k. wk_GUID v = wk_GUID w \<and> wk_Location v = gl_Location k \<and>
      wk_FuzzJob v = Some (gl_FuzzJob k)) (localmanagers s)) (workers s)) =
      filter (\<lambda>k. wk_Location w = gl_Location k \<and> wk_FuzzJob w = Some (gl_FuzzJob k)) (localmanagers s)"
    using assms(1,3) by (intro concat_filter_key) (simp_all add: gm_wf_defs)
  also have "\<dots> = filter (\<lambda>k. gl_job k = gl_job l) (localmanagers s)"
    using assms(6,7) by (auto intro!: filter_cong)
  also have "\<dots> = [l]"
    using assms(1,5) by (intro filter_key_single) (simp_all add: gm_wf_defs)
  finally show ?thesis
    using assms(2) by (simp add: getLMServiceDescriptorForWorker_def query_def f assms(4))
qed

lemma welcome_iff:
  assumes "agentIsWelcomedAt E type sts lm a = Some (w, a')"
  shows "w \<longleftrightarrow> env_net E (Suc (tick a)) (m_serviceHostAndPort lm) (IsAgentWelcomedRequest type sts) =
    Reply (IsAgentWelcomedResponse True)"
proof -
  from assms obtain r where s: "sendReqAndRecvResp E (IsAgentWelcomedRequest type sts) (m_serviceHostAndPort lm)
      timeoutNormalMessage a = Some (r, a')"
    and w: "w \<longleftrightarrow> (case r of Some (IsAgentWelcomedResponse b) \<Rightarrow> b | _ \<Rightarrow> False)"
    by (auto simp: agentIsWelcomedAt_def bind_eq_Some_conv)
  from s show ?thesis
  proof (cases rule: sendReqAndRecvResp_cases)
    case timeout
    then show ?thesis by (auto simp: w)
  next
    case (reply resp)
    then show ?thesis by (cases resp) (auto simp: w)
  qed
qed

section \<open>A round of the monitor\<close>

text \<open>Every peer gives the same answer during the round, and no socket fails.\<close>

definition steady_peers :: "env \<Rightarrow> (string \<Rightarrow> FLUFFIMessage \<Rightarrow> FLUFFIMessage option) \<Rightarrow> bool" where
  "steady_peers E ans \<longleftrightarrow> (\<forall>k hap m. case ans hap m of
      None \<Rightarrow> env_net E k hap m \<in> {SendTimeout, RecvTimeout} | Some r \<Rightarrow> env_net E k hap m = Reply r)"

lemma steady_send:
  assumes "steady_peers E ans" and "sockets_idle a"
  shows "\<exists>a'. sendReqAndRecvResp E m hap t a = Some (ans hap m, a') \<and> sockets_idle a'"
proof -
  note p = assms(1) [unfolded steady_peers_def, rule_format, of "Suc (tick a)" hap m]
  have "env_net E (Suc (tick a)) hap m \<notin> {SendError, RecvError}"
    using p by (cases "ans hap m") auto
  then obtain r a' where s: "sendReqAndRecvResp E m hap t a = Some (r, a')"
    using sendReqAndRecvResp_returns [OF assms(2)] by blast
  have "r = ans hap m"
    using p by (cases rule: sendReqAndRecvResp_cases [OF s]) (auto split: option.splits)
  with s sendReqAndRecvResp_idle [OF s assms(2)] show ?thesis by blast
qed

definition command_ok :: "(string \<Rightarrow> FLUFFIMessage \<Rightarrow> FLUFFIMessage option) \<Rightarrow> string \<Rightarrow> string \<Rightarrow> bool" where
  "command_ok ans command argument \<longleftrightarrow> command = ''kill'' \<and>
     (\<exists>b. ans argument KillInstanceRequest = Some (KillInstanceResponse b))"

lemma command_result:
  assumes "steady_peers E ans" and "sockets_idle a"
  shows "\<exists>a'. commandHandler E command argument a = Some (command_ok ans command argument, a') \<and> sockets_idle a'"
proof (cases "command = ''kill''")
  case True
  from steady_send [OF assms, of KillInstanceRequest argument 1000] obtain a' where
    "sendReqAndRecvResp E KillInstanceRequest argument 1000 a = Some (ans argument KillInstanceRequest, a')"
    "sockets_idle a'" by blast
  then show ?thesis
    using True by (auto simp: commandHandler_def command_ok_def split: option.splits FLUFFIMessage.splits)
qed (use assms(2) in \<open>simp add: commandHandler_def command_ok_def\<close>)

text \<open>A command that was open is done after the round, with an error unless the peer confirmed.\<close>

definition settle :: "(string \<Rightarrow> FLUFFIMessage \<Rightarrow> FLUFFIMessage option) \<Rightarrow> cq_row \<Rightarrow> cq_row" where
  "settle ans c = (if cq_Done c then c else c\<lparr>cq_Done := True,
     cq_Error := if command_ok ans (cq_Command c) (cq_Argument c) then '''' else ''Could not perform command''\<rparr>)"

definition mark :: "(string \<Rightarrow> FLUFFIMessage \<Rightarrow> FLUFFIMessage option) \<Rightarrow> nat \<times> string \<times> string \<Rightarrow> cq_row \<Rightarrow> cq_row" where
  "mark ans = (\<lambda>(i, cmd, arg) c. if cq_ID c = i then c\<lparr>cq_Done := True,
     cq_Error := if command_ok ans cmd arg then '''' else ''Could not perform command''\<rparr> else c)"

lemma mark_id [simp]: "cq_ID (mark ans p c) = cq_ID c"
  by (simp add: mark_def split: prod.split)

lemma fold_mark_other: "cq_ID c \<notin> fst ` set ps \<Longrightarrow> fold (mark ans) ps c = c"
  by (induction ps arbitrary: c) (auto simp: mark_def)

lemma fold_mark:
  assumes "distinct (map fst ps)" and "(cq_ID c, cmd, arg) \<in> set ps"
  shows "fold (mark ans) ps c = c\<lparr>cq_Done := True,
    cq_Error := if command_ok ans cmd arg then '''' else ''Could not perform command''\<rparr>"
  using assms
proof (induction ps arbitrary: c)
  case (Cons p ps)
  show ?case
  proof (cases "p = (cq_ID c, cmd, arg)")
    case True
    then have "cq_ID (mark ans p c) \<notin> fst ` set ps" using Cons.prems(1) by simp
    then have "fold (mark ans) ps (mark ans p c) = mark ans p c" by (rule fold_mark_other)
    then show ?thesis by (simp add: True mark_def)
  next
    case False
    then have i: "(cq_ID c, cmd, arg) \<in> set ps" using Cons.prems(2) by auto
    then have "fst p \<noteq> cq_ID c" using Cons.prems(1) by (force simp: image_iff)
    then have "mark ans p c = c" by (cases p) (simp add: mark_def)
    then show ?thesis using Cons.IH [of c] Cons.prems(1) i by simp
  qed
qed simp

lemma handle_commands_result:
  assumes "\<And>n. db_ok D n" and "steady_peers E ans" and "sockets_idle (gm_agent st)"
  shows "\<exists>st'. handle_commands D E cs st = Some st' \<and> sockets_idle (gm_agent st') \<and>
    command_queue (gm_db st') = map (fold (mark ans) cs) (command_queue (gm_db st)) \<and>
    workers (gm_db st') = workers (gm_db st) \<and> localmanagers (gm_db st') = localmanagers (gm_db st)"
  using assms(3)
proof (induction cs arbitrary: st)
  case (Cons p cs)
  obtain i cmd arg where p: "p = (i, cmd, arg)" by (cases p)
  from command_result [OF assms(2) Cons.prems] obtain a where
    a: "commandHandler E cmd arg (gm_agent st) = Some (command_ok ans cmd arg, a)" "sockets_idle a" by blast
  define st1 where "st1 = snd (lift_gm (setCommandAsDone D i
    (if command_ok ans cmd arg then [] else ''Could not perform command'')) (st\<lparr>gm_agent := a\<rparr>))"
  have q: "command_queue (gm_db st1) = map (mark ans p) (command_queue (gm_db st))" "gm_agent st1 = a"
    "workers (gm_db st1) = workers (gm_db st)" "localmanagers (gm_db st1) = localmanagers (gm_db st)"
    by (simp_all add: st1_def setCommandAsDone_def exec_stmt_def assms(1) mark_def p)
  have "handle_commands D E (p # cs) st = handle_commands D E cs st1"
    by (simp add: p a(1) Let_def st1_def)
  with Cons.IH [of st1] a(2) show ?case by (simp add: q o_def)
qed simp

lemma open_commands_settled:
  assumes "gm_wf s" and "c \<in> set (command_queue s)"
  shows "fold (mark ans) (map (\<lambda>c. (cq_ID c, cq_Command c, cq_Argument c))
    (filter (\<lambda>c. \<not> cq_Done c) (command_queue s))) c = settle ans c"
proof -
  let ?ps = "map (\<lambda>c. (cq_ID c, cq_Command c, cq_Argument c)) (filter (\<lambda>c. \<not> cq_Done c) (command_queue s))"
  have d: "distinct (map cq_ID (command_queue s))" using assms(1) by (simp add: gm_wf_defs)
  then have ps: "distinct (map fst ?ps)" by (simp add: o_def distinct_map_filter_key)
  show ?thesis
  proof (cases "cq_Done c")
    case True
    have "inj_on cq_ID (set (command_queue s))" using d by (simp add: distinct_map)
    then have "cq_ID c \<notin> fst ` set ?ps" using True assms(2) by (auto dest: inj_onD)
    then show ?thesis using True by (simp add: settle_def fold_mark_other)
  next
    case False
    then have "(cq_ID c, cq_Command c, cq_Argument c) \<in> set ?ps" using assms(2) by auto
    from fold_mark [OF ps this] False show ?thesis by (simp add: settle_def)
  qed
qed

definition status_request :: "FluffiServiceDescriptor \<Rightarrow> FLUFFIMessage" where
  "status_request self = GetStatusRequest (Some (sd_getProtobuf self))"

lemma insert_messages_frame:
  "localmanagers (fold (insert_lm_logmessage g now) ms s) = localmanagers s"
  "workers (fold (insert_lm_logmessage g now) ms s) = workers s"
  "command_queue (fold (insert_lm_logmessage g now) ms s) = command_queue s"
  by (induction ms arbitrary: s) (simp_all add: insert_lm_logmessage_def)

lemma poll_effect_result:
  assumes "\<And>n. db_ok D n"
  shows "localmanagers (gm_db (poll_effect D g r st)) =
      (if r = None then filter (\<lambda>l. gl_GUID l \<noteq> g) (localmanagers (gm_db st)) else localmanagers (gm_db st))"
    and "workers (gm_db (poll_effect D g r st)) = workers (gm_db st)"
    and "command_queue (gm_db (poll_effect D g r st)) = command_queue (gm_db st)"
    and "gm_agent (poll_effect D g r st) = gm_agent st"
  by (simp_all add: poll_effect_def removeManagedLM_def addNewManagedLMLogMessages_def addNewManagedLMStatus_def
      exec_stmt_def assms Let_def set_isolation_def insert_messages_frame split: option.splits FLUFFIMessage.splits)

lemma poll_lms_result:
  assumes "\<And>n. db_ok D n" and "steady_peers E ans" and "sockets_idle (gm_agent st)"
  shows "\<exists>st'. poll_lms D E self ls st = Some st' \<and>
    localmanagers (gm_db st') = filter (\<lambda>l. \<forall>p \<in> set ls. gl_GUID l = fst p \<longrightarrow> ans (snd p) (status_request self) \<noteq> None)
      (localmanagers (gm_db st)) \<and>
    workers (gm_db st') = workers (gm_db st) \<and> command_queue (gm_db st') = command_queue (gm_db st)"
  using assms(3)
proof (induction ls arbitrary: st)
  case (Cons p ls)
  from steady_send [OF assms(2) Cons.prems] obtain a where
    a: "sendReqAndRecvResp E (status_request self) (snd p) timeoutNormalMessage (gm_agent st) =
      Some (ans (snd p) (status_request self), a)" "sockets_idle a" by blast
  define st1 where "st1 = poll_effect D (fst p) (ans (snd p) (status_request self)) (st\<lparr>gm_agent := a\<rparr>)"
  note e = poll_effect_result [OF assms(1), of "fst p" "ans (snd p) (status_request self)" "st\<lparr>gm_agent := a\<rparr>",
      folded st1_def]
  have "poll_lms D E self (p # ls) st = poll_lms D E self ls st1"
    using a(1) by (simp add: poll_lms_Cons st1_def status_request_def)
  moreover have "sockets_idle (gm_agent st1)" using a(2) by (simp add: e)
  from Cons.IH [OF this] obtain st' where "poll_lms D E self ls st1 = Some st'"
    "localmanagers (gm_db st') = filter (\<lambda>l. \<forall>p \<in> set ls. gl_GUID l = fst p \<longrightarrow>
      ans (snd p) (status_request self) \<noteq> None) (localmanagers (gm_db st1))"
    "workers (gm_db st') = workers (gm_db st1)" "command_queue (gm_db st') = command_queue (gm_db st1)" by blast
  ultimately show ?case
    by (auto simp: e intro!: filter_cong)
qed simp

lemma clean_up_result:
  assumes "\<And>n. db_ok D n"
  shows "\<exists>k. command_queue (gm_db (clean_up D st)) = filter (\<lambda>c. \<not> (cq_Done c \<and>
        older_than (db_now D k) (60 * 30) (cq_CreationDate c))) (command_queue (gm_db st))"
    and "\<exists>k. workers (gm_db (clean_up D st)) = filter (\<lambda>w. \<not> older_than (db_now D k) 60 (wk_TimeOfLastRequest w))
        (workers (gm_db st))"
    and "localmanagers (gm_db (clean_up D st)) = localmanagers (gm_db st)"
    and "gm_agent (clean_up D st) = gm_agent st"
  by (auto simp: clean_up_def Let_def deleteDoneCommandsOlderThanXSec_def deleteManagedLMStatusOlderThanXSec_def
      deleteWorkersNotSeenSinceXSec_def deleteManagedLMLogMessagesIfMoreThan_def
      deleteManagedLMLogMessagesOlderThanXSec_def exec_stmt_def assms)

end
