(* ===== verification/GMProps.thy ===== *)
theory GMProps
  imports GMFacts
begin

text \<open>
  Properties of the global manager, alone and together with the agents that register, and the concrete
  manager that the witnesses run on.
\<close>

section \<open>Registration\<close>

text \<open>
  C18: A local manager is told the configuration of a job exactly when it has become the manager of this job
  at its location, whatever other registrations and changes have happened since the job was looked up.
  In particular the loser of a race is told to try again later and nothing else changes; so is a manager
  whose GUID is registered already.
\<close>

theorem lm_told_iff_registered:
  assumes "register_lm_for_job D fsd loc (int j) st = (r, st')" and "gm_wf (gm_db st)"
  shows "(if r = RetryLater True then localmanagers (gm_db st') = localmanagers (gm_db st)
      else \<exists>l f. (l, loc) \<in> set (locations (gm_db st)) \<and> f \<in> set (fuzzjob (gm_db st)) \<and> fj_ID f = j \<and>
        r = LmConfiguration (lmconfig_getProtobuf (job_conf f)) \<and>
        localmanagers (gm_db st') = localmanagers (gm_db st) @
          [\<lparr>gl_GUID = m_guid fsd, gl_HAP = m_serviceHostAndPort fsd, gl_Location = l, gl_FuzzJob = j\<rparr>]) \<and>
    workers (gm_db st') = workers (gm_db st) \<and>
    ((\<forall>n. db_ok D n) \<longrightarrow> (r \<noteq> RetryLater True \<longleftrightarrow>
      j \<in> set (vacant_jobs loc (gm_db st)) \<and> m_guid fsd \<notin> gl_GUID ` set (localmanagers (gm_db st))))"
proof -
  note res = register_lm_for_job_result [OF assms]
  have "r \<noteq> RetryLater True"
    if ok: "\<forall>n. db_ok D n" and v: "j \<in> set (vacant_jobs loc (gm_db st))"
      and g: "m_guid fsd \<notin> gl_GUID ` set (localmanagers (gm_db st))"
  proof -
    from v obtain l where "location_id loc (gm_db st) = Some l" "(l, j) \<in> set (location_fuzzjobs (gm_db st))"
      "(l, j) \<notin> gl_job ` set (localmanagers (gm_db st))"
      using vacant_jobs_mem [OF assms(2)] by blast
    from register_lm_for_job_ok [OF assms(2) _ this g] ok assms(1) show ?thesis by (metis fst_conv)
  qed
  moreover have "j \<in> set (vacant_jobs loc (gm_db st)) \<and> m_guid fsd \<notin> gl_GUID ` set (localmanagers (gm_db st))"
    if "r \<noteq> RetryLater True"
    using res(1) that vacant_jobs_mem [OF assms(2)] by blast
  moreover have "if r = RetryLater True then localmanagers (gm_db st') = localmanagers (gm_db st)
      else \<exists>l f. (l, loc) \<in> set (locations (gm_db st)) \<and> f \<in> set (fuzzjob (gm_db st)) \<and> fj_ID f = j \<and>
        r = LmConfiguration (lmconfig_getProtobuf (job_conf f)) \<and>
        localmanagers (gm_db st') = localmanagers (gm_db st) @
          [\<lparr>gl_GUID = m_guid fsd, gl_HAP = m_serviceHostAndPort fsd, gl_Location = l, gl_FuzzJob = j\<rparr>]"
    using res(1) location_id_Some [of loc "gm_db st"] by fastforce
  ultimately show ?thesis using res(6) by blast
qed

section \<open>A concrete global manager\<close>

definition wit_gD :: dbenv where
  "wit_gD = \<lparr>db_ok = \<lambda>_. True, db_now = int, db_order = \<lambda>_ xs. xs\<rparr>"

lemma wit_gD_simps [simp]: "db_ok wit_gD n" "db_now wit_gD n = int n" "db_order wit_gD k xs = xs"
  by (simp_all add: wit_gD_def)

definition wit_job :: fj_row where
  "wit_job = \<lparr>fj_ID = 4, fj_name = ''job'', fj_DBHost = ''db'', fj_DBUser = ''u'', fj_DBPass = ''p'', fj_DBName = ''n''\<rparr>"

text \<open>One location with one job; a runner is assigned to it, a generator is not.\<close>

definition wit_gdb :: gmdb where
  "wit_gdb = \<lparr>stmt_no = 0,
     command_queue = [\<lparr>cq_ID = 1, cq_Command = ''kill'', cq_Argument = ''h:9'', cq_CreationDate = 0, cq_Done = False,
       cq_Error = ''''\<rparr>],
     fuzzjob = [wit_job], locations = [(2, ''here'')], location_fuzzjobs = [(2, 4)],
     workers = [\<lparr>wk_GUID = ''r'', wk_HAP = ''h:1'', wk_FuzzJob = Some 4, wk_Location = 2, wk_TimeOfLastRequest = 0,
       wk_AgentType = TestcaseRunner, wk_AgentSubTypes = ''X''\<rparr>],
     localmanagers = [], localmanagers_statuses = [], next_ls = 1, localmanagers_logmessages = [], next_ll = 1\<rparr>"

definition wit_gm :: gm where
  "wit_gm = \<lparr>gm_db = wit_gdb, gm_agent = fresh_agent\<rparr>"

lemma wit_gm_inv: "gm_wf wit_gdb" "gm_wf (gm_db wit_gm)" "sockets_idle (gm_agent wit_gm)"
  by (simp_all add: wit_gdb_def wit_gm_def wit_job_def gm_wf_defs sockets_idle_def fresh_agent_def)

text \<open>Two managers race for the job: both looked it up, the first one gets it.\<close>

theorem lm_told_iff_registered_witness:
  "\<exists>r1 st1 r2 st2. register_lm_for_job wit_gD (mkServiceDescriptor ''h:2'' ''a'') ''here'' (int 4) wit_gm = (r1, st1) \<and>
     register_lm_for_job wit_gD (mkServiceDescriptor ''h:3'' ''b'') ''here'' (int 4) st1 = (r2, st2) \<and>
     r1 \<noteq> RetryLater True \<and> r2 = RetryLater True \<and> map gl_GUID (localmanagers (gm_db st2)) = [''a'']"
proof -
  let ?a = "mkServiceDescriptor ''h:2'' ''a''" and ?b = "mkServiceDescriptor ''h:3'' ''b''"
  obtain r1 st1 where 1: "register_lm_for_job wit_gD ?a ''here'' (int 4) wit_gm = (r1, st1)" by fastforce
  obtain r2 st2 where 2: "register_lm_for_job wit_gD ?b ''here'' (int 4) st1 = (r2, st2)" by fastforce
  have v: "vacant_jobs ''here'' (gm_db wit_gm) = [4]" "localmanagers (gm_db wit_gm) = []"
    by (simp_all add: vacant_jobs_def wit_gm_def wit_gdb_def)
  note a = lm_told_iff_registered [OF 1 wit_gm_inv(2)]
  have r1: "r1 \<noteq> RetryLater True" using a by (simp add: v)
  then obtain l where l: "l = 2" and m: "map gl_GUID (localmanagers (gm_db st1)) = [''a'']"
    "map gl_job (localmanagers (gm_db st1)) = [(l, 4)]"
    using a by (auto simp: v mkServiceDescriptor_def) (simp add: wit_gm_def wit_gdb_def)
  have f: "location_fuzzjobs (gm_db st1) = [(2, 4)]" "locations (gm_db st1) = [(2, ''here'')]"
    using register_lm_for_job_result(4,5) [OF 1 wit_gm_inv(2)] by (simp_all add: wit_gm_def wit_gdb_def)
  have "gl_job ` set (localmanagers (gm_db st1)) = {(2, 4)}"
    using arg_cong [OF m(2), of set] l by simp
  then have "vacant_jobs ''here'' (gm_db st1) = []" by (simp add: vacant_jobs_def f)
  moreover have "gm_wf (gm_db st1)"
    using 1 wit_gm_inv(2) gmwf by (auto simp: register_lm_for_job_def Let_def lift_gm_def split_beta
      lm_methods_wf(1) split: option.splits)
  ultimately have "r2 = RetryLater True" "localmanagers (gm_db st2) = localmanagers (gm_db st1)"
    using lm_told_iff_registered [OF 2] by (auto split: if_splits)
  with 1 2 r1 m show ?thesis by simp
qed

text \<open>
  Local managers that ask one after the other are given the vacant jobs of their location until there are
  none left, in whatever order the server lists them: with n vacant jobs the first n of them are configured
  and registered, one for each job, and the others are told to try again later.
\<close>

theorem vacant_jobs_get_managers:
  assumes "gm_wf (gm_db st)" and "\<And>n. db_ok D n" and "\<And>k xs. mset (db_order D k xs) = mset xs"
    and "distinct (map m_guid ds)" and "m_guid ` set ds \<inter> gl_GUID ` set (localmanagers (gm_db st)) = {}"
  shows "\<exists>ms st'. lm_requests D E loc ds st = Some (ms, st') \<and>
    (let n = length (vacant_jobs loc (gm_db st)) in
     map configured ms = replicate (min n (length ds)) True @ replicate (length ds - n) False \<and>
     map gl_GUID (localmanagers (gm_db st')) = map gl_GUID (localmanagers (gm_db st)) @ take n (map m_guid ds) \<and>
     length (vacant_jobs loc (gm_db st')) = n - length ds)"
  using assms(1,4,5)
proof (induction ds arbitrary: st)
  case Nil
  then show ?case by simp
next
  case (Cons d ds)
  obtain r st1 where r: "register_lm D (sd_of_proto (sd_getProtobuf d)) [] loc st = (r, st1)" by fastforce
  have g: "m_guid (sd_of_proto (sd_getProtobuf d)) = m_guid d" by (simp add: sd_of_proto_def sd_getProtobuf_def)
  have new: "m_guid (sd_of_proto (sd_getProtobuf d)) \<notin> gl_GUID ` set (localmanagers (gm_db st))"
    using Cons.prems(3) by (auto simp: g)
  note v = register_lm_vacant [OF Cons.prems(1) assms(2,3) new r, unfolded g]
  have wf1: "gm_wf (gm_db st1)" using register_lm_wf [OF Cons.prems(1)] r by (metis snd_conv)
  have "map gl_GUID (localmanagers (gm_db st1)) = map gl_GUID (localmanagers (gm_db st)) \<or>
      map gl_GUID (localmanagers (gm_db st1)) = map gl_GUID (localmanagers (gm_db st)) @ [m_guid d]"
    using v by (cases "vacant_jobs loc (gm_db st)") auto
  then have sub: "gl_GUID ` set (localmanagers (gm_db st1)) \<subseteq> insert (m_guid d) (gl_GUID ` set (localmanagers (gm_db st)))"
    unfolding set_map [symmetric] by (elim disjE) (simp_all add: subset_insertI)
  have disj: "B \<subseteq> insert x C \<Longrightarrow> x \<notin> A \<Longrightarrow> insert x A \<inter> C = {} \<Longrightarrow> A \<inter> B = {}" for A B C and x :: string
    by blast
  have "m_guid ` set ds \<inter> gl_GUID ` set (localmanagers (gm_db st1)) = {}"
    by (rule disj [OF sub]) (use Cons.prems(2,3) in simp_all)
  from Cons.IH [OF wf1 _ this] Cons.prems(2) obtain ms st' where
    ih: "lm_requests D E loc ds st1 = Some (ms, st')" and
    n: "let n = length (vacant_jobs loc (gm_db st1)) in
     map configured ms = replicate (min n (length ds)) True @ replicate (length ds - n) False \<and>
     map gl_GUID (localmanagers (gm_db st')) = map gl_GUID (localmanagers (gm_db st1)) @ take n (map m_guid ds) \<and>
     length (vacant_jobs loc (gm_db st')) = n - length ds" by auto
  have "lm_requests D E loc (d # ds) st = Some (RegisterAtGMResponse r # ms, st')"
    by (simp add: lm_request_handled r ih)
  then show ?case
    using v n by (cases "vacant_jobs loc (gm_db st)") (auto simp: Let_def)
qed

text \<open>One vacant job and two local managers.\<close>

theorem vacant_jobs_get_managers_witness:
  "\<exists>ms st'. lm_requests wit_gD quiet_env ''here'' [mkServiceDescriptor ''h:2'' ''a'', mkServiceDescriptor ''h:3'' ''b'']
      wit_gm = Some (ms, st') \<and>
    map configured ms = [True, False] \<and> map gl_GUID (localmanagers (gm_db st')) = [''a''] \<and>
    vacant_jobs ''here'' (gm_db st') = []"
proof -
  have v: "vacant_jobs ''here'' (gm_db wit_gm) = [4]" "localmanagers (gm_db wit_gm) = []"
    by (simp_all add: vacant_jobs_def wit_gm_def wit_gdb_def)
  show ?thesis
    using vacant_jobs_get_managers [of wit_gm wit_gD "[mkServiceDescriptor ''h:2'' ''a'', mkServiceDescriptor ''h:3'' ''b'']"
        quiet_env "''here''"] wit_gm_inv(2)
    by (simp add: v mkServiceDescriptor_def)
qed

text \<open>
  C19: An agent that the user assigned to a job is sent to the local manager of this job exactly when this
  manager answers that it is welcome; the tables stay as they are then. In every other case, also when
  the manager is only not reached once, the agent is told to try again later, its manager stays
  unknown to it, and the user's assignment is cleared.
\<close>

theorem agent_told_iff_welcomed:
  assumes "gm_wf (gm_db st)" and "\<And>n. db_ok D n" and "w \<in> set (workers (gm_db st))"
    and "l \<in> set (localmanagers (gm_db st))" and "wk_Location w = gl_Location l"
    and "wk_FuzzJob w = Some (gl_FuzzJob l)" and "wk_GUID w = m_guid self"
    and "type \<in> {TestcaseGenerator, TestcaseRunner, TestcaseEvaluator}"
    and "RegisterAtGMRequestHandler D Eg (RegisterAtGMRequest \<lparr>reg_type = type, reg_implementedAgentSubTypes = sts,
      reg_serviceDescriptor = Some (sd_getProtobuf self), reg_location = loc\<rparr>) st = Some (resp, st')"
    and "env_net E (Suc (tick a)) GMHAP (RegisterAtGMRequest \<lparr>reg_type = type, reg_implementedAgentSubTypes = sts,
      reg_serviceDescriptor = Some (sd_getProtobuf self), reg_location = loc\<rparr>) = Reply resp"
    and "registerAtGM E self type sts loc GMHAP a = Some (ok, a')"
  shows "(ok \<longleftrightarrow> env_net Eg (Suc (tick (gm_agent st))) (gl_HAP l) (IsAgentWelcomedRequest type sts) =
      Reply (IsAgentWelcomedResponse True)) \<and>
    (if ok then m_lmServiceDescriptor a' = mkServiceDescriptor (gl_HAP l) (gl_GUID l) \<and>
       workers (gm_db st') = workers (gm_db st)
     else m_lmServiceDescriptor a' = m_lmServiceDescriptor a \<and>
       (\<forall>v \<in> set (workers (gm_db st')). wk_GUID v = m_guid self \<longrightarrow> wk_FuzzJob v = None)) \<and>
    localmanagers (gm_db st') = localmanagers (gm_db st)"
proof -
  let ?self = "sd_of_proto (sd_getProtobuf self)"
  define lm where "lm = mkServiceDescriptor (gl_HAP l) (gl_GUID l)"
  have lm: "m_serviceHostAndPort lm = gl_HAP l" "\<not> m_isNull lm" "m_isNull sd_getNullObject"
    by (simp_all add: lm_def mkServiceDescriptor_def sd_getNullObject_def)
  have g: "m_guid ?self = m_guid self" by (simp add: sd_of_proto_def sd_getProtobuf_def)
  have get: "getLMServiceDescriptorForWorker D ?self (gm_db st) = (lm, next_stmt (gm_db st))"
    unfolding lm_def by (rule assigned_lm [OF assms(1,2,3) _ assms(4,5,6)]) (simp add: g assms(7))
  from assms(8,9) obtain r where rw: "register_worker D Eg ?self type sts loc st = Some (r, st')"
    and resp: "resp = RegisterAtGMResponse r"
    by (auto simp: RegisterAtGMRequestHandler_def registeratgmrequest_def opt_or_def Let_def split: if_splits)
  then obtain wl b where wl: "agentIsWelcomedAt Eg type sts lm (gm_agent st) = Some (wl, b)"
    by (auto simp: register_worker_def lift_gm_def get lm bind_eq_Some_conv)
  note iff = welcome_iff [OF wl, unfolded lm]
  have gm: "r = (if wl then LmServiceDescriptor (sd_getProtobuf lm) else RetryLater True) \<and>
      localmanagers (gm_db st') = localmanagers (gm_db st) \<and>
      (if wl then workers (gm_db st') = workers (gm_db st)
       else \<forall>v \<in> set (workers (gm_db st')). wk_GUID v = m_guid self \<longrightarrow> wk_FuzzJob v = None)"
    using rw by (cases wl) (auto simp: register_worker_def lift_gm_def get lm wl removeWorkerFromDatabase_def
        addWorkerToDatabase_def exec_stmt_def assms(2) replace_worker_def g split: option.splits)
  from assms(11) obtain m b' where s: "sendReqAndRecvResp E (RegisterAtGMRequest \<lparr>reg_type = type,
      reg_implementedAgentSubTypes = sts, reg_serviceDescriptor = Some (sd_getProtobuf self), reg_location = loc\<rparr>)
      GMHAP timeoutGMRegisterMessage a = Some (m, b')"
    by (auto simp: registerAtGM_def bind_eq_Some_conv)
  have m: "m = Some resp"
    using assms(10) by (cases rule: sendReqAndRecvResp_cases [OF s]) auto
  have b': "m_lmServiceDescriptor b' = m_lmServiceDescriptor a" using s by (rule sendReqAndRecvResp_frame)
  have rt: "sd_of_proto (sd_getProtobuf lm) = lm"
    by (simp add: lm_def sd_of_proto_def sd_getProtobuf_def mkServiceDescriptor_def)
  have "ok = wl \<and> m_lmServiceDescriptor a' = (if wl then lm else m_lmServiceDescriptor a)"
    using assms(11) gm b' rt by (auto simp: registerAtGM_def s m resp registeratgmresponse_def split: if_splits)
  with gm iff show ?thesis by (auto simp: lm_def)
qed

definition wit_gm2 :: gm where
  "wit_gm2 = \<lparr>gm_db = wit_gdb\<lparr>localmanagers := [\<lparr>gl_GUID = ''m'', gl_HAP = ''h:2'', gl_Location = 2, gl_FuzzJob = 4\<rparr>]\<rparr>,
     gm_agent = fresh_agent\<rparr>"

definition wit_welcome :: env where
  "wit_welcome = quiet_env\<lparr>env_net := \<lambda>_ _ _. Reply (IsAgentWelcomedResponse True)\<rparr>"

definition wit_self :: FluffiServiceDescriptor where
  "wit_self = mkServiceDescriptor ''h:1'' ''r''"

definition wit_ask :: FLUFFIMessage where
  "wit_ask = RegisterAtGMRequest \<lparr>reg_type = TestcaseRunner, reg_implementedAgentSubTypes = [''X''],
     reg_serviceDescriptor = Some (sd_getProtobuf wit_self), reg_location = ''here''\<rparr>"

definition wit_told :: env where
  "wit_told = quiet_env\<lparr>env_net := \<lambda>_ _ _.
     Reply (RegisterAtGMResponse (LmServiceDescriptor \<lparr>sd_serviceHostAndPort = ''h:2'', sd_guid = ''m''\<rparr>))\<rparr>"

theorem agent_told_iff_welcomed_witness:
  "\<exists>resp st' a'. RegisterAtGMRequestHandler wit_gD wit_welcome wit_ask wit_gm2 = Some (resp, st') \<and>
    registerAtGM wit_told wit_self TestcaseRunner [''X''] ''here'' ''gm'' fresh_agent = Some (True, a') \<and>
    m_lmServiceDescriptor a' = mkServiceDescriptor ''h:2'' ''m''"
proof -
  have "map_option fst (RegisterAtGMRequestHandler wit_gD wit_welcome wit_ask wit_gm2) =
      Some (RegisterAtGMResponse (LmServiceDescriptor \<lparr>sd_serviceHostAndPort = ''h:2'', sd_guid = ''m''\<rparr>))"
    by code_simp
  then obtain st' where h: "RegisterAtGMRequestHandler wit_gD wit_welcome wit_ask wit_gm2 =
      Some (RegisterAtGMResponse (LmServiceDescriptor \<lparr>sd_serviceHostAndPort = ''h:2'', sd_guid = ''m''\<rparr>), st')" by auto
  have "map_option fst (registerAtGM wit_told wit_self TestcaseRunner [''X''] ''here'' ''gm'' fresh_agent) = Some True"
    by code_simp
  then obtain a' where a: "registerAtGM wit_told wit_self TestcaseRunner [''X''] ''here'' ''gm'' fresh_agent = Some (True, a')"
    by auto
  have wf: "gm_wf (gm_db wit_gm2)" by (simp add: wit_gm2_def wit_gdb_def wit_job_def gm_wf_defs)
  have net: "env_net wit_told (Suc (tick fresh_agent)) ''gm'' (RegisterAtGMRequest \<lparr>reg_type = TestcaseRunner,
      reg_implementedAgentSubTypes = [''X''], reg_serviceDescriptor = Some (sd_getProtobuf wit_self),
      reg_location = ''here''\<rparr>) =
      Reply (RegisterAtGMResponse (LmServiceDescriptor \<lparr>sd_serviceHostAndPort = ''h:2'', sd_guid = ''m''\<rparr>))"
    by (simp add: wit_told_def)
  have w: "\<lparr>wk_GUID = ''r'', wk_HAP = ''h:1'', wk_FuzzJob = Some 4, wk_Location = 2, wk_TimeOfLastRequest = 0,
      wk_AgentType = TestcaseRunner, wk_AgentSubTypes = ''X''\<rparr> \<in> set (workers (gm_db wit_gm2))"
    and l: "\<lparr>gl_GUID = ''m'', gl_HAP = ''h:2'', gl_Location = 2, gl_FuzzJob = 4\<rparr> \<in> set (localmanagers (gm_db wit_gm2))"
    by (simp_all add: wit_gm2_def wit_gdb_def)
  from agent_told_iff_welcomed [OF wf _ w l _ _ _ _ h [unfolded wit_ask_def] net a] h a show ?thesis
    by (simp add: wit_self_def mkServiceDescriptor_def)
qed

text \<open>
  A round of the monitor returns, and afterwards the registered local managers are exactly those that
  answered it, every open command is done, with an error exactly when it is no kill command or the peer did not
  confirm it, and only commands older than half an hour and agents not seen for a minute are gone.
\<close>

theorem monitor_round_settles:
  assumes "gm_wf (gm_db st)" and "sockets_idle (gm_agent st)" and "\<And>n. db_ok D n" and "steady_peers E ans"
  shows "\<exists>st' k k'. LMMonitorWorker_round D E self st = Some st' \<and>
    localmanagers (gm_db st') = filter (\<lambda>l. ans (gl_HAP l) (status_request self) \<noteq> None) (localmanagers (gm_db st)) \<and>
    command_queue (gm_db st') = filter (\<lambda>c. \<not> older_than (db_now D k) (60 * 30) (cq_CreationDate c))
      (map (settle ans) (command_queue (gm_db st))) \<and>
    workers (gm_db st') = filter (\<lambda>w. \<not> older_than (db_now D k') 60 (wk_TimeOfLastRequest w)) (workers (gm_db st))"
proof -
  let ?cs = "map (\<lambda>c. (cq_ID c, cq_Command c, cq_Argument c)) (filter (\<lambda>c. \<not> cq_Done c) (command_queue (gm_db st)))"
  have g: "lift_gm (getNewCommands D) st = (?cs, st\<lparr>gm_db := next_stmt (gm_db st)\<rparr>)"
    by (simp add: lift_gm_def getNewCommands_def query_def assms(3) opt_or_def)
  from handle_commands_result [OF assms(3,4), of "st\<lparr>gm_db := next_stmt (gm_db st)\<rparr>" ?cs] assms(2)
  obtain st1 where h: "handle_commands D E ?cs (st\<lparr>gm_db := next_stmt (gm_db st)\<rparr>) = Some st1"
    "sockets_idle (gm_agent st1)" "command_queue (gm_db st1) = map (fold (mark ans) ?cs) (command_queue (gm_db st))"
    "workers (gm_db st1) = workers (gm_db st)" "localmanagers (gm_db st1) = localmanagers (gm_db st)" by auto
  have q: "command_queue (gm_db st1) = map (settle ans) (command_queue (gm_db st))"
    unfolding h(3) by (rule map_cong [OF refl open_commands_settled [OF assms(1)]])
  then have dn: "\<forall>c \<in> set (command_queue (gm_db st1)). cq_Done c" by (auto simp: settle_def)
  note c = clean_up_result [OF assms(3), of st1]
  let ?ls = "map (\<lambda>l. (gl_GUID l, gl_HAP l)) (localmanagers (gm_db st))"
  let ?st2 = "(clean_up D st1)\<lparr>gm_db := next_stmt (gm_db (clean_up D st1))\<rparr>"
  have l: "lift_gm (getAllRegisteredLMs D) (clean_up D st1) = (?ls, ?st2)"
    by (simp add: lift_gm_def getAllRegisteredLMs_def query_def assms(3) opt_or_def c(3) h(5))
  from poll_lms_result [OF assms(3,4), of ?st2 self ?ls] obtain st' where
    p: "poll_lms D E self ?ls ?st2 = Some st'" "localmanagers (gm_db st') = filter (\<lambda>l. \<forall>p \<in> set ?ls.
      gl_GUID l = fst p \<longrightarrow> ans (snd p) (status_request self) \<noteq> None) (localmanagers (gm_db st))"
    "workers (gm_db st') = workers (gm_db (clean_up D st1))"
    "command_queue (gm_db st') = command_queue (gm_db (clean_up D st1))"
    using h(2) by (auto simp: c(3,4) h(5))
  have inj: "inj_on gl_GUID (set (localmanagers (gm_db st)))" using assms(1) by (simp add: gm_wf_defs distinct_map)
  have lms: "localmanagers (gm_db st') = filter (\<lambda>l. ans (gl_HAP l) (status_request self) \<noteq> None) (localmanagers (gm_db st))"
    unfolding p(2) by (rule filter_cong) (auto dest: inj_onD [OF inj])
  from c(1) obtain k where k: "command_queue (gm_db st') = filter (\<lambda>c. \<not> (cq_Done c \<and>
      older_than (db_now D k) (60 * 30) (cq_CreationDate c))) (command_queue (gm_db st1))" using p(4) by auto
  have cs: "command_queue (gm_db st') = filter (\<lambda>c. \<not> older_than (db_now D k) (60 * 30) (cq_CreationDate c))
      (map (settle ans) (command_queue (gm_db st)))"
    unfolding k q [symmetric] by (rule filter_cong) (use dn in auto)
  have "LMMonitorWorker_round D E self st = Some st'"
    using p(1) by (simp add: LMMonitorWorker_round_def g h(1) l Let_def)
  with lms cs c(2) p(3) h(4) show ?thesis by auto
qed

text \<open>No peer answers: the local manager is removed and the kill command has failed.\<close>

theorem monitor_round_settles_witness:
  "\<exists>st'. LMMonitorWorker_round wit_gD quiet_env wit_self wit_gm2 = Some st' \<and> localmanagers (gm_db st') = [] \<and>
    (\<forall>c \<in> set (command_queue (gm_db st')). cq_Error c = ''Could not perform command'')"
proof -
  have wf: "gm_wf (gm_db wit_gm2)" "sockets_idle (gm_agent wit_gm2)"
    by (simp_all add: wit_gm2_def wit_gdb_def wit_job_def gm_wf_defs sockets_idle_def fresh_agent_def)
  have ok: "db_ok wit_gD n" for n by simp
  have "steady_peers quiet_env (\<lambda>_ _. None)" by (simp add: steady_peers_def quiet_env_def)
  from monitor_round_settles [OF wf ok this, of wit_self] obtain st' k where
    r: "LMMonitorWorker_round wit_gD quiet_env wit_self wit_gm2 = Some st'" "localmanagers (gm_db st') = []"
    and q: "command_queue (gm_db st') = filter (\<lambda>c. \<not> older_than (db_now wit_gD k) (60 * 30) (cq_CreationDate c))
      (map (settle (\<lambda>_ _. None)) (command_queue (gm_db wit_gm2)))" by auto
  have "cq_Error c = ''Could not perform command''" if "c \<in> set (command_queue (gm_db st'))" for c
    using that unfolding q by (auto simp: wit_gm2_def wit_gdb_def settle_def command_ok_def split: if_splits)
  with r show ?thesis by blast
qed

section \<open>The global manager as a transition system\<close>



end
