(* ===== verification/RegProps.thy ===== *)
theory RegProps
  imports GMProps
begin

text \<open>
  Properties of the loops in which an agent waits for its registration (\<open>CommInt.cpp\<close>): at the global
  manager a bounded number of attempts, at the local manager as many as it takes.
\<close>

section \<open>Agents that wait for their registration\<close>

lemma key_wait_frame:
  "key_wait E interval waited a = (b, a') \<Longrightarrow> \<exists>n > tick a. a' = a\<lparr>tick := n\<rparr>"
proof (induction E interval waited a arbitrary: b a' rule: key_wait.induct)
  case (1 E interval waited a)
  note step = 1(2) [unfolded key_wait.simps [of E interval waited a] Let_def]
  show ?case
  proof (cases "waited < interval \<and> \<not> env_kbhit E (tick a)")
    case True
    then have "key_wait E interval (waited + 500) (next_tick a) = (b, a')" using step by simp
    have "\<exists>n > tick (next_tick a). a' = (next_tick a)\<lparr>tick := n\<rparr>"
      by (rule 1(1) [OF refl refl _ _ \<open>key_wait E interval (waited + 500) (next_tick a) = (b, a')\<close>])
        (use True in simp_all)
    then obtain n where "n > Suc (tick a)" "a' = a\<lparr>tick := n\<rparr>" by auto
    then show ?thesis by (intro exI [of _ n]) simp
  next
    case False
    then have "a' = next_tick a" using step by (auto split: if_splits)
    then show ?thesis by (intro exI [of _ "Suc (tick a)"]) simp
  qed
qed

lemma key_wait_idle: "sockets_idle a \<Longrightarrow> key_wait E interval waited a = (b, a') \<Longrightarrow> sockets_idle a'"
  by (auto dest: key_wait_frame)

lemma key_wait_pressed: "key_wait E interval waited a = (True, a') \<Longrightarrow> \<exists>k. env_kbhit E k"
proof (induction E interval waited a arbitrary: a' rule: key_wait.induct)
  case (1 E interval waited a)
  note step = 1(2) [unfolded key_wait.simps [of E interval waited a] Let_def]
  show ?case
  proof (cases "env_kbhit E (tick a)")
    case False
    then have w: "waited < interval" and "key_wait E interval (waited + 500) (next_tick a) = (True, a')"
      using step by (auto split: if_splits)
    from this(2) show ?thesis by (rule 1(1) [OF refl refl w False])
  qed blast
qed

lemma sendReqAndRecvResp_tick:
  assumes "sendReqAndRecvResp E req hap t a = Some (r, a')" shows "tick a \<le> tick a'"
  using assms
  by (auto simp: sendReqAndRecvResp_def Let_def getSocketFor_simps clearSocketFor_def set_awaiting_def
      storeRoundTripTime_def split: if_splits net_result.splits)

definition gm_request :: "FluffiServiceDescriptor \<Rightarrow> AgentType \<Rightarrow> string list \<Rightarrow> string \<Rightarrow> FLUFFIMessage" where
  "gm_request self type subTypes location = RegisterAtGMRequest \<lparr>reg_type = type,
     reg_implementedAgentSubTypes = subTypes, reg_serviceDescriptor = Some (sd_getProtobuf self),
     reg_location = location\<rparr>"

text \<open>The answers after which \<open>registerAtGM\<close> reports success, and the manager that it then knows.\<close>

definition gm_accepts :: "FLUFFIMessage \<Rightarrow> bool" where
  "gm_accepts resp \<longleftrightarrow> registeratgmresponse resp \<noteq> RetryLater True"

definition told_lm :: "FLUFFIMessage \<Rightarrow> FluffiServiceDescriptor" where
  "told_lm resp = sd_of_proto (case registeratgmresponse resp of LmServiceDescriptor d \<Rightarrow> d | _ \<Rightarrow> default_ServiceDescriptor)"

lemma registerAtGM_result:
  assumes "registerAtGM E self type sts loc hap a = Some (ok, a')"
  shows "case ok of
      True \<Rightarrow> \<exists>k resp. env_net E k hap (gm_request self type sts loc) = Reply resp \<and> gm_accepts resp \<and>
        m_lmServiceDescriptor a' = told_lm resp
    | False \<Rightarrow> m_lmServiceDescriptor a' = m_lmServiceDescriptor a"
    and "sockets_idle a \<Longrightarrow> sockets_idle a'"
proof -
  from assms obtain r b where s: "sendReqAndRecvResp E (gm_request self type sts loc) hap timeoutGMRegisterMessage a =
      Some (r, b)"
    and res: "(ok, a') = (case r of None \<Rightarrow> (False, b)
      | Some m \<Rightarrow> (case registeratgmresponse m of RetryLater True \<Rightarrow> (False, b)
         | LmServiceDescriptor d \<Rightarrow> (True, b\<lparr>m_lmServiceDescriptor := sd_of_proto d\<rparr>)
         | _ \<Rightarrow> (True, b\<lparr>m_lmServiceDescriptor := sd_of_proto default_ServiceDescriptor\<rparr>)))"
    by (auto simp: registerAtGM_def gm_request_def bind_eq_Some_conv)
  have b: "m_lmServiceDescriptor b = m_lmServiceDescriptor a" using s by (rule sendReqAndRecvResp_frame)
  have "r = None \<or> (\<exists>m. r = Some m \<and> env_net E (Suc (tick a)) hap (gm_request self type sts loc) = Reply m)"
    using s by (cases rule: sendReqAndRecvResp_cases) auto
  then show "case ok of
      True \<Rightarrow> \<exists>k resp. env_net E k hap (gm_request self type sts loc) = Reply resp \<and> gm_accepts resp \<and>
        m_lmServiceDescriptor a' = told_lm resp
    | False \<Rightarrow> m_lmServiceDescriptor a' = m_lmServiceDescriptor a"
  proof
    assume "r = None"
    then show ?thesis using res b by simp
  next
    assume "\<exists>m. r = Some m \<and> env_net E (Suc (tick a)) hap (gm_request self type sts loc) = Reply m"
    then obtain m where m: "r = Some m" "env_net E (Suc (tick a)) hap (gm_request self type sts loc) = Reply m" by blast
    show ?thesis
      using res b m by (cases "registeratgmresponse m")
        (auto simp: gm_accepts_def told_lm_def split: bool.splits if_splits intro!: exI [of _ "Suc (tick a)"] exI [of _ m])
  qed
  show "sockets_idle a \<Longrightarrow> sockets_idle a'"
    using res sendReqAndRecvResp_idle [OF s]
    by (auto simp: sockets_idle_def split: option.splits gmResponse.splits bool.splits)
qed

lemma registerAtGM_returns:
  assumes "sockets_idle a" and "\<forall>k hap req. env_net E k hap req \<notin> {SendError, RecvError}"
  obtains ok a' where "registerAtGM E self type sts loc hap a = Some (ok, a')"
proof -
  from sendReqAndRecvResp_returns [OF assms(1)] assms(2) obtain r b where
    "sendReqAndRecvResp E (gm_request self type sts loc) hap timeoutGMRegisterMessage a = Some (r, b)" by blast
  then have "registerAtGM E self type sts loc hap a \<noteq> None"
    by (simp add: registerAtGM_def gm_request_def)
  then obtain p where "registerAtGM E self type sts loc hap a = Some p" by blast
  then show thesis by (cases p) (rule that, simp)
qed

text \<open>
  The registration loop of an agent at the global manager returns after at most five attempts; it reports
  success exactly with an answer other than \<open>retryLater\<close>, and the agent then knows the manager of that
  answer; otherwise it still knows the one it knew before.
\<close>

theorem gm_registration_returns:
  assumes "sockets_idle a" and "\<forall>k hap req. env_net E k hap req \<notin> {SendError, RecvError}"
  shows "\<exists>ok a'. waitForGMRegistration E self type sts loc interval a = Some (ok, a') \<and> sockets_idle a' \<and>
    (if ok then \<exists>k resp. env_net E k GlobalManagerHAP (gm_request self type sts loc) = Reply resp \<and>
        gm_accepts resp \<and> m_lmServiceDescriptor a' = told_lm resp
     else m_lmServiceDescriptor a' = m_lmServiceDescriptor a)"
proof -
  have "\<exists>ok a'. gm_registration_loop E self type sts loc interval n a = Some (ok, a') \<and> sockets_idle a' \<and>
    (if ok then \<exists>k resp. env_net E k GlobalManagerHAP (gm_request self type sts loc) = Reply resp \<and>
        gm_accepts resp \<and> m_lmServiceDescriptor a' = told_lm resp
     else m_lmServiceDescriptor a' = m_lmServiceDescriptor a)" for n
    using assms(1)
  proof (induction n arbitrary: a)
    case (Suc n)
    from registerAtGM_returns [OF Suc.prems assms(2)] obtain ok b where
      r: "registerAtGM E self type sts loc GlobalManagerHAP a = Some (ok, b)" by blast
    note res = registerAtGM_result(1) [OF r] registerAtGM_result(2) [OF r Suc.prems]
    show ?case
    proof (cases ok)
      case True
      then show ?thesis using r res by auto
    next
      case False
      obtain pressed c where w: "key_wait E interval 0 b = (pressed, c)" by fastforce
      have c: "sockets_idle c" "m_lmServiceDescriptor c = m_lmServiceDescriptor a"
        using key_wait_idle [OF res(2) w] key_wait_frame [OF w] res(1) False by auto
      show ?thesis
      proof (cases pressed)
        case True
        then have "gm_registration_loop E self type sts loc interval (Suc n) a = Some (False, c)"
          using r w False by simp
        then show ?thesis using c by (intro exI [of _ False] exI [of _ c]) simp
      next
        case no_key: False
        then have "gm_registration_loop E self type sts loc interval (Suc n) a =
            gm_registration_loop E self type sts loc interval n c"
          using r w False by simp
        then show ?thesis using Suc.IH [OF c(1)] unfolding c(2) by simp
      qed
    qed
  qed auto
  then show ?thesis unfolding waitForGMRegistration_def .
qed

theorem gm_registration_returns_witness:
  "\<exists>a'. waitForGMRegistration wit_told wit_self TestcaseRunner [''X''] ''here'' 500 fresh_agent = Some (True, a') \<and>
    m_lmServiceDescriptor a' = mkServiceDescriptor ''h:2'' ''m''"
proof -
  have idle: "sockets_idle fresh_agent" by (simp add: fresh_agent_def sockets_idle_def)
  have net: "\<forall>k hap req. env_net wit_told k hap req \<notin> {SendError, RecvError}" by (simp add: wit_told_def)
  have "map_option fst (waitForGMRegistration wit_told wit_self TestcaseRunner [''X''] ''here'' 500 fresh_agent) = Some True"
    by code_simp
  with gm_registration_returns [OF idle net, of wit_self TestcaseRunner "[''X'']" "''here''" 500] obtain a' where
    "waitForGMRegistration wit_told wit_self TestcaseRunner [''X''] ''here'' 500 fresh_agent = Some (True, a')"
    "m_lmServiceDescriptor a' = told_lm (RegisterAtGMResponse (LmServiceDescriptor
      \<lparr>sd_serviceHostAndPort = ''h:2'', sd_guid = ''m''\<rparr>))"
    by (auto simp: wit_told_def)
  then show ?thesis
    by (simp add: told_lm_def registeratgmresponse_def sd_of_proto_def mkServiceDescriptor_def)
qed

text \<open>
  The loop at the local manager has no limit on its attempts. It still returns as soon as the manager answers
  and accepts the agent from some point on, however long it refuses or is unreachable before; it then fails only
  when a key was pressed.
\<close>

theorem lm_registration_returns:
  assumes "sockets_idle a" and "\<forall>k hap req. env_net E k hap req \<notin> {SendError, RecvError}"
    and "\<forall>k \<ge> N. \<exists>name. env_net E k (m_serviceHostAndPort (m_lmServiceDescriptor a))
      (RegisterAtLMRequest \<lparr>reg_type = type, reg_implementedAgentSubTypes = sts,
        reg_serviceDescriptor = Some (sd_getProtobuf self), reg_location = loc\<rparr>) = Reply (RegisterAtLMResponse True name)"
  shows "\<exists>ok a'. waitForLMRegistration E self type sts loc interval a = Some (ok, a') \<and>
    (\<not> ok \<longrightarrow> (\<exists>k. env_kbhit E k))"
  using assms(1,3)
proof (induction "N - tick a" arbitrary: a rule: less_induct)
  case less
  let ?req = "RegisterAtLMRequest \<lparr>reg_type = type, reg_implementedAgentSubTypes = sts,
    reg_serviceDescriptor = Some (sd_getProtobuf self), reg_location = loc\<rparr>"
  let ?hap = "m_serviceHostAndPort (m_lmServiceDescriptor a)"
  from sendReqAndRecvResp_returns [OF less.prems(1)] assms(2) obtain r b where
    s: "sendReqAndRecvResp E ?req ?hap timeoutNormalMessage a = Some (r, b)" by blast
  define ok where "ok = (case r of Some (RegisterAtLMResponse ok fuzzjobname) \<Rightarrow> ok | _ \<Rightarrow> False)"
  have reg: "registerAtLM E self type sts loc ?hap a = Some (ok, b)"
    by (simp add: registerAtLM_def s ok_def)
  show ?case
  proof (cases ok)
    case True
    then show ?thesis using reg by (subst waitForLMRegistration.simps) auto
  next
    case False
    have early: "Suc (tick a) < N"
    proof (rule ccontr)
      assume "\<not> Suc (tick a) < N"
      then obtain name where "env_net E (Suc (tick a)) ?hap ?req = Reply (RegisterAtLMResponse True name)"
        using less.prems(2) by (meson not_less)
      then have "r = Some (RegisterAtLMResponse True name)"
        by (cases rule: sendReqAndRecvResp_cases [OF s]) auto
      then show False using False by (simp add: ok_def)
    qed
    obtain pressed c where w: "key_wait E interval 0 b = (pressed, c)" by fastforce
    from key_wait_frame [OF w] obtain n where n: "n > tick b" "c = b\<lparr>tick := n\<rparr>" by blast
    have c: "sockets_idle c" "m_lmServiceDescriptor c = m_lmServiceDescriptor a"
      using key_wait_idle [OF sendReqAndRecvResp_idle [OF s less.prems(1)] w] sendReqAndRecvResp_frame(3) [OF s] n
      by simp_all
    have "tick a \<le> tick b" using sendReqAndRecvResp_tick [OF s] .
    then have closer: "N - tick c < N - tick a" using n early by simp
    show ?thesis
    proof (cases pressed)
      case True
      then have "\<exists>k. env_kbhit E k" using key_wait_pressed [of E interval 0 b c] w by simp
      then show ?thesis
        using reg False w True by (subst waitForLMRegistration.simps) auto
    next
      case no_key: False
      from less.hyps [OF closer c(1)] less.prems(2) c(2) show ?thesis
        using reg False w no_key by (subst waitForLMRegistration.simps) simp
    qed
  qed
qed

theorem lm_registration_returns_witness:
  "\<exists>a'. waitForLMRegistration (quiet_env\<lparr>env_net := \<lambda>_ _ _. Reply (RegisterAtLMResponse True ''job'')\<rparr>) wit_self
    TestcaseRunner [''X''] ''here'' 500 fresh_agent = Some (True, a')"
proof -
  let ?E = "quiet_env\<lparr>env_net := \<lambda>_ _ _. Reply (RegisterAtLMResponse True ''job'')\<rparr>"
  have "sockets_idle fresh_agent" by (simp add: fresh_agent_def sockets_idle_def)
  from lm_registration_returns [OF this, of ?E 0 TestcaseRunner "[''X'']" wit_self "''here''" 500]
  show ?thesis by (auto simp: quiet_env_def)
qed

end
