(* ===== verification/SharedMem.thy ===== *)
theory SharedMem
  imports Prelude
begin

text \<open>
  Messages over shared memory between the runner and the program that feeds a target
  (\<open>SharedMemMessage.cpp\<close>, \<open>SharedMemIPC.cpp\<close>, the Linux part): the objects of the operating system that
  both sides share, setting the channel up and tearing it down, sending and waiting.

  The memory has two halves, one for each direction, with the name of a FIFO, the type of the message, the length of
  its data and the data. What the other processes do while this one waits is a parameter, as is which system
  calls fail for a reason of their own; between two waits of this process the others are not seen.
\<close>

section \<open>Messages\<close>

type_synonym SharedMemMessageType = "32 word"

abbreviation SHARED_MEM_MESSAGE_TERMINATE :: SharedMemMessageType where "SHARED_MEM_MESSAGE_TERMINATE \<equiv> 0x1"
abbreviation SHARED_MEM_MESSAGE_FUZZ_FILENAME :: SharedMemMessageType where "SHARED_MEM_MESSAGE_FUZZ_FILENAME \<equiv> 0x2"
abbreviation SHARED_MEM_MESSAGE_FUZZ_DONE :: SharedMemMessageType where "SHARED_MEM_MESSAGE_FUZZ_DONE \<equiv> 0x3"
abbreviation SHARED_MEM_MESSAGE_TARGET_PID :: SharedMemMessageType where "SHARED_MEM_MESSAGE_TARGET_PID \<equiv> 0x5"
abbreviation SHARED_MEM_MESSAGE_READY_TO_FUZZ :: SharedMemMessageType where "SHARED_MEM_MESSAGE_READY_TO_FUZZ \<equiv> 0x6"
abbreviation SHARED_MEM_MESSAGE_TARGET_CRASHED :: SharedMemMessageType where "SHARED_MEM_MESSAGE_TARGET_CRASHED \<equiv> 0x10"
abbreviation SHARED_MEM_MESSAGE_NOT_INITIALIZED :: SharedMemMessageType where "SHARED_MEM_MESSAGE_NOT_INITIALIZED \<equiv> 0x100"
abbreviation SHARED_MEM_MESSAGE_TRANSMISSION_TIMEOUT :: SharedMemMessageType where
  "SHARED_MEM_MESSAGE_TRANSMISSION_TIMEOUT \<equiv> 0x101"
abbreviation SHARED_MEM_MESSAGE_FEEDER_COULD_NOT_INITIALIZE :: SharedMemMessageType where
  "SHARED_MEM_MESSAGE_FEEDER_COULD_NOT_INITIALIZE \<equiv> 0x103"
abbreviation SHARED_MEM_MESSAGE_WAIT_INTERRUPTED :: SharedMemMessageType where
  "SHARED_MEM_MESSAGE_WAIT_INTERRUPTED \<equiv> 0x104"
abbreviation SHARED_MEM_MESSAGE_TRANSMISSION_ERROR :: SharedMemMessageType where
  "SHARED_MEM_MESSAGE_TRANSMISSION_ERROR \<equiv> 0x105"

text \<open>The size of the data is that of the list.\<close>

record SharedMemMessage =
  m_messageType :: SharedMemMessageType
  m_data :: bytes

abbreviation mk_message :: "SharedMemMessageType \<Rightarrow> bytes \<Rightarrow> SharedMemMessage" where
  "mk_message t d \<equiv> \<lparr>m_messageType = t, m_data = d\<rparr>"

definition getDataSize :: "SharedMemMessage \<Rightarrow> int" where
  "getDataSize m = int (length (m_data m))"

section \<open>The operating system\<close>

text \<open>
  Shared memory objects and FIFOs have names, which can be unlinked while the object is in use; a pipe that is used as
  an interrupt counts as a FIFO without a name. Of a FIFO only the number of bytes in it is of interest.
\<close>

record ipc_os =
  os_tick :: nat
  shm_names :: "string \<rightharpoonup> nat"
  shm_mem :: "nat \<Rightarrow> bytes"
  fifo_names :: "string \<rightharpoonup> nat"
  fifo_bytes :: "nat \<Rightarrow> nat"
  os_fresh :: nat

record ipc_env =
  p_fails :: "nat \<Rightarrow> bool"                        \<comment> \<open>a system call fails\<close>
  p_guid :: "nat \<Rightarrow> string"                       \<comment> \<open>\<open>newGUID\<close>\<close>
  p_signal :: "nat \<Rightarrow> bool"                       \<comment> \<open>a signal ends \<open>pselect\<close>\<close>
  p_others :: "nat \<Rightarrow> ipc_os \<Rightarrow> ipc_os"            \<comment> \<open>the other processes during a wait\<close>

abbreviation os_next :: "ipc_os \<Rightarrow> ipc_os" where
  "os_next os \<equiv> os\<lparr>os_tick := Suc (os_tick os)\<rparr>"

definition shm_create :: "ipc_env \<Rightarrow> string \<Rightarrow> ipc_os \<Rightarrow> nat option \<times> ipc_os" where
  "shm_create E name os =
     (if p_fails E (os_tick os) \<or> shm_names os name \<noteq> None then (None, os_next os)
      else (Some (os_fresh os), (os_next os)\<lparr>shm_names := (shm_names os)(name \<mapsto> os_fresh os),
        shm_mem := (shm_mem os)(os_fresh os := []), os_fresh := Suc (os_fresh os)\<rparr>))"

definition shm_open :: "ipc_env \<Rightarrow> string \<Rightarrow> ipc_os \<Rightarrow> nat option \<times> ipc_os" where
  "shm_open E name os = (if p_fails E (os_tick os) then None else shm_names os name, os_next os)"

definition shm_unlink :: "string \<Rightarrow> ipc_os \<Rightarrow> ipc_os" where
  "shm_unlink name os = os\<lparr>shm_names := (shm_names os)(name := None)\<rparr>"

definition ftruncate :: "ipc_env \<Rightarrow> nat \<Rightarrow> int \<Rightarrow> ipc_os \<Rightarrow> bool \<times> ipc_os" where
  "ftruncate E fd len os =
     (if p_fails E (os_tick os) \<or> len < 0 then (False, os_next os)
      else (True, (os_next os)\<lparr>shm_mem := (shm_mem os)(fd := take (nat len) (shm_mem os fd) @
        replicate (nat len - length (shm_mem os fd)) (CHR 0x00))\<rparr>))"

definition mmap :: "ipc_env \<Rightarrow> int \<Rightarrow> ipc_os \<Rightarrow> bool \<times> ipc_os" where
  "mmap E len os = (\<not> p_fails E (os_tick os) \<and> len > 0, os_next os)"

definition mkfifo :: "ipc_env \<Rightarrow> string \<Rightarrow> ipc_os \<Rightarrow> bool \<times> ipc_os" where
  "mkfifo E path os =
     (if p_fails E (os_tick os) \<or> fifo_names os path \<noteq> None then (False, os_next os)
      else (True, (os_next os)\<lparr>fifo_names := (fifo_names os)(path \<mapsto> os_fresh os),
        fifo_bytes := (fifo_bytes os)(os_fresh os := 0), os_fresh := Suc (os_fresh os)\<rparr>))"

definition open_fifo :: "ipc_env \<Rightarrow> string \<Rightarrow> ipc_os \<Rightarrow> nat option \<times> ipc_os" where
  "open_fifo E path os = (if p_fails E (os_tick os) then None else fifo_names os path, os_next os)"

definition unlink :: "string \<Rightarrow> ipc_os \<Rightarrow> ipc_os" where
  "unlink path os = os\<lparr>fifo_names := (fifo_names os)(path := None)\<rparr>"

text \<open>A part of the memory, and writing to it.\<close>

definition bytes_at :: "nat \<Rightarrow> nat \<Rightarrow> bytes \<Rightarrow> bytes" where
  "bytes_at off n mem = take n (drop off mem)"

definition put_bytes :: "nat \<Rightarrow> bytes \<Rightarrow> bytes \<Rightarrow> bytes" where
  "put_bytes off bs mem = take off mem @ bs @ drop (off + length bs) mem"

section \<open>The channel\<close>

definition MAX_PATH :: nat where
  "MAX_PATH = 260"

text \<open>The view on the memory: none, that of an object, or an address that is no longer mapped.\<close>

datatype view = no_view | mapped nat | unmapped

record SharedMemIPC =
  m_sharedMemName :: string
  m_sharedMemorySize :: int
  m_fdSharedMem :: "nat option"
  m_pView :: view
  m_fdFIFOForNewMessageForClient :: "nat option"
  m_fdFIFOForNewMessageForServer :: "nat option"

definition new_SharedMemIPC :: "string \<Rightarrow> int \<Rightarrow> SharedMemIPC" where
  "new_SharedMemIPC name len = \<lparr>m_sharedMemName = name, m_sharedMemorySize = len, m_fdSharedMem = None,
     m_pView = no_view, m_fdFIFOForNewMessageForClient = None, m_fdFIFOForNewMessageForServer = None\<rparr>"

definition server_half :: "SharedMemIPC \<Rightarrow> nat" where
  "server_half ipc = nat (m_sharedMemorySize ipc div 2)"

text \<open>The name of a FIFO, as it stands in the memory.\<close>

definition name_at :: "nat \<Rightarrow> nat \<Rightarrow> ipc_os \<Rightarrow> string" where
  "name_at fd off os = c_string (drop off (shm_mem os fd))"

definition put_name :: "ipc_env \<Rightarrow> nat \<Rightarrow> nat \<Rightarrow> ipc_os \<Rightarrow> ipc_os" where
  "put_name E fd off os = (os_next os)\<lparr>shm_mem := (shm_mem os)(fd :=
     put_bytes off (take MAX_PATH (''/tmp/FLUFFI_SharedMem_FIFO_'' @ p_guid E (os_tick os))) (shm_mem os fd))\<rparr>"

text \<open>
  Making and opening the FIFOs; on a failure everything is undone, but the address of the view stays.
\<close>

definition initialize_fifos :: "ipc_env \<Rightarrow> nat \<Rightarrow> SharedMemIPC \<Rightarrow> ipc_os \<Rightarrow> bool \<times> SharedMemIPC \<times> ipc_os" where
  "initialize_fifos E fd ipc os =
     (let half = server_half ipc; name = m_sharedMemName ipc;
          failed = ipc\<lparr>m_fdSharedMem := None, m_pView := unmapped\<rparr>;
          os = put_name E fd 0 os in
      case mkfifo E (name_at fd 0 os) os of
        (False, os) \<Rightarrow> (False, failed, shm_unlink name os)
      | (True, os) \<Rightarrow> let os = put_name E fd half os in
          (case mkfifo E (name_at fd half os) os of
             (False, os) \<Rightarrow> (False, failed, shm_unlink name (unlink (name_at fd 0 os) os))
           | (True, os) \<Rightarrow>
               (case open_fifo E (name_at fd 0 os) os of
                  (None, os) \<Rightarrow> (False, failed\<lparr>m_fdFIFOForNewMessageForClient := None\<rparr>,
                    shm_unlink name (unlink (name_at fd 0 os) (unlink (name_at fd half os) os)))
                | (Some c, os) \<Rightarrow>
                    (case open_fifo E (name_at fd half os) os of
                       (None, os) \<Rightarrow> (False, failed\<lparr>m_fdFIFOForNewMessageForClient := None,
                           m_fdFIFOForNewMessageForServer := None\<rparr>,
                         shm_unlink name (unlink (name_at fd 0 os) (unlink (name_at fd half os) os)))
                     | (Some s, os) \<Rightarrow> (True, ipc\<lparr>m_fdSharedMem := Some fd, m_pView := mapped fd,
                         m_fdFIFOForNewMessageForClient := Some c, m_fdFIFOForNewMessageForServer := Some s\<rparr>, os)))))"

definition initializeAsServer :: "ipc_env \<Rightarrow> SharedMemIPC \<Rightarrow> ipc_os \<Rightarrow> bool \<times> SharedMemIPC \<times> ipc_os" where
  "initializeAsServer E ipc os =
     (let len = m_sharedMemorySize ipc; name = m_sharedMemName ipc in
      if len \<le> 2 * (int MAX_PATH + 9) then (False, ipc, os)
      else case shm_create E name os of
        (None, os) \<Rightarrow> (False, ipc\<lparr>m_fdSharedMem := None\<rparr>, os)
      | (Some fd, os) \<Rightarrow>
          (case ftruncate E fd len os of
             (False, os) \<Rightarrow> (False, ipc\<lparr>m_fdSharedMem := None\<rparr>, shm_unlink name os)
           | (True, os) \<Rightarrow>
               (case mmap E len os of
                  (False, os) \<Rightarrow> (False, ipc\<lparr>m_fdSharedMem := None, m_pView := no_view\<rparr>, shm_unlink name os)
                | (True, os) \<Rightarrow> initialize_fifos E fd ipc
                    (os\<lparr>shm_mem := (shm_mem os)(fd := replicate (nat len) (CHR 0x00))\<rparr>))))"

definition initializeAsClient :: "ipc_env \<Rightarrow> SharedMemIPC \<Rightarrow> ipc_os \<Rightarrow> bool \<times> SharedMemIPC \<times> ipc_os" where
  "initializeAsClient E ipc os =
     (let len = m_sharedMemorySize ipc; failed = ipc\<lparr>m_fdSharedMem := None\<rparr> in
      case shm_open E (m_sharedMemName ipc) os of
        (None, os) \<Rightarrow> (False, failed, os)
      | (Some fd, os) \<Rightarrow>
          (case ftruncate E fd len os of
             (False, os) \<Rightarrow> (False, failed, os)
           | (True, os) \<Rightarrow>
               (case mmap E len os of
                  (False, os) \<Rightarrow> (False, failed\<lparr>m_pView := no_view\<rparr>, os)
                | (True, os) \<Rightarrow>
                    (case open_fifo E (name_at fd 0 os) os of
                       (None, os) \<Rightarrow>
                         (False, failed\<lparr>m_pView := unmapped, m_fdFIFOForNewMessageForClient := None\<rparr>, os)
                     | (Some c, os) \<Rightarrow>
                         (case open_fifo E (name_at fd (server_half ipc) os) os of
                            (None, os) \<Rightarrow> (False, failed\<lparr>m_pView := unmapped, m_fdFIFOForNewMessageForClient := None,
                              m_fdFIFOForNewMessageForServer := None\<rparr>, os)
                          | (Some s, os) \<Rightarrow> (True, ipc\<lparr>m_fdSharedMem := Some fd, m_pView := mapped fd,
                              m_fdFIFOForNewMessageForClient := Some c, m_fdFIFOForNewMessageForServer := Some s\<rparr>, os))))))"

text \<open>The destructor; \<open>None\<close>: it reads the names from a view that is not mapped.\<close>

definition SharedMemIPC_delete :: "SharedMemIPC \<Rightarrow> ipc_os \<Rightarrow> ipc_os option" where
  "SharedMemIPC_delete ipc os =
     map_option (shm_unlink (m_sharedMemName ipc))
       (case m_pView ipc of no_view \<Rightarrow> Some os
        | mapped fd \<Rightarrow> Some (unlink (name_at fd 0 os) (unlink (name_at fd (server_half ipc) os) os))
        | unmapped \<Rightarrow> None)"

section \<open>Sending\<close>

text \<open>Writing to the view; \<open>None\<close>: beyond it.\<close>

definition write_at :: "nat \<Rightarrow> bytes \<Rightarrow> bytes \<Rightarrow> bytes option" where
  "write_at off bs mem = (if length mem < off + length bs then None else Some (put_bytes off bs mem))"

definition place_message :: "nat \<Rightarrow> int \<Rightarrow> SharedMemMessage \<Rightarrow> bytes \<Rightarrow> (bool \<times> bytes) option" where
  "place_message off len m mem = do {
     mem \<leftarrow> write_at (off + MAX_PATH) (le_bytes 4 (unat (m_messageType m))) mem;
     mem \<leftarrow> write_at (off + MAX_PATH + 4) (le_bytes 4 (nat (getDataSize m))) mem;
     if getDataSize m = 0 then Some (True, mem)
     else if getDataSize m \<ge> len div 2 - int (MAX_PATH + 8) then Some (False, mem)
     else map_option (Pair True) (write_at (off + MAX_PATH + 8) (m_data m) mem)
   }"

definition notify :: "ipc_env \<Rightarrow> nat option \<Rightarrow> ipc_os \<Rightarrow> bool \<times> ipc_os" where
  "notify E fifo os =
     (case fifo of None \<Rightarrow> (False, os_next os)
      | Some p \<Rightarrow> if p_fails E (os_tick os) then (False, os_next os)
          else (True, (os_next os)\<lparr>fifo_bytes := (fifo_bytes os)(p := Suc (fifo_bytes os p))\<rparr>))"

text \<open>\<open>None\<close>: there is no view, or it is too small.\<close>

definition send_message ::
    "ipc_env \<Rightarrow> SharedMemIPC \<Rightarrow> nat \<Rightarrow> nat option \<Rightarrow> SharedMemMessage \<Rightarrow> ipc_os \<Rightarrow> (bool \<times> ipc_os) option" where
  "send_message E ipc off fifo m os =
     (case m_pView ipc of
        mapped fd \<Rightarrow> map_option (\<lambda>(placed, mem).
            let os = os\<lparr>shm_mem := (shm_mem os)(fd := mem)\<rparr> in if placed then notify E fifo os else (False, os))
          (place_message off (m_sharedMemorySize ipc) m (shm_mem os fd))
      | _ \<Rightarrow> None)"

definition sendMessageToClient :: "ipc_env \<Rightarrow> SharedMemIPC \<Rightarrow> SharedMemMessage \<Rightarrow> ipc_os \<Rightarrow> (bool \<times> ipc_os) option" where
  "sendMessageToClient E ipc m os = send_message E ipc 0 (m_fdFIFOForNewMessageForClient ipc) m os"

definition sendMessageToServer :: "ipc_env \<Rightarrow> SharedMemIPC \<Rightarrow> SharedMemMessage \<Rightarrow> ipc_os \<Rightarrow> (bool \<times> ipc_os) option" where
  "sendMessageToServer E ipc m os = send_message E ipc (server_half ipc) (m_fdFIFOForNewMessageForServer ipc) m os"

section \<open>Waiting\<close>

datatype select_result = select_error | select_timeout | select_ready (interrupt_ready: bool) (message_ready: bool)

definition pending :: "nat option \<Rightarrow> ipc_os \<Rightarrow> bool" where
  "pending fifo os = (case fifo of None \<Rightarrow> False | Some p \<Rightarrow> fifo_bytes os p > 0)"

text \<open>
  The loop around \<open>pselect\<close>: during each call the others act; a signal ends the call and the next begins with the
  full time.
\<close>

partial_function (option) pselect_loop ::
    "ipc_env \<Rightarrow> nat \<Rightarrow> nat option \<Rightarrow> ipc_os \<Rightarrow> (select_result \<times> ipc_os) option" where
  "pselect_loop E fifo interruptFD os =
     (let k = os_tick os; os = (p_others E k os)\<lparr>os_tick := Suc k\<rparr> in
      if p_signal E k then pselect_loop E fifo interruptFD os
      else if p_fails E k then Some (select_error, os)
      else if \<not> pending (Some fifo) os \<and> \<not> pending interruptFD os then Some (select_timeout, os)
      else Some (select_ready (pending interruptFD os) (pending (Some fifo) os), os))"

definition drain :: "ipc_env \<Rightarrow> nat option \<Rightarrow> ipc_os \<Rightarrow> ipc_os" where
  "drain E fifo os =
     (case fifo of None \<Rightarrow> os
      | Some p \<Rightarrow> if p_fails E (os_tick os) then os_next os
          else (os_next os)\<lparr>fifo_bytes := (fifo_bytes os)(p := 0)\<rparr>)"

text \<open>
  The message in the memory; \<open>None\<close>: its data goes beyond the view, or the length is negative as an \<open>int\<close> and the
  allocation throws.
\<close>

definition message_at :: "nat \<Rightarrow> bytes \<Rightarrow> SharedMemMessage option" where
  "message_at off mem =
     (let n = le_nat (bytes_at (off + MAX_PATH + 4) 4 mem) in
      if 2 ^ 31 \<le> n \<or> length mem < off + MAX_PATH + 8 + n then None
      else Some (mk_message (word_of_nat (le_nat (bytes_at (off + MAX_PATH) 4 mem)))
        (bytes_at (off + MAX_PATH + 8) n mem)))"

text \<open>\<open>None\<close>: the channel is not set up, the message cannot be read, or signals come for ever.\<close>

definition wait_message ::
    "ipc_env \<Rightarrow> SharedMemIPC \<Rightarrow> nat \<Rightarrow> nat option \<Rightarrow> nat option \<Rightarrow> ipc_os \<Rightarrow> (bool \<times> SharedMemMessage \<times> ipc_os) option" where
  "wait_message E ipc off fifo interruptFD os =
     (case (m_pView ipc, fifo) of
        (mapped fd, Some p) \<Rightarrow> do {
          (res, os) \<leftarrow> pselect_loop E p interruptFD os;
          (case res of
             select_error \<Rightarrow> Some (False, mk_message SHARED_MEM_MESSAGE_TRANSMISSION_ERROR [], os)
           | select_timeout \<Rightarrow> Some (False, mk_message SHARED_MEM_MESSAGE_TRANSMISSION_TIMEOUT [], os)
           | select_ready interrupt message \<Rightarrow>
               if interrupt
               then Some (False, mk_message SHARED_MEM_MESSAGE_WAIT_INTERRUPTED [], drain E interruptFD os)
               else if \<not> message then Some (False, mk_message SHARED_MEM_MESSAGE_TRANSMISSION_ERROR [], os)
               else let os = drain E fifo os in
                    map_option (\<lambda>m. (True, m, os)) (message_at off (shm_mem os fd)))
        }
      | _ \<Rightarrow> None)"

definition waitForNewMessageToClient ::
    "ipc_env \<Rightarrow> SharedMemIPC \<Rightarrow> nat option \<Rightarrow> ipc_os \<Rightarrow> (bool \<times> SharedMemMessage \<times> ipc_os) option" where
  "waitForNewMessageToClient E ipc interruptFD os =
     wait_message E ipc 0 (m_fdFIFOForNewMessageForClient ipc) interruptFD os"

definition waitForNewMessageToServer ::
    "ipc_env \<Rightarrow> SharedMemIPC \<Rightarrow> nat option \<Rightarrow> ipc_os \<Rightarrow> (bool \<times> SharedMemMessage \<times> ipc_os) option" where
  "waitForNewMessageToServer E ipc interruptFD os =
     wait_message E ipc (server_half ipc) (m_fdFIFOForNewMessageForServer ipc) interruptFD os"

section \<open>Facts on the memory\<close>

lemma put_bytes_length [simp]: "off + length bs \<le> length mem \<Longrightarrow> length (put_bytes off bs mem) = length mem"
  by (simp add: put_bytes_def)

lemma bytes_at_put [simp]: "off + length bs \<le> length mem \<Longrightarrow> bytes_at off (length bs) (put_bytes off bs mem) = bs"
  by (simp add: put_bytes_def bytes_at_def)

lemma bytes_at_put_other:
  assumes "off + length bs \<le> length mem" and "o' + n \<le> off \<or> off + length bs \<le> o'"
  shows "bytes_at o' n (put_bytes off bs mem) = bytes_at o' n mem"
proof (rule nth_equalityI)
  show "length (bytes_at o' n (put_bytes off bs mem)) = length (bytes_at o' n mem)"
    using assms(1) by (simp add: bytes_at_def)
  fix i assume "i < length (bytes_at o' n (put_bytes off bs mem))"
  then have i: "i < n" "o' + i < length mem" using assms(1) by (auto simp: bytes_at_def less_diff_conv add.commute)
  have "put_bytes off bs mem ! (o' + i) = mem ! (o' + i)"
    using assms i by (auto simp: put_bytes_def nth_append)
  then show "bytes_at o' n (put_bytes off bs mem) ! i = bytes_at o' n mem ! i"
    using i assms(1) by (simp add: bytes_at_def)
qed

text \<open>Placing a message that fits: it stands where it belongs, and nothing else changes.\<close>

definition fits :: "int \<Rightarrow> SharedMemMessage \<Rightarrow> bool" where
  "fits len m \<longleftrightarrow> getDataSize m < len div 2 - int (MAX_PATH + 8)"

definition same_outside :: "nat \<Rightarrow> nat \<Rightarrow> bytes \<Rightarrow> bytes \<Rightarrow> bool" where
  "same_outside lo hi mem mem' \<longleftrightarrow> length mem' = length mem \<and>
     (\<forall>o' n. o' + n \<le> lo \<or> hi \<le> o' \<longrightarrow> bytes_at o' n mem' = bytes_at o' n mem)"

lemma same_outside_trans:
  "same_outside lo hi a b \<Longrightarrow> same_outside lo hi b c \<Longrightarrow> same_outside lo hi a c"
  by (simp add: same_outside_def)

lemma same_outside_put:
  "off + length bs \<le> length mem \<Longrightarrow> lo \<le> off \<Longrightarrow> off + length bs \<le> hi \<Longrightarrow> same_outside lo hi mem (put_bytes off bs mem)"
  by (auto simp: same_outside_def intro!: bytes_at_put_other)

lemma place_message_header:
  assumes "off + MAX_PATH + 8 \<le> length mem"
  obtains mem' where
    "place_message off len m mem =
      (if getDataSize m = 0 then Some (True, mem')
       else if getDataSize m \<ge> len div 2 - int (MAX_PATH + 8) then Some (False, mem')
       else map_option (Pair True) (write_at (off + MAX_PATH + 8) (m_data m) mem'))"
    "le_nat (bytes_at (off + MAX_PATH) 4 mem') = unat (m_messageType m)"
    "le_nat (bytes_at (off + MAX_PATH + 4) 4 mem') = length (m_data m) mod 2 ^ 32"
    "same_outside (off + MAX_PATH) (off + MAX_PATH + 8) mem mem'"
proof -
  let ?t = "le_bytes 4 (unat (m_messageType m))" and ?n = "le_bytes 4 (nat (getDataSize m))"
  let ?m1 = "put_bytes (off + MAX_PATH) ?t mem"
  let ?m2 = "put_bytes (off + MAX_PATH + 4) ?n ?m1"
  have l1: "length ?m1 = length mem" "length ?m2 = length mem" using assms by simp_all
  have t: "le_nat ?t = unat (m_messageType m)"
  proof -
    have "unat (m_messageType m) < 2 ^ 32" by (rule order_less_le_trans [OF unsigned_less]) simp
    then show ?thesis by (simp add: le_nat_bytes)
  qed
  show thesis
  proof (rule that [of ?m2])
    show "place_message off len m mem =
      (if getDataSize m = 0 then Some (True, ?m2)
       else if getDataSize m \<ge> len div 2 - int (MAX_PATH + 8) then Some (False, ?m2)
       else map_option (Pair True) (write_at (off + MAX_PATH + 8) (m_data m) ?m2))"
      using assms l1 by (simp add: place_message_def write_at_def)
    have "bytes_at (off + MAX_PATH) 4 ?m2 = bytes_at (off + MAX_PATH) 4 ?m1"
      using assms l1 by (intro bytes_at_put_other) auto
    also have "\<dots> = ?t" using bytes_at_put [of "off + MAX_PATH" ?t mem] assms by simp
    finally show "le_nat (bytes_at (off + MAX_PATH) 4 ?m2) = unat (m_messageType m)" using t by simp
    have "bytes_at (off + MAX_PATH + 4) 4 ?m2 = ?n"
      using bytes_at_put [of "off + MAX_PATH + 4" ?n ?m1] assms l1 by simp
    then show "le_nat (bytes_at (off + MAX_PATH + 4) 4 ?m2) = length (m_data m) mod 2 ^ 32"
      by (simp add: le_nat_bytes getDataSize_def)
    have "same_outside (off + MAX_PATH) (off + MAX_PATH + 8) mem ?m1" using assms by (intro same_outside_put) simp_all
    moreover have "same_outside (off + MAX_PATH) (off + MAX_PATH + 8) ?m1 ?m2"
      using assms l1 by (intro same_outside_put) simp_all
    ultimately show "same_outside (off + MAX_PATH) (off + MAX_PATH + 8) mem ?m2" by (rule same_outside_trans)
  qed
qed

lemma place_message_fits:
  assumes "off + MAX_PATH + 8 + length (m_data m) \<le> length mem" and "fits len m" and "length mem < 2 ^ 31"
  obtains mem' where "place_message off len m mem = Some (True, mem')" and "message_at off mem' = Some m"
    and "same_outside (off + MAX_PATH) (off + MAX_PATH + 8 + length (m_data m)) mem mem'"
proof -
  have "off + MAX_PATH + 8 \<le> length mem" using assms(1) by simp
  from place_message_header [OF this, of len m] obtain m1 where p: "place_message off len m mem =
      (if getDataSize m = 0 then Some (True, m1)
       else if getDataSize m \<ge> len div 2 - int (MAX_PATH + 8) then Some (False, m1)
       else map_option (Pair True) (write_at (off + MAX_PATH + 8) (m_data m) m1))"
    and h: "le_nat (bytes_at (off + MAX_PATH) 4 m1) = unat (m_messageType m)"
      "le_nat (bytes_at (off + MAX_PATH + 4) 4 m1) = length (m_data m) mod 2 ^ 32"
    and s: "same_outside (off + MAX_PATH) (off + MAX_PATH + 8) mem m1" by blast
  let ?m = "put_bytes (off + MAX_PATH + 8) (m_data m) m1"
  have l: "length m1 = length mem" using s by (simp add: same_outside_def)
  have n: "length (m_data m) < 2 ^ 31" using assms(1,3) by simp
  have b: "bytes_at (off + MAX_PATH + 8) (length (m_data m)) ?m = m_data m" using assms(1) l by simp
  have o1: "bytes_at (off + MAX_PATH) 4 ?m = bytes_at (off + MAX_PATH) 4 m1"
    and o2: "bytes_at (off + MAX_PATH + 4) 4 ?m = bytes_at (off + MAX_PATH + 4) 4 m1"
    using assms(1) l by (auto intro!: bytes_at_put_other)
  have at: "message_at off ?m = Some m"
    using assms(1) l n h unfolding message_at_def Let_def o1 o2 by (simp add: b)
  have "same_outside (off + MAX_PATH) (off + MAX_PATH + 8 + length (m_data m)) mem m1"
    using s by (auto simp: same_outside_def)
  moreover have "same_outside (off + MAX_PATH) (off + MAX_PATH + 8 + length (m_data m)) m1 ?m"
    using assms(1) l by (intro same_outside_put) auto
  ultimately have o: "same_outside (off + MAX_PATH) (off + MAX_PATH + 8 + length (m_data m)) mem ?m"
    by (rule same_outside_trans)
  have "place_message off len m mem = Some (True, ?m)"
  proof (cases "m_data m = []")
    case True
    then show ?thesis using p by (simp add: getDataSize_def put_bytes_def)
  next
    case False
    then show ?thesis using p assms(1,2) l by (simp add: fits_def write_at_def getDataSize_def)
  qed
  then show thesis using at o by (rule that)
qed

text \<open>A message that was there stays as it was when nothing is written to its place.\<close>

lemma message_at_outside:
  assumes "same_outside lo hi mem mem'" and "message_at off mem = Some m"
    and "off + MAX_PATH + 8 + length (m_data m) \<le> lo \<or> hi \<le> off + MAX_PATH"
  shows "message_at off mem' = Some m"
proof -
  let ?n = "le_nat (bytes_at (off + MAX_PATH + 4) 4 mem)"
  have l: "length mem' = length mem"
    and s: "bytes_at o' n mem' = bytes_at o' n mem" if "o' + n \<le> lo \<or> hi \<le> o'" for o' n
    using assms(1) that by (auto simp: same_outside_def)
  have l: "length mem' = length mem" using assms(1) by (simp add: same_outside_def)
  have n: "?n < 2 ^ 31" "off + MAX_PATH + 8 + ?n \<le> length mem"
    and m: "m = mk_message (word_of_nat (le_nat (bytes_at (off + MAX_PATH) 4 mem))) (bytes_at (off + MAX_PATH + 8) ?n mem)"
    using assms(2) by (auto simp: message_at_def Let_def split: if_splits)
  then have d: "length (m_data m) = ?n" by (simp add: bytes_at_def)
  have "bytes_at (off + MAX_PATH) 4 mem' = bytes_at (off + MAX_PATH) 4 mem"
    "bytes_at (off + MAX_PATH + 4) 4 mem' = bytes_at (off + MAX_PATH + 4) 4 mem"
    "bytes_at (off + MAX_PATH + 8) ?n mem' = bytes_at (off + MAX_PATH + 8) ?n mem"
    using assms(3) d by (auto intro!: s)
  then show ?thesis using n l by (simp add: message_at_def Let_def m)
qed

end
