(* ===== verification/TRRunner.thy ===== *)
theory TRRunner
  imports FileTransfer Status SharedMem
begin

text \<open>
  The runner: its communication partners (\<open>CommPartnerManager.cpp\<close>,
  \<open>SetTGsAndTEsRequestHandler.cpp\<close>), the configuration of an executor and the loop that fetches a
  testcase, has it executed and sends the result on (\<open>TRMainWorker.cpp\<close>), and the runner as a
  transition system.

  An executor is a virtual class. Its two operations are a parameter of the main worker, the record
  \<open>executors\<close>; \<open>TRDynRio\<close> models one of its implementations. The warnings on slow partners
  are only logged and are left out.
\<close>

section \<open>Data\<close>

record CommPartnerManager =
  m_weigthSum :: "64 word"
  m_commDescriptorSet :: "FluffiServiceAndWeight list"

datatype Module = Module (m_modulename: string) (m_modulepath: string) (m_moduleid: "32 word")

text \<open>The identifier is an \<open>int32_t\<close>; the order is \<open>operator<\<close>.\<close>

definition module_key :: "Module \<Rightarrow> int \<times> string \<times> string" where
  "module_key m = (sint (m_moduleid m), m_modulename m, m_modulepath m)"

instantiation Module :: linorder
begin

definition less_Module :: "Module \<Rightarrow> Module \<Rightarrow> bool" where
  "a < b \<longleftrightarrow>
     (if sint (m_moduleid a) < sint (m_moduleid b) then True
      else if m_moduleid a = m_moduleid b \<and> m_modulename a < m_modulename b then True
      else if m_moduleid a = m_moduleid b \<and> m_modulename a = m_modulename b \<and> m_modulepath a < m_modulepath b
      then True else False)"

definition less_eq_Module :: "Module \<Rightarrow> Module \<Rightarrow> bool" where
  "a \<le> b \<longleftrightarrow> a = b \<or> a < (b :: Module)"

instance
proof
  have key: "a < b \<longleftrightarrow> module_key a < module_key b" for a b :: Module
    using signed_word_eqI [of "m_moduleid a" "m_moduleid b"]
    by (auto simp: less_Module_def module_key_def less_prod_def)
  have inj: "module_key a = module_key b \<Longrightarrow> a = b" for a b
    using signed_word_eqI [of "m_moduleid a" "m_moduleid b"] by (cases a; cases b) (simp add: module_key_def)
  fix x y z :: Module
  show "(x < y) = (x \<le> y \<and> \<not> y \<le> x)" by (auto simp: less_eq_Module_def key)
  show "x \<le> x" by (simp add: less_eq_Module_def)
  show "x \<le> y \<Longrightarrow> y \<le> z \<Longrightarrow> x \<le> z" by (auto simp: less_eq_Module_def key)
  show "x \<le> y \<Longrightarrow> y \<le> x \<Longrightarrow> x = y" by (auto simp: less_eq_Module_def key)
  show "x \<le> y \<or> y \<le> x" using inj by (auto simp: less_eq_Module_def key not_less_iff_gr_or_eq)
qed

end

datatype PROCESS_TERMINATION_TYPE = CLEAN | EXCEPTION_OTHER | EXCEPTION_ACCESSVIOLATION | TIMEOUT | ERR

record DebugExecutionOutput =
  m_firstCrash :: string
  m_lastCrash :: string
  m_terminationType :: PROCESS_TERMINATION_TYPE
  m_terminationDescription :: string
  m_PID :: int
  m_debuggerThreadDone :: bool
  dbg_hasFullCoverage :: bool
  m_coveredBasicBlocks :: "FluffiBasicBlock list"

definition new_output :: DebugExecutionOutput where
  "new_output = \<lparr>m_firstCrash = [], m_lastCrash = [], m_terminationType = ERR,
     m_terminationDescription = ''NOT SET'', m_PID = 0, m_debuggerThreadDone = True,
     dbg_hasFullCoverage = True, m_coveredBasicBlocks = []\<rparr>"

definition addCoveredBasicBlock :: "FluffiBasicBlock \<Rightarrow> DebugExecutionOutput \<Rightarrow> DebugExecutionOutput" where
  "addCoveredBasicBlock bb out = out\<lparr>m_coveredBasicBlocks := m_coveredBasicBlocks out @ [bb]\<rparr>"

text \<open>
  The state of the executors that keep a target and a feeder, with the objects of the operating system that they
  share with others; the interrupt that a debugger thread sets is the FIFO \<open>0\<close>. The executor under DynamoRIO adds
  how its debugger thread was started, the one with GDB by which file of commands its thread is known.
\<close>

record fed =
  m_target_and_feeder_okay :: bool
  m_sharedMemIPC_toFeeder :: "SharedMemIPC option"
  m_executionsSinceLastRestart :: int
  m_ipc :: ipc_os

record target_start =
  ts_commandline :: string
  ts_suppress :: bool
  ts_additionalEnvParam :: string
  ts_attachInsteadOfStart :: bool
  ts_doPostMortemAnalysis :: bool
  ts_treatAnyAccessViolationAsFatal :: bool

record multi = fed +
  m_targetProcessID :: nat
  m_dynrio_clientID :: nat
  m_iterationNumMod2 :: int
  m_dynrioPipeName :: string
  m_debuggeeProcess :: "target_start option"

record gdb_executor = fed +
  m_gDBThread :: "string option"

definition interrupt_pipe :: nat where
  "interrupt_pipe = 0"

definition first_os :: ipc_os where
  "first_os = \<lparr>os_tick = 0, shm_names = Map.empty, shm_mem = (\<lambda>_. []), fifo_names = Map.empty,
     fifo_bytes = (\<lambda>_. 0), os_fresh = Suc interrupt_pipe\<rparr>"

definition new_multi :: multi where
  "new_multi = \<lparr>m_target_and_feeder_okay = False, m_sharedMemIPC_toFeeder = None, m_executionsSinceLastRestart = 0,
     m_ipc = first_os, m_targetProcessID = 0, m_dynrio_clientID = 0, m_iterationNumMod2 = 0, m_dynrioPipeName = [],
     m_debuggeeProcess = None\<rparr>"

definition new_gdb_executor :: gdb_executor where
  "new_gdb_executor = \<lparr>m_target_and_feeder_okay = False, m_sharedMemIPC_toFeeder = None,
     m_executionsSinceLastRestart = 0, m_ipc = first_os, m_gDBThread = None\<rparr>"

text \<open>
  What the executors are constructed with, in the order of the constructors' parameters, and the state
  they keep.
\<close>

record executor_base =
  m_targetCMDline :: string
  m_hangTimeoutMS :: int
  m_modulesToCover :: "Module list"
  x_testcaseDir :: string
  m_suppressChildOutput :: bool
  m_additionalEnvParam :: string

datatype executor =
    TestExecutorDynRioSingle executor_base (treatAnyAccessViolationAsFatal: bool)
  | TestExecutorDynRioMulti executor_base bool (feederCmdline: string) (starterCMDLine: string)
      (initializationTimeoutMS: int) (targetForks: bool) (forceRestartAfter: int) (multi_state: multi)
  | TestExecutorQemuUserSingle executor_base bool (m_rootfs: string) (m_was_initialized: bool)
  | TestExecutorGDB executor_base string string int int (blocksToCover: "FluffiBasicBlock list")
      (breakPointInstruction: int) (breakPointInstructionBytes: int) (gdb_state: gdb_executor)

record tr =
  tr_tGManager :: CommPartnerManager
  tr_tEManager :: CommPartnerManager
  tr_gotConfig :: bool
  m_executor :: "executor option"
  m_numberOfProcessedTestcases :: nat
  m_statusHandler :: status_handler
  tr_agent :: agent

record tr_config =
  tr_self :: FluffiServiceDescriptor
  tr_testcaseDir :: string
  tr_agentSubTypes :: "string list"

text \<open>
  The constructor and the virtual operations of an executor, with the state of the process before and after, and the
  object as the operation leaves it; \<open>None\<close>: the process exits.
\<close>

record executors =
  x_construct :: "executor \<Rightarrow> agent \<Rightarrow> agent"             \<comment> \<open>the effects of the constructor\<close>
  x_isSetupFunctionable :: "executor \<Rightarrow> agent \<Rightarrow> bool"
  x_execute :: "executor \<Rightarrow> FluffiTestcaseID \<Rightarrow> bool \<Rightarrow> agent \<Rightarrow>
    (DebugExecutionOutput \<times> executor \<times> agent) option"

section \<open>CommPartnerManager\<close>

text \<open>
  The walk over the partners with the weights summed up so far; \<open>None\<close>: the process exits, as the
  next sum could overflow.
\<close>

fun next_partner_loop :: "64 word \<Rightarrow> 64 word \<Rightarrow> FluffiServiceAndWeight list \<Rightarrow> string option" where
  "next_partner_loop randNum cummulativeProbability [] = Some []"
| "next_partner_loop randNum cummulativeProbability (it # rest) =
     (let remainingSize = - 1 - cummulativeProbability in
      if remainingSize \<le> ucast (sw_weight it) then None
      else let cummulativeProbability = cummulativeProbability + ucast (sw_weight it) in
           if cummulativeProbability \<ge> randNum then Some (m_serviceHostAndPort (sw_serviceDescriptor it))
           else next_partner_loop randNum cummulativeProbability rest)"

text \<open>\<open>uniform_int_distribution(1, m_weigthSum)\<close> yields some number of that range.\<close>

definition getNextPartner :: "env \<Rightarrow> CommPartnerManager \<Rightarrow> agent \<Rightarrow> (string \<times> agent) option" where
  "getNextPartner E m a =
     (if m_weigthSum m = 0 then Some ([], a)
      else let randNum = word_of_nat (1 + env_rnd E (tick a) mod unat (m_weigthSum m))
           in map_option (\<lambda>hap. (hap, next_tick a)) (next_partner_loop randNum 0 (m_commDescriptorSet m)))"

definition updateCommPartners :: "ServiceAndWeigth list \<Rightarrow> CommPartnerManager \<Rightarrow> 32 word \<times> CommPartnerManager" where
  "updateCommPartners partners m =
     fold (\<lambda>it (numberOfInsertedPartners, m).
         (numberOfInsertedPartners + 1,
          m\<lparr>m_commDescriptorSet := m_commDescriptorSet m @ [sw_of_proto it],
            m_weigthSum := m_weigthSum m + ucast (saw_weight it)\<rparr>))
       partners (0, m\<lparr>m_commDescriptorSet := [], m_weigthSum := 0\<rparr>)"

definition SetTGsAndTEsRequestHandler :: "tr \<Rightarrow> FLUFFIMessage \<Rightarrow> FLUFFIMessage \<times> tr" where
  "SetTGsAndTEsRequestHandler st req =
     (let (tgs, tes) = settgsandtesrequest req;
          (newTGs, g) = updateCommPartners tgs (tr_tGManager st);
          (newTEs, e) = updateCommPartners tes (tr_tEManager st)
      in (SetTGsAndTEsResponse False, st\<lparr>tr_tGManager := g, tr_tEManager := e\<rparr>))"

definition TRGetStatusRequestHandler ::
    "string \<Rightarrow> string \<Rightarrow> int \<Rightarrow> tr \<Rightarrow> FLUFFIMessage \<Rightarrow> FLUFFIMessage \<times> tr" where
  "TRGetStatusRequestHandler sysCPU procCPU now st req =
     (let (status, n) = TR_generateStatus sysCPU procCPU (tr_agent st) (m_numberOfProcessedTestcases st);
          (resp, h) = GetStatusRequestHandler (m_lmServiceDescriptor (tr_agent st)) now status req (m_statusHandler st)
      in (resp, st\<lparr>m_numberOfProcessedTestcases := n, m_statusHandler := h\<rparr>))"

section \<open>The configuration\<close>

text \<open>
  What a function that may return early or leave the process comes to: a value, an early return
  (\<open>gives_up\<close>; the worker tries again later), or the exit of the process.
\<close>

datatype 'a attempt = ok_with 'a | gives_up | exits

definition required :: "(string \<rightharpoonup> string) \<Rightarrow> string \<Rightarrow> (string \<Rightarrow> 'a attempt) \<Rightarrow> 'a attempt" where
  "required settings n k = (case settings n of None \<Rightarrow> gives_up | Some v \<Rightarrow> k v)"

definition as_int :: "int option \<Rightarrow> (int \<Rightarrow> 'a attempt) \<Rightarrow> 'a attempt" where
  "as_int v k = (case v of None \<Rightarrow> exits | Some n \<Rightarrow> k n)"

definition flag_setting :: "(string \<rightharpoonup> string) \<Rightarrow> string \<Rightarrow> bool \<Rightarrow> bool" where
  "flag_setting settings n dflt = (case settings n of None \<Rightarrow> dflt | Some v \<Rightarrow> v = ''true'')"

definition optional_int :: "(string \<rightharpoonup> string) \<Rightarrow> string \<Rightarrow> int \<Rightarrow> (int \<Rightarrow> 'a attempt) \<Rightarrow> 'a attempt" where
  "optional_int settings n dflt k = (case settings n of None \<Rightarrow> k dflt | Some v \<Rightarrow> as_int (stoi v) k)"

text \<open>\<open>std::stoi(s, 0, 0x10)\<close>: an optional prefix \<open>0x\<close> before the hexadecimal digits.\<close>

definition hex_digit_value :: "char \<Rightarrow> nat option" where
  "hex_digit_value c =
     (let n = of_char c in
      if 48 \<le> n \<and> n \<le> 57 then Some (n - 48)
      else if 97 \<le> n \<and> n \<le> 102 then Some (n - 87)
      else if 65 \<le> n \<and> n \<le> 70 then Some (n - 55) else None)"

fun hex_value :: "nat \<Rightarrow> string \<Rightarrow> nat" where
  "hex_value acc [] = acc"
| "hex_value acc (c # cs) = (case hex_digit_value c of None \<Rightarrow> acc | Some d \<Rightarrow> hex_value (16 * acc + d) cs)"

definition hex_number :: "string \<Rightarrow> int option" where
  "hex_number s =
     (let s1 = dropWhile is_space s;
          neg = (s1 \<noteq> [] \<and> hd s1 = CHR ''-'');
          s2 = (if s1 \<noteq> [] \<and> (hd s1 = CHR ''-'' \<or> hd s1 = CHR ''+'') then tl s1 else s1);
          s3 = (case s2 of z # x # d # r \<Rightarrow>
                  if z = CHR ''0'' \<and> (x = CHR ''x'' \<or> x = CHR ''X'') \<and> hex_digit_value d \<noteq> None then d # r else s2
                | _ \<Rightarrow> s2)
      in if s3 = [] \<or> hex_digit_value (hd s3) = None then None
         else Some (if neg then - int (hex_value 0 s3) else int (hex_value 0 s3)))"

definition stoi_hex :: "string \<Rightarrow> int option" where
  "stoi_hex s = (case hex_number s of None \<Rightarrow> None
     | Some v \<Rightarrow> if - (2 ^ 31) \<le> v \<and> v < 2 ^ 31 then Some v else None)"

definition mk_base :: "tr_config \<Rightarrow> (string \<rightharpoonup> string) \<Rightarrow> Module list \<Rightarrow> string \<Rightarrow> int \<Rightarrow> string \<Rightarrow> executor_base" where
  "mk_base cfg settings modulesToCover targetcmdline hangTimeout additionalEnvParam =
     \<lparr>m_targetCMDline = targetcmdline, m_hangTimeoutMS = hangTimeout, m_modulesToCover = modulesToCover,
      x_testcaseDir = tr_testcaseDir cfg,
      m_suppressChildOutput = flag_setting settings ''suppressChildOutput'' True,
      m_additionalEnvParam = additionalEnvParam\<rparr>"

definition conf_DynRioSingle :: "tr_config \<Rightarrow> (string \<rightharpoonup> string) \<Rightarrow> Module list \<Rightarrow> executor attempt" where
  "conf_DynRioSingle cfg settings modulesToCover =
     required settings ''targetCMDLine'' (\<lambda>targetcmdline.
     required settings ''hangTimeout'' (\<lambda>h. as_int (stoi h) (\<lambda>hangTimeout.
     ok_with (TestExecutorDynRioSingle
       (mk_base cfg settings modulesToCover targetcmdline hangTimeout
          (opt_or [] (settings ''additionalEnvParam'')))
       (flag_setting settings ''treatAnyAccessViolationAsFatal'' False)))))"

definition conf_DynRioMulti :: "tr_config \<Rightarrow> (string \<rightharpoonup> string) \<Rightarrow> Module list \<Rightarrow> executor attempt" where
  "conf_DynRioMulti cfg settings modulesToCover =
     required settings ''targetCMDLine'' (\<lambda>targetcmdline.
     required settings ''hangTimeout'' (\<lambda>h. as_int (stoi h) (\<lambda>hangTimeout.
     required settings ''feederCMDLine'' (\<lambda>feederCmdline.
     required settings ''initializationTimeout'' (\<lambda>i. as_int (stoi i) (\<lambda>initializationTimeoutMS.
     optional_int settings ''forceRestartAfter'' (- 1) (\<lambda>forceRestartAfter.
     ok_with (TestExecutorDynRioMulti
       (mk_base cfg settings modulesToCover targetcmdline hangTimeout
          (opt_or [] (settings ''additionalEnvParam'')))
       (flag_setting settings ''treatAnyAccessViolationAsFatal'' False) feederCmdline
       (opt_or [] (settings ''starterCMDLine'')) initializationTimeoutMS
       (flag_setting settings ''targetForks'' False) forceRestartAfter new_multi))))))))"

definition conf_QemuUserSingle :: "tr_config \<Rightarrow> (string \<rightharpoonup> string) \<Rightarrow> Module list \<Rightarrow> executor attempt" where
  "conf_QemuUserSingle cfg settings modulesToCover =
     required settings ''targetCMDLine'' (\<lambda>targetcmdline.
     required settings ''hangTimeout'' (\<lambda>h. as_int (stoi h) (\<lambda>hangTimeout.
     required settings ''changerootTemplate'' (\<lambda>template.
     ok_with (TestExecutorQemuUserSingle (mk_base cfg settings modulesToCover targetcmdline hangTimeout [])
       (flag_setting settings ''treatAnyAccessViolationAsFatal'' False) template False)))))"

definition conf_GDB ::
    "tr_config \<Rightarrow> (string \<rightharpoonup> string) \<Rightarrow> Module list \<Rightarrow> BasicBlock list \<Rightarrow> executor attempt" where
  "conf_GDB cfg settings modulesToCover targetblocks =
     required settings ''targetCMDLine'' (\<lambda>targetcmdline.
     required settings ''hangTimeout'' (\<lambda>h. as_int (stoi h) (\<lambda>hangTimeout.
     required settings ''feederCMDLine'' (\<lambda>feederCmdline.
     required settings ''initializationTimeout'' (\<lambda>i. as_int (stoi i) (\<lambda>initializationTimeoutMS.
     optional_int settings ''forceRestartAfter'' (- 1) (\<lambda>forceRestartAfter.
     required settings ''breakPointInstruction'' (\<lambda>b. as_int (stoi_hex b) (\<lambda>breakPointInstruction.
     required settings ''breakPointInstructionBytes'' (\<lambda>n. as_int (stoi n) (\<lambda>breakPointInstructionBytes.
     ok_with (TestExecutorGDB (mk_base cfg settings modulesToCover targetcmdline hangTimeout []) feederCmdline
       (opt_or [] (settings ''starterCMDLine'')) initializationTimeoutMS forceRestartAfter
       (set_of_list (\<lambda>b. b) (map block_of_proto targetblocks)) breakPointInstruction
       breakPointInstructionBytes new_gdb_executor))))))))))))"

text \<open>The checks on the answer and the choice of the executor by the end of the sub type's name.\<close>

definition executor_of_config :: "tr_config \<Rightarrow> FLUFFIMessage \<Rightarrow> executor attempt" where
  "executor_of_config cfg resp =
     (let settings = received_settings resp;
          modulesToCover = set_of_list (\<lambda>m. m)
            (map (\<lambda>i. Module (mn_moduleName i) (mn_modulePath i) (mn_moduleID i))
               (getfuzzjobconfigurationresponse_targetmodules resp))
      in if length modulesToCover = 0 then gives_up
         else required settings ''chosenSubtype'' (\<lambda>chosenSubtype.
           if chosenSubtype \<notin> set (tr_agentSubTypes cfg) then gives_up
           else if stringHasEnding chosenSubtype ''DynRioSingle''
           then conf_DynRioSingle cfg settings modulesToCover
           else if stringHasEnding chosenSubtype ''DynRioMulti''
           then conf_DynRioMulti cfg settings modulesToCover
           else if stringHasEnding chosenSubtype ''QemuUserSingle''
           then conf_QemuUserSingle cfg settings modulesToCover
           else if stringHasEnding chosenSubtype ''GDB''
           then conf_GDB cfg settings modulesToCover (getfuzzjobconfigurationresponse_targetblocks resp)
           else exits))"

definition tr_ask ::
    "env \<Rightarrow> FLUFFIMessage \<Rightarrow> string \<Rightarrow> int \<Rightarrow> tr \<Rightarrow> (FLUFFIMessage option \<times> tr) option" where
  "tr_ask E req hap timeoutMS st =
     do {
       (resp, a) \<leftarrow> sendReqAndRecvResp E req hap timeoutMS (tr_agent st);
       Some (resp, st\<lparr>tr_agent := a\<rparr>)
     }"

definition tr_tryGetConfigFromLM :: "env \<Rightarrow> executors \<Rightarrow> tr_config \<Rightarrow> tr \<Rightarrow> (bool \<times> tr) option" where
  "tr_tryGetConfigFromLM E X cfg st =
     do {
       (resp, st) \<leftarrow> tr_ask E (GetFuzzJobConfigurationRequest (Some (sd_getProtobuf (tr_self cfg))))
         (m_serviceHostAndPort (m_lmServiceDescriptor (tr_agent st))) timeoutNormalMessage st;
       (case resp of None \<Rightarrow> Some (False, st)
        | Some m \<Rightarrow>
            (case executor_of_config cfg m of
               gives_up \<Rightarrow> Some (False, st)
             | exits \<Rightarrow> None
             | ok_with x \<Rightarrow>
                 (let st = st\<lparr>m_executor := Some x, tr_agent := x_construct X x (tr_agent st)\<rparr> in
                  if x_isSetupFunctionable X x (tr_agent st) then Some (True, st) else None)))
     }"

section \<open>One testcase\<close>

definition getTestcaseFromGenerator ::
    "env \<Rightarrow> tr_config \<Rightarrow> string \<Rightarrow> tr \<Rightarrow> (GetTestcaseResponse_t option \<times> tr) option" where
  "getTestcaseFromGenerator E cfg generatorHAP st =
     do {
       (resp, st) \<leftarrow> tr_ask E GetTestcaseRequest generatorHAP timeoutNormalMessage st;
       (case resp of None \<Rightarrow> Some (None, st)
        | Some m \<Rightarrow>
            (let receivedTestcase = gettestcaseresponse m;
                 i = opt_or default_TestcaseID (gtr_id receivedTestcase)
             in if \<not> gtr_success receivedTestcase then Some (None, st)
                else do {
                  (stored, a) \<leftarrow> storeTestcaseFileOnDisk E (tid_of_proto i) (tr_testcaseDir cfg)
                    (gtr_testCaseFirstChunk receivedTestcase) (gtr_isLastChunk receivedTestcase)
                    (sd_serviceHostAndPort (opt_or default_ServiceDescriptor (tid_serviceDescriptor i)))
                    (tr_agent st);
                  Some (if stored then Some receivedTestcase else None, st\<lparr>tr_agent := a\<rparr>)
                }))
     }"

text \<open>The result of an execution as the evaluator gets to see it.\<close>

definition internal_error :: string where
  "internal_error = ''Internal Error: ''"

definition result_of_output :: "DebugExecutionOutput \<Rightarrow> FluffiTestResult" where
  "result_of_output out =
     (let mk = (\<lambda>e bs fp. \<lparr>m_exitType = e, m_blocks = bs, m_crashFootprint = fp,
                  m_hasFullCoverage = dbg_hasFullCoverage out\<rparr>)
      in case m_terminationType out of
           CLEAN \<Rightarrow> mk CleanExit (m_coveredBasicBlocks out) []
         | ERR \<Rightarrow> mk Exception_Other [] (internal_error @ m_terminationDescription out)
         | EXCEPTION_OTHER \<Rightarrow> mk Exception_Other [] (m_firstCrash out @ ''-'' @ m_lastCrash out)
         | EXCEPTION_ACCESSVIOLATION \<Rightarrow>
             mk Exception_AccessViolation [] (m_firstCrash out @ ''-'' @ m_lastCrash out)
         | TIMEOUT \<Rightarrow> mk Hang [] [])"

text \<open>The executor is dereferenced; that there is one is part of the invariant below.\<close>

definition fuzzTestCase ::
    "executors \<Rightarrow> FluffiTestcaseID \<Rightarrow> bool \<Rightarrow> tr \<Rightarrow> (FluffiTestResult \<times> tr) option" where
  "fuzzTestCase X testcaseId forceFullCoverage st =
     do {
       x \<leftarrow> m_executor st;
       (out, x, a) \<leftarrow> x_execute X x testcaseId forceFullCoverage (tr_agent st);
       Some (result_of_output out, st\<lparr>m_executor := Some x, tr_agent := a\<rparr>)
     }"

text \<open>The request that carries the result, and the process after the file was perhaps marked.\<close>

definition put_request ::
    "env \<Rightarrow> tr_config \<Rightarrow> FluffiTestResult \<Rightarrow> FluffiTestcaseID \<Rightarrow> FluffiTestcaseID \<Rightarrow> agent \<Rightarrow>
     PutTestResultRequest_t \<times> agent" where
  "put_request E cfg testResult testcaseId parentId a =
     (let (dat, flag) = loadTestcaseChunkInMemory E testcaseId (tr_testcaseDir cfg) 0 a;
          isLastChunk = the_flag E a flag;
          a = (if isLastChunk
               then markFileForDelete (generateTestcasePathAndFilename testcaseId (tr_testcaseDir cfg)) a else a)
      in (\<lparr>ptr_id = Some (tid_getProtobuf testcaseId), ptr_parentId = Some (tid_getProtobuf parentId),
           ptr_result = Some (result_setProtobuf testResult default_TestResult), ptr_testCaseFirstChunk = dat,
           ptr_isLastChunk = isLastChunk, ptr_sdOfRunner = Some (sd_getProtobuf (tr_self cfg))\<rparr>, a))"

definition pushTestcaseWithResultsToEvaluator ::
    "env \<Rightarrow> tr_config \<Rightarrow> string \<Rightarrow> FluffiTestResult \<Rightarrow> FluffiTestcaseID \<Rightarrow> FluffiTestcaseID \<Rightarrow> tr \<Rightarrow>
     (bool \<times> tr) option" where
  "pushTestcaseWithResultsToEvaluator E cfg evaluatorTargetHAP testResult testcaseId parentId st =
     (let (req, a) = put_request E cfg testResult testcaseId parentId (tr_agent st)
      in do {
        (resp, st) \<leftarrow> tr_ask E (PutTestResultRequest req) evaluatorTargetHAP timeoutFileTransferMessage
          (st\<lparr>tr_agent := a\<rparr>);
        Some (case resp of None \<Rightarrow> False | Some m \<Rightarrow> puttestresultresponse_success m, st)
      })"

definition tr_mark_testcase :: "tr_config \<Rightarrow> FluffiTestcaseID \<Rightarrow> tr \<Rightarrow> tr" where
  "tr_mark_testcase cfg testcaseID st =
     st\<lparr>tr_agent := markFileForDelete (generateTestcasePathAndFilename testcaseID (tr_testcaseDir cfg))
          (tr_agent st)\<rparr>"

definition is_internal_error :: "FluffiTestResult \<Rightarrow> bool" where
  "is_internal_error r \<longleftrightarrow> m_exitType r = Exception_Other \<and> substr (m_crashFootprint r) 0 16 = internal_error"

text \<open>From the received testcase to the evaluator.\<close>

definition run_testcase ::
    "env \<Rightarrow> executors \<Rightarrow> tr_config \<Rightarrow> string \<Rightarrow> GetTestcaseResponse_t \<Rightarrow> tr \<Rightarrow> tr option" where
  "run_testcase E X cfg evaluatorHAP receivedTestcase st =
     (let testcaseID = tid_of_proto (opt_or default_TestcaseID (gtr_id receivedTestcase));
          parentTestcaseID = tid_of_proto (opt_or default_TestcaseID (gtr_parentId receivedTestcase))
      in do {
        (testResult, st) \<leftarrow> fuzzTestCase X testcaseID (gtr_forceFullCoverage receivedTestcase) st;
        let st = st\<lparr>m_numberOfProcessedTestcases := m_numberOfProcessedTestcases st + 1\<rparr>;
        if is_internal_error testResult then Some (tr_mark_testcase cfg testcaseID st)
        else do {
          (success, st) \<leftarrow> pushTestcaseWithResultsToEvaluator E cfg evaluatorHAP testResult testcaseID
            parentTestcaseID st;
          Some (if \<not> success then tr_mark_testcase cfg testcaseID st else st)
        }
      })"

text \<open>One pass of the loop of \<open>workerMain\<close>: the part that follows the configuration, and the whole.\<close>

definition tr_work :: "env \<Rightarrow> executors \<Rightarrow> tr_config \<Rightarrow> tr \<Rightarrow> tr option" where
  "tr_work E X cfg st =
     do {
       (generatorHAP, a) \<leftarrow> getNextPartner E (tr_tGManager st) (tr_agent st);
       let st = st\<lparr>tr_agent := a\<rparr>;
       if generatorHAP = [] then Some st
       else do {
         (evaluatorHAP, a) \<leftarrow> getNextPartner E (tr_tEManager st) (tr_agent st);
         let st = st\<lparr>tr_agent := a\<rparr>;
         if evaluatorHAP = [] then Some st
         else do {
           (received, st) \<leftarrow> getTestcaseFromGenerator E cfg generatorHAP st;
           (case received of None \<Rightarrow> Some st
            | Some r \<Rightarrow> run_testcase E X cfg evaluatorHAP r st)
         }
       }
     }"

definition tr_main_pass :: "env \<Rightarrow> executors \<Rightarrow> tr_config \<Rightarrow> tr \<Rightarrow> tr option" where
  "tr_main_pass E X cfg st =
     do {
       (got, st) \<leftarrow> (if tr_gotConfig st then Some (True, st) else tr_tryGetConfigFromLM E X cfg st);
       let st = st\<lparr>tr_gotConfig := got\<rparr>;
       if \<not> got then Some st else tr_work E X cfg st
     }"

section \<open>The runner as a transition system\<close>

inductive tr_step :: "env \<Rightarrow> executors \<Rightarrow> tr_config \<Rightarrow> tr \<Rightarrow> tr \<Rightarrow> bool" for E X cfg where
  set_partners: "SetTGsAndTEsRequestHandler st m = (resp, st') \<Longrightarrow> tr_step E X cfg st st'"
| get_status: "TRGetStatusRequestHandler sysCPU procCPU now st m = (resp, st') \<Longrightarrow> tr_step E X cfg st st'"
| get_chunk: "GetTestcaseChunkRequestHandler E (tr_testcaseDir cfg) True (tr_agent st) m = (resp, a) \<Longrightarrow>
    tr_step E X cfg st (st\<lparr>tr_agent := a\<rparr>)"
| main: "tr_main_pass E X cfg st = Some st' \<Longrightarrow> tr_step E X cfg st st'"
| collect: "tr_step E X cfg st (st\<lparr>tr_agent := gc_worker_pass E (tr_agent st)\<rparr>)"

definition no_partners :: CommPartnerManager where
  "no_partners = \<lparr>m_weigthSum = 0, m_commDescriptorSet = []\<rparr>"

inductive tr_start :: "tr \<Rightarrow> bool" where
  "tr_start \<lparr>tr_tGManager = no_partners, tr_tEManager = no_partners, tr_gotConfig = False, m_executor = None,
     m_numberOfProcessedTestcases = 0, m_statusHandler = h, tr_agent = a\<rparr>"

end
