(* ===== verification/TRFacts.thy ===== *)
theory TRFacts
  imports TRRunner
begin

text \<open>
  Facts on the runner: the partners are drawn in proportion to their weights, what the worker relies on
  in an executor (the locale \<open>test_executor\<close>) and what follows for a testcase on its way, and the
  invariant of the reachable states.
\<close>

section \<open>Partners\<close>

abbreviation weight_of :: "FluffiServiceAndWeight \<Rightarrow> nat" where
  "weight_of p \<equiv> unat (sw_weight p)"

abbreviation hap_of :: "FluffiServiceAndWeight \<Rightarrow> string" where
  "hap_of p \<equiv> m_serviceHostAndPort (sw_serviceDescriptor p)"

definition total_weight :: "FluffiServiceAndWeight list \<Rightarrow> nat" where
  "total_weight ps = sum_list (map weight_of ps)"

lemma total_weight_simps [simp]:
  "total_weight [] = 0" "total_weight (p # ps) = weight_of p + total_weight ps"
  "total_weight (ps @ qs) = total_weight ps + total_weight qs"
  by (simp_all add: total_weight_def)

text \<open>The choice on natural numbers.\<close>

fun pick :: "nat \<Rightarrow> FluffiServiceAndWeight list \<Rightarrow> string" where
  "pick r [] = []"
| "pick r (p # ps) = (if r \<le> weight_of p then hap_of p else pick (r - weight_of p) ps)"

lemma unat_ucast_32_64 [simp]: "unat (ucast (w :: 32 word) :: 64 word) = unat w"
proof -
  have "unat w < 2 ^ 64" by (rule order_less_le_trans [OF unsigned_less]) simp
  then show ?thesis by (simp add: unsigned_ucast_eq take_bit_nat_eq_self)
qed

lemma next_partner_loop_pick:
  assumes "c + total_weight ps < 2 ^ 64 - 1" and "r < 2 ^ 64"
  shows "next_partner_loop (word_of_nat r) (word_of_nat c) ps = Some (pick (r - c) ps)"
  using assms
proof (induction ps arbitrary: c)
  case (Cons p ps)
  have c: "unat (word_of_nat c :: 64 word) = c" using Cons.prems by (simp add: unat_of_nat take_bit_eq_mod)
  have r: "unat (word_of_nat r :: 64 word) = r" using Cons.prems by (simp add: unat_of_nat take_bit_eq_mod)
  have "unat (- 1 - word_of_nat c :: 64 word) = 2 ^ 64 - 1 - c"
    using c Cons.prems by (subst unat_sub) (simp_all add: word_le_nat_alt unsigned_minus_1_eq_mask mask_eq_exp_minus_1)
  then have "\<not> - 1 - word_of_nat c \<le> (ucast (sw_weight p) :: 64 word)"
    using Cons.prems by (simp add: word_le_nat_alt)
  moreover have sum: "word_of_nat c + (ucast (sw_weight p) :: 64 word) = word_of_nat (c + weight_of p)"
    by (metis of_nat_add unat_ucast_32_64 of_nat_unat ucast_id)
  moreover have "unat (word_of_nat (c + weight_of p) :: 64 word) = c + weight_of p"
    using Cons.prems unfolding unat_of_nat by (simp add: take_bit_eq_mod)
  then have "(word_of_nat r :: 64 word) \<le> word_of_nat (c + weight_of p) \<longleftrightarrow> r - c \<le> weight_of p"
    using r by (auto simp: word_le_nat_alt)
  ultimately show ?case
    using Cons.IH [of "c + weight_of p"] Cons.prems by (simp add: Let_def)
qed simp

lemma card_pick:
  "card {r \<in> {1..total_weight ps}. pick r ps = h} = total_weight (filter (\<lambda>p. hap_of p = h) ps)"
proof (induction ps)
  case (Cons p ps)
  let ?w = "weight_of p" let ?T = "total_weight ps"
  let ?A = "{r \<in> {1..?w}. hap_of p = h}" let ?B = "{r \<in> {1..?T}. pick r ps = h}"
  have "{r \<in> {1..?w + ?T}. pick r (p # ps) = h} = ?A \<union> (\<lambda>r. r + ?w) ` ?B"
  proof (intro equalityI subsetI)
    fix r assume r: "r \<in> {r \<in> {1..?w + ?T}. pick r (p # ps) = h}"
    show "r \<in> ?A \<union> (\<lambda>r. r + ?w) ` ?B"
    proof (cases "r \<le> ?w")
      case True
      then show ?thesis using r by simp
    next
      case False
      then have "r - ?w \<in> ?B" "r = (r - ?w) + ?w" using r by auto
      then show ?thesis by blast
    qed
  qed (auto split: if_splits)
  moreover have "card (?A \<union> (\<lambda>r. r + ?w) ` ?B) = card ?A + card ((\<lambda>r. r + ?w) ` ?B)"
    by (rule card_Un_disjoint) auto
  moreover have "card ((\<lambda>r. r + ?w) ` ?B) = card ?B" by (rule card_image) simp
  moreover have "card ?A = (if hap_of p = h then ?w else 0)"
    using card_atLeastAtMost [of 1 ?w] by (cases "hap_of p = h") (simp_all add: atLeastAtMost_def atLeast_def atMost_def Int_def)
  ultimately show ?case using Cons.IH by simp
qed simp

text \<open>The sum of the weights is kept along with them, modulo the width of the counter.\<close>

definition cpm_inv :: "CommPartnerManager \<Rightarrow> bool" where
  "cpm_inv m \<longleftrightarrow> m_weigthSum m = word_of_nat (total_weight (m_commDescriptorSet m))"

lemma updateCommPartners_fold:
  "fold (\<lambda>it (k, m). (k + 1, m\<lparr>m_commDescriptorSet := m_commDescriptorSet m @ [sw_of_proto it],
       m_weigthSum := m_weigthSum m + ucast (saw_weight it)\<rparr>)) ps (k, m) =
     (k + word_of_nat (length ps),
      m\<lparr>m_commDescriptorSet := m_commDescriptorSet m @ map sw_of_proto ps,
        m_weigthSum := m_weigthSum m + word_of_nat (total_weight (map sw_of_proto ps))\<rparr>)"
proof (induction ps arbitrary: k m)
  case (Cons p ps)
  have "(ucast (saw_weight p) :: 64 word) = word_of_nat (weight_of (sw_of_proto p))"
    by (simp add: sw_of_proto_def word_unat_eq_iff unat_of_nat take_bit_nat_eq_self_iff
        unsigned_less [THEN order_less_le_trans])
  then show ?case by (simp add: Cons.IH algebra_simps)
qed simp

lemma updateCommPartners_eq:
  "updateCommPartners ps m = (word_of_nat (length ps),
     \<lparr>m_weigthSum = word_of_nat (total_weight (map sw_of_proto ps)), m_commDescriptorSet = map sw_of_proto ps\<rparr>)"
  unfolding updateCommPartners_def updateCommPartners_fold by simp

lemma weight_lt: "weight_of p < 2 ^ 32"
  by (rule order_less_le_trans [OF unsigned_less]) simp

lemma total_weight_bound: "total_weight ps \<le> length ps * (2 ^ 32 - 1)"
proof (induction ps)
  case (Cons p ps)
  have "weight_of p \<le> 2 ^ 32 - 1" using weight_lt [of p] by simp
  with Cons show ?case by simp
qed simp

lemma total_weight_fits: "length ps < 2 ^ 32 \<Longrightarrow> total_weight ps < 2 ^ 64 - 1"
proof -
  assume "length ps < 2 ^ 32"
  then have "length ps * (2 ^ 32 - 1) \<le> (2 ^ 32 - 1) * (2 ^ 32 - 1 :: nat)" by (intro mult_right_mono) auto
  with total_weight_bound [of ps] show ?thesis by simp
qed

text \<open>One draw, when the sum does not overflow.\<close>

lemma getNextPartner_pick:
  assumes "cpm_inv m" and "total_weight (m_commDescriptorSet m) < 2 ^ 64 - 1"
  shows "getNextPartner E m a =
    (let n = total_weight (m_commDescriptorSet m) in
     Some (if n = 0 then ([], a) else (pick (1 + env_rnd E (tick a) mod n) (m_commDescriptorSet m), next_tick a)))"
proof -
  let ?n = "total_weight (m_commDescriptorSet m)"
  have n: "unat (m_weigthSum m) = ?n"
    using assms by (simp add: cpm_inv_def unat_of_nat take_bit_eq_mod)
  then have z: "m_weigthSum m = 0 \<longleftrightarrow> ?n = 0" by (metis unat_eq_zero)
  have "next_partner_loop (word_of_nat (1 + env_rnd E (tick a) mod ?n)) (word_of_nat 0) (m_commDescriptorSet m)
      = Some (pick (1 + env_rnd E (tick a) mod ?n) (m_commDescriptorSet m))" if "?n \<noteq> 0"
  proof -
    have "env_rnd E (tick a) mod ?n < ?n" using that by simp
    then show ?thesis
      using next_partner_loop_pick [of 0 "m_commDescriptorSet m" "1 + env_rnd E (tick a) mod ?n"] assms(2) by simp
  qed
  with n z show ?thesis by (simp add: getNextPartner_def Let_def)
qed

section \<open>What operations leave alone\<close>

definition tr_rest where
  "tr_rest st = (tr_tGManager st, tr_tEManager st, tr_gotConfig st, m_executor st = None, m_statusHandler st)"

lemma tr_rest_updates [simp]:
  "tr_rest (st\<lparr>tr_agent := a\<rparr>) = tr_rest st"
  "tr_rest (st\<lparr>m_numberOfProcessedTestcases := n\<rparr>) = tr_rest st"
  "tr_rest (tr_mark_testcase cfg i st) = tr_rest st"
  by (simp_all add: tr_rest_def tr_mark_testcase_def)

lemma tr_ask_result:
  assumes "tr_ask E req hap tmo st = Some (r, st')"
  shows "st' = st\<lparr>tr_agent := tr_agent st'\<rparr>"
    and "r = Some m \<Longrightarrow> env_net E (Suc (tick (tr_agent st))) hap req = Reply m"
    and "r = None \<Longrightarrow> env_net E (Suc (tick (tr_agent st))) hap req \<in> {SendTimeout, RecvTimeout}"
    and "sockets_idle (tr_agent st) \<Longrightarrow> sockets_idle (tr_agent st')"
    and "files (tr_agent st') = files (tr_agent st)"
    and "m_setOfFilesToDelete (tr_agent st') = m_setOfFilesToDelete (tr_agent st)"
    and "tr_rest st' = tr_rest st"
proof -
  from assms obtain a where s: "sendReqAndRecvResp E req hap tmo (tr_agent st) = Some (r, a)"
    and st': "st' = st\<lparr>tr_agent := a\<rparr>" by (auto simp: tr_ask_def bind_eq_Some_conv)
  show "st' = st\<lparr>tr_agent := tr_agent st'\<rparr>" "tr_rest st' = tr_rest st" using st' by simp_all
  show "sockets_idle (tr_agent st')" if "sockets_idle (tr_agent st)"
    using st' sendReqAndRecvResp_idle [OF s that] by simp
  show "files (tr_agent st') = files (tr_agent st)"
    "m_setOfFilesToDelete (tr_agent st') = m_setOfFilesToDelete (tr_agent st)"
    using st' sendReqAndRecvResp_frame [OF s] by simp_all
  from s show "r = Some m \<Longrightarrow> env_net E (Suc (tick (tr_agent st))) hap req = Reply m"
    and "r = None \<Longrightarrow> env_net E (Suc (tick (tr_agent st))) hap req \<in> {SendTimeout, RecvTimeout}"
    by (cases rule: sendReqAndRecvResp_cases; auto)+
qed

lemma tr_ask_returns:
  assumes "sockets_idle (tr_agent st)" and "env_net E (Suc (tick (tr_agent st))) hap req \<notin> {SendError, RecvError}"
  obtains r st' where "tr_ask E req hap tmo st = Some (r, st')"
  using sendReqAndRecvResp_returns [OF assms, of tmo] that by (fastforce simp: tr_ask_def)

lemma getTestcaseFromGenerator_rest:
  "getTestcaseFromGenerator E cfg hap st = Some (r, st') \<Longrightarrow> tr_rest st' = tr_rest st"
  by (auto simp: getTestcaseFromGenerator_def bind_eq_Some_conv Let_def tr_ask_result(7)
      split: option.splits if_splits)

lemma fuzzTestCase_rest: "fuzzTestCase X i full st = Some (r, st') \<Longrightarrow> tr_rest st' = tr_rest st"
  by (auto simp: fuzzTestCase_def bind_eq_Some_conv tr_rest_def)

lemma push_rest:
  "pushTestcaseWithResultsToEvaluator E cfg hap r i p st = Some (ok, st') \<Longrightarrow> tr_rest st' = tr_rest st"
  by (auto simp: pushTestcaseWithResultsToEvaluator_def Let_def split_beta bind_eq_Some_conv dest!: tr_ask_result(7))

lemma run_testcase_rest:
  assumes "run_testcase E X cfg hap r st = Some st'" shows "tr_rest st' = tr_rest st"
proof -
  let ?i = "tid_of_proto (opt_or default_TestcaseID (gtr_id r))"
  from assms obtain res st1 where f: "fuzzTestCase X ?i (gtr_forceFullCoverage r) st = Some (res, st1)"
    by (auto simp: run_testcase_def Let_def bind_eq_Some_conv)
  show ?thesis
    using assms f fuzzTestCase_rest [OF f] push_rest
    by (fastforce simp: run_testcase_def Let_def bind_eq_Some_conv split: if_splits)
qed

section \<open>The invariant\<close>

text \<open>
  The sums of the weights are those of the partners, and a configured runner has an executor.
\<close>

definition tr_inv :: "tr \<Rightarrow> bool" where
  "tr_inv st \<longleftrightarrow> cpm_inv (tr_tGManager st) \<and> cpm_inv (tr_tEManager st) \<and>
     (tr_gotConfig st \<longrightarrow> m_executor st \<noteq> None)"

lemma tr_inv_rest: "tr_rest st' = tr_rest st \<Longrightarrow> tr_inv st' = tr_inv st"
  by (simp add: tr_inv_def tr_rest_def)

lemma tryGetConfig_result:
  assumes "tr_tryGetConfigFromLM E X cfg st = Some (got, st')"
  shows "tr_tGManager st' = tr_tGManager st \<and> tr_tEManager st' = tr_tEManager st"
    and "got \<Longrightarrow> \<exists>m x. executor_of_config cfg m = ok_with x \<and> m_executor st' = Some x \<and>
      x_isSetupFunctionable X x (tr_agent st') \<and>
      env_net E (Suc (tick (tr_agent st))) (m_serviceHostAndPort (m_lmServiceDescriptor (tr_agent st)))
        (GetFuzzJobConfigurationRequest (Some (sd_getProtobuf (tr_self cfg)))) = Reply m"
    and "\<not> got \<Longrightarrow> m_executor st' = m_executor st"
proof -
  from assms obtain r st1 where a: "tr_ask E (GetFuzzJobConfigurationRequest (Some (sd_getProtobuf (tr_self cfg))))
      (m_serviceHostAndPort (m_lmServiceDescriptor (tr_agent st))) timeoutNormalMessage st = Some (r, st1)"
    by (auto simp: tr_tryGetConfigFromLM_def bind_eq_Some_conv)
  note ar = tr_ask_result [OF a]
  have f: "tr_tGManager st1 = tr_tGManager st" "tr_tEManager st1 = tr_tEManager st" "m_executor st1 = m_executor st"
    by (subst ar(1), simp)+
  show "tr_tGManager st' = tr_tGManager st \<and> tr_tEManager st' = tr_tEManager st"
    and "\<not> got \<Longrightarrow> m_executor st' = m_executor st"
    using assms a f by (auto simp: tr_tryGetConfigFromLM_def Let_def split: option.splits attempt.splits if_splits)
  assume got
  then obtain m x where "r = Some m" "executor_of_config cfg m = ok_with x" "m_executor st' = Some x"
    "x_isSetupFunctionable X x (tr_agent st')"
    using assms a by (auto simp: tr_tryGetConfigFromLM_def Let_def split: option.splits attempt.splits if_splits)
  then show "\<exists>m x. executor_of_config cfg m = ok_with x \<and> m_executor st' = Some x \<and>
      x_isSetupFunctionable X x (tr_agent st') \<and>
      env_net E (Suc (tick (tr_agent st))) (m_serviceHostAndPort (m_lmServiceDescriptor (tr_agent st)))
        (GetFuzzJobConfigurationRequest (Some (sd_getProtobuf (tr_self cfg)))) = Reply m"
    using ar(2) by blast
qed

lemma tr_work_rest:
  assumes "tr_work E X cfg st = Some st'" shows "tr_rest st' = tr_rest st"
proof -
  from assms obtain g a where g: "getNextPartner E (tr_tGManager st) (tr_agent st) = Some (g, a)"
    by (auto simp: tr_work_def bind_eq_Some_conv)
  show ?thesis
  proof (cases "g = []")
    case True
    with assms g show ?thesis by (auto simp: tr_work_def)
  next
    case False
    with assms g obtain e b where e: "getNextPartner E (tr_tEManager st) a = Some (e, b)"
      by (auto simp: tr_work_def bind_eq_Some_conv)
    show ?thesis
    proof (cases "e = []")
      case True
      with assms g e show ?thesis by (auto simp: tr_work_def Let_def split: if_splits)
    next
      case ne: False
      with False assms g e obtain r st1 where r: "getTestcaseFromGenerator E cfg g (st\<lparr>tr_agent := b\<rparr>) = Some (r, st1)"
        by (auto simp: tr_work_def bind_eq_Some_conv)
      with False ne assms g e have "(case r of None \<Rightarrow> Some st1 | Some r \<Rightarrow> run_testcase E X cfg e r st1) = Some st'"
        by (simp add: tr_work_def)
      then have "tr_rest st' = tr_rest st1" using run_testcase_rest by (auto split: option.splits)
      with getTestcaseFromGenerator_rest [OF r] show ?thesis by simp
    qed
  qed
qed

lemma tr_main_pass_inv:
  assumes "tr_main_pass E X cfg st = Some st'" and "tr_inv st" shows "tr_inv st'"
proof -
  from assms(1) obtain got st1 where c: "(if tr_gotConfig st then Some (True, st) else tr_tryGetConfigFromLM E X cfg st) =
      Some (got, st1)" by (auto simp: tr_main_pass_def bind_eq_Some_conv)
  have i: "tr_inv (st1\<lparr>tr_gotConfig := got\<rparr>)"
  proof (cases "tr_gotConfig st")
    case True
    then show ?thesis using c assms(2) by (auto simp: tr_inv_def)
  next
    case False
    then have t: "tr_tryGetConfigFromLM E X cfg st = Some (got, st1)" using c by simp
    from tryGetConfig_result(1,2) [OF t] assms(2) show ?thesis by (auto simp: tr_inv_def)
  qed
  show ?thesis
  proof (cases got)
    case False
    with assms(1) c i show ?thesis by (simp add: tr_main_pass_def)
  next
    case True
    with assms(1) c have "tr_work E X cfg (st1\<lparr>tr_gotConfig := True\<rparr>) = Some st'" by (simp add: tr_main_pass_def)
    from tr_inv_rest [OF tr_work_rest [OF this]] i True show ?thesis by simp
  qed
qed

lemma updateCommPartners_inv: "cpm_inv (snd (updateCommPartners ps m))"
  by (simp add: updateCommPartners_eq cpm_inv_def)

interpretation tr_system: invariant_system tr_start "tr_step E X cfg" tr_inv for E X cfg
proof
  show "tr_start s \<Longrightarrow> tr_inv s" for s
    by (auto simp: tr_inv_def cpm_inv_def no_partners_def elim!: tr_start.cases)
  fix s s' assume i: "tr_inv s" and "tr_step E X cfg s s'"
  from this(2) show "tr_inv s'"
  proof (cases rule: tr_step.cases)
    case (set_partners m resp)
    then show ?thesis using i updateCommPartners_inv
      by (auto simp: SetTGsAndTEsRequestHandler_def tr_inv_def Let_def split_beta)
  next
    case (get_status sysCPU procCPU now m resp)
    then show ?thesis using i by (auto simp: TRGetStatusRequestHandler_def Let_def split_beta tr_inv_def)
  next
    case main
    then show ?thesis using i by (rule tr_main_pass_inv)
  qed (use i in \<open>simp_all add: tr_inv_def\<close>)
qed

section \<open>What the worker relies on in an executor\<close>

text \<open>
  An operation on a process leaves all files alone but those that were marked for deletion and its scratch
  files, marks only scratch files, and does not touch the communication.
\<close>

definition leaves_alone :: "(string \<Rightarrow> bool) \<Rightarrow> agent \<Rightarrow> agent \<Rightarrow> bool" where
  "leaves_alone scratch a a' \<longleftrightarrow>
     set (m_setOfFilesToDelete a') \<subseteq> set (m_setOfFilesToDelete a) \<union> Collect scratch \<and>
     (\<forall>p. p \<notin> set (m_setOfFilesToDelete a) \<longrightarrow> \<not> scratch p \<longrightarrow> files a' p = files a p) \<and>
     m_zeroMQSockets a' = m_zeroMQSockets a \<and> m_lmServiceDescriptor a' = m_lmServiceDescriptor a"

lemma leaves_alone_refl [simp]: "leaves_alone S a a"
  by (simp add: leaves_alone_def)

lemma leaves_alone_trans:
  assumes "leaves_alone S a b" and "leaves_alone S b c" shows "leaves_alone S a c"
  unfolding leaves_alone_def
proof (intro conjI allI impI)
  note ab = assms(1) [unfolded leaves_alone_def] and bc = assms(2) [unfolded leaves_alone_def]
  show "set (m_setOfFilesToDelete c) \<subseteq> set (m_setOfFilesToDelete a) \<union> Collect S"
    "m_zeroMQSockets c = m_zeroMQSockets a" "m_lmServiceDescriptor c = m_lmServiceDescriptor a"
    using ab bc by auto
  fix p assume p: "p \<notin> set (m_setOfFilesToDelete a)" "\<not> S p"
  then have "p \<notin> set (m_setOfFilesToDelete b)" using ab by auto
  with p show "files c p = files a p" using ab bc by auto
qed

locale test_executor =
  fixes execute :: "executor \<Rightarrow> FluffiTestcaseID \<Rightarrow> bool \<Rightarrow> agent \<Rightarrow> (DebugExecutionOutput \<times> executor \<times> agent) option"
    and scratch :: "executor \<Rightarrow> string \<Rightarrow> bool" and modelled :: "executor \<Rightarrow> bool"
  assumes execute_leaves: "modelled x \<Longrightarrow> execute x i full a = Some (out, x', a') \<Longrightarrow> leaves_alone (scratch x) a a'"
begin

text \<open>So the file of a testcase that is not scratch is there, and not marked, when its result is sent.\<close>

lemma fuzz_leaves:
  assumes "m_executor st = Some x" and "modelled x" and "x_execute X = execute"
    and "fuzzTestCase X i full st = Some (res, st')"
  shows "leaves_alone (scratch x) (tr_agent st) (tr_agent st')"
proof -
  from assms obtain out x' a where "execute x i full (tr_agent st) = Some (out, x', a)"
    and "st' = st\<lparr>m_executor := Some x', tr_agent := a\<rparr>"
    by (auto simp: fuzzTestCase_def bind_eq_Some_conv)
  then show ?thesis using execute_leaves [OF assms(2)] by simp
qed

lemma fuzz_keeps_file:
  assumes "m_executor st = Some x" and "modelled x" and "x_execute X = execute"
    and "fuzzTestCase X i full st = Some (res, st')"
    and "p \<notin> set (m_setOfFilesToDelete (tr_agent st))" and "\<not> scratch x p"
  shows "files (tr_agent st') p = files (tr_agent st) p"
    and "p \<notin> set (m_setOfFilesToDelete (tr_agent st'))"
    and "sockets_idle (tr_agent st') = sockets_idle (tr_agent st)"
  using fuzz_leaves [OF assms(1-4)] assms(5,6) by (auto simp: leaves_alone_def sockets_idle_def)

end

lemma put_request_content:
  assumes "put_request E cfg r i pid a = (req, a')"
    and "files a (generateTestcasePathAndFilename i (tr_testcaseDir cfg)) = Some dat"
  shows "ptr_testCaseFirstChunk req = chunk_of dat 0" and "ptr_isLastChunk req = last_chunk dat 0"
    and "ptr_id req = Some (tid_getProtobuf i)" and "ptr_parentId req = Some (tid_getProtobuf pid)"
    and "ptr_result req = Some (result_getProtobuf r)" and "ptr_sdOfRunner req = Some (sd_getProtobuf (tr_self cfg))"
    and "files a' = files a" and "sockets_idle a' = sockets_idle a" and "tick a' = tick a"
  using assms loadTestcaseChunkInMemory_chunk [OF assms(2), of 0 E]
  by (auto simp: put_request_def the_flag_def Let_def result_setProtobuf_eq gc markFileForDelete_def sockets_idle_def
      split: if_splits)

end
