(* ===== verification/TRDynRio.thy ===== *)
theory TRDynRio
  imports TRFacts
begin

text \<open>
  One of the executors: running a testcase under DynamoRIO, one process per testcase
  (\<open>TestExecutorDynRioSingle.cpp\<close>), and reading the coverage file that DynamoRIO's tool \<open>drcov\<close>
  leaves (\<open>TestExecutorDynRio.cpp\<close>). The paths are those of the 64-bit Linux build.

  The record \<open>dynrio\<close> holds what is outside: the process that is run, with the log file it leaves
  in the directory of the testcases, the order in which that directory is listed, which other paths exist,
  the shell's word expansion, and the layout of a table entry of \<open>drcov\<close>, which DynamoRIO declares.
\<close>

section \<open>Outside the code\<close>

record debug_call =
  dc_commandline :: string
  dc_suppress :: bool
  dc_timeoutMS :: int
  dc_doPostMortemAnalysis :: bool
  dc_treatAnyAccessViolationAsFatal :: bool
  dc_additionalEnvParam :: string

text \<open>
  \<open>d_debug\<close>: \<open>None\<close> if the process cannot be set up; otherwise the output as
  \<open>ExternalProcess::debug\<close> leaves it, and the name (without the extension) and content of a log file.
  \<open>d_beyond\<close> is the memory behind the buffer with the content of the coverage file.
\<close>

record dynrio =
  d_debug :: "nat \<Rightarrow> debug_call \<Rightarrow> DebugExecutionOutput \<Rightarrow>
    (DebugExecutionOutput \<times> (string \<times> bytes) option) option"
  d_listing :: "agent \<Rightarrow> string \<Rightarrow> string list"
  d_exists :: "string \<Rightarrow> bool"
  d_wordexp :: "string \<Rightarrow> string list option"
  d_entry_size :: nat
  d_entry :: "bytes \<Rightarrow> 32 word \<times> 32 word \<times> 32 word"     \<comment> \<open>\<open>start\<close>, \<open>mod_id\<close>, \<open>hits_since_last_reset\<close>\<close>
  d_beyond :: bytes

section \<open>Paths\<close>

definition strip_slashes :: "string \<Rightarrow> string" where
  "strip_slashes s = rev (dropWhile (\<lambda>c. c = CHR ''/'') (rev s))"

text \<open>\<open>basename\<close> and \<open>dirname\<close> of \<open>libgen.h\<close>.\<close>

definition basename :: "string \<Rightarrow> string" where
  "basename p =
     (let q = strip_slashes p in
      if p = [] then ''.'' else if q = [] then ''/''
      else rev (takeWhile (\<lambda>c. c \<noteq> CHR ''/'') (rev q)))"

definition dirname :: "string \<Rightarrow> string" where
  "dirname p =
     (let d = strip_slashes (rev (dropWhile (\<lambda>c. c \<noteq> CHR ''/'') (rev (strip_slashes p)))) in
      if d \<noteq> [] then d else if p \<noteq> [] \<and> hd p = CHR ''/'' then ''/'' else ''.'')"

definition splitPathIntoDirectoryAndFileName :: "string \<Rightarrow> string \<times> string" where
  "splitPathIntoDirectoryAndFileName path =
     (let path = map (\<lambda>c. if c = CHR 0x5C then CHR ''/'' else c) path in (dirname path, basename path))"

definition to_lower :: "char \<Rightarrow> char" where
  "to_lower c = (let n = (of_char c :: nat) in if 65 \<le> n \<and> n \<le> 90 then char_of (n + 32) else c)"

text \<open>\<open>strcasecmp(a, b) == 0\<close> on the C strings of the two.\<close>

definition same_nocase :: "string \<Rightarrow> string \<Rightarrow> bool" where
  "same_nocase a b \<longleftrightarrow> map to_lower (c_string a) = map to_lower (c_string b)"

section \<open>Reading a coverage file\<close>

text \<open>
  An input stream over a string: the rest, the position, and whether neither the end nor a failure was
  reported. \<open>getline\<close> leaves the line as it is on a stream that is not good.
\<close>

type_synonym stream = "string \<times> nat \<times> bool"

fun getline :: "stream \<Rightarrow> string \<Rightarrow> string \<times> stream" where
  "getline (rest, pos, good) line =
     (if \<not> good then (line, (rest, pos, False))
      else let l = takeWhile (\<lambda>c. c \<noteq> CHR 0x0A) rest in
           if length l < length rest then (l, (drop (Suc (length l)) rest, pos + Suc (length l), True))
           else (l, ([], pos + length l, False)))"

text \<open>\<open>tellg\<close>, cast to \<open>int\<close>.\<close>

fun tellg :: "stream \<Rightarrow> int" where
  "tellg (rest, pos, good) = (if good then sint (word_of_nat pos :: 32 word) else - 1)"

definition stoll :: "string \<Rightarrow> int option" where
  "stoll s = (case parse_number s of None \<Rightarrow> None
     | Some v \<Rightarrow> if - (2 ^ 63) \<le> v \<and> v < 2 ^ 63 then Some v else None)"

text \<open>The first of the modules to cover that a loaded module is.\<close>

fun module_for :: "string \<times> string \<Rightarrow> Module list \<Rightarrow> Module option" where
  "module_for p [] = None"
| "module_for (directory, file) (it # rest) =
     (if \<not> same_nocase (m_modulename it) file then module_for (directory, file) rest
      else if m_modulepath it \<noteq> ''*'' \<and> \<not> same_nocase (m_modulepath it) directory
      then module_for (directory, file) rest
      else Some it)"

type_synonym module_map = "32 word \<rightharpoonup> 32 word"

text \<open>The loop over the lines of the module table.\<close>

fun read_modules ::
    "Module list \<Rightarrow> nat \<Rightarrow> stream \<Rightarrow> string \<Rightarrow> module_map \<Rightarrow> (module_map \<times> stream) attempt" where
  "read_modules modulesToCover 0 iss line traceModIDToFluffiModID = ok_with (traceModIDToFluffiModID, iss)"
| "read_modules modulesToCover (Suc n) iss line traceModIDToFluffiModID =
     (let (line, iss) = getline iss line;
          lineTokenized = splitString line '',''
      in if length lineTokenized < 6 then gives_up
         else as_int (stoi (lineTokenized ! 0)) (\<lambda>moduleid.
           read_modules modulesToCover n iss line
             (case module_for (splitPathIntoDirectoryAndFileName (last lineTokenized)) modulesToCover of
                None \<Rightarrow> traceModIDToFluffiModID
              | Some it \<Rightarrow> traceModIDToFluffiModID(word_of_int moduleid \<mapsto> m_moduleid it))))"

text \<open>
  The header: the modules, the number of basic blocks and the stream behind it. A line on the basic blocks
  with fewer than three words is accessed out of bounds, which is taken for a crash.
\<close>

definition columns :: "string list" where
  "columns = [''Columns: id, containing_id, start, end, entry, offset, checksum, timestamp, path'',
     ''Columns: id, containing_id, start, end, entry, offset, path'']"

definition flavors :: "string list" where
  "flavors = [''DRCOV FLAVOR: drcov'', ''DRCOV FLAVOR: drcov-64'', ''DRCOV FLAVOR: drcov-32'']"

definition read_header :: "Module list \<Rightarrow> stream \<Rightarrow> (module_map \<times> 64 word \<times> stream) attempt" where
  "read_header modulesToCover iss =
     (let (line, iss) = getline iss [] in
      if line \<noteq> ''DRCOV VERSION: 2'' then gives_up
      else let (line, iss) = getline iss line in
      if line \<notin> set flavors then gives_up
      else let (line, iss) = getline iss line in
      case str_find line ''count '' 0 of None \<Rightarrow> gives_up
      | Some pointerToCount \<Rightarrow>
          as_int (stoi (substr line (pointerToCount + 6) (length line - pointerToCount - 6))) (\<lambda>num_mods.
            let (line, iss) = getline iss line in
            if line \<notin> set columns then gives_up
            else case read_modules modulesToCover (nat num_mods) iss line Map.empty of
              gives_up \<Rightarrow> gives_up
            | exits \<Rightarrow> exits
            | ok_with (m, iss) \<Rightarrow>
                (let (basicblockLine, iss) = getline iss [];
                     words = splitString basicblockLine '' ''
                 in if length words < 3 then exits
                    else as_int (stoll (words ! 2)) (\<lambda>numbbs. ok_with (m, word_of_int numbbs, iss)))))"

text \<open>
  The table: entry by entry from the given offset. Reading outside the buffer is undefined; it is taken for
  a crash (\<open>None\<close>).
\<close>

fun read_entries ::
    "dynrio \<Rightarrow> module_map \<Rightarrow> bytes \<Rightarrow> int \<Rightarrow> nat \<Rightarrow> DebugExecutionOutput \<Rightarrow> DebugExecutionOutput option" where
  "read_entries D m input off 0 out = Some out"
| "read_entries D m input off (Suc n) out =
     (if off < 0 \<or> int (length input) < off + int (d_entry_size D) then None
      else let (start, mod_id, hits) = d_entry D (take (d_entry_size D) (drop (nat off) input))
           in read_entries D m input (off + int (d_entry_size D)) n
                (if hits = 0 then out
                 else case m mod_id of None \<Rightarrow> out
                   | Some fluffiModID \<Rightarrow> addCoveredBasicBlock (FluffiBasicBlock (ucast start) fluffiModID) out))"

definition copyCoveredModulesToDebugExecutionOutput ::
    "dynrio \<Rightarrow> bytes \<Rightarrow> Module list \<Rightarrow> DebugExecutionOutput \<Rightarrow> DebugExecutionOutput option" where
  "copyCoveredModulesToDebugExecutionOutput D input modulesToCover texOutput =
     (case read_header modulesToCover (c_string (input @ d_beyond D), 0, True) of
        gives_up \<Rightarrow> Some texOutput
      | exits \<Rightarrow> None
      | ok_with (m, numbbs, iss) \<Rightarrow>
          if word_of_int (tellg iss) + numbbs * word_of_nat (d_entry_size D) > (word_of_nat (length input) :: 64 word)
          then None
          else read_entries D m input (tellg iss) (unat numbbs) texOutput)"

section \<open>Running a testcase\<close>

text \<open>\<open>path::extension\<close>: from the last dot of the file name.\<close>

definition extension :: "string \<Rightarrow> string" where
  "extension path =
     (let f = takeWhile (\<lambda>c. c \<noteq> CHR ''/'') (rev path) in
      if CHR ''.'' \<in> set f then CHR ''.'' # rev (takeWhile (\<lambda>c. c \<noteq> CHR ''.'') f) else [])"

definition is_log :: "string \<Rightarrow> bool" where
  "is_log path \<longleftrightarrow> extension path = ''.log''"

definition getDrCovOutputFile :: "dynrio \<Rightarrow> string \<Rightarrow> agent \<Rightarrow> string" where
  "getDrCovOutputFile D testcaseDir a =
     (case find is_log (d_listing D a testcaseDir) of None \<Rightarrow> [] | Some p \<Rightarrow> p)"

text \<open>The iterator over a directory; the regular files are those that the model has a content for.\<close>

definition entries_of :: "dynrio \<Rightarrow> string \<Rightarrow> agent \<Rightarrow> (string \<times> string \<times> bool) list" where
  "entries_of D path a = map (\<lambda>p. (p, extension p, files a p \<noteq> None)) (d_listing D a path)"

definition DynRioSingle_construct :: "dynrio \<Rightarrow> executor_base \<Rightarrow> agent \<Rightarrow> agent" where
  "DynRioSingle_construct D b a = markAllFilesOfTypeInPathForDeletion (entries_of D (x_testcaseDir b) a) ''.log'' a"

text \<open>The first word of the target's command line is a file, with \<open><\<close> and \<open>>\<close> made harmless.\<close>

definition drrun :: string where
  "drrun = ''dynamorio/bin64/drrun''"

definition DynRioSingle_isSetupFunctionable :: "dynrio \<Rightarrow> executor_base \<Rightarrow> bool" where
  "DynRioSingle_isSetupFunctionable D b =
     (let tmp = map (\<lambda>c. if c = CHR ''<'' \<or> c = CHR ''>'' then CHR ''_'' else c) (m_targetCMDline b) in
      case d_wordexp D tmp of None \<Rightarrow> False
      | Some argv \<Rightarrow>
          if argv = [] then False
          else if \<not> d_exists D (hd argv) then False
          else if \<not> d_exists D (x_testcaseDir b) then False
          else d_exists D drrun)"

definition file_exists :: "string \<Rightarrow> agent \<Rightarrow> bool" where
  "file_exists p a \<longleftrightarrow> p \<noteq> [] \<and> files a p \<noteq> None"

fun wait_for_deletion :: "env \<Rightarrow> nat \<Rightarrow> string \<Rightarrow> agent \<Rightarrow> agent" where
  "wait_for_deletion E 0 drcovLogFile a = a"
| "wait_for_deletion E (Suc n) drcovLogFile a =
     (if file_exists drcovLogFile a
      then wait_for_deletion E n drcovLogFile (collectGarbage E (collectNow a)) else a)"

definition DebugCommandLine ::
    "dynrio \<Rightarrow> string \<Rightarrow> debug_call \<Rightarrow> DebugExecutionOutput \<Rightarrow> agent \<Rightarrow> DebugExecutionOutput \<times> agent" where
  "DebugCommandLine D testcaseDir call exResult a =
     (let exResult = exResult\<lparr>m_terminationType := ERR, m_terminationDescription := ''The target did not run!''\<rparr>
      in case d_debug D (tick a) call exResult of
           None \<Rightarrow> (exResult\<lparr>m_terminationDescription := ''Error creating the Process''\<rparr>, next_tick a)
         | Some (out, log) \<Rightarrow>
             (out, (next_tick a)\<lparr>files := (case log of None \<Rightarrow> files a
                | Some (n, bs) \<Rightarrow> (files a)(testcaseDir @ pathSeperator @ n @ ''.log'' \<mapsto> bs))\<rparr>))"

text \<open>The target's command line with the testcase; \<open>None\<close> would be an endless replacement.\<close>

definition first_cmdline :: "executor_base \<Rightarrow> string \<Rightarrow> string option" where
  "first_cmdline b testfile =
     map_option (\<lambda>s. drrun @ '' -v -t drcov -dump_binary -logdir '' @ [CHR 0x22] @ x_testcaseDir b @ [CHR 0x22] @
         '' -- '' @ s)
       (if str_find (m_targetCMDline b) ''<INPUT_FILE>'' 0 \<noteq> None
        then replaceAll (m_targetCMDline b) ''<INPUT_FILE>'' testfile
        else Some (m_targetCMDline b @ '' '' @ testfile))"

definition second_cmdline :: "executor_base \<Rightarrow> string \<Rightarrow> string" where
  "second_cmdline b testfile = m_targetCMDline b @ '' '' @ testfile"

definition mk_call :: "executor_base \<Rightarrow> bool \<Rightarrow> string \<Rightarrow> bool \<Rightarrow> debug_call" where
  "mk_call b fatal cmdline doPostMortemAnalysis = \<lparr>dc_commandline = cmdline, dc_suppress = m_suppressChildOutput b,
     dc_timeoutMS = m_hangTimeoutMS b, dc_doPostMortemAnalysis = doPostMortemAnalysis,
     dc_treatAnyAccessViolationAsFatal = fatal, dc_additionalEnvParam = m_additionalEnvParam b\<rparr>"

definition delete_log :: "env \<Rightarrow> string \<Rightarrow> agent \<Rightarrow> agent" where
  "delete_log E drcovLogFile a =
     (let (removed, a) = fs_remove E drcovLogFile a in
      if removed then a else collectNow (markFileForDelete drcovLogFile a))"

definition fail_with :: "string \<Rightarrow> DebugExecutionOutput \<Rightarrow> DebugExecutionOutput" where
  "fail_with d out = out\<lparr>m_terminationDescription := d, m_terminationType := ERR\<rparr>"

text \<open>What follows the first run: the coverage of a clean run, and the second run after a crash.\<close>

definition read_coverage ::
    "env \<Rightarrow> dynrio \<Rightarrow> executor_base \<Rightarrow> DebugExecutionOutput \<Rightarrow> agent \<Rightarrow> (DebugExecutionOutput \<times> agent) option" where
  "read_coverage E D b out a =
     (let drcovLogFile = getDrCovOutputFile D (x_testcaseDir b) a in
      if drcovLogFile = [] then Some (fail_with '' Could not find DrCov File!'' out, a)
      else let drcovOutput = readAllBytesFromFile drcovLogFile a;
               a = delete_log E drcovLogFile a
           in if length drcovOutput = 0 then Some (fail_with ''drcovOutput is of length 0!'' out, a)
              else map_option (\<lambda>out. (out, a))
                (copyCoveredModulesToDebugExecutionOutput D drcovOutput (m_modulesToCover b) out))"

definition is_crash :: "DebugExecutionOutput \<Rightarrow> bool" where
  "is_crash out \<longleftrightarrow> m_terminationType out = EXCEPTION_OTHER \<or> m_terminationType out = EXCEPTION_ACCESSVIOLATION"

definition after_first_run ::
    "env \<Rightarrow> dynrio \<Rightarrow> executor_base \<Rightarrow> bool \<Rightarrow> string \<Rightarrow> DebugExecutionOutput \<Rightarrow> agent \<Rightarrow>
     (DebugExecutionOutput \<times> agent) option" where
  "after_first_run E D b fatal testfile out a =
     (if m_terminationType out = ERR then Some (out, a)
      else if m_terminationType out = CLEAN then read_coverage E D b out a
      else let drcovLogFile = getDrCovOutputFile D (x_testcaseDir b) a;
               a = (if drcovLogFile \<noteq> [] then delete_log E drcovLogFile a else a)
           in if is_crash out
              then Some (DebugCommandLine D (x_testcaseDir b) (mk_call b fatal (second_cmdline b testfile) True)
                     new_output a)
              else Some (out, a))"

definition DynRioSingle_execute ::
    "env \<Rightarrow> dynrio \<Rightarrow> executor_base \<Rightarrow> bool \<Rightarrow> FluffiTestcaseID \<Rightarrow> agent \<Rightarrow> (DebugExecutionOutput \<times> agent) option" where
  "DynRioSingle_execute E D b fatal testcaseId a =
     (let drcovLogFile = getDrCovOutputFile D (x_testcaseDir b) a;
          a = wait_for_deletion E 100 drcovLogFile a;
          testfile = generateTestcasePathAndFilename testcaseId (x_testcaseDir b)
      in if file_exists drcovLogFile a
         then Some (fail_with ''Could not delete the drcov file after trying 100 times!'' new_output, a)
         else do {
           cmdline \<leftarrow> first_cmdline b testfile;
           let (out, a) = DebugCommandLine D (x_testcaseDir b) (mk_call b fatal cmdline False) new_output a;
           after_first_run E D b fatal testfile out a
         })"

section \<open>An executor for the runner\<close>

lemma collect_step_comm:
  "m_zeroMQSockets (collect_step E a) = m_zeroMQSockets a \<and>
   m_lmServiceDescriptor (collect_step E a) = m_lmServiceDescriptor a"
  by (auto simp: collect_step_def getRandomFileToDelete_def fs_remove_def markFileForDelete_def Let_def
      split: prod.splits if_splits)

lemma collect_loop_comm:
  "m_zeroMQSockets (collect_loop E n a) = m_zeroMQSockets a \<and>
   m_lmServiceDescriptor (collect_loop E n a) = m_lmServiceDescriptor a"
proof (induction n arbitrary: a)
  case (Suc n)
  then show ?case using collect_step_comm by (simp only: collect_loop_step split: if_split) simp
qed simp

lemma collect_leaves: "leaves_alone S a (collectGarbage E (collectNow a))"
proof -
  let ?b = "collectNow a"
  note s = collectGarbage_safe [of ?b E]
  have "set (m_setOfFilesToDelete (collectGarbage E ?b)) \<subseteq> set (m_setOfFilesToDelete a)"
    using gc_safeD(1) [OF s] by (auto simp: gc)
  moreover have "p \<notin> set (m_setOfFilesToDelete a) \<Longrightarrow> files (collectGarbage E ?b) p = files a p" for p
    using gc_safeD(2) [OF s, of p] by (simp add: gc)
  ultimately show ?thesis
    using collect_loop_comm by (auto simp: leaves_alone_def collectGarbage_def collectNow_def)
qed

lemma leaves_alone_write: "S p \<Longrightarrow> leaves_alone S a (a\<lparr>tick := n, files := (files a)(p := v)\<rparr>)"
  "S p \<Longrightarrow> leaves_alone S a (a\<lparr>files := (files a)(p := v)\<rparr>)"
  by (auto simp: leaves_alone_def)

lemma leaves_alone_mark: "S p \<Longrightarrow> leaves_alone S a (markFileForDelete p a)"
  by (auto simp: leaves_alone_def markFileForDelete_def oset)

lemma leaves_alone_tick: "leaves_alone S a (a\<lparr>tick := n\<rparr>)"
  by (simp add: leaves_alone_def)

lemma mark_all_leaves:
  assumes "\<And>p e r. (p, e, r) \<in> set es \<Longrightarrow> e = typ \<Longrightarrow> S p"
  shows "leaves_alone S a (markAllFilesOfTypeInPathForDeletion es typ a)"
  using assms unfolding markAllFilesOfTypeInPathForDeletion_def
proof (induction es arbitrary: a)
  case (Cons x es)
  obtain p e r where x: "x = (p, e, r)" by (cases x)
  let ?a = "if r \<and> e = typ then markFileForDelete p a else a"
  have "leaves_alone S a ?a" using Cons.prems [of p e r] x by (auto intro: leaves_alone_mark)
  moreover have "leaves_alone S ?a (fold (\<lambda>(path, extension, regular) a.
      if regular \<and> extension = typ then markFileForDelete path a else a) es ?a)"
    by (rule Cons.IH) (use Cons.prems in auto)
  ultimately show ?case unfolding x by (simp only: fold_simps prod.case) (rule leaves_alone_trans)
qed simp

lemma wait_for_deletion_leaves: "leaves_alone S a (wait_for_deletion E n p a)"
proof (induction n arbitrary: a)
  case (Suc n)
  then show ?case using leaves_alone_trans [OF collect_leaves Suc] by simp
qed simp

lemma delete_log_leaves: "is_log p \<Longrightarrow> leaves_alone is_log a (delete_log E p a)"
  by (auto simp: delete_log_def fs_remove_def leaves_alone_def collectNow_def markFileForDelete_def oset
      split: if_splits)

lemma getDrCovOutputFile_log: "getDrCovOutputFile D dir a = [] \<or> is_log (getDrCovOutputFile D dir a)"
  by (auto simp: getDrCovOutputFile_def find_Some_iff split: option.splits)

lemma extension_log: "extension (p @ ''.log'') = ''.log''"
  by (simp add: extension_def)

lemma DebugCommandLine_leaves: "leaves_alone is_log a (snd (DebugCommandLine D dir call out a))"
  using extension_log [of "dir @ pathSeperator @ n" for n]
  by (auto simp: DebugCommandLine_def Let_def leaves_alone_def is_log_def split: option.splits)

lemma read_coverage_leaves:
  "read_coverage E D b out a = Some (out', a') \<Longrightarrow> leaves_alone is_log a a'"
  using getDrCovOutputFile_log [of D "x_testcaseDir b" a]
  by (auto simp: read_coverage_def Let_def delete_log_leaves split: if_splits)

lemma after_first_run_leaves:
  assumes "after_first_run E D b fatal f out a = Some (out', a')" shows "leaves_alone is_log a a'"
proof -
  let ?l = "getDrCovOutputFile D (x_testcaseDir b) a"
  let ?a = "if ?l \<noteq> [] then delete_log E ?l a else a"
  have l: "leaves_alone is_log a ?a" using getDrCovOutputFile_log [of D "x_testcaseDir b" a]
    by (auto intro: delete_log_leaves)
  show ?thesis
    using assms l leaves_alone_trans [OF l DebugCommandLine_leaves] read_coverage_leaves
    by (auto simp: after_first_run_def Let_def split: if_splits) (metis snd_conv)+
qed

lemma DynRioSingle_execute_leaves:
  assumes "DynRioSingle_execute E D b fatal i a = Some (out, a')" shows "leaves_alone is_log a a'"
proof -
  let ?a = "wait_for_deletion E 100 (getDrCovOutputFile D (x_testcaseDir b) a) a"
  have w: "leaves_alone is_log a ?a" by (rule wait_for_deletion_leaves)
  show ?thesis
  proof (cases "file_exists (getDrCovOutputFile D (x_testcaseDir b) a) ?a")
    case True
    then show ?thesis using assms w by (simp add: DynRioSingle_execute_def Let_def)
  next
    case False
    with assms obtain c where c: "after_first_run E D b fatal (generateTestcasePathAndFilename i (x_testcaseDir b))
        (fst (DebugCommandLine D (x_testcaseDir b) (mk_call b fatal c False) new_output ?a))
        (snd (DebugCommandLine D (x_testcaseDir b) (mk_call b fatal c False) new_output ?a)) = Some (out, a')"
      by (auto simp: DynRioSingle_execute_def Let_def bind_eq_Some_conv split_beta)
    from leaves_alone_trans [OF leaves_alone_trans [OF w DebugCommandLine_leaves] after_first_run_leaves [OF c]]
    show ?thesis .
  qed
qed

lemma extension_last:
  assumes "extension p = e @ [c]" and "c \<noteq> CHR ''.''" shows "last p = c"
proof -
  let ?f = "takeWhile (\<lambda>c. c \<noteq> CHR ''/'') (rev p)"
  from assms have "rev (takeWhile (\<lambda>c. c \<noteq> CHR ''.'') ?f) \<noteq> []" "last (rev (takeWhile (\<lambda>c. c \<noteq> CHR ''.'') ?f)) = c"
    by (auto simp: extension_def Let_def Cons_eq_append_conv split: if_splits)
  then have "takeWhile (\<lambda>c. c \<noteq> CHR ''.'') ?f \<noteq> []" "hd (takeWhile (\<lambda>c. c \<noteq> CHR ''.'') ?f) = c"
    by (simp_all add: last_rev)
  then have "rev p \<noteq> []" "hd (rev p) = c" by (cases "rev p"; auto split: if_splits)+
  then show ?thesis by (simp add: hd_rev)
qed

lemma testcase_path_no_log: "\<not> is_log (generateTestcasePathAndFilename i dir)"
proof
  assume "is_log (generateTestcasePathAndFilename i dir)"
  then have "last (generateTestcasePathAndFilename i dir) = CHR ''g''"
    by (intro extension_last [of _ "''.lo''"]) (simp_all add: is_log_def)
  moreover have "last (generateTestcasePathAndFilename i dir) = last (to_string (unat (m_localID i)))"
    by (simp add: generateTestcasePathAndFilename_def)
  moreover have "is_digit (last (to_string (unat (m_localID i))))" using to_string_digits to_string_not_Nil last_in_set by blast
  ultimately show False by (simp add: is_digit_def)
qed

section \<open>Coverage files as \<open>drcov\<close> writes them\<close>

text \<open>
  A reference printer: the header with one line per module (its number, some columns, its path) and the
  number of entries, then the entries. \<open>enc\<close> encodes an entry.
\<close>

definition module_line :: "nat \<times> string list \<times> string \<Rightarrow> string" where
  "module_line m = join '','' (to_string (fst m) # fst (snd m) @ [snd (snd m)])"

definition lines :: "string list \<Rightarrow> string" where
  "lines ls = concat (map (\<lambda>l. l @ [CHR 0x0A]) ls)"

definition drcov_header :: "string \<Rightarrow> string \<Rightarrow> (nat \<times> string list \<times> string) list \<Rightarrow> nat \<Rightarrow> string" where
  "drcov_header flavor cols mods n =
     lines ([''DRCOV VERSION: 2'', flavor, ''Module Table: version 2, count '' @ to_string (length mods), cols] @
       map module_line mods @ [join '' '' [''BB'', ''Table:'', to_string n, ''bbs'']])"

type_synonym bb_entry = "32 word \<times> 32 word \<times> 32 word"

definition drcov_file ::
    "string \<Rightarrow> string \<Rightarrow> (nat \<times> string list \<times> string) list \<Rightarrow> (bb_entry \<Rightarrow> bytes) \<Rightarrow> bb_entry list \<Rightarrow> bytes" where
  "drcov_file flavor cols mods enc es = drcov_header flavor cols mods (length es) @ concat (map enc es)"

text \<open>What such a file means: the numbers of the modules to cover, and the blocks that were hit in them.\<close>

definition module_map_of :: "Module list \<Rightarrow> (nat \<times> string list \<times> string) list \<Rightarrow> module_map" where
  "module_map_of modulesToCover mods = fold (\<lambda>(i, cs, path) m.
     case module_for (splitPathIntoDirectoryAndFileName path) modulesToCover of None \<Rightarrow> m
     | Some it \<Rightarrow> m(word_of_nat i \<mapsto> m_moduleid it)) mods Map.empty"

definition hit_block :: "module_map \<Rightarrow> bb_entry \<Rightarrow> FluffiBasicBlock list" where
  "hit_block m e = (case e of (start, mod_id, hits) \<Rightarrow>
     if hits = 0 then [] else case m mod_id of None \<Rightarrow> [] | Some f \<Rightarrow> [FluffiBasicBlock (ucast start) f])"

text \<open>A line of the module table is printable: no line break, no NUL, the columns without commas.\<close>

definition text_ok :: "string \<Rightarrow> bool" where
  "text_ok s \<longleftrightarrow> CHR 0x0A \<notin> set s \<and> CHR 0x00 \<notin> set s"

definition module_ok :: "nat \<times> string list \<times> string \<Rightarrow> bool" where
  "module_ok m \<longleftrightarrow> fst m < 2 ^ 31 \<and> 4 \<le> length (fst (snd m)) \<and>
     (\<forall>c \<in> set (snd (snd m) # fst (snd m)). text_ok c \<and> CHR '','' \<notin> set c)"

lemma lines_simps [simp]: "lines [] = []" "lines (l # ls) = l @ CHR 0x0A # lines ls"
  "lines (ls @ ks) = lines ls @ lines ks"
  by (simp_all add: lines_def)

lemma getline_line:
  "CHR 0x0A \<notin> set l \<Longrightarrow>
     getline (l @ CHR 0x0A # rest, pos, True) x = (l, (rest, pos + length (l @ [CHR 0x0A]), True))"
proof -
  assume "CHR 0x0A \<notin> set l"
  then have "takeWhile (\<lambda>c. c \<noteq> CHR 0x0A) l = l" by (auto simp: takeWhile_eq_all_conv)
  then have "takeWhile (\<lambda>c. c \<noteq> CHR 0x0A) (l @ CHR 0x0A # rest) = l" by (simp add: takeWhile_tail)
  then show ?thesis by (simp add: Let_def)
qed

lemma digits_text_ok: "text_ok (to_string n)" "CHR '','' \<notin> set (to_string n)" "CHR '' '' \<notin> set (to_string n)"
  using to_string_digits [of n] by (auto simp: text_ok_def is_digit_def)

lemma join_set: "c \<in> set (join sep ps) \<Longrightarrow> c \<in> set sep \<or> (\<exists>p \<in> set ps. c \<in> set p)"
  by (induction sep ps rule: join.induct) auto

lemma module_line_ok:
  assumes "module_ok m" shows "text_ok (module_line m)"
    and "splitString (module_line m) '','' = to_string (fst m) # fst (snd m) @ [snd (snd m)]"
proof -
  let ?ps = "to_string (fst m) # fst (snd m) @ [snd (snd m)]"
  have p: "text_ok p \<and> CHR '','' \<notin> set p" if "p \<in> set ?ps" for p
    using that assms digits_text_ok by (auto simp: module_ok_def)
  show "text_ok (module_line m)"
  proof -
    have "c \<noteq> CHR 0x0A \<and> c \<noteq> CHR 0x00" if "c \<in> set (join '','' ?ps)" for c
      using join_set [OF that] p by (auto simp: text_ok_def)
    then show ?thesis by (auto simp: text_ok_def module_line_def)
  qed
  show "splitString (module_line m) '','' = ?ps"
    unfolding module_line_def using p by (intro splitString_join) auto
qed

lemma read_modules_lines:
  assumes "\<forall>m \<in> set mods. module_ok m"
  shows "read_modules ms (length mods) (lines (map module_line mods) @ rest, pos, True) line mp =
    ok_with (fold (\<lambda>(i, cs, path) m.
        case module_for (splitPathIntoDirectoryAndFileName path) ms of None \<Rightarrow> m
        | Some it \<Rightarrow> m(word_of_nat i \<mapsto> m_moduleid it)) mods mp,
      (rest, pos + length (lines (map module_line mods)), True))"
  using assms
proof (induction mods arbitrary: pos line mp)
  case (Cons m mods)
  obtain i cs path where m: "m = (i, cs, path)" by (cases m)
  from Cons.prems have ok: "module_ok m" by simp
  note l = module_line_ok [OF ok]
  have g: "getline (module_line m @ CHR 0x0A # lines (map module_line mods) @ rest, pos, True) line =
      (module_line m, (lines (map module_line mods) @ rest, pos + length (module_line m @ [CHR 0x0A]), True))"
    using l(1) by (intro getline_line) (simp add: text_ok_def)
  have s: "stoi (to_string i) = Some (int i)" using ok m by (intro stoi_to_string) (simp add: module_ok_def)
  show ?case
    using Cons.IH [of "pos + length (module_line m @ [CHR 0x0A])"] Cons.prems g l(2) s ok m
    by (simp add: as_int_def module_ok_def Let_def add.assoc split: option.splits)
qed simp

lemma read_header_drcov:
  assumes fl: "flavor \<in> set flavors" and co: "cols \<in> set columns"
    and ok: "\<forall>m \<in> set mods. module_ok m" and len: "length mods < 2 ^ 31" and n: "n < 2 ^ 63"
  shows "read_header ms (drcov_header flavor cols mods n @ rest, 0, True) =
    ok_with (module_map_of ms mods, word_of_nat n, (rest, length (drcov_header flavor cols mods n), True))"
proof -
  let ?count = "''Module Table: version 2, count '' @ to_string (length mods)"
  let ?bb = "join '' '' [''BB'', ''Table:'', to_string n, ''bbs'']"
  let ?v = "''DRCOV VERSION: 2''"
  define r4 where "r4 = lines (map module_line mods) @ ?bb @ CHR 0x0A # rest"
  define r3 where "r3 = cols @ CHR 0x0A # r4"
  define r2 where "r2 = ?count @ CHR 0x0A # r3"
  define r1 where "r1 = flavor @ CHR 0x0A # r2"
  define p4 where "p4 = length (?v @ [CHR 0x0A]) + length (flavor @ [CHR 0x0A]) + length (?count @ [CHR 0x0A]) +
    length (cols @ [CHR 0x0A])"
  define h where "h = drcov_header flavor cols mods n"
  have r0: "h @ rest = ?v @ CHR 0x0A # r1"
    by (simp add: h_def r1_def r2_def r3_def r4_def drcov_header_def)
  have f: "CHR 0x0A \<notin> set flavor" using fl by (auto simp: flavors_def)
  have c: "CHR 0x0A \<notin> set cols" using co by (auto simp: columns_def)
  have k: "CHR 0x0A \<notin> set ?count" using digits_text_ok by (simp add: text_ok_def)
  have b: "CHR 0x0A \<notin> set ?bb" using digits_text_ok by (simp add: text_ok_def)
  have g1: "getline (h @ rest, 0, True) [] = (?v, (r1, 0 + length (?v @ [CHR 0x0A]), True))"
    unfolding r0 by (rule getline_line) simp
  have g2: "getline (r1, pos, True) x = (flavor, (r2, pos + length (flavor @ [CHR 0x0A]), True))" for pos x
    unfolding r1_def by (rule getline_line [OF f])
  have g3: "getline (r2, pos, True) x = (?count, (r3, pos + length (?count @ [CHR 0x0A]), True))" for pos x
    unfolding r2_def by (rule getline_line [OF k])
  have g4: "getline (r3, pos, True) x = (cols, (r4, pos + length (cols @ [CHR 0x0A]), True))" for pos x
    unfolding r3_def by (rule getline_line [OF c])
  have g5: "getline (?bb @ CHR 0x0A # rest, pos, True) x = (?bb, (rest, pos + length (?bb @ [CHR 0x0A]), True))" for pos x
    by (rule getline_line [OF b])
  have find: "str_find ?count ''count '' 0 = Some 25"
    by (simp add: str_find_def starts_with_def)
  have sub: "stoi (substr ?count (25 + 6) (length ?count - 25 - 6)) = Some (int (length mods))"
    using len by (simp add: substr_def stoi_to_string)
  have words: "splitString ?bb '' '' = [''BB'', ''Table:'', to_string n, ''bbs'']"
    using digits_text_ok by (intro splitString_join) auto
  have num: "stoll (to_string n) = Some (int n)" using n by (simp add: stoll_def parse_number_to_string)
  have rm: "read_modules ms (length mods) (r4, pos, True) line Map.empty =
      ok_with (module_map_of ms mods, (?bb @ CHR 0x0A # rest, pos + length (lines (map module_line mods)), True))" for pos line
    unfolding r4_def module_map_of_def by (rule read_modules_lines [OF ok])
  have l: "length h = p4 + length (lines (map module_line mods)) + length (?bb @ [CHR 0x0A])"
    by (simp add: h_def p4_def drcov_header_def)
  show ?thesis
    unfolding h_def [symmetric] read_header_def g1 Let_def prod.case g2 g3 g4 find option.case sub as_int_def nat_int
      rm attempt.case g5 words num
    using fl co num by (simp add: l p4_def as_int_def)
qed

lemma read_entries_table:
  assumes "\<forall>e \<in> set es. length (enc e) = d_entry_size D \<and> d_entry D (enc e) = e"
    and "input = pre @ concat (map enc es) @ post"
  shows "read_entries D m input (int (length pre)) (length es) out =
    Some (out\<lparr>m_coveredBasicBlocks := m_coveredBasicBlocks out @ concat (map (hit_block m) es)\<rparr>)"
  using assms
proof (induction es arbitrary: pre out)
  case (Cons e es)
  obtain start mid hits where e: "e = (start, mid, hits)" by (cases e)
  have len: "length (enc e) = d_entry_size D" and dec: "d_entry D (enc e) = (start, mid, hits)"
    using Cons.prems(1) e by auto
  have input: "input = (pre @ enc e) @ concat (map enc es) @ post" using Cons.prems(2) by simp
  have t: "take (d_entry_size D) (drop (nat (int (length pre))) input) = enc e"
    using input len by simp
  have "int (length pre) + int (d_entry_size D) = int (length (pre @ enc e))" using len by simp
  moreover note Cons.IH [OF _ input]
  moreover have "\<not> int (length input) < int (length pre) + int (d_entry_size D)" using input len by simp
  ultimately show ?case
    using Cons.prems(1) t dec
    by (auto simp: e Let_def hit_block_def addCoveredBasicBlock_def split: option.splits)
qed simp

lemma drcov_header_text:
  assumes "flavor \<in> set flavors" and "cols \<in> set columns" and "\<forall>m \<in> set mods. module_ok m"
  shows "CHR 0x00 \<notin> set (drcov_header flavor cols mods n)"
proof -
  have "CHR 0x00 \<notin> set (lines (map module_line mods))"
    using assms(3) module_line_ok(1) by (induction mods) (auto simp: text_ok_def)
  moreover have "CHR 0x00 \<notin> set flavor" "CHR 0x00 \<notin> set cols"
    using assms by (auto simp: flavors_def columns_def)
  ultimately show ?thesis using digits_text_ok(1) by (auto simp: drcov_header_def text_ok_def)
qed

end
