(* ===== verification/TRQemu.thy ===== *)
theory TRQemu
  imports TRDynRio
begin

text \<open>
  Another executor: running a testcase under QEMU's user mode in a changed root directory
  (\<open>TestExecutorQemuUserSingle.cpp\<close>, the Linux part): setting up the directory, the run, the table of
  modules and signals, and the binary trace of the executed translation blocks.

  The testcase directory is mounted into the new root directory as \<open>testcaseFiles\<close>; the model has one
  name for each file, that outside the mount. The record \<open>qemu\<close> holds what is outside: shell commands,
  mounts, links, and the process that is run with the files it leaves below the root directory.
\<close>

section \<open>Outside the code\<close>

record qemu =
  q_system :: "nat \<Rightarrow> string \<Rightarrow> bool"                       \<comment> \<open>\<open>system\<close> yields 0\<close>
  q_mount :: "nat \<Rightarrow> string \<Rightarrow> string \<Rightarrow> bool"               \<comment> \<open>\<open>mount\<close> yields 0\<close>
  q_link :: "nat \<Rightarrow> bool"                                 \<comment> \<open>\<open>link\<close> of an existing file to a free name\<close>
  q_debug :: "nat \<Rightarrow> debug_call \<Rightarrow> string \<Rightarrow> DebugExecutionOutput \<Rightarrow>
    (DebugExecutionOutput \<times> (string \<times> bytes) list) option"
  q_listing :: "agent \<Rightarrow> string \<Rightarrow> string list"
  q_root :: bool                                           \<comment> \<open>\<open>geteuid() == 0\<close>\<close>
  q_directory :: "string \<Rightarrow> bool"
  q_shell :: bool
  q_exists :: "string \<Rightarrow> bool"

section \<open>Scanning text\<close>

text \<open>A literal part of a format: white space in it matches any white space.\<close>

fun scan_literal :: "string \<Rightarrow> string \<Rightarrow> string option" where
  "scan_literal [] s = Some s"
| "scan_literal (f # fs) s =
     (if is_space f then scan_literal fs (dropWhile is_space s)
      else case s of [] \<Rightarrow> None | c # cs \<Rightarrow> if c = f then scan_literal fs cs else None)"

definition scan_sign :: "string \<Rightarrow> bool \<times> string" where
  "scan_sign s =
     (let s = dropWhile is_space s in
      if s \<noteq> [] \<and> (hd s = CHR ''-'' \<or> hd s = CHR ''+'') then (hd s = CHR ''-'', tl s) else (False, s))"

definition scan_d :: "string \<Rightarrow> (int \<times> string) option" where
  "scan_d s =
     (let (neg, s) = scan_sign s; ds = takeWhile is_digit s in
      if ds = [] then None
      else Some (if neg then - int (digits_val ds) else int (digits_val ds), dropWhile is_digit s))"

text \<open>\<open>%lx\<close>: a value that does not fit is replaced by the greatest one.\<close>

definition scan_lx :: "string \<Rightarrow> (64 word \<times> string) option" where
  "scan_lx s =
     (let (neg, s) = scan_sign s;
          s = (case s of z # x # d # r \<Rightarrow>
                 if z = CHR ''0'' \<and> (x = CHR ''x'' \<or> x = CHR ''X'') \<and> hex_digit_value d \<noteq> None then d # r else s
               | _ \<Rightarrow> s);
          ds = takeWhile (\<lambda>c. hex_digit_value c \<noteq> None) s; v = hex_value 0 ds
      in if ds = [] then None
         else Some (if 2 ^ 64 \<le> v then - 1 else if neg then - word_of_nat v else word_of_nat v,
                    dropWhile (\<lambda>c. hex_digit_value c \<noteq> None) s))"

definition scan_s :: "string \<Rightarrow> string option" where
  "scan_s s = (let w = takeWhile (\<lambda>c. \<not> is_space c) (dropWhile is_space s) in if w = [] then None else Some w)"

section \<open>The table of modules\<close>

text \<open>The lines that \<open>std::getline\<close> delivers one after the other.\<close>

definition file_lines :: "bytes \<Rightarrow> string list" where
  "file_lines content =
     (let ps = splitString content [CHR 0x0A] in if last ps = [] then butlast ps else ps)"

text \<open>A line with a signal; \<open>sscanf\<close> sets what it has read so far.\<close>

definition scan_signal :: "string \<Rightarrow> string \<Rightarrow> int \<times> 64 word" where
  "scan_signal prefix line =
     (case scan_literal prefix line of None \<Rightarrow> (0, 0)
      | Some r \<Rightarrow> (case scan_d r of None \<Rightarrow> (0, 0)
        | Some (signal, r) \<Rightarrow> (case scan_literal '' pc '' r of None \<Rightarrow> (signal, 0)
          | Some r \<Rightarrow> (case scan_lx r of None \<Rightarrow> (signal, 0) | Some (pc, r) \<Rightarrow> (signal, pc)))))"

text \<open>
  A line with a module: the bounds, which keep their values where the line has none, and the name, which is
  1024 blanks where the line has none. \<open>None\<close>: the name overflows its buffer.
\<close>

definition scan_module ::
    "string \<Rightarrow> 64 word \<times> 64 word \<Rightarrow> ((64 word \<times> 64 word) \<times> string) option" where
  "scan_module line b =
     (let blanks = replicate 1024 (CHR '' '') in
      case scan_literal ''FLUFFI: '' line of None \<Rightarrow> Some (b, blanks)
      | Some r \<Rightarrow> (case scan_lx r of None \<Rightarrow> Some (b, blanks)
        | Some (start, r) \<Rightarrow> (case scan_literal '' - '' r of None \<Rightarrow> Some ((start, snd b), blanks)
          | Some r \<Rightarrow> (case scan_lx r of None \<Rightarrow> Some ((start, snd b), blanks)
            | Some (stop, r) \<Rightarrow> (case scan_s r of None \<Rightarrow> Some ((start, stop), blanks)
              | Some m \<Rightarrow> if 1024 < length m then None else Some ((start, stop), c_string m))))))"

text \<open>\<open>path::filename\<close>, and a path put into a stream, which quotes it.\<close>

definition path_filename :: "string \<Rightarrow> string" where
  "path_filename p =
     (let f = rev (takeWhile (\<lambda>c. c \<noteq> CHR ''/'') (rev p)) in
      if f \<noteq> [] \<or> p = [] then f else if strip_slashes p = [] then ''/'' else ''.'')"

definition quoted :: "string \<Rightarrow> string" where
  "quoted s = [CHR 0x22] @ concat (map (\<lambda>c. if c = CHR 0x22 \<or> c = CHR 0x5C then [CHR 0x5C, c] else [c]) s) @ [CHR 0x22]"

fun to_hex :: "nat \<Rightarrow> string" where
  "to_hex n = (let d = [''0123456789abcdef'' ! (n mod 16)] in if n < 16 then d else to_hex (n div 16) @ d)"

declare to_hex.simps [simp del]

definition hex8 :: "64 word \<Rightarrow> string" where
  "hex8 w = (let h = to_hex (unat w) in replicate (8 - length h) (CHR ''0'') @ h)"

definition crash_at :: "string \<Rightarrow> 64 word \<Rightarrow> string" where
  "crash_at modul offset = quoted (path_filename modul) @ ''+'' @ hex8 offset"

type_synonym range = "32 word \<times> 64 word \<times> 64 word"

definition interesting :: "Module list \<Rightarrow> string \<Rightarrow> 64 word \<Rightarrow> 64 word \<Rightarrow> range list" where
  "interesting modulesToCover modul start stop =
     map (\<lambda>m. (m_moduleid m, start, stop))
       (filter (\<lambda>m. path_filename (m_modulename m) = path_filename modul \<and>
          (m_modulepath m = ''*'' \<or> m_modulepath m = modul)) modulesToCover)"

text \<open>The loop over the lines with modules.\<close>

fun read_module_lines ::
    "Module list \<Rightarrow> 64 word \<Rightarrow> 64 word \<Rightarrow> string list \<Rightarrow> 64 word \<times> 64 word \<Rightarrow> DebugExecutionOutput \<Rightarrow> range list \<Rightarrow>
     (DebugExecutionOutput \<times> range list) option" where
  "read_module_lines ms pc1 pc2 [] b out modt = Some (out, modt)"
| "read_module_lines ms pc1 pc2 (line # ls) b out modt =
     do {
       ((start, stop), modul) \<leftarrow> scan_module line b;
       let out = (if m_terminationType out \<noteq> CLEAN \<and> pc1 \<le> stop \<and> start \<le> pc1
         then out\<lparr>m_firstCrash := crash_at modul (pc1 - start)\<rparr> else out);
       let out = (if m_terminationType out \<noteq> CLEAN \<and> pc2 \<le> stop \<and> start \<le> pc2
         then out\<lparr>m_lastCrash := crash_at modul (pc2 - start)\<rparr> else out);
       read_module_lines ms pc1 pc2 ls (start, stop) out (modt @ interesting ms modul start stop)
     }"

definition unknown_crash :: "int \<Rightarrow> 64 word \<Rightarrow> string" where
  "unknown_crash signal pc = (if signal = 0 then ''nosig+'' else ''unknown+'') @ hex8 pc"

definition read_modules_txt ::
    "Module list \<Rightarrow> bytes \<Rightarrow> DebugExecutionOutput \<Rightarrow> (DebugExecutionOutput \<times> range list) option" where
  "read_modules_txt ms content out =
     (let ls = file_lines content;
          (signal1, pc1) = (if length ls > 0 then scan_signal ''FLUFFI: first signal '' (ls ! 0) else (0, 0));
          (signal2, pc2) = (if length ls > 1 then scan_signal ''FLUFFI: last signal '' (ls ! 1) else (0, 0))
      in map_option (\<lambda>(out, modt).
           let out = (if m_firstCrash out = [] then out\<lparr>m_firstCrash := unknown_crash signal1 pc1\<rparr> else out);
               out = (if m_lastCrash out = [] then out\<lparr>m_lastCrash := unknown_crash signal2 pc2\<rparr> else out)
           in (out, modt))
         (read_module_lines ms pc1 pc2 (drop 3 ls) (0, 0) out []))"

section \<open>The trace of the executed blocks\<close>

definition le64 :: "bytes \<Rightarrow> 64 word" where
  "le64 b8f = word_of_nat (le_nat (take 8 b8f))"

text \<open>
  Reading \<open>n\<close> bytes to the front of the buffer, \<open>None\<close> when the file ends before. The header is
  checked without looking whether it was there, so a short read leaves the rest of the buffer.
\<close>

definition ifs_read :: "nat \<Rightarrow> bytes \<Rightarrow> bytes \<Rightarrow> (bytes \<times> bytes) option" where
  "ifs_read n rest b8f = (if length rest < n then None else Some (take n rest @ drop n b8f, drop n rest))"

definition header_read :: "bytes \<Rightarrow> bytes \<Rightarrow> bytes \<times> bytes" where
  "header_read rest b8f = (take 8 rest @ drop (length rest) b8f, drop 8 rest)"

type_synonym event_map = "64 word \<rightharpoonup> string"

text \<open>
  The loop over the records; \<open>None\<close>: the name of an event overflows its buffer, whose size is computed
  in 32 bits. A record that is cut off or not understood ends the loop with the blocks read so far.
\<close>

function read_records :: "bytes \<Rightarrow> bytes \<Rightarrow> event_map \<Rightarrow> 64 word list \<Rightarrow> 64 word list option" where
  "read_records rest b8f eventmap bbs =
     (case ifs_read 8 rest b8f of None \<Rightarrow> Some bbs
      | Some (b8f, rest) \<Rightarrow>
          if le64 b8f = 0 then
            (case ifs_read 8 rest b8f of None \<Rightarrow> Some bbs
             | Some (b8f, rest) \<Rightarrow> let eventnum = le64 b8f in
                 (case ifs_read 4 rest b8f of None \<Rightarrow> Some bbs
                  | Some (b8f, rest) \<Rightarrow> let namelen = le_nat (take 4 b8f) in
                      if namelen = 2 ^ 32 - 1 then None
                      else if length rest < namelen then Some bbs
                      else read_records (drop namelen rest) b8f
                        (if eventmap eventnum = None then eventmap(eventnum \<mapsto> c_string (take namelen rest)) else eventmap)
                        bbs))
          else if le64 b8f = 1 then
            (case ifs_read 8 rest b8f of None \<Rightarrow> Some bbs
             | Some (b8f, rest) \<Rightarrow> let eventnum = le64 b8f in
                 (case ifs_read 8 rest b8f of None \<Rightarrow> Some bbs
                  | Some (b8f, rest) \<Rightarrow>
                      (case ifs_read 8 rest b8f of None \<Rightarrow> Some bbs
                       | Some (b8f, rest) \<Rightarrow>
                           if eventmap eventnum = Some ''exec_tb'' then
                             (case ifs_read 8 rest b8f of None \<Rightarrow> Some bbs
                              | Some (b8f, rest) \<Rightarrow>
                                  (case ifs_read 8 rest b8f of None \<Rightarrow> Some bbs
                                   | Some (b8f, rest) \<Rightarrow>
                                       read_records rest b8f eventmap (set_insert (\<lambda>x. x) (le64 b8f) bbs)))
                           else if eventmap eventnum = Some ''dropped'' then
                             (case ifs_read 8 rest b8f of None \<Rightarrow> Some bbs
                              | Some (b8f, rest) \<Rightarrow> read_records rest b8f eventmap bbs)
                           else Some bbs)))
          else Some bbs)"
  by pat_completeness auto
termination
  by (relation "measure (\<lambda>(rest, _). length rest)") (auto simp: ifs_read_def split: if_splits)

declare read_records.simps [simp del]

text \<open>The whole file; \<open>b8f\<close> is the fresh buffer. \<open>Some None\<close>: the header is not the expected one.\<close>

definition initial_events :: event_map where
  "initial_events = [0xfffffffffffffffe \<mapsto> ''dropped'']"

definition read_trace :: "bytes \<Rightarrow> bytes \<Rightarrow> 64 word list option option" where
  "read_trace b8f file =
     (let (b8f, rest) = header_read file b8f in
      if le64 b8f \<noteq> 0xffffffffffffffff then Some None
      else let (b8f, rest) = header_read rest b8f in
      if le64 b8f \<noteq> 0xf2b177cb0aa429b4 then Some None
      else let (b8f, rest) = header_read rest b8f in
      if le64 b8f \<noteq> 4 then Some None
      else map_option Some (read_records rest b8f initial_events []))"

text \<open>
  The blocks of each module's range. The code erases an element while it iterates over the set, which is
  undefined; the model goes on with the next element.
\<close>

fun match_blocks :: "range list \<Rightarrow> 64 word list \<Rightarrow> DebugExecutionOutput \<Rightarrow> DebugExecutionOutput" where
  "match_blocks [] bbs out = out"
| "match_blocks ((i, start, stop) # modt) bbs out =
     match_blocks modt (filter (\<lambda>p. \<not> (p \<le> stop \<and> start \<le> p)) bbs)
       (fold (\<lambda>p. addCoveredBasicBlock (FluffiBasicBlock (p - start) i))
          (filter (\<lambda>p. p \<le> stop \<and> start \<le> p) bbs) out)"

section \<open>Setting up\<close>

definition Qemu_isSetupFunctionable :: "qemu \<Rightarrow> executor_base \<Rightarrow> string \<Rightarrow> bool" where
  "Qemu_isSetupFunctionable Q b rootfs =
     (if \<not> q_root Q then False
      else if \<not> q_directory Q rootfs then False
      else if \<not> q_shell Q then False
      else q_exists Q (x_testcaseDir b))"

text \<open>All steps are taken, whatever fails; the new root directory is kept also then.\<close>

definition qemu_rootfs :: "executor_base \<Rightarrow> string" where
  "qemu_rootfs b = x_testcaseDir b @ ''/rootfs''"

definition doInit :: "qemu \<Rightarrow> executor_base \<Rightarrow> string \<Rightarrow> agent \<Rightarrow> bool \<times> string \<times> agent" where
  "doInit Q b rootfs a =
     (let success = q_system Q (tick a) (''rsync -a '' @ rootfs @ ''/ '' @ x_testcaseDir b @ ''/rootfs/'');
          rootfs = qemu_rootfs b; a = next_tick a;
          success = (success \<and> q_mount Q (tick a) (x_testcaseDir b) (rootfs @ ''/testcaseFiles''));
          a = next_tick a;
          success = (success \<and> q_mount Q (tick a) ''/dev'' (rootfs @ ''/dev''));
          a = next_tick a
      in (success, rootfs, a\<lparr>files := (files a)(rootfs @ ''/etc/qemu-events'' \<mapsto> ''exec_tb'' @ [CHR 0x0A])\<rparr>))"

section \<open>Running a testcase\<close>

definition DebugCommandLineInChrootEnv ::
    "qemu \<Rightarrow> string \<Rightarrow> debug_call \<Rightarrow> DebugExecutionOutput \<Rightarrow> agent \<Rightarrow> DebugExecutionOutput \<times> agent" where
  "DebugCommandLineInChrootEnv Q rootfs call exResult a =
     (let exResult = exResult\<lparr>m_terminationType := ERR, m_terminationDescription := ''The target did not run!''\<rparr>
      in case q_debug Q (tick a) call rootfs exResult of
           None \<Rightarrow> (exResult\<lparr>m_terminationDescription := ''Error creating the Process''\<rparr>, next_tick a)
         | Some (out, fs) \<Rightarrow>
             (out, (next_tick a)\<lparr>files := fold (\<lambda>(n, bs) f. f(rootfs @ ''/'' @ n \<mapsto> bs)) fs (files a)\<rparr>))"

text \<open>The link is made inside the mount; here it is under its name outside.\<close>

definition fuzzcase :: "executor_base \<Rightarrow> string" where
  "fuzzcase b = x_testcaseDir b @ ''/fuzzcase''"

definition link_testcase :: "qemu \<Rightarrow> executor_base \<Rightarrow> string \<Rightarrow> agent \<Rightarrow> bool \<times> agent" where
  "link_testcase Q b testfile a =
     (if files a testfile \<noteq> None \<and> files a (fuzzcase b) = None \<and> q_link Q (tick a)
      then (True, (next_tick a)\<lparr>files := (files a)(fuzzcase b := files a testfile)\<rparr>)
      else (False, next_tick a))"

text \<open>Both files are emptied after they were read; the trace of an uninteresting run is deleted.\<close>

definition read_module_table ::
    "executor_base \<Rightarrow> string \<Rightarrow> DebugExecutionOutput \<Rightarrow> agent \<Rightarrow>
     (DebugExecutionOutput \<times> range list \<times> agent) option" where
  "read_module_table b rootfs out a =
     (let modules = rootfs @ ''/modules.txt'' in
      case files a modules of None \<Rightarrow> Some (out, [], a)
      | Some content \<Rightarrow>
          map_option (\<lambda>(out, modt). (out, modt, a\<lparr>files := (files a)(modules \<mapsto> [])\<rparr>))
            (read_modules_txt (m_modulesToCover b) content out))"

definition read_blocks ::
    "env \<Rightarrow> string \<Rightarrow> range list \<Rightarrow> DebugExecutionOutput \<Rightarrow> agent \<Rightarrow> (DebugExecutionOutput \<times> agent) option" where
  "read_blocks E rootfs modt out a =
     (let tracefile = rootfs @ ''/trace-'' @ int_to_string (m_PID out) in
      if modt = [] then Some (out, markFileForDelete tracefile a)
      else case files a tracefile of None \<Rightarrow> Some (out, a)
      | Some content \<Rightarrow>
          (case read_trace (env_heap E (tick a) 8) content of
             None \<Rightarrow> None
           | Some None \<Rightarrow> Some (out, next_tick a)
           | Some (Some bbs) \<Rightarrow>
               Some (match_blocks modt bbs out, (next_tick a)\<lparr>files := (files a)(tracefile \<mapsto> [])\<rparr>)))"

definition after_qemu_run ::
    "env \<Rightarrow> qemu \<Rightarrow> executor_base \<Rightarrow> string \<Rightarrow> DebugExecutionOutput \<Rightarrow> agent \<Rightarrow>
     (DebugExecutionOutput \<times> agent) option" where
  "after_qemu_run E Q b rootfs out a =
     (let (unlinked, a) = fs_remove E (fuzzcase b) a in
      if m_terminationType out = ERR then Some (out, a)
      else if \<not> unlinked then Some (out\<lparr>m_terminationType := ERR\<rparr>, a)
      else do {
        let a = markAllFilesOfTypeInPathForDeletion
          (map (\<lambda>p. (p, extension p, files a p \<noteq> None)) (q_listing Q a rootfs)) ''.core'' a;
        (out, modt, a) \<leftarrow> read_module_table b rootfs out a;
        read_blocks E rootfs modt out a
      })"

text \<open>The object's root directory and whether it was set up are part of its state.\<close>

definition run_in_root ::
    "env \<Rightarrow> qemu \<Rightarrow> executor_base \<Rightarrow> bool \<Rightarrow> string \<Rightarrow> FluffiTestcaseID \<Rightarrow> agent \<Rightarrow> (DebugExecutionOutput \<times> agent) option" where
  "run_in_root E Q b fatal rootfs testcaseId a =
     (let (linked, a) = link_testcase Q b (generateTestcasePathAndFilename testcaseId (x_testcaseDir b)) a in
      if \<not> linked then Some (new_output\<lparr>m_terminationType := ERR\<rparr>, a)
      else let (out, a) = DebugCommandLineInChrootEnv Q rootfs
               (mk_call b fatal (m_targetCMDline b @ '' /testcaseFiles/fuzzcase'') False) new_output a
           in after_qemu_run E Q b rootfs out a)"

definition QemuUserSingle_execute ::
    "env \<Rightarrow> qemu \<Rightarrow> executor_base \<Rightarrow> bool \<Rightarrow> string \<Rightarrow> bool \<Rightarrow> FluffiTestcaseID \<Rightarrow> agent \<Rightarrow>
     (DebugExecutionOutput \<times> executor \<times> agent) option" where
  "QemuUserSingle_execute E Q b fatal rootfs was_initialized testcaseId a =
     (let (initialized, rootfs, a) = (if \<not> was_initialized then doInit Q b rootfs a else (True, rootfs, a));
          x = TestExecutorQemuUserSingle b fatal rootfs initialized
      in if \<not> initialized then Some (new_output\<lparr>m_terminationType := ERR\<rparr>, x, a)
         else map_option (\<lambda>(out, a). (out, x, a)) (run_in_root E Q b fatal rootfs testcaseId a))"

section \<open>Facts\<close>

text \<open>The blocks found are exactly those of the first range that contains a traced address.\<close>

definition in_range :: "64 word \<Rightarrow> range \<Rightarrow> bool" where
  "in_range p r \<longleftrightarrow> (case r of (i, start, stop) \<Rightarrow> p \<le> stop \<and> start \<le> p)"

definition block_in :: "range list \<Rightarrow> 64 word \<Rightarrow> FluffiBasicBlock option" where
  "block_in modt p = map_option (\<lambda>(i, start, stop). FluffiBasicBlock (p - start) i) (find (in_range p) modt)"

lemma fold_addCoveredBasicBlock:
  "fold (\<lambda>p. addCoveredBasicBlock (f p)) ps out =
     out\<lparr>m_coveredBasicBlocks := m_coveredBasicBlocks out @ map f ps\<rparr>"
  by (induction ps arbitrary: out) (simp_all add: addCoveredBasicBlock_def)

lemma match_blocks_set:
  "set (m_coveredBasicBlocks (match_blocks modt bbs out)) =
     set (m_coveredBasicBlocks out) \<union> {b. \<exists>p \<in> set bbs. block_in modt p = Some b}"
proof (induction modt bbs out rule: match_blocks.induct)
  case (1 bbs out)
  then show ?case by (simp add: block_in_def)
next
  case (2 i start stop modt bbs out)
  have "{b. \<exists>p \<in> set bbs. block_in ((i, start, stop) # modt) p = Some b} =
      (\<lambda>p. FluffiBasicBlock (p - start) i) ` {p \<in> set bbs. p \<le> stop \<and> start \<le> p} \<union>
      {b. \<exists>p \<in> set bbs. \<not> (p \<le> stop \<and> start \<le> p) \<and> block_in modt p = Some b}"
    by (auto simp: block_in_def in_range_def)
  with 2 show ?case by (auto simp: fold_addCoveredBasicBlock)
qed

lemma match_blocks_rest:
  "m_terminationType (match_blocks modt bbs out) = m_terminationType out"
  by (induction modt bbs out rule: match_blocks.induct) (simp_all add: fold_addCoveredBasicBlock)

section \<open>Traces as they are written\<close>

text \<open>A reference printer for the records of a trace; time stamps and process numbers are not looked at.\<close>

datatype trace_record =
    Mapping "64 word" string
  | Exec "64 word" "64 word" "64 word" "64 word" "64 word"
  | Dropped "64 word" "64 word" "64 word" "64 word"

definition b64 :: "64 word \<Rightarrow> bytes" where
  "b64 w = le_bytes 8 (unat w)"

fun put_record :: "trace_record \<Rightarrow> bytes" where
  "put_record (Mapping i name) = b64 0 @ b64 i @ le_bytes 4 (length name) @ name"
| "put_record (Exec i ts pid tb pc) = b64 1 @ b64 i @ b64 ts @ b64 pid @ b64 tb @ b64 pc"
| "put_record (Dropped i ts pid n) = b64 1 @ b64 i @ b64 ts @ b64 pid @ b64 n"

definition trace_file :: "trace_record list \<Rightarrow> bytes" where
  "trace_file rs = b64 0xffffffffffffffff @ b64 0xf2b177cb0aa429b4 @ b64 4 @ concat (map put_record rs)"

text \<open>Every event was given a name before, the first one it was given; the names have no NUL and fit.\<close>

fun trace_ok :: "event_map \<Rightarrow> trace_record list \<Rightarrow> bool" where
  "trace_ok ev [] = True"
| "trace_ok ev (Mapping i name # rs) = (CHR 0x00 \<notin> set name \<and> length name < 2 ^ 32 - 1 \<and>
     trace_ok (if ev i = None then ev(i \<mapsto> name) else ev) rs)"
| "trace_ok ev (Exec i ts pid tb pc # rs) = (ev i = Some ''exec_tb'' \<and> trace_ok ev rs)"
| "trace_ok ev (Dropped i ts pid n # rs) = (ev i = Some ''dropped'' \<and> trace_ok ev rs)"

fun pcs_of :: "trace_record \<Rightarrow> 64 word list" where
  "pcs_of (Exec i ts pid tb pc) = [pc]"
| "pcs_of _ = []"

lemma b64_length [simp]: "length (b64 w) = 8"
  by (simp add: b64_def)

lemma le64_b64 [simp]: "le64 (b64 w @ r) = w" "le64 (b64 w) = w"
proof -
  have lt: "unat w < 2 ^ 64" by (rule order_less_le_trans [OF unsigned_less]) simp
  have "le_nat (b64 w) = unat w mod 256 ^ 8" unfolding b64_def by (rule le_nat_bytes)
  also have "\<dots> = unat w" using lt by simp
  finally show "le64 (b64 w @ r) = w" "le64 (b64 w) = w" by (simp_all add: le64_def)
qed

lemma ifs_read_append [simp]:
  "length x = n \<Longrightarrow> ifs_read n (x @ rest) b8f = Some (x @ drop n b8f, rest)"
  by (simp add: ifs_read_def)

lemma read_records_sound:
  assumes "trace_ok ev rs" and "length b8f = 8"
  shows "read_records (concat (map put_record rs)) b8f ev bbs =
    Some (fold (set_insert (\<lambda>x. x)) (concat (map pcs_of rs)) bbs)"
  using assms
proof (induction ev rs arbitrary: b8f bbs rule: trace_ok.induct)
  case (1 ev)
  then show ?case by (simp add: read_records.simps ifs_read_def)
next
  case (2 ev i name rs)
  let ?rest = "concat (map put_record rs)"
  have n: "le_nat (le_bytes 4 (length name)) = length name"
    using 2 by (simp add: le_nat_bytes)
  have c: "c_string name = name" using 2 by (auto simp: c_string_def takeWhile_eq_all_conv)
  let ?b = "le_bytes 4 (length name) @ drop 4 (b64 i)"
  let ?ev = "if ev i = None then ev(i \<mapsto> name) else ev"
  have "read_records (concat (map put_record (Mapping i name # rs))) b8f ev bbs = read_records ?rest ?b ?ev bbs"
    using 2(2,3) by (subst read_records.simps) (cases "ev i"; simp add: n c Let_def)
  also have "\<dots> = Some (fold (set_insert (\<lambda>x. x)) (concat (map pcs_of rs)) bbs)"
    using 2(2) by (intro 2(1)) (simp only: trace_ok.simps, simp)
  finally show ?case by simp
next
  case (3 ev i ts pid tb pc rs)
  then show ?case by (subst read_records.simps) simp
next
  case (4 ev i ts pid m rs)
  then show ?case by (subst read_records.simps) simp
qed

lemma header_read_append [simp]:
  "length x = 8 \<Longrightarrow> length b8f = 8 \<Longrightarrow> header_read (x @ rest) b8f = (x, rest)"
  by (simp add: header_read_def)

lemma read_trace_file:
  assumes "trace_ok initial_events rs" and "length b8f = 8"
  shows "read_trace b8f (trace_file rs) = Some (Some (set_of_list (\<lambda>x. x) (concat (map pcs_of rs))))"
proof -
  show ?thesis
    using assms by (simp add: read_trace_def trace_file_def read_records_sound set_of_list_def)
qed

section \<open>What a run leaves alone\<close>

text \<open>
  Its scratch files: everything below the new root directory, the link to the testcase, and the core files that are
  marked.
\<close>

definition below :: "string \<Rightarrow> string \<Rightarrow> bool" where
  "below dir p \<longleftrightarrow> starts_with p (dir @ ''/'')"

definition qemu_scratch :: "executor_base \<Rightarrow> string \<Rightarrow> string \<Rightarrow> bool" where
  "qemu_scratch b rootfs p \<longleftrightarrow> below rootfs p \<or> p = fuzzcase b \<or> extension p = ''.core''"

lemma below_append [simp]: "below dir (dir @ CHR ''/'' # n)"
  by (simp add: below_def starts_with_def)

lemma doInit_leaves:
  assumes "doInit Q b rootfs a = (ok, rootfs', a')" shows "rootfs' = qemu_rootfs b \<and> leaves_alone (qemu_scratch b rootfs') a a'"
  using assms by (auto simp: doInit_def Let_def qemu_scratch_def leaves_alone_def)

lemma link_leaves: "leaves_alone (qemu_scratch b rootfs) a (snd (link_testcase Q b f a))"
  by (auto simp: link_testcase_def leaves_alone_def qemu_scratch_def)

lemma debug_leaves: "leaves_alone (qemu_scratch b rootfs) a (snd (DebugCommandLineInChrootEnv Q rootfs call out a))"
proof -
  have "fold (\<lambda>(n, bs) f. f(rootfs @ ''/'' @ n \<mapsto> bs)) fs f p = f p" if "\<not> below rootfs p" for fs f p
    using that by (induction fs arbitrary: f) auto
  then show ?thesis
    by (auto simp: DebugCommandLineInChrootEnv_def Let_def leaves_alone_def qemu_scratch_def split: option.splits)
qed

lemma module_table_leaves:
  "read_module_table b rootfs out a = Some (out', modt, a') \<Longrightarrow> leaves_alone (qemu_scratch b rootfs) a a'"
  by (auto simp: read_module_table_def Let_def qemu_scratch_def intro!: leaves_alone_write split: option.splits)

lemma read_blocks_leaves:
  "read_blocks E rootfs modt out a = Some (out', a') \<Longrightarrow> leaves_alone (qemu_scratch b rootfs) a a'"
  by (auto simp: read_blocks_def Let_def qemu_scratch_def intro!: leaves_alone_write leaves_alone_mark leaves_alone_tick
      split: if_splits option.splits)

lemma after_qemu_run_leaves:
  assumes "after_qemu_run E Q b rootfs out a = Some (out', a')" shows "leaves_alone (qemu_scratch b rootfs) a a'"
proof -
  obtain ok a1 where u: "fs_remove E (fuzzcase b) a = (ok, a1)" by fastforce
  have l1: "leaves_alone (qemu_scratch b rootfs) a a1"
    using u by (auto simp: fs_remove_def qemu_scratch_def leaves_alone_def split: if_splits)
  show ?thesis
  proof (cases "m_terminationType out = ERR \<or> \<not> ok")
    case True
    then show ?thesis using assms u l1 by (auto simp: after_qemu_run_def split: if_splits)
  next
    case False
    let ?a2 = "markAllFilesOfTypeInPathForDeletion
        (map (\<lambda>p. (p, extension p, files a1 p \<noteq> None)) (q_listing Q a1 rootfs)) ''.core'' a1"
    have l2: "leaves_alone (qemu_scratch b rootfs) a1 ?a2"
      by (rule mark_all_leaves) (auto simp: qemu_scratch_def)
    from False assms u obtain out2 modt a3 where m: "read_module_table b rootfs out ?a2 = Some (out2, modt, a3)"
      and r: "read_blocks E rootfs modt out2 a3 = Some (out', a')"
      by (auto simp: after_qemu_run_def Let_def bind_eq_Some_conv)
    from leaves_alone_trans [OF l1 leaves_alone_trans [OF l2 leaves_alone_trans
        [OF module_table_leaves [OF m] read_blocks_leaves [OF r]]]] show ?thesis .
  qed
qed

lemma run_in_root_leaves:
  assumes "run_in_root E Q b fatal rootfs i a = Some (out, a')" shows "leaves_alone (qemu_scratch b rootfs) a a'"
proof -
  let ?l = "link_testcase Q b (generateTestcasePathAndFilename i (x_testcaseDir b)) a"
  let ?d = "DebugCommandLineInChrootEnv Q rootfs
      (mk_call b fatal (m_targetCMDline b @ '' /testcaseFiles/fuzzcase'') False) new_output (snd ?l)"
  show ?thesis
  proof (cases "fst ?l")
    case False
    then show ?thesis using assms link_leaves by (auto simp: run_in_root_def split_beta)
  next
    case True
    then have "after_qemu_run E Q b rootfs (fst ?d) (snd ?d) = Some (out, a')"
      using assms by (simp add: run_in_root_def split_beta)
    from leaves_alone_trans [OF link_leaves leaves_alone_trans [OF debug_leaves after_qemu_run_leaves [OF this]]]
    show ?thesis .
  qed
qed

lemma QemuUserSingle_execute_leaves:
  assumes "QemuUserSingle_execute E Q b fatal rootfs init i a = Some (out, x, a')"
  shows "leaves_alone (qemu_scratch b (if init then rootfs else qemu_rootfs b)) a a'"
proof (cases init)
  case True
  then show ?thesis using assms by (auto simp: QemuUserSingle_execute_def dest: run_in_root_leaves)
next
  case False
  obtain ok r a1 where d: "doInit Q b rootfs a = (ok, r, a1)" by (cases "doInit Q b rootfs a")
  note l = doInit_leaves [OF d]
  show ?thesis
  proof (cases ok)
    case True
    with False d assms obtain out2 where "run_in_root E Q b fatal r i a1 = Some (out2, a')"
      by (auto simp: QemuUserSingle_execute_def)
    from leaves_alone_trans [OF conjunct2 [OF l] run_in_root_leaves [OF this]] l False show ?thesis by simp
  next
    case nok: False
    with False d assms l show ?thesis by (auto simp: QemuUserSingle_execute_def)
  qed
qed

text \<open>The file of a testcase whose identifier has no slash is not scratch.\<close>

lemma testcase_path_not_scratch:
  assumes "CHR ''/'' \<notin> set (m_guid (m_serviceDescriptor i))" and "rootfs = qemu_rootfs b"
  shows "\<not> qemu_scratch b rootfs (generateTestcasePathAndFilename i (x_testcaseDir b))"
proof -
  let ?p = "generateTestcasePathAndFilename i (x_testcaseDir b)"
  let ?n = "m_guid (m_serviceDescriptor i) @ ''-'' @ to_string (unat (m_localID i))"
  have "CHR ''/'' \<notin> set (to_string (unat (m_localID i)))" using to_string_digits [of "unat (m_localID i)"] by (auto simp: is_digit_def)
  then have n: "CHR ''/'' \<notin> set ?n" using assms(1) by simp
  have p: "?p = x_testcaseDir b @ CHR ''/'' # ?n" by (simp add: generateTestcasePathAndFilename_def pathSeperator_def)
  have "\<not> below rootfs ?p"
  proof
    assume "below rootfs ?p"
    then have "x_testcaseDir b @ CHR ''/'' # ?n = (rootfs @ ''/'') @ drop (length (rootfs @ ''/'')) ?p"
      unfolding below_def p [symmetric] by (rule starts_withD)
    then have "?n = ''rootfs/'' @ drop (length (rootfs @ ''/'')) ?p" by (simp add: assms(2) qemu_rootfs_def)
    then have "CHR ''/'' \<in> set ?n" by (metis UnCI list.set_intros(1) list.set_intros(2) set_append)
    with n show False by simp
  qed
  moreover have d: "is_digit (last ?p)"
    using to_string_digits [of "unat (m_localID i)"] by (simp add: p)
  have "?p \<noteq> fuzzcase b"
  proof
    assume "?p = fuzzcase b"
    then have "last ?p = last (fuzzcase b)" by simp
    with d show False by (simp add: fuzzcase_def is_digit_def)
  qed
  moreover have "extension ?p \<noteq> ''.core''"
  proof
    assume "extension ?p = ''.core''"
    then have "last ?p = CHR ''e''" by (intro extension_last [of _ "''.cor''"]) simp_all
    with d show False by (simp add: is_digit_def)
  qed
  ultimately show ?thesis by (simp add: qemu_scratch_def)
qed

end
