(* ===== verification/TRFed.thy ===== *)
theory TRFed
  imports TRDynRio
begin

text \<open>
  What the executors share that keep one target for many testcases and have a second process, the feeder, send the
  testcases to it (\<open>TestExecutorDynRioMulti.cpp\<close> and \<open>TestExecutorGDB.cpp\<close> have the same code in these parts,
  the Linux one; \<open>FluffiTestExecutor::initializeFeeder\<close>): the start of the feeder, what it is told for a testcase, the
  forced restart.

  The record \<open>fed_env\<close> holds what is outside: the channel's environment, the processes that are started and
  whether they are ready in time, and the files that exist.
\<close>

section \<open>Outside the code\<close>

record fed_env =
  u_ipc :: ipc_env
  u_dynrio :: dynrio
  u_guid :: "nat \<Rightarrow> string"
  u_pipe_ok :: "nat \<Rightarrow> bool"                                 \<comment> \<open>making, opening or clearing a pipe\<close>
  u_starter :: "nat \<Rightarrow> string \<Rightarrow> bool"                      \<comment> \<open>the starter ends in time\<close>
  u_feeder :: "nat \<Rightarrow> string \<Rightarrow> bool"                       \<comment> \<open>the feeder runs\<close>
  u_ends :: "nat \<Rightarrow> bool"                                    \<comment> \<open>the debugger thread ends, at the latest when it is told to\<close>

text \<open>The first word of a command line, with the markers made harmless, is an existing file.\<close>

definition harmless :: "string \<Rightarrow> string" where
  "harmless s = map (\<lambda>c. if c = CHR ''<'' \<or> c = CHR ''>'' then CHR ''_'' else c) s"

definition command_exists :: "'e fed_env_scheme \<Rightarrow> string \<Rightarrow> bool" where
  "command_exists M cmdline =
     (case d_wordexp (u_dynrio M) (harmless cmdline) of
        None \<Rightarrow> False | Some [] \<Rightarrow> False | Some (w # _) \<Rightarrow> d_exists (u_dynrio M) w)"

section \<open>The feeder\<close>

text \<open>\<open>None\<close>: the wait for the feeder's answer does not end.\<close>

definition initializeFeeder ::
    "'e fed_env_scheme \<Rightarrow> string \<Rightarrow> SharedMemIPC \<Rightarrow> int \<Rightarrow> ipc_os \<Rightarrow> agent \<Rightarrow> (bool \<times> ipc_os \<times> agent) option" where
  "initializeFeeder M commandline ipc targetProcessID os a =
     (if \<not> u_feeder M (tick a) commandline then Some (False, os, next_tick a)
      else do {
        (sent, os) \<leftarrow> sendMessageToClient (u_ipc M) ipc
          (mk_message SHARED_MEM_MESSAGE_TARGET_PID (int_to_string targetProcessID)) os;
        if \<not> sent then Some (False, os, next_tick a)
        else do {
          (_, response, os) \<leftarrow> waitForNewMessageToServer (u_ipc M) ipc None os;
          Some (m_messageType response = SHARED_MEM_MESSAGE_READY_TO_FUZZ, os, next_tick a)
        }
      })"

text \<open>\<open>None\<close> also: deleting the old channel reads from a view that is not mapped.\<close>

definition start_feeder ::
    "'e fed_env_scheme \<Rightarrow> string \<Rightarrow> int \<Rightarrow> 's fed_scheme \<Rightarrow> agent \<Rightarrow> (bool \<times> 's fed_scheme \<times> agent) option" where
  "start_feeder M feeder_cmdline pid st a = do {
     let name = ''/FLUFFI_SharedMem_'' @ u_guid M (tick a);
     let a = next_tick a;
     os \<leftarrow> (case m_sharedMemIPC_toFeeder st of None \<Rightarrow> Some (m_ipc st) | Some ipc \<Rightarrow> SharedMemIPC_delete ipc (m_ipc st));
     let (ok, ipc, os) = initializeAsServer (u_ipc M) (new_SharedMemIPC name 0x1000) os;
     let st = st\<lparr>m_sharedMemIPC_toFeeder := Some ipc, m_ipc := os\<rparr>;
     if \<not> ok then Some (False, st, a)
     else do {
       (ready, os, a) \<leftarrow> initializeFeeder M (feeder_cmdline @ '' '' @ name) ipc pid os a;
       let st = st\<lparr>m_ipc := os\<rparr>;
       if \<not> ready then Some (False, st, a)
       else if fifo_bytes os interrupt_pipe = 0 then Some (True, st, a)
       else if u_pipe_ok M (tick a)
       then Some (True, st\<lparr>m_ipc := os\<lparr>fifo_bytes := (fifo_bytes os)(interrupt_pipe := 0)\<rparr>\<rparr>, next_tick a)
       else Some (False, st, next_tick a)
     }
   }"

text \<open>The answer of the feeder; the second component is whether the run goes on, the first the result if not.\<close>

definition after_answer :: "SharedMemMessageType \<Rightarrow> DebugExecutionOutput \<Rightarrow> bool \<times> bool \<times> DebugExecutionOutput" where
  "after_answer response exResult =
     (if response = SHARED_MEM_MESSAGE_FUZZ_DONE then (True, True, exResult)
      else if response = SHARED_MEM_MESSAGE_WAIT_INTERRUPTED
      then (False, False, fail_with ''Communication with feeder was interrupted!'' exResult)
      else if response = SHARED_MEM_MESSAGE_TRANSMISSION_TIMEOUT
      then (False, False, exResult\<lparr>m_terminationType := TIMEOUT,
        m_terminationDescription := ''Communication with feeder timed out!''\<rparr>)
      else if response = SHARED_MEM_MESSAGE_TARGET_CRASHED
      then (True, False, exResult\<lparr>m_terminationType := EXCEPTION_OTHER,
        m_terminationDescription := ''Feeder claims that target crashed!'', m_firstCrash := ''FEEDER CLAIMS CRASH'',
        m_lastCrash := ''FEEDER CLAIMS CRASH''\<rparr>)
      else (False, False, fail_with (''Feeder returned a not expected message. We received a message of type '' @
        to_string (unat response)) exResult))"

text \<open>
  The feeder is told the path of the testcase and its answer awaited. \<open>None\<close>: the object has no channel, or the wait
  does not end.
\<close>

definition tell_feeder ::
    "'e fed_env_scheme \<Rightarrow> executor_base \<Rightarrow> FluffiTestcaseID \<Rightarrow> DebugExecutionOutput \<Rightarrow> 's fed_scheme \<Rightarrow>
     (bool \<times> bool \<times> DebugExecutionOutput \<times> 's fed_scheme) option" where
  "tell_feeder M b testcaseId exResult st = do {
     ipc \<leftarrow> m_sharedMemIPC_toFeeder st;
     (sent, os) \<leftarrow> sendMessageToClient (u_ipc M) ipc (mk_message SHARED_MEM_MESSAGE_FUZZ_FILENAME
       (generateTestcasePathAndFilename testcaseId (x_testcaseDir b))) (m_ipc st);
     if \<not> sent
     then Some (False, False, fail_with ''Problem while sending a fuzzing filename to the feeder!'' exResult, st\<lparr>m_ipc := os\<rparr>)
     else do {
       (_, response, os) \<leftarrow> waitForNewMessageToServer (u_ipc M) ipc (Some interrupt_pipe) os;
       let (ok, goes_on, out) = after_answer (m_messageType response) exResult;
       Some (ok, goes_on, out, st\<lparr>m_ipc := os\<rparr>)
     }
   }"

section \<open>Results and restarts\<close>

definition executed_normally :: "DebugExecutionOutput \<Rightarrow> DebugExecutionOutput" where
  "executed_normally out =
     out\<lparr>m_terminationType := CLEAN, m_terminationDescription := ''Fuzzcase executed normally!''\<rparr>"

definition special_crash :: "PROCESS_TERMINATION_TYPE \<Rightarrow> string \<Rightarrow> string \<Rightarrow> DebugExecutionOutput" where
  "special_crash typ description crash = new_output\<lparr>m_terminationType := typ,
     m_terminationDescription := description, m_firstCrash := crash, m_lastCrash := crash\<rparr>"

definition not_okay :: "'s fed_scheme \<Rightarrow> 's fed_scheme" where
  "not_okay st = st\<lparr>m_target_and_feeder_okay := False\<rparr>"

text \<open>A restart is forced by the number of testcases since the last one.\<close>

definition count_execution :: "int \<Rightarrow> 's fed_scheme \<Rightarrow> 's fed_scheme" where
  "count_execution forceRestartAfterXTCs st =
     (if forceRestartAfterXTCs > 0
      then let n = m_executionsSinceLastRestart st; st = st\<lparr>m_executionsSinceLastRestart := n + 1\<rparr> in
           if n > forceRestartAfterXTCs then not_okay st else st
      else st)"

definition waitForDebuggerToTerminate :: "'e fed_env_scheme \<Rightarrow> agent \<Rightarrow> agent option" where
  "waitForDebuggerToTerminate M a = (if u_ends M (tick a) then Some (next_tick a) else None)"

section \<open>Facts\<close>

lemma leaves_tick [simp]:
  "leaves_alone S a (b\<lparr>tick := n\<rparr>) = leaves_alone S a b" "leaves_alone S (a\<lparr>tick := n\<rparr>) b = leaves_alone S a b"
  by (simp_all add: leaves_alone_def)

lemma initializeFeeder_leaves: "initializeFeeder M c ipc pid os a = Some (ok, os', a') \<Longrightarrow> leaves_alone S a a'"
  by (auto simp: initializeFeeder_def bind_eq_Some_conv leaves_alone_def split: if_splits)

lemma start_feeder_leaves:
  assumes "start_feeder M f pid st a = Some (ok, st', a')" shows "leaves_alone S a a'"
proof -
  let ?name = "''/FLUFFI_SharedMem_'' @ u_guid M (tick a)"
  from assms obtain os where os: "(case m_sharedMemIPC_toFeeder st of None \<Rightarrow> Some (m_ipc st)
      | Some ipc \<Rightarrow> SharedMemIPC_delete ipc (m_ipc st)) = Some os"
    by (auto simp: start_feeder_def Let_def bind_eq_Some_conv)
  obtain k ipc os1 where i: "initializeAsServer (u_ipc M) (new_SharedMemIPC ?name 0x1000) os = (k, ipc, os1)"
    by (cases "initializeAsServer (u_ipc M) (new_SharedMemIPC ?name 0x1000) os")
  note u = assms [unfolded start_feeder_def Let_def os Option.bind.bind_lunit i prod.case]
  show ?thesis
  proof (cases k)
    case False
    with u show ?thesis by auto
  next
    case True
    with u obtain r os2 a2 where f: "initializeFeeder M (f @ '' '' @ ?name) ipc
        pid os1 (next_tick a) = Some (r, os2, a2)"
      by (auto simp: bind_eq_Some_conv)
    from initializeFeeder_leaves [OF f, of S] u True f show ?thesis by (auto split: if_splits)
  qed
qed

lemma count_execution_more [simp]:
  "m_sharedMemIPC_toFeeder (count_execution n st) = m_sharedMemIPC_toFeeder st" "m_ipc (count_execution n st) = m_ipc st"
  "fed.more (count_execution n st) = fed.more st"
  by (simp_all add: count_execution_def not_okay_def Let_def)

lemma tell_feeder_state:
  assumes "tell_feeder M b i out st = Some (ok, goes_on, out', st')"
  shows "\<exists>os. st' = st\<lparr>m_ipc := os\<rparr>" and "goes_on \<Longrightarrow> ok \<and> out' = out"
    and "ok \<Longrightarrow> \<not> goes_on \<Longrightarrow> m_terminationType out' = EXCEPTION_OTHER"
  using assms by (auto simp: tell_feeder_def bind_eq_Some_conv after_answer_def Let_def split: if_splits)

lemma tell_feeder_goes_on: "tell_feeder M b i out st = Some (ok, goes_on, out', st') \<Longrightarrow> goes_on \<Longrightarrow> ok"
  using tell_feeder_state(2) by blast

lemma initializeAsServer_mapped:
  "initializeAsServer E (new_SharedMemIPC n len) os = (True, ipc, os') \<Longrightarrow> \<exists>fd. m_pView ipc = mapped fd"
  by (auto simp: initializeAsServer_def initialize_fifos_def Let_def new_SharedMemIPC_def
      split: if_splits prod.splits option.splits bool.splits)

text \<open>Starting the feeder makes a channel.\<close>

lemma start_feeder_state:
  assumes "start_feeder M f pid st a = Some (ok, st', a')"
  shows "\<exists>ipc os. st' = st\<lparr>m_sharedMemIPC_toFeeder := Some ipc, m_ipc := os\<rparr> \<and> (ok \<longrightarrow> (\<exists>fd. m_pView ipc = mapped fd))"
proof -
  let ?name = "''/FLUFFI_SharedMem_'' @ u_guid M (tick a)"
  from assms obtain os where os: "(case m_sharedMemIPC_toFeeder st of None \<Rightarrow> Some (m_ipc st)
      | Some ipc \<Rightarrow> SharedMemIPC_delete ipc (m_ipc st)) = Some os"
    by (auto simp: start_feeder_def Let_def bind_eq_Some_conv)
  obtain k ipc os1 where i: "initializeAsServer (u_ipc M) (new_SharedMemIPC ?name 0x1000) os = (k, ipc, os1)"
    by (cases "initializeAsServer (u_ipc M) (new_SharedMemIPC ?name 0x1000) os")
  note u = assms [unfolded start_feeder_def Let_def os Option.bind.bind_lunit i prod.case]
  have "\<exists>os2. st' = st\<lparr>m_sharedMemIPC_toFeeder := Some ipc, m_ipc := os2\<rparr> \<and> (ok \<longrightarrow> k)"
    using u by (cases k) (auto simp: bind_eq_Some_conv split: if_splits)
  moreover have "k \<Longrightarrow> \<exists>fd. m_pView ipc = mapped fd" using i initializeAsServer_mapped by simp
  ultimately show ?thesis by blast
qed

end
