(* ===== verification/TRMulti.thy ===== *)
theory TRMulti
  imports TRFed
begin

text \<open>
  Another executor: many testcases in one process under DynamoRIO (\<open>TestExecutorDynRioMulti.cpp\<close>, the Linux
  part). The target is started once, or attached to after a starter has
  started it; a second process, the feeder, is told over shared memory which testcase to send to it; DynamoRIO is
  told by signals, the nudges, to reset and to dump the coverage and answers on a pipe. The target is watched
  by a thread whose output the object shares with it.

  The record \<open>multi_env\<close> holds what is outside: what the thread has written when the object looks, the
  processes that are started, DynamoRIO's answers and the files it leaves, and how often a loop with a deadline
  goes round. The other processes act on the shared memory while the object waits for a message
  (\<open>p_others\<close>).
\<close>

section \<open>Outside the code\<close>

datatype nudge = NUDGE_DUMP_CURRENT_COVERAGE | NUDGE_RESET_COVERAGE

record multi_env = fed_env +
  u_cwd :: string
  u_port :: "nat \<Rightarrow> int"                                     \<comment> \<open>\<open>getFreeListeningPort\<close>\<close>
  u_drconfig :: "nat \<Rightarrow> string \<Rightarrow> int option"               \<comment> \<open>the exit status of DynamoRIO's tool\<close>
  u_debugged :: "nat \<Rightarrow> target_start \<Rightarrow> bool"               \<comment> \<open>the thread debugs the target in time\<close>
  u_output :: "target_start \<Rightarrow> nat \<Rightarrow> DebugExecutionOutput"  \<comment> \<open>the output of the thread\<close>
  u_exit :: "target_start \<Rightarrow> nat \<Rightarrow> int"
  u_pid :: "target_start \<Rightarrow> nat \<Rightarrow> nat"
  u_announced :: "nat \<Rightarrow> nat option \<times> nat option"           \<comment> \<open>the numbers that come over DynamoRIO's pipe in time\<close>
  u_nudge :: "nat \<Rightarrow> nudge \<Rightarrow> int"                          \<comment> \<open>the status of a nudge, 0 for success\<close>
  u_answer :: "nat \<Rightarrow> char option"                           \<comment> \<open>a byte from DynamoRIO's pipe in time\<close>
  u_in_time :: "nat \<Rightarrow> bool"                                 \<comment> \<open>the deadline has not passed\<close>
  u_rounds :: "nat \<Rightarrow> nat"                                   \<comment> \<open>the rounds of a loop before its deadline\<close>
  u_logs :: "nat \<Rightarrow> (string \<times> bytes) list"                  \<comment> \<open>log files that DynamoRIO writes\<close>

definition write_logs :: "multi_env \<Rightarrow> string \<Rightarrow> agent \<Rightarrow> agent" where
  "write_logs M dir a = (next_tick a)\<lparr>files :=
     fold (\<lambda>(n, bs) f. f(dir @ pathSeperator @ n @ ''.log'' \<mapsto> bs)) (u_logs M (tick a)) (files a)\<rparr>"

section \<open>Log files\<close>

definition pad0 :: "nat \<Rightarrow> string \<Rightarrow> string" where
  "pad0 n s = replicate (n - length s) (CHR ''0'') @ s"

definition getMultiDrCovOutputFile :: "multi_env \<Rightarrow> executor_base \<Rightarrow> multi \<Rightarrow> int \<Rightarrow> agent \<Rightarrow> string" where
  "getMultiDrCovOutputFile M b st iterationNumMod2 a =
     (let targetFileEnd = ''.'' @ pad0 5 (to_string (m_targetProcessID st)) @ ''.'' @
            pad0 4 (int_to_string iterationNumMod2) @ ''.proc.log''
      in case find (\<lambda>p. stringHasEnding p targetFileEnd) (d_listing (u_dynrio M) a (x_testcaseDir b)) of
           None \<Rightarrow> [] | Some p \<Rightarrow> p)"

section \<open>Starting target and feeder\<close>

definition drconfig_reg :: "multi_env \<Rightarrow> executor_base \<Rightarrow> bool \<Rightarrow> string \<Rightarrow> string \<Rightarrow> string" where
  "drconfig_reg M b target_forks procName dynrioPipeName =
     (let q = [CHR 0x22]; dynrioPath = u_cwd M @ ''/dynamorio'' in
      ''dynamorio/bin64/drconfig -reg '' @ procName @ '' -root '' @ q @ dynrioPath @ q @
      '' -ops '' @ q @ ''-no_follow_children'' @ q @ '' -ops '' @ q @ ''-nop_initial_bblock'' @ q @ '' -c '' @
      q @ dynrioPath @ ''/clients/lib64/release/libdrcovMulti.so'' @ q @ '' '' @
      q @ ''-dump_binary'' @ q @ '' '' @ q @ ''-logdir'' @ q @ '' '' @ q @ x_testcaseDir b @ q @
      (if target_forks then '' '' @ q @ ''-fluffi_fork'' @ q else []) @
      '' '' @ q @ ''-fluffi_pipe'' @ q @ '' '' @ q @ dynrioPipeName @ q)"

definition setDynamoRioRegistration ::
    "multi_env \<Rightarrow> executor_base \<Rightarrow> bool \<Rightarrow> bool \<Rightarrow> string \<Rightarrow> agent \<Rightarrow> bool \<times> agent" where
  "setDynamoRioRegistration M b target_forks active dynrioPipeName a =
     (case d_wordexp (u_dynrio M) (harmless (m_targetCMDline b)) of
        None \<Rightarrow> (False, a)
      | Some [] \<Rightarrow> (False, a)
      | Some (w # _) \<Rightarrow>
          let procName = snd (splitPathIntoDirectoryAndFileName w);
              command = (if active then drconfig_reg M b target_forks procName dynrioPipeName
                         else ''dynamorio/bin64/drconfig -unreg '' @ procName)
          in (u_drconfig M (tick a) command = Some 0, next_tick a))"

text \<open>The old target is killed; the first log file of the new one must not exist.\<close>

definition clear_logs :: "env \<Rightarrow> multi_env \<Rightarrow> executor_base \<Rightarrow> bool \<Rightarrow> multi \<Rightarrow> agent \<Rightarrow> bool \<times> multi \<times> agent" where
  "clear_logs E M b use_dyn_rio st a =
     (let st = st\<lparr>m_executionsSinceLastRestart := 0\<rparr>;
          a = collectNow (markAllFilesOfTypeInPathForDeletion
            (entries_of (u_dynrio M) (x_testcaseDir b) a) ''.log'' a)
      in if \<not> use_dyn_rio then (True, st, a)
         else let st = st\<lparr>m_iterationNumMod2 := 0\<rparr>;
                  log = getMultiDrCovOutputFile M b st 0 a;
                  a = wait_for_deletion E (u_rounds M (tick a)) log (next_tick a)
              in (\<not> file_exists log a, st, a))"

text \<open>\<open>None\<close> would be an endless replacement.\<close>

definition replacements :: "multi_env \<Rightarrow> executor_base \<Rightarrow> agent \<Rightarrow> (string \<times> agent) option" where
  "replacements M b a = do {
     (s, a) \<leftarrow> (if str_find (m_targetCMDline b) ''<RANDOM_SHAREDMEM>'' 0 \<noteq> None
       then map_option (\<lambda>s. (s, next_tick a)) (replaceAll (m_targetCMDline b) ''<RANDOM_SHAREDMEM>''
         (''/FLUFFI_SharedMem_'' @ u_guid M (tick a)))
       else Some (m_targetCMDline b, a));
     if str_find s ''<RANDOM_PORT>'' 0 \<noteq> None
     then map_option (\<lambda>s. (s, next_tick a)) (replaceAll s ''<RANDOM_PORT>'' (int_to_string (u_port M (tick a))))
     else Some (s, a)
   }"

definition open_dynrio_pipe :: "multi_env \<Rightarrow> multi \<Rightarrow> agent \<Rightarrow> bool \<times> multi \<times> agent" where
  "open_dynrio_pipe M st a =
     (let name = ''/tmp/drcovMulti_'' @ u_guid M (tick a); a = next_tick a in
      if \<not> u_pipe_ok M (tick a) then (False, st\<lparr>m_dynrioPipeName := []\<rparr>, next_tick a)
      else let a = next_tick a in
      if \<not> u_pipe_ok M (tick a) then (False, st\<lparr>m_dynrioPipeName := []\<rparr>, next_tick a)
      else (True, st\<lparr>m_dynrioPipeName := name\<rparr>, next_tick a))"

definition drrun_multi :: "executor_base \<Rightarrow> string \<Rightarrow> string \<Rightarrow> string" where
  "drrun_multi b dynrioPipeName cmdline =
     drrun @ '' -v -no_follow_children -t drcovMulti -dump_binary -logdir '' @ [CHR 0x22] @ x_testcaseDir b @ [CHR 0x22] @
     '' -fluffi_pipe '' @ dynrioPipeName @ '' -- '' @ cmdline"

text \<open>DynamoRIO sends the number of the process and its own over the pipe.\<close>

definition waitForDynRioInitialization :: "multi_env \<Rightarrow> multi \<Rightarrow> agent \<Rightarrow> bool \<times> multi \<times> agent" where
  "waitForDynRioInitialization M st a =
     (case u_announced M (tick a) of
        (None, _) \<Rightarrow> (False, st, next_tick a)
      | (Some pid, None) \<Rightarrow> (False, st\<lparr>m_targetProcessID := pid\<rparr>, next_tick a)
      | (Some pid, Some client) \<Rightarrow> (True, st\<lparr>m_targetProcessID := pid, m_dynrio_clientID := client\<rparr>, next_tick a))"

text \<open>The thread that debugs the target is started; it then has to debug in time, and DynamoRIO to be ready.\<close>

definition launch_target :: "multi_env \<Rightarrow> executor_base \<Rightarrow> bool \<Rightarrow> target_start \<Rightarrow> multi \<Rightarrow> agent \<Rightarrow> bool \<times> multi \<times> agent" where
  "launch_target M b use_dyn_rio t st a =
     (let st = st\<lparr>m_debuggeeProcess := Some t\<rparr> in
      if \<not> u_debugged M (tick a) t then (False, st, next_tick a)
      else let a = write_logs M (x_testcaseDir b) (next_tick a) in
      if \<not> use_dyn_rio then (True, st\<lparr>m_targetProcessID := u_pid M t (tick a)\<rparr>, next_tick a)
      else let (initialized, st, a) = waitForDynRioInitialization M st a in
      if \<not> initialized then (False, st, a)
      else if ts_attachInsteadOfStart t \<and> m_targetProcessID st \<noteq> u_pid M t (tick a) then (False, st, next_tick a)
      else (True, st, next_tick a))"

definition target_of :: "executor_base \<Rightarrow> bool \<Rightarrow> string \<Rightarrow> bool \<Rightarrow> string \<Rightarrow> target_start" where
  "target_of b fatal starter_cmdline use_dyn_rio commandline =
     \<lparr>ts_commandline = commandline, ts_suppress = m_suppressChildOutput b,
      ts_additionalEnvParam = m_additionalEnvParam b, ts_attachInsteadOfStart = (starter_cmdline \<noteq> []),
      ts_doPostMortemAnalysis = \<not> use_dyn_rio, ts_treatAnyAccessViolationAsFatal = fatal\<rparr>"

definition start_target ::
    "multi_env \<Rightarrow> executor_base \<Rightarrow> bool \<Rightarrow> string \<Rightarrow> bool \<Rightarrow> bool \<Rightarrow> multi \<Rightarrow> agent \<Rightarrow> (bool \<times> multi \<times> agent) option" where
  "start_target M b fatal starter_cmdline target_forks use_dyn_rio st a = do {
     (s, a) \<leftarrow> replacements M b a;
     let attach = (starter_cmdline \<noteq> []);
     let (piped, st, a) = (if use_dyn_rio then open_dynrio_pipe M st a else (True, st, a));
     let s = (if use_dyn_rio \<and> \<not> attach then drrun_multi b (m_dynrioPipeName st) s else s);
     if \<not> piped then Some (False, st, a)
     else do {
       let (registered, a) = (if attach then setDynamoRioRegistration M b target_forks use_dyn_rio (m_dynrioPipeName st) a
         else (True, a));
       if \<not> registered then Some (False, st, a)
       else if attach \<and> \<not> u_starter M (tick a) starter_cmdline then Some (False, st, next_tick a)
       else Some (launch_target M b use_dyn_rio (target_of b fatal starter_cmdline use_dyn_rio s) st
         (if attach then next_tick a else a))
     }
   }"

definition attemptStartTargetAndFeeder ::
    "env \<Rightarrow> multi_env \<Rightarrow> executor_base \<Rightarrow> bool \<Rightarrow> string \<Rightarrow> string \<Rightarrow> bool \<Rightarrow> bool \<Rightarrow> multi \<Rightarrow> agent \<Rightarrow>
     (bool \<times> multi \<times> agent) option" where
  "attemptStartTargetAndFeeder E M b fatal feeder_cmdline starter_cmdline target_forks use_dyn_rio st a = do {
     let (cleared, st, a) = clear_logs E M b use_dyn_rio st a;
     if \<not> cleared then Some (False, st, a)
     else do {
       (started, st, a) \<leftarrow> start_target M b fatal starter_cmdline target_forks use_dyn_rio st a;
       if \<not> started then Some (False, st, a) else start_feeder M feeder_cmdline (int (m_targetProcessID st)) st a
     }
   }"

section \<open>Running a testcase\<close>

text \<open>Each step of a run yields whether it goes on; the state of the object changes only in the channel.\<close>

definition nudge_and_wait ::
    "multi_env \<Rightarrow> executor_base \<Rightarrow> multi \<Rightarrow> nudge \<Rightarrow> char \<Rightarrow> string \<Rightarrow> string \<Rightarrow> DebugExecutionOutput \<Rightarrow> agent \<Rightarrow>
     bool \<times> DebugExecutionOutput \<times> agent" where
  "nudge_and_wait M b st n expected failed problem out a =
     (let nudgePIDResult = u_nudge M (tick a) n; a = write_logs M (x_testcaseDir b) a in
      if nudgePIDResult \<noteq> 0
      then (False, fail_with (failed @ int_to_string nudgePIDResult @ '' PID:'' @ to_string (m_targetProcessID st)) out, a)
      else let resp = opt_or (CHR 0x00) (u_answer M (tick a)); a = next_tick a in
      if resp \<noteq> expected
      then (False, fail_with (problem @ (if u_in_time M (tick a) then ''no timeout'' else ''timeout'')) out, next_tick a)
      else (True, out, a))"

definition before_testcase ::
    "env \<Rightarrow> multi_env \<Rightarrow> executor_base \<Rightarrow> multi \<Rightarrow> DebugExecutionOutput \<Rightarrow> agent \<Rightarrow> bool \<times> DebugExecutionOutput \<times> agent" where
  "before_testcase E M b st exResult a =
     (let next_log = getMultiDrCovOutputFile M b st ((m_iterationNumMod2 st + 1) mod 2) a;
          a = wait_for_deletion E (u_rounds M (tick a)) next_log (next_tick a)
      in if file_exists next_log a
         then (False, fail_with ''Could not delete the next drcov file in time!'' exResult, a)
         else nudge_and_wait M b st NUDGE_RESET_COVERAGE (CHR ''R'') ''dr_nudge_pid failed (1):''
           ''Problem while communicating with dynamoRio (1)!'' exResult a)"

definition parse_log ::
    "env \<Rightarrow> multi_env \<Rightarrow> executor_base \<Rightarrow> multi \<Rightarrow> DebugExecutionOutput \<Rightarrow> agent \<Rightarrow>
     (bool \<times> DebugExecutionOutput \<times> agent) option" where
  "parse_log E M b st exResult a =
     (let drcovLogFile = getMultiDrCovOutputFile M b st (m_iterationNumMod2 st) a in
      if drcovLogFile = [] then Some (False, fail_with '' Could not find DrCov File!'' exResult, a)
      else let drcovOutput = readAllBytesFromFile drcovLogFile a;
               a = delete_log E drcovLogFile a
           in if length drcovOutput = 0 then Some (False, fail_with ''drcovOutput is of length 0!'' exResult, a)
              else map_option (\<lambda>out. (True, out, a))
                (copyCoveredModulesToDebugExecutionOutput (u_dynrio M) drcovOutput (m_modulesToCover b) exResult))"

definition after_done ::
    "env \<Rightarrow> multi_env \<Rightarrow> executor_base \<Rightarrow> bool \<Rightarrow> multi \<Rightarrow> DebugExecutionOutput \<Rightarrow> agent \<Rightarrow>
     (bool \<times> DebugExecutionOutput \<times> agent) option" where
  "after_done E M b use_dyn_rio st exResult a =
     (if \<not> use_dyn_rio then Some (True, executed_normally exResult, a)
      else let (dumped, out, a) = nudge_and_wait M b st NUDGE_DUMP_CURRENT_COVERAGE (CHR ''D'') ''dr_nudge_pid failed (2)''
             ''Problem while communicating with dynamoRio (2)!'' exResult a
           in if \<not> dumped then Some (False, out, a)
              else map_option (\<lambda>(ok, out, a). (ok, if ok then executed_normally out else out, a)) (parse_log E M b st out a))"

text \<open>\<open>None\<close>: the object has no channel, the wait does not end, or the coverage file ends the process.\<close>

definition runSingleTestcase ::
    "env \<Rightarrow> multi_env \<Rightarrow> executor_base \<Rightarrow> bool \<Rightarrow> FluffiTestcaseID \<Rightarrow> DebugExecutionOutput \<Rightarrow> multi \<Rightarrow> agent \<Rightarrow>
     (bool \<times> DebugExecutionOutput \<times> multi \<times> agent) option" where
  "runSingleTestcase E M b use_dyn_rio testcaseId exResult st a = do {
     let (ready, out, a) = (if use_dyn_rio then before_testcase E M b st exResult a else (True, exResult, a));
     if \<not> ready then Some (False, out, st, a)
     else do {
       (ok, goes_on, out, st) \<leftarrow> tell_feeder M b testcaseId out st;
       if \<not> goes_on then Some (ok, out, st, a)
       else map_option (\<lambda>(ok, out, a). (ok, out, st, a)) (after_done E M b use_dyn_rio st out a)
     }
   }"

section \<open>execute\<close>

text \<open>What the object sees of the thread when it looks.\<close>

definition target_output :: "multi_env \<Rightarrow> multi \<Rightarrow> agent \<Rightarrow> DebugExecutionOutput" where
  "target_output M st a = (case m_debuggeeProcess st of None \<Rightarrow> new_output | Some t \<Rightarrow> u_output M t (tick a))"

definition target_exit :: "multi_env \<Rightarrow> multi \<Rightarrow> agent \<Rightarrow> int" where
  "target_exit M st a = (case m_debuggeeProcess st of None \<Rightarrow> - 1 | Some t \<Rightarrow> u_exit M t (tick a))"

text \<open>The outcome of the second run, without DynamoRIO.\<close>

definition reproduced :: "multi_env \<Rightarrow> PROCESS_TERMINATION_TYPE \<Rightarrow> multi \<Rightarrow> agent \<Rightarrow> DebugExecutionOutput \<times> agent" where
  "reproduced M originalCrashType st a =
     (if m_terminationType (target_output M st a) = CLEAN \<and> target_exit M st a \<noteq> - 1
      then (special_crash EXCEPTION_OTHER ''The request reproducibly causes the target to terminate!'' ''TARGET_TERMINATED'',
        next_tick a)
      else let a = next_tick a in
      if m_terminationType (target_output M st a) \<in> {CLEAN, TIMEOUT, ERR}
      then (special_crash originalCrashType ''The found exception could not be reproduced!'' ''NOT_REPRODUCIBLE'', next_tick a)
      else (target_output M st (next_tick a), next_tick (next_tick a)))"

definition reproduce ::
    "env \<Rightarrow> multi_env \<Rightarrow> executor_base \<Rightarrow> bool \<Rightarrow> string \<Rightarrow> string \<Rightarrow> bool \<Rightarrow> FluffiTestcaseID \<Rightarrow> multi \<Rightarrow> agent \<Rightarrow>
     (DebugExecutionOutput \<times> multi \<times> agent) option" where
  "reproduce E M b fatal feeder_cmdline starter_cmdline target_forks testcaseId st a = do {
     let originalCrashType = m_terminationType (target_output M st a);
     (started, st, a) \<leftarrow> attemptStartTargetAndFeeder E M b fatal feeder_cmdline starter_cmdline target_forks False st
       (next_tick a);
     let st = st\<lparr>m_target_and_feeder_okay := started\<rparr>;
     if \<not> started
     then Some (fail_with ''Either target or feeder coould not be started to reproduce the exception!'' new_output, st, a)
     else do {
       (_, second, st, a) \<leftarrow> runSingleTestcase E M b False testcaseId new_output st a;
       a \<leftarrow> (if m_terminationType second \<noteq> CLEAN then waitForDebuggerToTerminate M a else Some a);
       let (out, a) = reproduced M originalCrashType st a;
       Some (out, not_okay st, a)
     }
   }"

definition after_run ::
    "env \<Rightarrow> multi_env \<Rightarrow> executor_base \<Rightarrow> bool \<Rightarrow> string \<Rightarrow> string \<Rightarrow> bool \<Rightarrow> FluffiTestcaseID \<Rightarrow> DebugExecutionOutput \<Rightarrow>
     multi \<Rightarrow> agent \<Rightarrow> (DebugExecutionOutput \<times> multi \<times> agent) option" where
  "after_run E M b fatal feeder_cmdline starter_cmdline target_forks testcaseId from_feeder st a =
     (let typ = m_terminationType (target_output M st a) in
      if typ = CLEAN \<and> target_exit M st a = - 1
      then Some (from_feeder,
        if m_terminationType from_feeder = CLEAN
        then st\<lparr>m_iterationNumMod2 := (m_iterationNumMod2 st + 1) mod 2\<rparr> else not_okay st, next_tick a)
      else if typ \<in> {CLEAN, EXCEPTION_OTHER, EXCEPTION_ACCESSVIOLATION}
      then reproduce E M b fatal feeder_cmdline starter_cmdline target_forks testcaseId st (next_tick a)
      else Some (target_output M st (next_tick a), not_okay st, next_tick (next_tick a)))"

definition DynRioMulti_execute ::
    "env \<Rightarrow> multi_env \<Rightarrow> executor_base \<Rightarrow> bool \<Rightarrow> string \<Rightarrow> string \<Rightarrow> bool \<Rightarrow> int \<Rightarrow> FluffiTestcaseID \<Rightarrow> multi \<Rightarrow> agent \<Rightarrow>
     (DebugExecutionOutput \<times> multi \<times> agent) option" where
  "DynRioMulti_execute E M b fatal feeder_cmdline starter_cmdline target_forks restart testcaseId st a = do {
     let st = count_execution restart st;
     (okay, st, a) \<leftarrow> (if m_target_and_feeder_okay st then Some (True, st, a)
       else attemptStartTargetAndFeeder E M b fatal feeder_cmdline starter_cmdline target_forks True st a);
     let st = st\<lparr>m_target_and_feeder_okay := okay\<rparr>;
     if \<not> okay then Some (fail_with ''Either target or feeder could not be started!'' new_output, st, a)
     else do {
       (okay, from_feeder, st, a) \<leftarrow> runSingleTestcase E M b True testcaseId new_output st a;
       after_run E M b fatal feeder_cmdline starter_cmdline target_forks testcaseId from_feeder
         (st\<lparr>m_target_and_feeder_okay := okay\<rparr>) a
     }
   }"

section \<open>Set-up check and construction\<close>

definition DynRioMulti_isSetupFunctionable :: "multi_env \<Rightarrow> executor_base \<Rightarrow> string \<Rightarrow> string \<Rightarrow> bool" where
  "DynRioMulti_isSetupFunctionable M b feeder_cmdline starter_cmdline =
     (if \<not> command_exists M (m_targetCMDline b) then False
      else if \<not> command_exists M feeder_cmdline then False
      else if starter_cmdline \<noteq> [] \<and> \<not> command_exists M starter_cmdline then False
      else if \<not> d_exists (u_dynrio M) (x_testcaseDir b) then False
      else if \<not> d_exists (u_dynrio M) drrun then False
      else if \<not> d_exists (u_dynrio M) ''dynamorio/bin64/drconfig'' then False
      else if \<not> d_exists (u_dynrio M) ''dynamorio/clients/lib64/release/libdrcovMulti.so'' then False
      else starter_cmdline = [] \<or> d_exists (u_dynrio M) ''dynamorio/lib64/release/libdrpreload.so'')"

definition DynRioMulti_construct :: "multi_env \<Rightarrow> executor_base \<Rightarrow> string \<Rightarrow> bool \<Rightarrow> agent \<Rightarrow> agent" where
  "DynRioMulti_construct M b starter_cmdline target_forks a =
     (if starter_cmdline \<noteq> [] then snd (setDynamoRioRegistration M b target_forks False [] a) else a)"

section \<open>What a run leaves alone\<close>

lemma write_logs_leaves: "leaves_alone is_log a (write_logs M dir a)"
proof -
  have "fold (\<lambda>(n, bs) f. f(dir @ pathSeperator @ n @ ''.log'' \<mapsto> bs)) ls f p = f p" if "\<not> is_log p" for ls f p
  proof (induction ls arbitrary: f)
    case (Cons l ls)
    have "is_log (dir @ pathSeperator @ fst l @ ''.log'')"
      using extension_log [of "dir @ pathSeperator @ fst l"] by (simp add: is_log_def)
    then have "p \<noteq> dir @ pathSeperator @ fst l @ ''.log''" using that by auto
    then show ?case using Cons by (simp add: split_beta)
  qed simp
  then show ?thesis unfolding leaves_alone_def write_logs_def by auto
qed

lemma getMultiDrCovOutputFile_log:
  "getMultiDrCovOutputFile M b st i a = [] \<or> is_log (getMultiDrCovOutputFile M b st i a)"
proof -
  have "is_log p" if "stringHasEnding p (x @ ''.proc.log'')" for p x
  proof -
    from that obtain q where "p = (q @ x @ ''.proc'') @ ''.log''" by (auto simp: stringHasEnding_iff)
    then show ?thesis using extension_log [of "q @ x @ ''.proc''"] by (simp add: is_log_def)
  qed
  from this [of _ "''.'' @ pad0 5 (to_string (m_targetProcessID st)) @ ''.'' @ pad0 4 (int_to_string i)"]
  show ?thesis by (auto simp: getMultiDrCovOutputFile_def Let_def find_Some_iff split: option.splits)
qed

lemma mark_logs_leaves: "leaves_alone is_log a (collectNow (markAllFilesOfTypeInPathForDeletion (entries_of D dir a) ''.log'' a))"
proof -
  have "leaves_alone is_log a (markAllFilesOfTypeInPathForDeletion (entries_of D dir a) ''.log'' a)"
    by (rule mark_all_leaves) (auto simp: entries_of_def is_log_def)
  then show ?thesis by (simp add: leaves_alone_def collectNow_def)
qed

lemma clear_logs_leaves:
  "clear_logs E M b use st a = (ok, st', a') \<Longrightarrow> leaves_alone is_log a a'"
  using mark_logs_leaves [of a "u_dynrio M" "x_testcaseDir b"]
  by (auto simp: clear_logs_def Let_def split: if_splits intro: leaves_alone_trans [OF _ wait_for_deletion_leaves])

lemma setDynamoRioRegistration_leaves: "leaves_alone S a (snd (setDynamoRioRegistration M b forks active pipe a))"
  by (auto simp: setDynamoRioRegistration_def Let_def leaves_alone_def split: option.split list.split)

lemma replacements_leaves: "replacements M b a = Some (s, a') \<Longrightarrow> leaves_alone S a a'"
  by (auto simp: replacements_def leaves_alone_def bind_eq_Some_conv split: if_splits)

lemma open_dynrio_pipe_leaves: "open_dynrio_pipe M st a = (ok, st', a') \<Longrightarrow> leaves_alone S a a'"
  by (auto simp: open_dynrio_pipe_def Let_def leaves_alone_def split: if_splits)

lemma waitForDynRioInitialization_leaves: "waitForDynRioInitialization M st a = (ok, st', a') \<Longrightarrow> leaves_alone S a a'"
  by (auto simp: waitForDynRioInitialization_def leaves_alone_def split: prod.splits option.splits)

lemma nudge_leaves: "nudge_and_wait M b st n e f p out a = (ok, out', a') \<Longrightarrow> leaves_alone is_log a a'"
  using write_logs_leaves [of a M "x_testcaseDir b"]
  by (auto simp: nudge_and_wait_def Let_def split: if_splits)

lemma before_testcase_leaves:
  assumes "before_testcase E M b st out a = (ok, out', a')" shows "leaves_alone is_log a a'"
proof -
  let ?a = "wait_for_deletion E (u_rounds M (tick a)) (getMultiDrCovOutputFile M b st ((m_iterationNumMod2 st + 1) mod 2) a)
    (next_tick a)"
  have "leaves_alone is_log a ?a"
    using wait_for_deletion_leaves [of is_log "next_tick a"] by simp
  with assms show ?thesis
    by (auto simp: before_testcase_def Let_def split: if_splits intro: leaves_alone_trans dest!: nudge_leaves)
qed

lemma parse_log_leaves: "parse_log E M b st out a = Some (ok, out', a') \<Longrightarrow> leaves_alone is_log a a'"
  using getMultiDrCovOutputFile_log [of M b st "m_iterationNumMod2 st" a]
  by (auto simp: parse_log_def Let_def delete_log_leaves split: if_splits)

lemma after_done_leaves:
  assumes "after_done E M b use st out a = Some (ok, out', a')" shows "leaves_alone is_log a a'"
proof (cases use)
  case True
  obtain d o1 a1 where n: "nudge_and_wait M b st NUDGE_DUMP_CURRENT_COVERAGE (CHR ''D'') ''dr_nudge_pid failed (2)''
      ''Problem while communicating with dynamoRio (2)!'' out a = (d, o1, a1)"
    by (cases "nudge_and_wait M b st NUDGE_DUMP_CURRENT_COVERAGE (CHR ''D'') ''dr_nudge_pid failed (2)''
      ''Problem while communicating with dynamoRio (2)!'' out a")
  then show ?thesis using assms True nudge_leaves [OF n]
    by (auto simp: after_done_def split: if_splits intro: leaves_alone_trans dest!: parse_log_leaves)
qed (use assms in \<open>simp add: after_done_def\<close>)

text \<open>The cases of a run.\<close>

lemma runSingleTestcase_cases:
  assumes "runSingleTestcase E M b use i out st a = Some (ok, out', st', a')"
    and "(if use then before_testcase E M b st out a else (True, out, a)) = (ready, o1, a1)"
  obtains (not_ready) "\<not> ready" "ok = False" "out' = o1" "st' = st" "a' = a1"
  | (ended) "ready" "tell_feeder M b i o1 st = Some (ok, False, out', st')" "a' = a1"
  | (finished) o2 where "ready" "tell_feeder M b i o1 st = Some (True, True, o2, st')"
      "after_done E M b use st' o2 a1 = Some (ok, out', a')"
proof (cases ready)
  case False
  with assms show thesis by (intro not_ready) (auto simp: runSingleTestcase_def)
next
  case True
  note u = assms(1) [unfolded runSingleTestcase_def assms(2) Let_def prod.case]
  from u True obtain k goes_on o2 st2 where t: "tell_feeder M b i o1 st = Some (k, goes_on, o2, st2)"
    by (auto simp: bind_eq_Some_conv)
  show thesis
  proof (cases goes_on)
    case False
    with u True t show thesis by (intro ended) auto
  next
    case go: True
    with u True t tell_feeder_goes_on [OF t] show thesis by (intro finished [of o2]) auto
  qed
qed

lemma runSingleTestcase_leaves:
  assumes "runSingleTestcase E M b use i out st a = Some (ok, out', st', a')" shows "leaves_alone is_log a a'"
proof -
  obtain r o1 a1 where b: "(if use then before_testcase E M b st out a else (True, out, a)) = (r, o1, a1)"
    by (cases "if use then before_testcase E M b st out a else (True, out, a)")
  then have l: "leaves_alone is_log a a1" by (auto split: if_splits dest: before_testcase_leaves)
  from assms b show ?thesis
    by (cases rule: runSingleTestcase_cases) (use l in \<open>auto intro: leaves_alone_trans dest: after_done_leaves\<close>)
qed

lemma launch_target_leaves:
  assumes "launch_target M b use t st a = (ok, st', a')" shows "leaves_alone is_log a a'"
proof -
  let ?a = "write_logs M (x_testcaseDir b) (next_tick a)"
  have l: "leaves_alone is_log a ?a" using write_logs_leaves [of "next_tick a" M "x_testcaseDir b"] by simp
  obtain k st1 a1 where w: "waitForDynRioInitialization M (st\<lparr>m_debuggeeProcess := Some t\<rparr>) ?a = (k, st1, a1)"
    by (cases "waitForDynRioInitialization M (st\<lparr>m_debuggeeProcess := Some t\<rparr>) ?a")
  note l1 = leaves_alone_trans [OF l waitForDynRioInitialization_leaves [OF w]]
  show ?thesis using assms l l1 w by (auto simp: launch_target_def Let_def split: if_splits)
qed

lemma start_target_leaves:
  assumes "start_target M b fatal starter forks use st a = Some (ok, st', a')" shows "leaves_alone is_log a a'"
proof -
  from assms obtain s a1 where s: "replacements M b a = Some (s, a1)" by (auto simp: start_target_def bind_eq_Some_conv)
  obtain p st2 a2 where p: "(if use then open_dynrio_pipe M st a1 else (True, st, a1)) = (p, st2, a2)"
    by (cases "if use then open_dynrio_pipe M st a1 else (True, st, a1)")
  obtain g a3 where g: "(if starter \<noteq> [] then setDynamoRioRegistration M b forks use (m_dynrioPipeName st2) a2
      else (True, a2)) = (g, a3)"
    by (cases "if starter \<noteq> [] then setDynamoRioRegistration M b forks use (m_dynrioPipeName st2) a2 else (True, a2)")
  have l2: "leaves_alone is_log a a2"
    using replacements_leaves [OF s] p by (auto split: if_splits dest: open_dynrio_pipe_leaves intro: leaves_alone_trans)
  have "leaves_alone is_log a2 a3"
    using g setDynamoRioRegistration_leaves [of is_log a2 M b forks use "m_dynrioPipeName st2"] by (auto split: if_splits)
  with l2 have l3: "leaves_alone is_log a a3" by (rule leaves_alone_trans)
  let ?t = "target_of b fatal starter use (if use \<and> \<not> starter \<noteq> [] then drrun_multi b (m_dynrioPipeName st2) s else s)"
  have l4: "leaves_alone is_log a x" if "launch_target M b use ?t st2 (if starter \<noteq> [] then next_tick a3 else a3) = (o', st', x)"
    for o' st' x
    using launch_target_leaves [OF that] l3 by (cases "starter = []") (auto intro: leaves_alone_trans)
  note u = assms [unfolded start_target_def s Let_def Option.bind.bind_lunit prod.case p g]
  show ?thesis
    using u l2 l3 l4 by (auto split: if_splits)
qed

lemma attempt_leaves:
  assumes "attemptStartTargetAndFeeder E M b fatal f s forks use st a = Some (ok, st', a')"
  shows "leaves_alone is_log a a'"
proof -
  obtain c st1 a1 where c: "clear_logs E M b use st a = (c, st1, a1)" by (cases "clear_logs E M b use st a")
  note l = clear_logs_leaves [OF c]
  note u = assms [unfolded attemptStartTargetAndFeeder_def c Let_def prod.case]
  show ?thesis
  proof (cases c)
    case False
    with u l show ?thesis by simp
  next
    case True
    with u obtain k st2 a2 where t: "start_target M b fatal s forks use st1 a1 = Some (k, st2, a2)"
      by (auto simp: bind_eq_Some_conv)
    have l2: "leaves_alone is_log a a2" by (rule leaves_alone_trans [OF l start_target_leaves [OF t]])
    show ?thesis using u True t l2 by (auto split: if_splits intro: leaves_alone_trans dest: start_feeder_leaves)
  qed
qed

lemma reproduce_leaves:
  assumes "reproduce E M b fatal f s forks i st a = Some (out, st', a')" shows "leaves_alone is_log a a'"
proof -
  from assms obtain k st1 a1 where t: "attemptStartTargetAndFeeder E M b fatal f s forks False st (next_tick a) = Some (k, st1, a1)"
    by (auto simp: reproduce_def Let_def bind_eq_Some_conv)
  have l: "leaves_alone is_log a a1" using attempt_leaves [OF t] by simp
  note u = assms [unfolded reproduce_def Let_def t Option.bind.bind_lunit prod.case]
  show ?thesis
  proof (cases k)
    case False
    with u l show ?thesis by simp
  next
    case True
    with u obtain g second st2 a2 where r: "runSingleTestcase E M b False i new_output
        (st1\<lparr>m_target_and_feeder_okay := k\<rparr>) a1 = Some (g, second, st2, a2)" by (auto simp: bind_eq_Some_conv)
    have l2: "leaves_alone is_log a a2" by (rule leaves_alone_trans [OF l runSingleTestcase_leaves [OF r]])
    from u True r obtain a3 where w: "(if m_terminationType second \<noteq> CLEAN then waitForDebuggerToTerminate M a2 else Some a2) = Some a3"
      by (auto simp: bind_eq_Some_conv)
    then have "leaves_alone is_log a a3" using l2 by (auto simp: waitForDebuggerToTerminate_def split: if_splits)
    moreover have "a' = snd (reproduced M (m_terminationType (target_output M st a)) st2 a3)"
      using u True r w by (auto simp: split_beta)
    ultimately show ?thesis by (simp add: reproduced_def Let_def)
  qed
qed

lemma DynRioMulti_execute_leaves:
  assumes "DynRioMulti_execute E M b fatal f s forks n i st a = Some (out, st', a')" shows "leaves_alone is_log a a'"
proof -
  let ?st = "count_execution n st"
  from assms obtain k st1 a1 where t: "(if m_target_and_feeder_okay ?st then Some (True, ?st, a)
      else attemptStartTargetAndFeeder E M b fatal f s forks True ?st a) = Some (k, st1, a1)"
    by (auto simp: DynRioMulti_execute_def Let_def bind_eq_Some_conv)
  then have l: "leaves_alone is_log a a1" by (auto split: if_splits dest: attempt_leaves)
  note u = assms [unfolded DynRioMulti_execute_def Let_def t Option.bind.bind_lunit prod.case]
  show ?thesis
  proof (cases k)
    case False
    with u l show ?thesis by simp
  next
    case True
    with u obtain g o2 st2 a2 where r: "runSingleTestcase E M b True i new_output
        (st1\<lparr>m_target_and_feeder_okay := k\<rparr>) a1 = Some (g, o2, st2, a2)"
      and w: "after_run E M b fatal f s forks i o2 (st2\<lparr>m_target_and_feeder_okay := g\<rparr>) a2 = Some (out, st', a')"
      by (auto simp: bind_eq_Some_conv)
    have l2: "leaves_alone is_log a a2" by (rule leaves_alone_trans [OF l runSingleTestcase_leaves [OF r]])
    have "leaves_alone is_log a2 a'" using w by (auto simp: after_run_def Let_def split: if_splits dest!: reproduce_leaves)
    with l2 show ?thesis by (rule leaves_alone_trans)
  qed
qed

end
