(* ===== verification/TRGdbText.thy ===== *)
theory TRGdbText
  imports TRQemu
begin

text \<open>
  The executor that drives a debugger, first part: the texts that GDB prints and those it is given
  (\<open>TestExecutorGDB.cpp\<close>: \<open>parseInfoFiles\<close>, \<open>getBaseAddressesForModules\<close>,
  \<open>getBaseAddressesAndSizes\<close>, \<open>getCrashRVA\<close>, \<open>generateEnableAllCommand\<close>, the table of
  breakpoints in \<open>gdbPrepareForDebug\<close>; \<open>GDBBreakpoint.cpp\<close>). As elsewhere \<open>exits\<close> is the end of
  the process, here by a number that cannot be read, or reading beyond the end of a container.
\<close>

section \<open>Numbers\<close>

text \<open>
  \<open>std::stoull(s, NULL, 16)\<close>, where \<open>long\<close> has 64 bits also \<open>std::stoul(s, NULL, 16)\<close>: the value has to be
  in the range before the sign is applied.
\<close>

definition stoull_hex :: "string \<Rightarrow> 64 word option" where
  "stoull_hex s = (case hex_number s of None \<Rightarrow> None | Some v \<Rightarrow> if \<bar>v\<bar> < 2 ^ 64 then Some (word_of_int v) else None)"

definition hex_text :: "'w::len word \<Rightarrow> string" where
  "hex_text w = to_hex (unat w)"

section \<open>The files of the target\<close>

text \<open>Start, end, name, segment and directory.\<close>

type_synonym tModuleInformation = "64 word \<times> 64 word \<times> string \<times> string \<times> string"

text \<open>The characters \<open>" \t\f\v\n\r"\<close> are cut off at both ends.\<close>

definition is_blank :: "char \<Rightarrow> bool" where
  "is_blank c \<longleftrightarrow> c \<in> {CHR '' '', CHR 0x09, CHR 0x0C, CHR 0x0B, CHR 0x0A, CHR 0x0D}"

definition trim :: "string \<Rightarrow> string" where
  "trim s = rev (dropWhile is_blank (rev (dropWhile is_blank s)))"

text \<open>The line that names the file of the process.\<close>

definition find_char :: "char \<Rightarrow> string \<Rightarrow> nat option" where
  "find_char c s = str_find s [c] 0"

definition process_file :: "string \<Rightarrow> (string \<times> string) option" where
  "process_file line =
     (case (find_char (CHR 0x60) line, find_char (CHR 0x27) line) of
        (Some start, Some stop) \<Rightarrow> Some (splitPathIntoDirectoryAndFileName
          (if start < stop then substr line (start + 1) (stop - start - 1) else drop (start + 1) line))
      | _ \<Rightarrow> None)"

text \<open>A line of the list; \<open>gives_up\<close>: it is not one of a segment.\<close>

definition module_entry :: "string \<times> string \<Rightarrow> string \<Rightarrow> tModuleInformation attempt" where
  "module_entry proc line =
     (let trimmedLine = trim line in
      if trimmedLine = [] then gives_up
      else case str_find trimmedLine ''is '' 0 of None \<Rightarrow> gives_up
      | Some isPos \<Rightarrow>
          let afterIs = drop (isPos + 3) trimmedLine;
              currentSegmentName = takeWhile (\<lambda>c. c \<noteq> CHR '' '') afterIs;
              (currentPath, currentName) = (case str_find afterIs ''in '' 0 of None \<Rightarrow> proc
                | Some inPos \<Rightarrow> splitPathIntoDirectoryAndFileName (drop (inPos + 3) afterIs));
              behind = (case find_char (CHR ''-'') trimmedLine of None \<Rightarrow> trimmedLine | Some j \<Rightarrow> drop (j + 1) trimmedLine)
          in case (stoull_hex trimmedLine, stoull_hex behind) of
               (Some currentStartAddress, Some currentEndAddress) \<Rightarrow>
                 ok_with (currentStartAddress, currentEndAddress, currentName, currentSegmentName, currentPath)
             | _ \<Rightarrow> exits)"

text \<open>The loop over the lines; \<open>None\<close>: the process exits.\<close>

fun info_lines :: "bool \<Rightarrow> string \<times> string \<Rightarrow> string list \<Rightarrow> tModuleInformation list option" where
  "info_lines reachedMainPart proc [] = Some []"
| "info_lines reachedMainPart proc (line # ls) =
     (if \<not> reachedMainPart then info_lines (substr line 0 5 = ''Local'') proc ls
      else if str_find line ''file type'' 0 \<noteq> None
      then info_lines True (case process_file line of None \<Rightarrow> proc | Some p \<Rightarrow> p) ls
      else case module_entry proc line of
        gives_up \<Rightarrow> info_lines True proc ls
      | exits \<Rightarrow> None
      | ok_with e \<Rightarrow> map_option (Cons e) (info_lines True proc ls))"

definition parseInfoFiles :: "string \<Rightarrow> tModuleInformation list option" where
  "parseInfoFiles infoFilesResp = info_lines False ([], []) (splitString infoFilesResp [CHR 0x0A])"

section \<open>Addresses of modules\<close>

type_synonym base_map = "(32 word \<times> 64 word) list"

text \<open>\<open>insert\<close> leaves an entry that is there alone, \<open>operator[]\<close> adds a zero where there is none.\<close>

definition add_base :: "32 word \<Rightarrow> 64 word \<Rightarrow> base_map \<Rightarrow> base_map" where
  "add_base k v m = (if map_of m k = None then m @ [(k, v)] else m)"

definition base_at :: "base_map \<Rightarrow> 32 word \<Rightarrow> 64 word" where
  "base_at m k = (case map_of m k of None \<Rightarrow> 0 | Some v \<Rightarrow> v)"

definition is_null_module :: "Module \<Rightarrow> bool" where
  "is_null_module m \<longleftrightarrow> m_modulename m \<in> {'''', ''NULL'', ''0''}"

fun segment_of :: "tModuleInformation \<Rightarrow> Module \<Rightarrow> bool" where
  "segment_of (start, stop, name, segment, path) m \<longleftrightarrow>
     m_modulename m = name @ ''/'' @ segment \<and> (m_modulepath m = ''*'' \<or> m_modulepath m = path)"

definition getBaseAddressesForModules :: "Module list \<Rightarrow> string \<Rightarrow> base_map option" where
  "getBaseAddressesForModules modulesToCover parseInfoOutput =
     (let nulls = fold (\<lambda>m. add_base (m_moduleid m) 0) (filter is_null_module modulesToCover) []
      in map_option (\<lambda>loadedFiles. fold (\<lambda>f bm. fold (\<lambda>m. add_base (m_moduleid m) (fst f))
             (filter (segment_of f) modulesToCover) bm) loadedFiles nulls)
           (parseInfoFiles parseInfoOutput))"

type_synonym tModuleAddressesAndSizes = "string \<times> 64 word \<times> 64 word"

definition getBaseAddressesAndSizes :: "string \<Rightarrow> tModuleAddressesAndSizes list option" where
  "getBaseAddressesAndSizes parseInfoOutput =
     map_option (map (\<lambda>(start, stop, name, segment, path). (name @ ''/'' @ segment, start, stop - start)))
       (parseInfoFiles parseInfoOutput)"

fun getCrashRVA :: "tModuleAddressesAndSizes list \<Rightarrow> 64 word \<Rightarrow> string" where
  "getCrashRVA [] signalAddress = ''unknown+0x'' @ hex8 signalAddress"
| "getCrashRVA ((name, base, len) # ms) signalAddress =
     (if base < signalAddress \<and> base + len > signalAddress then name @ ''+0x'' @ hex8 (signalAddress - base)
      else getCrashRVA ms signalAddress)"

section \<open>Breakpoints\<close>

record GDBBreakpoint =
  m_absoluteAdress :: "64 word"
  m_originalBytes :: "32 word"
  m_fbb :: FluffiBasicBlock
  m_isEnabled :: bool

text \<open>The map from addresses to breakpoints is the list of its values in the order of the addresses.\<close>

type_synonym breakpoints = "GDBBreakpoint list"

definition breakpoint_at :: "breakpoints \<Rightarrow> 64 word \<Rightarrow> GDBBreakpoint option" where
  "breakpoint_at bps addr = find (\<lambda>b. m_absoluteAdress b = addr) bps"

definition disable_at :: "64 word \<Rightarrow> breakpoints \<Rightarrow> breakpoints" where
  "disable_at addr = map (\<lambda>b. if m_absoluteAdress b = addr then b\<lparr>m_isEnabled := False\<rparr> else b)"

text \<open>What GDB calls a unit of one, two or four bytes.\<close>

definition c_type :: "int \<Rightarrow> string option" where
  "c_type bpInstrBytes =
     (if bpInstrBytes = 1 then Some ''unsigned char'' else if bpInstrBytes = 2 then Some ''unsigned short''
      else if bpInstrBytes = 4 then Some ''unsigned int'' else None)"

definition set_command :: "string \<Rightarrow> 64 word \<Rightarrow> 32 word \<Rightarrow> string" where
  "set_command ctype addr v = ''set {'' @ ctype @ ''}0x'' @ hex_text addr @ '' = 0x'' @ hex_text v @ [CHR 0x0A]"

fun generateEnableAllCommand :: "breakpoints \<Rightarrow> 32 word \<Rightarrow> int \<Rightarrow> (string \<times> breakpoints) option" where
  "generateEnableAllCommand [] bpInstr bpInstrBytes = Some ([], [])"
| "generateEnableAllCommand (b # bps) bpInstr bpInstrBytes =
     (if m_isEnabled b then map_option (\<lambda>(s, bps). (s, b # bps)) (generateEnableAllCommand bps bpInstr bpInstrBytes)
      else do {
        ctype \<leftarrow> c_type bpInstrBytes;
        (s, bps) \<leftarrow> generateEnableAllCommand bps bpInstr bpInstrBytes;
        Some (set_command ctype (m_absoluteAdress b) bpInstr @ s, b\<lparr>m_isEnabled := True\<rparr> # bps)
      })"

section \<open>The bytes under the breakpoints\<close>

definition block_address :: "base_map \<Rightarrow> FluffiBasicBlock \<Rightarrow> 64 word" where
  "block_address bm b = m_rva b + base_at bm (m_moduleID b)"

definition x_command :: "int \<Rightarrow> base_map \<Rightarrow> FluffiBasicBlock \<Rightarrow> string option" where
  "x_command bpInstrBytes bm b =
     map_option (\<lambda>u. ''x/1x'' @ u @ '' 0x'' @ hex_text (block_address bm b))
       (if bpInstrBytes = 1 then Some ''b'' else if bpInstrBytes = 2 then Some ''h''
        else if bpInstrBytes = 4 then Some ''w'' else None)"

fun x_commands :: "int \<Rightarrow> base_map \<Rightarrow> FluffiBasicBlock list \<Rightarrow> string list option" where
  "x_commands bpInstrBytes bm [] = Some []"
| "x_commands bpInstrBytes bm (b # bs) = do {
     c \<leftarrow> x_command bpInstrBytes bm b;
     cs \<leftarrow> x_commands bpInstrBytes bm bs;
     Some (c # cs)
   }"

text \<open>
  The loop over the lines of the answer, with the blocks that are still to come; the current block is looked at
  for each line, also when there is none any more (\<open>None\<close>).
\<close>

fun read_original_bytes :: "base_map \<Rightarrow> FluffiBasicBlock list \<Rightarrow> string list \<Rightarrow> breakpoints \<Rightarrow> breakpoints option" where
  "read_original_bytes bm bs [] bps = Some bps"
| "read_original_bytes bm [] (line # ls) bps = None"
| "read_original_bytes bm (b # bs) (line # ls) bps = do {
     v \<leftarrow> stoull_hex line;
     (case find_char (CHR '':'') line of
        Some j \<Rightarrow>
          if v = block_address bm b
          then do {
            w \<leftarrow> stoull_hex (drop (j + 1) line);
            read_original_bytes bm bs ls (set_insert m_absoluteAdress
              \<lparr>m_absoluteAdress = v, m_originalBytes = ucast w, m_fbb = b, m_isEnabled = False\<rparr> bps)
          }
          else read_original_bytes bm (b # bs) ls bps
      | None \<Rightarrow> read_original_bytes bm (b # bs) ls bps)
   }"

end
