(* ===== verification/TRGdbThread.thy ===== *)
theory TRGdbThread
  imports TRGdbText
begin

text \<open>
  The executor that drives a debugger, second part: the thread that talks to GDB (\<open>debuggerThreadMain\<close>,
  \<open>gdbPrepareForDebug\<close>, \<open>gdbDebug\<close>, \<open>consumeGDBOutputQueue\<close>, \<open>handleSignal\<close>,
  \<open>sendCommandToGDBAndWaitForResponse\<close> and \<open>gdbLinereaderThread\<close> in \<open>TestExecutorGDB.cpp\<close>) and what it
  shares with the others (\<open>GDBThreadCommunication.cpp\<close>).

  Before each look at the shared object the others act on it in an arbitrary way (\<open>g_others\<close>): the thread that reads
  GDB's output appends lines, the executor asks for a state of the coverage or for the end. The thread takes a line
  from the queue as it looks at it, as it is the only one that does. \<open>None\<close>: the process exits, or a wait never ends.
\<close>

section \<open>What the threads share\<close>

datatype COVERAGE_STATE = SHOULD_RESET_HARD | SHOULD_RESET_SOFT | RESETTED | SHOULD_DUMP | DUMPED

text \<open>What GDB is given: text on its standard input, or the interrupt signal.\<close>

datatype gdb_input = Typed string | Interrupted

record GDBThreadCommunication =
  m_exOutput :: DebugExecutionOutput
  m_ostreamToGdb :: "gdb_input list"
  m_gdbThreadShouldTerminate :: bool
  m_debuggingReady :: bool
  m_coverageState :: COVERAGE_STATE
  m_gdbOutputQueue :: "string list"
  m_exitStatus :: int
  m_interruptWritten :: bool                     \<comment> \<open>a byte was written to the interrupt pipe\<close>
  g_tick :: nat

definition new_GDBThreadCommunication :: GDBThreadCommunication where
  "new_GDBThreadCommunication = \<lparr>m_exOutput = new_output\<lparr>dbg_hasFullCoverage := False\<rparr>, m_ostreamToGdb = [],
     m_gdbThreadShouldTerminate = False, m_debuggingReady = False, m_coverageState = DUMPED, m_gdbOutputQueue = [],
     m_exitStatus = - 1, m_interruptWritten = False, g_tick = 0\<rparr>"

text \<open>The others, whether GDB can be started, and the content of the file with its first commands.\<close>

record gdb_env =
  g_others :: "nat \<Rightarrow> GDBThreadCommunication \<Rightarrow> GDBThreadCommunication"
  g_inits :: bool
  g_runs :: bool
  g_initFile :: "string option"

definition look :: "gdb_env \<Rightarrow> GDBThreadCommunication \<Rightarrow> GDBThreadCommunication" where
  "look E c = (g_others E (g_tick c) c)\<lparr>g_tick := Suc (g_tick c)\<rparr>"

definition type_text :: "string \<Rightarrow> GDBThreadCommunication \<Rightarrow> GDBThreadCommunication" where
  "type_text s c = c\<lparr>m_ostreamToGdb := m_ostreamToGdb c @ [Typed s]\<rparr>"

abbreviation newline :: string where
  "newline \<equiv> [CHR 0x0A]"

definition fail_output :: "string \<Rightarrow> GDBThreadCommunication \<Rightarrow> GDBThreadCommunication" where
  "fail_output description c =
     c\<lparr>m_exOutput := (m_exOutput c)\<lparr>m_terminationType := ERR, m_terminationDescription := description\<rparr>\<rparr>"

partial_function (option) waitForTerminateOrNewMessageOrCovStateChange ::
    "gdb_env \<Rightarrow> COVERAGE_STATE list \<Rightarrow> GDBThreadCommunication \<Rightarrow> GDBThreadCommunication option" where
  "waitForTerminateOrNewMessageOrCovStateChange E statesToWaitFor c =
     (let c = look E c in
      if m_gdbThreadShouldTerminate c \<or> m_gdbOutputQueue c \<noteq> [] \<or> m_coverageState c \<in> set statesToWaitFor then Some c
      else waitForTerminateOrNewMessageOrCovStateChange E statesToWaitFor c)"

section \<open>Reading GDB's output\<close>

text \<open>Prompts are erased as long as there are any.\<close>

function strip_prompt :: "string \<Rightarrow> string" where
  "strip_prompt line = (case str_find line ''(gdb) '' 0 of None \<Rightarrow> line
     | Some gdbPos \<Rightarrow> strip_prompt (take gdbPos line @ drop (gdbPos + 6) line))"
  by pat_completeness auto
termination
  by (relation "measure length") (auto dest!: str_find_bounds)

declare strip_prompt.simps [simp del]

function read_lines :: "string \<Rightarrow> string list \<times> string" where
  "read_lines s =
     (if CHR 0x0A \<in> set s
      then let line = takeWhile (\<lambda>c. c \<noteq> CHR 0x0A) s; (ls, rest) = read_lines (drop (Suc (length line)) s)
           in (strip_prompt line # ls, rest)
      else ([], s))"
  by pat_completeness auto
termination
  by (relation "measure length") (auto intro!: diff_less length_pos_if_in_set)

declare read_lines.simps [simp del]

text \<open>A round of the reader with the bytes that were read, \<open>None\<close>: reading failed.\<close>

definition gdbLinereader_round ::
    "bytes option \<Rightarrow> string \<Rightarrow> GDBThreadCommunication \<Rightarrow> bool \<times> string \<times> GDBThreadCommunication" where
  "gdbLinereader_round got charsReadButNotReturned c =
     (case got of
        None \<Rightarrow> (False, charsReadButNotReturned,
          (fail_output ''gdbLinereaderThread: Failed reading from gdb output pipe'' c)\<lparr>m_gdbThreadShouldTerminate := True\<rparr>)
      | Some bs \<Rightarrow> let (ls, rest) = read_lines (charsReadButNotReturned @ bs)
          in (True, rest, c\<lparr>m_gdbOutputQueue := m_gdbOutputQueue c @ ls\<rparr>))"

section \<open>Commands\<close>

function pieces_of :: "string \<Rightarrow> string list" where
  "pieces_of command = (if command = [] then [] else take 1000 command # pieces_of (drop 1000 command))"
  by pat_completeness auto
termination
  by (relation "measure length") auto

declare pieces_of.simps [simp del]

fun type_pieces :: "gdb_env \<Rightarrow> string list \<Rightarrow> GDBThreadCommunication \<Rightarrow> bool \<times> GDBThreadCommunication" where
  "type_pieces E [] c = (True, c)"
| "type_pieces E (p # ps) c =
     (let c = look E c in
      if m_gdbThreadShouldTerminate c then (False, c) else type_pieces E ps (type_text p c))"

text \<open>
  The loop that collects the lines up to the complaint about the command \<open>fluffi\<close>; \<open>waiting\<close> tells the outer
  loop from the inner one.
\<close>

partial_function (option) read_response ::
    "gdb_env \<Rightarrow> bool \<Rightarrow> string list \<Rightarrow> GDBThreadCommunication \<Rightarrow> (bool \<times> string \<times> GDBThreadCommunication) option" where
  "read_response E waiting ls c =
     (if waiting
      then do {
        c \<leftarrow> waitForTerminateOrNewMessageOrCovStateChange E [] c;
        let c = look E c;
        if m_gdbThreadShouldTerminate c then Some (False, ''INTERRUPTED'', c) else read_response E False ls c
      }
      else let c = look E c in
        case m_gdbOutputQueue c of
          [] \<Rightarrow> read_response E True ls c
        | line # q \<Rightarrow>
            let c = c\<lparr>m_gdbOutputQueue := q\<rparr> in
            if str_find line ''Undefined command'' 0 \<noteq> None then Some (True, join newline ls, c)
            else read_response E False (ls @ [line]) c)"

text \<open>The answer stays what it was for the empty command.\<close>

definition sendCommandToGDBAndWaitForResponse ::
    "gdb_env \<Rightarrow> string \<Rightarrow> string \<Rightarrow> bool \<Rightarrow> GDBThreadCommunication \<Rightarrow> (bool \<times> string \<times> GDBThreadCommunication) option" where
  "sendCommandToGDBAndWaitForResponse E command response sendCtrlZ c =
     (if command = [] then Some (True, response, c)
      else let c = look E c in
      if m_gdbOutputQueue c \<noteq> [] then Some (False, ''LEFTOVER'', c)
      else let c = (if sendCtrlZ then c\<lparr>m_ostreamToGdb := m_ostreamToGdb c @ [Interrupted]\<rparr> else c);
               (typed, c) = type_pieces E (pieces_of command) c
           in if \<not> typed then Some (False, ''INTERRUPTED'', c)
              else read_response E True [] (type_text (newline @ ''fluffi'' @ newline) c))"

section \<open>Signals\<close>

text \<open>\<open>None\<close>: \<open>substr\<close> throws.\<close>

definition signal_name :: "string \<Rightarrow> string option" where
  "signal_name signalmessage =
     (if length signalmessage < 24 then None
      else Some (case find_char (CHR '','') signalmessage of
        Some pos \<Rightarrow> if 24 \<le> pos then substr signalmessage 24 (pos - 24) else drop 24 signalmessage
      | None \<Rightarrow> substr signalmessage 24 9))"

text \<open>The line with the address; without one if the thread is to end.\<close>

partial_function (option) wait_address ::
    "gdb_env \<Rightarrow> GDBThreadCommunication \<Rightarrow> (string option \<times> GDBThreadCommunication) option" where
  "wait_address E c =
     (let c = look E c in
      case m_gdbOutputQueue c of
        line # q \<Rightarrow>
          let c = c\<lparr>m_gdbOutputQueue := q\<rparr> in
          if substr line 0 2 = ''0x'' then Some (Some line, c) else wait_address E c
      | [] \<Rightarrow> do {
          c \<leftarrow> waitForTerminateOrNewMessageOrCovStateChange E [] c;
          let c = look E c;
          (case m_gdbOutputQueue c of
             [] \<Rightarrow> Some (None, c)
           | line # q \<Rightarrow>
               let c = c\<lparr>m_gdbOutputQueue := q\<rparr> in
               if substr line 0 2 = ''0x'' then Some (Some line, c) else wait_address E c)
        })"

definition known_breakpoint :: "breakpoints \<Rightarrow> 64 word \<Rightarrow> GDBBreakpoint option" where
  "known_breakpoint bps signalAddress =
     (case breakpoint_at bps signalAddress of Some b \<Rightarrow> Some b | None \<Rightarrow> breakpoint_at bps (signalAddress - 1))"

text \<open>The breakpoints and the blocks that were covered.\<close>

type_synonym debug_state = "breakpoints \<times> FluffiBasicBlock list"

definition remove_breakpoint ::
    "int \<Rightarrow> GDBBreakpoint \<Rightarrow> debug_state \<Rightarrow> GDBThreadCommunication \<Rightarrow> (debug_state \<times> GDBThreadCommunication) option" where
  "remove_breakpoint bpInstrBytes gdbb d c = do {
     ctype \<leftarrow> c_type bpInstrBytes;
     let c = type_text (set_command ctype (m_absoluteAdress gdbb) (m_originalBytes gdbb)) c;
     let c = type_text (''j *0x'' @ hex_text (m_absoluteAdress gdbb) @ newline) c;
     Some ((disable_at (m_absoluteAdress gdbb) (fst d), set_insert (\<lambda>b. b) (m_fbb gdbb) (snd d)), c)
   }"

text \<open>A stop that is not one of the thread's own: a second one at the same place is a crash.\<close>

definition record_crash :: "string \<Rightarrow> string \<Rightarrow> GDBThreadCommunication \<Rightarrow> GDBThreadCommunication" where
  "record_crash signalName crashRVA c =
     (let out = m_exOutput c in
      if m_firstCrash out = []
      then type_text (''c'' @ newline) (c\<lparr>m_exOutput := out\<lparr>m_firstCrash := crashRVA, m_lastCrash := crashRVA\<rparr>\<rparr>)
      else if m_lastCrash out = crashRVA
      then c\<lparr>m_exOutput := (if substr signalName 0 7 = ''SIGSEGV''
             then out\<lparr>m_terminationDescription := ''Detected an EXCEPTION_ACCESS_VIOLATION'',
               m_terminationType := EXCEPTION_ACCESSVIOLATION\<rparr>
             else out\<lparr>m_terminationDescription := ''Detected an Unhandled signal: '' @ signalName,
               m_terminationType := EXCEPTION_OTHER\<rparr>),
           m_gdbThreadShouldTerminate := True\<rparr>
      else type_text (''c'' @ newline) (c\<lparr>m_exOutput := out\<lparr>m_lastCrash := crashRVA\<rparr>\<rparr>))"

definition handle_crash ::
    "gdb_env \<Rightarrow> string \<Rightarrow> 64 word \<Rightarrow> GDBThreadCommunication \<Rightarrow> (bool \<times> GDBThreadCommunication) option" where
  "handle_crash E signalName signalAddress c = do {
     (ok, infoFilesResp, c) \<leftarrow> sendCommandToGDBAndWaitForResponse E ''info files'' [] False c;
     if \<not> ok then Some (False, fail_output ''handleSignal: \"info files\" failed'' c)
     else do {
       baseAddressesAndSizes \<leftarrow> getBaseAddressesAndSizes infoFilesResp;
       Some (True, record_crash signalName (getCrashRVA baseAddressesAndSizes signalAddress) c)
     }
   }"

definition handleSignal ::
    "gdb_env \<Rightarrow> int \<Rightarrow> string \<Rightarrow> debug_state \<Rightarrow> GDBThreadCommunication \<Rightarrow>
     (bool \<times> debug_state \<times> GDBThreadCommunication) option" where
  "handleSignal E bpInstrBytes signalmessage d c = do {
     signalName \<leftarrow> signal_name signalmessage;
     (addressLine, c) \<leftarrow> wait_address E c;
     (case addressLine of
        None \<Rightarrow> Some (False, d, c)
      | Some addressLine \<Rightarrow> do {
          signalAddress \<leftarrow> stoull_hex addressLine;
          (case if substr signalName 0 7 = ''SIGTRAP'' then known_breakpoint (fst d) signalAddress else None of
             Some gdbb \<Rightarrow> map_option (\<lambda>(d, c). (True, d, c)) (remove_breakpoint bpInstrBytes gdbb d c)
           | None \<Rightarrow> map_option (\<lambda>(ok, c). (ok, d, c)) (handle_crash E signalName signalAddress c))
        })
   }"

section \<open>The queue\<close>

definition is_exit_line :: "string \<Rightarrow> bool" where
  "is_exit_line line \<longleftrightarrow> str_find line ''exited with code'' 0 \<noteq> None \<or> substr line 0 24 = ''Program exited normally.''"

text \<open>\<open>None\<close>: the number would begin behind the end of the string.\<close>

definition exit_code :: "string \<Rightarrow> int option" where
  "exit_code line =
     (case str_find line ''exited with code'' 0 of None \<Rightarrow> Some 0
      | Some exitCodePos \<Rightarrow>
          if length line < exitCodePos + 17 then None
          else Some (case stoi_hex (drop (exitCodePos + 17) line) of None \<Rightarrow> 0 | Some v \<Rightarrow> v))"

definition process_exited :: "int \<Rightarrow> GDBThreadCommunication \<Rightarrow> GDBThreadCommunication" where
  "process_exited exitCode c =
     c\<lparr>m_exitStatus := exitCode,
       m_exOutput := (if m_terminationType (m_exOutput c) = CLEAN
         then (m_exOutput c)\<lparr>m_terminationDescription := ''Process terminated normally: '' @ int_to_string exitCode\<rparr>
         else m_exOutput c)\<rparr>"

partial_function (option) consumeGDBOutputQueue ::
    "gdb_env \<Rightarrow> int \<Rightarrow> debug_state \<Rightarrow> GDBThreadCommunication \<Rightarrow> (bool \<times> debug_state \<times> GDBThreadCommunication) option" where
  "consumeGDBOutputQueue E bpInstrBytes d c =
     (let c = look E c in
      case m_gdbOutputQueue c of
        [] \<Rightarrow> Some (True, d, c)
      | line # q \<Rightarrow>
          let c = c\<lparr>m_gdbOutputQueue := q\<rparr> in
          if list_all is_blank line then consumeGDBOutputQueue E bpInstrBytes d c
          else if substr line 0 23 = ''Program received signal''
          then do {
            (ok, d, c) \<leftarrow> handleSignal E bpInstrBytes line d c;
            if \<not> ok then Some (False, d, fail_output ''consumeGDBOutputQueue: Failed to handle a signal'' c)
            else consumeGDBOutputQueue E bpInstrBytes d c
          }
          else if is_exit_line line then map_option (\<lambda>exitCode. (False, d, process_exited exitCode c)) (exit_code line)
          else consumeGDBOutputQueue E bpInstrBytes d c)"

section \<open>Coverage\<close>

text \<open>Enabling the breakpoints; the first component is whether the loop of \<open>gdbDebug\<close> goes on.\<close>

partial_function (option) enable_breakpoints ::
    "gdb_env \<Rightarrow> int \<Rightarrow> string \<Rightarrow> debug_state \<Rightarrow> GDBThreadCommunication \<Rightarrow>
     (bool \<times> debug_state \<times> GDBThreadCommunication) option" where
  "enable_breakpoints E bpInstrBytes enableAllCommand d c = do {
     (noProblem, resp, c) \<leftarrow> sendCommandToGDBAndWaitForResponse E enableAllCommand [] True c;
     if noProblem then Some (True, d, c)
     else if resp = ''LEFTOVER'' then do {
       (ok, d, c) \<leftarrow> consumeGDBOutputQueue E bpInstrBytes d c;
       if \<not> ok then Some (False, d, c) else enable_breakpoints E bpInstrBytes enableAllCommand d c
     }
     else Some (False, d, fail_output ''gdbDebug: Failed enabling all breakpoints'' c)
   }"

definition dump_coverage :: "FluffiBasicBlock list \<Rightarrow> GDBThreadCommunication \<Rightarrow> GDBThreadCommunication" where
  "dump_coverage blocksCoveredSinceLastReset c =
     c\<lparr>m_exOutput := fold addCoveredBasicBlock blocksCoveredSinceLastReset ((m_exOutput c)\<lparr>m_coveredBasicBlocks := []\<rparr>),
       m_coverageState := DUMPED\<rparr>"

text \<open>What is done for the state of the coverage, with whether the loop goes on.\<close>

definition handle_coverage ::
    "gdb_env \<Rightarrow> 32 word \<Rightarrow> int \<Rightarrow> debug_state \<Rightarrow> GDBThreadCommunication \<Rightarrow>
     (bool \<times> debug_state \<times> GDBThreadCommunication) option" where
  "handle_coverage E bpInstr bpInstrBytes d c =
     (case m_coverageState c of
        SHOULD_RESET_HARD \<Rightarrow> do {
          (enableAllCommand, bps) \<leftarrow> generateEnableAllCommand (fst d) bpInstr bpInstrBytes;
          (ok, d, c) \<leftarrow> enable_breakpoints E bpInstrBytes enableAllCommand (bps, snd d) c;
          if \<not> ok then Some (False, d, c)
          else Some (True, (fst d, []), (type_text (''c'' @ newline) c)\<lparr>m_coverageState := RESETTED\<rparr>)
        }
      | SHOULD_RESET_SOFT \<Rightarrow> Some (True, (fst d, []), c\<lparr>m_coverageState := RESETTED\<rparr>)
      | SHOULD_DUMP \<Rightarrow> Some (True, d, dump_coverage (snd d) c)
      | _ \<Rightarrow> Some (True, d, c))"

partial_function (option) gdb_loop ::
    "gdb_env \<Rightarrow> 32 word \<Rightarrow> int \<Rightarrow> debug_state \<Rightarrow> GDBThreadCommunication \<Rightarrow> GDBThreadCommunication option" where
  "gdb_loop E bpInstr bpInstrBytes d c = do {
     c \<leftarrow> waitForTerminateOrNewMessageOrCovStateChange E [SHOULD_DUMP, SHOULD_RESET_HARD, SHOULD_RESET_SOFT] c;
     let c = look E c;
     if m_gdbThreadShouldTerminate c then Some c
     else do {
       (ok, d, c) \<leftarrow> consumeGDBOutputQueue E bpInstrBytes d c;
       if \<not> ok then Some c
       else do {
         (goes_on, d, c) \<leftarrow> handle_coverage E bpInstr bpInstrBytes d (look E c);
         if \<not> goes_on then Some c else gdb_loop E bpInstr bpInstrBytes d c
       }
     }
   }"

section \<open>Preparation\<close>

text \<open>A step that may fail: an inner \<open>None\<close> is the method's return of false.\<close>

definition and_then ::
    "('a option \<times> GDBThreadCommunication) option \<Rightarrow>
     ('a \<Rightarrow> GDBThreadCommunication \<Rightarrow> ('b option \<times> GDBThreadCommunication) option) \<Rightarrow>
     ('b option \<times> GDBThreadCommunication) option" where
  "and_then m k = do { (r, c) \<leftarrow> m; (case r of None \<Rightarrow> Some (None, c) | Some r \<Rightarrow> k r c) }"

definition ask_gdb ::
    "gdb_env \<Rightarrow> string \<Rightarrow> string \<Rightarrow> string \<Rightarrow> GDBThreadCommunication \<Rightarrow> (string option \<times> GDBThreadCommunication) option" where
  "ask_gdb E command problem resp c =
     map_option (\<lambda>(noProblem, resp, c). if noProblem then (Some resp, c) else (None, fail_output problem c))
       (sendCommandToGDBAndWaitForResponse E command resp False c)"

text \<open>The target is started unless GDB waits already; \<open>resp\<close> is the answer to the first \<open>i r\<close>.\<close>

definition start_unless_attached ::
    "gdb_env \<Rightarrow> string \<Rightarrow> GDBThreadCommunication \<Rightarrow> (string option \<times> GDBThreadCommunication) option" where
  "start_unless_attached E resp c =
     (if str_find resp ''no registers now'' 0 = None then Some (Some resp, c)
      else and_then (ask_gdb E ''br *0x0'' ''gdbPrepareForDebug: \"br *0x0\" failed'' resp c) (\<lambda>resp c.
        if length resp < 11 then None
        else do {
          numOfDummyBreakpoint \<leftarrow> stoi (drop 11 resp);
          and_then (ask_gdb E ''run'' ''gdbPrepareForDebug: \"run\" failed'' resp c) (\<lambda>resp c.
            and_then (ask_gdb E (''d br '' @ int_to_string numOfDummyBreakpoint)
              ''gdbPrepareForDebug: deleting 0 breakpoint failed'' resp c) (\<lambda>resp c.
                ask_gdb E ''i r'' ''gdbPrepareForDebug: second \"i r\" failed'' resp c))
        }))"

definition prints_registers :: "string \<Rightarrow> bool" where
  "prints_registers resp \<longleftrightarrow> str_find resp ''rax'' 0 \<noteq> None \<or> str_find resp ''eax'' 0 \<noteq> None \<or> str_find resp ''r0'' 0 \<noteq> None"

text \<open>The number of the process, where GDB tells it.\<close>

definition target_pid :: "string \<Rightarrow> DebugExecutionOutput \<Rightarrow> DebugExecutionOutput option" where
  "target_pid resp out =
     (case str_find resp ''process'' 0 of None \<Rightarrow> Some out
      | Some isPos \<Rightarrow> map_option (\<lambda>pid. out\<lparr>m_PID := pid\<rparr>) (stoi (drop (isPos + 7) resp)))"

definition find_modules ::
    "gdb_env \<Rightarrow> Module list \<Rightarrow> GDBThreadCommunication \<Rightarrow> (base_map option \<times> GDBThreadCommunication) option" where
  "find_modules E modulesToCover c =
     and_then (ask_gdb E ''info files'' ''gdbPrepareForDebug: \"info files\" failed'' [] c) (\<lambda>infoFilesResp c. do {
       baseMap \<leftarrow> getBaseAddressesForModules modulesToCover infoFilesResp;
       if length baseMap \<noteq> length modulesToCover
       then Some (None, fail_output ''gdbPrepareForDebug: It was not possible to determine the addresses of all breakpoints to set (Dynamic module loading is currently not supported)'' c)
       else Some (Some baseMap, c)
     })"

definition find_breakpoints ::
    "gdb_env \<Rightarrow> int \<Rightarrow> base_map \<Rightarrow> FluffiBasicBlock list \<Rightarrow> string \<Rightarrow> GDBThreadCommunication \<Rightarrow>
     (breakpoints option \<times> GDBThreadCommunication) option" where
  "find_breakpoints E bpInstrBytes baseMap blocks resp c = do {
     commands \<leftarrow> x_commands bpInstrBytes baseMap blocks;
     and_then (ask_gdb E (join newline commands) ''gdbPrepareForDebug: getting all real breakpoint bytes failed'' resp c) (\<lambda>resp c. do {
       bps \<leftarrow> read_original_bytes baseMap blocks (splitString resp newline) [];
       if length bps \<noteq> length blocks
       then Some (None, fail_output ''gdbPrepareForDebug: Failed getting all real breakpoint bytes - at least one could not be read'' c)
       else Some (Some bps, c)
     })
   }"

definition gdbPrepareForDebug ::
    "gdb_env \<Rightarrow> Module list \<Rightarrow> FluffiBasicBlock list \<Rightarrow> int \<Rightarrow> GDBThreadCommunication \<Rightarrow>
     (breakpoints option \<times> GDBThreadCommunication) option" where
  "gdbPrepareForDebug E modulesToCover blocks bpInstrBytes c =
     (let c = look E c in
      case m_gdbOutputQueue c of
        line # q \<Rightarrow> Some (None, fail_output (''GDB initialization failed: we got a message when we did not expect it:'' @ line)
          (c\<lparr>m_gdbOutputQueue := q\<rparr>))
      | [] \<Rightarrow>
        and_then (ask_gdb E ''i r'' ''gdbPrepareForDebug: first \"i r\" failed'' [] c) (\<lambda>resp c.
        and_then (start_unless_attached E resp c) (\<lambda>resp c.
          if \<not> prints_registers resp
          then Some (None, fail_output ''gdbPrepareForDebug: The gdb command \"i r\" does not print registers '' c)
          else and_then (find_modules E modulesToCover c) (\<lambda>baseMap c.
            and_then (ask_gdb E ''info inferior'' ''gdbPrepareForDebug: \"info inferior\" failed'' resp c) (\<lambda>resp c. do {
              out \<leftarrow> target_pid resp (m_exOutput c);
              find_breakpoints E bpInstrBytes baseMap blocks resp (c\<lparr>m_exOutput := out\<rparr>)
            })))))"

definition gdbDebug ::
    "gdb_env \<Rightarrow> Module list \<Rightarrow> FluffiBasicBlock list \<Rightarrow> 32 word \<Rightarrow> int \<Rightarrow> GDBThreadCommunication \<Rightarrow>
     GDBThreadCommunication option" where
  "gdbDebug E modulesToCover blocks bpInstr bpInstrBytes c = do {
     (prepared, c) \<leftarrow> gdbPrepareForDebug E modulesToCover blocks bpInstrBytes c;
     (case prepared of
        None \<Rightarrow> Some c
      | Some allBreakpoints \<Rightarrow> gdb_loop E bpInstr bpInstrBytes (allBreakpoints, [])
          ((type_text (''c'' @ newline) c)\<lparr>m_debuggingReady := True,
             m_exOutput := (m_exOutput c)\<lparr>m_terminationType := CLEAN,
               m_terminationDescription := ''The target executed without any exception''\<rparr>\<rparr>))
   }"

section \<open>The thread\<close>

partial_function (option) clear_queue :: "gdb_env \<Rightarrow> GDBThreadCommunication \<Rightarrow> GDBThreadCommunication option" where
  "clear_queue E c =
     (let c = look E c in
      case m_gdbOutputQueue c of [] \<Rightarrow> Some c | line # q \<Rightarrow> clear_queue E (c\<lparr>m_gdbOutputQueue := q\<rparr>))"

text \<open>A dummy command, until nothing is left over from before.\<close>

partial_function (option) skip_headers :: "gdb_env \<Rightarrow> GDBThreadCommunication \<Rightarrow> (bool \<times> GDBThreadCommunication) option" where
  "skip_headers E c = do {
     (noProblem, resp, c) \<leftarrow> sendCommandToGDBAndWaitForResponse E ''set'' [] False c;
     if noProblem then Some (True, c)
     else if resp = ''LEFTOVER'' then do { c \<leftarrow> clear_queue E c; skip_headers E c }
     else Some (False, c)
   }"

definition end_thread :: "GDBThreadCommunication \<Rightarrow> GDBThreadCommunication" where
  "end_thread c = c\<lparr>m_gdbThreadShouldTerminate := True, m_exOutput := (m_exOutput c)\<lparr>m_debuggerThreadDone := True\<rparr>\<rparr>"

definition debuggerThreadMain ::
    "gdb_env \<Rightarrow> Module list \<Rightarrow> FluffiBasicBlock list \<Rightarrow> 32 word \<Rightarrow> int \<Rightarrow> GDBThreadCommunication \<Rightarrow>
     GDBThreadCommunication option" where
  "debuggerThreadMain E modulesToCover blocks bpInstr bpInstrBytes c =
     (let c = fail_output ''The target did not run!'' (c\<lparr>m_exOutput := (m_exOutput c)\<lparr>m_debuggerThreadDone := False\<rparr>\<rparr>) in
      if \<not> g_inits E
      then Some (end_thread (fail_output ''debuggerThreadMain: Calling \"initProcess\" on the GDB process failed!'' c))
      else if \<not> g_runs E
      then Some (end_thread (fail_output ''debuggerThreadMain: Calling \"run\" on the GDB process failed!'' c))
      else case g_initFile E of
        None \<Rightarrow> Some (end_thread (fail_output ''debuggerThreadMain: Could not open the gdbInitFile!'' c))
      | Some content \<Rightarrow>
          let c = (if content \<noteq> [] then type_text content c else c);
              c = type_text (''set new-console on'' @ newline) c
          in do {
            (noProblem, c) \<leftarrow> skip_headers E c;
            if \<not> noProblem
            then Some (end_thread (fail_output ''debuggerThreadMain: clearing the gdb output queue failed'' c))
            else do {
              c \<leftarrow> gdbDebug E modulesToCover blocks bpInstr bpInstrBytes c;
              Some (end_thread (if m_terminationType (m_exOutput c) \<in> {EXCEPTION_ACCESSVIOLATION, EXCEPTION_OTHER}
                then c\<lparr>m_interruptWritten := True\<rparr> else c))
            }
          })"

end
