(* ===== verification/TRGdb.thy ===== *)
theory TRGdb
  imports TRFed TRGdbThread
begin

text \<open>
  The executor that drives a debugger, third part: the object that the runner calls (\<open>TestExecutorGDB.cpp\<close>, the Linux
  part). A starter writes a file with the first commands for GDB, the thread of \<open>TRGdbThread\<close> starts GDB on it; a
  feeder sends the testcases. The object asks the thread to reset and to dump the coverage and looks at its
  output; what it sees is given by the record \<open>gdb_world\<close>. The thread is known by its file of commands.
\<close>

section \<open>Outside the object\<close>

record gdb_world = fed_env +
  w_version :: "string \<Rightarrow> string option"                        \<comment> \<open>what a command prints in half a second\<close>
  w_initFile :: "nat \<Rightarrow> bytes option"                            \<comment> \<open>the file that the starter leaves\<close>
  w_ready :: "nat \<Rightarrow> string \<Rightarrow> bool"                            \<comment> \<open>the thread is ready in time\<close>
  w_reaches :: "nat \<Rightarrow> COVERAGE_STATE \<Rightarrow> bool"                  \<comment> \<open>it answers the request in time\<close>
  w_output :: "string \<Rightarrow> nat \<Rightarrow> DebugExecutionOutput"
  w_exitStatus :: "string \<Rightarrow> nat \<Rightarrow> int"

definition gdb_output :: "gdb_world \<Rightarrow> gdb_executor \<Rightarrow> agent \<Rightarrow> DebugExecutionOutput" where
  "gdb_output W st a = (case m_gDBThread st of None \<Rightarrow> new_output\<lparr>dbg_hasFullCoverage := False\<rparr>
     | Some f \<Rightarrow> w_output W f (tick a))"

definition gdb_exitStatus :: "gdb_world \<Rightarrow> gdb_executor \<Rightarrow> agent \<Rightarrow> int" where
  "gdb_exitStatus W st a = (case m_gDBThread st of None \<Rightarrow> - 1 | Some f \<Rightarrow> w_exitStatus W f (tick a))"

section \<open>Set-up check\<close>

definition instruction_fits :: "32 word \<Rightarrow> int \<Rightarrow> bool" where
  "instruction_fits bpInstr bpInstrBytes =
     (if bpInstrBytes = 1 then \<not> bpInstr > 255 else if bpInstrBytes = 2 then \<not> bpInstr > 65535 else bpInstrBytes = 4)"

definition GDB_isSetupFunctionable ::
    "gdb_world \<Rightarrow> executor_base \<Rightarrow> string \<Rightarrow> string \<Rightarrow> FluffiBasicBlock list \<Rightarrow> int \<Rightarrow> int \<Rightarrow> bool" where
  "GDB_isSetupFunctionable W b feeder_cmdline starter_cmdline blocks bpInstr bpInstrBytes =
     (case w_version W (m_targetCMDline b @ '' --version'') of None \<Rightarrow> False
      | Some identifier \<Rightarrow>
          if take 7 identifier \<noteq> ''GNU gdb'' then False
          else if \<not> command_exists W feeder_cmdline then False
          else if \<not> command_exists W starter_cmdline then False
          else if \<not> d_exists (u_dynrio W) (x_testcaseDir b) then False
          else if length blocks = 0 then False
          else if \<not> list_all (\<lambda>bb. list_ex (\<lambda>m. m_moduleID bb = m_moduleid m) (m_modulesToCover b)) blocks then False
          else instruction_fits (word_of_int bpInstr) bpInstrBytes)"

section \<open>Starting\<close>

definition gdb_init_file :: "gdb_world \<Rightarrow> executor_base \<Rightarrow> nat \<Rightarrow> string" where
  "gdb_init_file W b k = x_testcaseDir b @ pathSeperator @ ''GDBInit_'' @ u_guid W k"

definition GDB_attemptStart ::
    "gdb_world \<Rightarrow> executor_base \<Rightarrow> string \<Rightarrow> string \<Rightarrow> gdb_executor \<Rightarrow> agent \<Rightarrow> (bool \<times> gdb_executor \<times> agent) option" where
  "GDB_attemptStart W b feeder_cmdline starter_cmdline st a =
     (let st = st\<lparr>m_executionsSinceLastRestart := 0\<rparr>;
          gdbInitFile = gdb_init_file W b (tick a);
          a = next_tick a;
          q = [CHR 0x22];
          started = u_starter W (tick a) (starter_cmdline @ '' '' @ q @ gdbInitFile @ q);
          a = (next_tick a)\<lparr>files := (case w_initFile W (tick a) of None \<Rightarrow> files a
            | Some bs \<Rightarrow> (files a)(gdbInitFile \<mapsto> bs))\<rparr>
      in if \<not> started then Some (False, st, markFileForDelete gdbInitFile a)
         else let st = st\<lparr>m_gDBThread := Some gdbInitFile\<rparr>;
                  ready = w_ready W (tick a) gdbInitFile;
                  a = markFileForDelete gdbInitFile (next_tick a)
              in if \<not> ready then Some (False, st, a)
                 else start_feeder W feeder_cmdline (m_PID (gdb_output W st a)) st (next_tick a))"

section \<open>Running a testcase\<close>

datatype CoverageMode = FULL | PARTIAL | NONE

definition GDB_runSingleTestcase ::
    "gdb_world \<Rightarrow> executor_base \<Rightarrow> CoverageMode \<Rightarrow> FluffiTestcaseID \<Rightarrow> DebugExecutionOutput \<Rightarrow> gdb_executor \<Rightarrow> agent \<Rightarrow>
     (bool \<times> DebugExecutionOutput \<times> gdb_executor \<times> agent) option" where
  "GDB_runSingleTestcase W b covMode testcaseId exResult st a =
     (if covMode \<noteq> NONE \<and> \<not> w_reaches W (tick a) (if covMode = FULL then SHOULD_RESET_HARD else SHOULD_RESET_SOFT)
      then Some (False, fail_with ''Problem while resetting the coverage (a timeout occured): Increase hangTimeout!'' exResult,
        st, next_tick a)
      else do {
        let a = (if covMode \<noteq> NONE then next_tick a else a);
        (ok, goes_on, out, st) \<leftarrow> tell_feeder W b testcaseId exResult st;
        if \<not> goes_on then Some (ok, out, st, a)
        else if covMode = NONE then Some (True, executed_normally out, st, a)
        else if \<not> w_reaches W (tick a) SHOULD_DUMP
        then Some (False, fail_with ''Problem while dumping the coverage!'' out, st, next_tick a)
        else let a = next_tick a in
          Some (True, executed_normally (out\<lparr>m_coveredBasicBlocks := m_coveredBasicBlocks (gdb_output W st a)\<rparr>),
            st, next_tick a)
      })"

section \<open>execute\<close>

definition not_full :: "DebugExecutionOutput \<Rightarrow> DebugExecutionOutput" where
  "not_full out = out\<lparr>dbg_hasFullCoverage := False\<rparr>"

definition GDB_reproduced ::
    "gdb_world \<Rightarrow> PROCESS_TERMINATION_TYPE \<Rightarrow> gdb_executor \<Rightarrow> agent \<Rightarrow> DebugExecutionOutput \<times> agent" where
  "GDB_reproduced W originalCrashType st a =
     (if m_terminationType (gdb_output W st a) = CLEAN \<and> gdb_exitStatus W st a \<noteq> - 1
      then (special_crash originalCrashType ''The request reproducibly causes the target to terminate!'' ''TARGET_TERMINATED'',
        next_tick a)
      else let a = next_tick a in
      if m_terminationType (gdb_output W st a) \<in> {CLEAN, TIMEOUT, ERR}
      then (not_full (special_crash originalCrashType ''The found exception could not be reproduced!'' ''NOT_REPRODUCIBLE''),
        next_tick a)
      else (gdb_output W st (next_tick a), next_tick (next_tick a)))"

definition GDB_reproduce ::
    "gdb_world \<Rightarrow> executor_base \<Rightarrow> string \<Rightarrow> string \<Rightarrow> FluffiTestcaseID \<Rightarrow> gdb_executor \<Rightarrow> agent \<Rightarrow>
     (DebugExecutionOutput \<times> gdb_executor \<times> agent) option" where
  "GDB_reproduce W b feeder_cmdline starter_cmdline testcaseId st a = do {
     let originalCrashType = m_terminationType (gdb_output W st a);
     (started, st, a) \<leftarrow> GDB_attemptStart W b feeder_cmdline starter_cmdline st (next_tick a);
     let st = st\<lparr>m_target_and_feeder_okay := started\<rparr>;
     if \<not> started
     then Some (not_full (fail_with ''Either target or feeder coould not be started to reproduce the exception!'' new_output), st, a)
     else do {
       (_, second, st, a) \<leftarrow> GDB_runSingleTestcase W b NONE testcaseId (not_full new_output) st a;
       a \<leftarrow> (if m_terminationType second \<noteq> CLEAN then waitForDebuggerToTerminate W a else Some a);
       let (out, a) = GDB_reproduced W originalCrashType st a;
       Some (out, not_okay st, a)
     }
   }"

definition GDB_after_run ::
    "gdb_world \<Rightarrow> executor_base \<Rightarrow> string \<Rightarrow> string \<Rightarrow> FluffiTestcaseID \<Rightarrow> DebugExecutionOutput \<Rightarrow> gdb_executor \<Rightarrow> agent \<Rightarrow>
     (DebugExecutionOutput \<times> gdb_executor \<times> agent) option" where
  "GDB_after_run W b feeder_cmdline starter_cmdline testcaseId from_feeder st a =
     (let typ = m_terminationType (gdb_output W st a) in
      if typ = CLEAN \<and> gdb_exitStatus W st a = - 1
      then Some (from_feeder, if m_terminationType from_feeder = CLEAN then st else not_okay st, next_tick a)
      else if typ \<in> {CLEAN, EXCEPTION_OTHER, EXCEPTION_ACCESSVIOLATION}
      then GDB_reproduce W b feeder_cmdline starter_cmdline testcaseId st (next_tick a)
      else Some (gdb_output W st (next_tick a), not_okay st, next_tick (next_tick a)))"

definition GDB_execute ::
    "gdb_world \<Rightarrow> executor_base \<Rightarrow> string \<Rightarrow> string \<Rightarrow> int \<Rightarrow> FluffiTestcaseID \<Rightarrow> bool \<Rightarrow> gdb_executor \<Rightarrow> agent \<Rightarrow>
     (DebugExecutionOutput \<times> gdb_executor \<times> agent) option" where
  "GDB_execute W b feeder_cmdline starter_cmdline restart testcaseId forceFullCoverage st a = do {
     let st = count_execution restart st;
     let firstRun = (\<not> m_target_and_feeder_okay st);
     (okay, st, a) \<leftarrow> (if m_target_and_feeder_okay st then Some (True, st, a)
       else GDB_attemptStart W b feeder_cmdline starter_cmdline st a);
     let st = st\<lparr>m_target_and_feeder_okay := okay\<rparr>;
     if \<not> okay
     then Some (not_full (fail_with ''Either target or feeder could not be started!'' new_output), st, a)
     else do {
       let full = (forceFullCoverage \<or> firstRun);
       (okay, from_feeder, st, a) \<leftarrow> GDB_runSingleTestcase W b (if full then FULL else PARTIAL) testcaseId
         (new_output\<lparr>dbg_hasFullCoverage := full\<rparr>) st a;
       GDB_after_run W b feeder_cmdline starter_cmdline testcaseId from_feeder (st\<lparr>m_target_and_feeder_okay := okay\<rparr>) a
     }
   }"

section \<open>What a run leaves alone\<close>

text \<open>Its own files are those with the first commands for GDB.\<close>

definition gdb_scratch :: "executor_base \<Rightarrow> string \<Rightarrow> bool" where
  "gdb_scratch b p \<longleftrightarrow> starts_with p (x_testcaseDir b @ pathSeperator @ ''GDBInit_'')"

lemma gdb_init_file_scratch [simp]: "gdb_scratch b (gdb_init_file W b k)"
  by (simp add: gdb_scratch_def gdb_init_file_def starts_with_def)

lemma leaves_mark [simp]: "S p \<Longrightarrow> leaves_alone S a (markFileForDelete p b) = leaves_alone S a b"
  by (auto simp: leaves_alone_def markFileForDelete_def oset)

lemma leaves_mark_left [simp]: "S p \<Longrightarrow> leaves_alone S (markFileForDelete p a) b = leaves_alone S a b"
  by (auto simp: leaves_alone_def markFileForDelete_def oset)

lemma GDB_attemptStart_leaves:
  assumes "GDB_attemptStart W b f s st a = Some (ok, st', a')" shows "leaves_alone (gdb_scratch b) a a'"
proof -
  let ?f = "gdb_init_file W b (tick a)"
  define a1 where "a1 = (next_tick (next_tick a))\<lparr>files := (case w_initFile W (tick (next_tick a)) of
    None \<Rightarrow> files (next_tick a) | Some bs \<Rightarrow> (files (next_tick a))(?f \<mapsto> bs))\<rparr>"
  have l: "leaves_alone (gdb_scratch b) a a1" by (auto simp: a1_def leaves_alone_def split: option.split)
  have "a' = markFileForDelete ?f a1 \<or> a' = markFileForDelete ?f (next_tick a1)
    \<or> (\<exists>pid st1. start_feeder W f pid st1 (next_tick (markFileForDelete ?f (next_tick a1))) = Some (ok, st', a'))"
    using assms by (auto simp: GDB_attemptStart_def Let_def a1_def split: if_splits)
  then show ?thesis using l
    by (auto dest!: start_feeder_leaves [where S = "gdb_scratch b"] intro: leaves_alone_trans)
qed

lemma GDB_run_leaves: "GDB_runSingleTestcase W b m i out st a = Some (ok, out', st', a') \<Longrightarrow> leaves_alone S a a'"
  by (auto simp: GDB_runSingleTestcase_def Let_def bind_eq_Some_conv leaves_alone_def split: if_splits)

lemma GDB_reproduce_leaves:
  assumes "GDB_reproduce W b f s i st a = Some (out, st', a')" shows "leaves_alone (gdb_scratch b) a a'"
proof -
  from assms obtain k st1 a1 where t: "GDB_attemptStart W b f s st (next_tick a) = Some (k, st1, a1)"
    by (auto simp: GDB_reproduce_def Let_def bind_eq_Some_conv)
  have l: "leaves_alone (gdb_scratch b) a a1" using GDB_attemptStart_leaves [OF t] by simp
  note u = assms [unfolded GDB_reproduce_def Let_def t Option.bind.bind_lunit prod.case]
  show ?thesis
  proof (cases k)
    case False
    with u l show ?thesis by simp
  next
    case True
    with u obtain g second st2 a2 a3 where r: "GDB_runSingleTestcase W b NONE i (not_full new_output)
        (st1\<lparr>m_target_and_feeder_okay := k\<rparr>) a1 = Some (g, second, st2, a2)"
      and w: "(if m_terminationType second \<noteq> CLEAN then waitForDebuggerToTerminate W a2 else Some a2) = Some a3"
      by (auto simp: bind_eq_Some_conv)
    have l2: "leaves_alone (gdb_scratch b) a a2" by (rule leaves_alone_trans [OF l GDB_run_leaves [OF r]])
    then have "leaves_alone (gdb_scratch b) a a3" using w by (auto simp: waitForDebuggerToTerminate_def split: if_splits)
    moreover have "a' = snd (GDB_reproduced W (m_terminationType (gdb_output W st a)) st2 a3)"
      using u True r w by (auto simp: split_beta)
    ultimately show ?thesis by (simp add: GDB_reproduced_def Let_def)
  qed
qed

lemma GDB_execute_leaves:
  assumes "GDB_execute W b f s n i full st a = Some (out, st', a')" shows "leaves_alone (gdb_scratch b) a a'"
proof -
  let ?st = "count_execution n st"
  from assms obtain k st1 a1 where t: "(if m_target_and_feeder_okay ?st then Some (True, ?st, a)
      else GDB_attemptStart W b f s ?st a) = Some (k, st1, a1)"
    by (auto simp: GDB_execute_def Let_def bind_eq_Some_conv)
  then have l: "leaves_alone (gdb_scratch b) a a1" by (auto split: if_splits dest: GDB_attemptStart_leaves)
  note u = assms [unfolded GDB_execute_def Let_def t Option.bind.bind_lunit prod.case]
  show ?thesis
  proof (cases k)
    case False
    with u l show ?thesis by simp
  next
    case True
    with u obtain m o1 g o2 st2 a2 where r: "GDB_runSingleTestcase W b m i o1
        (st1\<lparr>m_target_and_feeder_okay := k\<rparr>) a1 = Some (g, o2, st2, a2)"
      and w: "GDB_after_run W b f s i o2 (st2\<lparr>m_target_and_feeder_okay := g\<rparr>) a2 = Some (out, st', a')"
      by (auto simp: bind_eq_Some_conv)
    have l2: "leaves_alone (gdb_scratch b) a a2" by (rule leaves_alone_trans [OF l GDB_run_leaves [OF r]])
    have "leaves_alone (gdb_scratch b) a2 a'" using w by (auto simp: GDB_after_run_def Let_def split: if_splits dest!: GDB_reproduce_leaves)
    with l2 show ?thesis by (rule leaves_alone_trans)
  qed
qed

text \<open>The file of a testcase is not one of them.\<close>

lemma testcase_path_not_gdb:
  assumes "\<not> starts_with (m_guid (m_serviceDescriptor i)) ''GDBInit_''"
  shows "\<not> gdb_scratch b (generateTestcasePathAndFilename i (x_testcaseDir b))"
proof
  let ?g = "m_guid (m_serviceDescriptor i)" let ?n = "to_string (unat (m_localID i))"
  assume "gdb_scratch b (generateTestcasePathAndFilename i (x_testcaseDir b))"
  then have s: "take 8 (?g @ ''-'' @ ?n) = ''GDBInit_''"
    by (simp add: gdb_scratch_def starts_with_def generateTestcasePathAndFilename_def)
  have "8 \<le> length ?g"
  proof (rule ccontr)
    assume l: "\<not> 8 \<le> length ?g"
    then have "take 8 (?g @ ''-'' @ ?n) ! length ?g = CHR ''-''" by (subst nth_take) simp_all
    then have "''GDBInit_'' ! length ?g = CHR ''-''" unfolding s .
    moreover have "length ?g < length ''GDBInit_''" using l by simp
    ultimately have "CHR ''-'' \<in> set ''GDBInit_''" using nth_mem by metis
    then show False by simp
  qed
  then show False using s assms by (simp add: starts_with_def numeral_eq_Suc)
qed

end
