(* ===== verification/TRExecutors.thy ===== *)
theory TRExecutors
  imports TRQemu TRMulti TRGdb
begin

text \<open>
  The virtual calls of the main worker: which operation runs for the class of the executor. The four classes keep to
  the contract \<open>test_executor\<close> that the worker relies on; the record that holds what is outside of each is a
  parameter.
\<close>

definition runner_construct :: "dynrio \<Rightarrow> multi_env \<Rightarrow> executor \<Rightarrow> agent \<Rightarrow> agent" where
  "runner_construct D M x a = (case x of
     TestExecutorDynRioSingle b fatal \<Rightarrow> DynRioSingle_construct D b a
   | TestExecutorDynRioMulti b fatal feeder starter ms forks restart st \<Rightarrow> DynRioMulti_construct M b starter forks a
   | TestExecutorQemuUserSingle b fatal rootfs init \<Rightarrow> a
   | TestExecutorGDB b feeder starter ms restart blocks instr n st \<Rightarrow> a)"

definition runner_isSetupFunctionable :: "dynrio \<Rightarrow> qemu \<Rightarrow> multi_env \<Rightarrow> gdb_world \<Rightarrow> executor \<Rightarrow> bool" where
  "runner_isSetupFunctionable D Q M W x = (case x of
     TestExecutorDynRioSingle b fatal \<Rightarrow> DynRioSingle_isSetupFunctionable D b
   | TestExecutorDynRioMulti b fatal feeder starter ms forks restart st \<Rightarrow>
       DynRioMulti_isSetupFunctionable M b feeder starter
   | TestExecutorQemuUserSingle b fatal rootfs init \<Rightarrow> Qemu_isSetupFunctionable Q b rootfs
   | TestExecutorGDB b feeder starter ms restart blocks instr n st \<Rightarrow>
       GDB_isSetupFunctionable W b feeder starter blocks instr n)"

definition runner_execute ::
    "env \<Rightarrow> dynrio \<Rightarrow> qemu \<Rightarrow> multi_env \<Rightarrow> gdb_world \<Rightarrow> executor \<Rightarrow> FluffiTestcaseID \<Rightarrow> bool \<Rightarrow> agent \<Rightarrow>
     (DebugExecutionOutput \<times> executor \<times> agent) option" where
  "runner_execute E D Q M W x i forceFullCoverage a = (case x of
     TestExecutorDynRioSingle b fatal \<Rightarrow>
       map_option (\<lambda>(out, a). (out, x, a)) (DynRioSingle_execute E D b fatal i a)
   | TestExecutorDynRioMulti b fatal feeder starter ms forks restart st \<Rightarrow>
       map_option (\<lambda>(out, st, a). (out, TestExecutorDynRioMulti b fatal feeder starter ms forks restart st, a))
         (DynRioMulti_execute E M b fatal feeder starter forks restart i st a)
   | TestExecutorQemuUserSingle b fatal rootfs init \<Rightarrow> QemuUserSingle_execute E Q b fatal rootfs init i a
   | TestExecutorGDB b feeder starter ms restart blocks instr n st \<Rightarrow>
       map_option (\<lambda>(out, st, a). (out, TestExecutorGDB b feeder starter ms restart blocks instr n st, a))
         (GDB_execute W b feeder starter restart i forceFullCoverage st a))"

definition runner_executors :: "env \<Rightarrow> dynrio \<Rightarrow> qemu \<Rightarrow> multi_env \<Rightarrow> gdb_world \<Rightarrow> executors" where
  "runner_executors E D Q M W = \<lparr>x_construct = runner_construct D M,
     x_isSetupFunctionable = (\<lambda>x a. runner_isSetupFunctionable D Q M W x), x_execute = runner_execute E D Q M W\<rparr>"

section \<open>The contract\<close>

fun scratch_of :: "executor \<Rightarrow> string \<Rightarrow> bool" where
  "scratch_of (TestExecutorDynRioSingle b fatal) = is_log"
| "scratch_of (TestExecutorDynRioMulti b fatal feeder starter ms forks restart st) = is_log"
| "scratch_of (TestExecutorQemuUserSingle b fatal rootfs init) = qemu_scratch b (if init then rootfs else qemu_rootfs b)"
| "scratch_of (TestExecutorGDB b feeder starter ms restart blocks instr n st) = gdb_scratch b"

interpretation runner: test_executor "runner_execute E D Q M W" scratch_of "\<lambda>x. True" for E D Q M W
proof
  fix x i full a out x' a'
  assume e: "runner_execute E D Q M W x i full a = Some (out, x', a')"
  show "leaves_alone (scratch_of x) a a'"
  proof (cases x)
    case (TestExecutorDynRioSingle b fatal)
    with e show ?thesis by (auto simp: runner_execute_def dest: DynRioSingle_execute_leaves)
  next
    case (TestExecutorDynRioMulti b fatal feeder starter ms forks restart st)
    with e show ?thesis by (auto simp: runner_execute_def dest: DynRioMulti_execute_leaves)
  next
    case (TestExecutorQemuUserSingle b fatal rootfs init)
    with e have "QemuUserSingle_execute E Q b fatal rootfs init i a = Some (out, x', a')" by (simp add: runner_execute_def)
    from QemuUserSingle_execute_leaves [OF this] TestExecutorQemuUserSingle show ?thesis by simp
  next
    case (TestExecutorGDB b feeder starter ms restart blocks instr n st)
    with e show ?thesis by (auto simp: runner_execute_def dest: GDB_execute_leaves)
  qed
qed

text \<open>
  The executors work in the runner's directory, and QEMU's keeps to the new root directory below it once it is set
  up; so the file of a testcase is not one of their scratch files if its identifier has no slash and does not begin
  like the names of the files for GDB.
\<close>

fun in_directory :: "string \<Rightarrow> executor \<Rightarrow> bool" where
  "in_directory dir (TestExecutorDynRioSingle b fatal) = (x_testcaseDir b = dir)"
| "in_directory dir (TestExecutorDynRioMulti b fatal feeder starter ms forks restart st) = (x_testcaseDir b = dir)"
| "in_directory dir (TestExecutorQemuUserSingle b fatal rootfs init) =
     (x_testcaseDir b = dir \<and> (init \<longrightarrow> rootfs = qemu_rootfs b))"
| "in_directory dir (TestExecutorGDB b feeder starter ms restart blocks instr n st) = (x_testcaseDir b = dir)"

lemma testcase_not_scratch:
  assumes "in_directory dir x" and "CHR ''/'' \<notin> set (m_guid (m_serviceDescriptor i))"
    and "\<not> starts_with (m_guid (m_serviceDescriptor i)) ''GDBInit_''"
  shows "\<not> scratch_of x (generateTestcasePathAndFilename i dir)"
  using assms testcase_path_no_log testcase_path_not_scratch testcase_path_not_gdb by (cases x) auto

text \<open>They stay so from run to run.\<close>

lemma runner_execute_in_directory:
  assumes "in_directory dir x" and "runner_execute E D Q M W x i full a = Some (out, x', a')"
  shows "in_directory dir x'"
proof (cases x)
  case (TestExecutorQemuUserSingle b fatal rootfs init)
  obtain ok r a1 where d: "(if \<not> init then doInit Q b rootfs a else (True, rootfs, a)) = (ok, r, a1)"
    by (cases "if \<not> init then doInit Q b rootfs a else (True, rootfs, a)")
  have "r = qemu_rootfs b"
    using d assms(1) TestExecutorQemuUserSingle by (auto simp: doInit_def Let_def split: if_splits)
  with TestExecutorQemuUserSingle d assms show ?thesis
    by (auto simp: runner_execute_def QemuUserSingle_execute_def Let_def split: if_splits)
qed (use assms in \<open>auto simp: runner_execute_def\<close>)

end
