(* ===== verification/SharedMemProps.thy ===== *)
theory SharedMemProps
  imports SharedMem
begin

text \<open>
  What the two sides of a channel over shared memory can rely on: after the set-up it behaves as two mailboxes
  with one place each; what happens to a message that does not fit; and a failed set-up.
\<close>

section \<open>Waiting\<close>

text \<open>Nothing fails, nobody else acts, and signals do not come for ever.\<close>

definition cooperative :: "ipc_env \<Rightarrow> bool" where
  "cooperative E \<longleftrightarrow> (\<forall>k. \<not> p_fails E k) \<and> (\<forall>k os. p_others E k os = os) \<and> (\<forall>k. \<exists>j \<ge> k. \<not> p_signal E j)"

lemma pending_tick [simp]: "pending i (os\<lparr>os_tick := k\<rparr>) = pending i os"
  by (simp add: pending_def split: option.split)

lemma pselect_cooperative:
  assumes "cooperative E"
  shows "\<exists>k. pselect_loop E p i os = Some (if \<not> pending (Some p) os \<and> \<not> pending i os then select_timeout
    else select_ready (pending i os) (pending (Some p) os), os\<lparr>os_tick := k\<rparr>)"
proof -
  obtain j where "j \<ge> os_tick os" "\<not> p_signal E j" using assms unfolding cooperative_def by blast
  then show ?thesis
  proof (induction "j - os_tick os" arbitrary: os)
    case 0
    then have "\<not> p_signal E (os_tick os)" by simp
    then show ?case
      using assms by (subst pselect_loop.simps) (auto simp: cooperative_def Let_def)
  next
    case (Suc n)
    show ?case
    proof (cases "p_signal E (os_tick os)")
      case False
      then show ?thesis
        using assms by (subst pselect_loop.simps) (auto simp: cooperative_def Let_def)
    next
      case True
      have "n = j - os_tick (os_next os)" "os_tick (os_next os) \<le> j" using Suc(2,3) by simp_all
      with Suc obtain k where "pselect_loop E p i (os_next os) = Some (if \<not> pending (Some p) os \<and> \<not> pending i os then
          select_timeout else select_ready (pending i os) (pending (Some p) os), os\<lparr>os_tick := k\<rparr>)"
        using Suc(1) [of "os_next os", unfolded pending_tick] by auto
      with True show ?thesis
        using assms by (subst pselect_loop.simps) (auto simp: cooperative_def Let_def)
    qed
  qed
qed

section \<open>Two sides of a channel\<close>

text \<open>
  Both sides have the object \<open>fd\<close> in view and use the FIFO \<open>c\<close> to the client and \<open>s\<close> to the server.
\<close>

definition linked :: "SharedMemIPC \<Rightarrow> SharedMemIPC \<Rightarrow> nat \<Rightarrow> nat \<Rightarrow> nat \<Rightarrow> ipc_os \<Rightarrow> bool" where
  "linked srv cl fd c s os \<longleftrightarrow>
     m_pView srv = mapped fd \<and> m_pView cl = mapped fd \<and>
     m_fdFIFOForNewMessageForClient srv = Some c \<and> m_fdFIFOForNewMessageForClient cl = Some c \<and>
     m_fdFIFOForNewMessageForServer srv = Some s \<and> m_fdFIFOForNewMessageForServer cl = Some s \<and> c \<noteq> s \<and>
     m_sharedMemorySize srv = m_sharedMemorySize cl \<and> 2 * (int MAX_PATH + 9) < m_sharedMemorySize srv \<and>
     m_sharedMemorySize srv < 2 ^ 31 \<and> length (shm_mem os fd) = nat (m_sharedMemorySize srv)"

text \<open>What the half at \<open>off\<close> holds for the FIFO \<open>p\<close>.\<close>

definition holds :: "int \<Rightarrow> nat \<Rightarrow> nat \<Rightarrow> nat \<Rightarrow> ipc_os \<Rightarrow> SharedMemMessage option \<Rightarrow> bool" where
  "holds len fd p off os b \<longleftrightarrow>
     (case b of None \<Rightarrow> fifo_bytes os p = 0
      | Some m \<Rightarrow> fifo_bytes os p > 0 \<and> message_at off (shm_mem os fd) = Some m \<and> fits len m)"

lemma holds_tick [simp]: "holds len fd p off (os\<lparr>os_tick := k\<rparr>) b = holds len fd p off os b"
  by (simp add: holds_def split: option.split)

lemma linked_tick [simp]: "linked srv cl fd c s (os\<lparr>os_tick := k\<rparr>) = linked srv cl fd c s os"
  by (simp add: linked_def)

lemma send_message_fits:
  assumes "m_pView ipc = mapped fd" and "m_sharedMemorySize ipc = len" and "2 * (int MAX_PATH + 9) < len" "len < 2 ^ 31"
    and "length (shm_mem os fd) = nat len" and "off = 0 \<or> off = nat (len div 2)" and "fits len m" and "\<forall>k. \<not> p_fails E k"
  shows "\<exists>os'. send_message E ipc off (Some p) m os = Some (True, os') \<and> holds len fd p off os' (Some m) \<and>
    length (shm_mem os' fd) = nat len \<and>
    (\<forall>b. off + off' = nat (len div 2) \<and> off \<noteq> off' \<and> p \<noteq> p' \<and> holds len fd p' off' os b \<longrightarrow> holds len fd p' off' os' b) \<and>
    (\<forall>q. q \<noteq> p \<longrightarrow> fifo_bytes os' q = fifo_bytes os q)"
proof -
  let ?mem = "shm_mem os fd"
  have d: "int (length (m_data m)) < len div 2 - int (MAX_PATH + 8)" using assms(7) by (simp add: fits_def getDataSize_def)
  have room: "off + MAX_PATH + 8 + length (m_data m) \<le> length ?mem" using assms(3,5,6) d by auto
  obtain mem' where p: "place_message off len m ?mem = Some (True, mem')" and at: "message_at off mem' = Some m"
    and o: "same_outside (off + MAX_PATH) (off + MAX_PATH + 8 + length (m_data m)) ?mem mem'"
  proof -
    have "length ?mem < 2 ^ 31" using assms(4,5) by simp
    from place_message_fits [OF room assms(7) this] that show thesis by blast
  qed
  let ?os = "(os_next os)\<lparr>shm_mem := (shm_mem os)(fd := mem'), fifo_bytes := (fifo_bytes os)(p := Suc (fifo_bytes os p))\<rparr>"
  have s: "send_message E ipc off (Some p) m os = Some (True, ?os)"
    using assms(1,2,8) p by (simp add: send_message_def notify_def)
  have "holds len fd p' off' ?os b" if b: "holds len fd p' off' os b" and off: "off + off' = nat (len div 2)" "off \<noteq> off'" "p \<noteq> p'" for b
  proof (cases b)
    case None
    then show ?thesis using b off by (simp add: holds_def)
  next
    case (Some n)
    then have n: "message_at off' ?mem = Some n" "fits len n" "fifo_bytes os p' > 0" using b by (simp_all add: holds_def)
    then have "int (length (m_data n)) < len div 2 - int (MAX_PATH + 8)" by (simp add: fits_def getDataSize_def)
    then have "off' + MAX_PATH + 8 + length (m_data n) \<le> off + MAX_PATH \<or> off + MAX_PATH + 8 + length (m_data m) \<le> off' + MAX_PATH"
      using assms(6) off d by auto
    from message_at_outside [OF o n(1) this] n off Some show ?thesis by (simp add: holds_def)
  qed
  then show ?thesis
    using s at o assms(5,7) by (intro exI [of _ ?os]) (auto simp: holds_def same_outside_def)
qed

lemma wait_message_holds:
  assumes "m_pView ipc = mapped fd" and "cooperative E" and "holds len fd p off os b"
  shows "\<exists>os'. wait_message E ipc off (Some p) None os = Some (case b of None \<Rightarrow> False | Some m \<Rightarrow> True,
      case b of None \<Rightarrow> mk_message SHARED_MEM_MESSAGE_TRANSMISSION_TIMEOUT [] | Some m \<Rightarrow> m, os') \<and>
    holds len fd p off os' None \<and> shm_mem os' = shm_mem os \<and>
    (\<forall>off' p' b'. p \<noteq> p' \<longrightarrow> holds len fd p' off' os' b' = holds len fd p' off' os b')"
proof -
  obtain k where k: "pselect_loop E p None os = Some (if fifo_bytes os p = 0 then select_timeout
      else select_ready False True, os\<lparr>os_tick := k\<rparr>)"
    using pselect_cooperative [OF assms(2), of p None os] by (auto simp: pending_def split: if_splits)
  show ?thesis
  proof (cases b)
    case None
    then show ?thesis
      using assms(1,3) k by (intro exI [of _ "os\<lparr>os_tick := k\<rparr>"]) (simp add: wait_message_def, simp add: holds_def)
  next
    case (Some m)
    then have m: "fifo_bytes os p > 0" "message_at off (shm_mem os fd) = Some m" using assms(3) by (simp_all add: holds_def)
    let ?os = "os\<lparr>os_tick := Suc k, fifo_bytes := (fifo_bytes os)(p := 0)\<rparr>"
    have "wait_message E ipc off (Some p) None os = Some (True, m, ?os)"
      using assms(1,2) k m by (simp add: wait_message_def drain_def cooperative_def)
    then show ?thesis using Some by (intro exI [of _ ?os]) (auto simp: holds_def split: option.splits)
  qed
qed

text \<open>The answer that the other side gives during the wait is received.\<close>

lemma wait_message_after_others:
  assumes "m_pView ipc = mapped fd" and "\<forall>k. \<not> p_fails E k \<and> \<not> p_signal E k"
    and "holds len fd p off (p_others E (os_tick os) os) (Some m)"
    and "\<not> pending interruptFD (p_others E (os_tick os) os)"
  shows "\<exists>os'. wait_message E ipc off (Some p) interruptFD os = Some (True, m, os') \<and>
    shm_mem os' = shm_mem (p_others E (os_tick os) os) \<and> fifo_bytes os' = (fifo_bytes (p_others E (os_tick os) os))(p := 0)"
proof -
  let ?os = "(p_others E (os_tick os) os)\<lparr>os_tick := Suc (os_tick os)\<rparr>"
  have m: "fifo_bytes ?os p > 0" "message_at off (shm_mem ?os fd) = Some m" using assms(3) by (simp_all add: holds_def)
  have "pselect_loop E p interruptFD os = Some (select_ready False True, ?os)"
    using assms(2,4) m(1) by (subst pselect_loop.simps) (simp add: Let_def, simp add: pending_def)
  then show ?thesis using assms(1,2) m by (simp add: wait_message_def drain_def)
qed

section \<open>Setting up\<close>

lemma c_string_prefix:
  assumes "CHR 0x00 \<in> set (take n xs)" and "take n ys = take n xs"
  shows "c_string ys = c_string xs"
proof -
  have "c_string (take n zs @ drop n zs) = c_string (take n zs)" if "CHR 0x00 \<in> set (take n zs)" for zs
    unfolding c_string_def using that by (intro takeWhile_append1 [where x = "CHR 0x00"]) auto
  from this [of xs] this [of ys] assms show ?thesis unfolding append_take_drop_id by simp
qed

lemma name_at_tick [simp]: "name_at fd off (os\<lparr>os_tick := k\<rparr>) = name_at fd off os"
  by (simp add: name_at_def)

definition fifo_name :: "ipc_env \<Rightarrow> nat \<Rightarrow> string" where
  "fifo_name E k = take MAX_PATH (''/tmp/FLUFFI_SharedMem_FIFO_'' @ p_guid E k)"

lemma put_name_mem:
  "shm_mem (put_name E fd off os) fd = put_bytes off (fifo_name E (os_tick os)) (shm_mem os fd)"
  "put_name E fd off os = (os_next os)\<lparr>shm_mem := (shm_mem os)(fd := put_bytes off (fifo_name E (os_tick os)) (shm_mem os fd))\<rparr>"
  by (simp_all add: put_name_def fifo_name_def)

text \<open>The first name is not touched by writing the second.\<close>

lemma first_name_stays:
  assumes "MAX_PATH < half" and "half + MAX_PATH \<le> n" and "mem = replicate n (CHR 0x00)"
  shows "c_string (put_bytes half (fifo_name E j) (put_bytes 0 (fifo_name E k) mem)) = c_string (put_bytes 0 (fifo_name E k) mem)"
proof (rule c_string_prefix [where n = half])
  let ?m = "put_bytes 0 (fifo_name E k) mem"
  have l: "length (fifo_name E k) \<le> MAX_PATH" by (simp add: fifo_name_def)
  have "take half ?m = fifo_name E k @ replicate (half - length (fifo_name E k)) (CHR 0x00)"
    using assms l by (simp add: put_bytes_def min_def)
  then show "CHR 0x00 \<in> set (take half ?m)" using assms(1) l by simp
  show "take half (put_bytes half (fifo_name E j) ?m) = take half ?m"
    using assms l by (simp add: put_bytes_def)
qed

lemma initialize_fifos_success:
  assumes "initialize_fifos E fd ipc os = (True, ipc', os')" and "shm_mem os fd = replicate (nat len) (CHR 0x00)"
    and "m_sharedMemorySize ipc = len" and "2 * (int MAX_PATH + 9) < len"
  shows "\<exists>c s. ipc' = ipc\<lparr>m_fdSharedMem := Some fd, m_pView := mapped fd, m_fdFIFOForNewMessageForClient := Some c,
      m_fdFIFOForNewMessageForServer := Some s\<rparr> \<and> c \<noteq> s \<and> fifo_bytes os' c = 0 \<and> fifo_bytes os' s = 0 \<and>
    fifo_names os' (name_at fd 0 os') = Some c \<and> fifo_names os' (name_at fd (server_half ipc) os') = Some s \<and>
    length (shm_mem os' fd) = nat len \<and> shm_names os' = shm_names os \<and> os_fresh os \<le> c \<and> os_fresh os \<le> s \<and>
    (\<forall>q. q < os_fresh os \<longrightarrow> fifo_bytes os' q = fifo_bytes os q)"
proof -
  let ?h = "server_half ipc"
  let ?os1 = "put_name E fd 0 os"
  let ?n1 = "name_at fd 0 ?os1"
  have h: "MAX_PATH < ?h" "?h + MAX_PATH \<le> nat len" using assms(3,4) by (auto simp: server_half_def)
  have l: "length (fifo_name E k) \<le> MAX_PATH" for k by (simp add: fifo_name_def)
  obtain os2 where os2: "mkfifo E ?n1 ?os1 = (True, os2)" using assms(1)
    by (auto simp: initialize_fifos_def Let_def split: prod.splits bool.splits)
  let ?os3 = "put_name E fd ?h os2"
  let ?n2 = "name_at fd ?h ?os3"
  from assms(1) os2 obtain os4 where os4: "mkfifo E ?n2 ?os3 = (True, os4)"
    by (auto simp: initialize_fifos_def Let_def split: prod.splits bool.splits)
  from os2 have o2: "os2 = (os_next ?os1)\<lparr>fifo_names := (fifo_names ?os1)(?n1 \<mapsto> os_fresh ?os1),
      fifo_bytes := (fifo_bytes ?os1)(os_fresh ?os1 := 0), os_fresh := Suc (os_fresh ?os1)\<rparr>"
    by (simp add: mkfifo_def split: if_splits)
  from os4 have o4: "os4 = (os_next ?os3)\<lparr>fifo_names := (fifo_names ?os3)(?n2 \<mapsto> os_fresh ?os3),
      fifo_bytes := (fifo_bytes ?os3)(os_fresh ?os3 := 0), os_fresh := Suc (os_fresh ?os3)\<rparr>"
    and new: "fifo_names ?os3 ?n2 = None"
    by (simp_all add: mkfifo_def split: if_splits)
  have m: "shm_mem os4 fd = put_bytes ?h (fifo_name E (os_tick os2)) (put_bytes 0 (fifo_name E (os_tick os)) (shm_mem os fd))"
    by (simp add: o4 o2 put_name_mem)
  have n1: "name_at fd 0 os4 = ?n1"
    unfolding name_at_def m drop_0 put_name_mem(1) using h assms(2) by (intro first_name_stays) auto
  have n2: "name_at fd ?h os4 = ?n2" by (simp add: o4 name_at_def)
  have f1: "fifo_names os4 ?n1 = Some (os_fresh os)" and f2: "fifo_names os4 ?n2 = Some (Suc (os_fresh os))"
    using new by (auto simp: o4 o2 put_name_mem(2))
  have len: "length (shm_mem os4 fd) = nat len"
  proof -
    have l0: "length (put_bytes 0 (fifo_name E (os_tick os)) (shm_mem os fd)) = nat len"
      using l [of "os_tick os"] h assms(2) by simp
    then show ?thesis using l [of "os_tick os2"] h by (simp add: m)
  qed
  have "(if p_fails E (os_tick os4) then None else Some (os_fresh os)) = Some (os_fresh os)"
    and "(if p_fails E (Suc (os_tick os4)) then None else Some (Suc (os_fresh os))) = Some (Suc (os_fresh os))"
    and r: "ipc' = ipc\<lparr>m_fdSharedMem := Some fd, m_pView := mapped fd, m_fdFIFOForNewMessageForClient := Some (os_fresh os),
      m_fdFIFOForNewMessageForServer := Some (Suc (os_fresh os))\<rparr>" "os' = os4\<lparr>os_tick := Suc (Suc (os_tick os4))\<rparr>"
    using assms(1) n1 n2 f1 f2
    by (simp_all add: initialize_fifos_def Let_def os2 os4 open_fifo_def split: if_splits)
  have na: "name_at fd off os' = name_at fd off os4" for off by (simp add: r)
  show ?thesis
    unfolding na
    using n1 n2 f1 f2 len by (intro exI [of _ "os_fresh os"] exI [of _ "Suc (os_fresh os)"])
      (simp add: r, simp add: o4 o2 put_name_mem(2))
qed

text \<open>After the set-up of both sides the mailboxes are empty.\<close>

lemma set_up_linked:
  assumes srv: "initializeAsServer E (new_SharedMemIPC name len) os0 = (True, srv, os1)"
    and cl: "initializeAsClient E' (new_SharedMemIPC name len) os1 = (True, cl, os2)" and "len < 2 ^ 31"
  shows "\<exists>fd c s. linked srv cl fd c s os2 \<and> holds len fd c 0 os2 None \<and> holds len fd s (nat (len div 2)) os2 None \<and>
    os_fresh os0 \<le> c \<and> os_fresh os0 \<le> s \<and> (\<forall>q. q < os_fresh os0 \<longrightarrow> fifo_bytes os2 q = fifo_bytes os0 q) \<and>
    (\<exists>k. os2 = os1\<lparr>os_tick := k\<rparr>)"
proof -
  let ?ipc = "new_SharedMemIPC name len"
  have big: "2 * (int MAX_PATH + 9) < len"
    using srv by (auto simp: initializeAsServer_def Let_def new_SharedMemIPC_def split: if_splits)
  obtain fd a1 where a1: "shm_create E name os0 = (Some fd, a1)" using srv
    by (auto simp: initializeAsServer_def Let_def new_SharedMemIPC_def split: if_splits prod.splits option.splits)
  from srv a1 big obtain a2 where a2: "ftruncate E fd len a1 = (True, a2)"
    by (auto simp: initializeAsServer_def Let_def new_SharedMemIPC_def split: if_splits prod.splits bool.splits)
  from srv a1 a2 big obtain a3 where a3: "mmap E len a2 = (True, a3)"
    by (auto simp: initializeAsServer_def Let_def new_SharedMemIPC_def split: if_splits prod.splits bool.splits)
  let ?a = "a3\<lparr>shm_mem := (shm_mem a3)(fd := replicate (nat len) (CHR 0x00))\<rparr>"
  have i: "initialize_fifos E fd ?ipc ?a = (True, srv, os1)"
    using srv a1 a2 a3 big by (simp add: initializeAsServer_def Let_def new_SharedMemIPC_def)
  have names: "shm_names a3 name = Some fd" and fresh: "os_fresh os0 \<le> os_fresh a3" "fifo_bytes a3 = fifo_bytes os0"
    using a1 a2 a3 by (auto simp: shm_create_def ftruncate_def mmap_def split: if_splits)
  from initialize_fifos_success [OF i, of len] big obtain c s where
    s: "srv = ?ipc\<lparr>m_fdSharedMem := Some fd, m_pView := mapped fd, m_fdFIFOForNewMessageForClient := Some c,
      m_fdFIFOForNewMessageForServer := Some s\<rparr>" "c \<noteq> s" "fifo_bytes os1 c = 0" "fifo_bytes os1 s = 0"
    "fifo_names os1 (name_at fd 0 os1) = Some c" "fifo_names os1 (name_at fd (server_half ?ipc) os1) = Some s"
    "length (shm_mem os1 fd) = nat len" "shm_names os1 = shm_names a3" "os_fresh a3 \<le> c" "os_fresh a3 \<le> s"
    "\<forall>q. q < os_fresh a3 \<longrightarrow> fifo_bytes os1 q = fifo_bytes a3 q"
    by (auto simp: new_SharedMemIPC_def)
  obtain b1 where b1: "shm_open E' name os1 = (Some fd, b1)" and b1_eq: "b1 = os_next os1"
    using cl names s(8)
    by (auto simp: initializeAsClient_def Let_def new_SharedMemIPC_def shm_open_def split: if_splits option.splits)
  from cl b1 obtain b2 where b2: "ftruncate E' fd len b1 = (True, b2)"
    by (auto simp: initializeAsClient_def Let_def new_SharedMemIPC_def split: if_splits prod.splits bool.splits)
  then have b2_eq: "b2 = os_next b1"
    using s(7) b1_eq by (auto simp: ftruncate_def fun_upd_idem split: if_splits)
  have n: "name_at fd off b2 = name_at fd off os1" "fifo_names b2 = fifo_names os1" for off
    by (simp_all add: b2_eq b1_eq name_at_def)
  have "cl = ?ipc\<lparr>m_fdSharedMem := Some fd, m_pView := mapped fd, m_fdFIFOForNewMessageForClient := Some c,
      m_fdFIFOForNewMessageForServer := Some s\<rparr> \<and> (\<exists>k. os2 = os1\<lparr>os_tick := k\<rparr>)"
    using cl b1 b2 s(5,6) n
    by (auto simp: initializeAsClient_def Let_def new_SharedMemIPC_def mmap_def open_fifo_def server_half_def b2_eq b1_eq
        split: if_splits bool.splits)
  then show ?thesis
    using s big assms(3) fresh
    by (intro exI [of _ fd] exI [of _ c] exI [of _ s]) (auto simp: linked_def holds_def new_SharedMemIPC_def)
qed

text \<open>When nothing fails and the names are new, the set-up works.\<close>

definition good_guids :: "ipc_env \<Rightarrow> bool" where
  "good_guids E \<longleftrightarrow> (\<forall>k. CHR 0x00 \<notin> set (p_guid E k))"

lemma c_string_zeros [simp]: "c_string (replicate n (CHR 0x00)) = []"
  by (cases n) (simp_all add: c_string_def)

lemma fifo_name_text:
  assumes "good_guids E" shows "c_string (fifo_name E k @ replicate n (CHR 0x00)) = fifo_name E k"
proof -
  have "set (fifo_name E k) \<subseteq> set (''/tmp/FLUFFI_SharedMem_FIFO_'' @ p_guid E k)"
    unfolding fifo_name_def by (rule set_take_subset)
  with assms have "CHR 0x00 \<notin> set (fifo_name E k)" by (auto simp: good_guids_def)
  then show ?thesis by (simp add: c_string_append)
qed

lemma names_written:
  assumes "good_guids E" and "MAX_PATH < half" and "half + MAX_PATH \<le> n"
  shows "c_string (put_bytes 0 (fifo_name E i) (replicate n (CHR 0x00))) = fifo_name E i"
    and "c_string (drop half (put_bytes half (fifo_name E j) (put_bytes 0 (fifo_name E i) (replicate n (CHR 0x00))))) =
      fifo_name E j"
proof -
  have l: "length (fifo_name E k) \<le> MAX_PATH" for k by (simp add: fifo_name_def)
  have m: "put_bytes 0 (fifo_name E i) (replicate n (CHR 0x00)) = fifo_name E i @ replicate (n - length (fifo_name E i)) (CHR 0x00)"
    by (simp add: put_bytes_def)
  then show "c_string (put_bytes 0 (fifo_name E i) (replicate n (CHR 0x00))) = fifo_name E i"
    using fifo_name_text [OF assms(1)] by simp
  have "drop half (put_bytes half (fifo_name E j) (fifo_name E i @ replicate (n - length (fifo_name E i)) (CHR 0x00))) =
      fifo_name E j @ replicate (n - (half + length (fifo_name E j))) (CHR 0x00)"
    using l [of i] l [of j] assms(2,3) by (simp add: put_bytes_def)
  then show "c_string (drop half (put_bytes half (fifo_name E j) (put_bytes 0 (fifo_name E i) (replicate n (CHR 0x00))))) =
      fifo_name E j"
    unfolding m using fifo_name_text [OF assms(1)] by simp
qed

lemma set_up_succeeds:
  assumes "\<forall>k. \<not> p_fails E k" and "good_guids E" and "shm_names os name = None" and "fifo_names os = Map.empty"
    and "2 * (int MAX_PATH + 9) < len" and "fifo_name E (os_tick os + 3) \<noteq> fifo_name E (os_tick os + 5)"
  shows "\<exists>srv os1 cl os2. initializeAsServer E (new_SharedMemIPC name len) os = (True, srv, os1) \<and>
    initializeAsClient E (new_SharedMemIPC name len) os1 = (True, cl, os2)"
proof -
  let ?ipc = "new_SharedMemIPC name len" let ?fd = "os_fresh os" let ?h = "nat (len div 2)"
  let ?z = "replicate (nat len) (CHR 0x00)"
  have h: "MAX_PATH < ?h" "?h + MAX_PATH \<le> nat len" using assms(5) by auto
  let ?a = "os\<lparr>shm_names := (shm_names os)(name \<mapsto> ?fd), os_fresh := Suc ?fd, os_tick := os_tick os + 3,
    shm_mem := (shm_mem os)(?fd := ?z)\<rparr>"
  have "initializeAsServer E ?ipc os = initialize_fifos E ?fd ?ipc ?a"
    using assms by (simp add: initializeAsServer_def Let_def new_SharedMemIPC_def shm_create_def ftruncate_def mmap_def numeral_eq_Suc)
  moreover have "\<exists>srv os1. initialize_fifos E ?fd ?ipc ?a = (True, srv, os1) \<and> shm_names os1 = shm_names ?a"
  proof -
    let ?os1 = "put_name E ?fd 0 ?a"
    let ?os2 = "(os_next ?os1)\<lparr>fifo_names := [fifo_name E (os_tick ?a) \<mapsto> Suc ?fd], fifo_bytes := (fifo_bytes os)(Suc ?fd := 0),
      os_fresh := Suc (Suc ?fd)\<rparr>"
    have n1: "name_at ?fd 0 ?os1 = fifo_name E (os_tick ?a)"
      using names_written(1) [OF assms(2) h] by (simp add: name_at_def put_name_mem(1))
    have m1: "mkfifo E (fifo_name E (os_tick ?a)) ?os1 = (True, ?os2)"
      using assms(1,4) by (simp add: mkfifo_def put_name_mem(2))
    let ?os3 = "put_name E ?fd ?h ?os2"
    have mem: "shm_mem ?os3 ?fd = put_bytes ?h (fifo_name E (os_tick ?os2)) (put_bytes 0 (fifo_name E (os_tick ?a)) ?z)"
      by (simp add: put_name_mem)
    have n2: "name_at ?fd ?h ?os3 = fifo_name E (os_tick ?os2)"
      unfolding name_at_def mem by (rule names_written(2) [OF assms(2) h])
    have ne: "fifo_name E (os_tick ?os2) \<noteq> fifo_name E (os_tick ?a)"
      using assms(6) by (simp add: put_name_mem(2) numeral_eq_Suc)
    let ?os4 = "(os_next ?os3)\<lparr>fifo_names := (fifo_names ?os2)(fifo_name E (os_tick ?os2) \<mapsto> Suc (Suc ?fd)),
      fifo_bytes := (fifo_bytes ?os2)(Suc (Suc ?fd) := 0), os_fresh := Suc (Suc (Suc ?fd))\<rparr>"
    have m2: "mkfifo E (fifo_name E (os_tick ?os2)) ?os3 = (True, ?os4)"
      using assms(1) ne by (simp add: mkfifo_def put_name_mem(2))
    have n3: "name_at ?fd 0 ?os4 = fifo_name E (os_tick ?a)" "name_at ?fd ?h ?os4 = fifo_name E (os_tick ?os2)"
    proof -
      have "name_at ?fd off ?os4 = name_at ?fd off ?os3" for off by (simp add: name_at_def)
      moreover have "name_at ?fd 0 ?os3 = fifo_name E (os_tick ?a)"
        unfolding name_at_def mem drop_0 using first_name_stays [OF h refl] names_written(1) [OF assms(2) h] by simp
      ultimately show "name_at ?fd 0 ?os4 = fifo_name E (os_tick ?a)" "name_at ?fd ?h ?os4 = fifo_name E (os_tick ?os2)"
        using n2 by simp_all
    qed
    have half: "server_half ?ipc = ?h" by (simp add: server_half_def new_SharedMemIPC_def)
    have o1: "open_fifo E (name_at ?fd 0 ?os4) ?os4 = (Some (Suc ?fd), os_next ?os4)"
      unfolding n3 open_fifo_def using assms(1) ne by simp
    have o2: "open_fifo E (name_at ?fd ?h (os_next ?os4)) (os_next ?os4) = (Some (Suc (Suc ?fd)), os_next (os_next ?os4))"
      unfolding name_at_tick n3 open_fifo_def using assms(1) by simp
    have s: "shm_names (os_next (os_next ?os4)) = shm_names ?a" by (simp add: put_name_mem(2))
    show ?thesis
      unfolding initialize_fifos_def Let_def half n1 m1 prod.case bool.case n2 m2 o1 option.case o2 using s by blast
  qed
  ultimately obtain srv os1 where srv: "initializeAsServer E ?ipc os = (True, srv, os1)"
    and i: "initialize_fifos E ?fd ?ipc ?a = (True, srv, os1)" and nm: "shm_names os1 = shm_names ?a" by auto
  from initialize_fifos_success [OF i, of len] assms(5) obtain c s where
    f: "fifo_names os1 (name_at ?fd 0 os1) = Some c" "fifo_names os1 (name_at ?fd ?h os1) = Some s"
       "length (shm_mem os1 ?fd) = nat len" by (auto simp: new_SharedMemIPC_def server_half_def)
  have "ftruncate E ?fd len (os_next os1) = (True, os_next (os_next os1))"
    using assms(1,5) f(3) by (simp add: ftruncate_def fun_upd_idem)
  then have "\<exists>cl os2. initializeAsClient E ?ipc os1 = (True, cl, os2)"
    using assms(1,5) f nm
    by (simp add: initializeAsClient_def Let_def new_SharedMemIPC_def shm_open_def mmap_def open_fifo_def server_half_def)
  with srv show ?thesis by blast
qed

section \<open>Two mailboxes\<close>

text \<open>An operation of either side, and what it yields.\<close>

datatype channel_op = To_Client SharedMemMessage | To_Server SharedMemMessage | Client_Waits | Server_Waits

datatype reply = Sent bool | Received bool SharedMemMessage

fun run_op :: "ipc_env \<Rightarrow> SharedMemIPC \<Rightarrow> SharedMemIPC \<Rightarrow> channel_op \<Rightarrow> ipc_os \<Rightarrow> (reply \<times> ipc_os) option" where
  "run_op E srv cl (To_Client m) os = map_option (map_prod Sent id) (sendMessageToClient E srv m os)"
| "run_op E srv cl (To_Server m) os = map_option (map_prod Sent id) (sendMessageToServer E cl m os)"
| "run_op E srv cl Client_Waits os =
     map_option (\<lambda>(ok, m, os). (Received ok m, os)) (waitForNewMessageToClient E cl None os)"
| "run_op E srv cl Server_Waits os =
     map_option (\<lambda>(ok, m, os). (Received ok m, os)) (waitForNewMessageToServer E srv None os)"

fun run_ops :: "ipc_env \<Rightarrow> SharedMemIPC \<Rightarrow> SharedMemIPC \<Rightarrow> channel_op list \<Rightarrow> ipc_os \<Rightarrow> reply list option" where
  "run_ops E srv cl [] os = Some []"
| "run_ops E srv cl (x # xs) os = do {
     (r, os) \<leftarrow> run_op E srv cl x os;
     rs \<leftarrow> run_ops E srv cl xs os;
     Some (r # rs)
   }"

text \<open>The specification: a mailbox for each direction, in which a message takes the place of the one before.\<close>

type_synonym boxes = "SharedMemMessage option \<times> SharedMemMessage option"

definition take_out :: "SharedMemMessage option \<Rightarrow> reply" where
  "take_out b = (case b of None \<Rightarrow> Received False (mk_message SHARED_MEM_MESSAGE_TRANSMISSION_TIMEOUT [])
     | Some m \<Rightarrow> Received True m)"

fun box_op :: "channel_op \<Rightarrow> boxes \<Rightarrow> reply \<times> boxes" where
  "box_op (To_Client m) (b, d) = (Sent True, Some m, d)"
| "box_op (To_Server m) (b, d) = (Sent True, b, Some m)"
| "box_op Client_Waits (b, d) = (take_out b, None, d)"
| "box_op Server_Waits (b, d) = (take_out d, b, None)"

fun box_ops :: "channel_op list \<Rightarrow> boxes \<Rightarrow> reply list" where
  "box_ops [] bs = []"
| "box_ops (x # xs) bs = (let (r, bs) = box_op x bs in r # box_ops xs bs)"

fun op_fits :: "int \<Rightarrow> channel_op \<Rightarrow> bool" where
  "op_fits len (To_Client m) = fits len m"
| "op_fits len (To_Server m) = fits len m"
| "op_fits len _ = True"

definition boxes_held :: "int \<Rightarrow> nat \<Rightarrow> nat \<Rightarrow> nat \<Rightarrow> boxes \<Rightarrow> ipc_os \<Rightarrow> bool" where
  "boxes_held len fd c s bs os \<longleftrightarrow> holds len fd c 0 os (fst bs) \<and> holds len fd s (nat (len div 2)) os (snd bs)"

lemma run_op_boxes:
  assumes "linked srv cl fd c s os" and "m_sharedMemorySize srv = len" and "boxes_held len fd c s bs os"
    and "cooperative E" and "op_fits len x"
  shows "\<exists>os'. run_op E srv cl x os = Some (fst (box_op x bs), os') \<and> linked srv cl fd c s os' \<and>
    boxes_held len fd c s (snd (box_op x bs)) os' \<and>
    (\<forall>q. q \<noteq> c \<longrightarrow> q \<noteq> s \<longrightarrow> (fifo_bytes os' q = 0) = (fifo_bytes os q = 0))"
proof -
  note l = assms(1) [unfolded linked_def]
  have h: "server_half srv = nat (len div 2)" "server_half cl = nat (len div 2)"
    using l assms(2) by (simp_all add: server_half_def)
  have "538 < len" using l assms(2) by (simp add: MAX_PATH_def)
  then have "1 \<le> len div 2" by presburger
  then have pos: "nat (len div 2) \<noteq> 0" by simp
  obtain b d where bs: "bs = (b, d)" by (cases bs)
  have hb: "holds len fd c 0 os b" "holds len fd s (nat (len div 2)) os d" using assms(3) bs by (simp_all add: boxes_held_def)
  show ?thesis
  proof (cases x)
    case (To_Client m)
    then have "fits len m" using assms(5) by simp
    with send_message_fits [of srv fd len os 0 m E c "nat (len div 2)" s] l assms(2,4) pos obtain os' where
      s: "send_message E srv 0 (Some c) m os = Some (True, os')" and h1: "holds len fd c 0 os' (Some m)"
      and n: "length (shm_mem os' fd) = nat len"
      and o: "\<forall>b. holds len fd s (nat (len div 2)) os b \<longrightarrow> holds len fd s (nat (len div 2)) os' b"
      and q: "\<forall>q. q \<noteq> c \<longrightarrow> fifo_bytes os' q = fifo_bytes os q"
      unfolding cooperative_def by auto
    have "run_op E srv cl x os = Some (Sent True, os')" using s l To_Client by (simp add: sendMessageToClient_def)
    moreover have "linked srv cl fd c s os'" using assms(1,2) n by (simp add: linked_def)
    ultimately show ?thesis
      using h1 o q hb(2) To_Client bs by (intro exI [of _ os']) (simp add: boxes_held_def)
  next
    case (To_Server m)
    then have "fits len m" using assms(5) by simp
    with send_message_fits [of cl fd len os "nat (len div 2)" m E s 0 c] l assms(2,4) pos obtain os' where
      s: "send_message E cl (nat (len div 2)) (Some s) m os = Some (True, os')"
      and h2: "holds len fd s (nat (len div 2)) os' (Some m)" and n: "length (shm_mem os' fd) = nat len"
      and o: "\<forall>b. holds len fd c 0 os b \<longrightarrow> holds len fd c 0 os' b"
      and q: "\<forall>q. q \<noteq> s \<longrightarrow> fifo_bytes os' q = fifo_bytes os q"
      unfolding cooperative_def by auto
    have "run_op E srv cl x os = Some (Sent True, os')" using s l h To_Server by (simp add: sendMessageToServer_def)
    moreover have "linked srv cl fd c s os'" using assms(1,2) n by (simp add: linked_def)
    ultimately show ?thesis
      using h2 o q hb(1) To_Server bs by (intro exI [of _ os']) (simp add: boxes_held_def)
  next
    case Client_Waits
    from wait_message_holds [of cl fd E len c 0 os b] l assms(4) hb(1) obtain os' where
      w: "wait_message E cl 0 (Some c) None os = Some (case b of None \<Rightarrow> False | Some m \<Rightarrow> True,
        case b of None \<Rightarrow> mk_message SHARED_MEM_MESSAGE_TRANSMISSION_TIMEOUT [] | Some m \<Rightarrow> m, os')"
      and h1: "holds len fd c 0 os' None" and mem: "shm_mem os' = shm_mem os"
      and o: "\<forall>off' p' b'. c \<noteq> p' \<longrightarrow> holds len fd p' off' os' b' = holds len fd p' off' os b'"
      by blast
    have h2: "holds len fd s (nat (len div 2)) os' d" using o hb(2) l by blast
    have q: "\<forall>q. q \<noteq> c \<longrightarrow> q \<noteq> s \<longrightarrow> (fifo_bytes os' q = 0) = (fifo_bytes os q = 0)"
      using o [rule_format, of _ 0 None] by (auto simp: holds_def)
    have r: "run_op E srv cl x os = Some (take_out b, os')"
      using w l Client_Waits by (simp add: waitForNewMessageToClient_def take_out_def split: option.splits)
    have "linked srv cl fd c s os'" using assms(1) mem by (simp add: linked_def)
    then show ?thesis using r h1 h2 q Client_Waits bs by (intro exI [of _ os']) (simp add: boxes_held_def)
  next
    case Server_Waits
    from wait_message_holds [of srv fd E len s "nat (len div 2)" os d] l assms(4) hb(2) obtain os' where
      w: "wait_message E srv (nat (len div 2)) (Some s) None os = Some (case d of None \<Rightarrow> False | Some m \<Rightarrow> True,
        case d of None \<Rightarrow> mk_message SHARED_MEM_MESSAGE_TRANSMISSION_TIMEOUT [] | Some m \<Rightarrow> m, os')"
      and h2: "holds len fd s (nat (len div 2)) os' None" and mem: "shm_mem os' = shm_mem os"
      and o: "\<forall>off' p' b'. s \<noteq> p' \<longrightarrow> holds len fd p' off' os' b' = holds len fd p' off' os b'"
      by blast
    have h1: "holds len fd c 0 os' b" using o hb(1) l by metis
    have q: "\<forall>q. q \<noteq> c \<longrightarrow> q \<noteq> s \<longrightarrow> (fifo_bytes os' q = 0) = (fifo_bytes os q = 0)"
      using o [rule_format, of _ 0 None] by (auto simp: holds_def)
    have r: "run_op E srv cl x os = Some (take_out d, os')"
      using w l Server_Waits h by (simp add: waitForNewMessageToServer_def take_out_def split: option.splits)
    have "linked srv cl fd c s os'" using assms(1) mem by (simp add: linked_def)
    then show ?thesis using r h1 h2 q Server_Waits bs by (intro exI [of _ os']) (simp add: boxes_held_def)
  qed
qed

lemma run_ops_boxes:
  assumes "linked srv cl fd c s os" and "m_sharedMemorySize srv = len" and "boxes_held len fd c s bs os"
    and "cooperative E" and "\<forall>x \<in> set xs. op_fits len x"
  shows "run_ops E srv cl xs os = Some (box_ops xs bs)"
  using assms
proof (induction xs arbitrary: os bs)
  case (Cons x xs)
  then have "op_fits len x" by simp
  from run_op_boxes [OF Cons.prems(1-4) this] obtain os' where "run_op E srv cl x os = Some (fst (box_op x bs), os')"
    "linked srv cl fd c s os'" "boxes_held len fd c s (snd (box_op x bs)) os'" by blast
  with Cons show ?case by (simp add: case_prod_beta)
qed simp

text \<open>
  C27: A channel is two mailboxes: once both sides have set it up under the same name and size, every sequence of
  messages that fit and of waits yields what two mailboxes with one place each would yield, in which a later
  message takes the place of an earlier one; the two directions do not disturb each other.
\<close>

theorem channel_is_two_mailboxes:
  assumes "initializeAsServer E (new_SharedMemIPC name len) os0 = (True, srv, os1)"
    and "initializeAsClient E (new_SharedMemIPC name len) os1 = (True, cl, os2)" and "len < 2 ^ 31"
    and "cooperative E" and "\<forall>x \<in> set xs. op_fits len x"
  shows "run_ops E srv cl xs os2 = Some (box_ops xs (None, None))"
proof -
  obtain fd c s where l: "linked srv cl fd c s os2" and h: "holds len fd c 0 os2 None" "holds len fd s (nat (len div 2)) os2 None"
    using set_up_linked [OF assms(1-3)] by blast
  have "m_sharedMemorySize srv = len"
    using assms(1) by (auto simp: initializeAsServer_def initialize_fifos_def Let_def new_SharedMemIPC_def
        split: if_splits prod.splits option.splits bool.splits)
  from run_ops_boxes [OF l this _ assms(4,5)] h show ?thesis by (simp add: boxes_held_def)
qed

definition smw_E :: ipc_env where
  "smw_E = \<lparr>p_fails = (\<lambda>_. False), p_guid = (\<lambda>k. replicate k (CHR ''x'')), p_signal = (\<lambda>k. k = 20),
     p_others = (\<lambda>_ os. os)\<rparr>"

definition smw_os :: ipc_os where
  "smw_os = \<lparr>os_tick = 0, shm_names = Map.empty, shm_mem = (\<lambda>_. []), fifo_names = Map.empty, fifo_bytes = (\<lambda>_. 0),
     os_fresh = 0\<rparr>"

lemma smw_cooperative: "cooperative smw_E"
proof -
  have "\<exists>j \<ge> k. j \<noteq> 20" for k :: nat by (rule exI [of _ "k + 21"]) simp
  then show ?thesis by (simp add: cooperative_def smw_E_def)
qed

lemma smw_guids: "good_guids smw_E" "fifo_name smw_E (os_tick smw_os + 3) \<noteq> fifo_name smw_E (os_tick smw_os + 5)"
  by (simp_all add: good_guids_def smw_E_def smw_os_def fifo_name_def MAX_PATH_def numeral_eq_Suc)

theorem channel_is_two_mailboxes_witness:
  "\<exists>srv cl os. run_ops smw_E srv cl [Client_Waits, To_Client (mk_message 2 ''a''), To_Server (mk_message 3 []),
      To_Client (mk_message 2 ''b''), Client_Waits, Server_Waits, Client_Waits] os =
    Some [Received False (mk_message 0x101 []), Sent True, Sent True, Sent True, Received True (mk_message 2 ''b''),
      Received True (mk_message 3 []), Received False (mk_message 0x101 [])]"
proof -
  have "shm_names smw_os ''/s'' = None" "fifo_names smw_os = Map.empty" by (simp_all add: smw_os_def)
  moreover have "2 * (int MAX_PATH + 9) < 4096" by (simp add: MAX_PATH_def)
  moreover have "\<forall>k. \<not> p_fails smw_E k" by (simp add: smw_E_def)
  ultimately obtain srv os1 cl os2 where "initializeAsServer smw_E (new_SharedMemIPC ''/s'' 4096) smw_os = (True, srv, os1)"
    "initializeAsClient smw_E (new_SharedMemIPC ''/s'' 4096) os1 = (True, cl, os2)"
    using set_up_succeeds [OF _ smw_guids(1) _ _ _ smw_guids(2)] by blast
  from channel_is_two_mailboxes [OF this _ smw_cooperative, of "[Client_Waits, To_Client (mk_message 2 ''a''),
      To_Server (mk_message 3 []), To_Client (mk_message 2 ''b''), Client_Waits, Server_Waits, Client_Waits]"]
  show ?thesis by (intro exI [of _ srv] exI [of _ cl] exI [of _ os2])
      (simp add: fits_def getDataSize_def MAX_PATH_def take_out_def)
qed

section \<open>Errors\<close>

text \<open>
  A message that does not fit destroys the one that waits: sending it is refused, but its type and length
  have been written over those of the waiting message, whose receiver gets them with the old data, or reads
  beyond the memory.
\<close>

theorem rejected_message_destroys_waiting:
  assumes "linked srv cl fd c s os" and "m_sharedMemorySize srv = len" and "holds len fd c 0 os (Some m)"
    and "\<not> fits len m'" and "getDataSize m' < 2 ^ 31" and "cooperative E"
  shows "\<exists>os'. sendMessageToClient E srv m' os = Some (False, os') \<and>
    (case waitForNewMessageToClient E cl None os' of None \<Rightarrow> True
     | Some (ok, n, os'') \<Rightarrow> m_messageType n = m_messageType m' \<and> getDataSize n = getDataSize m' \<and> n \<noteq> m)"
proof -
  note l = assms(1) [unfolded linked_def]
  have big: "2 * (int MAX_PATH + 9) < len" "length (shm_mem os fd) = nat len" using l assms(2) by simp_all
  then have "int (MAX_PATH + 8) \<le> len" by simp
  with big(2) have room: "0 + MAX_PATH + 8 \<le> length (shm_mem os fd)" by (simp add: le_nat_iff)
  from place_message_header [OF room, of len m'] obtain mem where p: "place_message 0 len m' (shm_mem os fd) =
      (if getDataSize m' = 0 then Some (True, mem)
       else if getDataSize m' \<ge> len div 2 - int (MAX_PATH + 8) then Some (False, mem)
       else map_option (Pair True) (write_at (0 + MAX_PATH + 8) (m_data m') mem))"
    and h: "le_nat (bytes_at (0 + MAX_PATH) 4 mem) = unat (m_messageType m')"
      "le_nat (bytes_at (0 + MAX_PATH + 4) 4 mem) = length (m_data m') mod 2 ^ 32" by blast
  have "getDataSize m' \<noteq> 0" using assms(4) big by (auto simp: fits_def)
  then have p': "place_message 0 len m' (shm_mem os fd) = Some (False, mem)" using p assms(4) by (simp add: fits_def)
  let ?os = "os\<lparr>shm_mem := (shm_mem os)(fd := mem)\<rparr>"
  have s: "sendMessageToClient E srv m' os = Some (False, ?os)"
    using l assms(2) p' by (simp add: sendMessageToClient_def send_message_def)
  have "n = mk_message (m_messageType m') (bytes_at (MAX_PATH + 8) (length (m_data m')) mem) \<and>
      length (m_data n) = length (m_data m')" if "message_at 0 mem = Some n" for n
  proof -
    have "length (m_data m') mod 2 ^ 32 = length (m_data m')" using assms(5) by (simp add: getDataSize_def)
    then show ?thesis using that h by (auto simp: message_at_def Let_def bytes_at_def split: if_splits)
  qed
  moreover have "fits len m" using assms(3) by (simp add: holds_def)
  ultimately have n: "m_messageType n = m_messageType m' \<and> getDataSize n = getDataSize m' \<and> n \<noteq> m"
    if "message_at 0 mem = Some n" for n
    using that assms(4) by (force simp: getDataSize_def fits_def)
  obtain k where k: "pselect_loop E c None ?os = Some (select_ready False True, ?os\<lparr>os_tick := k\<rparr>)"
    using pselect_cooperative [OF assms(6), of c None ?os] assms(3) by (auto simp: pending_def holds_def)
  have "waitForNewMessageToClient E cl None ?os = map_option (\<lambda>m. (True, m, drain E (Some c) (?os\<lparr>os_tick := k\<rparr>)))
      (message_at 0 mem)"
  proof -
    have "m_pView cl = mapped fd" "m_fdFIFOForNewMessageForClient cl = Some c" using l by simp_all
    moreover have "shm_mem (drain E (Some c) (?os\<lparr>os_tick := k\<rparr>)) fd = mem" by (simp add: drain_def)
    ultimately show ?thesis
      unfolding waitForNewMessageToClient_def wait_message_def by (simp only: view.case option.case prod.case k
          Option.bind.bind_lunit select_result.case if_False if_True not_True_eq_False Let_def)
  qed
  then have "case waitForNewMessageToClient E cl None ?os of None \<Rightarrow> True
     | Some (ok, n, os'') \<Rightarrow> m_messageType n = m_messageType m' \<and> getDataSize n = getDataSize m' \<and> n \<noteq> m"
    using n by (cases "message_at 0 mem") simp_all
  with s show ?thesis by blast
qed

theorem rejected_message_destroys_waiting_witness:
  "\<exists>srv cl os os'. sendMessageToClient smw_E srv (mk_message 2 (replicate 1780 (CHR ''x''))) os = Some (False, os') \<and>
    (\<forall>m os''. waitForNewMessageToClient smw_E cl None os' = Some (True, m, os'') \<longrightarrow> m \<noteq> mk_message 5 ''17'') \<and>
    (\<exists>os''. waitForNewMessageToClient smw_E cl None os = Some (True, mk_message 5 ''17'', os''))"
proof -
  have "shm_names smw_os ''/s'' = None" "fifo_names smw_os = Map.empty" by (simp_all add: smw_os_def)
  moreover have "2 * (int MAX_PATH + 9) < 4096" by (simp add: MAX_PATH_def)
  moreover have "\<forall>k. \<not> p_fails smw_E k" by (simp add: smw_E_def)
  ultimately obtain srv os1 cl os2 where i: "initializeAsServer smw_E (new_SharedMemIPC ''/s'' 4096) smw_os = (True, srv, os1)"
    "initializeAsClient smw_E (new_SharedMemIPC ''/s'' 4096) os1 = (True, cl, os2)"
    using set_up_succeeds [OF _ smw_guids(1) _ _ _ smw_guids(2)] by blast
  from set_up_linked [OF i] obtain fd c s where l: "linked srv cl fd c s os2"
    and h: "boxes_held 4096 fd c s (None, None) os2" by (auto simp: boxes_held_def)
  have len: "m_sharedMemorySize srv = 4096"
    using i(1) by (auto simp: initializeAsServer_def initialize_fifos_def Let_def new_SharedMemIPC_def
        split: if_splits prod.splits option.splits bool.splits)
  let ?m = "mk_message 5 ''17''"
  have f: "fits 4096 ?m" by (simp add: fits_def getDataSize_def MAX_PATH_def)
  from run_op_boxes [OF l len h smw_cooperative, of "To_Client ?m"] f obtain os where
    l': "linked srv cl fd c s os" and h': "boxes_held 4096 fd c s (Some ?m, None) os" by auto
  have b: "holds 4096 fd c 0 os (Some ?m)" using h' by (simp add: boxes_held_def)
  have nf: "\<not> fits 4096 (mk_message 2 (replicate 1780 (CHR ''x'')))" "getDataSize (mk_message 2 (replicate 1780 (CHR ''x''))) < 2 ^ 31"
    by (simp_all add: fits_def getDataSize_def MAX_PATH_def)
  have w: "\<exists>os''. waitForNewMessageToClient smw_E cl None os = Some (True, ?m, os'')"
    using wait_message_holds [OF _ smw_cooperative b, of cl] l' by (auto simp: waitForNewMessageToClient_def linked_def)
  from rejected_message_destroys_waiting [OF l' len b nf smw_cooperative] obtain os' where
    "sendMessageToClient smw_E srv (mk_message 2 (replicate 1780 (CHR ''x''))) os = Some (False, os')"
    "case waitForNewMessageToClient smw_E cl None os' of None \<Rightarrow> True
     | Some (ok, n, os'') \<Rightarrow> m_messageType n = m_messageType (mk_message 2 (replicate 1780 (CHR ''x''))) \<and>
         getDataSize n = getDataSize (mk_message 2 (replicate 1780 (CHR ''x''))) \<and> n \<noteq> ?m" by blast
  with w show ?thesis by (intro exI [of _ srv] exI [of _ cl] exI [of _ os] exI [of _ os']) (auto split: option.splits)
qed

text \<open>
  A set-up that fails after the memory was mapped leaves the address of the view in the object although the view
  was unmapped: deleting the object then reads the names of the FIFOs from it.
\<close>

theorem failed_set_up_cannot_be_deleted:
  assumes "initializeAsServer E ipc os = (False, ipc', os')" and "2 * (int MAX_PATH + 9) < m_sharedMemorySize ipc"
    and "shm_names os (m_sharedMemName ipc) = None" and "\<forall>k < 3. \<not> p_fails E (os_tick os + k)"
  shows "SharedMemIPC_delete ipc' os'' = None"
proof -
  have f: "\<not> p_fails E (os_tick os)" "\<not> p_fails E (Suc (os_tick os))" "\<not> p_fails E (Suc (Suc (os_tick os)))"
    using assms(4) [rule_format, of 0] assms(4) [rule_format, of 1] assms(4) [rule_format, of 2] by simp_all
  have "\<exists>fd os1. initialize_fifos E fd ipc os1 = (False, ipc', os')"
    using assms(1-3) f by (auto simp: initializeAsServer_def Let_def shm_create_def ftruncate_def mmap_def split: bool.splits)
  then obtain fd os1 where i: "initialize_fifos E fd ipc os1 = (False, ipc', os')" by blast
  have "case initialize_fifos E fd ipc os1 of (ok, ipc', os') \<Rightarrow> ok \<or> m_pView ipc' = unmapped"
    by (simp add: initialize_fifos_def Let_def split: prod.split bool.split option.split)
  then have "m_pView ipc' = unmapped" by (simp add: i)
  then show ?thesis by (simp add: SharedMemIPC_delete_def)
qed

theorem failed_set_up_cannot_be_deleted_witness:
  "\<exists>ipc os. initializeAsServer (smw_E\<lparr>p_fails := \<lambda>k. k = 4\<rparr>) (new_SharedMemIPC ''/s'' 4096) smw_os = (False, ipc, os) \<and>
    SharedMemIPC_delete ipc os = None"
proof -
  let ?E = "smw_E\<lparr>p_fails := \<lambda>k. k = 4\<rparr>" and ?i = "new_SharedMemIPC ''/s'' 4096"
  have "fst (initializeAsServer ?E ?i smw_os) = False"
    by (simp add: initializeAsServer_def Let_def new_SharedMemIPC_def MAX_PATH_def shm_create_def ftruncate_def mmap_def
        smw_os_def smw_E_def initialize_fifos_def mkfifo_def put_name_def)
  then obtain ipc os where e: "initializeAsServer ?E ?i smw_os = (False, ipc, os)" by (cases "initializeAsServer ?E ?i smw_os") auto
  moreover have "SharedMemIPC_delete ipc os = None"
    by (rule failed_set_up_cannot_be_deleted [OF e]) (simp_all add: new_SharedMemIPC_def MAX_PATH_def smw_os_def)
  ultimately show ?thesis by blast
qed

end
