(* ===== verification/TRProps.thy ===== *)
theory TRProps
  imports TRExecutors SharedMemProps TGProps TEProps
begin

text \<open>
  Properties of the runner, and of its composition with the generator and the evaluator, each with a
  witness on a concrete input.
\<close>

section \<open>Partners\<close>

text \<open>
  C23: A partner is drawn in proportion to its weight: after an update with fewer than 2 ^ 32 partners, of
  all equally likely draws exactly as many lead to an address as the weights of the partners with that address
  sum up to. In particular the walk over the partners ends at a partner for every draw, and the guard against
  overflow never fires.
\<close>

theorem partners_drawn_by_weight:
  assumes "updateCommPartners partners m0 = (inserted, m)" and "length partners < 2 ^ 32"
  shows "card {k \<in> {..<unat (m_weigthSum m)}.
      getNextPartner (E\<lparr>env_rnd := \<lambda>_. k\<rparr>) m a = Some (h, next_tick a)} =
    (\<Sum>p \<leftarrow> partners. if sd_serviceHostAndPort (opt_or default_ServiceDescriptor (saw_serviceDescriptor p)) = h
       then unat (saw_weight p) else 0)"
proof -
  let ?ps = "map sw_of_proto partners"
  have m: "m = \<lparr>m_weigthSum = word_of_nat (total_weight ?ps), m_commDescriptorSet = ?ps\<rparr>"
    using assms(1) by (simp add: updateCommPartners_eq)
  have fits: "total_weight ?ps < 2 ^ 64 - 1" using assms(2) by (intro total_weight_fits) simp
  then have n: "unat (m_weigthSum m) = total_weight ?ps"
    using assms(2) by (simp add: m unat_of_nat take_bit_eq_mod)
  have pick: "getNextPartner (E\<lparr>env_rnd := \<lambda>_. k\<rparr>) m a = Some (pick (Suc k) ?ps, next_tick a)"
    if "k < total_weight ?ps" for k
    using getNextPartner_pick [of m "E\<lparr>env_rnd := \<lambda>_. k\<rparr>" a] fits that by (simp add: m cpm_inv_def Let_def)
  have "{k \<in> {..<total_weight ?ps}. getNextPartner (E\<lparr>env_rnd := \<lambda>_. k\<rparr>) m a = Some (h, next_tick a)} =
      {k. k < total_weight ?ps \<and> pick (Suc k) ?ps = h}" using pick by auto
  moreover have "Suc ` {k. k < total_weight ?ps \<and> pick (Suc k) ?ps = h} =
      {r \<in> {1..total_weight ?ps}. pick r ?ps = h}"
  proof (intro equalityI subsetI)
    fix r assume "r \<in> {r \<in> {1..total_weight ?ps}. pick r ?ps = h}"
    then have "r = Suc (r - 1)" "r - 1 \<in> {k. k < total_weight ?ps \<and> pick (Suc k) ?ps = h}" by auto
    then show "r \<in> Suc ` {k. k < total_weight ?ps \<and> pick (Suc k) ?ps = h}" by (rule image_eqI)
  qed auto
  then have "card {k. k < total_weight ?ps \<and> pick (Suc k) ?ps = h} =
      card {r \<in> {1..total_weight ?ps}. pick r ?ps = h}"
    using card_image [of Suc "{k. k < total_weight ?ps \<and> pick (Suc k) ?ps = h}"] by simp
  moreover have "total_weight (filter (\<lambda>p. hap_of p = h) ?ps) =
      (\<Sum>p \<leftarrow> partners. if sd_serviceHostAndPort (opt_or default_ServiceDescriptor (saw_serviceDescriptor p)) = h
         then unat (saw_weight p) else 0)"
    by (induction partners) (auto simp: sw_of_proto_def sd_of_proto_def)
  ultimately show ?thesis using card_pick [of ?ps h] by (simp add: n)
qed

definition trw_partners :: "ServiceAndWeigth list" where
  "trw_partners = [\<lparr>saw_serviceDescriptor = Some \<lparr>sd_serviceHostAndPort = ''a:1'', sd_guid = ''a''\<rparr>, saw_weight = 3\<rparr>,
     \<lparr>saw_serviceDescriptor = Some \<lparr>sd_serviceHostAndPort = ''b:1'', sd_guid = ''b''\<rparr>, saw_weight = 1\<rparr>]"

theorem partners_drawn_by_weight_witness:
  "card {k \<in> {..<unat (m_weigthSum (snd (updateCommPartners trw_partners no_partners)))}.
      getNextPartner (quiet_env\<lparr>env_rnd := \<lambda>_. k\<rparr>) (snd (updateCommPartners trw_partners no_partners)) fresh_agent =
        Some (''a:1'', next_tick fresh_agent)} = 3"
proof -
  obtain c m where u: "updateCommPartners trw_partners no_partners = (c, m)" by fastforce
  have "length trw_partners < 2 ^ 32" by (simp add: trw_partners_def)
  from partners_drawn_by_weight [OF u this, of quiet_env fresh_agent "''a:1''"] u
  show ?thesis by (simp add: trw_partners_def)
qed

section \<open>Coverage files\<close>

lemma drcov_file_read:
  assumes "flavor \<in> set flavors" and "cols \<in> set columns" and "\<forall>m \<in> set mods. module_ok m"
    and "\<forall>e \<in> set es. length (enc e) = d_entry_size D \<and> d_entry D (enc e) = e"
    and "length (drcov_header flavor cols mods (length es)) < 2 ^ 31" and "length mods < 2 ^ 31"
    and "length es < 2 ^ 63" and "length (drcov_file flavor cols mods enc es) < 2 ^ 64"
  shows "copyCoveredModulesToDebugExecutionOutput D (drcov_file flavor cols mods enc es) ms out =
    Some (out\<lparr>m_coveredBasicBlocks := m_coveredBasicBlocks out @
      concat (map (hit_block (module_map_of ms mods)) es)\<rparr>)"
proof -
  let ?h = "drcov_header flavor cols mods (length es)" let ?t = "concat (map enc es)"
  let ?f = "drcov_file flavor cols mods enc es"
  have s: "c_string (?f @ d_beyond D) = ?h @ c_string (?t @ d_beyond D)"
    using c_string_append [OF drcov_header_text [OF assms(1-3)]] by (simp add: drcov_file_def)
  have r: "read_header ms (c_string (?f @ d_beyond D), 0, True) =
      ok_with (module_map_of ms mods, word_of_nat (length es), (c_string (?t @ d_beyond D), length ?h, True))"
    unfolding s by (rule read_header_drcov [OF assms(1-3,6,7)])
  have tell: "tellg (c_string (?t @ d_beyond D), length ?h, True) = int (length ?h)"
    using assms(5) by (simp add: signed_of_nat signed_take_bit_int_eq_self)
  have lt: "length ?t = length es * d_entry_size D"
    using assms(4) by (induction es) auto
  have len: "length ?f = length ?h + length es * d_entry_size D" by (simp add: drcov_file_def lt)
  have "(word_of_int (int (length ?h)) + word_of_nat (length es) * word_of_nat (d_entry_size D) :: 64 word) =
      word_of_nat (length ?f)" by (simp add: len)
  moreover have "unat (word_of_nat (length es) :: 64 word) = length es"
    using assms(7) by (simp add: unat_of_nat take_bit_eq_mod)
  moreover have "read_entries D (module_map_of ms mods) ?f (int (length ?h)) (length es) out =
      Some (out\<lparr>m_coveredBasicBlocks := m_coveredBasicBlocks out @ concat (map (hit_block (module_map_of ms mods)) es)\<rparr>)"
    by (rule read_entries_table [OF assms(4), where post = "[]"]) (simp add: drcov_file_def)
  ultimately show ?thesis unfolding copyCoveredModulesToDebugExecutionOutput_def r attempt.case prod.case tell by simp
qed

text \<open>
  C24: Reading a coverage file back gives what was written: for every file as the reference printer lays it
  out, the executor's output is extended by exactly the blocks that were hit in a module to cover, in the order
  of the file, with the number the fuzz job gave that module.
\<close>

theorem drcov_roundtrip:
  assumes "flavor \<in> set flavors" and "cols \<in> set columns" and "\<forall>m \<in> set mods. module_ok m"
    and "\<forall>e \<in> set es. length (enc e) = d_entry_size D \<and> d_entry D (enc e) = e"
    and "length (drcov_header flavor cols mods (length es)) < 2 ^ 31" and "length mods < 2 ^ 31"
    and "length es < 2 ^ 63" and "length (drcov_file flavor cols mods enc es) < 2 ^ 64"
  shows "copyCoveredModulesToDebugExecutionOutput D (drcov_file flavor cols mods enc es) ms out =
    Some (out\<lparr>m_coveredBasicBlocks := m_coveredBasicBlocks out @
      concat (map (hit_block (module_map_of ms mods)) es)\<rparr>)"
  by (rule drcov_file_read [OF assms])

definition trw_enc :: "bb_entry \<Rightarrow> bytes" where
  "trw_enc e = (case e of (s, m, h) \<Rightarrow> [char_of (unat s), char_of (unat m), char_of (unat h)])"

definition trw_D :: dynrio where
  "trw_D = \<lparr>d_debug = (\<lambda>_ _ _. None), d_listing = (\<lambda>_ _. []), d_exists = (\<lambda>_. True), d_wordexp = (\<lambda>_. None),
     d_entry_size = 3, d_entry = (\<lambda>bs. (word_of_nat (of_char (bs ! 0)), word_of_nat (of_char (bs ! 1)),
       word_of_nat (of_char (bs ! 2)))), d_beyond = []\<rparr>"

definition trw_mods :: "(nat \<times> string list \<times> string) list" where
  "trw_mods = [(0, [''0'', ''1'', ''2'', ''3'', ''4''], ''/usr/bin/Target''), (1, [''1'', ''1'', ''2'', ''3'', ''4''], ''/lib/libc.so'')]"

definition trw_ms :: "Module list" where
  "trw_ms = [Module ''target'' ''*'' 7]"

definition trw_es :: "bb_entry list" where
  "trw_es = [(16, 0, 1), (17, 1, 1), (18, 0, 0), (19, 0, 2)]"

lemma trw_map: "module_map_of trw_ms trw_mods = [0 \<mapsto> 7]"
proof -
  have "module_for (splitPathIntoDirectoryAndFileName ''/usr/bin/Target'') trw_ms = Some (Module ''target'' ''*'' 7)"
    "module_for (splitPathIntoDirectoryAndFileName ''/lib/libc.so'') trw_ms = None" by code_simp+
  then show ?thesis by (simp add: module_map_of_def trw_mods_def)
qed

theorem drcov_roundtrip_witness:
  "map_option m_coveredBasicBlocks (copyCoveredModulesToDebugExecutionOutput trw_D
      (drcov_file ''DRCOV FLAVOR: drcov-64'' (columns ! 0) trw_mods trw_enc trw_es) trw_ms new_output) =
    Some [FluffiBasicBlock 16 7, FluffiBasicBlock 19 7]"
proof -
  have "copyCoveredModulesToDebugExecutionOutput trw_D
      (drcov_file ''DRCOV FLAVOR: drcov-64'' (columns ! 0) trw_mods trw_enc trw_es) trw_ms new_output =
    Some (new_output\<lparr>m_coveredBasicBlocks := m_coveredBasicBlocks new_output @
      concat (map (hit_block (module_map_of trw_ms trw_mods)) trw_es)\<rparr>)"
  proof (rule drcov_roundtrip)
    show "\<forall>m \<in> set trw_mods. module_ok m" by (simp add: trw_mods_def module_ok_def text_ok_def)
    show "\<forall>e \<in> set trw_es. length (trw_enc e) = d_entry_size trw_D \<and> d_entry trw_D (trw_enc e) = e"
      by (simp add: trw_es_def trw_enc_def trw_D_def)
  qed (simp_all add: flavors_def columns_def trw_mods_def trw_es_def trw_enc_def drcov_file_def drcov_header_def
      module_line_def to_string.simps lines_def)
  then show ?thesis by (simp add: trw_map trw_es_def hit_block_def new_output_def)
qed

section \<open>The second run after a crash\<close>

text \<open>
  The second run of a crashing testcase, which is to find the address of the crash, gets a command line
  that still has the marker: where the target's command line has an input file marker, the first run replaces it by
  the path of the testcase and the second run does not, and the result of the second run is the one that is
  reported. When the target does not crash on that command line the crash is not reported.
\<close>

theorem crash_rerun_keeps_marker:
  assumes "occurs_in ''<INPUT_FILE>'' (m_targetCMDline b)"
    and "m_terminationType out \<in> {EXCEPTION_OTHER, EXCEPTION_ACCESSVIOLATION}"
    and "after_first_run E D b fatal testfile out a = Some (out', a')"
  shows "\<exists>call n. occurs_in ''<INPUT_FILE>'' (dc_commandline call) \<and>
    dc_commandline call = m_targetCMDline b @ '' '' @ testfile \<and>
    (case d_debug D n call (new_output\<lparr>m_terminationDescription := ''The target did not run!''\<rparr>) of
       None \<Rightarrow> m_terminationType out' = ERR | Some (out2, log) \<Rightarrow> out' = out2)"
proof -
  let ?call = "mk_call b fatal (second_cmdline b testfile) True"
  let ?l = "getDrCovOutputFile D (x_testcaseDir b) a"
  let ?a = "if ?l \<noteq> [] then delete_log E ?l a else a"
  have "Some (out', a') = Some (DebugCommandLine D (x_testcaseDir b) ?call new_output ?a)"
    using assms(2,3) by (auto simp: after_first_run_def is_crash_def Let_def split: if_splits)
  then have o: "out' = fst (DebugCommandLine D (x_testcaseDir b) ?call new_output ?a)" by (metis fst_conv option.inject)
  from assms(1) obtain l where l: "l \<le> length (m_targetCMDline b)"
    "starts_with (drop l (m_targetCMDline b)) ''<INPUT_FILE>''" unfolding occurs_in_def by blast
  have "starts_with (s @ u) t" if "starts_with s t" for s t u :: string
    using that starts_withD [OF that] by (metis append.assoc append_eq_conv_conj starts_with_def)
  from this [OF l(2), of "'' '' @ testfile"] l(1)
  have "starts_with (drop l (m_targetCMDline b @ '' '' @ testfile)) ''<INPUT_FILE>''" by simp
  with l(1) have c: "occurs_in ''<INPUT_FILE>'' (m_targetCMDline b @ '' '' @ testfile)"
    unfolding occurs_in_def by (intro exI [of _ l]) simp
  have cl: "dc_commandline ?call = m_targetCMDline b @ '' '' @ testfile" by (simp add: mk_call_def second_cmdline_def)
  let ?o = "new_output\<lparr>m_terminationDescription := ''The target did not run!''\<rparr>"
  have n: "new_output\<lparr>m_terminationType := ERR, m_terminationDescription := ''The target did not run!''\<rparr> = ?o"
    by (simp add: new_output_def)
  have "case d_debug D (tick ?a) ?call ?o of None \<Rightarrow> m_terminationType out' = ERR | Some (out2, log) \<Rightarrow> out' = out2"
    unfolding o DebugCommandLine_def Let_def n by (simp add: new_output_def split: option.split prod.split)
  with c cl show ?thesis by metis
qed

definition trw_base :: executor_base where
  "trw_base = \<lparr>m_targetCMDline = ''t <INPUT_FILE>'', m_hangTimeoutMS = 2000, m_modulesToCover = trw_ms,
     x_testcaseDir = ''r'', m_suppressChildOutput = True, m_additionalEnvParam = []\<rparr>"

theorem crash_rerun_keeps_marker_witness:
  "\<exists>call :: debug_call. occurs_in ''<INPUT_FILE>'' (dc_commandline call) \<and> dc_commandline call = ''t <INPUT_FILE> r/p-4''"
proof -
  obtain out' a' where "after_first_run quiet_env trw_D trw_base False ''r/p-4''
      (new_output\<lparr>m_terminationType := EXCEPTION_OTHER\<rparr>) fresh_agent = Some (out', a')"
    by (simp add: after_first_run_def is_crash_def Let_def DebugCommandLine_def trw_D_def)
  note c = crash_rerun_keeps_marker [OF _ _ this, simplified]
  have "occurs_in ''<INPUT_FILE>'' (m_targetCMDline trw_base)"
    unfolding occurs_in_def by (rule exI [of _ 2]) (simp add: trw_base_def starts_with_def)
  from c [OF this] obtain call :: debug_call where "occurs_in ''<INPUT_FILE>'' (dc_commandline call)"
    "dc_commandline call = m_targetCMDline trw_base @ '' r/p-4''" by blast
  then show ?thesis by (intro exI [of _ call]) (simp add: trw_base_def)
qed

section \<open>Results\<close>

text \<open>
  A run that fails for a reason of the runner's own is not reported: whatever the network does, the worker
  asks nobody, counts the testcase and marks its file for deletion; the generator will hand it out again.
\<close>

theorem internal_error_not_reported:
  assumes "fuzzTestCase X (tid_of_proto (opt_or default_TestcaseID (gtr_id r))) (gtr_forceFullCoverage r) st = Some (res, st1)"
    and "m_executor st = Some x"
    and "x_execute X x (tid_of_proto (opt_or default_TestcaseID (gtr_id r))) (gtr_forceFullCoverage r) (tr_agent st) =
      Some (out, x', a)"
    and "m_terminationType out = ERR"
  shows "run_testcase E X cfg evaluatorHAP r st = Some (tr_mark_testcase cfg
      (tid_of_proto (opt_or default_TestcaseID (gtr_id r)))
      (st\<lparr>m_executor := Some x', tr_agent := a, m_numberOfProcessedTestcases := m_numberOfProcessedTestcases st + 1\<rparr>))"
proof -
  have res: "res = result_of_output out" and st1: "st1 = st\<lparr>m_executor := Some x', tr_agent := a\<rparr>"
    using assms(1-3) by (simp_all add: fuzzTestCase_def)
  have "is_internal_error res"
    using assms(4) by (simp add: res is_internal_error_def result_of_output_def Let_def substr_def internal_error_def)
  then show ?thesis using assms(1) st1 by (simp add: run_testcase_def Let_def)
qed

definition trw_cfg :: tr_config where
  "trw_cfg = \<lparr>tr_self = mkServiceDescriptor ''h:4'' ''r'', tr_testcaseDir = ''r'',
     tr_agentSubTypes = [''X64-Lin-DynRioSingle'', ''ALL_GDB'']\<rparr>"

definition trw_x :: executor where
  "trw_x = TestExecutorDynRioSingle trw_base False"

definition trw_st :: tr where
  "trw_st = \<lparr>tr_tGManager = no_partners, tr_tEManager = no_partners, tr_gotConfig = True, m_executor = Some trw_x,
     m_numberOfProcessedTestcases = 4, m_statusHandler = \<lparr>m_timeOfLastManagerRequest = 0,
       m_ManagerWasReplaced = False, m_errorMessages = []\<rparr>, tr_agent = fresh_agent\<lparr>files := [''r/p-4'' \<mapsto> ''AB'']\<rparr>\<rparr>"

definition trw_Q :: qemu where
  "trw_Q = \<lparr>q_system = (\<lambda>_ _. True), q_mount = (\<lambda>_ _ _. True), q_link = (\<lambda>_. True), q_debug = (\<lambda>_ _ _ _. None),
     q_listing = (\<lambda>_ _. []), q_root = True, q_directory = (\<lambda>_. True), q_shell = True, q_exists = (\<lambda>_. True)\<rparr>"

definition trw_M :: multi_env where
  "trw_M = \<lparr>u_ipc = smw_E, u_dynrio = trw_D, u_guid = (\<lambda>_. ''g''), u_pipe_ok = (\<lambda>_. True), u_starter = (\<lambda>_ _. True),
     u_feeder = (\<lambda>_ _. True), u_ends = (\<lambda>_. True), u_cwd = ''/f'', u_port = (\<lambda>_. 8000),
     u_drconfig = (\<lambda>_ _. Some 0), u_debugged = (\<lambda>_ _. True),
     u_output = (\<lambda>_ _. new_output\<lparr>m_terminationType := CLEAN\<rparr>), u_exit = (\<lambda>_ _. - 1), u_pid = (\<lambda>_ _. 7),
     u_announced = (\<lambda>_. (Some 7, Some 1)), u_nudge = (\<lambda>_ _. 0),
     u_answer = (\<lambda>_. None), u_in_time = (\<lambda>_. True), u_rounds = (\<lambda>_. 0), u_logs = (\<lambda>_. [])\<rparr>"

definition trw_W :: gdb_world where
  "trw_W = \<lparr>u_ipc = smw_E, u_dynrio = trw_D, u_guid = (\<lambda>_. ''g''), u_pipe_ok = (\<lambda>_. True), u_starter = (\<lambda>_ _. True),
     u_feeder = (\<lambda>_ _. True), u_ends = (\<lambda>_. True), w_version = (\<lambda>_. Some ''GNU gdb''), w_initFile = (\<lambda>_. Some []),
     w_ready = (\<lambda>_ _. True), w_reaches = (\<lambda>_ _. True),
     w_output = (\<lambda>_ _. new_output\<lparr>m_terminationType := CLEAN\<rparr>), w_exitStatus = (\<lambda>_ _. - 1)\<rparr>"

definition trw_X :: "env \<Rightarrow> executors" where
  "trw_X E = runner_executors E trw_D trw_Q trw_M trw_W"

lemma trw_execute: "DynRioSingle_execute E trw_D trw_base False i a =
    Some (fail_with ''Error creating the Process'' new_output, next_tick a)"
proof -
  have "first_cmdline trw_base (generateTestcasePathAndFilename i (x_testcaseDir trw_base)) \<noteq> None"
    by (simp add: first_cmdline_def replaceAll_eq)
  then obtain c where "first_cmdline trw_base (generateTestcasePathAndFilename i (x_testcaseDir trw_base)) = Some c" by blast
  then show ?thesis
    by (simp add: DynRioSingle_execute_def getDrCovOutputFile_def trw_D_def file_exists_def Let_def numeral_eq_Suc
        DebugCommandLine_def after_first_run_def fail_with_def new_output_def)
qed

theorem internal_error_not_reported_witness:
  "\<exists>st'. run_testcase quiet_env (trw_X quiet_env) trw_cfg ''h:3'' (no_testcase\<lparr>gtr_id := Some (tid_getProtobuf wit_parent)\<rparr>) trw_st =
      Some st' \<and> m_setOfFilesToDelete (tr_agent st') = [''r/p-4''] \<and> m_numberOfProcessedTestcases st' = 5"
proof -
  let ?r = "no_testcase\<lparr>gtr_id := Some (tid_getProtobuf wit_parent)\<rparr>"
  let ?i = "tid_of_proto (opt_or default_TestcaseID (gtr_id ?r))"
  let ?out = "fail_with ''Error creating the Process'' new_output"
  have e: "x_execute (trw_X quiet_env) trw_x ?i (gtr_forceFullCoverage ?r) (tr_agent trw_st) = Some (?out, trw_x, next_tick (tr_agent trw_st))"
    by (simp add: trw_X_def runner_executors_def runner_execute_def trw_x_def trw_execute)
  then have f: "fuzzTestCase (trw_X quiet_env) ?i (gtr_forceFullCoverage ?r) trw_st =
      Some (result_of_output ?out, trw_st\<lparr>m_executor := Some trw_x, tr_agent := next_tick (tr_agent trw_st)\<rparr>)"
    by (simp add: fuzzTestCase_def trw_st_def)
  have x: "m_executor trw_st = Some trw_x" by (simp add: trw_st_def)
  have p: "generateTestcasePathAndFilename wit_parent ''r'' = ''r/p-4''" by code_simp
  from internal_error_not_reported [OF f x e, of quiet_env trw_cfg "''h:3''"] show ?thesis
    by (simp add: fail_with_def tr_mark_testcase_def trw_st_def trw_cfg_def markFileForDelete_def fresh_agent_def p)
qed

section \<open>From the generator over the runner to the evaluator\<close>

text \<open>
  C21: A testcase that the generator hands out is stored by the runner byte by byte, chunk by chunk if need be.
\<close>

theorem testcase_reaches_runner:
  assumes "m_pendingTestcaseQueue (tg_queue g) = t # rest"
    and "files (tg_agent g) (generateTestcasePathAndFilename (td_id t) (tg_testcaseDir gcfg)) = Some dat"
    and "GetTestcaseRequestHandler Eg gcfg g GetTestcaseRequest = (m, g')"
    and "env_net E (Suc (tick (tr_agent st))) generatorHAP GetTestcaseRequest = Reply m"
    and "i = tid_of_proto (tid_getProtobuf (td_id t))"
    and "serves E (m_serviceHostAndPort (m_serviceDescriptor (td_id t))) Eg (tg_testcaseDir gcfg) False (tg_agent g') i"
    and "sockets_idle (tr_agent st)" and "files (tr_agent st) (generateTestcasePathAndFilename i (tr_testcaseDir cfg)) = None"
    and "\<forall>k. env_open_ok E k (generateTestcasePathAndFilename i (tr_testcaseDir cfg))"
  shows "\<exists>r st1. getTestcaseFromGenerator E cfg generatorHAP st = Some (Some r, st1) \<and>
    gtr_id r = Some (tid_getProtobuf (td_id t)) \<and>
    files (tr_agent st1) = (files (tr_agent st))(generateTestcasePathAndFilename i (tr_testcaseDir cfg) \<mapsto> dat)"
proof -
  note h = GetTestcaseRequestHandler_pending [OF assms(1,3)]
  have l: "loadTestcaseChunkInMemory Eg (td_id t) (tg_testcaseDir gcfg) 0 (tg_agent g) =
      (chunk_of dat 0, Some (last_chunk dat 0))"
    using loadTestcaseChunkInMemory_chunk [OF assms(2), of 0 Eg] by simp
  have f: "files (tg_agent g') (generateTestcasePathAndFilename i (tg_testcaseDir gcfg)) = Some dat"
    using assms(2) h(7) by (simp add: assms(5))
  let ?r = "gettestcaseresponse m"
  have r: "gtr_testCaseFirstChunk ?r = chunk_of dat 0" "gtr_isLastChunk ?r = last_chunk dat 0"
    using h(4,5) l by (simp_all add: the_flag_def)
  from tr_ask_returns [OF assms(7), of E generatorHAP GetTestcaseRequest timeoutNormalMessage] assms(4)
  obtain q st1 where a: "tr_ask E GetTestcaseRequest generatorHAP timeoutNormalMessage st = Some (q, st1)" by auto
  have q: "q = Some m"
    using tr_ask_result(2,3) [OF a] assms(4) by (cases q) auto
  note ar = tr_ask_result [OF a]
  have idle: "sockets_idle (tr_agent st1)" using ar(4) assms(7) by simp
  have new: "files (tr_agent st1) (generateTestcasePathAndFilename i (tr_testcaseDir cfg)) = None"
    using ar(5) assms(8) by simp
  have hap: "sd_serviceHostAndPort (opt_or default_ServiceDescriptor (tid_serviceDescriptor (tid_getProtobuf (td_id t)))) =
      m_serviceHostAndPort (m_serviceDescriptor (td_id t))" by (simp add: proto_defs)
  obtain a' where s: "storeTestcaseFileOnDisk E i (tr_testcaseDir cfg) (chunk_of dat 0) (last_chunk dat 0)
      (m_serviceHostAndPort (m_serviceDescriptor (td_id t))) (tr_agent st1) = Some (True, a')"
    and fa: "files a' = (files (tr_agent st1))(generateTestcasePathAndFilename i (tr_testcaseDir cfg) \<mapsto> dat)"
    using storeTestcaseFileOnDisk_fetches [OF idle _ new, of dat E] assms(6,9) f by blast
  have "getTestcaseFromGenerator E cfg generatorHAP st = Some (Some ?r, st1\<lparr>tr_agent := a'\<rparr>)"
    using a q h(2,3) r s assms(5) hap by (simp add: getTestcaseFromGenerator_def Let_def)
  then show ?thesis using h(3) fa ar(5) by (intro exI [of _ ?r] exI [of _ "st1\<lparr>tr_agent := a'\<rparr>"]) simp
qed

definition trw_fetch :: "tg \<Rightarrow> FLUFFIMessage \<Rightarrow> env" where
  "trw_fetch g m = quiet_env\<lparr>env_net := \<lambda>k hap req. Reply (if req = GetTestcaseRequest then m
     else fst (GetTestcaseChunkRequestHandler wit_tgE ''d'' False (tg_agent g) req))\<rparr>"

theorem testcase_reaches_runner_witness:
  "\<exists>E r st1. getTestcaseFromGenerator E trw_cfg ''h:2'' (trw_st\<lparr>tr_agent := fresh_agent\<rparr>) = Some (Some r, st1) \<and>
    gtr_id r = Some (tid_getProtobuf (td_id wit_desc)) \<and>
    files (tr_agent st1) = [generateTestcasePathAndFilename (td_id wit_desc) ''r'' \<mapsto> ''AB'']"
proof -
  obtain m g' where h: "GetTestcaseRequestHandler wit_tgE wit_tgcfg wit_stored GetTestcaseRequest = (m, g')"
    by fastforce
  let ?E = "trw_fetch g' m" and ?st = "trw_st\<lparr>tr_agent := fresh_agent\<rparr>"
  let ?i = "tid_of_proto (tid_getProtobuf (td_id wit_desc))"
  have "\<exists>r st1. getTestcaseFromGenerator ?E trw_cfg ''h:2'' ?st = Some (Some r, st1) \<and>
    gtr_id r = Some (tid_getProtobuf (td_id wit_desc)) \<and>
    files (tr_agent st1) = (files (tr_agent ?st))(generateTestcasePathAndFilename ?i (tr_testcaseDir trw_cfg) \<mapsto> ''AB'')"
  proof (rule testcase_reaches_runner [OF _ _ h _ refl])
    show "m_pendingTestcaseQueue (tg_queue wit_stored) = wit_desc # []" by (simp add: wit_stored_def)
    show "files (tg_agent wit_stored) (generateTestcasePathAndFilename (td_id wit_desc) (tg_testcaseDir wit_tgcfg)) =
        Some ''AB''" by (simp add: wit_stored_def wit_tgcfg_def wit_path)
    show "serves ?E (m_serviceHostAndPort (m_serviceDescriptor (td_id wit_desc))) wit_tgE (tg_testcaseDir wit_tgcfg)
        False (tg_agent g') ?i" by (simp add: serves_def trw_fetch_def wit_tgcfg_def chunk_request_def)
  qed (simp_all add: fresh_agent_def sockets_idle_def trw_fetch_def quiet_env_def)
  then show ?thesis by (auto simp: fresh_agent_def trw_cfg_def)
qed


lemma load_env [simp]:
  "loadTestcaseChunkInMemory (E\<lparr>env_net := f\<rparr>) = loadTestcaseChunkInMemory E" "the_flag (E\<lparr>env_net := f\<rparr>) = the_flag E"
  by (intro ext, simp add: loadTestcaseChunkInMemory_def the_flag_def Let_def split: option.split)+

lemma put_request_env [simp]: "put_request (E\<lparr>env_net := f\<rparr>) = put_request E"
  by (intro ext) (simp only: put_request_def load_env)

lemma chunk_handler_env [simp]: "GetTestcaseChunkRequestHandler (E\<lparr>env_net := f\<rparr>) = GetTestcaseChunkRequestHandler E"
  by (intro ext) (simp only: GetTestcaseChunkRequestHandler_def load_env)







section \<open>Configuration and reachable states\<close>

definition is_int :: "int \<Rightarrow> bool" where
  "is_int n \<longleftrightarrow> - (2 ^ 31) \<le> n \<and> n < 2 ^ 31"

fun base_of :: "executor \<Rightarrow> executor_base" where
  "base_of (TestExecutorDynRioSingle b _) = b"
| "base_of (TestExecutorDynRioMulti b _ _ _ _ _ _ _) = b"
| "base_of (TestExecutorQemuUserSingle b _ _ _) = b"
| "base_of (TestExecutorGDB b _ _ _ _ _ _ _ _) = b"

fun class_of :: "executor \<Rightarrow> string" where
  "class_of (TestExecutorDynRioSingle _ _) = ''DynRioSingle''"
| "class_of (TestExecutorDynRioMulti _ _ _ _ _ _ _ _) = ''DynRioMulti''"
| "class_of (TestExecutorQemuUserSingle _ _ _ _) = ''QemuUserSingle''"
| "class_of (TestExecutorGDB _ _ _ _ _ _ _ _ _) = ''GDB''"

text \<open>An executor is well formed: its modules and blocks are ordered sets, its numbers are of type \<open>int\<close>.\<close>

definition base_wf :: "tr_config \<Rightarrow> executor_base \<Rightarrow> bool" where
  "base_wf cfg b \<longleftrightarrow> m_modulesToCover b \<noteq> [] \<and> oset_by (\<lambda>m. m) (m_modulesToCover b) \<and> is_int (m_hangTimeoutMS b) \<and>
     x_testcaseDir b = tr_testcaseDir cfg"

fun executor_wf :: "tr_config \<Rightarrow> executor \<Rightarrow> bool" where
  "executor_wf cfg (TestExecutorDynRioSingle b _) = base_wf cfg b"
| "executor_wf cfg (TestExecutorDynRioMulti b _ _ _ initMS _ restart _) = (base_wf cfg b \<and> is_int initMS \<and> is_int restart)"
| "executor_wf cfg (TestExecutorQemuUserSingle b _ _ _) = base_wf cfg b"
| "executor_wf cfg (TestExecutorGDB b _ _ initMS restart blocks instr n _) =
     (base_wf cfg b \<and> is_int initMS \<and> is_int restart \<and> oset_by (\<lambda>b. b) blocks \<and> is_int instr \<and> is_int n)"

lemma stoi_is_int: "stoi s = Some n \<Longrightarrow> is_int n"
  by (auto simp: stoi_def is_int_def split: option.splits if_splits)

lemma stoi_hex_is_int: "stoi_hex s = Some n \<Longrightarrow> is_int n"
  by (auto simp: stoi_hex_def is_int_def Let_def split: option.splits if_splits)

lemma attempt_ok_iff:
  "required s n k = ok_with x \<longleftrightarrow> (\<exists>v. s n = Some v \<and> k v = ok_with x)"
  "as_int v f = ok_with x \<longleftrightarrow> (\<exists>i. v = Some i \<and> f i = ok_with x)"
  by (auto simp: required_def as_int_def split: option.splits)

lemma optional_int_ok:
  assumes "optional_int s n d k = ok_with x" and "is_int d"
  obtains i where "is_int i" and "k i = ok_with x"
  using assms by (auto simp: optional_int_def attempt_ok_iff dest: stoi_is_int split: option.splits)

lemma mk_base_wf [simp]:
  "base_wf cfg (mk_base cfg s ms cmd h env) \<longleftrightarrow> ms \<noteq> [] \<and> oset_by (\<lambda>m. m) ms \<and> is_int h"
  by (simp add: base_wf_def mk_base_def)

lemma conf_wf:
  assumes "ms \<noteq> []" and "oset_by (\<lambda>m. m) ms"
  shows "conf_DynRioSingle cfg s ms = ok_with x \<Longrightarrow> executor_wf cfg x \<and> class_of x = ''DynRioSingle''"
    and "conf_DynRioMulti cfg s ms = ok_with x \<Longrightarrow> executor_wf cfg x \<and> class_of x = ''DynRioMulti''"
    and "conf_QemuUserSingle cfg s ms = ok_with x \<Longrightarrow> executor_wf cfg x \<and> class_of x = ''QemuUserSingle''"
    and "conf_GDB cfg s ms bs = ok_with x \<Longrightarrow> executor_wf cfg x \<and> class_of x = ''GDB''"
proof -
  have m1: "is_int (- 1)" by (simp add: is_int_def)
  show "conf_DynRioSingle cfg s ms = ok_with x \<Longrightarrow> executor_wf cfg x \<and> class_of x = ''DynRioSingle''"
    using assms by (auto simp: conf_DynRioSingle_def attempt_ok_iff intro: stoi_is_int)
  show "conf_QemuUserSingle cfg s ms = ok_with x \<Longrightarrow> executor_wf cfg x \<and> class_of x = ''QemuUserSingle''"
    using assms by (auto simp: conf_QemuUserSingle_def attempt_ok_iff intro: stoi_is_int)
  show "conf_DynRioMulti cfg s ms = ok_with x \<Longrightarrow> executor_wf cfg x \<and> class_of x = ''DynRioMulti''"
    using assms m1 by (auto simp: conf_DynRioMulti_def attempt_ok_iff intro: stoi_is_int elim!: optional_int_ok)
  show "conf_GDB cfg s ms bs = ok_with x \<Longrightarrow> executor_wf cfg x \<and> class_of x = ''GDB''"
    using assms m1
    by (auto simp: conf_GDB_def attempt_ok_iff set_of_list_oset elim!: optional_int_ok)
      (erule stoi_is_int stoi_hex_is_int)+
qed

text \<open>
  A configuration that the runner accepts gives a well-formed executor of the class that the chosen sub type
  names, a sub type the runner was started with: at least one module and each once, in the set's order, the blocks of
  a GDB executor likewise, all numbers of type \<open>int\<close>, working in the runner's directory.
\<close>

theorem accepted_configuration_well_formed:
  assumes "executor_of_config cfg m = ok_with x"
  shows "executor_wf cfg x \<and> (\<exists>c \<in> set (tr_agentSubTypes cfg). received_settings m ''chosenSubtype'' = Some c \<and>
    stringHasEnding c (class_of x))"
proof -
  let ?ms = "set_of_list (\<lambda>m. m) (map (\<lambda>i. Module (mn_moduleName i) (mn_modulePath i) (mn_moduleID i))
    (getfuzzjobconfigurationresponse_targetmodules m))"
  have ne: "?ms \<noteq> []" using assms by (auto simp: executor_of_config_def Let_def)
  have os: "oset_by (\<lambda>m. m) ?ms" by (rule set_of_list_oset)
  from assms ne obtain c where c: "received_settings m ''chosenSubtype'' = Some c" "c \<in> set (tr_agentSubTypes cfg)"
    by (auto simp: executor_of_config_def Let_def attempt_ok_iff split: if_splits)
  show ?thesis
    using assms ne c conf_wf [OF ne os]
    by (auto simp: executor_of_config_def Let_def attempt_ok_iff split: if_splits)
qed

definition trw_config :: FLUFFIMessage where
  "trw_config = GetFuzzJobConfigurationResponse
     [\<lparr>mn_moduleName = ''target'', mn_moduleID = 7, mn_modulePath = ''*''\<rparr>] []
     [\<lparr>st_settingName = ''chosenSubtype'', st_settingValue = ''X64-Lin-DynRioSingle''\<rparr>,
      \<lparr>st_settingName = ''targetCMDLine'', st_settingValue = ''t <INPUT_FILE>''\<rparr>,
      \<lparr>st_settingName = ''hangTimeout'', st_settingValue = ''2000''\<rparr>]"

theorem accepted_configuration_well_formed_witness:
  "executor_of_config trw_cfg trw_config = ok_with trw_x \<and> executor_wf trw_cfg trw_x"
proof -
  have "case executor_of_config trw_cfg trw_config of
      ok_with (TestExecutorDynRioSingle b fatal) \<Rightarrow> b = trw_base \<and> fatal = False | _ \<Rightarrow> False" by code_simp
  then have e: "executor_of_config trw_cfg trw_config = ok_with trw_x"
    by (simp add: trw_x_def split: attempt.splits executor.splits)
  with accepted_configuration_well_formed [OF e] show ?thesis by simp
qed

text \<open>
  C25: In every state the runner can reach, the sums that the partners are drawn by are those of the weights, and a
  configured runner has an executor, so that no pass of its loop dereferences a null pointer.
\<close>

theorem runner_reachable_inv:
  assumes "reachable tr_start (tr_step E X cfg) st"
  shows "cpm_inv (tr_tGManager st) \<and> cpm_inv (tr_tEManager st) \<and> (tr_gotConfig st \<longrightarrow> m_executor st \<noteq> None)"
  using tr_system.reachable_inv [OF assms] by (simp add: tr_inv_def)

definition trw_start :: tr where
  "trw_start = trw_st\<lparr>tr_gotConfig := False, m_executor := None, m_numberOfProcessedTestcases := 0\<rparr>"

theorem runner_reachable_inv_witness:
  "\<exists>st :: tr. reachable tr_start (tr_step quiet_env (trw_X quiet_env) trw_cfg) st \<and>
    m_weigthSum (tr_tGManager st) = 4 \<and> cpm_inv (tr_tGManager st)"
proof -
  have "tr_start trw_start"
    using tr_start.intros by (simp add: trw_start_def trw_st_def)
  then have "reachable tr_start (tr_step quiet_env (trw_X quiet_env) trw_cfg) trw_start" by (rule reachable.at_start)
  moreover obtain resp st where h: "SetTGsAndTEsRequestHandler trw_start (SetTGsAndTEsRequest trw_partners []) = (resp, st)"
    by fastforce
  then have "tr_step quiet_env (trw_X quiet_env) trw_cfg trw_start st" by (rule tr_step.set_partners)
  ultimately have r: "reachable tr_start (tr_step quiet_env (trw_X quiet_env) trw_cfg) st" by (rule reachable.by_step)
  have "m_weigthSum (tr_tGManager st) = 4"
    using h by (auto simp: SetTGsAndTEsRequestHandler_def settgsandtesrequest_def updateCommPartners_eq trw_partners_def sw_of_proto_def)
  with r runner_reachable_inv [OF r] show ?thesis by blast
qed

section \<open>Traces of QEMU\<close>




text \<open>
  When setting up the directory for QEMU fails once, the object has forgotten where the template is: the next
  attempt copies the new root directory onto itself, so a template that could not be copied never is.
\<close>

theorem qemu_template_forgotten:
  assumes "QemuUserSingle_execute E Q b fatal template False i a = Some (out, x, a1)"
    and "doInit Q b template a = (False, rootfs, a1)"
    and "\<And>k cmd. q_system Q k cmd \<Longrightarrow> cmd = ''rsync -a '' @ template @ ''/ '' @ x_testcaseDir b @ ''/rootfs/''"
    and "template \<noteq> qemu_rootfs b"
  shows "m_terminationType out = ERR \<and> (\<forall>i' a2. \<exists>out' a3.
    runner_execute E D Q M W x i' full a2 = Some (out', x, a3) \<and> m_terminationType out' = ERR)"
proof -
  have x: "x = TestExecutorQemuUserSingle b fatal (qemu_rootfs b) False" and e: "m_terminationType out = ERR"
    using assms(1,2) doInit_leaves [OF assms(2)] by (auto simp: QemuUserSingle_execute_def)
  have "\<not> q_system Q k (''rsync -a '' @ qemu_rootfs b @ ''/ '' @ x_testcaseDir b @ ''/rootfs/'')" for k
    using assms(3) [of k "''rsync -a '' @ qemu_rootfs b @ ''/ '' @ x_testcaseDir b @ ''/rootfs/''"] assms(4) by auto
  then have d: "fst (doInit Q b (qemu_rootfs b) a2) = False" "fst (snd (doInit Q b (qemu_rootfs b) a2)) = qemu_rootfs b" for a2
    by (simp_all add: doInit_def Let_def)
  have "runner_execute E D Q M W x i' full a2 =
      Some (new_output\<lparr>m_terminationType := ERR\<rparr>, x, snd (snd (doInit Q b (qemu_rootfs b) a2)))" for i' a2
    using d [of a2] by (simp add: runner_execute_def QemuUserSingle_execute_def x Let_def split_beta)
  with e show ?thesis by simp
qed

definition trw_Q0 :: qemu where
  "trw_Q0 = \<lparr>q_system = (\<lambda>_ cmd. cmd = ''rsync -a tmpl/ r/rootfs/''), q_mount = (\<lambda>_ _ _. False), q_link = (\<lambda>_. True),
     q_debug = (\<lambda>_ _ _ _. None), q_listing = (\<lambda>_ _. []), q_root = True, q_directory = (\<lambda>_. True), q_shell = True,
     q_exists = (\<lambda>_. True)\<rparr>"

theorem qemu_template_forgotten_witness:
  "\<exists>x a1. runner_execute quiet_env trw_D trw_Q0 trw_M trw_W (TestExecutorQemuUserSingle trw_base False ''tmpl'' False)
      wit_parent False fresh_agent = Some (new_output\<lparr>m_terminationType := ERR\<rparr>, x, a1) \<and>
    (\<forall>a2. \<exists>out a3. runner_execute quiet_env trw_D trw_Q0 trw_M trw_W x wit_parent False a2 = Some (out, x, a3) \<and>
      m_terminationType out = ERR)"
proof -
  obtain a1 where d: "doInit trw_Q0 trw_base ''tmpl'' fresh_agent = (False, ''r/rootfs'', a1)"
    by (simp add: doInit_def trw_Q0_def trw_base_def qemu_rootfs_def)
  let ?x = "TestExecutorQemuUserSingle trw_base False ''r/rootfs'' False"
  have e: "QemuUserSingle_execute quiet_env trw_Q0 trw_base False ''tmpl'' False wit_parent fresh_agent =
      Some (new_output\<lparr>m_terminationType := ERR\<rparr>, ?x, a1)"
    by (simp add: QemuUserSingle_execute_def d)
  have "\<And>k cmd. q_system trw_Q0 k cmd \<Longrightarrow> cmd = ''rsync -a '' @ ''tmpl'' @ ''/ '' @ x_testcaseDir trw_base @ ''/rootfs/''"
    "''tmpl'' \<noteq> qemu_rootfs trw_base" by (simp_all add: trw_Q0_def trw_base_def qemu_rootfs_def)
  from qemu_template_forgotten [OF e d this] e show ?thesis
    by (intro exI [of _ ?x] exI [of _ a1]) (simp add: runner_execute_def)
qed

end
