(* ===== verification/TRFedProps.thy ===== *)
theory TRFedProps
  imports TRFed SharedMemProps
begin

text \<open>
  The exchange with a feeder that does its part.
\<close>

text \<open>A feeder that takes what it is told and answers: it is ready for the target, and done with a testcase.\<close>

definition answer_to :: "SharedMemMessageType \<Rightarrow> SharedMemMessageType option" where
  "answer_to t = (if t = SHARED_MEM_MESSAGE_FUZZ_FILENAME then Some SHARED_MEM_MESSAGE_FUZZ_DONE
     else if t = SHARED_MEM_MESSAGE_TARGET_PID then Some SHARED_MEM_MESSAGE_READY_TO_FUZZ else None)"

definition feeder_step :: "ipc_env \<Rightarrow> SharedMemIPC \<Rightarrow> ipc_os \<Rightarrow> ipc_os" where
  "feeder_step E cl os =
     (case waitForNewMessageToClient E cl None os of
        Some (True, m, os) \<Rightarrow>
          (case answer_to (m_messageType m) of
             Some t \<Rightarrow> (case sendMessageToServer E cl (mk_message t []) os of Some (_, os) \<Rightarrow> os | None \<Rightarrow> os)
           | None \<Rightarrow> os)
      | _ \<Rightarrow> os)"

lemma feeder_answers:
  assumes "linked srv cl fd c s os" and "m_sharedMemorySize srv = len"
    and "boxes_held len fd c s (Some (mk_message t path), d) os" and "cooperative E" and "answer_to t = Some r"
  shows "boxes_held len fd c s (None, Some (mk_message r [])) (feeder_step E cl os) \<and> linked srv cl fd c s (feeder_step E cl os) \<and>
    (\<forall>q. q \<noteq> c \<longrightarrow> q \<noteq> s \<longrightarrow> (fifo_bytes (feeder_step E cl os) q = 0) = (fifo_bytes os q = 0)) \<and>
    (\<exists>os1. waitForNewMessageToClient E cl None os = Some (True, mk_message t path, os1))"
proof -
  from run_op_boxes [OF assms(1-4), of Client_Waits] obtain os1 where
    w: "waitForNewMessageToClient E cl None os = Some (True, mk_message t path, os1)"
    and l: "linked srv cl fd c s os1" and h: "boxes_held len fd c s (None, d) os1"
    and q: "\<forall>q. q \<noteq> c \<longrightarrow> q \<noteq> s \<longrightarrow> (fifo_bytes os1 q = 0) = (fifo_bytes os q = 0)"
    by (auto simp: take_out_def)
  have "2 * (int MAX_PATH + 9) < len" using assms(1,2) by (simp add: linked_def)
  then have "fits len (mk_message r [])" by (simp add: fits_def getDataSize_def)
  with run_op_boxes [OF l assms(2) h assms(4), of "To_Server (mk_message r [])"] obtain os2 where
    "sendMessageToServer E cl (mk_message r []) os1 = Some (True, os2)" "linked srv cl fd c s os2"
    "boxes_held len fd c s (None, Some (mk_message r [])) os2"
    "\<forall>q. q \<noteq> c \<longrightarrow> q \<noteq> s \<longrightarrow> (fifo_bytes os2 q = 0) = (fifo_bytes os1 q = 0)" by auto
  with w q assms(5) show ?thesis by (simp add: feeder_step_def)
qed

text \<open>A message that it answers is received and answered, and the channel is empty again.\<close>

definition answered_by :: "ipc_env \<Rightarrow> SharedMemIPC \<Rightarrow> ipc_env \<Rightarrow> bool" where
  "answered_by E' cl E \<longleftrightarrow> (\<forall>k. \<not> p_fails E k \<and> \<not> p_signal E k) \<and> (\<forall>k. p_others E k = feeder_step E' cl) \<and> cooperative E'"

definition unused_pipe :: "nat option \<Rightarrow> nat \<Rightarrow> nat \<Rightarrow> ipc_os \<Rightarrow> bool" where
  "unused_pipe i c s os \<longleftrightarrow> (case i of None \<Rightarrow> True | Some q \<Rightarrow> q \<noteq> c \<and> q \<noteq> s \<and> fifo_bytes os q = 0)"

lemma exchange:
  assumes "linked srv cl fd c s os" and "m_sharedMemorySize srv = len" and "boxes_held len fd c s bs os"
    and "answered_by E' cl E" and "unused_pipe i c s os" and "fits len (mk_message t path)" and "answer_to t = Some r"
  shows "\<exists>os1 os2. sendMessageToClient E srv (mk_message t path) os = Some (True, os1) \<and>
    waitForNewMessageToServer E srv i os1 = Some (True, mk_message r [], os2) \<and>
    (\<exists>os'. waitForNewMessageToClient E' cl None os1 = Some (True, mk_message t path, os')) \<and>
    linked srv cl fd c s os2 \<and> boxes_held len fd c s (None, None) os2 \<and>
    (\<forall>q. q \<noteq> c \<longrightarrow> q \<noteq> s \<longrightarrow> (fifo_bytes os2 q = 0) = (fifo_bytes os q = 0))"
proof -
  let ?m = "mk_message t path" and ?h = "nat (len div 2)"
  note l = assms(1) [unfolded linked_def] and a = assms(4) [unfolded answered_by_def]
  have pos: "?h \<noteq> 0"
  proof -
    have "538 < len" using l assms(2) by (simp add: MAX_PATH_def)
    then have "1 \<le> len div 2" by presburger
    then show ?thesis by simp
  qed
  have "\<exists>os1. sendMessageToClient E srv ?m os = Some (True, os1) \<and> boxes_held len fd c s (Some ?m, snd bs) os1 \<and>
      length (shm_mem os1 fd) = nat len \<and> (\<forall>q. q \<noteq> c \<longrightarrow> fifo_bytes os1 q = fifo_bytes os q)"
    using send_message_fits [of srv fd len os 0 ?m E c ?h s] l a assms(2,3,6) pos
    by (auto simp: sendMessageToClient_def boxes_held_def)
  then obtain os1 where s: "sendMessageToClient E srv ?m os = Some (True, os1)"
    and h: "boxes_held len fd c s (Some ?m, snd bs) os1" and len: "length (shm_mem os1 fd) = nat len"
    and q: "\<forall>q. q \<noteq> c \<longrightarrow> fifo_bytes os1 q = fifo_bytes os q" by blast
  have lk: "linked srv cl fd c s os1" using assms(1,2) len by (simp add: linked_def)
  note f = feeder_answers [OF lk assms(2) h _ assms(7), of E'] and o = a [THEN conjunct2, THEN conjunct1]
  let ?os = "feeder_step E' cl os1"
  have f1: "boxes_held len fd c s (None, Some (mk_message r [])) ?os" "linked srv cl fd c s ?os"
    "\<forall>q. q \<noteq> c \<longrightarrow> q \<noteq> s \<longrightarrow> (fifo_bytes ?os q = 0) = (fifo_bytes os1 q = 0)"
    "\<exists>os'. waitForNewMessageToClient E' cl None os1 = Some (True, ?m, os')" using f a by blast+
  have "\<exists>os2. wait_message E srv ?h (Some s) i os1 = Some (True, mk_message r [], os2) \<and>
    shm_mem os2 = shm_mem (p_others E (os_tick os1) os1) \<and> fifo_bytes os2 = (fifo_bytes (p_others E (os_tick os1) os1))(s := 0)"
  proof (rule wait_message_after_others)
    show "m_pView srv = mapped fd" using l by simp
    show "holds len fd s ?h (p_others E (os_tick os1) os1) (Some (mk_message r []))"
      using f1(1) o by (simp add: boxes_held_def)
    show "\<not> pending i (p_others E (os_tick os1) os1)"
      using f1(3) o assms(5) q by (auto simp: pending_def unused_pipe_def split: option.splits)
  qed (use a in blast)
  then obtain os2 where w: "wait_message E srv ?h (Some s) i os1 = Some (True, mk_message r [], os2)"
    and m2: "shm_mem os2 = shm_mem ?os" "fifo_bytes os2 = (fifo_bytes ?os)(s := 0)" using o by auto
  have w2: "waitForNewMessageToServer E srv i os1 = Some (True, mk_message r [], os2)"
    using w l assms(2) by (simp add: waitForNewMessageToServer_def server_half_def)
  have "linked srv cl fd c s os2" using f1(2) m2 by (simp add: linked_def)
  moreover have "boxes_held len fd c s (None, None) os2"
    using f1(1) m2 l by (simp add: boxes_held_def holds_def)
  moreover have "\<forall>q. q \<noteq> c \<longrightarrow> q \<noteq> s \<longrightarrow> (fifo_bytes os2 q = 0) = (fifo_bytes os q = 0)" using f1(3) m2 q by simp
  ultimately show ?thesis using s w2 f1(4) by blast
qed

text \<open>With such a feeder the testcase is told and done.\<close>

lemma tell_feeder_done:
  assumes "m_sharedMemIPC_toFeeder st = Some srv" and "linked srv cl fd c s (m_ipc st)"
    and "boxes_held (m_sharedMemorySize srv) fd c s bs (m_ipc st)"
    and "fifo_bytes (m_ipc st) interrupt_pipe = 0" and "interrupt_pipe \<noteq> c" and "interrupt_pipe \<noteq> s"
    and "\<forall>k. \<not> p_fails (u_ipc M) k \<and> \<not> p_signal (u_ipc M) k"
    and "\<forall>k. p_others (u_ipc M) k = feeder_step E' cl" and "cooperative E'"
    and "fits (m_sharedMemorySize srv) (mk_message SHARED_MEM_MESSAGE_FUZZ_FILENAME
      (generateTestcasePathAndFilename i (x_testcaseDir b)))"
  shows "\<exists>os os3. tell_feeder M b i out st = Some (True, True, out, st\<lparr>m_ipc := os3\<rparr>) \<and>
    sendMessageToClient (u_ipc M) srv (mk_message SHARED_MEM_MESSAGE_FUZZ_FILENAME
      (generateTestcasePathAndFilename i (x_testcaseDir b))) (m_ipc st) = Some (True, os) \<and>
    (\<exists>os'. waitForNewMessageToClient E' cl None os = Some (True, mk_message SHARED_MEM_MESSAGE_FUZZ_FILENAME
      (generateTestcasePathAndFilename i (x_testcaseDir b)), os'))"
proof -
  have "answered_by E' cl (u_ipc M)" using assms(7-9) by (simp add: answered_by_def)
  moreover have "unused_pipe (Some interrupt_pipe) c s (m_ipc st)" using assms(4-6) by (simp add: unused_pipe_def)
  moreover have "answer_to SHARED_MEM_MESSAGE_FUZZ_FILENAME = Some SHARED_MEM_MESSAGE_FUZZ_DONE" by (simp add: answer_to_def)
  ultimately obtain os1 os2 where
    "sendMessageToClient (u_ipc M) srv (mk_message SHARED_MEM_MESSAGE_FUZZ_FILENAME
      (generateTestcasePathAndFilename i (x_testcaseDir b))) (m_ipc st) = Some (True, os1)"
    "waitForNewMessageToServer (u_ipc M) srv (Some interrupt_pipe) os1 = Some (True, mk_message SHARED_MEM_MESSAGE_FUZZ_DONE [], os2)"
    "\<exists>os'. waitForNewMessageToClient E' cl None os1 = Some (True, mk_message SHARED_MEM_MESSAGE_FUZZ_FILENAME
      (generateTestcasePathAndFilename i (x_testcaseDir b)), os')"
    using exchange [OF assms(2) refl assms(3) _ _ assms(10)] by blast
  then show ?thesis
    using assms(1) by (intro exI [of _ os1] exI [of _ os2]) (simp add: tell_feeder_def after_answer_def)
qed

text \<open>Starting such a feeder works when the channel can be set up.\<close>

lemma set_up_env:
  "shm_create (E\<lparr>p_signal := f, p_others := g\<rparr>) = shm_create E" "ftruncate (E\<lparr>p_signal := f, p_others := g\<rparr>) = ftruncate E"
  "mmap (E\<lparr>p_signal := f, p_others := g\<rparr>) = mmap E" "mkfifo (E\<lparr>p_signal := f, p_others := g\<rparr>) = mkfifo E"
  "open_fifo (E\<lparr>p_signal := f, p_others := g\<rparr>) = open_fifo E" "put_name (E\<lparr>p_signal := f, p_others := g\<rparr>) = put_name E"
  by (intro ext, simp add: shm_create_def ftruncate_def mmap_def mkfifo_def open_fifo_def put_name_def)+

lemma server_set_up_env: "initializeAsServer (E\<lparr>p_signal := f, p_others := g\<rparr>) = initializeAsServer E"
  by (intro ext) (simp only: initializeAsServer_def initialize_fifos_def set_up_env)

lemma start_feeder_ready:
  assumes "m_sharedMemIPC_toFeeder st = None" and "\<forall>k cmd. u_feeder M k cmd"
    and "initializeAsServer E (new_SharedMemIPC (''/FLUFFI_SharedMem_'' @ u_guid M (tick a)) 0x1000) (m_ipc st) = (True, srv, os1)"
    and "initializeAsClient E (new_SharedMemIPC (''/FLUFFI_SharedMem_'' @ u_guid M (tick a)) 0x1000) os1 = (True, cl, os2)"
    and "u_ipc M = E\<lparr>p_signal := \<lambda>_. False, p_others := \<lambda>_. feeder_step E cl\<rparr>" and "cooperative E"
    and "fifo_bytes (m_ipc st) interrupt_pipe = 0" and "interrupt_pipe < os_fresh (m_ipc st)"
    and "length (int_to_string pid) < 1000"
  shows "\<exists>fd c s os3 a'. start_feeder M f pid st a = Some (True, st\<lparr>m_sharedMemIPC_toFeeder := Some srv, m_ipc := os3\<rparr>, a') \<and>
    linked srv cl fd c s os3 \<and> m_sharedMemorySize srv = 0x1000 \<and> boxes_held 0x1000 fd c s (None, None) os3 \<and>
    fifo_bytes os3 interrupt_pipe = 0 \<and> interrupt_pipe \<noteq> c \<and> interrupt_pipe \<noteq> s"
proof -
  let ?name = "''/FLUFFI_SharedMem_'' @ u_guid M (tick a)"
  let ?st = "st\<lparr>m_sharedMemIPC_toFeeder := Some srv, m_ipc := os1\<rparr>"
  have i: "initializeAsServer (u_ipc M) (new_SharedMemIPC ?name 0x1000) (m_ipc st) = (True, srv, os1)"
    using assms(3) unfolding assms(5) server_set_up_env .
  from set_up_linked [OF assms(3,4)] obtain fd c s k where lk: "linked srv cl fd c s os2" "boxes_held 0x1000 fd c s (None, None) os2"
    and f: "os_fresh (m_ipc st) \<le> c" "os_fresh (m_ipc st) \<le> s" "\<forall>q. q < os_fresh (m_ipc st) \<longrightarrow> fifo_bytes os2 q = fifo_bytes (m_ipc st) q"
    and k: "os2 = os1\<lparr>os_tick := k\<rparr>" by (auto simp: boxes_held_def)
  have l1: "linked srv cl fd c s os1" "boxes_held 0x1000 fd c s (None, None) os1" using lk by (simp_all add: k boxes_held_def)
  have size: "m_sharedMemorySize srv = 0x1000"
    using assms(3) by (auto simp: initializeAsServer_def initialize_fifos_def Let_def new_SharedMemIPC_def
        split: if_splits prod.splits option.splits bool.splits)
  have ip: "fifo_bytes os1 interrupt_pipe = 0" "interrupt_pipe \<noteq> c" "interrupt_pipe \<noteq> s" using f assms(7,8) by (simp_all add: k)
  have "answered_by E cl (u_ipc M)" using assms(6) by (simp add: answered_by_def assms(5) cooperative_def)
  moreover have un: "unused_pipe None c s os1" by (simp add: unused_pipe_def)
  moreover have "fits 0x1000 (mk_message SHARED_MEM_MESSAGE_TARGET_PID (int_to_string pid))"
    using assms(9) by (simp add: fits_def getDataSize_def MAX_PATH_def)
  moreover have "answer_to SHARED_MEM_MESSAGE_TARGET_PID = Some SHARED_MEM_MESSAGE_READY_TO_FUZZ" by (simp add: answer_to_def)
  ultimately obtain osa os3 where x: "sendMessageToClient (u_ipc M) srv (mk_message SHARED_MEM_MESSAGE_TARGET_PID (int_to_string pid)) os1 = Some (True, osa)"
    "waitForNewMessageToServer (u_ipc M) srv None osa = Some (True, mk_message SHARED_MEM_MESSAGE_READY_TO_FUZZ [], os3)"
    and l3: "linked srv cl fd c s os3" "boxes_held 0x1000 fd c s (None, None) os3"
    and q3: "\<forall>q. q \<noteq> c \<longrightarrow> q \<noteq> s \<longrightarrow> (fifo_bytes os3 q = 0) = (fifo_bytes os1 q = 0)"
    using exchange [OF l1(1) size l1(2) _ un] by blast
  have "initializeFeeder M (f @ '' '' @ ?name) srv pid os1 (next_tick a) = Some (True, os3, next_tick (next_tick a))"
    using assms(2) x by (simp add: initializeFeeder_def)
  moreover have p3: "fifo_bytes os3 interrupt_pipe = 0" using q3 ip by simp
  ultimately have "start_feeder M f pid st a = Some (True, st\<lparr>m_sharedMemIPC_toFeeder := Some srv, m_ipc := os3\<rparr>, next_tick (next_tick a))"
    using assms(1) i by (simp add: start_feeder_def)
  with l3 size p3 ip(2,3) show ?thesis by blast
qed

end
