(* ===== verification/TRMultiProps.thy ===== *)
theory TRMultiProps
  imports TRProps TRFedProps
begin

text \<open>
  Properties of the executor for several testcases in one process: what its flag means, when a restart is
  forced, and a round with a feeder and DynamoRIO.
\<close>

section \<open>The state between two testcases\<close>

text \<open>When the flag is set, the target runs under DynamoRIO and there is a channel to the feeder.\<close>

definition ready_for :: "bool \<Rightarrow> multi \<Rightarrow> bool" where
  "ready_for use_dyn_rio st \<longleftrightarrow>
     (\<exists>t. m_debuggeeProcess st = Some t \<and> ts_doPostMortemAnalysis t = (\<not> use_dyn_rio)) \<and>
     (\<exists>ipc fd. m_sharedMemIPC_toFeeder st = Some ipc \<and> m_pView ipc = mapped fd)"

definition multi_inv :: "multi \<Rightarrow> bool" where
  "multi_inv st \<longleftrightarrow> m_iterationNumMod2 st \<in> {0, 1} \<and> (m_target_and_feeder_okay st \<longrightarrow> ready_for True st)"

lemma clear_logs_state:
  "clear_logs E M b use st a = (ok, st', a') \<Longrightarrow>
     st' = st\<lparr>m_executionsSinceLastRestart := 0, m_iterationNumMod2 := if use then 0 else m_iterationNumMod2 st\<rparr>"
  by (auto simp: clear_logs_def Let_def split: if_splits)

lemma launch_target_state:
  "launch_target M b use t st a = (ok, st', a') \<Longrightarrow>
     \<exists>pid client. st' = st\<lparr>m_debuggeeProcess := Some t, m_targetProcessID := pid, m_dynrio_clientID := client\<rparr>"
  by (cases st) (auto simp: launch_target_def waitForDynRioInitialization_def Let_def split: if_splits option.splits prod.splits)

lemma start_target_state:
  assumes "start_target M b fatal s forks use st a = Some (ok, st', a')"
  shows "m_iterationNumMod2 st' = m_iterationNumMod2 st"
    and "m_executionsSinceLastRestart st' = m_executionsSinceLastRestart st"
    and "m_sharedMemIPC_toFeeder st' = m_sharedMemIPC_toFeeder st" and "m_ipc st' = m_ipc st"
    and "ok \<Longrightarrow> \<exists>t. m_debuggeeProcess st' = Some t \<and> ts_doPostMortemAnalysis t = (\<not> use)"
proof -
  have p: "\<exists>n. st2 = st1\<lparr>m_dynrioPipeName := n\<rparr>" if "open_dynrio_pipe M st1 a1 = (k, st2, a2)" for st1 st2 a1 a2 k
    using that by (auto simp: open_dynrio_pipe_def Let_def split: if_splits)
  from assms obtain n st1 where st1: "st1 = st\<lparr>m_dynrioPipeName := n\<rparr> \<or> st1 = st" and
    r: "(\<not> ok \<and> st' = st1) \<or> (\<exists>c a1. launch_target M b use (target_of b fatal s use c) st1 a1 = (ok, st', a'))"
    by (auto simp: start_target_def Let_def bind_eq_Some_conv split_beta split: if_splits)
      (metis p prod.collapse)+
  have "\<exists>pid client. st' = st1\<lparr>m_debuggeeProcess := Some (target_of b fatal s use c), m_targetProcessID := pid,
      m_dynrio_clientID := client\<rparr>" if "launch_target M b use (target_of b fatal s use c) st1 a1 = (ok, st', a')" for c a1
    by (rule launch_target_state [OF that])
  with st1 r show "m_iterationNumMod2 st' = m_iterationNumMod2 st"
    and "m_executionsSinceLastRestart st' = m_executionsSinceLastRestart st"
    and "m_sharedMemIPC_toFeeder st' = m_sharedMemIPC_toFeeder st" and "m_ipc st' = m_ipc st"
    and "ok \<Longrightarrow> \<exists>t. m_debuggeeProcess st' = Some t \<and> ts_doPostMortemAnalysis t = (\<not> use)"
    by (fastforce simp: target_of_def)+
qed

lemma attempt_state:
  assumes "attemptStartTargetAndFeeder E M b fatal f s forks use st a = Some (ok, st', a')"
    and "m_iterationNumMod2 st \<in> {0, 1}"
  shows "m_iterationNumMod2 st' \<in> {0, 1}" and "m_executionsSinceLastRestart st' = 0" and "ok \<Longrightarrow> ready_for use st'"
proof -
  obtain c st1 a1 where c: "clear_logs E M b use st a = (c, st1, a1)" by (cases "clear_logs E M b use st a")
  note l = clear_logs_state [OF c]
  note u = assms(1) [unfolded attemptStartTargetAndFeeder_def c Let_def prod.case]
  have "m_iterationNumMod2 st' \<in> {0, 1} \<and> m_executionsSinceLastRestart st' = 0 \<and> (ok \<longrightarrow> ready_for use st')"
  proof (cases c)
    case False
    with u l assms(2) show ?thesis by (cases use) auto
  next
    case True
    with u obtain k st2 a2 where t: "start_target M b fatal s forks use st1 a1 = Some (k, st2, a2)"
      by (auto simp: bind_eq_Some_conv)
    note ts = start_target_state [OF t]
    show ?thesis
    proof (cases k)
      case False
      then show ?thesis using u True t l assms(2) ts by simp
    next
      case k: True
      with u True t have "start_feeder M f (int (m_targetProcessID st2)) st2 a2 = Some (ok, st', a')" by simp
      from start_feeder_state [OF this] show ?thesis using ts k l assms(2) by (auto simp: ready_for_def)
    qed
  qed
  then show "m_iterationNumMod2 st' \<in> {0, 1}" and "m_executionsSinceLastRestart st' = 0" and "ok \<Longrightarrow> ready_for use st'"
    by simp_all
qed

text \<open>A run changes only the channel's memory; when it succeeds it was clean or the feeder saw a crash.\<close>

lemma run_state:
  assumes "runSingleTestcase E M b use i out st a = Some (ok, out', st', a')"
  shows "\<exists>os. st' = st\<lparr>m_ipc := os\<rparr>" and "ok \<Longrightarrow> m_terminationType out' \<in> {CLEAN, EXCEPTION_OTHER}"
proof -
  obtain r o1 a1 where b: "(if use then before_testcase E M b st out a else (True, out, a)) = (r, o1, a1)"
    by (cases "if use then before_testcase E M b st out a else (True, out, a)")
  have "\<exists>o3. out' = executed_normally o3"
    if "after_done E M b use st2 o2 a1 = Some (True, out', a')" for st2 o2
    using that by (auto simp: after_done_def Let_def split_beta split: if_splits) metis
  then have d: "m_terminationType out' = CLEAN"
    if "after_done E M b use st2 o2 a1 = Some (True, out', a')" for st2 o2
    using that by (fastforce simp: executed_normally_def)
  from assms b have "(\<exists>os. st' = st\<lparr>m_ipc := os\<rparr>) \<and> (ok \<longrightarrow> m_terminationType out' \<in> {CLEAN, EXCEPTION_OTHER})"
  proof (cases rule: runSingleTestcase_cases)
    case not_ready
    then have "st' = st\<lparr>m_ipc := m_ipc st\<rparr>" "\<not> ok" by simp_all
    then show ?thesis by blast
  next
    case ended
    from tell_feeder_state [OF ended(2)] show ?thesis by auto
  next
    case (finished o2)
    from tell_feeder_state(1) [OF finished(2)] finished(3) d show ?thesis by auto
  qed
  then show "\<exists>os. st' = st\<lparr>m_ipc := os\<rparr>" and "ok \<Longrightarrow> m_terminationType out' \<in> {CLEAN, EXCEPTION_OTHER}" by auto
qed

lemma reproduce_state:
  assumes "reproduce E M b fatal f s forks i st a = Some (out, st', a')" and "m_iterationNumMod2 st \<in> {0, 1}"
  shows "m_iterationNumMod2 st' \<in> {0, 1} \<and> \<not> m_target_and_feeder_okay st'"
proof -
  from assms obtain k st1 a1 where t: "attemptStartTargetAndFeeder E M b fatal f s forks False st (next_tick a) = Some (k, st1, a1)"
    by (auto simp: reproduce_def Let_def bind_eq_Some_conv)
  note ts = attempt_state(1) [OF t assms(2)]
  note u = assms(1) [unfolded reproduce_def Let_def t Option.bind.bind_lunit prod.case]
  show ?thesis
  proof (cases k)
    case False
    with u ts show ?thesis by auto
  next
    case True
    with u obtain g second st2 a2 where r: "runSingleTestcase E M b False i new_output
        (st1\<lparr>m_target_and_feeder_okay := k\<rparr>) a1 = Some (g, second, st2, a2)" by (auto simp: bind_eq_Some_conv)
    from u True r have "st' = not_okay st2" by (auto simp: bind_eq_Some_conv split_beta split: if_splits)
    then show ?thesis using run_state(1) [OF r] ts by (auto simp: not_okay_def)
  qed
qed


section \<open>A round with the feeder\<close>

lemma clean_round:
  assumes "m_sharedMemIPC_toFeeder st = Some srv" and "linked srv cl fd c s (m_ipc st)"
    and "boxes_held (m_sharedMemorySize srv) fd c s bs (m_ipc st)"
    and "fifo_bytes (m_ipc st) interrupt_pipe = 0" and "interrupt_pipe \<noteq> c" and "interrupt_pipe \<noteq> s"
    and "\<forall>k. \<not> p_fails (u_ipc M) k \<and> \<not> p_signal (u_ipc M) k"
    and "\<forall>k. p_others (u_ipc M) k = feeder_step E' cl" and "cooperative E'"
    and "fits (m_sharedMemorySize srv) (mk_message SHARED_MEM_MESSAGE_FUZZ_FILENAME
      (generateTestcasePathAndFilename i (x_testcaseDir b)))"
    and "before_testcase E M b st new_output a = (True, new_output, a1)"
    and "u_nudge M (tick a1) NUDGE_DUMP_CURRENT_COVERAGE = 0" and "u_answer M (Suc (tick a1)) = Some (CHR ''D'')"
    and "a2 = next_tick (write_logs M (x_testcaseDir b) a1)"
    and "getMultiDrCovOutputFile M b st (m_iterationNumMod2 st) a2 = log" and "log \<noteq> []"
    and "files a2 log = Some content" and "content \<noteq> []"
    and "copyCoveredModulesToDebugExecutionOutput (u_dynrio M) content (m_modulesToCover b) new_output = Some out"
  shows "\<exists>os os3. runSingleTestcase E M b True i new_output st a =
      Some (True, executed_normally out, st\<lparr>m_ipc := os3\<rparr>, delete_log E log a2) \<and>
    sendMessageToClient (u_ipc M) srv (mk_message SHARED_MEM_MESSAGE_FUZZ_FILENAME
      (generateTestcasePathAndFilename i (x_testcaseDir b))) (m_ipc st) = Some (True, os) \<and>
    (\<exists>os'. waitForNewMessageToClient E' cl None os = Some (True, mk_message SHARED_MEM_MESSAGE_FUZZ_FILENAME
      (generateTestcasePathAndFilename i (x_testcaseDir b)), os'))"
proof -
  let ?m = "mk_message SHARED_MEM_MESSAGE_FUZZ_FILENAME (generateTestcasePathAndFilename i (x_testcaseDir b))"
  from tell_feeder_done [OF assms(1-10)] obtain os os3 where
    t: "tell_feeder M b i new_output st = Some (True, True, new_output, st\<lparr>m_ipc := os3\<rparr>)"
    and s: "sendMessageToClient (u_ipc M) srv ?m (m_ipc st) = Some (True, os)"
    and f: "\<exists>os'. waitForNewMessageToClient E' cl None os = Some (True, ?m, os')" by blast
  let ?st = "st\<lparr>m_ipc := os3\<rparr>"
  have n: "nudge_and_wait M b ?st NUDGE_DUMP_CURRENT_COVERAGE (CHR ''D'') ''dr_nudge_pid failed (2)''
      ''Problem while communicating with dynamoRio (2)!'' new_output a1 = (True, new_output, a2)"
    using assms(12-14) by (simp add: nudge_and_wait_def write_logs_def Let_def)
  have g: "getMultiDrCovOutputFile M b ?st (m_iterationNumMod2 ?st) a2 = log"
    using assms(15) by (simp add: getMultiDrCovOutputFile_def)
  have p: "parse_log E M b ?st new_output a2 = Some (True, out, delete_log E log a2)"
    using assms(16-19) g by (simp add: parse_log_def Let_def readAllBytesFromFile_def)
  have "after_done E M b True ?st new_output a1 = Some (True, executed_normally out, delete_log E log a2)"
    by (simp add: after_done_def n p)
  then have "runSingleTestcase E M b True i new_output st a =
      Some (True, executed_normally out, ?st, delete_log E log a2)"
    using assms(11) t by (simp add: runSingleTestcase_def)
  then show ?thesis using s f by blast
qed

text \<open>
  C28: A round with a feeder that answers and with DynamoRIO: the feeder receives the path of the testcase, and
  when the coverage was reset and dumped the result is clean with the blocks of the log file, which is deleted or
  marked.
\<close>

theorem clean_round_reports_log:
  assumes "m_sharedMemIPC_toFeeder st = Some srv" and "linked srv cl fd c s (m_ipc st)"
    and "boxes_held (m_sharedMemorySize srv) fd c s bs (m_ipc st)"
    and "fifo_bytes (m_ipc st) interrupt_pipe = 0" and "interrupt_pipe \<noteq> c" and "interrupt_pipe \<noteq> s"
    and "\<forall>k. \<not> p_fails (u_ipc M) k \<and> \<not> p_signal (u_ipc M) k"
    and "\<forall>k. p_others (u_ipc M) k = feeder_step E' cl" and "cooperative E'"
    and "fits (m_sharedMemorySize srv) (mk_message SHARED_MEM_MESSAGE_FUZZ_FILENAME
      (generateTestcasePathAndFilename i (x_testcaseDir b)))"
    and "before_testcase E M b st new_output a = (True, new_output, a1)"
    and "u_nudge M (tick a1) NUDGE_DUMP_CURRENT_COVERAGE = 0" and "u_answer M (Suc (tick a1)) = Some (CHR ''D'')"
    and "a2 = next_tick (write_logs M (x_testcaseDir b) a1)"
    and "getMultiDrCovOutputFile M b st (m_iterationNumMod2 st) a2 = log" and "log \<noteq> []"
    and "files a2 log = Some content" and "content \<noteq> []"
    and "copyCoveredModulesToDebugExecutionOutput (u_dynrio M) content (m_modulesToCover b) new_output = Some out"
  shows "\<exists>st' a' os os'. runSingleTestcase E M b True i new_output st a = Some (True, executed_normally out, st', a') \<and>
    (files a' log = None \<or> log \<in> set (m_setOfFilesToDelete a')) \<and>
    sendMessageToClient (u_ipc M) srv (mk_message SHARED_MEM_MESSAGE_FUZZ_FILENAME
      (generateTestcasePathAndFilename i (x_testcaseDir b))) (m_ipc st) = Some (True, os) \<and>
    waitForNewMessageToClient E' cl None os = Some (True, mk_message SHARED_MEM_MESSAGE_FUZZ_FILENAME
      (generateTestcasePathAndFilename i (x_testcaseDir b)), os')"
proof -
  have "files (delete_log E log a2) log = None \<or> log \<in> set (m_setOfFilesToDelete (delete_log E log a2))"
    by (auto simp: delete_log_def fs_remove_def collectNow_def markFileForDelete_def oset split: if_splits)
  with clean_round [OF assms] show ?thesis by blast
qed

section \<open>A restart by force\<close>

text \<open>
  With a restart after N testcases the process is kept when at most N testcases have been counted, and after
  that the next testcase starts a new one, whose first testcase is not counted. So a process that stays well serves
  N + 2 testcases.
\<close>

theorem restart_by_count:
  assumes "DynRioMulti_execute E M b fatal f s forks n i st a = Some (out, st', a')" and "n > 0"
    and "m_target_and_feeder_okay st'" and "multi_inv st"
  shows "if m_target_and_feeder_okay st \<and> m_executionsSinceLastRestart st \<le> n
    then m_debuggeeProcess st' = m_debuggeeProcess st \<and>
      m_executionsSinceLastRestart st' = m_executionsSinceLastRestart st + 1
    else m_executionsSinceLastRestart st' = 0"
proof -
  let ?st = "count_execution n st"
  have inv: "multi_inv ?st" using assms(4) by (auto simp: count_execution_def multi_inv_def not_okay_def ready_for_def Let_def)
  from assms(1) obtain k st1 a1 where t: "(if m_target_and_feeder_okay ?st then Some (True, ?st, a)
      else attemptStartTargetAndFeeder E M b fatal f s forks True ?st a) = Some (k, st1, a1)"
    by (auto simp: DynRioMulti_execute_def Let_def bind_eq_Some_conv)
  note u = assms(1) [unfolded DynRioMulti_execute_def Let_def t Option.bind.bind_lunit prod.case]
  have k: "k" using u assms(3) by (cases k) auto
  with u obtain g o2 st2 a2 where r: "runSingleTestcase E M b True i new_output
      (st1\<lparr>m_target_and_feeder_okay := k\<rparr>) a1 = Some (g, o2, st2, a2)"
    and w: "after_run E M b fatal f s forks i o2 (st2\<lparr>m_target_and_feeder_okay := g\<rparr>) a2 = Some (out, st', a')"
    by (auto simp: bind_eq_Some_conv)
  obtain os where st2: "st2 = st1\<lparr>m_target_and_feeder_okay := k, m_ipc := os\<rparr>" using run_state(1) [OF r] by auto
  have it: "m_iterationNumMod2 st2 \<in> {0, 1}"
    using t inv attempt_state(1) [of E M b fatal f s forks True ?st a k st1 a1] by (auto simp: st2 multi_inv_def split: if_splits)
  have kept: "m_debuggeeProcess st' = m_debuggeeProcess st1" "m_executionsSinceLastRestart st' = m_executionsSinceLastRestart st1"
    using w assms(3) it reproduce_state [of E M b fatal f s forks i "st2\<lparr>m_target_and_feeder_okay := g\<rparr>" "next_tick a2" out st' a']
    by (auto simp: after_run_def Let_def not_okay_def st2 split: if_splits)
  show ?thesis
  proof (cases "m_target_and_feeder_okay st \<and> m_executionsSinceLastRestart st \<le> n")
    case True
    then have "st1 = st\<lparr>m_executionsSinceLastRestart := m_executionsSinceLastRestart st + 1\<rparr>"
      using t assms(2) by (simp add: count_execution_def Let_def)
    with True kept show ?thesis by simp
  next
    case False
    then have "\<not> m_target_and_feeder_okay ?st" using assms(2) by (auto simp: count_execution_def Let_def not_okay_def)
    with t inv have "m_executionsSinceLastRestart st1 = 0"
      using attempt_state(2) [of E M b fatal f s forks True ?st a k st1 a1] by (simp add: multi_inv_def)
    with False kept show ?thesis by auto
  qed
qed

section \<open>A round on a concrete channel\<close>

definition trm_log :: string where
  "trm_log = ''r/drcov.t.00007.0000.proc.log''"

definition trm_D :: dynrio where
  "trm_D = trw_D\<lparr>d_listing := \<lambda>_ _. [trm_log]\<rparr>"

definition trm_content :: bytes where
  "trm_content = drcov_file ''DRCOV FLAVOR: drcov-64'' (columns ! 0) trw_mods trw_enc trw_es"

definition trm_M :: "SharedMemIPC \<Rightarrow> multi_env" where
  "trm_M cl = trw_M\<lparr>u_ipc := smw_E\<lparr>p_signal := \<lambda>_. False, p_others := \<lambda>_. feeder_step smw_E cl\<rparr>, u_dynrio := trm_D,
     u_answer := \<lambda>k. Some (if k = 2 then CHR ''R'' else CHR ''D'')\<rparr>"

definition trm_a :: agent where
  "trm_a = fresh_agent\<lparr>files := [trm_log \<mapsto> trm_content]\<rparr>"

definition trm_st :: "int \<Rightarrow> SharedMemIPC \<Rightarrow> ipc_os \<Rightarrow> multi" where
  "trm_st n srv os = new_multi\<lparr>m_target_and_feeder_okay := True, m_sharedMemIPC_toFeeder := Some srv, m_ipc := os,
     m_debuggeeProcess := Some (target_of trw_base False [] True ''t''), m_targetProcessID := 7,
     m_executionsSinceLastRestart := n\<rparr>"

definition trm_out :: DebugExecutionOutput where
  "trm_out = new_output\<lparr>m_coveredBasicBlocks := [FluffiBasicBlock 16 7, FluffiBasicBlock 19 7]\<rparr>"

text \<open>A channel that was set up in the executor's first state.\<close>

definition trm_channel :: "SharedMemIPC \<Rightarrow> SharedMemIPC \<Rightarrow> nat \<Rightarrow> nat \<Rightarrow> nat \<Rightarrow> ipc_os \<Rightarrow> bool" where
  "trm_channel srv cl fd c s os \<longleftrightarrow> linked srv cl fd c s os \<and> m_sharedMemorySize srv = 4096 \<and>
     boxes_held 4096 fd c s (None, None) os \<and> fifo_bytes os interrupt_pipe = 0 \<and> interrupt_pipe \<noteq> c \<and> interrupt_pipe \<noteq> s"

lemma trm_channel_exists: "\<exists>srv cl fd c s os. trm_channel srv cl fd c s os"
proof -
  let ?os = "m_ipc new_multi"
  have "shm_names ?os ''/s'' = None" "fifo_names ?os = Map.empty" by (simp_all add: new_multi_def first_os_def)
  moreover have "2 * (int MAX_PATH + 9) < 4096" by (simp add: MAX_PATH_def)
  moreover have "\<forall>k. \<not> p_fails smw_E k" by (simp add: smw_E_def)
  moreover have "fifo_name smw_E (os_tick ?os + 3) \<noteq> fifo_name smw_E (os_tick ?os + 5)"
    using smw_guids(2) by (simp add: new_multi_def first_os_def smw_os_def)
  ultimately obtain srv os1 cl os where i: "initializeAsServer smw_E (new_SharedMemIPC ''/s'' 4096) ?os = (True, srv, os1)"
    "initializeAsClient smw_E (new_SharedMemIPC ''/s'' 4096) os1 = (True, cl, os)"
    using set_up_succeeds [OF _ smw_guids(1)] by blast
  from set_up_linked [OF i] obtain fd c s where "linked srv cl fd c s os" "boxes_held 4096 fd c s (None, None) os"
    "os_fresh ?os \<le> c" "os_fresh ?os \<le> s" "\<forall>q. q < os_fresh ?os \<longrightarrow> fifo_bytes os q = fifo_bytes ?os q"
    by (auto simp: boxes_held_def)
  moreover have "m_sharedMemorySize srv = 4096"
    using i(1) by (auto simp: initializeAsServer_def initialize_fifos_def Let_def new_SharedMemIPC_def
        split: if_splits prod.splits option.splits bool.splits)
  ultimately have "trm_channel srv cl fd c s os" by (simp add: trm_channel_def new_multi_def first_os_def)
  then show ?thesis by blast
qed

lemma trm_file: "copyCoveredModulesToDebugExecutionOutput trm_D trm_content trw_ms new_output = Some trm_out"
proof -
  have "copyCoveredModulesToDebugExecutionOutput trm_D trm_content trw_ms new_output =
    Some (new_output\<lparr>m_coveredBasicBlocks := m_coveredBasicBlocks new_output @
      concat (map (hit_block (module_map_of trw_ms trw_mods)) trw_es)\<rparr>)"
    unfolding trm_content_def
  proof (rule drcov_file_read)
    show "\<forall>m \<in> set trw_mods. module_ok m" by (simp add: trw_mods_def module_ok_def text_ok_def)
    show "\<forall>e \<in> set trw_es. length (trw_enc e) = d_entry_size trm_D \<and> d_entry trm_D (trw_enc e) = e"
      by (simp add: trw_es_def trw_enc_def trw_D_def trm_D_def)
  qed (simp_all add: flavors_def columns_def trw_mods_def trw_es_def trw_enc_def drcov_file_def drcov_header_def
      module_line_def to_string.simps lines_def)
  then show ?thesis by (simp add: trw_map trw_es_def hit_block_def new_output_def trm_out_def)
qed

lemma trm_log_file:
  "getMultiDrCovOutputFile (trm_M cl) trw_base (trm_st n srv os) 0 a = trm_log"
  "getMultiDrCovOutputFile (trm_M cl) trw_base (trm_st n srv os) 1 a = []"
proof -
  have "pad0 5 (to_string 7) = ''00007''" "pad0 4 (int_to_string 0) = ''0000''" "pad0 4 (int_to_string 1) = ''0001''"
    by code_simp+
  then show "getMultiDrCovOutputFile (trm_M cl) trw_base (trm_st n srv os) 0 a = trm_log"
    "getMultiDrCovOutputFile (trm_M cl) trw_base (trm_st n srv os) 1 a = []"
    by (simp_all add: getMultiDrCovOutputFile_def trm_M_def trm_D_def trm_log_def trm_st_def stringHasEnding_def substr_def)
qed

text \<open>What a run needs, for each of the witnesses below.\<close>

lemma trm_before: "before_testcase quiet_env (trm_M cl) trw_base (trm_st n srv os) new_output trm_a =
    (True, new_output, trm_a\<lparr>tick := 3\<rparr>)"
proof -
  have l: "getMultiDrCovOutputFile (trm_M cl) trw_base (trm_st n srv os) ((m_iterationNumMod2 (trm_st n srv os) + 1) mod 2) trm_a = []"
    using trm_log_file(2) by (simp add: trm_st_def new_multi_def)
  have r: "u_rounds (trm_M cl) k = 0" "u_nudge (trm_M cl) k x = 0" "u_logs (trm_M cl) k = []" "tick trm_a = 0"
    "u_answer (trm_M cl) (Suc (Suc 0)) = Some (CHR ''R'')" for k x
    by (simp_all add: trm_M_def trw_M_def trm_a_def fresh_agent_def)
  show ?thesis
    unfolding before_testcase_def l Let_def r by (simp add: file_exists_def nudge_and_wait_def write_logs_def r numeral_eq_Suc)
qed

lemma trm_facts:
  "\<forall>k. \<not> p_fails (u_ipc (trm_M cl)) k \<and> \<not> p_signal (u_ipc (trm_M cl)) k"
  "\<forall>k. p_others (u_ipc (trm_M cl)) k = feeder_step smw_E cl"
  "u_nudge (trm_M cl) k x = 0" "u_answer (trm_M cl) (Suc (tick (trm_a\<lparr>tick := 3\<rparr>))) = Some (CHR ''D'')"
  "u_dynrio (trm_M cl) = trm_D" "m_modulesToCover trw_base = trw_ms"
  by (simp_all add: trm_M_def trw_M_def smw_E_def trw_base_def)

definition trm_end :: "SharedMemIPC \<Rightarrow> agent" where
  "trm_end cl = next_tick (write_logs (trm_M cl) (x_testcaseDir trw_base) (trm_a\<lparr>tick := 3\<rparr>))"

lemma trm_files: "trm_log \<noteq> []" "files (trm_end cl) trm_log = Some trm_content" "trm_content \<noteq> []"
  by (simp_all add: trm_log_def trm_end_def write_logs_def trm_M_def trw_M_def trm_a_def trm_content_def drcov_file_def
      drcov_header_def lines_def)

lemma trm_fits: "fits 4096 (mk_message SHARED_MEM_MESSAGE_FUZZ_FILENAME
    (generateTestcasePathAndFilename wit_parent (x_testcaseDir trw_base)))"
proof -
  have "length (generateTestcasePathAndFilename wit_parent (x_testcaseDir trw_base)) < 1000" by code_simp
  then show ?thesis by (simp add: fits_def getDataSize_def MAX_PATH_def)
qed

lemma trm_state:
  "m_sharedMemIPC_toFeeder (trm_st n srv os) = Some srv" "m_ipc (trm_st n srv os) = os"
  "m_iterationNumMod2 (trm_st n srv os) = 0" "(trm_st n srv os)\<lparr>m_ipc := os3\<rparr> = trm_st n srv os3"
  by (simp_all add: trm_st_def new_multi_def)

lemma trm_hyps:
  assumes "trm_channel srv cl fd c s os"
  shows "linked srv cl fd c s (m_ipc (trm_st n srv os))"
    and "boxes_held (m_sharedMemorySize srv) fd c s (None, None) (m_ipc (trm_st n srv os))"
    and "fifo_bytes (m_ipc (trm_st n srv os)) interrupt_pipe = 0" and "interrupt_pipe \<noteq> c" and "interrupt_pipe \<noteq> s"
    and "fits (m_sharedMemorySize srv) (mk_message SHARED_MEM_MESSAGE_FUZZ_FILENAME
      (generateTestcasePathAndFilename wit_parent (x_testcaseDir trw_base)))"
    and "copyCoveredModulesToDebugExecutionOutput (u_dynrio (trm_M cl)) trm_content (m_modulesToCover trw_base) new_output =
      Some trm_out"
    and "getMultiDrCovOutputFile (trm_M cl) trw_base (trm_st n srv os) (m_iterationNumMod2 (trm_st n srv os)) (trm_end cl) = trm_log"
  using assms trm_fits by (simp_all add: trm_channel_def trm_state trm_facts trm_file trm_log_file)

lemma trm_round:
  assumes "trm_channel srv cl fd c s os"
  shows "\<exists>os3. runSingleTestcase quiet_env (trm_M cl) trw_base True wit_parent new_output (trm_st n srv os) trm_a =
    Some (True, executed_normally trm_out, trm_st n srv os3, delete_log quiet_env trm_log (trm_end cl))"
proof -
  have "\<exists>os1 os3. runSingleTestcase quiet_env (trm_M cl) trw_base True wit_parent new_output (trm_st n srv os) trm_a =
      Some (True, executed_normally trm_out, (trm_st n srv os)\<lparr>m_ipc := os3\<rparr>, delete_log quiet_env trm_log (trm_end cl)) \<and>
    sendMessageToClient (u_ipc (trm_M cl)) srv (mk_message SHARED_MEM_MESSAGE_FUZZ_FILENAME
      (generateTestcasePathAndFilename wit_parent (x_testcaseDir trw_base))) (m_ipc (trm_st n srv os)) = Some (True, os1) \<and>
    (\<exists>os'. waitForNewMessageToClient smw_E cl None os1 = Some (True, mk_message SHARED_MEM_MESSAGE_FUZZ_FILENAME
      (generateTestcasePathAndFilename wit_parent (x_testcaseDir trw_base)), os'))"
    by (rule clean_round) (rule trm_hyps [OF assms] trm_state trm_facts trm_files trm_before smw_cooperative trm_end_def)+
  then show ?thesis unfolding trm_state by blast
qed

theorem clean_round_reports_log_witness:
  "\<exists>cl st st' a'. runSingleTestcase quiet_env (trm_M cl) trw_base True wit_parent new_output st trm_a =
      Some (True, executed_normally trm_out, st', a') \<and> files a' trm_log = None"
proof -
  obtain srv cl fd c s os where ch: "trm_channel srv cl fd c s os" using trm_channel_exists by blast
  let ?m = "mk_message SHARED_MEM_MESSAGE_FUZZ_FILENAME (generateTestcasePathAndFilename wit_parent (x_testcaseDir trw_base))"
  have "\<exists>st' a' os1 os'. runSingleTestcase quiet_env (trm_M cl) trw_base True wit_parent new_output (trm_st 2 srv os) trm_a =
      Some (True, executed_normally trm_out, st', a') \<and>
    (files a' trm_log = None \<or> trm_log \<in> set (m_setOfFilesToDelete a')) \<and>
    sendMessageToClient (u_ipc (trm_M cl)) srv ?m (m_ipc (trm_st 2 srv os)) = Some (True, os1) \<and>
    waitForNewMessageToClient smw_E cl None os1 = Some (True, ?m, os')"
    by (rule clean_round_reports_log)
      (rule trm_hyps [OF ch] trm_state trm_facts trm_files trm_before smw_cooperative trm_end_def)+
  moreover have "files (delete_log quiet_env trm_log (trm_end cl)) trm_log = None"
    using trm_files(2) by (simp add: delete_log_def fs_remove_def quiet_env_def)
  ultimately show ?thesis using trm_round [OF ch, of 2] by blast
qed

lemma trm_execute:
  assumes "trm_channel srv cl fd c s os"
  shows "\<exists>os3 a'. DynRioMulti_execute quiet_env (trm_M cl) trw_base False ''f'' [] False 3 wit_parent (trm_st 2 srv os) trm_a =
    Some (executed_normally trm_out, (trm_st 3 srv os3)\<lparr>m_iterationNumMod2 := 1\<rparr>, a')"
proof -
  obtain os3 where r: "runSingleTestcase quiet_env (trm_M cl) trw_base True wit_parent new_output (trm_st 3 srv os) trm_a =
      Some (True, executed_normally trm_out, trm_st 3 srv os3, delete_log quiet_env trm_log (trm_end cl))"
    using trm_round [OF assms] by blast
  have c: "count_execution 3 (trm_st 2 srv os) = trm_st 3 srv os" by (simp add: count_execution_def trm_st_def)
  have o: "m_target_and_feeder_okay (trm_st n srv os)" "(trm_st n srv os)\<lparr>m_target_and_feeder_okay := True\<rparr> = trm_st n srv os"
    for n os by (simp_all add: trm_st_def)
  have w: "after_run quiet_env (trm_M cl) trw_base False ''f'' [] False wit_parent (executed_normally trm_out)
      (trm_st 3 srv os3) a = Some (executed_normally trm_out, (trm_st 3 srv os3)\<lparr>m_iterationNumMod2 := 1\<rparr>, next_tick a)" for os3 a
    by (simp add: after_run_def target_output_def target_exit_def trm_st_def trm_M_def trw_M_def executed_normally_def new_multi_def)
  show ?thesis
    by (simp only: DynRioMulti_execute_def Let_def c o(1) if_True Option.bind.bind_lunit prod.case o(2)
        not_True_eq_False if_False r w) blast
qed

lemma trm_inv:
  assumes "trm_channel srv cl fd c s os" shows "multi_inv (trm_st n srv os)"
  using assms by (simp add: multi_inv_def ready_for_def trm_st_def new_multi_def target_of_def trm_channel_def linked_def)


theorem restart_by_count_witness:
  "\<exists>cl st out st' a'. DynRioMulti_execute quiet_env (trm_M cl) trw_base False ''f'' [] False 3 wit_parent st trm_a =
      Some (out, st', a') \<and> m_executionsSinceLastRestart st = 2 \<and> m_executionsSinceLastRestart st' = 3"
proof -
  obtain srv cl fd c s os where ch: "trm_channel srv cl fd c s os" using trm_channel_exists by blast
  from trm_execute [OF ch] obtain os3 a' where
    e: "DynRioMulti_execute quiet_env (trm_M cl) trw_base False ''f'' [] False 3 wit_parent (trm_st 2 srv os) trm_a =
      Some (executed_normally trm_out, (trm_st 3 srv os3)\<lparr>m_iterationNumMod2 := 1\<rparr>, a')" by blast
  have st: "m_target_and_feeder_okay (trm_st n srv os)" "m_executionsSinceLastRestart (trm_st n srv os) = n" for n os
    by (simp_all add: trm_st_def)
  have "m_executionsSinceLastRestart ((trm_st 3 srv os3)\<lparr>m_iterationNumMod2 := 1\<rparr>) = 3"
    using restart_by_count [OF e _ _ trm_inv [OF ch]] by (simp add: st)
  with e st show ?thesis by blast
qed

end
