(* ===== verification/TRGdbFacts.thy ===== *)
theory TRGdbFacts
  imports TRGdb
begin

text \<open>
  Facts about the executor that drives a debugger: addresses and lists of files as GDB prints them are read back, and
  the reader of its output does not depend on how the bytes arrive.
\<close>

section \<open>Addresses\<close>

lemma hex_digit_value_digit: "d < 16 \<Longrightarrow> hex_digit_value (''0123456789abcdef'' ! d) = Some d"
  by (auto simp: hex_digit_value_def numeral_eq_Suc less_Suc_eq)

lemma hex_value_to_hex: "hex_value acc (to_hex n @ s) = hex_value (acc * 16 ^ length (to_hex n) + n) s"
proof (induction n arbitrary: acc s rule: to_hex.induct)
  case (1 n)
  have d: "hex_digit_value (''0123456789abcdef'' ! (n mod 16)) = Some (n mod 16)" by (simp add: hex_digit_value_digit)
  show ?case
  proof (cases "n < 16")
    case True
    with d show ?thesis by (simp add: to_hex.simps [of n] mult.commute)
  next
    case False
    with d 1 [OF refl False] show ?thesis by (simp add: to_hex.simps [of n] mult.left_commute add.commute)
  qed
qed

lemma hex_value_zeros: "hex_value acc (replicate k (CHR ''0'') @ s) = hex_value (acc * 16 ^ k) s"
  by (induction k arbitrary: acc) (simp_all add: hex_digit_value_def mult_ac)

lemma hex_value_end: "s = [] \<or> hex_digit_value (hd s) = None \<Longrightarrow> hex_value acc s = acc"
  by (cases s) auto

lemma to_hex_digits: "c \<in> set (to_hex n) \<Longrightarrow> hex_digit_value c \<noteq> None"
proof (induction n rule: to_hex.induct)
  case (1 n)
  then show ?case by (cases "n < 16") (auto simp: to_hex.simps [of n] Let_def hex_digit_value_digit)
qed

lemma to_hex_not_Nil [simp]: "to_hex n \<noteq> []"
  by (simp add: to_hex.simps [of n] Let_def)

text \<open>An address as it is printed, with any number of leading zeros.\<close>

definition address_text :: "nat \<Rightarrow> 64 word \<Rightarrow> string" where
  "address_text k w = ''0x'' @ replicate k (CHR ''0'') @ to_hex (unat w)"

lemma hex_digit_not_space: "hex_digit_value c \<noteq> None \<Longrightarrow> \<not> is_space c"
  by (auto simp: hex_digit_value_def is_space_def Let_def split: if_splits)

lemma stoull_hex_address:
  assumes "s = [] \<or> hex_digit_value (hd s) = None"
  shows "stoull_hex (address_text k w @ s) = Some w" and "stoull_hex (CHR '' '' # address_text k w @ s) = Some w"
proof -
  obtain d r where r: "replicate k (CHR ''0'') @ to_hex (unat w) = d # r"
    by (cases "replicate k (CHR ''0'') @ to_hex (unat w)") simp_all
  have d: "hex_digit_value d \<noteq> None"
  proof -
    have "d \<in> set (replicate k (CHR ''0'') @ to_hex (unat w))" using r by simp
    then show ?thesis using to_hex_digits [of d "unat w"] by (auto simp: hex_digit_value_def split: if_splits)
  qed
  have v: "hex_value 0 (d # r @ s) = unat w"
    using assms hex_value_end [of s] hex_value_zeros [of 0 k "to_hex (unat w) @ s"] hex_value_to_hex [of 0 "unat w" s] r
    by (metis append.assoc append_Cons add_0 mult_zero_left)
  have sp: "is_space (CHR '' '')" "\<not> is_space (CHR ''0'')" by (simp_all add: is_space_def)
  have "hex_number (address_text k w @ s) = Some (int (unat w))" "hex_number (CHR '' '' # address_text k w @ s) = Some (int (unat w))"
    using d v sp r by (simp_all add: hex_number_def address_text_def Let_def del: hex_value.simps)
  moreover have "int (unat w) < 2 ^ 64" using unsigned_less [of w, where ?'a = int] by simp
  ultimately show "stoull_hex (address_text k w @ s) = Some w" "stoull_hex (CHR '' '' # address_text k w @ s) = Some w"
    by (simp_all add: stoull_hex_def)
qed

lemma address_text_chars: "c \<in> set (address_text k w) \<Longrightarrow> c = CHR ''x'' \<or> hex_digit_value c \<noteq> None"
  using to_hex_digits by (auto simp: address_text_def hex_digit_value_def split: if_splits)

section \<open>Finding\<close>

lemma str_find_at:
  assumes "c \<notin> set xs" and "starts_with s t"
  shows "str_find (xs @ c # s) (c # t) 0 = Some (length xs)"
proof -
  have "find_from (xs @ c # s) (c # t) i = Some (i + length xs)" for i
    using assms by (induction xs arbitrary: i) (auto simp: starts_with_def)
  then show ?thesis by (simp add: str_find_def)
qed

lemma find_char_at: "c \<notin> set xs \<Longrightarrow> find_char c (xs @ c # s) = Some (length xs)"
  unfolding find_char_def by (rule str_find_at) (simp_all add: starts_with_def)

lemma str_find_absent: "c \<in> set t \<Longrightarrow> c \<notin> set s \<Longrightarrow> str_find s t 0 = None"
proof (rule ccontr)
  assume c: "c \<in> set t" "c \<notin> set s" and "str_find s t 0 \<noteq> None"
  then obtain j where "str_find s t 0 = Some j" by blast
  from starts_withD [OF str_find_Some(3) [OF this]] c show False
    by (metis in_set_dropD in_set_takeD Un_iff append_take_drop_id set_append)
qed

section \<open>The list of files\<close>

text \<open>A reference printer for the answer to \<open>info files\<close>; the file of the process itself is not named again.\<close>

definition file_path :: "string \<times> string \<Rightarrow> string" where
  "file_path f = fst f @ ''/'' @ snd f"

fun segment_text :: "nat \<Rightarrow> string \<times> string \<Rightarrow> tModuleInformation \<Rightarrow> string" where
  "segment_text k proc (start, stop, name, segment, path) =
     address_text k start @ '' - '' @ address_text k stop @ '' is '' @ segment @
     (if (path, name) = proc then [] else '' in '' @ file_path (path, name))"

definition info_files_text :: "nat \<Rightarrow> string \<Rightarrow> string \<times> string \<Rightarrow> tModuleInformation list \<Rightarrow> string" where
  "info_files_text k filetype proc es = join newline
     ([''Local exec file:'', CHR 0x09 # CHR 0x60 # file_path proc @ CHR 0x27 # '', file type '' @ filetype @ ''.''] @
      map (\<lambda>e. CHR 0x09 # segment_text k proc e) es)"

definition file_ok :: "string \<times> string \<Rightarrow> bool" where
  "file_ok f \<longleftrightarrow> fst f \<noteq> [] \<and> last (fst f) \<noteq> CHR ''/'' \<and> snd f \<noteq> [] \<and> CHR ''/'' \<notin> set (snd f) \<and>
     CHR 0x5C \<notin> set (file_path f) \<and> CHR 0x0A \<notin> set (file_path f) \<and> CHR 0x27 \<notin> set (file_path f) \<and> \<not> is_blank (last (snd f))"

fun entry_ok :: "nat \<Rightarrow> string \<times> string \<Rightarrow> tModuleInformation \<Rightarrow> bool" where
  "entry_ok k proc (start, stop, name, segment, path) \<longleftrightarrow> file_ok (path, name) \<and> segment \<noteq> [] \<and>
     list_all (\<lambda>c. \<not> is_blank c) segment \<and> (\<forall>s. segment \<noteq> s @ ''in'') \<and>
     str_find (segment_text k proc (start, stop, name, segment, path)) ''file type'' 0 = None"

lemma split_file_path:
  assumes "file_ok f" shows "splitPathIntoDirectoryAndFileName (file_path f) = f"
proof -
  obtain d n where f: "f = (d, n)" by (cases f)
  have o: "d \<noteq> []" "last d \<noteq> CHR ''/''" "n \<noteq> []" "CHR ''/'' \<notin> set n" "CHR 0x5C \<notin> set (d @ ''/'' @ n)"
    using assms by (auto simp: f file_ok_def file_path_def)
  have m: "map (\<lambda>c. if c = CHR 0x5C then CHR ''/'' else c) (d @ ''/'' @ n) = d @ ''/'' @ n"
    using o(5) by (intro map_idI) auto
  have s: "strip_slashes (d @ ''/'' @ n) = d @ ''/'' @ n"
    using o(3,4) by (cases n rule: rev_cases) (auto simp: strip_slashes_def)
  have d: "strip_slashes (d @ ''/'') = d"
    using o(1,2) by (cases d rule: rev_cases) (auto simp: strip_slashes_def)
  have t: "takeWhile (\<lambda>c. c \<noteq> CHR ''/'') (rev (d @ ''/'' @ n)) = rev n"
    "dropWhile (\<lambda>c. c \<noteq> CHR ''/'') (rev (d @ ''/'' @ n)) = rev (d @ ''/'')"
    using o(4) by (simp_all add: takeWhile_append dropWhile_append)
  show ?thesis
    using o(1) m s d t by (simp add: splitPathIntoDirectoryAndFileName_def basename_def dirname_def f file_path_def Let_def)
qed

lemma trim_outer:
  assumes "\<not> is_blank (hd s)" and "\<not> is_blank (last s)" and "s \<noteq> []"
  shows "trim (CHR 0x09 # s) = s"
proof -
  have "dropWhile is_blank (CHR 0x09 # s) = s" using assms(1,3) by (cases s) (auto simp: is_blank_def)
  moreover have "dropWhile is_blank (rev s) = rev s" using assms(2,3) by (cases s rule: rev_cases) auto
  ultimately show ?thesis by (simp add: trim_def)
qed

lemma find_in:
  assumes "list_all (\<lambda>c. \<not> is_blank c) seg" and "\<And>s. seg \<noteq> s @ ''in''"
  shows "str_find (seg @ '' in '' @ f) ''in '' 0 = Some (length seg + 1)"
proof -
  let ?s = "seg @ '' in '' @ f"
  have s0: "starts_with (drop (length seg + 1) ?s) ''in ''" by (simp add: starts_with_def)
  then obtain j where j: "str_find ?s ''in '' 0 = Some j"
    using str_find_None [of ?s "''in ''" 0 "length seg + 1"] by fastforce
  note f = str_find_Some [OF j]
  have "j \<le> length seg + 1" using f(4) [of "length seg + 1"] s0 by (meson le0 not_le)
  moreover have "\<not> starts_with (drop j ?s) ''in ''" if l: "j \<le> length seg"
  proof
    assume "starts_with (drop j ?s) ''in ''"
    then have e: "take 3 (drop j seg @ '' in '' @ f) = ''in ''" using l by (simp add: starts_with_def numeral_eq_Suc del: take_append)
    obtain r where r: "drop j seg = r" and nb: "list_all (\<lambda>c. \<not> is_blank c) r"
      using assms(1) by (metis append_take_drop_id list_all_append)
    have "r = ''in''"
      using e [unfolded r] nb by (cases r; cases "tl r"; cases "tl (tl r)") (auto simp: is_blank_def numeral_eq_Suc)
    then show False using assms(2) [of "take j seg"] r by (metis append_take_drop_id)
  qed
  ultimately show ?thesis using j f(3) by (metis Suc_eq_plus1 le_Suc_eq)
qed

lemma not_in_address: "hex_digit_value c = None \<Longrightarrow> c \<noteq> CHR ''x'' \<Longrightarrow> c \<notin> set (address_text k w)"
  using address_text_chars by blast

lemma module_entry_text:
  assumes "entry_ok k proc e"
  shows "module_entry proc (CHR 0x09 # segment_text k proc e) = ok_with e"
proof -
  obtain start stop name seg path where e: "e = (start, stop, name, seg, path)" by (cases e)
  let ?A = "address_text k start" and ?B = "address_text k stop"
  define tail where "tail = (if (path, name) = proc then [] else '' in '' @ file_path (path, name))"
  let ?t = "segment_text k proc e"
  have ok: "file_ok (path, name)" "seg \<noteq> []" "list_all (\<lambda>c. \<not> is_blank c) seg" "\<And>s. seg \<noteq> s @ ''in''"
    using assms by (auto simp: e)
  have t: "?t = ?A @ '' - '' @ ?B @ '' is '' @ seg @ tail" by (simp add: e tail_def)
  have "\<not> is_blank (last seg)" using ok(2,3) by (cases seg rule: rev_cases) auto
  then have l: "\<not> is_blank (last ?t)" using ok(1,2) by (auto simp: t tail_def file_ok_def file_path_def)
  have tr: "trim (CHR 0x09 # ?t) = ?t"
    by (rule trim_outer [OF _ l]) (simp_all add: t address_text_def is_blank_def)
  have "?t = (?A @ '' - '' @ ?B @ '' '') @ CHR ''i'' # ''s '' @ seg @ tail" by (simp add: t)
  moreover have "CHR ''i'' \<notin> set (?A @ '' - '' @ ?B @ '' '')"
    by (simp add: not_in_address hex_digit_value_def)
  ultimately have is_: "str_find ?t ''is '' 0 = Some (length ?A + length ?B + 4)"
    using str_find_at [of "CHR ''i''" "?A @ '' - '' @ ?B @ '' ''" "''s '' @ seg @ tail" "''s ''"] by (simp add: starts_with_def)
  have d_len: "length (?A @ '' - '' @ ?B @ '' is '') = length ?A + length ?B + 4 + 3" by simp
  have d: "drop (length ?A + length ?B + 4 + 3) ?t = seg @ tail"
  proof -
    have "?t = (?A @ '' - '' @ ?B @ '' is '') @ seg @ tail" by (simp add: t)
    then show ?thesis by (metis append_eq_conv_conj d_len)
  qed
  have w: "takeWhile (\<lambda>c. c \<noteq> CHR '' '') (seg @ tail) = seg"
    using ok(3) by (auto simp: tail_def takeWhile_append list_all_iff is_blank_def takeWhile_eq_all_conv)
  have dash: "find_char (CHR ''-'') ?t = Some (length ?A + 1)"
  proof -
    have "?t = (?A @ '' '') @ CHR ''-'' # '' '' @ ?B @ '' is '' @ seg @ tail" by (simp add: t)
    moreover have "CHR ''-'' \<notin> set (?A @ '' '')" by (simp add: not_in_address hex_digit_value_def)
    ultimately show ?thesis using find_char_at [of "CHR ''-''" "?A @ '' ''"] by simp
  qed
  have n1: "stoull_hex ?t = Some start"
    using stoull_hex_address(1) [of "'' - '' @ ?B @ '' is '' @ seg @ tail" k start] by (simp add: t hex_digit_value_def)
  have n2: "stoull_hex (drop (length ?A + 1 + 1) ?t) = Some stop"
    using stoull_hex_address(2) [of "'' is '' @ seg @ tail" k stop] by (simp add: t hex_digit_value_def)
  have p: "(case str_find (seg @ tail) ''in '' 0 of None \<Rightarrow> proc
      | Some inPos \<Rightarrow> splitPathIntoDirectoryAndFileName (drop (inPos + 3) (seg @ tail))) = (path, name)"
  proof (cases "(path, name) = proc")
    case True
    have "CHR '' '' \<notin> set seg" using ok(3) by (auto simp: list_all_iff is_blank_def)
    then show ?thesis using True str_find_absent [of "CHR '' ''" "''in ''" seg] by (simp add: tail_def)
  next
    case False
    then show ?thesis using find_in [OF ok(3,4)] split_file_path [OF ok(1)] by (simp add: tail_def)
  qed
  have ne: "?t \<noteq> []" by (simp add: t address_text_def)
  show ?thesis
    unfolding module_entry_def tr Let_def is_ option.case d w dash p using ne n1 n2 by (simp add: e)
qed

lemma info_lines_text:
  "list_all (entry_ok k proc) es \<Longrightarrow> info_lines True proc (map (\<lambda>e. CHR 0x09 # segment_text k proc e) es) = Some es"
proof (induction es)
  case (Cons e es)
  have "str_find (CHR 0x09 # segment_text k proc e) ''file type'' 0 = None"
    using Cons.prems str_find_append [of "[CHR 0x09]" "segment_text k proc e" "''file type''" 0]
    by (cases e) (simp add: str_find_def starts_with_def)
  then show ?case using Cons module_entry_text [of k proc e] by simp
qed simp

lemma parseInfoFiles_text:
  assumes "file_ok proc" and "list_all (entry_ok k proc) es" and "CHR 0x0A \<notin> set filetype"
  shows "parseInfoFiles (info_files_text k filetype proc es) = Some es"
proof -
  let ?head = "CHR 0x09 # CHR 0x60 # file_path proc @ CHR 0x27 # '', file type '' @ filetype @ ''.''"
  let ?ls = "map (\<lambda>e. CHR 0x09 # segment_text k proc e) es"
  have nl: "CHR 0x0A \<notin> set (segment_text k proc e)" if "entry_ok k proc e" for e
    using that by (cases e) (auto simp: file_ok_def list_all_iff is_blank_def not_in_address hex_digit_value_def)
  have np: "CHR 0x0A \<notin> set (file_path proc)" and qu: "CHR 0x27 \<notin> set (file_path proc)"
    using assms(1) by (simp_all add: file_ok_def)
  have s: "splitString (info_files_text k filetype proc es) newline = [''Local exec file:'', ?head] @ ?ls"
    unfolding info_files_text_def using assms(2,3) np by (intro splitString_join) (auto simp: list_all_iff nl)
  have ft: "str_find ?head ''file type'' 0 \<noteq> None"
  proof
    assume n: "str_find ?head ''file type'' 0 = None"
    have dd: "drop (length A) (A @ B) = B" for A B :: string by simp
    let ?A = "CHR 0x09 # CHR 0x60 # file_path proc @ CHR 0x27 # '', ''"
    have e: "?A @ ''file type '' @ filetype @ ''.'' = ?head" "length ?A = length (file_path proc) + 5" by simp_all
    have "drop (length ?A) (?A @ ''file type '' @ filetype @ ''.'') = ''file type '' @ filetype @ ''.''" by (rule dd)
    then have d: "drop (length (file_path proc) + 5) ?head = ''file type '' @ filetype @ ''.''" unfolding e .
    have "starts_with (drop (length (file_path proc) + 5) ?head) ''file type''" unfolding d by (simp add: starts_with_def)
    with str_find_None [OF n, of "length (file_path proc) + 5"] show False by simp
  qed
  have p: "process_file ?head = Some proc"
  proof -
    have a: "find_char (CHR 0x60) ?head = Some 1" using find_char_at [of "CHR 0x60" "[CHR 0x09]"] by simp
    have b: "find_char (CHR 0x27) ?head = Some (length (file_path proc) + 2)"
      using find_char_at [of "CHR 0x27" "CHR 0x09 # CHR 0x60 # file_path proc" "'', file type '' @ filetype @ ''.''"] qu by simp
    show ?thesis unfolding process_file_def a b by (simp add: substr_def split_file_path [OF assms(1)])
  qed
  have "info_lines False ([], []) ([''Local exec file:'', ?head] @ ?ls) = info_lines True proc ?ls"
    using ft p by (simp add: substr_def)
  with s info_lines_text [OF assms(2)] show ?thesis by (simp add: parseInfoFiles_def)
qed

section \<open>The reader\<close>

text \<open>Reading the bytes in two parts is reading them at once, with what was left over before the second.\<close>

lemma read_lines_append:
  "read_lines s = (ls, rest) \<Longrightarrow> read_lines (s @ t) = (ls @ fst (read_lines (rest @ t)), snd (read_lines (rest @ t)))"
proof (induction s arbitrary: ls rest rule: read_lines.induct)
  case (1 s)
  let ?l = "takeWhile (\<lambda>c. c \<noteq> CHR 0x0A) s"
  show ?case
  proof (cases "CHR 0x0A \<in> set s")
    case False
    with 1(2) show ?thesis by (simp add: read_lines.simps [of s])
  next
    case True
    obtain ls1 r where r: "read_lines (drop (Suc (length ?l)) s) = (ls1, r)" by fastforce
    have l: "ls = strip_prompt ?l # ls1" "rest = r"
      using 1(2) True r by (simp_all add: read_lines.simps [of s] Let_def)
    have "dropWhile (\<lambda>c. c \<noteq> CHR 0x0A) s \<noteq> []" using True by (auto simp: dropWhile_eq_Nil_conv)
    moreover have "length (?l @ dropWhile (\<lambda>c. c \<noteq> CHR 0x0A) s) = length s" by (simp only: takeWhile_dropWhile_id)
    ultimately have n: "Suc (length ?l) \<le> length s" by (metis Suc_leI length_append less_add_same_cancel1 length_greater_0_conv)
    have "takeWhile (\<lambda>c. c \<noteq> CHR 0x0A) (s @ t) = ?l" using True by (simp add: takeWhile_append1)
    moreover have "drop (Suc (length ?l)) (s @ t) = drop (Suc (length ?l)) s @ t" using n by simp
    ultimately show ?thesis
      using True l 1(1) [OF True refl r] r
      by (simp add: read_lines.simps [of "s @ t"] Let_def split_beta)
  qed
qed

lemma read_lines_rest: "CHR 0x0A \<notin> set (snd (read_lines s))"
proof (induction s rule: read_lines.induct)
  case (1 s)
  then show ?case by (cases "CHR 0x0A \<in> set s") (simp_all add: read_lines.simps [of s] Let_def split_beta)
qed

lemma gdbLinereader_round_twice:
  assumes "gdbLinereader_round (Some xs) rest c = (True, rest1, c1)"
  shows "gdbLinereader_round (Some ys) rest1 c1 = gdbLinereader_round (Some (xs @ ys)) rest c"
  using assms read_lines_append [of "rest @ xs" "fst (read_lines (rest @ xs))" rest1 ys]
  by (auto simp: gdbLinereader_round_def split_beta Let_def)

section \<open>Breakpoints that are hit\<close>

text \<open>A pair of lines that GDB prints for a stop at a breakpoint.\<close>

definition is_hit :: "breakpoints \<Rightarrow> string \<times> string \<Rightarrow> GDBBreakpoint \<Rightarrow> bool" where
  "is_hit bps h b \<longleftrightarrow> substr (fst h) 0 23 = ''Program received signal'' \<and>
     (\<exists>n. signal_name (fst h) = Some n \<and> substr n 0 7 = ''SIGTRAP'') \<and> substr (snd h) 0 2 = ''0x'' \<and>
     (\<exists>a. stoull_hex (snd h) = Some a \<and> known_breakpoint bps a = Some b)"

text \<open>What GDB is told for it: the instruction is restored and run again.\<close>

definition restore_inputs :: "string \<Rightarrow> GDBBreakpoint \<Rightarrow> gdb_input list" where
  "restore_inputs ctype b = [Typed (set_command ctype (m_absoluteAdress b) (m_originalBytes b)),
     Typed (''j *0x'' @ hex_text (m_absoluteAdress b) @ newline)]"

text \<open>The others do nothing at the looks from \<open>i\<close> up to \<open>j\<close>.\<close>

definition silent_during :: "gdb_env \<Rightarrow> nat \<Rightarrow> nat \<Rightarrow> bool" where
  "silent_during E i j \<longleftrightarrow> (\<forall>k. i \<le> k \<and> k < j \<longrightarrow> (\<forall>c. g_others E k c = c))"

lemma look_silent:
  "silent_during E i j \<Longrightarrow> i \<le> g_tick c \<Longrightarrow> g_tick c < j \<Longrightarrow> look E c = c\<lparr>g_tick := Suc (g_tick c)\<rparr>"
  by (simp add: silent_during_def look_def)

text \<open>Breakpoints that differ in their flags only.\<close>

definition flagless :: "GDBBreakpoint \<Rightarrow> GDBBreakpoint" where
  "flagless b = b\<lparr>m_isEnabled := False\<rparr>"

lemma flagless_same:
  "flagless b = flagless b' \<Longrightarrow> m_absoluteAdress b = m_absoluteAdress b' \<and> m_originalBytes b = m_originalBytes b' \<and> m_fbb b = m_fbb b'"
  by (cases b; cases b') (simp add: flagless_def)

lemma disable_at_flagless: "map flagless (disable_at a bps) = map flagless bps"
  by (induction bps) (auto simp: disable_at_def flagless_def)

lemma breakpoint_at_flagless:
  "map flagless bps = map flagless bps' \<Longrightarrow> map_option flagless (breakpoint_at bps a) = map_option flagless (breakpoint_at bps' a)"
proof (induction bps arbitrary: bps')
  case (Cons b bps)
  then obtain b' r where "bps' = b' # r" "flagless b = flagless b'" "map flagless bps = map flagless r" by (cases bps') auto
  with Cons.IH [of r] flagless_same [of b b'] show ?case by (simp add: breakpoint_at_def)
qed simp

lemma known_breakpoint_flagless:
  assumes "map flagless bps = map flagless bps'"
  shows "map_option flagless (known_breakpoint bps a) = map_option flagless (known_breakpoint bps' a)"
  using breakpoint_at_flagless [OF assms, of a] breakpoint_at_flagless [OF assms, of "a - 1"]
  by (auto simp: known_breakpoint_def split: option.splits)

lemma known_breakpoint_in: "known_breakpoint bps a = Some b \<Longrightarrow> b \<in> set bps"
  by (auto simp: known_breakpoint_def breakpoint_at_def find_Some_iff split: option.splits)

lemma handleSignal_hit:
  assumes "silent_during E (g_tick c) (Suc (g_tick c))" and h: "is_hit bps0 h b" and f: "map flagless bps = map flagless bps0" and t: "c_type n = Some ct"
    and q: "m_gdbOutputQueue c = snd h # q"
  shows "handleSignal E n (fst h) (bps, cov) c = Some (True, (disable_at (m_absoluteAdress b) bps, set_insert (\<lambda>b. b) (m_fbb b) cov),
    c\<lparr>m_gdbOutputQueue := q, m_ostreamToGdb := m_ostreamToGdb c @ restore_inputs ct b, g_tick := Suc (g_tick c)\<rparr>)"
proof -
  from h obtain nm a where nm: "signal_name (fst h) = Some nm" "substr nm 0 7 = ''SIGTRAP''"
    and a: "substr (snd h) 0 2 = ''0x''" "stoull_hex (snd h) = Some a" "known_breakpoint bps0 a = Some b"
    by (auto simp: is_hit_def)
  obtain b' where b: "known_breakpoint bps a = Some b'" "flagless b' = flagless b"
    using known_breakpoint_flagless [OF f, of a] a(3) by auto
  have w: "wait_address E c = Some (Some (snd h), c\<lparr>g_tick := Suc (g_tick c), m_gdbOutputQueue := q\<rparr>)"
    using look_silent [OF assms(1)] q a(1) by (simp add: wait_address.simps Let_def)
  show ?thesis
    using nm a(2) b(1) t flagless_same [OF b(2)] w
    by (simp add: handleSignal_def remove_breakpoint_def restore_inputs_def type_text_def)
qed

lemma hit_line: "is_hit bps h b \<Longrightarrow> \<not> list_all is_blank (fst h)"
  by (cases "fst h") (auto simp: is_hit_def substr_def is_blank_def)

text \<open>The queue is worked off: the blocks are covered, the breakpoints disabled, GDB told to restore them.\<close>

lemma consume_hits:
  assumes "silent_during E (g_tick c) (g_tick c + 2 * length hs + 1)" and "c_type n = Some ct" and "list_all2 (is_hit bps0) hs bs"
    and "map flagless bps = map flagless bps0" and "m_gdbOutputQueue c = concat (map (\<lambda>h. [fst h, snd h]) hs)"
  shows "consumeGDBOutputQueue E n (bps, cov) c =
    Some (True, (fold (\<lambda>b. disable_at (m_absoluteAdress b)) bs bps, fold (set_insert (\<lambda>b. b)) (map m_fbb bs) cov),
      c\<lparr>m_gdbOutputQueue := [], m_ostreamToGdb := m_ostreamToGdb c @ concat (map (restore_inputs ct) bs),
        g_tick := g_tick c + 2 * length hs + 1\<rparr>)"
  using assms(3,1,4,5)
proof (induction hs bs arbitrary: bps cov c rule: list_all2_induct)
  case Nil
  then show ?case using look_silent [OF Nil(1)] by (cases c) (simp add: consumeGDBOutputQueue.simps Let_def)
next
  case (Cons h hs b bs)
  let ?q = "concat (map (\<lambda>h. [fst h, snd h]) hs)"
  let ?c = "c\<lparr>g_tick := Suc (g_tick c), m_gdbOutputQueue := snd h # ?q\<rparr>"
  let ?c1 = "?c\<lparr>m_gdbOutputQueue := ?q, m_ostreamToGdb := m_ostreamToGdb ?c @ restore_inputs ct b, g_tick := Suc (g_tick ?c)\<rparr>"
  have s: "silent_during E i j" if "g_tick c \<le> i" and "j \<le> g_tick c + 2 * length (h # hs) + 1" for i j
    using Cons.prems(1) that by (auto simp: silent_during_def)
  have h1: "handleSignal E n (fst h) (bps, cov) ?c =
      Some (True, (disable_at (m_absoluteAdress b) bps, set_insert (\<lambda>b. b) (m_fbb b) cov), ?c1)"
    by (rule handleSignal_hit [OF s Cons.hyps(1) Cons.prems(2) assms(2)]) simp_all
  have q: "m_gdbOutputQueue c = fst h # snd h # ?q" using Cons.prems(3) by simp
  have l: "look E c = c\<lparr>g_tick := Suc (g_tick c)\<rparr>" by (rule look_silent [OF Cons.prems(1)]) simp_all
  have "consumeGDBOutputQueue E n (bps, cov) c =
      consumeGDBOutputQueue E n (disable_at (m_absoluteAdress b) bps, set_insert (\<lambda>b. b) (m_fbb b) cov) ?c1"
    using q h1 hit_line [OF Cons.hyps(1)] Cons.hyps(1) unfolding is_hit_def
    by (subst consumeGDBOutputQueue.simps) (simp add: Let_def l)
  also have "\<dots> = Some (True, (fold (\<lambda>b. disable_at (m_absoluteAdress b)) bs (disable_at (m_absoluteAdress b) bps),
        fold (set_insert (\<lambda>b. b)) (map m_fbb bs) (set_insert (\<lambda>b. b) (m_fbb b) cov)),
      ?c1\<lparr>m_gdbOutputQueue := [], m_ostreamToGdb := m_ostreamToGdb ?c1 @ concat (map (restore_inputs ct) bs),
        g_tick := g_tick ?c1 + 2 * length hs + 1\<rparr>)"
  proof (rule Cons.IH)
    show "silent_during E (g_tick ?c1) (g_tick ?c1 + 2 * length hs + 1)" by (rule s) simp_all
    show "map flagless (disable_at (m_absoluteAdress b) bps) = map flagless bps0"
      using Cons.prems(2) by (simp add: disable_at_flagless)
  qed simp
  finally show ?case by simp
qed

end
