(* ===== verification/TRGdbMemory.thy ===== *)
theory TRGdbMemory
  imports TRGdbFacts
begin

text \<open>
  The executor that drives a debugger: what the commands that GDB is given do to the memory of the target, and that the
  thread's flags agree with it, whatever the other threads do.
\<close>

section \<open>A reference for GDB\<close>

text \<open>
  The lines that were typed, without one that is not complete. A command that sets a unit of the memory is executed;
  the units, of the size of a breakpoint instruction, are taken not to overlap.
\<close>

fun typed_lines :: "string \<Rightarrow> string \<Rightarrow> string list" where
  "typed_lines acc [] = []"
| "typed_lines acc (c # s) = (if c = CHR 0x0A then acc # typed_lines [] s else typed_lines (acc @ [c]) s)"

fun input_text :: "gdb_input \<Rightarrow> string" where
  "input_text (Typed s) = s"
| "input_text Interrupted = []"

definition typed_text :: "GDBThreadCommunication \<Rightarrow> string" where
  "typed_text c = concat (map input_text (m_ostreamToGdb c))"

definition complete :: "string \<Rightarrow> bool" where
  "complete s \<longleftrightarrow> s = [] \<or> last s = CHR 0x0A"

type_synonym memory = "64 word \<Rightarrow> 32 word"

definition gdb_exec :: "string \<Rightarrow> string \<Rightarrow> memory \<Rightarrow> memory" where
  "gdb_exec ctype line mem =
     (let prefix = ''set {'' @ ctype @ ''}''; arg = drop (length prefix) line in
      if \<not> starts_with line prefix then mem
      else case (stoull_hex arg, find_char (CHR ''='') arg) of
        (Some addr, Some j) \<Rightarrow> (case stoull_hex (drop (j + 1) arg) of Some v \<Rightarrow> mem(addr := ucast v) | None \<Rightarrow> mem)
      | _ \<Rightarrow> mem)"

definition gdb_memory :: "string \<Rightarrow> string \<Rightarrow> memory \<Rightarrow> memory" where
  "gdb_memory ctype s = fold (gdb_exec ctype) (typed_lines [] s)"

lemma typed_lines_line: "CHR 0x0A \<notin> set xs \<Longrightarrow> typed_lines acc (xs @ CHR 0x0A # ys) = (acc @ xs) # typed_lines [] ys"
  by (induction xs arbitrary: acc) auto

lemma typed_lines_complete: "complete xs \<Longrightarrow> acc = [] \<or> xs \<noteq> [] \<Longrightarrow> typed_lines acc (xs @ ys) = typed_lines acc xs @ typed_lines [] ys"
  by (induction xs arbitrary: acc) (auto simp: complete_def split: if_splits)

lemma gdb_memory_append: "complete s \<Longrightarrow> gdb_memory ctype (s @ t) mem = gdb_memory ctype t (gdb_memory ctype s mem)"
  by (simp add: gdb_memory_def typed_lines_complete)

lemma complete_append: "complete s \<Longrightarrow> complete t \<Longrightarrow> complete (s @ t)"
  by (cases "t = []") (auto simp: complete_def)

lemma complete_line [simp]: "complete (s @ [CHR 0x0A])"
  by (simp add: complete_def)

text \<open>The commands of the thread.\<close>

lemma to_hex_no_newline: "CHR 0x0A \<notin> set (to_hex n)"
  using to_hex_digits [of "CHR 0x0A" n] by (auto simp: hex_digit_value_def)

lemma to_hex_no_equals: "CHR ''='' \<notin> set (to_hex n)"
  using to_hex_digits [of "CHR ''=''" n] by (auto simp: hex_digit_value_def)

lemma c_type_text:
  assumes "c_type n = Some ctype" shows "CHR 0x0A \<notin> set ctype" and "CHR ''='' \<notin> set ctype"
  using assms by (auto simp: c_type_def split: if_splits)

lemma exec_set:
  assumes "c_type n = Some ctype"
  shows "gdb_memory ctype (set_command ctype a v) mem = mem(a := v)" and "complete (set_command ctype a v)"
proof -
  let ?p = "''set {'' @ ctype @ ''}''" let ?A = "address_text 0 a" let ?V = "address_text 0 (ucast v)"
  have u: "unat (ucast v :: 64 word) = unat v"
    using unsigned_less [of v, where ?'a = nat] by (simp add: unsigned_ucast_eq take_bit_nat_eq_self)
  have l: "set_command ctype a v = (?p @ ?A @ '' = '' @ ?V) @ [CHR 0x0A]"
    by (simp add: set_command_def hex_text_def address_text_def u)
  then show "complete (set_command ctype a v)" by (simp add: complete_def)
  have "CHR 0x0A \<notin> set (?p @ ?A @ '' = '' @ ?V)"
    using c_type_text(1) [OF assms] by (simp add: not_in_address hex_digit_value_def)
  then have t: "typed_lines [] (set_command ctype a v) = [?p @ ?A @ '' = '' @ ?V]"
    using typed_lines_line [of _ "[]" "[]"] by (simp only: l append_Nil typed_lines.simps)
  have dd: "drop (length p) (p @ t) = t" "take (length p) (p @ t) = p" for p t :: string by simp_all
  have d: "drop (length ?p) (?p @ ?A @ '' = '' @ ?V) = ?A @ '' = '' @ ?V" by (rule dd)
  have s: "starts_with (?p @ ?A @ '' = '' @ ?V) ?p" unfolding starts_with_def by (rule dd)
  have eq: "find_char (CHR ''='') (?A @ '' = '' @ ?V) = Some (length ?A + 1)"
    using find_char_at [of "CHR ''=''" "?A @ '' ''" "'' '' @ ?V"] by (simp add: not_in_address hex_digit_value_def)
  have n1: "stoull_hex (?A @ '' = '' @ ?V) = Some a" by (rule stoull_hex_address) (simp add: hex_digit_value_def)
  have "drop (length ?A + 1 + 1) (?A @ '' = '' @ ?V) = CHR '' '' # ?V @ []" by simp
  then have n2: "stoull_hex (drop (length ?A + 1 + 1) (?A @ '' = '' @ ?V)) = Some (ucast v)"
    using stoull_hex_address(2) [of "[]" 0 "ucast v"] by simp
  have c: "ucast (ucast v :: 64 word) = v" by transfer simp
  show "gdb_memory ctype (set_command ctype a v) mem = mem(a := v)"
    unfolding gdb_memory_def t using s by (simp only: fold_simps gdb_exec_def Let_def d eq n1 n2 if_not_P option.case prod.case not_not comp_apply id_apply c if_True if_False simp_thms)
qed

lemma starts_with_prefix: "starts_with s (t @ u) \<Longrightarrow> starts_with s t"
  unfolding starts_with_def by (metis append_assoc append_eq_conv_conj append_take_drop_id)

lemma gdb_exec_other: "\<not> starts_with line ''set {'' \<Longrightarrow> gdb_exec ctype line mem = mem"
  using starts_with_prefix [of line "''set {''" "ctype @ ''}''"] by (simp only: gdb_exec_def Let_def if_True if_False simp_thms) auto

lemma memory_of_line:
  assumes "CHR 0x0A \<notin> set xs" and "\<not> starts_with xs ''set {''"
  shows "gdb_memory ctype (xs @ CHR 0x0A # s) mem = gdb_memory ctype s mem"
  using typed_lines_line [OF assms(1), of "[]" s] gdb_exec_other [OF assms(2)] by (simp add: gdb_memory_def)

lemma memory_Nil [simp]: "gdb_memory ctype [] mem = mem"
  by (simp add: gdb_memory_def)

lemma hex_text_no_newline [simp]: "CHR 0x0A \<notin> set (hex_text w)"
  by (simp add: hex_text_def to_hex_no_newline)

lemma memory_of_commands:
  "gdb_memory ctype (''c'' @ newline) mem = mem"
  "gdb_memory ctype (newline @ ''fluffi'' @ newline) mem = mem"
  "gdb_memory ctype (''j *0x'' @ hex_text w @ newline) mem = mem"
  "gdb_memory ctype (''info files'' @ newline @ ''fluffi'' @ newline) mem = mem"
proof -
  have f: "gdb_memory ctype (''fluffi'' @ newline) mem = mem" for mem
    using memory_of_line [of "''fluffi''" ctype "[]"] by (simp add: starts_with_def)
  show "gdb_memory ctype (''c'' @ newline) mem = mem"
    using memory_of_line [of "''c''" ctype "[]"] by (simp add: starts_with_def)
  show "gdb_memory ctype (newline @ ''fluffi'' @ newline) mem = mem"
    using memory_of_line [of "[]" ctype "''fluffi'' @ newline"] f by (simp add: starts_with_def)
  show "gdb_memory ctype (''info files'' @ newline @ ''fluffi'' @ newline) mem = mem"
    using memory_of_line [of "''info files''" ctype "''fluffi'' @ newline"] f by (simp add: starts_with_def)
  show "gdb_memory ctype (''j *0x'' @ hex_text w @ newline) mem = mem"
    using memory_of_line [of "''j *0x'' @ hex_text w" ctype "[]"] by (simp add: starts_with_def)
qed

lemmas memory_of_command_texts [simp] = memory_of_commands [simplified]

text \<open>Enabling: GDB is told to write the instruction at the breakpoints that were not enabled, and all are then.\<close>

definition disarmed :: "breakpoints \<Rightarrow> 64 word set" where
  "disarmed bps = m_absoluteAdress ` {b \<in> set bps. \<not> m_isEnabled b}"

lemma disarmed_Cons: "disarmed (b # bps) = (if m_isEnabled b then disarmed bps else insert (m_absoluteAdress b) (disarmed bps))"
  by (auto simp: disarmed_def)

lemma generateEnableAllCommand_memory:
  assumes "generateEnableAllCommand bps instr n = Some (s, bps')" and "c_type n = Some ctype"
  shows "gdb_memory ctype s mem = (\<lambda>a. if a \<in> disarmed bps then instr else mem a) \<and> complete s"
  using assms
proof (induction bps instr n arbitrary: s bps' mem rule: generateEnableAllCommand.induct)
  case (1 instr n)
  then show ?case by (simp add: disarmed_def complete_def)
next
  case (2 b bps instr n)
  show ?case
  proof (cases "m_isEnabled b")
    case True
    with 2 show ?thesis by (auto simp: disarmed_Cons)
  next
    case False
    with 2(3,4) obtain s1 bps1 where r: "generateEnableAllCommand bps instr n = Some (s1, bps1)"
      and s: "s = set_command ctype (m_absoluteAdress b) instr @ s1" by (auto simp: bind_eq_Some_conv)
    note i = 2(2) [OF False 2(4) r 2(4)]
    show ?thesis
      using i exec_set [OF 2(4)] False
      by (auto simp: s gdb_memory_append disarmed_Cons complete_append fun_eq_iff)
  qed
qed

lemma generateEnableAllCommand_enabled:
  "generateEnableAllCommand bps instr n = Some (s, bps') \<Longrightarrow> bps' = map (\<lambda>b. b\<lparr>m_isEnabled := True\<rparr>) bps"
  by (induction bps instr n arbitrary: s bps' rule: generateEnableAllCommand.induct)
    (auto simp: bind_eq_Some_conv split: if_splits)

section \<open>What the others do not touch\<close>

text \<open>A part of the shared object that neither the others change nor reading from the queue.\<close>

definition unseen :: "gdb_env \<Rightarrow> (GDBThreadCommunication \<Rightarrow> 'v) \<Rightarrow> bool" where
  "unseen E view \<longleftrightarrow> (\<forall>k c. view (g_others E k c) = view c) \<and> (\<forall>c n. view (c\<lparr>g_tick := n\<rparr>) = view c) \<and>
     (\<forall>c q. view (c\<lparr>m_gdbOutputQueue := q\<rparr>) = view c)"

lemma unseen_queue: "unseen E view \<Longrightarrow> view (c\<lparr>m_gdbOutputQueue := q\<rparr>) = view c"
  by (simp add: unseen_def)

lemma unseen_look: "unseen E view \<Longrightarrow> view (look E c) = view c"
  by (simp add: unseen_def look_def)

lemma unseen_wait:
  assumes "waitForTerminateOrNewMessageOrCovStateChange E ss c = Some c'" and "unseen E view" shows "view c' = view c"
proof -
  have "unseen E view \<longrightarrow> view c' = view c"
  proof (rule waitForTerminateOrNewMessageOrCovStateChange.raw_induct [OF _ assms(1)], goal_cases)
    case (1 rec E ss c c')
    then show ?case using unseen_look [of E view c] by (auto simp: Let_def split: if_splits)
  qed
  with assms(2) show ?thesis by blast
qed

lemma unseen_address:
  assumes "wait_address E c = Some (l, c')" and "unseen E view" shows "view c' = view c"
proof -
  have "unseen E view \<longrightarrow> view (snd (l, c')) = view c"
  proof (rule wait_address.raw_induct [OF _ assms(1)], goal_cases)
    case (1 rec E c y)
    show ?case
    proof
      assume u: "unseen E view"
      note step = 1(2) [unfolded Let_def] and q = unseen_queue [OF u] and look = unseen_look [OF u]
      show "view (snd y) = view c"
      proof (cases "m_gdbOutputQueue (look E c)")
        case (Cons line q)
        with step show ?thesis using 1(1) u by (auto simp: q look split: if_splits)
      next
        case Nil
        with step obtain c1 where w: "waitForTerminateOrNewMessageOrCovStateChange E [] (look E c) = Some c1"
          by (auto simp: bind_eq_Some_conv)
        have v: "view (look E c1) = view c" using unseen_wait [OF w u] by (simp add: look)
        show ?thesis
        proof (cases "m_gdbOutputQueue (look E c1)")
          case Nil1: Nil
          with step Nil w v show ?thesis by auto
        next
          case (Cons line q')
          with step Nil w v show ?thesis using 1(1) u by (auto simp: q split: if_splits)
        qed
      qed
    qed
  qed
  with assms(2) show ?thesis by simp
qed

lemma unseen_response:
  assumes "read_response E w ls c = Some (ok, r, c')" and "unseen E view"
  shows "view c' = view c" and "\<not> ok \<Longrightarrow> r = ''INTERRUPTED''"
proof -
  have "unseen E view \<longrightarrow> view (snd (snd (ok, r, c'))) = view c \<and> (\<not> fst (ok, r, c') \<longrightarrow> fst (snd (ok, r, c')) = ''INTERRUPTED'')"
  proof (rule read_response.raw_induct [OF _ assms(1)], goal_cases)
    case (1 rec E w ls c y)
    show ?case
    proof
      assume u: "unseen E view"
      note step = 1(2) [unfolded Let_def] and q = unseen_queue [OF u] and look = unseen_look [OF u]
      show "view (snd (snd y)) = view c \<and> (\<not> fst y \<longrightarrow> fst (snd y) = ''INTERRUPTED'')"
      proof (cases w)
        case True
        with step obtain c1 where w: "waitForTerminateOrNewMessageOrCovStateChange E [] c = Some c1" by (auto simp: bind_eq_Some_conv)
        have v: "view (look E c1) = view c" using unseen_wait [OF w u] by (simp add: look)
        show ?thesis using step True w v 1(1) u by (auto split: if_splits)
      next
        case False
        then show ?thesis using step 1(1) u by (auto simp: q look split: if_splits list.splits)
      qed
    qed
  qed
  with assms(2) show "view c' = view c" and "\<not> ok \<Longrightarrow> r = ''INTERRUPTED''" by simp_all
qed

section \<open>Commands and the memory\<close>

definition no_one_types :: "gdb_env \<Rightarrow> bool" where
  "no_one_types E \<longleftrightarrow> (\<forall>k c. m_ostreamToGdb (g_others E k c) = m_ostreamToGdb c)"

lemma unseen_text: "no_one_types E \<Longrightarrow> unseen E typed_text"
  by (simp add: unseen_def typed_text_def no_one_types_def)

lemma typed_text_simps [simp]:
  "typed_text (type_text s c) = typed_text c @ s" "typed_text (c\<lparr>m_exOutput := x\<rparr>) = typed_text c"
  "typed_text (c\<lparr>m_gdbThreadShouldTerminate := t\<rparr>) = typed_text c" "typed_text (c\<lparr>m_coverageState := v\<rparr>) = typed_text c"
  "typed_text (fail_output d c) = typed_text c" "typed_text (c\<lparr>m_ostreamToGdb := m_ostreamToGdb c @ [Interrupted]\<rparr>) = typed_text c"
  "typed_text (c\<lparr>m_exitStatus := e\<rparr>) = typed_text c"
  by (simp_all add: typed_text_def type_text_def fail_output_def)

lemma concat_pieces_of: "concat (pieces_of s) = s"
  by (induction s rule: pieces_of.induct) (simp add: pieces_of.simps [of command for command])

lemma type_pieces_text:
  "type_pieces E ps c = (True, c') \<Longrightarrow> no_one_types E \<Longrightarrow> typed_text c' = typed_text c @ concat ps"
  by (induction E ps c rule: type_pieces.induct) (auto simp: Let_def unseen_look [OF unseen_text] split: if_splits)

lemma sendCommand_text:
  assumes "sendCommandToGDBAndWaitForResponse E cmd resp z c = Some (ok, r, c')" and n: "no_one_types E"
  shows "ok \<Longrightarrow> typed_text c' = typed_text c @ (if cmd = [] then [] else cmd @ newline @ ''fluffi'' @ newline)"
    and "\<not> ok \<Longrightarrow> r = ''LEFTOVER'' \<Longrightarrow> typed_text c' = typed_text c"
proof -
  note look = unseen_look [OF unseen_text [OF n]]
  let ?c = "if z then (look E c)\<lparr>m_ostreamToGdb := m_ostreamToGdb (look E c) @ [Interrupted]\<rparr> else look E c"
  have t: "typed_text ?c = typed_text c" by (simp add: look)
  obtain k c1 where p: "type_pieces E (pieces_of cmd) ?c = (k, c1)" by (cases "type_pieces E (pieces_of cmd) ?c")
  have "(ok \<longrightarrow> typed_text c' = typed_text c @ (if cmd = [] then [] else cmd @ newline @ ''fluffi'' @ newline)) \<and>
    (\<not> ok \<longrightarrow> r = ''LEFTOVER'' \<longrightarrow> typed_text c' = typed_text c)"
  proof (cases "cmd = [] \<or> m_gdbOutputQueue (look E c) \<noteq> []")
    case True
    then show ?thesis using assms(1) by (auto simp: sendCommandToGDBAndWaitForResponse_def Let_def look split: if_splits)
  next
    case False
    with assms(1) p have s: "(if \<not> k then Some (False, ''INTERRUPTED'', c1)
        else read_response E True [] (type_text (newline @ ''fluffi'' @ newline) c1)) = Some (ok, r, c')"
      by (simp add: sendCommandToGDBAndWaitForResponse_def Let_def)
    show ?thesis
    proof (cases k)
      case True
      with s have r: "read_response E True [] (type_text (newline @ ''fluffi'' @ newline) c1) = Some (ok, r, c')" by simp
      have "typed_text c1 = typed_text c @ cmd" using type_pieces_text [of E "pieces_of cmd" ?c c1] p True n t by (simp add: concat_pieces_of)
      with unseen_response [OF r unseen_text [OF n]] False show ?thesis by auto
    next
      case False
      with s show ?thesis by auto
    qed
  qed
  then show "ok \<Longrightarrow> typed_text c' = typed_text c @ (if cmd = [] then [] else cmd @ newline @ ''fluffi'' @ newline)"
    and "\<not> ok \<Longrightarrow> r = ''LEFTOVER'' \<Longrightarrow> typed_text c' = typed_text c" by blast+
qed

section \<open>Enabled breakpoints are in the memory\<close>

text \<open>
  \<open>A\<close> are the addresses at which the instruction is about to be written; \<open>mem\<close> is the memory before anything was
  typed.
\<close>

definition memory_of :: "string \<Rightarrow> memory \<Rightarrow> GDBThreadCommunication \<Rightarrow> memory" where
  "memory_of ctype mem c = gdb_memory ctype (typed_text c) mem"

definition armed_but :: "64 word set \<Rightarrow> string \<Rightarrow> 32 word \<Rightarrow> memory \<Rightarrow> breakpoints \<Rightarrow> GDBThreadCommunication \<Rightarrow> bool" where
  "armed_but A ctype instr mem bps c \<longleftrightarrow> complete (typed_text c) \<and>
     (\<forall>b \<in> set bps. m_isEnabled b \<longrightarrow> m_absoluteAdress b \<in> A \<or> memory_of ctype mem c (m_absoluteAdress b) = instr)"

lemma armed_text: "typed_text c' = typed_text c \<Longrightarrow> armed_but A ctype instr mem bps c' = armed_but A ctype instr mem bps c"
  by (simp add: armed_but_def memory_of_def)

lemma armed_typed:
  assumes "armed_but A ctype instr mem bps c" and "typed_text c' = typed_text c @ s" and "complete s"
    and "\<And>mem. gdb_memory ctype s mem = mem"
  shows "armed_but A ctype instr mem bps c'"
  using assms by (simp add: armed_but_def memory_of_def gdb_memory_append complete_append)

lemma remove_breakpoint_armed:
  assumes "remove_breakpoint n b (bps, cov) c = Some (d', c')" and "c_type n = Some ctype" and "armed_but A ctype instr mem bps c"
  shows "armed_but A ctype instr mem (fst d') c'"
proof -
  let ?s = "set_command ctype (m_absoluteAdress b) (m_originalBytes b)"
  let ?j = "''j *0x'' @ hex_text (m_absoluteAdress b) @ newline"
  have d: "fst d' = disable_at (m_absoluteAdress b) bps" and t: "typed_text c' = typed_text c @ ?s @ ?j"
    using assms(1,2) by (auto simp: remove_breakpoint_def)
  have j: "complete ?j" by (simp add: complete_def)
  have m: "memory_of ctype mem c' = (memory_of ctype mem c)(m_absoluteAdress b := m_originalBytes b)"
    using assms(3) exec_set [OF assms(2)] by (simp add: memory_of_def t armed_but_def gdb_memory_append complete_append)
  have "complete (typed_text c')" using assms(3) exec_set [OF assms(2)] j by (simp add: t armed_but_def complete_append)
  with m assms(3) show ?thesis by (auto simp: armed_but_def d disable_at_def)
qed

lemma record_crash_armed:
  assumes "armed_but A ctype instr mem bps c" shows "armed_but A ctype instr mem bps (record_crash nm rva c)"
proof -
  have "typed_text (record_crash nm rva c) = typed_text c \<or> typed_text (record_crash nm rva c) = typed_text c @ ''c'' @ newline"
    by (simp add: record_crash_def Let_def)
  moreover have "complete (''c'' @ newline)" by (simp add: complete_def)
  ultimately show ?thesis using armed_text armed_typed [OF assms _ _ memory_of_commands(1)] assms by blast
qed

lemma handle_crash_armed:
  assumes "handle_crash E nm a c = Some (True, c')" and "no_one_types E" and "armed_but A ctype instr mem bps c"
  shows "armed_but A ctype instr mem bps c'"
proof -
  let ?cmd = "''info files''"
  from assms(1) obtain r c1 bs where s: "sendCommandToGDBAndWaitForResponse E ?cmd [] False c = Some (True, r, c1)"
    and c': "c' = record_crash nm (getCrashRVA bs a) c1" by (auto simp: handle_crash_def bind_eq_Some_conv split: if_splits)
  have "typed_text c1 = typed_text c @ ?cmd @ newline @ ''fluffi'' @ newline" using sendCommand_text(1) [OF s assms(2)] by simp
  then have "armed_but A ctype instr mem bps c1"
    using armed_typed [OF assms(3) _ _ memory_of_commands(4)] by (simp add: complete_def)
  then show ?thesis unfolding c' by (rule record_crash_armed)
qed

lemma handleSignal_armed:
  assumes "handleSignal E n l d c = Some (True, d', c')" and "no_one_types E" and "c_type n = Some ctype"
    and "armed_but A ctype instr mem (fst d) c"
  shows "armed_but A ctype instr mem (fst d') c'"
proof -
  from assms(1) obtain nm al c1 where nm: "signal_name l = Some nm" and w: "wait_address E c = Some (al, c1)"
    by (auto simp: handleSignal_def bind_eq_Some_conv)
  note u = assms(1) [unfolded handleSignal_def nm w Option.bind.bind_lunit prod.case]
  have a1: "armed_but A ctype instr mem (fst d) c1"
    using assms(4) armed_text [OF unseen_address [OF w unseen_text [OF assms(2)]]] by simp
  obtain adr where "al = Some adr" using u by (cases al) auto
  with u obtain a where u2: "(case if substr nm 0 7 = ''SIGTRAP'' then known_breakpoint (fst d) a else None of
      Some gdbb \<Rightarrow> map_option (\<lambda>(d, c). (True, d, c)) (remove_breakpoint n gdbb d c1)
    | None \<Rightarrow> map_option (\<lambda>(ok, c). (ok, d, c)) (handle_crash E nm a c1)) = Some (True, d', c')"
    by (auto simp: bind_eq_Some_conv)
  show ?thesis
  proof (cases "if substr nm 0 7 = ''SIGTRAP'' then known_breakpoint (fst d) a else None")
    case None
    with u2 have "handle_crash E nm a c1 = Some (True, c')" "d' = d" by auto
    with handle_crash_armed [OF this(1) assms(2) a1] show ?thesis by simp
  next
    case (Some b)
    with u2 have "remove_breakpoint n b (fst d, snd d) c1 = Some (d', c')" by auto
    from remove_breakpoint_armed [OF this assms(3) a1] show ?thesis .
  qed
qed

lemma consume_armed:
  assumes "consumeGDBOutputQueue E n d c = Some (True, d', c')" and "no_one_types E" and "c_type n = Some ctype"
    and "armed_but A ctype instr mem (fst d) c"
  shows "armed_but A ctype instr mem (fst d') c'"
proof -
  have "no_one_types E \<longrightarrow> c_type n = Some ctype \<longrightarrow> armed_but A ctype instr mem (fst d) c \<longrightarrow> fst (True, d', c') \<longrightarrow>
    armed_but A ctype instr mem (fst (fst (snd (True, d', c')))) (snd (snd (True, d', c')))"
  proof (rule consumeGDBOutputQueue.raw_induct [OF _ assms(1)], goal_cases)
    case (1 rec E n d c y)
    show ?case
    proof (intro impI)
      assume n: "no_one_types E" and t: "c_type n = Some ctype" and a: "armed_but A ctype instr mem (fst d) c" and ok: "fst y"
      note step = 1(2) [unfolded Let_def] and tx = unseen_text [OF n]
      have a0: "armed_but A ctype instr mem (fst d) (look E c)" using a by (simp add: armed_text [OF unseen_look [OF tx]])
      show "armed_but A ctype instr mem (fst (fst (snd y))) (snd (snd y))"
      proof (cases "m_gdbOutputQueue (look E c)")
        case Nil
        with step a0 show ?thesis by auto
      next
        case (Cons line q)
        let ?c = "(look E c)\<lparr>m_gdbOutputQueue := q\<rparr>"
        have a1: "armed_but A ctype instr mem (fst d) ?c" using a0 by (simp add: armed_text [OF unseen_queue [OF tx]])
        consider (again) "rec E n d ?c = Some y"
          | (signal) d1 c1 where "handleSignal E n line d ?c = Some (True, d1, c1)" "rec E n d1 c1 = Some y"
          using step Cons ok by (auto simp: bind_eq_Some_conv split: if_splits)
        then show ?thesis
        proof cases
          case again
          from 1(1) [OF this] n t a1 ok show ?thesis by blast
        next
          case signal
          from 1(1) [OF signal(2)] handleSignal_armed [OF signal(1) n t a1] n t ok show ?thesis by blast
        qed
      qed
    qed
  qed
  with assms(2-4) show ?thesis by simp
qed

lemma enable_breakpoints_armed:
  assumes "enable_breakpoints E n s d c = Some (True, d', c')" and "no_one_types E" and "c_type n = Some ctype"
    and "\<And>mem. gdb_memory ctype s mem = (\<lambda>a. if a \<in> A then instr else mem a)" and "complete s"
    and "armed_but A ctype instr mem (fst d) c"
  shows "armed_but {} ctype instr mem (fst d') c'"
proof -
  have "no_one_types E \<longrightarrow> c_type n = Some ctype \<longrightarrow> (\<forall>mem. gdb_memory ctype s mem = (\<lambda>a. if a \<in> A then instr else mem a)) \<longrightarrow>
    complete s \<longrightarrow> armed_but A ctype instr mem (fst d) c \<longrightarrow> fst (True, d', c') \<longrightarrow>
    armed_but {} ctype instr mem (fst (fst (snd (True, d', c')))) (snd (snd (True, d', c')))"
  proof (rule enable_breakpoints.raw_induct [OF _ assms(1)], goal_cases)
    case (1 rec E n s d c y)
    show ?case
    proof (intro impI)
      assume n: "no_one_types E" and t: "c_type n = Some ctype" and ok: "fst y" and cs: "complete s"
        and m: "\<forall>mem. gdb_memory ctype s mem = (\<lambda>a. if a \<in> A then instr else mem a)"
        and a: "armed_but A ctype instr mem (fst d) c"
      from 1(2) obtain np r c1 where k: "sendCommandToGDBAndWaitForResponse E s [] True c = Some (np, r, c1)"
        by (auto simp: bind_eq_Some_conv)
      note step = 1(2) [unfolded k Option.bind.bind_lunit prod.case]
      show "armed_but {} ctype instr mem (fst (fst (snd y))) (snd (snd y))"
      proof (cases np)
        case True
        have tx: "typed_text c1 = typed_text c @ (if s = [] then [] else s @ newline @ ''fluffi'' @ newline)"
          using sendCommand_text(1) [OF k n] True by simp
        have "complete (typed_text c1)" using a by (auto simp: tx armed_but_def complete_def)
        moreover have "memory_of ctype mem c1 = (\<lambda>a. if a \<in> A then instr else memory_of ctype mem c a)"
          using a m cs by (auto simp: memory_of_def tx armed_but_def gdb_memory_append)
        moreover have "y = (True, d, c1)" using step True by simp
        ultimately show ?thesis using a by (auto simp: armed_but_def)
      next
        case False
        with step ok obtain d2 c2 where r: "r = ''LEFTOVER''" and q: "consumeGDBOutputQueue E n d c1 = Some (True, d2, c2)"
          and y: "rec E n s d2 c2 = Some y" by (auto simp: bind_eq_Some_conv split: if_splits)
        have "armed_but A ctype instr mem (fst d) c1"
          using a armed_text [OF sendCommand_text(2) [OF k n False r]] by simp
        from consume_armed [OF q n t this] 1(1) [OF y] n t m cs ok show ?thesis by blast
      qed
    qed
  qed
  with assms(2-6) show ?thesis by simp
qed

lemma handle_coverage_armed:
  assumes "handle_coverage E instr n d c = Some (True, d', c')" and "no_one_types E" and "c_type n = Some ctype"
    and "armed_but {} ctype instr mem (fst d) c"
  shows "armed_but {} ctype instr mem (fst d') c'"
proof (cases "m_coverageState c")
  case SHOULD_RESET_HARD
  with assms(1) obtain s bps d1 c1 where g: "generateEnableAllCommand (fst d) instr n = Some (s, bps)"
    and e: "enable_breakpoints E n s (bps, snd d) c = Some (True, d1, c1)"
    and r: "fst d' = fst d1" "typed_text c' = typed_text c1 @ ''c'' @ newline"
    by (auto simp: handle_coverage_def bind_eq_Some_conv split: if_splits)
  note m = generateEnableAllCommand_memory [OF g assms(3)]
  have "armed_but (disarmed (fst d)) ctype instr mem bps c"
    using assms(4) by (auto simp: armed_but_def generateEnableAllCommand_enabled [OF g] disarmed_def)
  then have "armed_but {} ctype instr mem (fst d1) c1"
    using enable_breakpoints_armed [OF e assms(2,3)] m by simp
  then show ?thesis using armed_typed [OF _ _ _ memory_of_commands(1)] r by (simp add: complete_def)
qed (use assms(1,4) in \<open>auto simp: handle_coverage_def dump_coverage_def armed_but_def memory_of_def\<close>)

section \<open>Covered blocks\<close>

definition covered_disabled :: "debug_state \<Rightarrow> bool" where
  "covered_disabled d \<longleftrightarrow> set (snd d) \<subseteq> m_fbb ` {b \<in> set (fst d). \<not> m_isEnabled b} \<and> oset_by (\<lambda>b. b) (snd d)"

lemma remove_breakpoint_covered:
  assumes "remove_breakpoint n b d c = Some (d', c')" and "b \<in> set (fst d)" and "covered_disabled d"
  shows "covered_disabled d'"
proof -
  have "set (snd d') = insert (m_fbb b) (set (snd d))" "fst d' = disable_at (m_absoluteAdress b) (fst d)"
    "oset_by (\<lambda>b. b) (snd d')"
    using assms(1,3) by (auto simp: remove_breakpoint_def bind_eq_Some_conv Let_def oset covered_disabled_def)
  moreover have "m_fbb x \<in> m_fbb ` {b \<in> set (disable_at a (fst d)). \<not> m_isEnabled b}"
    if "x \<in> set (fst d)" and "\<not> m_isEnabled x \<or> m_absoluteAdress x = a" for x a
    by (rule image_eqI [where x = "if m_absoluteAdress x = a then x\<lparr>m_isEnabled := False\<rparr> else x"])
      (use that in \<open>auto simp: disable_at_def\<close>)
  ultimately show ?thesis using assms(2,3) by (auto simp: covered_disabled_def)
qed

text \<open>A signal is a crash or the stop at a breakpoint.\<close>

lemma handleSignal_cases:
  assumes "handleSignal E n l d c = Some (ok, d', c')"
  obtains "d' = d" | b c1 where "b \<in> set (fst d)" and "remove_breakpoint n b d c1 = Some (d', c')"
proof -
  from assms obtain nm al c1 where nm: "signal_name l = Some nm" and w: "wait_address E c = Some (al, c1)"
    by (auto simp: handleSignal_def bind_eq_Some_conv)
  note u = assms [unfolded handleSignal_def nm w Option.bind.bind_lunit prod.case]
  show thesis
  proof (cases al)
    case None
    with u that(1) show thesis by simp
  next
    case (Some adr)
    with u obtain a where u2: "(case if substr nm 0 7 = ''SIGTRAP'' then known_breakpoint (fst d) a else None of
        Some gdbb \<Rightarrow> map_option (\<lambda>(d, c). (True, d, c)) (remove_breakpoint n gdbb d c1)
      | None \<Rightarrow> map_option (\<lambda>(ok, c). (ok, d, c)) (handle_crash E nm a c1)) = Some (ok, d', c')"
      by (auto simp: bind_eq_Some_conv)
    show thesis
    proof (cases "if substr nm 0 7 = ''SIGTRAP'' then known_breakpoint (fst d) a else None")
      case None
      with u2 that(1) show thesis by auto
    next
      case (Some b)
      then have "b \<in> set (fst d)" using known_breakpoint_in by (auto split: if_splits)
      with u2 Some that(2) show thesis by auto
    qed
  qed
qed

text \<open>What holds of the breakpoints and is kept at a stop is kept by working off the queue.\<close>

lemma consume_keeps:
  assumes "consumeGDBOutputQueue E n d c = Some (ok, d', c')" and "P d"
    and "\<And>b d c d' c'. remove_breakpoint n b d c = Some (d', c') \<Longrightarrow> b \<in> set (fst d) \<Longrightarrow> P d \<Longrightarrow> P d'"
  shows "P d'"
proof -
  have "(\<forall>b d c d' c'. remove_breakpoint n b d c = Some (d', c') \<longrightarrow> b \<in> set (fst d) \<longrightarrow> P d \<longrightarrow> P d') \<longrightarrow> P d \<longrightarrow> P (fst (snd (ok, d', c')))"
  proof (rule consumeGDBOutputQueue.raw_induct [OF _ assms(1)], goal_cases)
    case (1 rec E n d c y)
    show ?case
    proof (intro impI)
      assume keeps: "\<forall>b d c d' c'. remove_breakpoint n b d c = Some (d', c') \<longrightarrow> b \<in> set (fst d) \<longrightarrow> P d \<longrightarrow> P d'" and p: "P d"
      note step = 1(2) [unfolded Let_def]
      show "P (fst (snd y))"
      proof (cases "m_gdbOutputQueue (look E c)")
        case Nil
        with step p show ?thesis by auto
      next
        case (Cons line q)
        let ?c = "(look E c)\<lparr>m_gdbOutputQueue := q\<rparr>"
        consider (stop) "fst (snd y) = d" | (again) "rec E n d ?c = Some y"
          | (signal) ok d1 c1 where "handleSignal E n line d ?c = Some (ok, d1, c1)" "fst (snd y) = d1 \<or> rec E n d1 c1 = Some y"
          using step Cons by (auto simp: bind_eq_Some_conv split: if_splits)
        then show ?thesis
        proof cases
          case signal
          have "P d1" by (rule handleSignal_cases [OF signal(1)]) (use p keeps in blast)+
          with signal(2) 1(1) keeps show ?thesis by blast
        qed (use 1(1) keeps p in auto)
      qed
    qed
  qed
  with assms(2,3) show ?thesis by (auto simp del: split_paired_All)
qed

lemma consume_covered:
  "consumeGDBOutputQueue E n d c = Some (ok, d', c') \<Longrightarrow> covered_disabled d \<Longrightarrow> covered_disabled d'"
  by (rule consume_keeps [where P = covered_disabled]) (use remove_breakpoint_covered in blast)+

lemma handle_coverage_covered:
  assumes "handle_coverage E instr n d c = Some (True, d', c')" and "covered_disabled d" shows "covered_disabled d'"
proof -
  have "d' = d \<or> snd d' = []"
    using assms(1) by (cases "m_coverageState c") (auto simp: handle_coverage_def bind_eq_Some_conv split: if_splits)
  with assms(2) show ?thesis by (auto simp: covered_disabled_def)
qed

section \<open>The rounds of the thread\<close>

lemma enable_breakpoints_keeps:
  assumes "enable_breakpoints E n s d c = Some (ok, d', c')" and "P d"
    and "\<And>b d c d' c'. remove_breakpoint n b d c = Some (d', c') \<Longrightarrow> b \<in> set (fst d) \<Longrightarrow> P d \<Longrightarrow> P d'"
  shows "P d'"
proof -
  have "(\<forall>b d c d' c'. remove_breakpoint n b d c = Some (d', c') \<longrightarrow> b \<in> set (fst d) \<longrightarrow> P d \<longrightarrow> P d') \<longrightarrow> P d \<longrightarrow> P (fst (snd (ok, d', c')))"
  proof (rule enable_breakpoints.raw_induct [OF _ assms(1)], goal_cases)
    case (1 rec E n s d c y)
    show ?case
    proof (intro impI)
      assume keeps: "\<forall>b d c d' c'. remove_breakpoint n b d c = Some (d', c') \<longrightarrow> b \<in> set (fst d) \<longrightarrow> P d \<longrightarrow> P d'" and p: "P d"
      from 1(2) consider (stop) "fst (snd y) = d"
        | (queue) ok2 d2 c1 c2 where "consumeGDBOutputQueue E n d c1 = Some (ok2, d2, c2)" "fst (snd y) = d2 \<or> rec E n s d2 c2 = Some y"
        by (auto simp: bind_eq_Some_conv split: if_splits)
      then show "P (fst (snd y))"
      proof cases
        case queue
        have "P d2" by (rule consume_keeps [OF queue(1)]) (use p keeps in blast)+
        with queue(2) 1(1) keeps show ?thesis by blast
      qed (use p in simp)
    qed
  qed
  with assms(2,3) show ?thesis by (auto simp del: split_paired_All)
qed

lemma remove_breakpoint_flagless: "remove_breakpoint n b d c = Some (d', c') \<Longrightarrow> map flagless (fst d') = map flagless (fst d)"
  by (auto simp: remove_breakpoint_def bind_eq_Some_conv Let_def disable_at_flagless)

lemma handle_coverage_flagless:
  assumes "handle_coverage E instr n d c = Some (ok, d', c')" shows "map flagless (fst d') = map flagless (fst d)"
proof (cases "m_coverageState c")
  case SHOULD_RESET_HARD
  with assms obtain s bps ok1 d1 c1 where g: "generateEnableAllCommand (fst d) instr n = Some (s, bps)"
    and e: "enable_breakpoints E n s (bps, snd d) c = Some (ok1, d1, c1)" and d: "fst d' = fst d1"
    by (auto simp: handle_coverage_def bind_eq_Some_conv split: if_splits)
  have "map flagless bps = map flagless (fst d)" by (simp add: generateEnableAllCommand_enabled [OF g] flagless_def)
  then have "map flagless (fst d1) = map flagless (fst d)"
    by (intro enable_breakpoints_keeps [OF e, where P = "\<lambda>d1. map flagless (fst d1) = map flagless (fst d)"])
      (use remove_breakpoint_flagless in auto)
  with d show ?thesis by simp
qed (use assms in \<open>auto simp: handle_coverage_def\<close>)

text \<open>The states of \<open>gdb_loop\<close> between its rounds.\<close>

inductive debugging :: "gdb_env \<Rightarrow> 32 word \<Rightarrow> int \<Rightarrow> breakpoints \<Rightarrow> GDBThreadCommunication \<Rightarrow> debug_state \<Rightarrow> GDBThreadCommunication \<Rightarrow> bool"
  for E instr n bps c0 where
  start: "debugging E instr n bps c0 (bps, []) c0"
| round: "debugging E instr n bps c0 d3 c3"
  if "debugging E instr n bps c0 d c"
    and "waitForTerminateOrNewMessageOrCovStateChange E [SHOULD_DUMP, SHOULD_RESET_HARD, SHOULD_RESET_SOFT] c = Some c1"
    and "\<not> m_gdbThreadShouldTerminate (look E c1)" and "consumeGDBOutputQueue E n d (look E c1) = Some (True, d2, c2)"
    and "handle_coverage E instr n d2 (look E c2) = Some (True, d3, c3)"

lemma debugging_loop:
  "debugging E instr n bps c0 d c \<Longrightarrow> gdb_loop E instr n d c = gdb_loop E instr n (bps, []) c0"
proof (induction rule: debugging.induct)
  case (round d c c1 d2 c2 d3 c3)
  have "gdb_loop E instr n d c = gdb_loop E instr n d3 c3"
    using round.hyps(2-5) by (subst gdb_loop.simps) (simp add: Let_def)
  with round.IH show ?case by simp
qed simp

lemma debugging_flagless: "debugging E instr n bps c0 d c \<Longrightarrow> map flagless (fst d) = map flagless bps"
proof (induction rule: debugging.induct)
  case (round d c c1 d2 c2 d3 c3)
  have "map flagless (fst d2) = map flagless bps"
    by (rule consume_keeps [OF round.hyps(4), where P = "\<lambda>d. map flagless (fst d) = map flagless bps"])
      (use round.IH remove_breakpoint_flagless in auto)
  with handle_coverage_flagless [OF round.hyps(5)] show ?case by simp
qed simp

lemma debugging_covered: "debugging E instr n bps c0 d c \<Longrightarrow> covered_disabled d"
proof (induction rule: debugging.induct)
  case (round d c c1 d2 c2 d3 c3)
  then show ?case using consume_covered handle_coverage_covered by blast
qed (simp add: covered_disabled_def)

lemma debugging_armed:
  assumes "debugging E instr n bps c0 d c" and "no_one_types E" and "c_type n = Some ctype"
    and "armed_but {} ctype instr mem bps c0"
  shows "armed_but {} ctype instr mem (fst d) c"
  using assms(1)
proof (induction rule: debugging.induct)
  case (round d c c1 d2 c2 d3 c3)
  note u = unseen_text [OF assms(2)]
  have "armed_but {} ctype instr mem (fst d) (look E c1)"
    using round.IH armed_text [OF unseen_look [OF u]] armed_text [OF unseen_wait [OF round.hyps(2) u]] by simp
  from consume_armed [OF round.hyps(4) assms(2,3) this] have "armed_but {} ctype instr mem (fst d2) (look E c2)"
    using armed_text [OF unseen_look [OF u]] by simp
  from handle_coverage_armed [OF round.hyps(5) assms(2,3) this] show ?case .
qed (use assms(4) in simp)

end
