(* ===== verification/TRGdbReport.thy ===== *)
theory TRGdbReport
  imports TRGdbMemory
begin

text \<open>
  The executor that drives a debugger: which blocks the thread reports, and that GDB's answer to a command is what the
  thread gets.
\<close>

section \<open>The reported blocks\<close>

definition reported :: "GDBThreadCommunication \<Rightarrow> FluffiBasicBlock list" where
  "reported c = m_coveredBasicBlocks (m_exOutput c)"

text \<open>The other threads do not touch them.\<close>

definition no_one_reports :: "gdb_env \<Rightarrow> bool" where
  "no_one_reports E \<longleftrightarrow> (\<forall>k c. reported (g_others E k c) = reported c)"

lemma unseen_reported: "no_one_reports E \<Longrightarrow> unseen E reported"
  by (simp add: unseen_def no_one_reports_def reported_def)

lemma reported_simps [simp]:
  "reported (type_text s c) = reported c" "reported (fail_output d c) = reported c"
  "reported (c\<lparr>m_ostreamToGdb := os\<rparr>) = reported c" "reported (c\<lparr>m_gdbOutputQueue := q\<rparr>) = reported c"
  "reported (c\<lparr>m_coverageState := v\<rparr>) = reported c" "reported (c\<lparr>m_gdbThreadShouldTerminate := t\<rparr>) = reported c"
  "reported (c\<lparr>m_debuggingReady := t\<rparr>) = reported c" "reported (c\<lparr>m_interruptWritten := t\<rparr>) = reported c"
  "reported (record_crash nm rva c) = reported c" "reported (process_exited k c) = reported c"
  "reported (end_thread c) = reported c"
  by (simp_all add: reported_def type_text_def fail_output_def record_crash_def process_exited_def end_thread_def Let_def)

lemma type_pieces_reported: "type_pieces E ps c = (ok, c') \<Longrightarrow> no_one_reports E \<Longrightarrow> reported c' = reported c"
  by (induction E ps c rule: type_pieces.induct) (auto simp: Let_def unseen_look [OF unseen_reported] split: if_splits)

lemma sendCommand_reported:
  assumes "sendCommandToGDBAndWaitForResponse E cmd resp z c = Some (ok, r, c')" and n: "no_one_reports E"
  shows "reported c' = reported c"
proof -
  note look = unseen_look [OF unseen_reported [OF n]]
  let ?c = "if z then (look E c)\<lparr>m_ostreamToGdb := m_ostreamToGdb (look E c) @ [Interrupted]\<rparr> else look E c"
  obtain k c1 where p: "type_pieces E (pieces_of cmd) ?c = (k, c1)" by (cases "type_pieces E (pieces_of cmd) ?c")
  have c1: "reported c1 = reported c" using type_pieces_reported [OF p n] by (simp add: look split: if_splits)
  show ?thesis
  proof (cases "cmd = [] \<or> m_gdbOutputQueue (look E c) \<noteq> []")
    case True
    then show ?thesis using assms(1) by (auto simp: sendCommandToGDBAndWaitForResponse_def Let_def look split: if_splits)
  next
    case False
    with assms(1) p have "(if \<not> k then Some (False, ''INTERRUPTED'', c1)
        else read_response E True [] (type_text (newline @ ''fluffi'' @ newline) c1)) = Some (ok, r, c')"
      by (simp add: sendCommandToGDBAndWaitForResponse_def Let_def)
    with c1 show ?thesis by (cases k) (auto dest: unseen_response(1) [OF _ unseen_reported [OF n]])
  qed
qed

lemma handleSignal_reported:
  assumes "handleSignal E n l d c = Some (ok, d', c')" and n: "no_one_reports E" shows "reported c' = reported c"
proof -
  note u = unseen_reported [OF n]
  from assms(1) obtain nm al c1 where nm: "signal_name l = Some nm" and w: "wait_address E c = Some (al, c1)"
    by (auto simp: handleSignal_def bind_eq_Some_conv)
  have c1: "reported c1 = reported c" by (rule unseen_address [OF w u])
  have "reported c' = reported c1" if "remove_breakpoint n b d c1 = Some (d', c')" for b
    using that by (auto simp: remove_breakpoint_def bind_eq_Some_conv Let_def)
  moreover have "reported c' = reported c1" if "handle_crash E nm a c1 = Some (ok, c')" for a
    using that sendCommand_reported [OF _ n] by (auto simp: handle_crash_def bind_eq_Some_conv split: if_splits)
  ultimately show ?thesis
    using assms(1) [unfolded handleSignal_def nm w Option.bind.bind_lunit prod.case] c1
    by (auto simp: bind_eq_Some_conv split: option.splits)
qed

lemma consume_reported:
  assumes "consumeGDBOutputQueue E n d c = Some (ok, d', c')" and "no_one_reports E" shows "reported c' = reported c"
proof -
  have "no_one_reports E \<longrightarrow> reported (snd (snd (ok, d', c'))) = reported c"
  proof (rule consumeGDBOutputQueue.raw_induct [OF _ assms(1)], goal_cases)
    case (1 rec E n d c y)
    show ?case
    proof
      assume n: "no_one_reports E"
      note step = 1(2) [unfolded Let_def] and look = unseen_look [OF unseen_reported [OF n]]
      show "reported (snd (snd y)) = reported c"
      proof (cases "m_gdbOutputQueue (look E c)")
        case Nil
        with step look show ?thesis by auto
      next
        case (Cons line q)
        let ?c = "(look E c)\<lparr>m_gdbOutputQueue := q\<rparr>"
        consider (stop) "reported (snd (snd y)) = reported ?c" | (again) "rec E n d ?c = Some y"
          | (signal) ok d1 c1 where "handleSignal E n line d ?c = Some (ok, d1, c1)" 
              "reported (snd (snd y)) = reported c1 \<or> rec E n d1 c1 = Some y"
          using step Cons by (auto simp: bind_eq_Some_conv split: if_splits)
        then show ?thesis
        proof cases
          case signal
          then have "reported (snd (snd y)) = reported c1" using 1(1) n by blast
          with handleSignal_reported [OF signal(1) n] look show ?thesis by simp
        next
          case again
          then have "reported (snd (snd y)) = reported ?c" using 1(1) n by blast
          with look show ?thesis by simp
        qed (use look in simp)
      qed
    qed
  qed
  with assms(2) show ?thesis by simp
qed

lemma enable_breakpoints_reported:
  assumes "enable_breakpoints E n s d c = Some (ok, d', c')" and "no_one_reports E" shows "reported c' = reported c"
proof -
  have "no_one_reports E \<longrightarrow> reported (snd (snd (ok, d', c'))) = reported c"
  proof (rule enable_breakpoints.raw_induct [OF _ assms(1)], goal_cases)
    case (1 rec E n s d c y)
    show ?case
    proof
      assume n: "no_one_reports E"
      from 1(2) obtain np r c1 where k: "sendCommandToGDBAndWaitForResponse E s [] True c = Some (np, r, c1)"
        by (auto simp: bind_eq_Some_conv)
      note step = 1(2) [unfolded k Option.bind.bind_lunit prod.case] and r = sendCommand_reported [OF k n]
      from step consider (stop) "reported (snd (snd y)) = reported c1"
        | (queue) ok2 d2 c2 where "consumeGDBOutputQueue E n d c1 = Some (ok2, d2, c2)"
            "reported (snd (snd y)) = reported c2 \<or> rec E n s d2 c2 = Some y"
        by (auto simp: bind_eq_Some_conv split: if_splits)
      then show "reported (snd (snd y)) = reported c"
      proof cases
        case queue
        then have "reported (snd (snd y)) = reported c2" using 1(1) n by blast
        with consume_reported [OF queue(1) n] r show ?thesis by simp
      qed (use r in simp)
    qed
  qed
  with assms(2) show ?thesis by simp
qed

lemma fold_addCoveredBasicBlock_id:
  "fold addCoveredBasicBlock bs out = out\<lparr>m_coveredBasicBlocks := m_coveredBasicBlocks out @ bs\<rparr>"
  using fold_addCoveredBasicBlock [of "\<lambda>b. b" bs out] by simp

lemma dump_coverage_reported [simp]: "reported (dump_coverage bs c) = bs"
  by (simp add: dump_coverage_def reported_def fold_addCoveredBasicBlock_id)

lemma handle_coverage_reported:
  assumes "handle_coverage E instr n d c = Some (ok, d', c')" and n: "no_one_reports E"
  shows "reported c' = reported c \<or> reported c' = snd d"
proof (cases "m_coverageState c")
  case SHOULD_RESET_HARD
  with assms(1) enable_breakpoints_reported [OF _ n] show ?thesis
    by (auto simp: handle_coverage_def bind_eq_Some_conv split: if_splits)
qed (use assms(1) in \<open>auto simp: handle_coverage_def\<close>)

text \<open>The loop reports blocks of its breakpoints only, in order and none twice.\<close>

definition reports_only :: "FluffiBasicBlock set \<Rightarrow> GDBThreadCommunication \<Rightarrow> bool" where
  "reports_only S c \<longleftrightarrow> set (reported c) \<subseteq> S \<and> oset_by (\<lambda>b. b) (reported c)"

lemma gdb_loop_reports:
  assumes "gdb_loop E instr n d c = Some c'" and "no_one_reports E" and "covered_disabled d"
    and "m_fbb ` set (fst d) \<subseteq> S" and "reports_only S c"
  shows "reports_only S c'"
proof -
  have "no_one_reports E \<longrightarrow> covered_disabled d \<longrightarrow> m_fbb ` set (fst d) \<subseteq> S \<longrightarrow> reports_only S c \<longrightarrow> reports_only S c'"
  proof (rule gdb_loop.raw_induct [OF _ assms(1)], goal_cases)
    case (1 rec E instr n d c c')
    show ?case
    proof (intro impI)
      assume n: "no_one_reports E" and cd: "covered_disabled d" and S: "m_fbb ` set (fst d) \<subseteq> S" and r: "reports_only S c"
      note u = unseen_reported [OF n] and step = 1(2) [unfolded Let_def]
      from step obtain c1 where w: "waitForTerminateOrNewMessageOrCovStateChange E [SHOULD_DUMP, SHOULD_RESET_HARD, SHOULD_RESET_SOFT] c = Some c1"
        by (auto simp: bind_eq_Some_conv)
      have c1: "reported (look E c1) = reported c" using unseen_wait [OF w u] unseen_look [OF u] by simp
      have fbb: "m_fbb ` set bps = m_fbb ` set (fst d)" if "map flagless bps = map flagless (fst d)" for bps
      proof -
        have "map m_fbb bps = map m_fbb (map flagless bps)" for bps by (simp add: flagless_def)
        with that show ?thesis by (metis image_set)
      qed
      show "reports_only S c'"
      proof (cases "m_gdbThreadShouldTerminate (look E c1)")
        case True
        with step w r c1 show ?thesis by (simp add: reports_only_def)
      next
        case False
        with step w obtain ok d2 c2 where q: "consumeGDBOutputQueue E n d (look E c1) = Some (ok, d2, c2)"
          by (auto simp: bind_eq_Some_conv)
        have c2: "reported (look E c2) = reported c" using consume_reported [OF q n] c1 unseen_look [OF u] by simp
        have d2: "covered_disabled d2" by (rule consume_covered [OF q cd])
        have f2: "map flagless (fst d2) = map flagless (fst d)"
          by (rule consume_keeps [OF q, where P = "\<lambda>d1. map flagless (fst d1) = map flagless (fst d)"])
            (use remove_breakpoint_flagless in auto)
        show ?thesis
        proof (cases ok)
          case nok: False
          with step w False q r consume_reported [OF q n] c1 show ?thesis by (simp add: reports_only_def)
        next
          case True
          with step w False q obtain g d3 c3 where h: "handle_coverage E instr n d2 (look E c2) = Some (g, d3, c3)"
            and f: "(if \<not> g then Some c3 else rec E instr n d3 c3) = Some c'" by (auto simp: bind_eq_Some_conv)
          have "set (snd d2) \<subseteq> m_fbb ` set (fst d2)" using d2 by (auto simp: covered_disabled_def)
          then have "set (snd d2) \<subseteq> S" using S fbb [OF f2] by simp
          then have r3: "reports_only S c3"
            using handle_coverage_reported [OF h n] c2 r d2 by (auto simp: reports_only_def covered_disabled_def)
          show ?thesis
          proof (cases g)
            case True
            have "covered_disabled d3" using handle_coverage_covered [OF _ d2] h True by simp
            moreover have "m_fbb ` set (fst d3) \<subseteq> S" using S fbb [OF trans [OF handle_coverage_flagless [OF h] f2]] by simp
            ultimately show ?thesis using 1(1) f True n r3 by auto
          qed (use f r3 in simp)
        qed
      qed
    qed
  qed
  with assms(2-5) show ?thesis by blast
qed

section \<open>The preparation\<close>

lemma and_thenE:
  assumes "and_then m k = Some (r, c')"
  obtains "m = Some (None, c')" and "r = None" | x c1 where "m = Some (Some x, c1)" and "k x c1 = Some (r, c')"
proof -
  from assms obtain x c1 where m: "m = Some (x, c1)" by (auto simp: and_then_def bind_eq_Some_conv)
  with assms that show thesis by (cases x) (auto simp: and_then_def)
qed

lemma ask_gdb_reported: "ask_gdb E cmd pr resp c = Some (r, c') \<Longrightarrow> no_one_reports E \<Longrightarrow> reported c' = reported c"
  by (auto simp: ask_gdb_def sendCommand_reported split: if_splits)

lemma start_unless_attached_reported:
  assumes "start_unless_attached E resp c = Some (r, c')" and "no_one_reports E" shows "reported c' = reported c"
  using assms(1) unfolding start_unless_attached_def
  by (auto split: if_splits simp: bind_eq_Some_conv ask_gdb_reported [OF _ assms(2)] elim!: and_thenE)

lemma find_modules_reported:
  assumes "find_modules E ms c = Some (r, c')" and "no_one_reports E" shows "reported c' = reported c"
  using assms(1) unfolding find_modules_def
  by (auto split: if_splits simp: bind_eq_Some_conv ask_gdb_reported [OF _ assms(2)] elim!: and_thenE)

lemma read_original_bytes_blocks:
  "read_original_bytes bm bs ls bps = Some bps' \<Longrightarrow>
     m_fbb ` set bps' \<subseteq> set bs \<union> m_fbb ` set bps \<and> (\<forall>b \<in> set bps'. m_isEnabled b \<longrightarrow> b \<in> set bps)"
proof (induction bm bs ls bps arbitrary: bps' rule: read_original_bytes.induct)
  case (3 bm b bs line ls bps)
  have i: "set (set_insert m_absoluteAdress x bps) \<subseteq> insert x (set bps)" for x by (rule set_insert_subset)
  from 3(4) obtain v where v: "stoull_hex line = Some v" by (auto simp: bind_eq_Some_conv)
  show ?case
  proof (cases "find_char (CHR '':'') line")
    case None
    with 3 v show ?thesis by auto
  next
    case (Some j)
    show ?thesis
    proof (cases "v = block_address bm b")
      case False
      with 3 v Some show ?thesis by auto
    next
      case True
      with 3(4) v Some obtain w where w: "stoull_hex (drop (j + 1) line) = Some w" by (auto simp: bind_eq_Some_conv)
      let ?x = "\<lparr>m_absoluteAdress = v, m_originalBytes = ucast w, m_fbb = b, m_isEnabled = False\<rparr>"
      have "read_original_bytes bm bs ls (set_insert m_absoluteAdress ?x bps) = Some bps'" using 3(4) v Some True w by simp
      from 3(2) [OF v Some True w this]
      have ih: "m_fbb ` set bps' \<subseteq> set bs \<union> m_fbb ` set (set_insert m_absoluteAdress ?x bps)"
        "\<forall>b \<in> set bps'. m_isEnabled b \<longrightarrow> b \<in> set (set_insert m_absoluteAdress ?x bps)" by blast+
      have f: "m_fbb ` set (set_insert m_absoluteAdress ?x bps) \<subseteq> insert b (m_fbb ` set bps)" using i [of ?x] by auto
      have "m_fbb ` set bps' \<subseteq> set (b # bs) \<union> m_fbb ` set bps"
        using order_trans [OF ih(1) Un_mono [OF subset_refl f]] by simp
      moreover have "y \<in> set bps" if "y \<in> set (set_insert m_absoluteAdress ?x bps)" and "m_isEnabled y" for y
        using i [of ?x] that by auto
      ultimately show ?thesis using ih(2) by blast
    qed
  qed
qed auto

text \<open>What holds after the preparation, with \<open>rep\<close> as it was before.\<close>

definition prepared_for :: "FluffiBasicBlock list \<Rightarrow> FluffiBasicBlock list \<Rightarrow> breakpoints option \<Rightarrow> GDBThreadCommunication \<Rightarrow> bool" where
  "prepared_for bs rep r c \<longleftrightarrow> reported c = rep \<and>
     (\<forall>bps. r = Some bps \<longrightarrow> m_fbb ` set bps \<subseteq> set bs \<and> (\<forall>b \<in> set bps. \<not> m_isEnabled b))"

lemma prepared_for_None [simp]: "prepared_for bs rep None c \<longleftrightarrow> reported c = rep"
  by (simp add: prepared_for_def)

lemma find_breakpoints_prepared:
  assumes "find_breakpoints E n bm bs resp c = Some (r, c')" and "no_one_reports E"
  shows "prepared_for bs (reported c) r c'"
proof -
  have g: "prepared_for bs (reported c) (Some bps) c1" if "read_original_bytes bm bs ls [] = Some bps" and "reported c1 = reported c" for ls bps c1
    using read_original_bytes_blocks [OF that(1)] that(2) by (auto simp: prepared_for_def)
  from assms(1) obtain cmds where k: "and_then (ask_gdb E (join newline cmds) ''gdbPrepareForDebug: getting all real breakpoint bytes failed'' resp c)
      (\<lambda>resp c. do {
         bps \<leftarrow> read_original_bytes bm bs (splitString resp newline) [];
         if length bps \<noteq> length bs
         then Some (None, fail_output ''gdbPrepareForDebug: Failed getting all real breakpoint bytes - at least one could not be read'' c)
         else Some (Some bps, c)
       }) = Some (r, c')"
    unfolding find_breakpoints_def by (auto simp: bind_eq_Some_conv)
  show ?thesis
    by (rule and_thenE [OF k]; frule ask_gdb_reported [OF _ assms(2)])
      (auto simp: bind_eq_Some_conv split: if_splits intro: g)
qed

lemma target_pid_blocks: "target_pid resp out = Some out' \<Longrightarrow> m_coveredBasicBlocks out' = m_coveredBasicBlocks out"
  by (auto simp: target_pid_def split: option.splits)

lemma gdbPrepareForDebug_prepared:
  assumes "gdbPrepareForDebug E ms bs n c = Some (r, c')" and n: "no_one_reports E"
  shows "prepared_for bs (reported c) r c'"
proof -
  note look = unseen_look [OF unseen_reported [OF n]] and ask = ask_gdb_reported [OF _ n]
    and steps = start_unless_attached_reported [OF _ n] find_modules_reported [OF _ n]
  have f: "prepared_for bs (reported c) r c'"
    if "find_breakpoints E n bm bs resp (c1\<lparr>m_exOutput := out\<rparr>) = Some (r, c')" and "target_pid resp (m_exOutput c1) = Some out"
      and "reported c1 = reported c" for bm resp c1 out
    using find_breakpoints_prepared [OF that(1) n] target_pid_blocks [OF that(2)] that(3) by (simp add: reported_def)
  show ?thesis
  proof (cases "m_gdbOutputQueue (look E c)")
    case (Cons l q)
    with assms(1) show ?thesis by (auto simp: gdbPrepareForDebug_def look)
  next
    case Nil
    show ?thesis
      using assms(1) [unfolded gdbPrepareForDebug_def Let_def Nil list.case]
      by (elim and_thenE) (auto simp: look dest!: ask steps split: if_splits elim!: and_thenE simp: bind_eq_Some_conv intro: f)
  qed
qed

section \<open>The thread\<close>

lemma clear_queue_reported:
  assumes "clear_queue E c = Some c'" and "no_one_reports E" shows "reported c' = reported c"
proof -
  have "no_one_reports E \<longrightarrow> reported c' = reported c"
  proof (rule clear_queue.raw_induct [OF _ assms(1)], goal_cases)
    case (1 rec E c c')
    show ?case
    proof
      assume n: "no_one_reports E"
      note look = unseen_look [OF unseen_reported [OF n]]
      show "reported c' = reported c"
        using 1(2) 1(1) [of E "(look E c)\<lparr>m_gdbOutputQueue := q\<rparr>" c' for q] n look
        by (cases "m_gdbOutputQueue (look E c)") (auto simp: Let_def)
    qed
  qed
  with assms(2) show ?thesis by blast
qed

lemma skip_headers_reported:
  assumes "skip_headers E c = Some (ok, c')" and "no_one_reports E" shows "reported c' = reported c"
proof -
  have "no_one_reports E \<longrightarrow> reported (snd (ok, c')) = reported c"
  proof (rule skip_headers.raw_induct [OF _ assms(1)], goal_cases)
    case (1 rec E c y)
    show ?case
    proof
      assume n: "no_one_reports E"
      from 1(2) obtain np r c1 where k: "sendCommandToGDBAndWaitForResponse E ''set'' [] False c = Some (np, r, c1)"
        by (auto simp: bind_eq_Some_conv)
      from 1(2) [unfolded k Option.bind.bind_lunit prod.case]
      consider (stop) "snd y = c1" | (again) c2 where "clear_queue E c1 = Some c2" "rec E c2 = Some y"
        by (auto simp: bind_eq_Some_conv split: if_splits)
      then show "reported (snd y) = reported c"
      proof cases
        case again
        then have "reported (snd y) = reported c2" using 1(1) n by blast
        with clear_queue_reported [OF again(1) n] sendCommand_reported [OF k n] show ?thesis by simp
      qed (use sendCommand_reported [OF k n] in simp)
    qed
  qed
  with assms(2) show ?thesis by simp
qed

lemma gdbDebug_reports:
  assumes "gdbDebug E ms bs instr n c = Some c'" and n: "no_one_reports E" and "reported c = []"
  shows "reports_only (set bs) c'"
proof -
  from assms(1) obtain r c1 where p: "gdbPrepareForDebug E ms bs n c = Some (r, c1)" by (auto simp: gdbDebug_def bind_eq_Some_conv)
  note u = assms(1) [unfolded gdbDebug_def p Option.bind.bind_lunit prod.case]
  note prep = gdbPrepareForDebug_prepared [OF p n]
  show ?thesis
  proof (cases r)
    case None
    with u prep assms(3) show ?thesis by (simp add: reports_only_def)
  next
    case (Some bps)
    let ?c = "(type_text (''c'' @ newline) c1)\<lparr>m_debuggingReady := True, m_exOutput := (m_exOutput c1)\<lparr>m_terminationType := CLEAN,
        m_terminationDescription := ''The target executed without any exception''\<rparr>\<rparr>"
    from u Some have l: "gdb_loop E instr n (bps, []) ?c = Some c'" by simp
    have "reported ?c = []" using prep assms(3) by (simp add: prepared_for_def reported_def)
    moreover have "m_fbb ` set (fst (bps, [])) \<subseteq> set bs" using prep Some by (simp add: prepared_for_def)
    ultimately show ?thesis
      by (intro gdb_loop_reports [OF l n]) (auto simp: covered_disabled_def reports_only_def)
  qed
qed

lemma debuggerThreadMain_reports:
  assumes "debuggerThreadMain E ms bs instr n c = Some c'" and n: "no_one_reports E" and "reported c = []"
  shows "reports_only (set bs) c'"
proof -
  let ?c0 = "fail_output ''The target did not run!'' (c\<lparr>m_exOutput := (m_exOutput c)\<lparr>m_debuggerThreadDone := False\<rparr>\<rparr>)"
  have c0: "reported ?c0 = []" using assms(3) by (simp add: reported_def fail_output_def)
  have none: "reports_only (set bs) x" if "reported x = []" for x using that by (simp add: reports_only_def)
  show ?thesis
  proof (cases "g_inits E \<and> g_runs E \<and> g_initFile E \<noteq> None")
    case False
    with assms(1) c0 show ?thesis
      by (intro none) (auto simp: debuggerThreadMain_def Let_def split: if_splits)
  next
    case True
    then obtain content where i: "g_inits E" "g_runs E" "g_initFile E = Some content" by blast
    let ?c1 = "type_text (''set new-console on'' @ newline) (if content \<noteq> [] then type_text content ?c0 else ?c0)"
    have c1: "reported ?c1 = []" using c0 by simp
    from assms(1) i obtain ok c2 where k: "skip_headers E ?c1 = Some (ok, c2)"
      by (auto simp: debuggerThreadMain_def Let_def bind_eq_Some_conv)
    have c2: "reported c2 = []" using skip_headers_reported [OF k n] c1 by simp
    note u = assms(1) [unfolded debuggerThreadMain_def Let_def i option.case k Option.bind.bind_lunit prod.case]
    show ?thesis
    proof (cases ok)
      case False
      with u i c2 show ?thesis by (intro none) auto
    next
      case True
      with u i obtain c3 where d: "gdbDebug E ms bs instr n c2 = Some c3" and c': "reported c' = reported c3"
        by (auto simp: bind_eq_Some_conv)
      from gdbDebug_reports [OF d n c2] c' show ?thesis by (simp add: reports_only_def)
    qed
  qed
qed

section \<open>Answers\<close>

text \<open>
  Others that do what a script says: what GDB prints, what the executor asks for, and when it wants the end, by the looks
  at the shared object.
\<close>

definition scripted :: "gdb_env \<Rightarrow> (nat \<Rightarrow> string list) \<Rightarrow> (nat \<Rightarrow> COVERAGE_STATE option) \<Rightarrow> (nat \<Rightarrow> bool) \<Rightarrow> bool" where
  "scripted E says asks ends \<longleftrightarrow> (\<forall>k c. g_others E k c = c\<lparr>m_gdbOutputQueue := m_gdbOutputQueue c @ says k,
     m_coverageState := (case asks k of None \<Rightarrow> m_coverageState c | Some s \<Rightarrow> s),
     m_gdbThreadShouldTerminate := m_gdbThreadShouldTerminate c \<or> ends k\<rparr>)"

lemma look_scripted:
  "scripted E says asks ends \<Longrightarrow> look E c = c\<lparr>m_gdbOutputQueue := m_gdbOutputQueue c @ says (g_tick c),
     m_coverageState := (case asks (g_tick c) of None \<Rightarrow> m_coverageState c | Some s \<Rightarrow> s),
     m_gdbThreadShouldTerminate := m_gdbThreadShouldTerminate c \<or> ends (g_tick c), g_tick := Suc (g_tick c)\<rparr>"
  by (simp add: look_def scripted_def)

lemma look_undisturbed:
  "scripted E says asks ends \<Longrightarrow> asks (g_tick c) = None \<Longrightarrow> \<not> ends (g_tick c) \<Longrightarrow>
     look E c = c\<lparr>m_gdbOutputQueue := m_gdbOutputQueue c @ says (g_tick c), g_tick := Suc (g_tick c)\<rparr>"
  by (simp add: look_scripted)

text \<open>Nothing happens at the looks from \<open>i\<close> up to \<open>j\<close>, except what is printed at \<open>i\<close>.\<close>

definition says_at :: "(nat \<Rightarrow> string list) \<Rightarrow> (nat \<Rightarrow> COVERAGE_STATE option) \<Rightarrow> (nat \<Rightarrow> bool) \<Rightarrow> nat \<Rightarrow> string list \<Rightarrow> nat \<Rightarrow> bool" where
  "says_at says asks ends i ls j \<longleftrightarrow> says i = ls \<and> (\<forall>k. i < k \<and> k < j \<longrightarrow> says k = []) \<and>
     (\<forall>k. i \<le> k \<and> k < j \<longrightarrow> asks k = None \<and> \<not> ends k)"

definition no_error_line :: "string \<Rightarrow> bool" where
  "no_error_line l \<longleftrightarrow> str_find l ''Undefined command'' 0 = None"

lemma read_response_lines:
  assumes "scripted E says asks ends" and "\<forall>k. g_tick c \<le> k \<and> k \<le> g_tick c + length ls \<longrightarrow> says k = [] \<and> asks k = None \<and> \<not> ends k"
    and "list_all no_error_line ls" and "\<not> no_error_line u" and "\<not> m_gdbThreadShouldTerminate c"
    and "m_gdbOutputQueue c = ls @ u # q"
  shows "read_response E False acc c = Some (True, join newline (acc @ ls),
    c\<lparr>m_gdbOutputQueue := q, g_tick := g_tick c + length ls + 1\<rparr>)"
  using assms(2-)
proof (induction ls arbitrary: acc c)
  case Nil
  have "says (g_tick c) = [] \<and> asks (g_tick c) = None \<and> \<not> ends (g_tick c)" using Nil(1) by auto
  then show ?case using Nil
    by (subst read_response.simps) (simp add: Let_def look_undisturbed [OF assms(1)] no_error_line_def)
next
  case (Cons l ls)
  have s: "says (g_tick c) = [] \<and> asks (g_tick c) = None \<and> \<not> ends (g_tick c)" using Cons.prems(1) by auto
  let ?c = "c\<lparr>g_tick := Suc (g_tick c), m_gdbOutputQueue := ls @ u # q\<rparr>"
  have "read_response E False acc c = read_response E False (acc @ [l]) ?c"
    using s Cons.prems by (subst read_response.simps) (simp add: Let_def look_undisturbed [OF assms(1)] no_error_line_def)
  also have "\<dots> = Some (True, join newline ((acc @ [l]) @ ls), ?c\<lparr>m_gdbOutputQueue := q, g_tick := g_tick ?c + length ls + 1\<rparr>)"
  proof (rule Cons.IH)
    show "\<forall>k. g_tick ?c \<le> k \<and> k \<le> g_tick ?c + length ls \<longrightarrow> says k = [] \<and> asks k = None \<and> \<not> ends k"
      using Cons.prems(1) by auto
  qed (use Cons.prems in simp_all)
  finally show ?case by simp
qed

text \<open>A command is answered by the lines up to the complaint about the one that follows it.\<close>

lemma sendCommand_answered:
  assumes S: "scripted E says asks ends" and "m_gdbOutputQueue c = []" and "\<not> m_gdbThreadShouldTerminate c"
    and "cmd \<noteq> []" and "length cmd \<le> 1000" and "says_at says asks ends (g_tick c) [] (g_tick c + 2)"
    and "says_at says asks ends (g_tick c + 2) (ls @ [u]) (g_tick c + 5 + length ls)"
    and "list_all no_error_line ls" and "\<not> no_error_line u"
  shows "sendCommandToGDBAndWaitForResponse E cmd resp z c = Some (True, join newline ls,
    c\<lparr>m_ostreamToGdb := m_ostreamToGdb c @ (if z then [Interrupted] else []) @ [Typed cmd, Typed (newline @ ''fluffi'' @ newline)],
      g_tick := g_tick c + 5 + length ls\<rparr>)"
proof -
  let ?k = "g_tick c"
  have q: "says ?k = [] \<and> asks ?k = None \<and> \<not> ends ?k" "says (Suc ?k) = [] \<and> asks (Suc ?k) = None \<and> \<not> ends (Suc ?k)"
    "says (Suc (Suc ?k)) = ls @ [u] \<and> asks (Suc (Suc ?k)) = None \<and> \<not> ends (Suc (Suc ?k))"
    using assms(6,7) by (auto simp: says_at_def)
  have r: "\<forall>k. ?k + 3 \<le> k \<and> k < ?k + 5 + length ls \<longrightarrow> says k = [] \<and> asks k = None \<and> \<not> ends k"
    using assms(7) by (auto simp: says_at_def)
  then have q3: "says (Suc (Suc (Suc ?k))) = [] \<and> asks (Suc (Suc (Suc ?k))) = None \<and> \<not> ends (Suc (Suc (Suc ?k)))" by simp
  have p: "pieces_of cmd = [cmd]" using assms(4,5) by (simp add: pieces_of.simps [of cmd] pieces_of.simps [of "[]"])
  define c0 where "c0 = c\<lparr>m_ostreamToGdb := m_ostreamToGdb c @ (if z then [Interrupted] else []) @
    [Typed cmd, Typed (newline @ ''fluffi'' @ newline)]\<rparr>"
  have c0: "g_tick c0 = ?k" "m_gdbOutputQueue c0 = []" "\<not> m_gdbThreadShouldTerminate c0"
    using assms(2,3) by (simp_all add: c0_def)
  let ?c1 = "c0\<lparr>g_tick := Suc (Suc ?k)\<rparr>"
  let ?c2 = "c0\<lparr>g_tick := Suc (Suc (Suc ?k)), m_gdbOutputQueue := ls @ [u]\<rparr>"
  have w: "waitForTerminateOrNewMessageOrCovStateChange E [] ?c1 = Some ?c2"
    using c0 q by (subst waitForTerminateOrNewMessageOrCovStateChange.simps) (simp add: Let_def look_undisturbed [OF S])
  have l: "look E ?c2 = ?c2\<lparr>g_tick := Suc (Suc (Suc (Suc ?k)))\<rparr>" using c0 q3 by (simp add: look_undisturbed [OF S])
  have "\<not> m_gdbThreadShouldTerminate (look E ?c2)" using c0 by (simp add: l)
  then have "read_response E True [] ?c1 = read_response E False [] (look E ?c2)"
    by (subst read_response.simps) (simp only: w if_True if_False Let_def Option.bind.bind_lunit)
  also have "\<dots> = Some (True, join newline ([] @ ls), (look E ?c2)\<lparr>m_gdbOutputQueue := [], g_tick := g_tick (look E ?c2) + length ls + 1\<rparr>)"
    by (rule read_response_lines [OF S _ assms(8,9)]) (use r c0 in \<open>simp_all add: l\<close>)
  also have "(look E ?c2)\<lparr>m_gdbOutputQueue := [], g_tick := g_tick (look E ?c2) + length ls + 1\<rparr> = c0\<lparr>g_tick := ?k + 5 + length ls\<rparr>"
    unfolding l using c0 by (cases c0) simp
  finally have rr: "read_response E True [] ?c1 = Some (True, join newline ls, c0\<lparr>g_tick := ?k + 5 + length ls\<rparr>)" by simp
  have "type_text (newline @ ''fluffi'' @ newline) (snd (type_pieces E (pieces_of cmd) (if z then (look E c)\<lparr>m_ostreamToGdb := m_ostreamToGdb (look E c) @ [Interrupted]\<rparr> else look E c))) = ?c1"
    using assms(2,3) q(1,2) by (cases c) (simp add: look_undisturbed [OF S] p type_text_def c0_def)
  moreover have "fst (type_pieces E (pieces_of cmd) (if z then (look E c)\<lparr>m_ostreamToGdb := m_ostreamToGdb (look E c) @ [Interrupted]\<rparr> else look E c))"
    using assms(2,3) q(1,2) by (simp add: look_undisturbed [OF S] p)
  moreover have "m_gdbOutputQueue (look E c) = []" using assms(2) q(1) by (simp add: look_undisturbed [OF S])
  ultimately have "sendCommandToGDBAndWaitForResponse E cmd resp z c = read_response E True [] ?c1"
    using assms(4) by (simp add: sendCommandToGDBAndWaitForResponse_def Let_def split_beta del: type_pieces.simps)
  with rr show ?thesis by (simp add: c0_def)
qed

end
