(* ===== verification/TRGdbProps.thy ===== *)
theory TRGdbProps
  imports TRGdbReport TRProps TRFedProps
begin

text \<open>
  Properties of the executor that drives a debugger: its breakpoints and the memory of the target, the coverage it
  reports, the output of GDB that it reads, and the result of a target that ends by itself.
\<close>

section \<open>Breakpoints and coverage\<close>


definition gdw_b :: GDBBreakpoint where
  "gdw_b = \<lparr>m_absoluteAdress = 0x401000, m_originalBytes = 0x55, m_fbb = FluffiBasicBlock 0x1000 1, m_isEnabled = False\<rparr>"

text \<open>GDB complains about \<open>fluffi\<close> when it has read the command, at the look with the number 6.\<close>

definition gdw_complaint :: string where
  "gdw_complaint = ''Undefined command: fluffi.''"



definition gdw_c :: GDBThreadCommunication where
  "gdw_c = new_GDBThreadCommunication\<lparr>m_coverageState := SHOULD_RESET_HARD\<rparr>"


lemma gdw_complaint: "\<not> no_error_line gdw_complaint"
  by (simp add: no_error_line_def gdw_complaint_def str_find_def starts_with_def)



text \<open>
  C31: When GDB's output is a sequence of stops at breakpoints and the executor then asks for the coverage, it gets
  exactly the blocks of these breakpoints; the breakpoints are disabled, and GDB was told for each stop, in their order,
  to restore the instruction and to run on from it.
\<close>

theorem stops_are_reported:
  assumes "silent_during E (g_tick c) (g_tick c + 2 * length hs + 2)" and "c_type n = Some ctype" and "list_all2 (is_hit bps) hs bs"
    and "m_gdbOutputQueue c = concat (map (\<lambda>h. [fst h, snd h]) hs)" and "m_coverageState c = SHOULD_DUMP"
  shows "\<exists>d1 c1 c2. consumeGDBOutputQueue E n (bps, []) c = Some (True, d1, c1) \<and>
    handle_coverage E instr n d1 (look E c1) = Some (True, d1, c2) \<and>
    set (reported c2) = m_fbb ` set bs \<and> oset_by (\<lambda>b. b) (reported c2) \<and> m_coverageState c2 = DUMPED \<and>
    (\<forall>b \<in> set (fst d1). m_absoluteAdress b \<in> m_absoluteAdress ` set bs \<longrightarrow> \<not> m_isEnabled b) \<and>
    m_ostreamToGdb c2 = m_ostreamToGdb c @ concat (map (restore_inputs ctype) bs) \<and> m_gdbOutputQueue c2 = []"
proof -
  let ?bps = "fold (\<lambda>b. disable_at (m_absoluteAdress b)) bs bps" and ?cov = "fold (set_insert (\<lambda>b. b)) (map m_fbb bs) []"
  let ?c1 = "c\<lparr>m_gdbOutputQueue := [], m_ostreamToGdb := m_ostreamToGdb c @ concat (map (restore_inputs ctype) bs),
    g_tick := g_tick c + 2 * length hs + 1\<rparr>"
  have "silent_during E (g_tick c) (g_tick c + 2 * length hs + 1)" using assms(1) by (auto simp: silent_during_def)
  from consume_hits [OF this assms(2,3) refl assms(4)]
  have q: "consumeGDBOutputQueue E n (bps, []) c = Some (True, (?bps, ?cov), ?c1)" .
  have l: "look E ?c1 = ?c1\<lparr>g_tick := Suc (g_tick ?c1)\<rparr>" by (rule look_silent [OF assms(1)]) simp_all
  define c2 where "c2 = look E ?c1"
  have c2: "m_coverageState c2 = SHOULD_DUMP" "m_gdbOutputQueue c2 = []"
    "m_ostreamToGdb c2 = m_ostreamToGdb c @ concat (map (restore_inputs ctype) bs)"
    unfolding c2_def l using assms(5) by simp_all
  have d: "handle_coverage E instr n (?bps, ?cov) c2 = Some (True, (?bps, ?cov), dump_coverage ?cov c2)"
    using c2(1) by (simp add: handle_coverage_def)
  have c: "set ?cov = m_fbb ` set bs" "oset_by (\<lambda>b. b) ?cov"
    using fold_set_insert_set [of "map m_fbb bs" "[]"] fold_set_insert_oset [of "\<lambda>b. b" "[]" "map m_fbb bs"] by simp_all
  have "\<forall>b \<in> set ?bps. m_absoluteAdress b \<in> m_absoluteAdress ` set bs \<longrightarrow> \<not> m_isEnabled b"
  proof -
    have keep: "\<forall>b \<in> set xs. m_absoluteAdress b \<in> A \<longrightarrow> \<not> m_isEnabled b \<Longrightarrow>
        \<forall>b \<in> set (fold (\<lambda>b. disable_at (m_absoluteAdress b)) bs xs). m_absoluteAdress b \<in> A \<union> m_absoluteAdress ` set bs \<longrightarrow> \<not> m_isEnabled b"
      for xs A bs
    proof (induction bs arbitrary: xs A)
      case (Cons b bs)
      have "\<forall>x \<in> set (disable_at (m_absoluteAdress b) xs). m_absoluteAdress x \<in> insert (m_absoluteAdress b) A \<longrightarrow> \<not> m_isEnabled x"
        using Cons.prems by (auto simp: disable_at_def)
      from Cons.IH [OF this] show ?case by (simp add: insert_commute)
    qed simp
    from keep [of bps "{}" bs] show ?thesis by simp
  qed
  with q d c c2 show ?thesis
    by (intro exI [of _ "(?bps, ?cov)"] exI [of _ ?c1] exI [of _ "dump_coverage ?cov c2"] conjI)
      (simp_all add: c2_def [symmetric] del: One_nat_def, simp_all add: dump_coverage_def)
qed

definition gdw_quiet :: gdb_env where
  "gdw_quiet = \<lparr>g_others = (\<lambda>_ c. c), g_inits = True, g_runs = True, g_initFile = Some []\<rparr>"

definition gdw_hit :: "string \<times> string" where
  "gdw_hit = (''Program received signal SIGTRAP, Trace/breakpoint trap.'', ''0x0000000000401001 in main ()'')"

lemma gdw_is_hit: "list_all2 (is_hit [gdw_b\<lparr>m_isEnabled := True\<rparr>]) [gdw_hit] [gdw_b\<lparr>m_isEnabled := True\<rparr>]"
proof -
  let ?b = "gdw_b\<lparr>m_isEnabled := True\<rparr>"
  have "substr (fst gdw_hit) 0 23 = ''Program received signal''" "signal_name (fst gdw_hit) = Some ''SIGTRAP''"
    "substr ''SIGTRAP'' 0 7 = ''SIGTRAP''" "substr (snd gdw_hit) 0 2 = ''0x''" by code_simp+
  moreover have "replicate 10 (CHR ''0'') = ''0000000000''" by (simp add: numeral_eq_Suc)
  then have "snd gdw_hit = address_text 10 0x401001 @ '' in main ()''"
    by (simp add: gdw_hit_def address_text_def to_hex.simps)
  then have "stoull_hex (snd gdw_hit) = Some 0x401001" using stoull_hex_address(1) by (simp add: hex_digit_value_def)
  moreover have "known_breakpoint [?b] 0x401001 = Some ?b" by (simp add: known_breakpoint_def breakpoint_at_def gdw_b_def)
  ultimately show "list_all2 (is_hit [?b]) [gdw_hit] [?b]" by (simp add: is_hit_def)
qed

theorem stops_are_reported_witness:
  "\<exists>d1 c1 c2. consumeGDBOutputQueue gdw_quiet 1 ([gdw_b\<lparr>m_isEnabled := True\<rparr>], [])
      (gdw_c\<lparr>m_coverageState := SHOULD_DUMP, m_gdbOutputQueue := [fst gdw_hit, snd gdw_hit]\<rparr>) = Some (True, d1, c1) \<and>
    handle_coverage gdw_quiet 0xCC 1 d1 (look gdw_quiet c1) = Some (True, d1, c2) \<and> set (reported c2) = {FluffiBasicBlock 0x1000 1}"
proof -
  have "silent_during gdw_quiet i j" "c_type 1 = Some ''unsigned char''" for i j
    by (simp_all add: silent_during_def gdw_quiet_def c_type_def)
  from stops_are_reported [OF this gdw_is_hit, of "gdw_c\<lparr>m_coverageState := SHOULD_DUMP, m_gdbOutputQueue := [fst gdw_hit, snd gdw_hit]\<rparr>" "0xCC"]
  show ?thesis by (simp add: gdw_b_def) blast
qed

section \<open>GDB's output\<close>

text \<open>
  C32: The list of files that GDB prints is read back: from the text of a process and the segments of its files the
  thread gets exactly these segments, in their order, with their addresses, names and directories; the segments of the
  process itself get the file that was named first.
\<close>

theorem info_files_roundtrip:
  assumes "file_ok proc" and "list_all (entry_ok k proc) es" and "CHR 0x0A \<notin> set filetype"
  shows "parseInfoFiles (info_files_text k filetype proc es) = Some es"
  by (rule parseInfoFiles_text [OF assms])

definition gdw_proc :: "string \<times> string" where
  "gdw_proc = (''/opt/t'', ''main'')"

definition gdw_es :: "tModuleInformation list" where
  "gdw_es = [(0x401000, 0x4010F5, ''main'', ''.text'', ''/opt/t''), (0x7FFFF7DD5000, 0x7FFFF7DF0000, ''libc.so'', ''.text'', ''/lib'')]"

theorem info_files_roundtrip_witness:
  "parseInfoFiles (info_files_text 2 ''elf64-x86-64'' gdw_proc gdw_es) = Some gdw_es \<and> length gdw_es = 2"
proof -
  have f: "file_ok gdw_proc" "file_ok (''/lib'', ''libc.so'')" by code_simp+
  have seg: "''.text'' \<noteq> s @ ''in''" for s :: string
  proof
    assume "''.text'' = s @ ''in''"
    then have "last ''.text'' = last (s @ ''in'')" by (rule arg_cong)
    then show False by simp
  qed
  have "CHR ''y'' \<notin> set (segment_text 2 gdw_proc e)" if "e \<in> set gdw_es" for e
    using that by (auto simp: gdw_es_def gdw_proc_def file_path_def not_in_address hex_digit_value_def)
  then have "str_find (segment_text 2 gdw_proc e) ''file type'' 0 = None" if "e \<in> set gdw_es" for e
    using that by (intro str_find_absent [of "CHR ''y''"]) simp_all
  moreover have "list_all (\<lambda>c. \<not> is_blank c) ''.text''" by (simp add: is_blank_def)
  ultimately have "entry_ok 2 gdw_proc e" if "e \<in> set gdw_es" for e
    using that f seg by (auto simp: gdw_es_def gdw_proc_def simp del: segment_text.simps)
  with info_files_roundtrip [OF f(1), of 2 gdw_es "''elf64-x86-64''"] show ?thesis
    by (simp add: list_all_iff gdw_es_def)
qed

definition read_pieces :: "bytes list \<Rightarrow> string \<Rightarrow> GDBThreadCommunication \<Rightarrow> string \<times> GDBThreadCommunication" where
  "read_pieces ps rest c = fold (\<lambda>p (rest, c). snd (gdbLinereader_round (Some p) rest c)) ps (rest, c)"

text \<open>
  C33: It does not matter in which pieces GDB's output arrives: after the last piece the queue has the same lines, and
  the same part of a line is left over, as if it had been read at once.
\<close>

theorem output_read_in_any_pieces:
  assumes "concat ps = concat qs" and "CHR 0x0A \<notin> set rest"
  shows "read_pieces ps rest c = read_pieces qs rest c"
proof -
  have g: "read_pieces ps rest c = snd (gdbLinereader_round (Some (concat ps)) rest c)" if "CHR 0x0A \<notin> set rest" for ps
    using that
  proof (induction ps arbitrary: rest c)
    case Nil
    then show ?case by (simp add: read_pieces_def gdbLinereader_round_def read_lines.simps [of rest] Let_def)
  next
    case (Cons p ps)
    obtain rest1 c1 where r: "gdbLinereader_round (Some p) rest c = (True, rest1, c1)"
      by (simp add: gdbLinereader_round_def split_beta Let_def)
    have "CHR 0x0A \<notin> set rest1" using r read_lines_rest [of "rest @ p"] by (auto simp: gdbLinereader_round_def split_beta Let_def)
    from Cons.IH [OF this, of c1] gdbLinereader_round_twice [OF r, of "concat ps"] r
    show ?case by (simp add: read_pieces_def)
  qed
  show ?thesis using g [OF assms(2), of ps] g [OF assms(2), of qs] assms(1) by simp
qed

theorem output_read_in_any_pieces_witness:
  "read_pieces [''(gd'', ''b) Brea'', [CHR ''k'', CHR 0x0A, CHR ''x'']] [] gdw_c = read_pieces [''(gdb) Break'' @ newline @ ''x''] [] gdw_c"
  by (rule output_read_in_any_pieces) simp_all

text \<open>
  C34: Whatever GDB prints and whatever the executor asks for, the blocks that the thread reports are blocks that it was
  to cover, each once and in order.
\<close>

theorem only_blocks_to_cover_reported:
  assumes "debuggerThreadMain E modules blocks instr n c = Some c'" and "no_one_reports E" and "reported c = []"
  shows "set (reported c') \<subseteq> set blocks \<and> oset_by (\<lambda>b. b) (reported c')"
  using debuggerThreadMain_reports [OF assms] by (simp add: reports_only_def)

text \<open>
  A whole run of the thread: GDB answers, the executor asks for a hard reset, the breakpoint is hit, the executor asks for
  the coverage and for the end.
\<close>

definition gdx_block :: FluffiBasicBlock where
  "gdx_block = FluffiBasicBlock 0x1000 1"

definition gdx_es :: "tModuleInformation list" where
  "gdx_es = [(0x400000, 0x4010F5, ''main'', ''.text'', ''/opt/t'')]"

definition gdx_says :: "nat \<Rightarrow> string list" where
  "gdx_says k =
     (if k = 2 \<or> k = 38 then [gdw_complaint]
      else if k = 8 then [''rax 0x0'', gdw_complaint]
      else if k = 14 then [''Local exec file:'', CHR 0x09 # CHR 0x60 # file_path gdw_proc @ CHR 0x27 # '', file type elf.'',
        CHR 0x09 # segment_text 0 gdw_proc (hd gdx_es), gdw_complaint]
      else if k = 22 then [''* 1 process 77'', gdw_complaint]
      else if k = 28 then [''0x401000: 0x55'', gdw_complaint]
      else if k = 41 then [fst gdw_hit, snd gdw_hit] else [])"

definition gdx_asks :: "nat \<Rightarrow> COVERAGE_STATE option" where
  "gdx_asks k = (if k = 32 then Some SHOULD_RESET_HARD else if k = 47 then Some SHOULD_DUMP else None)"

definition gdx_ends :: "nat \<Rightarrow> bool" where
  "gdx_ends k \<longleftrightarrow> k = 51"

definition gdx_E :: gdb_env where
  "gdx_E = \<lparr>g_others = (\<lambda>k c. c\<lparr>m_gdbOutputQueue := m_gdbOutputQueue c @ gdx_says k,
     m_coverageState := (case gdx_asks k of None \<Rightarrow> m_coverageState c | Some s \<Rightarrow> s),
     m_gdbThreadShouldTerminate := m_gdbThreadShouldTerminate c \<or> gdx_ends k\<rparr>),
     g_inits = True, g_runs = True, g_initFile = Some []\<rparr>"

lemma gdx_env: "g_inits gdx_E" "g_runs gdx_E" "g_initFile gdx_E = Some []"
  by (simp_all add: gdx_E_def)

lemma gdx_scripted: "scripted gdx_E gdx_says gdx_asks gdx_ends"
  by (simp add: scripted_def gdx_E_def)

text \<open>The state of the shared object when nothing is waiting.\<close>

definition idle :: "nat \<Rightarrow> COVERAGE_STATE \<Rightarrow> DebugExecutionOutput \<Rightarrow> GDBThreadCommunication \<Rightarrow> bool" where
  "idle k s out c \<longleftrightarrow> m_gdbOutputQueue c = [] \<and> \<not> m_gdbThreadShouldTerminate c \<and> g_tick c = k \<and> m_coverageState c = s \<and> m_exOutput c = out"

lemma idle_look:
  "idle k s out c \<Longrightarrow> gdx_says k = [] \<Longrightarrow> gdx_asks k = None \<Longrightarrow> \<not> gdx_ends k \<Longrightarrow> idle (Suc k) s out (look gdx_E c)"
  by (simp add: idle_def look_undisturbed [OF gdx_scripted])

lemma idle_type: "idle k s out c \<Longrightarrow> idle k s out (type_text t c)"
  by (simp add: idle_def type_text_def)

lemma idle_command:
  assumes "idle k s out c" and "cmd \<noteq> []" and "length cmd \<le> 1000" and "says_at gdx_says gdx_asks gdx_ends k [] (k + 2)"
    and "says_at gdx_says gdx_asks gdx_ends (k + 2) (ls @ [gdw_complaint]) (k + 5 + length ls)" and "list_all no_error_line ls"
  shows "\<exists>c'. sendCommandToGDBAndWaitForResponse gdx_E cmd resp z c = Some (True, join newline ls, c') \<and> idle (k + 5 + length ls) s out c'"
proof -
  have t: "g_tick c = k" and q: "m_gdbOutputQueue c = []" "\<not> m_gdbThreadShouldTerminate c" using assms(1) by (simp_all add: idle_def)
  show ?thesis
    using sendCommand_answered [OF gdx_scripted q assms(2,3) assms(4) [folded t] assms(5) [folded t] assms(6) gdw_complaint] assms(1)
    by (intro exI conjI) (assumption | simp add: idle_def)+
qed

lemma idle_ask:
  assumes "idle k s out c" and "cmd \<noteq> []" and "length cmd \<le> 1000" and "says_at gdx_says gdx_asks gdx_ends k [] (k + 2)"
    and "says_at gdx_says gdx_asks gdx_ends (k + 2) (ls @ [gdw_complaint]) (k + 5 + length ls)" and "list_all no_error_line ls"
  shows "\<exists>c'. ask_gdb gdx_E cmd pr resp c = Some (Some (join newline ls), c') \<and> idle (k + 5 + length ls) s out c'"
  using idle_command [OF assms, of resp False] by (auto simp: ask_gdb_def)

lemma and_then_Some: "m = Some (Some x, c) \<Longrightarrow> and_then m k = k x c"
  by (simp add: and_then_def)

definition gdx_modules :: "Module list" where
  "gdx_modules = [Module ''main/.text'' ''*'' 1]"

lemma gdx_info: "join newline [''Local exec file:'', CHR 0x09 # CHR 0x60 # file_path gdw_proc @ CHR 0x27 # '', file type elf.'',
    CHR 0x09 # segment_text 0 gdw_proc (hd gdx_es)] = info_files_text 0 ''elf'' gdw_proc gdx_es"
  by (simp add: info_files_text_def gdx_es_def)

lemma gdx_file: "file_ok gdw_proc" "file_ok (''/opt/t'', ''main'')"
  by code_simp+

lemma gdx_segment_free: "c \<in> {CHR ''y'', CHR ''U''} \<Longrightarrow> c \<notin> set (segment_text 0 gdw_proc (hd gdx_es))"
  by (auto simp: gdx_es_def gdw_proc_def not_in_address hex_digit_value_def)

lemma gdx_parse: "parseInfoFiles (info_files_text 0 ''elf'' gdw_proc gdx_es) = Some gdx_es"
proof -
  have "str_find (segment_text 0 gdw_proc (hd gdx_es)) ''file type'' 0 = None"
    by (rule str_find_absent [of "CHR ''y''"]) (use gdx_segment_free in simp_all)
  moreover have "''.text'' \<noteq> s @ ''in''" for s :: string
  proof
    assume "''.text'' = s @ ''in''"
    then have "last ''.text'' = last (s @ ''in'')" by (rule arg_cong)
    then show False by simp
  qed
  ultimately have "list_all (entry_ok 0 gdw_proc) gdx_es"
    using gdx_file by (simp add: gdx_es_def is_blank_def del: segment_text.simps)
  then show ?thesis
    using gdx_file parseInfoFiles_text by simp
qed

lemma gdx_lines: "list_all no_error_line [''Local exec file:'', CHR 0x09 # CHR 0x60 # file_path gdw_proc @ CHR 0x27 # '', file type elf.'',
    CHR 0x09 # segment_text 0 gdw_proc (hd gdx_es)]"
proof -
  have "CHR ''U'' \<notin> set (file_path gdw_proc)" by (simp add: file_path_def gdw_proc_def)
  then show ?thesis
    using gdx_segment_free [of "CHR ''U''"] str_find_absent [of "CHR ''U''" "''Undefined command''"] by (simp add: no_error_line_def)
qed

lemma gdx_prepared:
  assumes "idle 5 DUMPED out c"
  shows "\<exists>c'. gdbPrepareForDebug gdx_E gdx_modules [gdx_block] 1 c = Some (Some [gdw_b], c') \<and> idle 32 DUMPED (out\<lparr>m_PID := 77\<rparr>) c'"
proof -
  have l: "idle 6 DUMPED out (look gdx_E c)" "m_gdbOutputQueue (look gdx_E c) = []"
    using idle_look [OF assms] by (simp_all add: gdx_says_def gdx_asks_def gdx_ends_def idle_def)
  have n: "no_error_line ''rax 0x0''" "no_error_line ''* 1 process 77''" "no_error_line ''0x401000: 0x55''"
    "no_error_line ''Local exec file:''" by code_simp+
  note says = says_at_def gdx_says_def gdx_asks_def gdx_ends_def
  obtain c1 where a1: "ask_gdb gdx_E ''i r'' ''gdbPrepareForDebug: first \"i r\" failed'' [] (look gdx_E c) = Some (Some ''rax 0x0'', c1)"
    and i1: "idle 12 DUMPED out c1"
    using idle_ask [OF l(1), of "''i r''" "[''rax 0x0'']"] n by (auto simp: says)
  have "str_find ''rax 0x0'' ''no registers now'' 0 = None" by code_simp
  then have s1: "start_unless_attached gdx_E ''rax 0x0'' c1 = Some (Some ''rax 0x0'', c1)" "prints_registers ''rax 0x0''"
    by (simp add: start_unless_attached_def) code_simp
  let ?files = "[''Local exec file:'', CHR 0x09 # CHR 0x60 # file_path gdw_proc @ CHR 0x27 # '', file type elf.'',
    CHR 0x09 # segment_text 0 gdw_proc (hd gdx_es)]"
  obtain c2 where a2: "ask_gdb gdx_E ''info files'' ''gdbPrepareForDebug: \"info files\" failed'' [] c1 = Some (Some (join newline ?files), c2)"
    and i2: "idle 20 DUMPED out c2"
    using idle_ask [OF i1, of "''info files''" ?files] gdx_lines by (auto simp: says)
  have m2: "find_modules gdx_E gdx_modules c1 = Some (Some [(1, 0x400000)], c2)"
  proof -
    have "getBaseAddressesForModules gdx_modules (info_files_text 0 ''elf'' gdw_proc gdx_es) = Some [(1, 0x400000)]"
      unfolding getBaseAddressesForModules_def gdx_parse
      by (simp add: gdx_modules_def gdx_es_def is_null_module_def add_base_def)
    then show ?thesis unfolding find_modules_def and_then_Some [OF a2] gdx_info by (simp add: gdx_modules_def)
  qed
  obtain c3 where a3: "ask_gdb gdx_E ''info inferior'' ''gdbPrepareForDebug: \"info inferior\" failed'' ''rax 0x0'' c2 =
      Some (Some ''* 1 process 77'', c3)"
    and i3: "idle 26 DUMPED out c3"
    using idle_ask [OF i2, of "''info inferior''" "[''* 1 process 77'']"] n by (auto simp: says)
  have "target_pid ''* 1 process 77'' out = Some (out\<lparr>m_PID := 77\<rparr>)"
  proof -
    have "str_find ''* 1 process 77'' ''process'' 0 = Some 4" "stoi (drop 11 ''* 1 process 77'') = Some 77" by code_simp+
    then show ?thesis by (simp add: target_pid_def)
  qed
  then have p3: "target_pid ''* 1 process 77'' (m_exOutput c3) = Some (out\<lparr>m_PID := 77\<rparr>)" using i3 by (simp add: idle_def)
  let ?c3 = "c3\<lparr>m_exOutput := out\<lparr>m_PID := 77\<rparr>\<rparr>"
  have i4: "idle 26 DUMPED (out\<lparr>m_PID := 77\<rparr>) ?c3" using i3 by (simp add: idle_def)
  have x: "x_commands 1 [(1, 0x400000)] [gdx_block] = Some [''x/1xb 0x401000'']"
    by (simp add: x_command_def block_address_def base_at_def gdx_block_def hex_text_def to_hex.simps)
  obtain c4 where a4: "ask_gdb gdx_E (join newline [''x/1xb 0x401000'']) ''gdbPrepareForDebug: getting all real breakpoint bytes failed''
      ''* 1 process 77'' ?c3 = Some (Some ''0x401000: 0x55'', c4)"
    and i5: "idle 32 DUMPED (out\<lparr>m_PID := 77\<rparr>) c4"
    using idle_ask [OF i4, of "''x/1xb 0x401000''" "[''0x401000: 0x55'']"] n by (auto simp: says)
  have r: "read_original_bytes [(1, 0x400000)] [gdx_block] (splitString ''0x401000: 0x55'' newline) [] = Some [gdw_b]"
  proof -
    have t: "''0x401000: 0x55'' = address_text 0 0x401000 @ '': 0x55''" "'' 0x55'' = CHR '' '' # address_text 0 0x55 @ []"
      by (simp_all add: address_text_def to_hex.simps)
    have "stoull_hex ''0x401000: 0x55'' = Some 0x401000"
      unfolding t(1) by (rule stoull_hex_address) (simp add: hex_digit_value_def)
    moreover have "stoull_hex '' 0x55'' = Some 0x55" unfolding t(2) by (rule stoull_hex_address) simp
    moreover have "find_char (CHR '':'') ''0x401000: 0x55'' = Some 8" by code_simp
    moreover have "splitString ''0x401000: 0x55'' newline = [''0x401000: 0x55'']"
      using splitString_join [of "[''0x401000: 0x55'']" "CHR 0x0A"] by simp
    ultimately show ?thesis by (simp add: block_address_def base_at_def gdx_block_def gdw_b_def)
  qed
  have f: "find_breakpoints gdx_E 1 [(1, 0x400000)] [gdx_block] ''* 1 process 77'' ?c3 = Some (Some [gdw_b], c4)"
    unfolding find_breakpoints_def x Option.bind.bind_lunit and_then_Some [OF a4] r by simp
  have "gdbPrepareForDebug gdx_E gdx_modules [gdx_block] 1 c = Some (Some [gdw_b], c4)"
    unfolding gdbPrepareForDebug_def Let_def l(2) list.case and_then_Some [OF a1] and_then_Some [OF s1(1)]
    using s1(2) by (simp add: and_then_Some [OF m2] and_then_Some [OF a3] p3 f)
  with i5 show ?thesis by blast
qed

definition nothing_at :: "nat \<Rightarrow> bool" where
  "nothing_at k \<longleftrightarrow> gdx_says k = [] \<and> gdx_asks k = None \<and> \<not> gdx_ends k"

lemma idle_quiet: "idle k s out c \<Longrightarrow> nothing_at k \<Longrightarrow> idle (Suc k) s out (look gdx_E c)"
  by (simp add: nothing_at_def idle_look)

lemma idle_consume:
  assumes "idle k s out c" and "nothing_at k" shows "\<exists>c'. consumeGDBOutputQueue gdx_E n d c = Some (True, d, c') \<and> idle (Suc k) s out c'"
  using idle_quiet [OF assms] by (subst consumeGDBOutputQueue.simps) (simp add: Let_def idle_def)

lemma gdx_round:
  assumes "waitForTerminateOrNewMessageOrCovStateChange gdx_E [SHOULD_DUMP, SHOULD_RESET_HARD, SHOULD_RESET_SOFT] c = Some c1"
    and "idle k s out c1" and "nothing_at k" and "nothing_at (Suc k)" and "nothing_at (Suc (Suc k))"
  shows "\<exists>c2. idle (Suc (Suc (Suc k))) s out c2 \<and> gdb_loop gdx_E instr n d c = do {
     (goes_on, d, c) \<leftarrow> handle_coverage gdx_E instr n d c2;
     if \<not> goes_on then Some c else gdb_loop gdx_E instr n d c
   }"
proof -
  have l: "idle (Suc k) s out (look gdx_E c1)" by (rule idle_quiet [OF assms(2,3)])
  then have nt: "\<not> m_gdbThreadShouldTerminate (look gdx_E c1)" by (simp add: idle_def)
  obtain c2 where c2: "consumeGDBOutputQueue gdx_E n d (look gdx_E c1) = Some (True, d, c2)" "idle (Suc (Suc k)) s out c2"
    using idle_consume [OF l assms(4)] by blast
  have "gdb_loop gdx_E instr n d c = do {
     (goes_on, d, c) \<leftarrow> handle_coverage gdx_E instr n d (look gdx_E c2);
     if \<not> goes_on then Some c else gdb_loop gdx_E instr n d c
   }"
    using nt by (subst gdb_loop.simps) (simp only: assms(1) Let_def Option.bind.bind_lunit c2(1) prod.case if_False not_True_eq_False)
  with idle_quiet [OF c2(2) assms(5)] show ?thesis by blast
qed

text \<open>The executor asks at the look with the number \<open>k\<close>.\<close>

lemma gdx_asked:
  assumes "idle k s0 out c" and "gdx_asks k = Some s" and "gdx_says k = []" and "\<not> gdx_ends k"
    and "s \<in> {SHOULD_DUMP, SHOULD_RESET_HARD, SHOULD_RESET_SOFT}"
  shows "\<exists>c1. waitForTerminateOrNewMessageOrCovStateChange gdx_E [SHOULD_DUMP, SHOULD_RESET_HARD, SHOULD_RESET_SOFT] c = Some c1 \<and>
    idle (Suc k) s out c1"
  using assms by (subst waitForTerminateOrNewMessageOrCovStateChange.simps)
    (auto simp: Let_def idle_def look_scripted [OF gdx_scripted])

lemmas gdx_script = nothing_at_def gdx_says_def gdx_asks_def gdx_ends_def

lemma gdx_reset:
  assumes "idle 32 s0 out c"
  shows "\<exists>c'. gdb_loop gdx_E 0xCC 1 ([gdw_b], []) c = gdb_loop gdx_E 0xCC 1 ([gdw_b\<lparr>m_isEnabled := True\<rparr>], []) c' \<and>
    idle 41 RESETTED out c'"
proof -
  let ?s = "set_command ''unsigned char'' 0x401000 0xCC"
  obtain c1 where c1: "waitForTerminateOrNewMessageOrCovStateChange gdx_E [SHOULD_DUMP, SHOULD_RESET_HARD, SHOULD_RESET_SOFT] c = Some c1"
    "idle 33 SHOULD_RESET_HARD out c1" using gdx_asked [OF assms, of SHOULD_RESET_HARD] by (auto simp: gdx_script)
  obtain c2 where c2: "idle 36 SHOULD_RESET_HARD out c2" and r: "gdb_loop gdx_E 0xCC 1 ([gdw_b], []) c = do {
     (goes_on, d, c) \<leftarrow> handle_coverage gdx_E 0xCC 1 ([gdw_b], []) c2;
     if \<not> goes_on then Some c else gdb_loop gdx_E 0xCC 1 d c
   }" using gdx_round [OF c1, where instr = "0xCC" and n = "1" and d = "([gdw_b], [])"] by (auto simp: gdx_script)
  have len: "length ?s \<le> 1000" "?s \<noteq> []" by (simp_all add: set_command_def hex_text_def to_hex.simps)
  have g: "generateEnableAllCommand [gdw_b] 0xCC 1 = Some (?s, [gdw_b\<lparr>m_isEnabled := True\<rparr>])"
    by (simp add: gdw_b_def c_type_def)
  obtain c3 where s: "sendCommandToGDBAndWaitForResponse gdx_E ?s [] True c2 = Some (True, join newline [], c3)"
    and c3: "idle 41 SHOULD_RESET_HARD out c3"
    using idle_command [OF c2 len(2,1), of "[]" "[]" True] by (auto simp: says_at_def gdx_script)
  have "enable_breakpoints gdx_E 1 ?s ([gdw_b\<lparr>m_isEnabled := True\<rparr>], []) c2 = Some (True, ([gdw_b\<lparr>m_isEnabled := True\<rparr>], []), c3)"
    by (subst enable_breakpoints.simps) (simp add: s)
  then have "handle_coverage gdx_E 0xCC 1 ([gdw_b], []) c2 = Some (True, ([gdw_b\<lparr>m_isEnabled := True\<rparr>], []),
      (type_text (''c'' @ newline) c3)\<lparr>m_coverageState := RESETTED\<rparr>)"
    using c2 by (simp add: handle_coverage_def g idle_def del: generateEnableAllCommand.simps)
  moreover have "idle 41 RESETTED out ((type_text (''c'' @ newline) c3)\<lparr>m_coverageState := RESETTED\<rparr>)"
    using c3 by (simp add: idle_def type_text_def)
  ultimately show ?thesis using r by (auto simp del: append.simps)
qed

lemma gdx_stop:
  assumes "idle 41 RESETTED out c"
  shows "\<exists>c'. gdb_loop gdx_E 0xCC 1 ([gdw_b\<lparr>m_isEnabled := True\<rparr>], []) c = gdb_loop gdx_E 0xCC 1 ([gdw_b], [gdx_block]) c' \<and>
    idle 47 RESETTED out c'"
proof -
  let ?b = "gdw_b\<lparr>m_isEnabled := True\<rparr>"
  let ?c1 = "c\<lparr>m_gdbOutputQueue := [fst gdw_hit, snd gdw_hit], g_tick := 42\<rparr>"
  let ?c2 = "c\<lparr>m_gdbOutputQueue := [fst gdw_hit, snd gdw_hit], g_tick := 43\<rparr>"
  have sil: "silent_during gdx_E 42 47"
    by (auto simp: silent_during_def gdx_E_def gdx_says_def gdx_asks_def gdx_ends_def)
  have "look gdx_E c = ?c1"
    using assms by (simp add: idle_def look_undisturbed [OF gdx_scripted] gdx_script)
  then have w: "waitForTerminateOrNewMessageOrCovStateChange gdx_E [SHOULD_DUMP, SHOULD_RESET_HARD, SHOULD_RESET_SOFT] c = Some ?c1"
    by (subst waitForTerminateOrNewMessageOrCovStateChange.simps) (simp add: Let_def)
  have l: "look gdx_E ?c1 = ?c2" by (subst look_silent [OF sil]) simp_all
  have nt: "\<not> m_gdbThreadShouldTerminate ?c2" using assms by (simp add: idle_def)
  have "silent_during gdx_E (g_tick ?c2) (g_tick ?c2 + 2 * length [gdw_hit] + 1)" using sil by (auto simp: silent_during_def)
  from consume_hits [OF this _ gdw_is_hit refl, of 1 "''unsigned char''" "[]"]
  obtain c3 where q: "consumeGDBOutputQueue gdx_E 1 ([?b], []) ?c2 = Some (True, ([gdw_b], [gdx_block]), c3)"
    and c3: "idle 46 RESETTED out c3"
    using assms by (simp add: c_type_def disable_at_def gdw_b_def gdx_block_def idle_def)
  have c4: "idle 47 RESETTED out (look gdx_E c3)" using idle_quiet [OF c3] by (simp add: gdx_script)
  have "handle_coverage gdx_E 0xCC 1 ([gdw_b], [gdx_block]) (look gdx_E c3) = Some (True, ([gdw_b], [gdx_block]), look gdx_E c3)"
    using c4 by (simp add: handle_coverage_def idle_def)
  then have "gdb_loop gdx_E 0xCC 1 ([?b], []) c = gdb_loop gdx_E 0xCC 1 ([gdw_b], [gdx_block]) (look gdx_E c3)"
    using nt by (subst gdb_loop.simps) (simp add: w l q)
  with c4 show ?thesis by blast
qed

lemma gdx_dump:
  assumes "idle 47 RESETTED out c"
  shows "\<exists>c'. gdb_loop gdx_E 0xCC 1 ([gdw_b], [gdx_block]) c = gdb_loop gdx_E 0xCC 1 ([gdw_b], [gdx_block]) c' \<and>
    reported c' = [gdx_block] \<and> g_tick c' = 51 \<and> \<not> m_gdbThreadShouldTerminate c' \<and> m_terminationType (m_exOutput c') = m_terminationType out"
proof -
  obtain c1 where c1: "waitForTerminateOrNewMessageOrCovStateChange gdx_E [SHOULD_DUMP, SHOULD_RESET_HARD, SHOULD_RESET_SOFT] c = Some c1"
    "idle 48 SHOULD_DUMP out c1" using gdx_asked [OF assms, of SHOULD_DUMP] by (auto simp: gdx_script)
  obtain c2 where c2: "idle 51 SHOULD_DUMP out c2" and r: "gdb_loop gdx_E 0xCC 1 ([gdw_b], [gdx_block]) c = do {
     (goes_on, d, c) \<leftarrow> handle_coverage gdx_E 0xCC 1 ([gdw_b], [gdx_block]) c2;
     if \<not> goes_on then Some c else gdb_loop gdx_E 0xCC 1 d c
   }" using gdx_round [OF c1, where instr = "0xCC" and n = "1" and d = "([gdw_b], [gdx_block])"] by (auto simp: gdx_script)
  have "handle_coverage gdx_E 0xCC 1 ([gdw_b], [gdx_block]) c2 = Some (True, ([gdw_b], [gdx_block]), dump_coverage [gdx_block] c2)"
    using c2 by (simp add: handle_coverage_def idle_def)
  then show ?thesis using r c2
    by (intro exI [of _ "dump_coverage [gdx_block] c2"]) (simp add: idle_def, simp add: dump_coverage_def addCoveredBasicBlock_def)
qed

lemma gdx_end:
  assumes "g_tick c = 51" and "\<not> m_gdbThreadShouldTerminate c"
  shows "\<exists>c'. gdb_loop gdx_E 0xCC 1 d c = Some c' \<and> m_exOutput c' = m_exOutput c"
proof -
  let ?ss = "[SHOULD_DUMP, SHOULD_RESET_HARD, SHOULD_RESET_SOFT]"
  have l: "m_gdbThreadShouldTerminate (look gdx_E c)" "g_tick (look gdx_E c) = 52" "m_exOutput (look gdx_E c) = m_exOutput c"
    using assms by (simp_all add: look_scripted [OF gdx_scripted] gdx_ends_def)
  then have w: "waitForTerminateOrNewMessageOrCovStateChange gdx_E ?ss c = Some (look gdx_E c)"
    by (subst waitForTerminateOrNewMessageOrCovStateChange.simps) (simp add: Let_def)
  have "m_gdbThreadShouldTerminate (look gdx_E (look gdx_E c))" "m_exOutput (look gdx_E (look gdx_E c)) = m_exOutput c"
    using l by (simp_all add: look_scripted [OF gdx_scripted, of "look gdx_E c"])
  then show ?thesis by (subst gdb_loop.simps) (simp add: w)
qed

lemma gdx_loop:
  assumes "idle 32 s out c" and "m_terminationType out = CLEAN"
  shows "\<exists>c'. gdb_loop gdx_E 0xCC 1 ([gdw_b], []) c = Some c' \<and> reported c' = [gdx_block] \<and> m_terminationType (m_exOutput c') = CLEAN"
proof -
  obtain c1 where c1: "gdb_loop gdx_E 0xCC 1 ([gdw_b], []) c = gdb_loop gdx_E 0xCC 1 ([gdw_b\<lparr>m_isEnabled := True\<rparr>], []) c1"
    "idle 41 RESETTED out c1" using gdx_reset [OF assms(1)] by blast
  obtain c2 where c2: "gdb_loop gdx_E 0xCC 1 ([gdw_b\<lparr>m_isEnabled := True\<rparr>], []) c1 = gdb_loop gdx_E 0xCC 1 ([gdw_b], [gdx_block]) c2"
    "idle 47 RESETTED out c2" using gdx_stop [OF c1(2)] by blast
  obtain c3 where c3: "gdb_loop gdx_E 0xCC 1 ([gdw_b], [gdx_block]) c2 = gdb_loop gdx_E 0xCC 1 ([gdw_b], [gdx_block]) c3"
    "reported c3 = [gdx_block]" "g_tick c3 = 51" "\<not> m_gdbThreadShouldTerminate c3" "m_terminationType (m_exOutput c3) = CLEAN"
    using gdx_dump [OF c2(2)] assms(2) by auto
  obtain c4 where c4: "gdb_loop gdx_E 0xCC 1 ([gdw_b], [gdx_block]) c3 = Some c4" "m_exOutput c4 = m_exOutput c3"
    using gdx_end [OF c3(3,4)] by blast
  show ?thesis using c1(1) c2(1) c3(1,2,5) c4 by (simp add: reported_def)
qed

lemma gdx_run:
  "\<exists>c'. debuggerThreadMain gdx_E gdx_modules [gdx_block] 0xCC 1 new_GDBThreadCommunication = Some c' \<and>
    reported c' = [gdx_block] \<and> m_terminationType (m_exOutput c') = CLEAN"
proof -
  let ?new = new_GDBThreadCommunication
  define c0 where "c0 = type_text (''set new-console on'' @ newline)
    (fail_output ''The target did not run!'' (?new\<lparr>m_exOutput := (m_exOutput ?new)\<lparr>m_debuggerThreadDone := False\<rparr>\<rparr>))"
  have i0: "idle 0 DUMPED (m_exOutput c0) c0"
    by (simp add: c0_def idle_def type_text_def fail_output_def new_GDBThreadCommunication_def)
  obtain c1 where c1: "sendCommandToGDBAndWaitForResponse gdx_E ''set'' [] False c0 = Some (True, join newline [], c1)"
    "idle 5 DUMPED (m_exOutput c0) c1"
    using idle_command [OF i0, of "''set''" "[]" "[]" False] by (auto simp: says_at_def gdx_script)
  have sk: "skip_headers gdx_E c0 = Some (True, c1)" by (subst skip_headers.simps) (simp add: c1(1))
  obtain c2 where p: "gdbPrepareForDebug gdx_E gdx_modules [gdx_block] 1 c1 = Some (Some [gdw_b], c2)"
    and c2: "idle 32 DUMPED ((m_exOutput c0)\<lparr>m_PID := 77\<rparr>) c2" using gdx_prepared [OF c1(2)] by blast
  let ?c3 = "(type_text (''c'' @ newline) c2)\<lparr>m_debuggingReady := True, m_exOutput := (m_exOutput c2)\<lparr>m_terminationType := CLEAN,
      m_terminationDescription := ''The target executed without any exception''\<rparr>\<rparr>"
  have "idle 32 DUMPED (m_exOutput ?c3) ?c3" using c2 by (simp add: idle_def type_text_def)
  then obtain c4 where c4: "gdb_loop gdx_E 0xCC 1 ([gdw_b], []) ?c3 = Some c4" "reported c4 = [gdx_block]"
    "m_terminationType (m_exOutput c4) = CLEAN" using gdx_loop [of DUMPED "m_exOutput ?c3" ?c3] by auto
  have d: "gdbDebug gdx_E gdx_modules [gdx_block] 0xCC 1 c1 = Some c4" using c4(1) by (simp add: gdbDebug_def p)
  have "debuggerThreadMain gdx_E gdx_modules [gdx_block] 0xCC 1 ?new = Some (end_thread c4)"
    using sk d c4(3) by (simp add: debuggerThreadMain_def c0_def gdx_env)
  then show ?thesis using c4(2,3) by (intro exI [of _ "end_thread c4"]) (simp, simp add: end_thread_def)
qed

theorem only_blocks_to_cover_reported_witness:
  "\<exists>c'. debuggerThreadMain gdx_E gdx_modules [gdx_block] 0xCC 1 new_GDBThreadCommunication = Some c' \<and>
    reported c' = [gdx_block] \<and> m_terminationType (m_exOutput c') = CLEAN \<and> set (reported c') \<subseteq> set [gdx_block]"
proof -
  obtain c' where c': "debuggerThreadMain gdx_E gdx_modules [gdx_block] 0xCC 1 new_GDBThreadCommunication = Some c'"
    "reported c' = [gdx_block]" "m_terminationType (m_exOutput c') = CLEAN" using gdx_run by blast
  have "no_one_reports gdx_E" "reported new_GDBThreadCommunication = []"
    by (simp_all add: no_one_reports_def gdx_E_def reported_def new_GDBThreadCommunication_def new_output_def)
  from only_blocks_to_cover_reported [OF c'(1) this] c' show ?thesis by blast
qed

section \<open>A target that ends by itself\<close>

lemma GDB_attemptStart_thread:
  assumes "GDB_attemptStart W b f s st a = Some (True, st', a')" shows "m_gDBThread st' \<noteq> None"
  using assms by (auto simp: GDB_attemptStart_def Let_def split: if_splits dest!: start_feeder_state)

lemma GDB_run_thread:
  "GDB_runSingleTestcase W b m i out st a = Some (ok, out', st', a') \<Longrightarrow> m_gDBThread st' = m_gDBThread st"
  by (auto simp: GDB_runSingleTestcase_def Let_def bind_eq_Some_conv split: if_splits dest!: tell_feeder_state(1))

definition always_exits :: "gdb_world \<Rightarrow> bool" where
  "always_exits W \<longleftrightarrow> (\<forall>f k. m_terminationType (w_output W f k) = CLEAN \<and> w_exitStatus W f k \<noteq> - 1)"

lemma always_exits_output:
  "always_exits W \<Longrightarrow> m_gDBThread st \<noteq> None \<Longrightarrow> m_terminationType (gdb_output W st a) = CLEAN \<and> gdb_exitStatus W st a \<noteq> - 1"
  by (auto simp: always_exits_def gdb_output_def gdb_exitStatus_def)

definition exit_result :: DebugExecutionOutput where
  "exit_result = special_crash CLEAN ''The request reproducibly causes the target to terminate!'' ''TARGET_TERMINATED''"

lemma GDB_reproduce_exit:
  assumes "GDB_reproduce W b f s i st a = Some (out, st', a')" and "always_exits W" and "m_gDBThread st \<noteq> None"
    and "m_terminationType out \<noteq> ERR"
  shows "out = exit_result \<and> \<not> m_target_and_feeder_okay st'"
proof -
  have ty: "m_terminationType (gdb_output W st a) = CLEAN" using always_exits_output [OF assms(2,3)] by simp
  from assms(1) obtain k st1 a1 where t: "GDB_attemptStart W b f s st (next_tick a) = Some (k, st1, a1)"
    by (auto simp: GDB_reproduce_def Let_def bind_eq_Some_conv)
  note u = assms(1) [unfolded GDB_reproduce_def Let_def t Option.bind.bind_lunit prod.case ty]
  show ?thesis
  proof (cases k)
    case False
    with u assms(4) show ?thesis by (auto simp: not_full_def fail_with_def)
  next
    case True
    with u obtain g second st2 a2 a3 where r: "GDB_runSingleTestcase W b NONE i (not_full new_output)
        (st1\<lparr>m_target_and_feeder_okay := k\<rparr>) a1 = Some (g, second, st2, a2)"
      and w: "(if m_terminationType second \<noteq> CLEAN then waitForDebuggerToTerminate W a2 else Some a2) = Some a3"
      by (auto simp: bind_eq_Some_conv)
    have "m_gDBThread st2 \<noteq> None" using GDB_attemptStart_thread t True GDB_run_thread [OF r] by simp
    note o = always_exits_output [OF assms(2) this]
    have "(case GDB_reproduced W CLEAN st2 a3 of (out, a) \<Rightarrow> Some (out, not_okay st2, a)) = Some (out, st', a')"
      using u True r w by (auto simp: split_beta)
    then show ?thesis using o by (auto simp: GDB_reproduced_def exit_result_def not_okay_def)
  qed
qed

text \<open>
  C35: A target that ends by itself on a testcase, and again when the testcase is repeated, is reported as a clean run
  without any block and with full coverage, although the description says that the testcase terminates the target; the
  executor for several testcases under DynamoRIO reports an exception there.
\<close>

theorem reproducible_exit_reported_clean:
  assumes "GDB_execute W b feeder_cmd starter restart i full st a = Some (out, st', a')"
    and "\<And>f k. m_terminationType (w_output W f k) = CLEAN \<and> w_exitStatus W f k \<noteq> - 1"
    and "m_terminationType out \<noteq> ERR"
  shows "m_terminationType out = CLEAN \<and> m_coveredBasicBlocks out = [] \<and> dbg_hasFullCoverage out \<and>
    m_terminationDescription out = ''The request reproducibly causes the target to terminate!'' \<and>
    \<not> m_target_and_feeder_okay st'"
proof -
  have W: "always_exits W" using assms(2) by (simp add: always_exits_def)
  let ?st = "count_execution restart st"
  from assms(1) obtain k st1 a1 where t: "(if m_target_and_feeder_okay ?st then Some (True, ?st, a)
      else GDB_attemptStart W b feeder_cmd starter ?st a) = Some (k, st1, a1)"
    by (auto simp: GDB_execute_def Let_def bind_eq_Some_conv)
  note u = assms(1) [unfolded GDB_execute_def Let_def t Option.bind.bind_lunit prod.case]
  have k using u assms(3) by (cases k) (auto simp: not_full_def fail_with_def)
  with u obtain m o1 g o2 st2 a2 where r: "GDB_runSingleTestcase W b m i o1
      (st1\<lparr>m_target_and_feeder_okay := k\<rparr>) a1 = Some (g, o2, st2, a2)"
    and w: "GDB_after_run W b feeder_cmd starter i o2 (st2\<lparr>m_target_and_feeder_okay := g\<rparr>) a2 = Some (out, st', a')"
    by (auto simp: bind_eq_Some_conv)
  let ?st2 = "st2\<lparr>m_target_and_feeder_okay := g\<rparr>"
  have some: "m_gDBThread ?st2 \<noteq> None"
  proof
    assume "m_gDBThread ?st2 = None"
    then have "m_terminationType (gdb_output W ?st2 x) = ERR" for x by (simp add: gdb_output_def new_output_def)
    then show False using w assms(3) by (auto simp: GDB_after_run_def Let_def)
  qed
  then have "GDB_reproduce W b feeder_cmd starter i ?st2 (next_tick a2) = Some (out, st', a')"
    using w always_exits_output [OF W, of ?st2 a2] by (auto simp: GDB_after_run_def Let_def)
  from GDB_reproduce_exit [OF this W some assms(3)] show ?thesis
    by (simp add: exit_result_def special_crash_def new_output_def)
qed

text \<open>The thread is there but does not reset the coverage in time; then target and feeder are started again.\<close>

definition gde_name :: string where
  "gde_name = ''/FLUFFI_SharedMem_g''"

definition gde_st :: gdb_executor where
  "gde_st = new_gdb_executor\<lparr>m_target_and_feeder_okay := True, m_gDBThread := Some ''t''\<rparr>"

definition gde_W :: "SharedMemIPC \<Rightarrow> gdb_world" where
  "gde_W cl = trw_W\<lparr>u_ipc := smw_E\<lparr>p_signal := \<lambda>_. False, p_others := \<lambda>_. feeder_step smw_E cl\<rparr>,
     w_reaches := \<lambda>_ _. False, w_exitStatus := \<lambda>_ _. 3\<rparr>"

lemma gde_channel:
  "\<exists>srv os1 cl os2. initializeAsServer smw_E (new_SharedMemIPC gde_name 0x1000) (m_ipc gde_st) = (True, srv, os1) \<and>
    initializeAsClient smw_E (new_SharedMemIPC gde_name 0x1000) os1 = (True, cl, os2)"
proof -
  have os: "m_ipc gde_st = first_os" by (simp add: gde_st_def new_gdb_executor_def)
  have "shm_names first_os gde_name = None" "fifo_names first_os = Map.empty" "2 * (int MAX_PATH + 9) < 0x1000"
    "\<forall>k. \<not> p_fails smw_E k" "fifo_name smw_E (os_tick first_os + 3) \<noteq> fifo_name smw_E (os_tick first_os + 5)"
    using smw_guids(2) by (simp_all add: first_os_def MAX_PATH_def smw_E_def smw_os_def)
  then show ?thesis unfolding os using set_up_succeeds [OF _ smw_guids(1)] by blast
qed

lemma gde_facts:
  "u_guid (gde_W cl) k = ''g''" "u_starter (gde_W cl) k x" "w_ready (gde_W cl) k x" "w_initFile (gde_W cl) k = Some []"
  "\<forall>k cmd. u_feeder (gde_W cl) k cmd" "\<not> w_reaches (gde_W cl) k cs" "u_ends (gde_W cl) k"
  "u_ipc (gde_W cl) = smw_E\<lparr>p_signal := \<lambda>_. False, p_others := \<lambda>_. feeder_step smw_E cl\<rparr>"
  "w_output (gde_W cl) f k = new_output\<lparr>m_terminationType := CLEAN\<rparr>" "w_exitStatus (gde_W cl) f k = 3"
  by (simp_all add: gde_W_def trw_W_def)

lemma gde_start:
  assumes "initializeAsServer smw_E (new_SharedMemIPC gde_name 0x1000) (m_ipc gde_st) = (True, srv, os1)"
    and "initializeAsClient smw_E (new_SharedMemIPC gde_name 0x1000) os1 = (True, cl, os2)"
  shows "\<exists>st1 a1. GDB_attemptStart (gde_W cl) trw_base ''f'' ''s'' (gde_st\<lparr>m_target_and_feeder_okay := False\<rparr>) a = Some (True, st1, a1) \<and>
    (\<exists>os3. tell_feeder (gde_W cl) trw_base wit_parent out (st1\<lparr>m_target_and_feeder_okay := True\<rparr>) =
      Some (True, True, out, st1\<lparr>m_target_and_feeder_okay := True, m_ipc := os3\<rparr>))"
proof -
  let ?W = "gde_W cl"
  let ?f = "gdb_init_file ?W trw_base (tick a)"
  let ?st = "gde_st\<lparr>m_target_and_feeder_okay := False, m_executionsSinceLastRestart := 0, m_gDBThread := Some ?f\<rparr>"
  define a0 where "a0 = next_tick (markFileForDelete ?f (next_tick ((next_tick (next_tick a))\<lparr>files := (files a)(?f \<mapsto> [])\<rparr>)))"
  have e: "GDB_attemptStart ?W trw_base ''f'' ''s'' (gde_st\<lparr>m_target_and_feeder_okay := False\<rparr>) a = start_feeder ?W ''f'' 0 ?st a0"
    by (simp add: GDB_attemptStart_def Let_def gde_facts a0_def gdb_output_def, simp add: new_output_def)
  have ipc: "m_ipc ?st = m_ipc gde_st" "m_sharedMemIPC_toFeeder ?st = None" by (simp_all add: gde_st_def new_gdb_executor_def)
  have pipe: "fifo_bytes (m_ipc ?st) interrupt_pipe = 0" "interrupt_pipe < os_fresh (m_ipc ?st)"
    by (simp_all add: gde_st_def new_gdb_executor_def first_os_def)
  have name: "''/FLUFFI_SharedMem_'' @ u_guid ?W (tick a0) = gde_name" by (simp add: gde_facts gde_name_def)
  have len: "length (int_to_string 0) < 1000" by code_simp
  have i: "initializeAsServer smw_E (new_SharedMemIPC (''/FLUFFI_SharedMem_'' @ u_guid ?W (tick a0)) 0x1000) (m_ipc ?st) = (True, srv, os1)"
    "initializeAsClient smw_E (new_SharedMemIPC (''/FLUFFI_SharedMem_'' @ u_guid ?W (tick a0)) 0x1000) os1 = (True, cl, os2)"
    unfolding name ipc(1) by (rule assms)+
  from start_feeder_ready [OF ipc(2) gde_facts(5) i gde_facts(8) smw_cooperative pipe len]
  obtain fd c s os3 a' where f: "start_feeder ?W ''f'' 0 ?st a0 = Some (True, ?st\<lparr>m_sharedMemIPC_toFeeder := Some srv, m_ipc := os3\<rparr>, a')"
    and l: "linked srv cl fd c s os3" and z: "m_sharedMemorySize srv = 0x1000" and h: "boxes_held 0x1000 fd c s (None, None) os3"
    and p: "fifo_bytes os3 interrupt_pipe = 0" "interrupt_pipe \<noteq> c" "interrupt_pipe \<noteq> s" by blast
  let ?st1 = "?st\<lparr>m_sharedMemIPC_toFeeder := Some srv, m_ipc := os3\<rparr>"
  have "length (generateTestcasePathAndFilename wit_parent (x_testcaseDir trw_base)) < 1000" by code_simp
  then have fit: "fits (m_sharedMemorySize srv) (mk_message SHARED_MEM_MESSAGE_FUZZ_FILENAME
      (generateTestcasePathAndFilename wit_parent (x_testcaseDir trw_base)))"
    by (simp add: z fits_def getDataSize_def MAX_PATH_def)
  have env: "\<forall>k. \<not> p_fails (u_ipc ?W) k \<and> \<not> p_signal (u_ipc ?W) k" "\<forall>k. p_others (u_ipc ?W) k = feeder_step smw_E cl"
    by (simp_all add: gde_facts smw_E_def)
  have "\<exists>os os3. tell_feeder ?W trw_base wit_parent out (?st1\<lparr>m_target_and_feeder_okay := True\<rparr>) =
      Some (True, True, out, (?st1\<lparr>m_target_and_feeder_okay := True\<rparr>)\<lparr>m_ipc := os3\<rparr>) \<and>
    sendMessageToClient (u_ipc ?W) srv (mk_message SHARED_MEM_MESSAGE_FUZZ_FILENAME
      (generateTestcasePathAndFilename wit_parent (x_testcaseDir trw_base))) (m_ipc (?st1\<lparr>m_target_and_feeder_okay := True\<rparr>)) = Some (True, os) \<and>
    (\<exists>os'. waitForNewMessageToClient smw_E cl None os = Some (True, mk_message SHARED_MEM_MESSAGE_FUZZ_FILENAME
      (generateTestcasePathAndFilename wit_parent (x_testcaseDir trw_base)), os'))"
    by (rule tell_feeder_done [OF _ _ _ _ p(2,3) env smw_cooperative fit]) (use l h p(1) z in simp_all)
  with e f show ?thesis by (intro exI [of _ ?st1] exI [of _ a']) auto
qed

theorem reproducible_exit_reported_clean_witness:
  "\<exists>cl out st' a'. GDB_execute (gde_W cl) trw_base ''f'' ''s'' 0 wit_parent False gde_st fresh_agent = Some (out, st', a') \<and>
    m_terminationType out = CLEAN \<and> m_coveredBasicBlocks out = [] \<and> dbg_hasFullCoverage out"
proof -
  obtain srv os1 cl os2 where ch: "initializeAsServer smw_E (new_SharedMemIPC gde_name 0x1000) (m_ipc gde_st) = (True, srv, os1)"
    "initializeAsClient smw_E (new_SharedMemIPC gde_name 0x1000) os1 = (True, cl, os2)" using gde_channel by blast
  let ?W = "gde_W cl" let ?st = "gde_st\<lparr>m_target_and_feeder_okay := False\<rparr>"
  have st: "m_target_and_feeder_okay gde_st" "m_gDBThread gde_st = Some ''t''" "gde_st\<lparr>m_target_and_feeder_okay := True\<rparr> = gde_st"
    by (simp_all add: gde_st_def new_gdb_executor_def)
  obtain from_feeder where r1: "GDB_runSingleTestcase ?W trw_base PARTIAL wit_parent (new_output\<lparr>dbg_hasFullCoverage := False\<rparr>) gde_st fresh_agent =
      Some (False, from_feeder, gde_st, next_tick fresh_agent)"
    by (simp add: GDB_runSingleTestcase_def gde_facts)
  obtain st1 a1 os3 where s1: "GDB_attemptStart ?W trw_base ''f'' ''s'' ?st (next_tick (next_tick (next_tick fresh_agent))) = Some (True, st1, a1)"
    and t1: "tell_feeder ?W trw_base wit_parent (not_full new_output) (st1\<lparr>m_target_and_feeder_okay := True\<rparr>) =
      Some (True, True, not_full new_output, st1\<lparr>m_target_and_feeder_okay := True, m_ipc := os3\<rparr>)"
    using gde_start [OF ch] by blast
  let ?st2 = "st1\<lparr>m_target_and_feeder_okay := True, m_ipc := os3\<rparr>"
  have r2: "GDB_runSingleTestcase ?W trw_base NONE wit_parent (not_full new_output) (st1\<lparr>m_target_and_feeder_okay := True\<rparr>) a1 =
      Some (True, executed_normally (not_full new_output), ?st2, a1)"
    by (simp add: GDB_runSingleTestcase_def t1)
  have th: "m_gDBThread ?st2 \<noteq> None" using GDB_attemptStart_thread [OF s1] by simp
  have W: "always_exits ?W" by (simp add: always_exits_def gde_facts)
  note o2 = always_exits_output [OF W th, of a1] and o1 = always_exits_output [OF W, of ?st]
  have o3: "m_terminationType (gdb_output ?W ?st a) = CLEAN" "gdb_exitStatus ?W ?st a \<noteq> - 1" for a
    using o1 st(2) by simp_all
  have p: "GDB_reproduced ?W CLEAN ?st2 a1 = (exit_result, next_tick a1)"
    using o2 by (simp add: GDB_reproduced_def exit_result_def)
  have rep: "GDB_reproduce ?W trw_base ''f'' ''s'' wit_parent ?st (next_tick (next_tick fresh_agent)) =
      Some (exit_result, not_okay ?st2, next_tick a1)"
    unfolding GDB_reproduce_def Let_def s1 Option.bind.bind_lunit prod.case o3 not_True_eq_False if_False r2 p
    by (simp add: executed_normally_def p)
  have ar: "GDB_after_run ?W trw_base ''f'' ''s'' wit_parent from_feeder ?st (next_tick fresh_agent) =
      Some (exit_result, not_okay ?st2, next_tick a1)"
    unfolding GDB_after_run_def Let_def o3 using o3 rep by simp
  have e: "GDB_execute ?W trw_base ''f'' ''s'' 0 wit_parent False gde_st fresh_agent = Some (exit_result, not_okay ?st2, next_tick a1)"
    using st(1) ar by (simp add: GDB_execute_def count_execution_def st(3) r1)
  have "\<And>f k. m_terminationType (w_output ?W f k) = CLEAN \<and> w_exitStatus ?W f k \<noteq> - 1" "m_terminationType exit_result \<noteq> ERR"
    by (simp_all add: gde_facts exit_result_def special_crash_def)
  from reproducible_exit_reported_clean [OF e this] e show ?thesis by blast
qed

end
