(* ===== verification/Process.thy ===== *)
theory Process
  imports TRGdbText
begin

text \<open>
  Starting, watching and ending a process (\<open>ExternalProcess.cpp\<close>, the Linux part on a 64-bit Intel machine). The
  object is the record \<open>ExternalProcess\<close>; the operating system answers through \<open>proc_world\<close>, whose answers may
  be different each time (\<open>pt\<close> is the number of the question), and keeps what the record \<open>proc_os\<close> holds: the
  file descriptors, the time that is accounted for and, as a list of events, what each child process did and what was
  done to it. \<open>None\<close>: an exception, a null pointer, or a wait that never ends.

  Not modelled: the streams over the pipes and the two waiting loops for other threads.
\<close>

section \<open>Outside the code\<close>

datatype wait_result = Child_signal | Wait_interrupted | Wait_timeout | Wait_failed string

text \<open>The answer of \<open>waitpid\<close> with the status; what is seen of a child, \<open>At\<close> its instruction pointer, and done to it.\<close>

datatype child_status =
  No_child | Nothing_yet | Other_process | Stopped (by_signal: int) | Signaled int | Exited int

datatype proc_event = Saw child_status | At "64 word" | Continue | Continue_with int | Detach | Kill

datatype fd_file = Terminal | Dev_null | Pipe_end nat bool    \<comment> \<open>the number of a pipe and whether it is the writing end\<close>

record proc_world =
  pw_wordexp :: "string \<Rightarrow> string list option"
  pw_environ :: "string list"
  pw_pipe :: "nat \<Rightarrow> (int \<times> int) option"
  pw_fork :: "nat \<Rightarrow> int"
  pw_open :: "nat \<Rightarrow> int"                                     \<comment> \<open>opening \<open>/dev/null\<close>\<close>
  pw_attach :: "nat \<Rightarrow> bool"
  pw_wait :: "nat \<Rightarrow> wait_result"
  pw_status :: "nat \<Rightarrow> child_status"
  pw_gone :: "nat \<Rightarrow> bool"                                    \<comment> \<open>\<open>waitpid\<close> fails as there is no child any more\<close>
  pw_late :: "nat \<Rightarrow> bool"
  pw_rip :: "nat \<Rightarrow> 64 word"
  pw_maps :: "nat \<Rightarrow> bytes"
  pw_stat :: "nat \<Rightarrow> 64 word list option"
  pw_proc :: "nat \<Rightarrow> (string \<times> bytes) list"

record proc_os =
  pt :: nat
  p_log :: "(int \<times> proc_event) list"
  p_fds :: "int \<Rightarrow> fd_file option"
  s_allTimeSpent :: "64 word"

definition ptick :: "proc_os \<Rightarrow> proc_os" where
  "ptick os = os\<lparr>pt := Suc (pt os)\<rparr>"

definition saw :: "int \<Rightarrow> proc_event \<Rightarrow> proc_os \<Rightarrow> proc_os" where
  "saw pid e os = os\<lparr>p_log := p_log os @ [(pid, e)]\<rparr>"

definition close_fd :: "int \<Rightarrow> proc_os \<Rightarrow> proc_os" where
  "close_fd fd os = os\<lparr>p_fds := (p_fds os)(fd := None)\<rparr>"

text \<open>\<open>pipe\<close>: the reading and the writing end.\<close>

definition make_pipe :: "proc_world \<Rightarrow> proc_os \<Rightarrow> (int \<times> int) option \<times> proc_os" where
  "make_pipe W os =
     (case pw_pipe W (pt os) of None \<Rightarrow> (None, ptick os)
      | Some (r, w) \<Rightarrow> (Some (r, w), (ptick os)\<lparr>p_fds := (p_fds os)
          (r \<mapsto> Pipe_end (pt os) False, w \<mapsto> Pipe_end (pt os) True)\<rparr>))"

section \<open>The object\<close>

datatype CHILD_OUTPUT_TYPE = SUPPRESS | OUTPUT | SPECIAL

record ExternalProcess =
  m_child_output_mode :: CHILD_OUTPUT_TYPE
  m_inputPipe :: "int \<times> int"
  m_outputPipe :: "int \<times> int"
  m_fd_pipe :: "int \<times> int"
  m_hasBeenRun :: bool
  m_hasBeenInitialized :: bool
  m_isBeingDebugged :: bool
  ep_exitStatus :: int
  m_argv :: "string list option"
  m_envp :: "string list option"
  m_childPID :: int
  m_lastutime :: "64 word"
  m_laststime :: "64 word"
  m_lastcutime :: "64 word"
  m_lastcstime :: "64 word"
  m_targetIsSentNudges :: bool

definition split_commandline :: "proc_world \<Rightarrow> string \<Rightarrow> string list option" where
  "split_commandline W cmdline = pw_wordexp W (c_string cmdline)"

definition addToEnv :: "proc_world \<Rightarrow> string \<Rightarrow> string list option" where
  "addToEnv W additionalEnvParam =
     (if additionalEnvParam = [] then None else Some (pw_environ W @ [c_string additionalEnvParam]))"

definition or_invalid :: "(int \<times> int) option \<Rightarrow> int \<times> int" where
  "or_invalid p = (case p of None \<Rightarrow> (- 1, - 1) | Some p \<Rightarrow> p)"

definition new_ExternalProcess ::
    "proc_world \<Rightarrow> string \<Rightarrow> CHILD_OUTPUT_TYPE \<Rightarrow> string \<Rightarrow> bool \<Rightarrow> proc_os \<Rightarrow> ExternalProcess \<times> proc_os" where
  "new_ExternalProcess W commandline child_output_mode additionalEnvParam targetIsSentNudges os =
     (let (outputPipe, os) = (if child_output_mode = SPECIAL then make_pipe W os else (None, os));
          (inputPipe, os) = (if child_output_mode = SPECIAL then make_pipe W os else (None, os))
      in (\<lparr>m_child_output_mode = child_output_mode, m_inputPipe = or_invalid inputPipe,
            m_outputPipe = or_invalid outputPipe, m_fd_pipe = (- 1, - 1), m_hasBeenRun = False,
            m_hasBeenInitialized = False, m_isBeingDebugged = False, ep_exitStatus = - 1,
            m_argv = split_commandline W commandline, m_envp = addToEnv W additionalEnvParam, m_childPID = 0,
            m_lastutime = 0, m_laststime = 0, m_lastcutime = 0, m_lastcstime = 0,
            m_targetIsSentNudges = targetIsSentNudges\<rparr>, os))"

section \<open>Time\<close>

text \<open>
  The values that \<open>fscanf\<close> gets from \<open>/proc/\<dots>/stat\<close>, in their order; those that it does not get stay 0.
\<close>

definition stat_value :: "64 word list \<Rightarrow> nat \<Rightarrow> 64 word" where
  "stat_value vs i = (if i < length vs then vs ! i else 0)"

definition updateTimeSpent :: "proc_world \<Rightarrow> ExternalProcess \<Rightarrow> proc_os \<Rightarrow> ExternalProcess \<times> proc_os" where
  "updateTimeSpent W p os =
     (if m_hasBeenInitialized p \<and> m_childPID p \<noteq> 0 \<and> \<not> m_hasBeenRun p
      then case pw_stat W (pt os) of None \<Rightarrow> (p, ptick os)
      | Some vs \<Rightarrow>
          let utime = stat_value vs 0; stime = stat_value vs 1; cutime = stat_value vs 2; cstime = stat_value vs 3
          in (p\<lparr>m_lastutime := utime, m_laststime := stime, m_lastcutime := cutime, m_lastcstime := cstime\<rparr>,
            (ptick os)\<lparr>s_allTimeSpent := s_allTimeSpent os + ((utime - m_lastutime p) + (stime - m_laststime p) +
              (cutime - m_lastcutime p) + (cstime - m_lastcstime p))\<rparr>)
      else (p, os))"

text \<open>The objects that exist, each with its address.\<close>

type_synonym running_set = "(nat \<times> ExternalProcess) list"

definition addToRunningProcessesSet :: "nat \<Rightarrow> ExternalProcess \<Rightarrow> running_set \<Rightarrow> running_set" where
  "addToRunningProcessesSet this p s = (if this \<in> fst ` set s then s else s @ [(this, p)])"

definition removeFromRunningProcessesSet :: "nat \<Rightarrow> running_set \<Rightarrow> running_set" where
  "removeFromRunningProcessesSet this s = filter (\<lambda>q. fst q \<noteq> this) s"

definition isInRunningProcessesSet :: "int \<Rightarrow> running_set \<Rightarrow> bool" where
  "isInRunningProcessesSet pid s = list_ex (\<lambda>q. m_childPID (snd q) = pid) s"

fun updateTimeSpentOnAllInRunningProcessesSet :: "proc_world \<Rightarrow> running_set \<Rightarrow> proc_os \<Rightarrow> running_set \<times> proc_os" where
  "updateTimeSpentOnAllInRunningProcessesSet W [] os = ([], os)"
| "updateTimeSpentOnAllInRunningProcessesSet W ((this, p) # s) os =
     (let (p, os) = updateTimeSpent W p os; (s, os) = updateTimeSpentOnAllInRunningProcessesSet W s os
      in ((this, p) # s, os))"

definition getAllTimeSpentSinceLastCall :: "proc_world \<Rightarrow> running_set \<Rightarrow> proc_os \<Rightarrow> 64 word \<times> running_set \<times> proc_os" where
  "getAllTimeSpentSinceLastCall W s os =
     (let (s, os) = updateTimeSpentOnAllInRunningProcessesSet W s os in (s_allTimeSpent os, s, os\<lparr>s_allTimeSpent := 0\<rparr>))"

section \<open>Starting\<close>

text \<open>The parent's part; the process id 0 is the child's, which runs \<open>child_main\<close> below.\<close>

definition initProcess :: "proc_world \<Rightarrow> ExternalProcess \<Rightarrow> proc_os \<Rightarrow> (bool \<times> ExternalProcess \<times> proc_os) option" where
  "initProcess W p os =
     (let (ends, os) = make_pipe W os in
      case ends of None \<Rightarrow> Some (False, p, os)
      | Some ends \<Rightarrow>
          let p = p\<lparr>m_fd_pipe := ends, m_childPID := pw_fork W (pt os)\<rparr>; os = ptick os in
          if m_childPID p > 0
          then let os = close_fd (fst (m_fd_pipe p)) os;
                   p = p\<lparr>m_fd_pipe := (- 1, snd (m_fd_pipe p))\<rparr>;
                   (p, os) = (if m_child_output_mode p = SPECIAL
                     then (p\<lparr>m_outputPipe := (fst (m_outputPipe p), - 1), m_inputPipe := (- 1, snd (m_inputPipe p))\<rparr>,
                       close_fd (fst (m_inputPipe p)) (close_fd (snd (m_outputPipe p)) os))
                     else (p, os))
               in if m_argv p = None then None else Some (True, p\<lparr>m_hasBeenInitialized := True\<rparr>, os)
          else Some (False, p, os))"

text \<open>
  The child's part, from the process that was copied up to \<open>execve\<close>; each call of the operating system may fail, and
  ends the child if it does.
\<close>

record child_world =
  cw_mask :: bool
  cw_open :: int
  cw_dup2 :: "int \<Rightarrow> bool"
  cw_chroot :: bool
  cw_chdir :: bool
  cw_read :: bool                                               \<comment> \<open>the parent's byte arrives\<close>
  cw_traceme :: bool
  cw_raise :: bool
  cw_exec :: bool

datatype child_end = Child_exits | Child_crashes
  | Child_execs (c_argv: "string list") (c_env: "string list option") (c_root: string) (c_fds: "int \<Rightarrow> fd_file option")

definition dup2 :: "child_world \<Rightarrow> int \<Rightarrow> int \<Rightarrow> (int \<Rightarrow> fd_file option) \<Rightarrow> (int \<Rightarrow> fd_file option) option" where
  "dup2 C old new fds = (if fds old \<noteq> None \<and> cw_dup2 C new then Some (fds(new := fds old)) else None)"

definition redirect :: "child_world \<Rightarrow> ExternalProcess \<Rightarrow> (int \<Rightarrow> fd_file option) \<Rightarrow> (int \<Rightarrow> fd_file option) option" where
  "redirect C p fds =
     (if m_child_output_mode p = SUPPRESS
      then let fd = cw_open C in
           if fd < 0 then None
           else do {
             fds \<leftarrow> dup2 C fd 1 (fds(fd \<mapsto> Dev_null));
             fds \<leftarrow> dup2 C fd 2 fds;
             Some (fds(fd := None))
           }
      else if m_child_output_mode p = SPECIAL
      then do {
        fds \<leftarrow> dup2 C (fst (m_inputPipe p)) 0 fds;
        fds \<leftarrow> dup2 C (snd (m_outputPipe p)) 1 fds;
        fds \<leftarrow> dup2 C (snd (m_outputPipe p)) 2 fds;
        Some (fds(fst (m_outputPipe p) := None, snd (m_outputPipe p) := None,
          fst (m_inputPipe p) := None, snd (m_inputPipe p) := None))
      }
      else Some fds)"

definition child_main :: "child_world \<Rightarrow> string \<Rightarrow> ExternalProcess \<Rightarrow> (int \<Rightarrow> fd_file option) \<Rightarrow> child_end" where
  "child_main C chrootPath p fds =
     (if \<not> cw_mask C then Child_exits
      else case redirect C p fds of None \<Rightarrow> Child_exits
      | Some fds \<Rightarrow>
          if chrootPath \<noteq> [] \<and> \<not> (cw_chroot C \<and> cw_chdir C) then Child_exits
          else let fds = fds(snd (m_fd_pipe p) := None) in
          if \<not> cw_read C then Child_exits
          else let fds = fds(fst (m_fd_pipe p) := None) in
          if \<not> cw_traceme C then Child_exits
          else if \<not> cw_raise C then Child_exits
          else case m_argv p of None \<Rightarrow> Child_crashes
          | Some argv \<Rightarrow> if argv \<noteq> [] \<and> cw_exec C then Child_execs argv (m_envp p) chrootPath fds else Child_exits)"

section \<open>Ending\<close>

text \<open>\<open>waitpid\<close> is called until it fails.\<close>

partial_function (option) reap :: "proc_world \<Rightarrow> proc_os \<Rightarrow> proc_os option" where
  "reap W os = (if pw_gone W (pt os) then Some (ptick os) else reap W (ptick os))"

definition die :: "proc_world \<Rightarrow> ExternalProcess \<Rightarrow> proc_os \<Rightarrow> (ExternalProcess \<times> proc_os) option" where
  "die W p os =
     (if \<not> m_hasBeenInitialized p then Some (p, os)
      else if m_argv p = None then None
      else let (p, os) = updateTimeSpent W p os in
           if m_childPID p = 0 then Some (p, os)
           else map_option (Pair p) (reap W (saw (m_childPID p) Kill os)))"

definition close_valid :: "int \<Rightarrow> proc_os \<Rightarrow> proc_os" where
  "close_valid fd os = (if fd \<noteq> - 1 then close_fd fd os else os)"

definition delete_ExternalProcess :: "proc_world \<Rightarrow> ExternalProcess \<Rightarrow> proc_os \<Rightarrow> proc_os option" where
  "delete_ExternalProcess W p os = do {
     (p, os) \<leftarrow> die W p os;
     Some (fold close_valid [fst (m_outputPipe p), snd (m_outputPipe p), fst (m_inputPipe p), snd (m_inputPipe p)] os)
   }"

text \<open>The end of a run by force.\<close>

definition kill_run :: "proc_world \<Rightarrow> ExternalProcess \<Rightarrow> proc_os \<Rightarrow> (ExternalProcess \<times> proc_os) option" where
  "kill_run W p os = map_option (\<lambda>(p, os). (p\<lparr>m_hasBeenRun := True\<rparr>, os)) (die W p os)"

section \<open>Running without watching\<close>

text \<open>The byte that the child waits for.\<close>

definition let_go :: "ExternalProcess \<Rightarrow> proc_os \<Rightarrow> ExternalProcess \<times> proc_os" where
  "let_go p os = (p\<lparr>m_fd_pipe := (fst (m_fd_pipe p), - 1)\<rparr>, close_fd (snd (m_fd_pipe p)) os)"

text \<open>A question to \<open>waitpid\<close> after the signal, with the time that the child has used.\<close>

definition ask_status :: "proc_world \<Rightarrow> ExternalProcess \<Rightarrow> proc_os \<Rightarrow> child_status \<times> ExternalProcess \<times> proc_os" where
  "ask_status W p os =
     (let (p, os) = updateTimeSpent W p os; status = pw_status W (pt os)
      in (status, p, ptick (saw (m_childPID p) (Saw status) os)))"

partial_function (option) run_loop ::
    "proc_world \<Rightarrow> ExternalProcess \<Rightarrow> proc_os \<Rightarrow> (bool \<times> ExternalProcess \<times> proc_os) option" where
  "run_loop W p os =
     (let sig = pw_wait W (pt os); os = ptick os in
      case sig of
        Wait_interrupted \<Rightarrow> run_loop W p (saw (m_childPID p) Continue os)
      | Wait_timeout \<Rightarrow> map_option (Pair False) (kill_run W p os)
      | Wait_failed _ \<Rightarrow> map_option (Pair False) (kill_run W p os)
      | Child_signal \<Rightarrow>
          let (status, p, os) = ask_status W p os in
          case status of
            No_child \<Rightarrow> map_option (Pair False) (kill_run W p os)
          | Stopped _ \<Rightarrow> Some (True, p\<lparr>m_hasBeenRun := True\<rparr>, saw (m_childPID p) Detach os)
          | _ \<Rightarrow> run_loop W p os)"

definition run :: "proc_world \<Rightarrow> ExternalProcess \<Rightarrow> proc_os \<Rightarrow> (bool \<times> ExternalProcess \<times> proc_os) option" where
  "run W p os =
     (if m_hasBeenRun p \<or> \<not> m_hasBeenInitialized p then Some (False, p, os)
      else let (p, os) = let_go p os in run_loop W p os)"

section \<open>Running to the end\<close>

definition SIGILL :: int where "SIGILL = 4"
definition SIGTRAP :: int where "SIGTRAP = 5"
definition SIGSEGV :: int where "SIGSEGV = 11"
definition SIGCHLD :: int where "SIGCHLD = 17"

text \<open>A stop that is not the first one; \<open>None\<close>: the child is killed.\<close>

definition after_stop :: "bool \<Rightarrow> int \<Rightarrow> proc_event option" where
  "after_stop isfirstStop sig = (if isfirstStop \<or> sig = SIGTRAP \<or> sig = SIGCHLD then Some Continue else None)"

partial_function (option) completion_loop ::
    "proc_world \<Rightarrow> bool \<Rightarrow> ExternalProcess \<Rightarrow> proc_os \<Rightarrow> (bool \<times> ExternalProcess \<times> proc_os) option" where
  "completion_loop W isfirstStop p os =
     (let sig = pw_wait W (pt os); os = ptick os in
      case sig of
        Wait_interrupted \<Rightarrow> completion_loop W isfirstStop p (saw (m_childPID p) Continue os)
      | Wait_timeout \<Rightarrow> map_option (Pair False) (kill_run W p os)
      | Wait_failed _ \<Rightarrow> map_option (Pair False) (kill_run W p os)
      | Child_signal \<Rightarrow>
          let (status, p, os) = ask_status W p os in
          case status of
            No_child \<Rightarrow> map_option (Pair False) (kill_run W p os)
          | Nothing_yet \<Rightarrow> completion_loop W isfirstStop p os
          | Other_process \<Rightarrow> completion_loop W isfirstStop p os
          | Stopped sig \<Rightarrow>
              (case after_stop isfirstStop sig of
                 None \<Rightarrow> map_option (Pair True) (kill_run W p os)
               | Some e \<Rightarrow> completion_loop W False p (saw (m_childPID p) e os))
          | Signaled _ \<Rightarrow> Some (True, p\<lparr>m_hasBeenRun := True\<rparr>, os)
          | Exited code \<Rightarrow> Some (True, p\<lparr>ep_exitStatus := code, m_hasBeenRun := True\<rparr>, os))"

definition runAndWaitForCompletion ::
    "proc_world \<Rightarrow> ExternalProcess \<Rightarrow> proc_os \<Rightarrow> (bool \<times> ExternalProcess \<times> proc_os) option" where
  "runAndWaitForCompletion W p os =
     (if m_hasBeenRun p \<or> \<not> m_hasBeenInitialized p then Some (False, p, os)
      else let (p, os) = let_go p os in completion_loop W True p os)"

section \<open>Where a crash was\<close>

text \<open>The loop over the lines of \<open>/proc/\<dots>/maps\<close>; \<open>None\<close>: a number cannot be read.\<close>

fun rva_in :: "64 word \<Rightarrow> string list \<Rightarrow> string option" where
  "rva_in addr [] = Some (''0x'' @ hex8 addr)"
| "rva_in addr (line # ls) =
     (let lineElements = splitString line '' ''; addresses = splitString (hd lineElements) ''-'' in
      if length lineElements < 2 \<or> length addresses < 2 then rva_in addr ls
      else do {
        start \<leftarrow> stoull_hex (addresses ! 0);
        if \<not> start < addr then rva_in addr ls
        else do {
          stop \<leftarrow> stoull_hex (addresses ! 1);
          if \<not> stop > addr then rva_in addr ls
          else Some (path_filename (last lineElements) @ ''+0x'' @ hex8 (addr - start))
        }
      })"

definition addrToRVAString :: "proc_world \<Rightarrow> 64 word \<Rightarrow> proc_os \<Rightarrow> (string \<times> proc_os) option" where
  "addrToRVAString W addr os = map_option (\<lambda>s. (s, ptick os)) (rva_in addr (file_lines (pw_maps W (pt os))))"

section \<open>Debugging\<close>

text \<open>The local variables of \<open>debug\<close> with its output.\<close>

record debug_locals =
  isfirstStop :: bool
  firstCrash :: "64 word"
  lastCrash :: "64 word"
  exResult :: DebugExecutionOutput

definition exception_type :: "int \<Rightarrow> DebugExecutionOutput \<Rightarrow> DebugExecutionOutput" where
  "exception_type sig out =
     (if sig = SIGSEGV
      then out\<lparr>m_terminationDescription := ''Detected an EXCEPTION_ACCESS_VIOLATION'',
        m_terminationType := EXCEPTION_ACCESSVIOLATION\<rparr>
      else out\<lparr>m_terminationDescription := ''Detected exception '' @ int_to_string sig, m_terminationType := EXCEPTION_OTHER\<rparr>)"

text \<open>A description of the place is only asked for with \<open>doPostMortemAnalysis\<close>.\<close>

definition describe ::
    "proc_world \<Rightarrow> bool \<Rightarrow> 64 word \<Rightarrow> (string \<Rightarrow> DebugExecutionOutput \<Rightarrow> DebugExecutionOutput) \<Rightarrow>
     debug_locals \<Rightarrow> proc_os \<Rightarrow> (debug_locals \<times> proc_os) option" where
  "describe W doPostMortemAnalysis ip store l os =
     (if doPostMortemAnalysis
      then map_option (\<lambda>(s, os). (l\<lparr>exResult := store s (exResult l)\<rparr>, os)) (addrToRVAString W ip os)
      else Some (l, os))"

definition first_crash_at :: "string \<Rightarrow> DebugExecutionOutput \<Rightarrow> DebugExecutionOutput" where
  "first_crash_at s out = out\<lparr>m_firstCrash := s\<rparr>"

definition last_crash_at :: "string \<Rightarrow> DebugExecutionOutput \<Rightarrow> DebugExecutionOutput" where
  "last_crash_at s out = out\<lparr>m_lastCrash := s\<rparr>"

text \<open>A stop by an exception; the first component is whether the child goes on with the signal.\<close>

definition handle_exception ::
    "proc_world \<Rightarrow> int \<Rightarrow> bool \<Rightarrow> bool \<Rightarrow> int \<Rightarrow> debug_locals \<Rightarrow> proc_os \<Rightarrow> (bool \<times> debug_locals \<times> proc_os) option" where
  "handle_exception W childPID doPostMortemAnalysis fatal sig l os = do {
     let instructionPointer = pw_rip W (pt os);
     let os = ptick (saw childPID (At instructionPointer) os);
     let l = l\<lparr>exResult := exception_type sig (exResult l)\<rparr>;
     (l, os) \<leftarrow> (if firstCrash l = 0
       then describe W doPostMortemAnalysis instructionPointer first_crash_at (l\<lparr>firstCrash := instructionPointer\<rparr>) os
       else Some (l, os));
     if sig = SIGSEGV \<and> fatal
     then map_option (Pair False) (describe W doPostMortemAnalysis instructionPointer last_crash_at l os)
     else if lastCrash l \<noteq> instructionPointer
     then map_option (Pair True)
       (describe W doPostMortemAnalysis instructionPointer last_crash_at (l\<lparr>lastCrash := instructionPointer\<rparr>) os)
     else Some (False, l, os)
   }"

text \<open>What a stop leads to: the signal with which the child goes on (0 for none), or none if it is killed.\<close>

definition handle_stop ::
    "proc_world \<Rightarrow> ExternalProcess \<Rightarrow> bool \<Rightarrow> bool \<Rightarrow> int \<Rightarrow> debug_locals \<Rightarrow> proc_os \<Rightarrow>
     (proc_event option \<times> debug_locals \<times> proc_os) option" where
  "handle_stop W p doPostMortemAnalysis fatal sig l os =
     (if isfirstStop l then Some (Some Continue, l\<lparr>isfirstStop := False\<rparr>, os)
      else if sig = SIGTRAP \<or> sig = SIGCHLD then Some (Some Continue, l, os)
      else if sig = SIGILL \<and> m_targetIsSentNudges p then Some (Some (Continue_with sig), l, os)
      else map_option (\<lambda>(goes_on, l, os). (if goes_on then Some (Continue_with sig) else None, l, os))
        (handle_exception W (m_childPID p) doPostMortemAnalysis fatal sig l os))"

definition hang :: "debug_locals \<Rightarrow> debug_locals" where
  "hang l = l\<lparr>exResult := (exResult l)\<lparr>m_terminationDescription := ''Process hang detected!'', m_terminationType := TIMEOUT\<rparr>\<rparr>"

definition killed_by :: "int \<Rightarrow> DebugExecutionOutput \<Rightarrow> DebugExecutionOutput" where
  "killed_by sig out =
     (if m_terminationType out = CLEAN
      then out\<lparr>m_terminationDescription := ''Detected exception '' @ int_to_string sig, m_terminationType := EXCEPTION_OTHER\<rparr>
      else out)"

definition exited_normally :: "DebugExecutionOutput \<Rightarrow> DebugExecutionOutput" where
  "exited_normally out = out\<lparr>m_terminationType := CLEAN, m_terminationDescription := ''The target terminated normally''\<rparr>"

text \<open>The end by force with the output.\<close>

definition kill_debug ::
    "proc_world \<Rightarrow> debug_locals \<Rightarrow> ExternalProcess \<Rightarrow> proc_os \<Rightarrow> (DebugExecutionOutput \<times> ExternalProcess \<times> proc_os) option" where
  "kill_debug W l p os = map_option (Pair (exResult l)) (kill_run W p os)"

text \<open>The arguments: whether there is a time-out, the post-mortem analysis, access violations.\<close>

type_synonym debug_args = "bool \<times> bool \<times> bool"

partial_function (option) debug_loop ::
    "proc_world \<Rightarrow> debug_args \<Rightarrow> debug_locals \<Rightarrow> ExternalProcess \<Rightarrow> proc_os \<Rightarrow>
     (DebugExecutionOutput \<times> ExternalProcess \<times> proc_os) option" where
  "debug_loop W args l p os =
     (let late = pw_late W (pt os); os = ptick os in
      if fst args \<and> late then kill_debug W (hang l) p os
      else let sig = pw_wait W (pt os); os = ptick os in
      case sig of
        Wait_interrupted \<Rightarrow> debug_loop W args l p (saw (m_childPID p) Continue os)
      | Wait_timeout \<Rightarrow> kill_debug W (hang l) p os
      | Wait_failed e \<Rightarrow> kill_debug W (l\<lparr>exResult := fail_with (''sigtimedwait failed: '' @ e) (exResult l)\<rparr>) p os
      | Child_signal \<Rightarrow>
          let (status, p, os) = ask_status W p os in
          case status of
            No_child \<Rightarrow> kill_debug W (l\<lparr>exResult := fail_with ''waitpid encountered an error'' (exResult l)\<rparr>) p os
          | Nothing_yet \<Rightarrow> debug_loop W args l p os
          | Other_process \<Rightarrow> debug_loop W args l p os
          | Stopped sig \<Rightarrow> do {
              (e, l, os) \<leftarrow> handle_stop W p (fst (snd args)) (snd (snd args)) sig l os;
              (case e of
                 None \<Rightarrow> kill_debug W l p os
               | Some e \<Rightarrow> debug_loop W args l p (saw (m_childPID p) e os))
            }
          | Signaled sig \<Rightarrow> Some (killed_by sig (exResult l), p\<lparr>m_hasBeenRun := True\<rparr>, os)
          | Exited code \<Rightarrow> Some (exited_normally (exResult l), p\<lparr>ep_exitStatus := code, m_hasBeenRun := True\<rparr>, os))"

definition debug ::
    "proc_world \<Rightarrow> int \<Rightarrow> bool \<Rightarrow> bool \<Rightarrow> DebugExecutionOutput \<Rightarrow> ExternalProcess \<Rightarrow> proc_os \<Rightarrow>
     (DebugExecutionOutput \<times> ExternalProcess \<times> proc_os) option" where
  "debug W timeoutMilliseconds doPostMortemAnalysis fatal out p os =
     (if m_hasBeenRun p \<or> \<not> m_hasBeenInitialized p
      then Some (fail_with (''The process '' @ int_to_string (m_childPID p) @
        '' cannot run, as it is not in a runnable state'' @ [CHR 0x0A]) out, p, os)
      else let (p, os) = let_go p os;
               out = out\<lparr>m_PID := m_childPID p, m_terminationType := CLEAN,
                 m_terminationDescription := ''The target executed without any exception''\<rparr>
           in debug_loop W (timeoutMilliseconds \<noteq> 0xFFFFFFFF, doPostMortemAnalysis, fatal)
             \<lparr>isfirstStop = True, firstCrash = 0, lastCrash = 0, exResult = out\<rparr> (p\<lparr>m_isBeingDebugged := True\<rparr>) os)"

section \<open>Attaching\<close>

text \<open>\<open>atoi\<close>, and the number of the one process with the name; the listing of \<open>/proc\<close> has the content of the command lines.\<close>

definition atoi :: "string \<Rightarrow> int" where
  "atoi s = (case parse_number s of None \<Rightarrow> 0 | Some v \<Rightarrow> v)"

fun pid_in :: "string \<Rightarrow> int \<Rightarrow> (string \<times> bytes) list \<Rightarrow> int" where
  "pid_in processName pid [] = pid"
| "pid_in processName pid ((name, content) # ds) =
     (let cmdLine = takeWhile (\<lambda>c. c \<noteq> CHR 0x0A) content in
      if atoi name > 0 \<and> cmdLine \<noteq> [] \<and> takeWhile (\<lambda>c. c \<noteq> CHR 0x00) cmdLine = processName
      then if pid \<noteq> - 1 then - 1 else pid_in processName (atoi name) ds
      else pid_in processName pid ds)"

definition getPIDForProcessName :: "proc_world \<Rightarrow> string \<Rightarrow> proc_os \<Rightarrow> int \<times> proc_os" where
  "getPIDForProcessName W processName os = (pid_in processName (- 1) (pw_proc W (pt os)), ptick os)"

definition attachToProcess :: "proc_world \<Rightarrow> ExternalProcess \<Rightarrow> proc_os \<Rightarrow> (bool \<times> ExternalProcess \<times> proc_os) option" where
  "attachToProcess W p os =
     (case m_argv p of None \<Rightarrow> None | Some [] \<Rightarrow> None
      | Some (name # _) \<Rightarrow>
          let (pid, os) = getPIDForProcessName W name os in
          if pid < 0 then Some (False, p\<lparr>m_childPID := 0\<rparr>, os)
          else let p = p\<lparr>m_childPID := pid\<rparr> in
          if \<not> pw_attach W (pt os) then Some (False, p, ptick os)
          else let fd = pw_open W (pt (ptick os)); os = ptick (ptick os) in
            Some (True, p\<lparr>m_fd_pipe := (fst (m_fd_pipe p), fd), m_hasBeenInitialized := True\<rparr>,
              if fd \<noteq> - 1 then os\<lparr>p_fds := (p_fds os)(fd \<mapsto> Dev_null)\<rparr> else os))"

end
