(* ===== verification/ProcessFacts.thy ===== *)
theory ProcessFacts
  imports Process
begin

text \<open>
  What the operations on a process do to the child, as its events tell, to the file descriptors and to the object.
\<close>

section \<open>What the events say of a child\<close>

text \<open>\<open>Missed\<close>: a status was asked for while the child was stopped and nobody had let it go on.\<close>

datatype child_state = Runs | Halted | Gone | Missed

fun child_step :: "child_state \<Rightarrow> proc_event \<Rightarrow> child_state" where
  "child_step Gone e = Gone"
| "child_step Missed e = Missed"
| "child_step Halted (Saw s) = Missed"
| "child_step Runs (Saw s) =
     (case s of Stopped _ \<Rightarrow> Halted | Signaled _ \<Rightarrow> Gone | Exited _ \<Rightarrow> Gone | _ \<Rightarrow> Runs)"
| "child_step s (At ip) = s"
| "child_step s Kill = Gone"
| "child_step s Continue = Runs"
| "child_step s (Continue_with sig) = Runs"
| "child_step s Detach = Runs"

definition child_events :: "int \<Rightarrow> proc_os \<Rightarrow> proc_event list" where
  "child_events pid os = map snd (filter (\<lambda>e. fst e = pid) (p_log os))"

definition child_state :: "int \<Rightarrow> proc_os \<Rightarrow> child_state" where
  "child_state pid os = fold (\<lambda>e s. child_step s e) (child_events pid os) Runs"

lemma child_events_simps [simp]:
  "child_events pid (os\<lparr>pt := k\<rparr>) = child_events pid os" "child_events pid (os\<lparr>p_fds := f\<rparr>) = child_events pid os"
  "child_events pid (os\<lparr>s_allTimeSpent := t\<rparr>) = child_events pid os" "child_events pid (ptick os) = child_events pid os"
  "child_events pid (close_fd fd os) = child_events pid os"
  "child_events pid (saw pid e os) = child_events pid os @ [e]"
  "pid \<noteq> q \<Longrightarrow> child_events pid (saw q e os) = child_events pid os"
  by (simp_all add: child_events_def ptick_def close_fd_def saw_def)

lemma child_state_saw [simp]: "child_state pid (saw pid e os) = child_step (child_state pid os) e"
  by (simp add: child_state_def)

lemma child_state_same: "child_events pid os = child_events pid os' \<Longrightarrow> child_state pid os = child_state pid os'"
  by (simp add: child_state_def)

lemma child_state_simps [simp]:
  "child_state pid (os\<lparr>pt := k\<rparr>) = child_state pid os" "child_state pid (ptick os) = child_state pid os"
  "child_state pid (close_fd fd os) = child_state pid os"
  by (rule child_state_same, simp)+

lemma proc_os_simps [simp]:
  "p_fds (ptick os) = p_fds os" "p_fds (saw pid e os) = p_fds os" "p_log (ptick os) = p_log os"
  "p_fds (close_fd fd os) = (p_fds os)(fd := None)" "pt (saw pid e os) = pt os" "pt (ptick os) = Suc (pt os)"
  "pt (close_fd fd os) = pt os"
  by (simp_all add: ptick_def saw_def close_fd_def)

section \<open>The object\<close>

text \<open>Two states of an object that differ in nothing but times and results.\<close>

definition same_object :: "ExternalProcess \<Rightarrow> ExternalProcess \<Rightarrow> bool" where
  "same_object p q \<longleftrightarrow> m_childPID p = m_childPID q \<and> m_hasBeenInitialized p = m_hasBeenInitialized q \<and> m_argv p = m_argv q
    \<and> m_child_output_mode p = m_child_output_mode q \<and> m_targetIsSentNudges p = m_targetIsSentNudges q
    \<and> m_inputPipe p = m_inputPipe q \<and> m_outputPipe p = m_outputPipe q \<and> m_fd_pipe p = m_fd_pipe q"

lemma same_object_refl [simp]: "same_object p p"
  by (simp add: same_object_def)

lemma same_object_trans: "same_object p q \<Longrightarrow> same_object q r \<Longrightarrow> same_object p r"
  by (simp add: same_object_def)

lemma same_object_upd [simp]:
  "same_object p (q\<lparr>m_hasBeenRun := b\<rparr>) = same_object p q" "same_object p (q\<lparr>ep_exitStatus := e\<rparr>) = same_object p q"
  "same_object p (q\<lparr>m_isBeingDebugged := b\<rparr>) = same_object p q"
  by (simp_all add: same_object_def)

text \<open>A change that is none for children and descriptors.\<close>

definition same_os :: "proc_os \<Rightarrow> proc_os \<Rightarrow> bool" where
  "same_os a b \<longleftrightarrow> p_log a = p_log b \<and> p_fds a = p_fds b"

lemma same_os_refl [simp]: "same_os a a"
  by (simp add: same_os_def)

lemma same_os_trans: "same_os a b \<Longrightarrow> same_os b c \<Longrightarrow> same_os a c"
  by (simp add: same_os_def)

lemma same_os_tick [simp]: "same_os a (ptick b) = same_os a b" "same_os (ptick a) b = same_os a b"
  by (simp_all add: same_os_def ptick_def)

lemma same_os_events: "same_os a b \<Longrightarrow> child_events pid b = child_events pid a"
  by (simp add: same_os_def child_events_def)

lemma same_os_state: "same_os a b \<Longrightarrow> child_state pid b = child_state pid a"
  by (rule child_state_same) (rule same_os_events)

lemma updateTimeSpent_frame:
  assumes "updateTimeSpent W p os = (p', os')"
  shows "same_object p p'" "same_os os os'" "m_hasBeenRun p' = m_hasBeenRun p" "m_envp p' = m_envp p"
    "pt os \<le> pt os'"
  using assms by (auto simp: updateTimeSpent_def same_object_def same_os_def ptick_def Let_def split: if_splits option.splits)

lemma ask_status_frame:
  assumes "ask_status W p os = (st, p', os')"
  shows "same_object p p'" "m_hasBeenRun p' = m_hasBeenRun p" "p_fds os' = p_fds os"
    "p_log os' = p_log os @ [(m_childPID p, Saw st)]" "pt os < pt os'"
proof -
  obtain q os1 where u: "updateTimeSpent W p os = (q, os1)" by (cases "updateTimeSpent W p os")
  note f = updateTimeSpent_frame [OF u]
  show "same_object p p'" "m_hasBeenRun p' = m_hasBeenRun p" "p_fds os' = p_fds os"
    "p_log os' = p_log os @ [(m_childPID p, Saw st)]" "pt os < pt os'"
    using assms f by (auto simp: ask_status_def u Let_def same_os_def saw_def same_object_def)
qed

section \<open>Ending\<close>

lemma reap_os: "reap W os = Some os' \<Longrightarrow> same_os os os' \<and> pt os < pt os'"
proof (erule reap.raw_induct [rotated], goal_cases)
  case (1 rec W os os')
  then show ?case by (fastforce split: if_splits simp: same_os_def ptick_def)
qed

text \<open>A child of an object that was started.\<close>

definition has_child :: "ExternalProcess \<Rightarrow> bool" where
  "has_child p \<longleftrightarrow> m_hasBeenInitialized p \<and> m_argv p \<noteq> None \<and> m_childPID p \<noteq> 0"

lemma has_child_same: "same_object p q \<Longrightarrow> has_child q = has_child p"
  by (simp add: same_object_def has_child_def)

lemma die_frame:
  assumes "die W p os = Some (p', os')" and "has_child p"
  shows "same_object p p'" "p_fds os' = p_fds os" "p_log os' = p_log os @ [(m_childPID p, Kill)]"
proof -
  obtain q os1 where u: "updateTimeSpent W p os = (q, os1)" by (cases "updateTimeSpent W p os")
  note f = updateTimeSpent_frame [OF u]
  have c: "m_childPID q = m_childPID p" using f(1) by (simp add: same_object_def)
  from assms u c obtain os2 where r: "reap W (saw (m_childPID p) Kill os1) = Some os2" "p' = q" "os' = os2"
    by (auto simp: die_def has_child_def)
  from reap_os [OF r(1)] f r show "same_object p p'" "p_fds os' = p_fds os" "p_log os' = p_log os @ [(m_childPID p, Kill)]"
    by (simp_all add: same_os_def saw_def)
qed

text \<open>How a run ends: the child is gone, the events of others and the descriptors are as they were.\<close>

definition ends_child :: "ExternalProcess \<Rightarrow> proc_os \<Rightarrow> ExternalProcess \<Rightarrow> proc_os \<Rightarrow> bool" where
  "ends_child p os p' os' \<longleftrightarrow> same_object p p' \<and> m_hasBeenRun p' \<and> p_fds os' = p_fds os \<and>
     child_state (m_childPID p) os' = Gone \<and>
     (\<forall>q. q \<noteq> m_childPID p \<longrightarrow> child_events q os' = child_events q os)"

text \<open>What happens to the child while its object is at work.\<close>

definition child_only :: "ExternalProcess \<Rightarrow> proc_os \<Rightarrow> proc_os \<Rightarrow> bool" where
  "child_only p os os' \<longleftrightarrow> p_fds os' = p_fds os \<and> (\<forall>q. q \<noteq> m_childPID p \<longrightarrow> child_events q os' = child_events q os)"

lemma child_only_refl [simp]: "child_only p os os"
  by (simp add: child_only_def)

lemma child_only_trans: "child_only p a b \<Longrightarrow> child_only p b c \<Longrightarrow> child_only p a c"
  by (simp add: child_only_def)

lemma child_only_simps [simp]:
  "child_only p a (ptick b) = child_only p a b" "child_only p a (saw (m_childPID p) e b) = child_only p a b"
  "child_only p (ptick a) b = child_only p a b"
  by (auto simp: child_only_def)

lemma child_only_log:
  "p_fds os' = p_fds os \<Longrightarrow> p_log os' = p_log os @ [(m_childPID p, e)] \<Longrightarrow> child_only p os os'"
  by (simp add: child_only_def child_events_def)

lemma child_state_log: "p_log os' = p_log os @ [(pid, e)] \<Longrightarrow> child_state pid os' = child_step (child_state pid os) e"
  by (simp add: child_state_def child_events_def)

lemma kill_run_ends:
  assumes "kill_run W q os1 = Some (p', os')" and "has_child p" and "same_object p q" and "child_only p os os1"
    and "child_state (m_childPID p) os1 \<noteq> Missed"
  shows "ends_child p os p' os'"
proof -
  from assms(1) obtain r where d: "die W q os1 = Some (r, os')" "p' = r\<lparr>m_hasBeenRun := True\<rparr>" by (auto simp: kill_run_def)
  have q: "m_childPID q = m_childPID p" "has_child q" using assms(2,3) by (simp_all add: same_object_def has_child_def)
  note f = die_frame [OF d(1) q(2)]
  have s: "child_step (child_state (m_childPID p) os1) Kill = Gone"
    using assms(5) by (cases "child_state (m_childPID p) os1") simp_all
  have "child_only p os1 os'" using f q(1) by (intro child_only_log) simp_all
  with assms(4) have "child_only p os os'" by (rule child_only_trans)
  moreover have "child_state (m_childPID p) os' = Gone" using child_state_log [of os' os1 "m_childPID p" Kill] f q(1) s by simp
  moreover have "same_object p p'" using same_object_trans [OF assms(3) f(1)] d(2) by simp
  ultimately show ?thesis using d(2) by (simp add: ends_child_def child_only_def)
qed

section \<open>The loops\<close>

text \<open>A child that runs before the status is asked for.\<close>

lemma ask_status_child:
  assumes "ask_status W q os1 = (st, r, os2)" and "same_object p q" and "child_only p os os1"
  shows "same_object p r" "child_only p os os2" "m_childPID r = m_childPID p"
    "child_state (m_childPID p) os2 = child_step (child_state (m_childPID p) os1) (Saw st)"
proof -
  note f = ask_status_frame [OF assms(1)]
  have c: "m_childPID q = m_childPID p" using assms(2) by (simp add: same_object_def)
  show "same_object p r" by (rule same_object_trans [OF assms(2) f(1)])
  then show "m_childPID r = m_childPID p" by (simp add: same_object_def)
  have "child_only p os1 os2" using f c by (intro child_only_log) simp_all
  with assms(3) show "child_only p os os2" by (rule child_only_trans)
  show "child_state (m_childPID p) os2 = child_step (child_state (m_childPID p) os1) (Saw st)"
    using child_state_log [of os2 os1 "m_childPID p"] f c by simp
qed

text \<open>The child is let go, or gone.\<close>

definition lets_child :: "ExternalProcess \<Rightarrow> proc_os \<Rightarrow> ExternalProcess \<Rightarrow> proc_os \<Rightarrow> bool" where
  "lets_child p os p' os' \<longleftrightarrow> same_object p p' \<and> m_hasBeenRun p' \<and> child_only p os os' \<and>
     child_state (m_childPID p) os' \<in> {Runs, Gone}"

lemma run_loop_ends:
  assumes "run_loop W q os1 = Some (ok, p', os')" and "has_child p" and "same_object p q" and "child_only p os os1"
    and "child_state (m_childPID p) os1 \<in> {Runs, Gone}"
  shows "if ok then lets_child p os p' os' else ends_child p os p' os'"
proof -
  have "same_object p q \<longrightarrow> child_only p os os1 \<longrightarrow> child_state (m_childPID p) os1 \<in> {Runs, Gone} \<longrightarrow>
    (if fst (ok, p', os') then lets_child p os (fst (snd (ok, p', os'))) (snd (snd (ok, p', os')))
     else ends_child p os (fst (snd (ok, p', os'))) (snd (snd (ok, p', os'))))"
  proof (rule run_loop.raw_induct [OF _ assms(1)], goal_cases)
    case (1 rec W q os1 y)
    show ?case
    proof (intro impI)
      assume q: "same_object p q" and o: "child_only p os os1" and s: "child_state (m_childPID p) os1 \<in> {Runs, Gone}"
      have c: "m_childPID q = m_childPID p" using q by (simp add: same_object_def)
      note step = 1(2) [unfolded Let_def]
      have kill: "ends_child p os p' os'" if "kill_run W r os2 = Some (p', os')" "same_object p r" "child_only p os os2"
        "child_state (m_childPID p) os2 \<noteq> Missed" for r os2 p' os'
        by (rule kill_run_ends [OF that(1) assms(2) that(2-4)])
      show "if fst y then lets_child p os (fst (snd y)) (snd (snd y)) else ends_child p os (fst (snd y)) (snd (snd y))"
      proof (cases "pw_wait W (pt os1)")
        case Wait_interrupted
        have "child_state (m_childPID p) (saw (m_childPID q) Continue (ptick os1)) \<in> {Runs, Gone}" using s c by auto
        moreover have "rec W q (saw (m_childPID q) Continue (ptick os1)) = Some y" using step Wait_interrupted by simp
        ultimately show ?thesis using 1(1) [of W q "saw (m_childPID q) Continue (ptick os1)" y] q o c by simp
      next
        case Wait_timeout
        then obtain p' os' where y: "kill_run W q (ptick os1) = Some (p', os')" "y = (False, p', os')" using step by auto
        have "child_state (m_childPID p) (ptick os1) \<noteq> Missed" using s by auto
        with kill [OF y(1) q] o y(2) show ?thesis by simp
      next
        case (Wait_failed e)
        then obtain p' os' where y: "kill_run W q (ptick os1) = Some (p', os')" "y = (False, p', os')" using step by auto
        have "child_state (m_childPID p) (ptick os1) \<noteq> Missed" using s by auto
        with kill [OF y(1) q] o y(2) show ?thesis by simp
      next
        case Child_signal
        obtain st r os2 where a: "ask_status W q (ptick os1) = (st, r, os2)" by (cases "ask_status W q (ptick os1)")
        have o': "child_only p os (ptick os1)" using o by simp
        note f = ask_status_child [OF a q o']
        have n: "child_state (m_childPID p) os2 \<in> (case st of Stopped _ \<Rightarrow> {Halted, Gone} | _ \<Rightarrow> {Runs, Gone})"
          using f(4) s by (auto split: child_status.splits)
        have again: ?thesis if "rec W r os2 = Some y" "child_state (m_childPID p) os2 \<in> {Runs, Gone}"
          using 1(1) [OF that(1)] f(1,2) that(2) by blast
        show ?thesis
        proof (cases st)
          case No_child
          with step Child_signal a obtain p' os' where y: "kill_run W r os2 = Some (p', os')" "y = (False, p', os')" by auto
          have "child_state (m_childPID p) os2 \<noteq> Missed" using n No_child by auto
          with kill [OF y(1) f(1,2)] y(2) show ?thesis by simp
        next
          case (Stopped sig)
          with step Child_signal a have "y = (True, r\<lparr>m_hasBeenRun := True\<rparr>, saw (m_childPID r) Detach os2)" by auto
          then show ?thesis using f n Stopped by (auto simp: lets_child_def)
        qed (rule again, use step Child_signal a n in simp, use n in simp)+
      qed
    qed
  qed
  with assms(3-5) show ?thesis by (cases ok) simp_all
qed

lemma completion_loop_ends:
  assumes "completion_loop W b q os1 = Some (ok, p', os')" and "has_child p" and "same_object p q" and "child_only p os os1"
    and "child_state (m_childPID p) os1 = Runs"
  shows "ends_child p os p' os'"
proof -
  have "same_object p q \<longrightarrow> child_only p os os1 \<longrightarrow> child_state (m_childPID p) os1 = Runs \<longrightarrow>
    ends_child p os (fst (snd (ok, p', os'))) (snd (snd (ok, p', os')))"
  proof (rule completion_loop.raw_induct [OF _ assms(1)], goal_cases)
    case (1 rec W b q os1 y)
    show ?case
    proof (intro impI)
      assume q: "same_object p q" and o: "child_only p os os1" and s: "child_state (m_childPID p) os1 = Runs"
      have c: "m_childPID q = m_childPID p" using q by (simp add: same_object_def)
      note step = 1(2) [unfolded Let_def]
      have kill: "ends_child p os (fst (snd y)) (snd (snd y))"
        if "map_option (Pair ok) (kill_run W r os2) = Some y" "same_object p r" "child_only p os os2"
        "child_state (m_childPID p) os2 \<noteq> Missed" for r os2 ok
        using kill_run_ends [OF _ assms(2) that(2-4)] that(1) by auto
      have again: "ends_child p os (fst (snd y)) (snd (snd y))" if "rec W b' r os2 = Some y" "same_object p r" "child_only p os os2"
        "child_state (m_childPID p) os2 = Runs" for b' r os2
        using 1(1) [OF that(1)] that(2-4) by blast
      show "ends_child p os (fst (snd y)) (snd (snd y))"
      proof (cases "pw_wait W (pt os1)")
        case Wait_interrupted
        show ?thesis by (rule again [of b q "saw (m_childPID q) Continue (ptick os1)"]) (use step Wait_interrupted q o c s in simp_all)
      next
        case Wait_timeout
        show ?thesis by (rule kill [of False q "ptick os1"]) (use step Wait_timeout q o s in simp_all)
      next
        case (Wait_failed e)
        show ?thesis by (rule kill [of False q "ptick os1"]) (use step Wait_failed q o s in simp_all)
      next
        case Child_signal
        obtain st r os2 where a: "ask_status W q (ptick os1) = (st, r, os2)" by (cases "ask_status W q (ptick os1)")
        have o': "child_only p os (ptick os1)" using o by simp
        note f = ask_status_child [OF a q o'] and step = step [unfolded Child_signal a wait_result.case prod.case]
        show ?thesis
        proof (cases st)
          case No_child
          show ?thesis by (rule kill [of False r os2]) (use step f s No_child in simp_all)
        next
          case Nothing_yet
          show ?thesis by (rule again [of b r os2]) (use step f s Nothing_yet in simp_all)
        next
          case Other_process
          show ?thesis by (rule again [of b r os2]) (use step f s Other_process in simp_all)
        next
          case (Stopped sig)
          show ?thesis
          proof (cases "after_stop b sig")
            case None
            show ?thesis by (rule kill [of True r os2]) (use step f s Stopped None in simp_all)
          next
            case (Some e)
            then have e: "e = Continue" by (simp add: after_stop_def split: if_splits)
            show ?thesis by (rule again [of False r "saw (m_childPID r) e os2"]) (use step f s Stopped Some e in simp_all)
          qed
        next
          case (Signaled sig)
          with step f s show ?thesis by (auto simp: ends_child_def child_only_def)
        next
          case (Exited code)
          with step f s show ?thesis by (auto simp: ends_child_def child_only_def)
        qed
      qed
    qed
  qed
  with assms(3-5) show ?thesis by simp
qed

section \<open>Stops\<close>

lemma describe_os:
  assumes "describe W post ip store l os = Some (l', os')"
  shows "same_os os os'" and "pt os \<le> pt os'" and "isfirstStop l' = isfirstStop l"
    and "firstCrash l' = firstCrash l" and "lastCrash l' = lastCrash l"
  using assms by (auto simp: describe_def addrToRVAString_def split: if_splits)

lemma handle_exception_frame:
  assumes "handle_exception W pid post fatal sig l os = Some (g, l', os')"
  shows "p_fds os' = p_fds os" and "p_log os' = p_log os @ [(pid, At (pw_rip W (pt os)))]" and "pt os < pt os'"
proof -
  let ?l = "l\<lparr>exResult := exception_type sig (exResult l)\<rparr>" let ?ip = "pw_rip W (pt os)"
  let ?os = "ptick (saw pid (At ?ip) os)"
  from assms obtain l1 os1 where 1: "(if firstCrash ?l = 0
      then describe W post ?ip first_crash_at (?l\<lparr>firstCrash := ?ip\<rparr>) ?os else Some (?l, ?os)) = Some (l1, os1)"
    by (auto simp: handle_exception_def Let_def bind_eq_Some_conv)
  then have s1: "same_os ?os os1 \<and> pt ?os \<le> pt os1" by (auto split: if_splits dest: describe_os)
  note u = assms [unfolded handle_exception_def Let_def 1 Option.bind.bind_lunit prod.case]
  have "same_os os1 os' \<and> pt os1 \<le> pt os'" using u by (auto split: if_splits dest: describe_os)
  with s1 have "same_os ?os os'" "pt os < pt os'" by (auto intro: same_os_trans)
  then show "p_fds os' = p_fds os" "p_log os' = p_log os @ [(pid, At (pw_rip W (pt os)))]" "pt os < pt os'"
    by (simp_all add: same_os_def) (simp add: saw_def)
qed

lemma handle_stop_frame:
  assumes "handle_stop W q post fatal sig l os1 = Some (e, l', os2)" and "m_childPID q = m_childPID p" and "child_only p os os1"
    and "child_state (m_childPID p) os1 = Halted"
  shows "child_only p os os2" and "child_state (m_childPID p) os2 = Halted" and "e \<in> {None, Some Continue, Some (Continue_with sig)}"
    and "pt os1 \<le> pt os2"
proof -
  consider (same) "os2 = os1" "e \<in> {None, Some Continue, Some (Continue_with sig)}"
    | (exc) g where "handle_exception W (m_childPID q) post fatal sig l os1 = Some (g, l', os2)" "e = (if g then Some (Continue_with sig) else None)"
    using assms(1) by (auto simp: handle_stop_def split: if_splits)
  then have "child_only p os os2 \<and> child_state (m_childPID p) os2 = Halted \<and> e \<in> {None, Some Continue, Some (Continue_with sig)} \<and> pt os1 \<le> pt os2"
  proof cases
    case same
    then show ?thesis using assms(3,4) by auto
  next
    case exc
    note f = handle_exception_frame [OF exc(1)]
    have "child_only p os1 os2" using f assms(2) by (intro child_only_log) simp_all
    then have "child_only p os os2" by (rule child_only_trans [OF assms(3)])
    moreover have "child_state (m_childPID p) os2 = Halted"
      using child_state_log [of os2 os1 "m_childPID p"] f assms(2,4) by simp
    ultimately show ?thesis using exc(2) f(3) by simp
  qed
  then show "child_only p os os2" and "child_state (m_childPID p) os2 = Halted"
    and "e \<in> {None, Some Continue, Some (Continue_with sig)}" and "pt os1 \<le> pt os2" by simp_all
qed

section \<open>Debugging\<close>

lemma kill_debug_run: "kill_debug W l q os = Some (out, p', os') \<longleftrightarrow> kill_run W q os = Some (p', os') \<and> out = exResult l"
  by (auto simp: kill_debug_def)

text \<open>
  A property of the events and the local variables at the head of the loop that its steps keep is a property of the end.
  The cases of an iteration are those of its events.
\<close>

lemma debug_loop_rule:
  assumes "debug_loop W args l q os1 = Some (out, p', os')" and "I l q os1"
    and idle: "\<And>l q os k. I l q os \<Longrightarrow> I l q (saw (m_childPID q) Continue (os\<lparr>pt := k\<rparr>))"
    and asked: "\<And>l q os st r os2. I l q os \<Longrightarrow> ask_status W q (os\<lparr>pt := Suc (Suc (pt os))\<rparr>) = (st, r, os2) \<Longrightarrow> J st l r os2"
    and going: "\<And>st l r os. J st l r os \<Longrightarrow> st \<in> {Nothing_yet, Other_process} \<Longrightarrow> I l r os"
    and stopped: "\<And>sig l r os e l' os2. J (Stopped sig) l r os \<Longrightarrow>
      handle_stop W r (fst (snd args)) (snd (snd args)) sig l os = Some (Some e, l', os2) \<Longrightarrow> I l' r (saw (m_childPID r) e os2)"
    and hung: "\<And>l q os k. I l q os \<Longrightarrow> kill_run W q (os\<lparr>pt := k\<rparr>) = Some (p', os') \<Longrightarrow> Q (exResult (hang l)) p' os'"
    and failed: "\<And>l q os k e. I l q os \<Longrightarrow> kill_run W q (os\<lparr>pt := k\<rparr>) = Some (p', os') \<Longrightarrow> Q (fail_with e (exResult l)) p' os'"
    and no_child: "\<And>l r os e. J No_child l r os \<Longrightarrow> kill_run W r os = Some (p', os') \<Longrightarrow> Q (fail_with e (exResult l)) p' os'"
    and killed: "\<And>sig l r os l' os2. J (Stopped sig) l r os \<Longrightarrow>
      handle_stop W r (fst (snd args)) (snd (snd args)) sig l os = Some (None, l', os2) \<Longrightarrow>
      kill_run W r os2 = Some (p', os') \<Longrightarrow> Q (exResult l') p' os'"
    and signaled: "\<And>sig l r os. J (Signaled sig) l r os \<Longrightarrow> p' = r\<lparr>m_hasBeenRun := True\<rparr> \<Longrightarrow> os' = os \<Longrightarrow>
      Q (killed_by sig (exResult l)) p' os'"
    and exited: "\<And>code l r os. J (Exited code) l r os \<Longrightarrow> p' = r\<lparr>ep_exitStatus := code, m_hasBeenRun := True\<rparr> \<Longrightarrow> os' = os \<Longrightarrow>
      Q (exited_normally (exResult l)) p' os'"
  shows "Q out p' os'"
proof -
  define y where "y = (out, p', os')"
  have "W = W \<longrightarrow> args = args \<longrightarrow> y = (out, p', os') \<longrightarrow> I l q os1 \<longrightarrow> Q out p' os'"
  proof (rule debug_loop.raw_induct [where P = "\<lambda>W' args' l q os1 y. W' = W \<longrightarrow> args' = args \<longrightarrow> y = (out, p', os') \<longrightarrow>
      I l q os1 \<longrightarrow> Q out p' os'", OF _ assms(1) [folded y_def]], goal_cases)
    case (1 rec W' args' l q os y)
    show ?case
    proof (intro impI)
      assume W: "W' = W" and args: "args' = args" and y: "y = (out, p', os')" and i: "I l q os"
      note step = 1(2) [unfolded Let_def W args y]
      have t: "ptick os = os\<lparr>pt := Suc (pt os)\<rparr>" "ptick (ptick os) = os\<lparr>pt := Suc (Suc (pt os))\<rparr>" by (simp_all add: ptick_def)
      have again: "Q out p' os'" if "rec W args l' r os2 = Some (out, p', os')" "I l' r os2" for l' r os2
        using 1(1) [OF that(1)] that(2) by simp
      show "Q out p' os'"
      proof (cases "fst args \<and> pw_late W (pt os)")
        case True
        with step have "kill_run W q (os\<lparr>pt := Suc (pt os)\<rparr>) = Some (p', os')" "out = exResult (hang l)"
          by (simp_all add: kill_debug_run t)
        with hung [OF i] show ?thesis by simp
      next
        case late: False
        note step = step [unfolded if_not_P [OF late]]
        show ?thesis
        proof (cases "pw_wait W (pt (ptick os))")
          case Wait_interrupted
          have "I l q (saw (m_childPID q) Continue (ptick (ptick os)))" unfolding t(2) by (rule idle [OF i])
          with again step Wait_interrupted show ?thesis by simp
        next
          case Wait_timeout
          with step have "kill_run W q (ptick (ptick os)) = Some (p', os')" "out = exResult (hang l)" by (simp_all add: kill_debug_run)
          with hung [OF i, of "Suc (Suc (pt os))"] show ?thesis unfolding t(2) [symmetric] by simp
        next
          case (Wait_failed e)
          with step have "kill_run W q (ptick (ptick os)) = Some (p', os')" "out = fail_with (''sigtimedwait failed: '' @ e) (exResult l)"
            by (simp_all add: kill_debug_run)
          with failed [OF i, of "Suc (Suc (pt os))"] show ?thesis unfolding t(2) [symmetric] by simp
        next
          case Child_signal
          obtain st r os2 where a: "ask_status W q (ptick (ptick os)) = (st, r, os2)" by (cases "ask_status W q (ptick (ptick os))")
          note step = step [unfolded Child_signal a wait_result.case prod.case]
          have j: "J st l r os2" by (rule asked [OF i a [unfolded t(2)]])
          show ?thesis
          proof (cases st)
            case No_child
            with step have "kill_run W r os2 = Some (p', os')" "out = fail_with ''waitpid encountered an error'' (exResult l)"
              by (simp_all add: kill_debug_run)
            with no_child j No_child show ?thesis by simp
          next
            case Nothing_yet
            with step j show ?thesis by (intro again [of l r os2] going [of st]) simp_all
          next
            case Other_process
            with step j show ?thesis by (intro again [of l r os2] going [of st]) simp_all
          next
            case (Stopped sig)
            with step obtain e l' os3 where h: "handle_stop W r (fst (snd args)) (snd (snd args)) sig l os2 = Some (e, l', os3)"
              by (auto simp: bind_eq_Some_conv)
            show ?thesis
            proof (cases e)
              case None
              with step Stopped h have "kill_run W r os3 = Some (p', os')" "out = exResult l'" by (simp_all add: kill_debug_run)
              with killed j h Stopped None show ?thesis by simp
            next
              case (Some e1)
              have "I l' r (saw (m_childPID r) e1 os3)" using stopped j h Stopped Some by simp
              with again step Stopped h Some show ?thesis by simp
            qed
          next
            case (Signaled sig)
            with step have "p' = r\<lparr>m_hasBeenRun := True\<rparr>" "os' = os2" "out = killed_by sig (exResult l)" by auto
            with signaled j Signaled show ?thesis by simp
          next
            case (Exited code)
            with step have "p' = r\<lparr>ep_exitStatus := code, m_hasBeenRun := True\<rparr>" "os' = os2" "out = exited_normally (exResult l)" by auto
            with exited j Exited show ?thesis by simp
          qed
        qed
      qed
    qed
  qed
  with assms(2) show ?thesis by (simp add: y_def)
qed

lemma child_only_pt [simp]: "child_only p a (b\<lparr>pt := k\<rparr>) = child_only p a b"
  by (simp add: child_only_def)

lemma same_object_pid: "same_object p q \<Longrightarrow> m_childPID q = m_childPID p"
  by (simp add: same_object_def)

lemma debug_loop_ends:
  assumes "debug_loop W args l q os1 = Some (out, p', os')" and "has_child p" and "same_object p q" and "child_only p os os1"
    and "child_state (m_childPID p) os1 = Runs"
  shows "ends_child p os p' os'"
proof (rule debug_loop_rule [where Q = "\<lambda>out p' os'. ends_child p os p' os'" and
      I = "\<lambda>l q os1. same_object p q \<and> child_only p os os1 \<and> child_state (m_childPID p) os1 = Runs" and
      J = "\<lambda>st l r os1. same_object p r \<and> child_only p os os1 \<and> child_state (m_childPID p) os1 = child_step Runs (Saw st)",
      OF assms(1)], goal_cases)
  case 1
  show ?case using assms(3-5) by simp
next
  case (2 l q os1 k)
  then show ?case by (simp add: same_object_pid [of p q])
next
  case (3 l q os1 st r os2)
  have o: "child_only p os (os1\<lparr>pt := Suc (Suc (pt os1))\<rparr>)" using 3 by simp
  from ask_status_child [OF 3(2) _ o] 3(1) show ?case by simp
next
  case (4 st l r os1)
  then show ?case by auto
next
  case (5 sig l r os1 e l' os2)
  have h: "child_state (m_childPID p) os1 = Halted" using 5 by simp
  have c: "m_childPID r = m_childPID p" "child_only p os os1" using 5(1) by (simp_all add: same_object_pid)
  from handle_stop_frame [OF 5(2) c h] 5(1) c(1) show ?case by auto
next
  case (6 l q os1 k)
  have "child_only p os (os1\<lparr>pt := k\<rparr>)" "child_state (m_childPID p) (os1\<lparr>pt := k\<rparr>) \<noteq> Missed" using 6(1) by simp_all
  with kill_run_ends [OF 6(2) assms(2)] 6(1) show ?case by blast
next
  case (7 l q os1 k e)
  have "child_only p os (os1\<lparr>pt := k\<rparr>)" "child_state (m_childPID p) (os1\<lparr>pt := k\<rparr>) \<noteq> Missed" using 7(1) by simp_all
  with kill_run_ends [OF 7(2) assms(2)] 7(1) show ?case by blast
next
  case (8 l r os1 e)
  have "child_state (m_childPID p) os1 \<noteq> Missed" using 8(1) by simp
  with kill_run_ends [OF 8(2) assms(2)] 8(1) show ?case by blast
next
  case (9 sig l r os1 l' os2)
  have h: "child_state (m_childPID p) os1 = Halted" using 9 by simp
  have c: "m_childPID r = m_childPID p" "child_only p os os1" using 9(1) by (simp_all add: same_object_pid)
  note f = handle_stop_frame [OF 9(2) c h]
  have "child_only p os os2" "child_state (m_childPID p) os2 \<noteq> Missed" using f 9(1) by auto
  with kill_run_ends [OF 9(3) assms(2)] 9(1) show ?case by blast
next
  case (10 sig l r os1)
  then show ?case by (simp add: ends_child_def child_only_def)
next
  case (11 code l r os1)
  then show ?case by (simp add: ends_child_def child_only_def)
qed

section \<open>Returning\<close>

text \<open>From some question on it is late, and the child that was killed is gone in the end.\<close>

definition in_time :: "proc_world \<Rightarrow> bool" where
  "in_time W \<longleftrightarrow> (\<exists>n. \<forall>k \<ge> n. pw_late W k)"

definition dies :: "proc_world \<Rightarrow> bool" where
  "dies W \<longleftrightarrow> (\<forall>n. \<exists>k \<ge> n. pw_gone W k)"

definition maps_readable :: "proc_world \<Rightarrow> bool" where
  "maps_readable W \<longleftrightarrow> (\<forall>k ip. rva_in ip (file_lines (pw_maps W k)) \<noteq> None)"

lemma reap_returns: "dies W \<Longrightarrow> \<exists>os'. reap W os = Some os'"
proof -
  have "\<exists>os'. reap W os = Some os'" if "pw_gone W (pt os + k)" for k
    using that
  proof (induction k arbitrary: os)
    case 0
    then show ?case by (subst reap.simps) simp
  next
    case (Suc k)
    then have "pw_gone W (pt (ptick os) + k)" by simp
    from Suc.IH [OF this] show ?case by (subst reap.simps) simp
  qed
  moreover assume "dies W"
  ultimately show ?thesis unfolding dies_def by (metis le_iff_add)
qed

lemma kill_run_returns: "dies W \<Longrightarrow> has_child q \<Longrightarrow> \<exists>p' os'. kill_run W q os = Some (p', os')"
proof -
  assume d: "dies W" and c: "has_child q"
  obtain r os1 where u: "updateTimeSpent W q os = (r, os1)" by (cases "updateTimeSpent W q os")
  obtain os2 where "reap W (saw (m_childPID r) Kill os1) = Some os2" using reap_returns [OF d] by blast
  then show ?thesis using c u by (auto simp: kill_run_def die_def has_child_def)
qed

lemma describe_returns: "maps_readable W \<Longrightarrow> \<exists>l' os'. describe W post ip store l os = Some (l', os')"
  by (cases post) (auto simp: describe_def addrToRVAString_def maps_readable_def)

lemma handle_stop_returns:
  assumes "maps_readable W" shows "\<exists>r. handle_stop W q post fatal sig l os = Some r"
proof -
  have "\<exists>r. handle_exception W (m_childPID q) post fatal sig l os = Some r"
  proof -
    let ?ip = "pw_rip W (pt os)" let ?os = "ptick (saw (m_childPID q) (At ?ip) os)" let ?l = "l\<lparr>exResult := exception_type sig (exResult l)\<rparr>"
    obtain l1 os1 where 1: "(if firstCrash ?l = 0
      then describe W post ?ip first_crash_at (?l\<lparr>firstCrash := ?ip\<rparr>) ?os else Some (?l, ?os)) = Some (l1, os1)"
      using describe_returns [OF assms, of post ?ip first_crash_at "?l\<lparr>firstCrash := ?ip\<rparr>" ?os] by (cases "firstCrash ?l = 0") auto
    obtain a b where "describe W post ?ip last_crash_at l1 os1 = Some (a, b)" using describe_returns [OF assms] by blast
    moreover obtain c d where "describe W post ?ip last_crash_at (l1\<lparr>lastCrash := ?ip\<rparr>) os1 = Some (c, d)"
      using describe_returns [OF assms] by blast
    ultimately show ?thesis unfolding handle_exception_def Let_def 1 Option.bind.bind_lunit prod.case by auto
  qed
  then obtain r where "handle_exception W (m_childPID q) post fatal sig l os = Some r" by blast
  then show ?thesis by (cases r) (simp add: handle_stop_def)
qed

lemma debug_loop_returns:
  assumes "dies W" and "maps_readable W" and "\<forall>k \<ge> n. pw_late W k" and "fst args" and "has_child q"
  shows "\<exists>r. debug_loop W args l q os = Some r"
  using assms(5)
proof (induction "Suc n - pt os" arbitrary: l q os rule: less_induct)
  case less
  have kill: "\<exists>r. kill_debug W l' r1 os1 = Some r" if "has_child r1" for l' r1 os1
    using kill_run_returns [OF assms(1) that, of os1] by (auto simp: kill_debug_def)
  show ?case
  proof (cases "pw_late W (pt os)")
    case True
    then show ?thesis using kill [OF less(2)] assms(4) by (subst debug_loop.simps) (simp add: Let_def)
  next
    case False
    then have lt: "pt os < n" using assms(3) by (meson not_le)
    have again: "\<exists>r. debug_loop W args l' r1 os1 = Some r" if "has_child r1" "pt os < pt os1" for l' r1 os1
      using less(1) [OF _ that(1), of os1 l'] that(2) lt by simp
    show ?thesis
    proof (cases "pw_wait W (pt (ptick os))")
      case Wait_interrupted
      then show ?thesis using False again [OF less(2), of "saw (m_childPID q) Continue (ptick (ptick os))" l]
        by (subst debug_loop.simps) (simp add: Let_def)
    next
      case Wait_timeout
      then show ?thesis using False kill [OF less(2)] by (subst debug_loop.simps) (simp add: Let_def)
    next
      case (Wait_failed e)
      then show ?thesis using False kill [OF less(2)] by (subst debug_loop.simps) (simp add: Let_def)
    next
      case Child_signal
      obtain st r1 os2 where a: "ask_status W q (ptick (ptick os)) = (st, r1, os2)" by (cases "ask_status W q (ptick (ptick os))")
      note f = ask_status_frame [OF a]
      have c: "has_child r1" using f(1) less(2) by (simp add: has_child_same)
      have t: "pt os < pt os2" using f(5) by simp
      note s = False Child_signal a
      show ?thesis
      proof (cases st)
        case (Stopped sig)
        obtain e l' os3 where h: "handle_stop W r1 (fst (snd args)) (snd (snd args)) sig l os2 = Some (e, l', os3)"
          using handle_stop_returns [OF assms(2)] by (metis prod_cases3)
        have t3: "pt os2 \<le> pt os3" using h by (auto simp: handle_stop_def split: if_splits dest: handle_exception_frame(3))
        show ?thesis
        proof (cases e)
          case None
          then show ?thesis using s Stopped h kill [OF c] by (subst debug_loop.simps) (simp add: Let_def)
        next
          case (Some e1)
          have "pt os < pt (saw (m_childPID r1) e1 os3)" using t t3 by simp
          from again [OF c this] show ?thesis using s Stopped h Some by (subst debug_loop.simps) (simp add: Let_def)
        qed
      qed (use s again [OF c t] kill [OF c] in \<open>subst debug_loop.simps, simp add: Let_def\<close>)+
    qed
  qed
qed

end
