(* ===== verification/ProcessCrash.thy ===== *)
theory ProcessCrash
  imports ProcessFacts
begin

text \<open>
  What the debugger reports of a run in terms of the child's events: the places of the first and the last exception and
  the type of the end.
\<close>

section \<open>Exceptions\<close>

definition stop_at :: "proc_event \<Rightarrow> proc_event \<Rightarrow> (int \<times> 64 word) list" where
  "stop_at a b = (case (a, b) of (Saw (Stopped sig), At ip) \<Rightarrow> [(sig, ip)] | _ \<Rightarrow> [])"

text \<open>The stops at which the instruction pointer was looked at, each with its signal.\<close>

definition exceptions :: "proc_event list \<Rightarrow> (int \<times> 64 word) list" where
  "exceptions es = concat (map2 stop_at es (tl es))"

lemma exceptions_Nil [simp]: "exceptions [] = []"
  by (simp add: exceptions_def)

lemma zip_tl_snoc: "es \<noteq> [] \<Longrightarrow> zip (es @ [e]) (tl es @ [e]) = zip es (tl es) @ [(last es, e)]"
proof (induction es)
  case (Cons x es)
  then show ?case by (cases es) simp_all
qed simp

lemma exceptions_snoc: "exceptions (es @ [e]) = exceptions es @ (if es = [] then [] else stop_at (last es) e)"
  by (cases "es = []") (simp_all add: exceptions_def zip_tl_snoc)

lemma exceptions_other: "(\<And>ip. e \<noteq> At ip) \<Longrightarrow> exceptions (es @ [e]) = exceptions es"
  by (auto simp: exceptions_snoc stop_at_def split: proc_event.splits child_status.splits)

lemma exceptions_events [simp]:
  "exceptions (es @ [Saw st]) = exceptions es" "exceptions (es @ [Continue]) = exceptions es"
  "exceptions (es @ [Continue_with sig]) = exceptions es" "exceptions (es @ [Kill]) = exceptions es"
  by (rule exceptions_other, simp)+

lemma exceptions_stop:
  "es \<noteq> [] \<Longrightarrow> last es = Saw (Stopped sig) \<Longrightarrow> exceptions (es @ [At ip]) = exceptions es @ [(sig, ip)]"
  by (simp add: exceptions_snoc stop_at_def)

definition verdict :: "(int \<times> 64 word) list \<Rightarrow> PROCESS_TERMINATION_TYPE" where
  "verdict xs = (if xs \<noteq> [] \<and> fst (last xs) = SIGSEGV then EXCEPTION_ACCESSVIOLATION else EXCEPTION_OTHER)"

text \<open>
  The types that a run with these events may have: one that ended by itself is clean, whatever was seen before; a signal
  or a repeated exception gives the kind of the last exception; the rest is a hang or a problem of the debugger.
\<close>

definition end_types :: "proc_event list \<Rightarrow> PROCESS_TERMINATION_TYPE set" where
  "end_types es =
     (case rev es of
        Saw (Exited _) # _ \<Rightarrow> {CLEAN}
      | Saw (Signaled _) # _ \<Rightarrow> {verdict (exceptions es)}
      | Kill # At _ # _ \<Rightarrow> {verdict (exceptions es)}
      | Kill # _ \<Rightarrow> {TIMEOUT, ERR}
      | _ \<Rightarrow> {})"

section \<open>One exception\<close>

definition rva :: "bytes \<Rightarrow> 64 word \<Rightarrow> string" where
  "rva content ip = the (rva_in ip (file_lines content))"

lemma describe_exact:
  assumes "describe W True ip store l os = Some (l', os')" and "pw_maps W = (\<lambda>_. content)"
  shows "l' = l\<lparr>exResult := store (rva content ip) (exResult l)\<rparr>"
  using assms by (auto simp: describe_def addrToRVAString_def rva_def)

lemma handle_exception_exact:
  assumes "handle_exception W pid True fatal sig l os = Some (g, l', os')" and "pw_maps W = (\<lambda>_. content)"
  defines "ip \<equiv> pw_rip W (pt os)" and "fatal_now \<equiv> sig = SIGSEGV \<and> fatal"
  shows "g = (\<not> fatal_now \<and> lastCrash l \<noteq> ip)"
    and "firstCrash l' = (if firstCrash l = 0 then ip else firstCrash l)"
    and "lastCrash l' = (if g then ip else lastCrash l)"
    and "m_firstCrash (exResult l') = (if firstCrash l = 0 then rva content ip else m_firstCrash (exResult l))"
    and "m_lastCrash (exResult l') = (if g \<or> fatal_now then rva content ip else m_lastCrash (exResult l))"
    and "m_terminationType (exResult l') = verdict [(sig, ip)]"
proof -
  let ?l = "l\<lparr>exResult := exception_type sig (exResult l)\<rparr>" let ?os = "ptick (saw pid (At ip) os)"
  note a = assms(1) [unfolded handle_exception_def Let_def, folded ip_def]
  from a obtain l1 os1 where 1: "(if firstCrash ?l = 0
      then describe W True ip first_crash_at (?l\<lparr>firstCrash := ip\<rparr>) ?os else Some (?l, ?os)) = Some (l1, os1)"
    by (auto simp: bind_eq_Some_conv)
  note u = a [unfolded 1 Option.bind.bind_lunit prod.case]
  have l1: "l1 = (if firstCrash l = 0 then ?l\<lparr>firstCrash := ip, exResult := first_crash_at (rva content ip) (exResult ?l)\<rparr> else ?l)"
    using 1 by (auto split: if_splits dest!: describe_exact [OF _ assms(2)])
  have l': "l' = (if fatal_now then l1\<lparr>exResult := last_crash_at (rva content ip) (exResult l1)\<rparr>
      else if lastCrash l1 \<noteq> ip then l1\<lparr>lastCrash := ip, exResult := last_crash_at (rva content ip) (exResult l1)\<rparr> else l1)"
    "g = (\<not> fatal_now \<and> lastCrash l1 \<noteq> ip)"
    using u unfolding fatal_now_def by (auto split: if_splits dest!: describe_exact [OF _ assms(2)])
  have t: "m_terminationType (exception_type sig out) = verdict [(sig, ip)]"
    "m_firstCrash (exception_type sig out) = m_firstCrash out" "m_lastCrash (exception_type sig out) = m_lastCrash out" for out
    by (simp_all add: exception_type_def verdict_def)
  show "g = (\<not> fatal_now \<and> lastCrash l \<noteq> ip)" using l'(2) l1 by (simp split: if_splits)
  then show "firstCrash l' = (if firstCrash l = 0 then ip else firstCrash l)" "lastCrash l' = (if g then ip else lastCrash l)"
    "m_firstCrash (exResult l') = (if firstCrash l = 0 then rva content ip else m_firstCrash (exResult l))"
    "m_lastCrash (exResult l') = (if g \<or> fatal_now then rva content ip else m_lastCrash (exResult l))"
    "m_terminationType (exResult l') = verdict [(sig, ip)]"
    using l' l1 t by (simp_all add: first_crash_at_def last_crash_at_def)
qed

section \<open>The run\<close>

text \<open>The local variables and the output for the exceptions so far; \<open>out0\<close> is the output at the start.\<close>

definition crash_inv :: "bytes \<Rightarrow> DebugExecutionOutput \<Rightarrow> (int \<times> 64 word) list \<Rightarrow> debug_locals \<Rightarrow> bool" where
  "crash_inv content out0 xs l \<longleftrightarrow>
     (if xs = [] then firstCrash l = 0 \<and> lastCrash l = 0 \<and> m_firstCrash (exResult l) = m_firstCrash out0 \<and>
         m_lastCrash (exResult l) = m_lastCrash out0 \<and> m_terminationType (exResult l) = CLEAN
      else snd (hd xs) \<noteq> 0 \<and> firstCrash l = snd (hd xs) \<and> lastCrash l = snd (last xs) \<and>
         m_firstCrash (exResult l) = rva content (snd (hd xs)) \<and> m_lastCrash (exResult l) = rva content (snd (last xs)) \<and>
         m_terminationType (exResult l) = verdict xs)"

definition crash_report :: "bytes \<Rightarrow> bool \<Rightarrow> DebugExecutionOutput \<Rightarrow> (int \<times> 64 word) list \<Rightarrow> DebugExecutionOutput \<Rightarrow> bool" where
  "crash_report content fatal out0 xs out \<longleftrightarrow>
     (if xs = [] then m_firstCrash out = m_firstCrash out0 \<and> m_lastCrash out = m_lastCrash out0
      else m_firstCrash out = rva content (snd (hd xs)) \<and>
        (if snd (hd xs) \<noteq> 0 \<or> fst (hd xs) = SIGSEGV \<and> fatal then m_lastCrash out = rva content (snd (last xs))
         else m_lastCrash out = m_lastCrash out0) \<and>
        (snd (hd xs) = 0 \<longrightarrow> xs = [hd xs]))"

lemma crash_inv_report: "crash_inv content out0 xs l \<Longrightarrow> crash_report content fatal out0 xs (exResult l)"
  by (auto simp: crash_inv_def crash_report_def split: if_splits)

lemma crash_report_out:
  "m_firstCrash out' = m_firstCrash out \<Longrightarrow> m_lastCrash out' = m_lastCrash out \<Longrightarrow>
   crash_report content fatal out0 xs out' = crash_report content fatal out0 xs out"
  by (simp add: crash_report_def)

lemma verdict_snoc: "verdict (xs @ [(sig, ip)]) = verdict [(sig, ip)]"
  by (simp add: verdict_def)

lemma handle_exception_crash:
  assumes "handle_exception W pid True fatal sig l os = Some (g, l', os')" and "pw_maps W = (\<lambda>_. content)"
    and "crash_inv content out0 xs l"
  defines "xs' \<equiv> xs @ [(sig, pw_rip W (pt os))]"
  shows "g \<Longrightarrow> crash_inv content out0 xs' l'" and "crash_report content fatal out0 xs' (exResult l')"
    and "m_terminationType (exResult l') = verdict xs'"
proof -
  note e = handle_exception_exact [OF assms(1,2)]
  show "m_terminationType (exResult l') = verdict xs'" using e(6) by (simp add: xs'_def verdict_snoc)
  then show "g \<Longrightarrow> crash_inv content out0 xs' l'"
    using e assms(3) by (cases xs) (auto simp: crash_inv_def xs'_def verdict_snoc split: if_splits)
  show "crash_report content fatal out0 xs' (exResult l')"
    using e assms(3) by (cases xs) (auto simp: crash_inv_def crash_report_def xs'_def split: if_splits)
qed

lemma handle_stop_crash:
  assumes "handle_stop W r True fatal sig l os = Some (e, l', os2)" and "pw_maps W = (\<lambda>_. content)"
    and "child_events (m_childPID r) os = es @ [Saw (Stopped sig)]" and "crash_inv content out0 (exceptions es) l"
  shows "e \<noteq> None \<Longrightarrow> crash_inv content out0 (exceptions (child_events (m_childPID r) os2)) l'"
    and "e = None \<Longrightarrow> \<exists>ip. child_events (m_childPID r) os2 = es @ [Saw (Stopped sig), At ip] \<and>
      crash_report content fatal out0 (exceptions (es @ [Saw (Stopped sig), At ip])) (exResult l') \<and>
      m_terminationType (exResult l') = verdict (exceptions (es @ [Saw (Stopped sig), At ip]))"
proof -
  let ?pid = "m_childPID r"
  have first: "crash_inv content out0 xs (l\<lparr>isfirstStop := b\<rparr>) = crash_inv content out0 xs l" for xs b by (simp add: crash_inv_def)
  have "os2 = os \<and> e \<noteq> None \<and> (l' = l \<or> l' = l\<lparr>isfirstStop := False\<rparr>) \<or>
      (\<exists>g. handle_exception W ?pid True fatal sig l os = Some (g, l', os2) \<and> e = (if g then Some (Continue_with sig) else None))"
  proof (cases "isfirstStop l \<or> sig = SIGTRAP \<or> sig = SIGCHLD \<or> sig = SIGILL \<and> m_targetIsSentNudges r")
    case True
    have "l' = l\<lparr>isfirstStop := False\<rparr> \<or> l' = l" "os2 = os" "e \<noteq> None"
      using assms(1) [unfolded handle_stop_def] True by (fastforce split: if_split_asm)+
    then show ?thesis by blast
  next
    case False
    then have "handle_stop W r True fatal sig l os = map_option (\<lambda>(goes_on, l, os). (if goes_on then Some (Continue_with sig) else None, l, os))
        (handle_exception W ?pid True fatal sig l os)"
      by (auto simp: handle_stop_def)
    with assms(1) obtain x where "handle_exception W ?pid True fatal sig l os = Some x"
      "(\<lambda>(goes_on, l, os). (if goes_on then Some (Continue_with sig) else None, l, os)) x = (e, l', os2)" by auto
    then show ?thesis by (cases x) auto
  qed
  then consider (same) "os2 = os" "e \<noteq> None" "l' = l \<or> l' = l\<lparr>isfirstStop := False\<rparr>"
    | (exc) g where "handle_exception W ?pid True fatal sig l os = Some (g, l', os2)" "e = (if g then Some (Continue_with sig) else None)"
    by blast
  then have "(e \<noteq> None \<longrightarrow> crash_inv content out0 (exceptions (child_events ?pid os2)) l') \<and>
    (e = None \<longrightarrow> (\<exists>ip. child_events ?pid os2 = es @ [Saw (Stopped sig), At ip] \<and>
      crash_report content fatal out0 (exceptions (es @ [Saw (Stopped sig), At ip])) (exResult l') \<and>
      m_terminationType (exResult l') = verdict (exceptions (es @ [Saw (Stopped sig), At ip]))))"
  proof cases
    case same
    then show ?thesis using assms(3,4) first by auto
  next
    case exc
    have ev: "child_events ?pid os2 = es @ [Saw (Stopped sig), At (pw_rip W (pt os))]"
      using handle_exception_frame(2) [OF exc(1)] assms(3) by (simp add: child_events_def)
    have xs: "exceptions (es @ [Saw (Stopped sig), At ip]) = exceptions es @ [(sig, ip)]" for ip
      using exceptions_stop [of "es @ [Saw (Stopped sig)]" sig ip] by simp
    note c = handle_exception_crash [OF exc(1) assms(2,4)]
    show ?thesis using ev c exc(2) by (auto simp: xs)
  qed
  then show "e \<noteq> None \<Longrightarrow> crash_inv content out0 (exceptions (child_events ?pid os2)) l'"
    and "e = None \<Longrightarrow> \<exists>ip. child_events ?pid os2 = es @ [Saw (Stopped sig), At ip] \<and>
      crash_report content fatal out0 (exceptions (es @ [Saw (Stopped sig), At ip])) (exResult l') \<and>
      m_terminationType (exResult l') = verdict (exceptions (es @ [Saw (Stopped sig), At ip]))" by blast+
qed

lemma kill_run_events:
  assumes "kill_run W q os = Some (p', os')" and "has_child q"
  shows "child_events (m_childPID q) os' = child_events (m_childPID q) os @ [Kill]"
  using assms die_frame(3) by (fastforce simp: kill_run_def child_events_def)

text \<open>How a run ended for its events.\<close>

definition reports_run :: "bytes \<Rightarrow> bool \<Rightarrow> DebugExecutionOutput \<Rightarrow> proc_event list \<Rightarrow> DebugExecutionOutput \<Rightarrow> bool" where
  "reports_run content fatal out0 es out \<longleftrightarrow>
     crash_report content fatal out0 (exceptions es) out \<and> m_terminationType out \<in> end_types es \<and>
     (exceptions es \<noteq> [] \<and> snd (hd (exceptions es)) = 0 \<longrightarrow> (\<exists>ds ip. es = ds @ [At ip, Kill]))"

lemma end_types_killed: "(es = [] \<or> (\<forall>ip. last es \<noteq> At ip)) \<Longrightarrow> end_types (es @ [Kill]) = {TIMEOUT, ERR}"
  by (cases es rule: rev_cases) (auto simp: end_types_def split: proc_event.splits)

lemma crash_inv_hd: "crash_inv content out0 xs l \<Longrightarrow> \<not> (xs \<noteq> [] \<and> snd (hd xs) = 0)"
  by (auto simp: crash_inv_def)

lemma reports_killed:
  assumes "crash_inv content out0 (exceptions es) l" and "es = [] \<or> (\<forall>ip. last es \<noteq> At ip)"
    and "m_firstCrash out = m_firstCrash (exResult l)" "m_lastCrash out = m_lastCrash (exResult l)"
    and "m_terminationType out \<in> {TIMEOUT, ERR}"
  shows "reports_run content fatal out0 (es @ [Kill]) out"
  using crash_inv_report [OF assms(1), of fatal] assms(3-5) end_types_killed [OF assms(2)] crash_inv_hd [OF assms(1)]
  by (auto simp: reports_run_def crash_report_out [OF assms(3,4)])

lemma debug_loop_reports:
  assumes "debug_loop W (b, True, fatal) l p os = Some (out, p', os')" and "has_child p" and "pw_maps W = (\<lambda>_. content)"
    and "child_events (m_childPID p) os = []" and "crash_inv content out0 [] l"
  shows "reports_run content fatal out0 (child_events (m_childPID p) os') out"
proof -
  let ?pid = "m_childPID p"
  show ?thesis
  proof (rule debug_loop_rule [where Q = "\<lambda>out p' os'. reports_run content fatal out0 (child_events ?pid os') out" and
      I = "\<lambda>l q os. same_object p q \<and> crash_inv content out0 (exceptions (child_events ?pid os)) l \<and>
        (child_events ?pid os = [] \<or> (\<forall>ip. last (child_events ?pid os) \<noteq> At ip))" and
      J = "\<lambda>st l r os. same_object p r \<and> (\<exists>es. child_events ?pid os = es @ [Saw st] \<and> crash_inv content out0 (exceptions es) l)",
      OF assms(1)], goal_cases)
    case 1
    show ?case using assms(4,5) by simp
  next
    case (2 l q os k)
    then show ?case by (simp add: same_object_pid [of p q])
  next
    case (3 l q os st r os2)
    note f = ask_status_frame [OF 3(2)]
    have "child_events ?pid os2 = child_events ?pid os @ [Saw st]"
      using f(4) same_object_pid [of p q] 3(1) by (simp add: child_events_def)
    moreover have "same_object p r" using 3(1) f(1) same_object_trans by blast
    ultimately show ?case using 3(1) by blast
  next
    case (4 st l r os)
    then show ?case by auto
  next
    case (5 sig l r os e l' os2)
    then obtain es where es: "child_events ?pid os = es @ [Saw (Stopped sig)]" "crash_inv content out0 (exceptions es) l" and r: "same_object p r"
      by blast
    have c: "m_childPID r = ?pid" using r by (rule same_object_pid)
    have h: "handle_stop W r True fatal sig l os = Some (Some e, l', os2)" using 5(2) by simp
    have i: "crash_inv content out0 (exceptions (child_events ?pid os2)) l'"
      using handle_stop_crash(1) [OF h assms(3) _ es(2)] es(1) c by simp
    have "e \<in> {Continue, Continue_with sig}" using h by (auto simp: handle_stop_def split: if_splits)
    then show ?case using i r c by auto
  next
    case (6 l q os k)
    have q: "has_child q" "m_childPID q = ?pid" using 6(1) assms(2) by (auto simp: has_child_same same_object_pid)
    from kill_run_events [OF 6(2) q(1)] q(2) have "child_events ?pid os' = child_events ?pid os @ [Kill]" by simp
    with reports_killed [of content out0 "child_events ?pid os" l "exResult (hang l)"] 6(1) show ?case by (simp add: hang_def)
  next
    case (7 l q os k e)
    have q: "has_child q" "m_childPID q = ?pid" using 7(1) assms(2) by (auto simp: has_child_same same_object_pid)
    from kill_run_events [OF 7(2) q(1)] q(2) have "child_events ?pid os' = child_events ?pid os @ [Kill]" by simp
    with reports_killed [of content out0 "child_events ?pid os" l "fail_with e (exResult l)"] 7(1) show ?case by (simp add: fail_with_def)
  next
    case (8 l r os e)
    then obtain es where es: "child_events ?pid os = es @ [Saw No_child]" "crash_inv content out0 (exceptions es) l" and r: "same_object p r"
      by blast
    have q: "has_child r" "m_childPID r = ?pid" using r assms(2) by (auto simp: has_child_same same_object_pid)
    from kill_run_events [OF 8(2) q(1)] q(2) es(1) have "child_events ?pid os' = (es @ [Saw No_child]) @ [Kill]" by simp
    with reports_killed [of content out0 "es @ [Saw No_child]" l "fail_with e (exResult l)"] es(2) show ?case by (simp add: fail_with_def)
  next
    case (9 sig l r os l' os2)
    then obtain es where es: "child_events ?pid os = es @ [Saw (Stopped sig)]" "crash_inv content out0 (exceptions es) l" and r: "same_object p r"
      by blast
    have q: "has_child r" "m_childPID r = ?pid" using r assms(2) by (auto simp: has_child_same same_object_pid)
    have h: "handle_stop W r True fatal sig l os = Some (None, l', os2)" using 9(2) by simp
    obtain ip where ip: "child_events ?pid os2 = es @ [Saw (Stopped sig), At ip]"
      "crash_report content fatal out0 (exceptions (es @ [Saw (Stopped sig), At ip])) (exResult l')"
      "m_terminationType (exResult l') = verdict (exceptions (es @ [Saw (Stopped sig), At ip]))"
      using handle_stop_crash(2) [OF h assms(3) _ es(2)] es(1) q(2) by auto
    have k: "child_events ?pid os' = (es @ [Saw (Stopped sig), At ip]) @ [Kill]"
      using kill_run_events [OF 9(3) q(1)] q(2) ip(1) by simp
    have x: "exceptions ((es @ [Saw (Stopped sig), At ip]) @ [Kill]) = exceptions (es @ [Saw (Stopped sig), At ip])"
      by (rule exceptions_events)
    show ?case unfolding k reports_run_def x end_types_def using ip(2,3) by simp
  next
    case (10 sig l r os)
    then obtain es where es: "child_events ?pid os = es @ [Saw (Signaled sig)]" "crash_inv content out0 (exceptions es) l" by blast
    have k: "m_firstCrash (killed_by sig (exResult l)) = m_firstCrash (exResult l)" "m_lastCrash (killed_by sig (exResult l)) = m_lastCrash (exResult l)"
      by (simp_all add: killed_by_def)
    have "m_terminationType (killed_by sig (exResult l)) = verdict (exceptions es)"
      using es(2) by (auto simp: crash_inv_def killed_by_def verdict_def split: if_splits)
    with crash_inv_report [OF es(2), of fatal] crash_report_out [OF k] es(1) crash_inv_hd [OF es(2)] 10(3) show ?case
      by (auto simp: reports_run_def end_types_def)
  next
    case (11 code l r os)
    then obtain es where es: "child_events ?pid os = es @ [Saw (Exited code)]" "crash_inv content out0 (exceptions es) l" by blast
    have k: "m_firstCrash (exited_normally (exResult l)) = m_firstCrash (exResult l)" "m_lastCrash (exited_normally (exResult l)) = m_lastCrash (exResult l)"
      "m_terminationType (exited_normally (exResult l)) = CLEAN"
      by (simp_all add: exited_normally_def)
    with crash_inv_report [OF es(2), of fatal] crash_report_out [OF k(1,2)] es(1) crash_inv_hd [OF es(2)] 11(3) show ?case
      by (auto simp: reports_run_def end_types_def)
  qed
qed

end
