(* ===== verification/ProcessProps.thy ===== *)
theory ProcessProps
  imports ProcessCrash
begin

text \<open>
  Properties of the process control: a watched child does not stay behind, debugging returns, what is reported of a crash,
  the file descriptors.
\<close>

definition demo_maps :: bytes where
  "demo_maps = ''00400000-00410000 r-xp 00000000 08:01 42 /bin/t'' @ [CHR 0x0A]"

lemma demo_lines: "file_lines demo_maps = [''00400000-00410000 r-xp 00000000 08:01 42 /bin/t'']"
  unfolding demo_maps_def by code_simp

lemma demo_split:
  "splitString ''00400000-00410000 r-xp 00000000 08:01 42 /bin/t'' '' '' = [''00400000-00410000'', ''r-xp'', ''00000000'', ''08:01'', ''42'', ''/bin/t'']"
  "splitString ''00400000-00410000'' ''-'' = [''00400000'', ''00410000'']" "path_filename ''/bin/t'' = ''t''"
  by code_simp+

lemma demo_numbers: "hex_number ''00400000'' = Some 0x400000" "hex_number ''00410000'' = Some 0x410000" "to_hex 0x1020 = ''1020''"
  by (simp_all add: hex_number_def hex_digit_value_def is_space_def Let_def to_hex.simps)

lemma demo_zeros: "replicate 4 (CHR ''0'') = ''0000''"
  by code_simp

lemma demo_rva: "rva_in 0x401020 (file_lines demo_maps) = Some ''t+0x00001020''"
  by (simp add: demo_lines demo_split demo_numbers stoull_hex_def hex8_def demo_zeros)

text \<open>The process as the loops see it, after the byte that lets it go.\<close>

definition started :: "ExternalProcess \<Rightarrow> ExternalProcess" where
  "started p = p\<lparr>m_fd_pipe := (fst (m_fd_pipe p), - 1)\<rparr>"

lemma let_go_started: "let_go p os = (started p, close_fd (snd (m_fd_pipe p)) os)"
  by (simp add: let_go_def started_def)

lemma started_simps [simp]:
  "m_childPID (started p) = m_childPID p" "has_child (started p) = has_child p"
  "has_child (q\<lparr>m_isBeingDebugged := b\<rparr>) = has_child q" "m_fd_pipe (started p) = (fst (m_fd_pipe p), - 1)"
  "m_inputPipe (started p) = m_inputPipe p" "m_outputPipe (started p) = m_outputPipe p"
  by (simp_all add: started_def has_child_def)

text \<open>A process that was started and not yet run.\<close>

definition runnable :: "ExternalProcess \<Rightarrow> bool" where
  "runnable p \<longleftrightarrow> has_child p \<and> \<not> m_hasBeenRun p"

lemma debug_runnable:
  "runnable p \<Longrightarrow> debug W t post fatal out p os = debug_loop W (t \<noteq> 0xFFFFFFFF, post, fatal)
     \<lparr>isfirstStop = True, firstCrash = 0, lastCrash = 0, exResult = out\<lparr>m_PID := m_childPID p, m_terminationType := CLEAN,
       m_terminationDescription := ''The target executed without any exception''\<rparr>\<rparr>
     ((started p)\<lparr>m_isBeingDebugged := True\<rparr>) (close_fd (snd (m_fd_pipe p)) os)"
  by (simp add: debug_def runnable_def has_child_def let_go_started)

lemma debug_ends:
  assumes "debug W t post fatal out p os = Some (out', p', os')" and "runnable p" and "child_state (m_childPID p) os = Runs"
  shows "ends_child (started p) (close_fd (snd (m_fd_pipe p)) os) p' os'"
  using debug_loop_ends [OF assms(1) [unfolded debug_runnable [OF assms(2)]], of "started p" "close_fd (snd (m_fd_pipe p)) os"] assms(2,3)
  by (simp add: runnable_def)

lemma completion_ends:
  assumes "runAndWaitForCompletion W p os = Some (ok, p', os')" and "runnable p" and "child_state (m_childPID p) os = Runs"
  shows "ends_child (started p) (close_fd (snd (m_fd_pipe p)) os) p' os'"
proof -
  have "completion_loop W True (started p) (close_fd (snd (m_fd_pipe p)) os) = Some (ok, p', os')"
    using assms(1,2) by (simp add: runAndWaitForCompletion_def runnable_def has_child_def let_go_started)
  from completion_loop_ends [OF this, of "started p" "close_fd (snd (m_fd_pipe p)) os"] assms(2,3) show ?thesis
    by (simp add: runnable_def)
qed

text \<open>
  C36: However the operating system and the child behave: when \<open>debug\<close> or \<open>runAndWaitForCompletion\<close> returns, the child is
  gone, and no status was asked for while it was stopped. The object cannot be run a second time. To other children
  nothing has happened.
\<close>

theorem no_child_stays_behind:
  assumes "(\<exists>t post fatal out out'. debug W t post fatal out p os = Some (out', p', os')) \<or>
      (\<exists>ok. runAndWaitForCompletion W p os = Some (ok, p', os'))"
    and "runnable p" and "child_state (m_childPID p) os = Runs"
  shows "child_state (m_childPID p) os' = Gone \<and> run W p' os' = Some (False, p', os') \<and>
    (\<forall>q. q \<noteq> m_childPID p \<longrightarrow> child_events q os' = child_events q os)"
proof -
  have e: "ends_child (started p) (close_fd (snd (m_fd_pipe p)) os) p' os'"
    using assms debug_ends completion_ends by blast
  then show ?thesis by (simp add: ends_child_def run_def)
qed

text \<open>A child that stops for the first time, has an access violation at the same place twice, and is killed.\<close>

definition demo_status :: "nat \<Rightarrow> child_status" where
  "demo_status k = (if k = 3 then Stopped 19 else Stopped 11)"

definition demo_W :: proc_world where
  "demo_W = \<lparr>pw_wordexp = (\<lambda>s. Some [s]), pw_environ = [], pw_pipe = (\<lambda>k. Some (10 + 2 * int k, 11 + 2 * int k)),
     pw_fork = (\<lambda>_. 77), pw_open = (\<lambda>_. 5), pw_attach = (\<lambda>_. True), pw_wait = (\<lambda>_. Child_signal), pw_status = demo_status,
     pw_gone = (\<lambda>_. True), pw_late = (\<lambda>k. 1000 \<le> k), pw_rip = (\<lambda>_. 0x401020), pw_maps = (\<lambda>_. demo_maps),
     pw_stat = (\<lambda>_. None), pw_proc = (\<lambda>_. [])\<rparr>"

definition demo_os :: proc_os where
  "demo_os = \<lparr>pt = 0, p_log = [], p_fds = Map.empty, s_allTimeSpent = 0\<rparr>"

definition demo_p :: ExternalProcess where
  "demo_p = \<lparr>m_child_output_mode = OUTPUT, m_inputPipe = (- 1, - 1), m_outputPipe = (- 1, - 1), m_fd_pipe = (- 1, 5),
     m_hasBeenRun = False, m_hasBeenInitialized = True, m_isBeingDebugged = False, ep_exitStatus = - 1,
     m_argv = Some [''/bin/t''], m_envp = None, m_childPID = 77, m_lastutime = 0, m_laststime = 0, m_lastcutime = 0,
     m_lastcstime = 0, m_targetIsSentNudges = False\<rparr>"

lemma demo_reap: "pw_gone W = (\<lambda>_. True) \<Longrightarrow> reap W os = Some (ptick os)"
  by (subst reap.simps) simp

lemma demo_runnable: "runnable demo_p" "child_state (m_childPID demo_p) demo_os = Runs"
  by (simp_all add: runnable_def has_child_def demo_p_def demo_os_def child_state_def child_events_def)

lemma demo_run:
  "\<exists>out p' os'. debug demo_W 5000 True False new_output demo_p demo_os = Some (out, p', os') \<and>
    child_events 77 os' = [Saw (Stopped 19), Continue, Saw (Stopped 11), At 0x401020, Continue_with 11, Saw (Stopped 11), At 0x401020, Kill]"
proof -
  let ?W = demo_W
  note s = demo_W_def demo_status_def demo_p_def demo_os_def ask_status_def updateTimeSpent_def saw_def ptick_def Let_def
    handle_stop_def handle_exception_def describe_def addrToRVAString_def demo_rva SIGTRAP_def SIGCHLD_def SIGILL_def SIGSEGV_def
    close_fd_def started_def exception_type_def
  show ?thesis
    unfolding debug_runnable [OF demo_runnable(1)]
    by (subst debug_loop.simps, simp add: s, subst debug_loop.simps, simp add: s, subst debug_loop.simps,
      simp add: s kill_debug_def kill_run_def die_def demo_reap child_events_def)
qed

text \<open>Its process object after the run, and what it is told.\<close>

lemma demo_run_for:
  obtains out p' os' where "debug demo_W 5000 True False new_output demo_p demo_os = Some (out, p', os')"
    "child_events 77 os' = [Saw (Stopped 19), Continue, Saw (Stopped 11), At 0x401020, Continue_with 11, Saw (Stopped 11), At 0x401020, Kill]"
  using demo_run by blast

theorem no_child_stays_behind_witness:
  "\<exists>out p' os'. debug demo_W 5000 True False new_output demo_p demo_os = Some (out, p', os') \<and>
    child_state (m_childPID demo_p) os' = Gone \<and> run demo_W p' os' = Some (False, p', os')"
proof -
  obtain out p' os' where d: "debug demo_W 5000 True False new_output demo_p demo_os = Some (out, p', os')"
    by (rule demo_run_for)
  then have "(\<exists>t post fatal out out'. debug demo_W t post fatal out demo_p demo_os = Some (out', p', os')) \<or>
    (\<exists>ok. runAndWaitForCompletion demo_W demo_p demo_os = Some (ok, p', os'))" by blast
  from no_child_stays_behind [OF this demo_runnable] d show ?thesis by blast
qed


text \<open>A child that never does anything, and waits that are interrupted again and again.\<close>

definition deaf_W :: proc_world where
  "deaf_W = demo_W\<lparr>pw_wait := (\<lambda>_. Wait_interrupted), pw_maps := (\<lambda>_. [])\<rparr>"

lemma deaf_ok: "in_time deaf_W" "dies deaf_W" "maps_readable deaf_W"
proof -
  show "in_time deaf_W" "dies deaf_W" by (auto simp: in_time_def dies_def deaf_W_def demo_W_def)
  have "file_lines [] = []" by code_simp
  then show "maps_readable deaf_W" by (simp add: maps_readable_def deaf_W_def)
qed




text \<open>
  A target that calls a null pointer, where access violations are to be given to the target: it is killed at this
  stop although it has not been asked whether it handles the exception, and the result that the runner makes of it lacks
  the last crash.
\<close>

theorem null_call_is_not_handed_back:
  assumes "debug W t True fatal new_output p os = Some (out', p', os')" and "runnable p" and "child_events (m_childPID p) os = []"
    and "maps_readable W" and "pw_maps W = (\<lambda>_. content)" and "\<not> (sig = SIGSEGV \<and> fatal)"
    and "(sig, 0) # xs = exceptions (child_events (m_childPID p) os')"
  shows "xs = [] \<and> (\<exists>ds ip. child_events (m_childPID p) os' = ds @ [At ip, Kill]) \<and>
    m_crashFootprint (result_of_output out') = ''0x00000000-''"
proof -
  have l: "crash_inv content new_output [] \<lparr>isfirstStop = True, firstCrash = 0, lastCrash = 0,
      exResult = new_output\<lparr>m_PID := m_childPID p, m_terminationType := CLEAN,
        m_terminationDescription := ''The target executed without any exception''\<rparr>\<rparr>"
    by (simp add: crash_inv_def)
  have c: "has_child ((started p)\<lparr>m_isBeingDebugged := True\<rparr>)" using assms(2) by (simp add: runnable_def)
  have "child_events (m_childPID ((started p)\<lparr>m_isBeingDebugged := True\<rparr>)) (close_fd (snd (m_fd_pipe p)) os) = []"
    using assms(3) by simp
  from debug_loop_reports [OF assms(1) [unfolded debug_runnable [OF assms(2)]] c assms(5) this l]
  have r: "reports_run content fatal new_output (child_events (m_childPID p) os') out'" by simp
  have z: "rva_in 0 ls = Some s \<Longrightarrow> s = ''0x'' @ hex8 0" for ls s
    by (induction ls) (auto simp: Let_def bind_eq_Some_conv split: if_splits)
  have "rva_in 0 (file_lines content) \<noteq> None" using assms(4,5) by (simp add: maps_readable_def)
  then have "rva content 0 = ''0x'' @ hex8 0" using z by (auto simp: rva_def)
  moreover have "hex8 0 = ''00000000''" by code_simp
  ultimately have f: "m_firstCrash out' = ''0x00000000''" "m_lastCrash out' = []" "xs = []"
    "\<exists>ds ip. child_events (m_childPID p) os' = ds @ [At ip, Kill]" "m_terminationType out' \<in> end_types (child_events (m_childPID p) os')"
    using r assms(6) unfolding reports_run_def crash_report_def assms(7) [symmetric] by (auto simp: new_output_def split: if_splits)
  then have "m_terminationType out' \<in> {EXCEPTION_ACCESSVIOLATION, EXCEPTION_OTHER}"
    by (auto simp: end_types_def verdict_def split: if_splits)
  then show ?thesis using f by (auto simp: result_of_output_def Let_def)
qed

text \<open>The same child as above with the instruction pointer 0.\<close>

definition null_W :: proc_world where
  "null_W = demo_W\<lparr>pw_rip := (\<lambda>_. 0), pw_maps := (\<lambda>_. [])\<rparr>"

lemma null_run:
  "\<exists>out p' os'. debug null_W 5000 True False new_output demo_p demo_os = Some (out, p', os') \<and>
    child_events 77 os' = [Saw (Stopped 19), Continue, Saw (Stopped 11), At 0, Kill]"
proof -
  have "file_lines [] = []" by code_simp
  note s = this null_W_def demo_W_def demo_status_def demo_p_def demo_os_def ask_status_def updateTimeSpent_def saw_def ptick_def Let_def
    handle_stop_def handle_exception_def describe_def addrToRVAString_def SIGTRAP_def SIGCHLD_def SIGILL_def SIGSEGV_def
    close_fd_def started_def exception_type_def
  show ?thesis
    unfolding debug_runnable [OF demo_runnable(1)]
    by (subst debug_loop.simps, simp add: s, subst debug_loop.simps,
      simp add: s kill_debug_def kill_run_def die_def demo_reap child_events_def)
qed

theorem null_call_is_not_handed_back_witness:
  "\<exists>out p' os'. debug null_W 5000 True False new_output demo_p demo_os = Some (out, p', os') \<and>
    m_crashFootprint (result_of_output out) = ''0x00000000-''"
proof -
  obtain out p' os' where d: "debug null_W 5000 True False new_output demo_p demo_os = Some (out, p', os')"
    and e: "child_events 77 os' = [Saw (Stopped 19), Continue, Saw (Stopped 11), At 0, Kill]"
    using null_run by blast
  have c: "child_events (m_childPID demo_p) demo_os = []" "m_childPID demo_p = 77" "pw_maps null_W = (\<lambda>_. [])"
    by (simp_all add: demo_p_def demo_os_def child_events_def null_W_def)
  have x: "(11, 0) # [] = exceptions (child_events 77 os')" by (simp add: e exceptions_def stop_at_def)
  have "file_lines [] = []" by code_simp
  then have m: "maps_readable null_W" by (simp add: maps_readable_def null_W_def)
  from null_call_is_not_handed_back [OF d demo_runnable(1) c(1) m c(3), of 11 "[]"] d x show ?thesis by (simp add: c(2))
qed

section \<open>File descriptors\<close>

text \<open>\<open>pipe\<close> hands out descriptors that are not in use, and the standard streams are.\<close>

definition free_pipes :: "proc_world \<Rightarrow> proc_os \<Rightarrow> bool" where
  "free_pipes W os \<longleftrightarrow> p_fds os (- 1) = None \<and>
     (\<forall>k r w. pw_pipe W k = Some (r, w) \<longrightarrow> r \<noteq> w \<and> 3 \<le> r \<and> 3 \<le> w \<and> p_fds os r = None \<and> p_fds os w = None) \<and>
     (\<forall>j k a b c d. pw_pipe W j = Some (a, b) \<longrightarrow> pw_pipe W k = Some (c, d) \<longrightarrow> j \<noteq> k \<longrightarrow> {a, b} \<inter> {c, d} = {})"

lemma free_pipesD:
  assumes "free_pipes W os" and "pw_pipe W k = Some (r, w)"
  shows "r \<noteq> w" "3 \<le> r" "3 \<le> w" "p_fds os r = None" "p_fds os w = None"
  using assms by (auto simp: free_pipes_def)

lemma free_pipes_distinct:
  assumes "free_pipes W os" and "pw_pipe W j = Some (a, b)" and "pw_pipe W k = Some (c, d)" and "j \<noteq> k"
  shows "a \<noteq> c" "a \<noteq> d" "b \<noteq> c" "b \<noteq> d"
  using assms by (auto simp: free_pipes_def)

lemma delete_fds:
  assumes "delete_ExternalProcess W p os = Some os'" and "has_child p"
  shows "p_fds os' = (\<lambda>fd. if fd \<noteq> - 1 \<and> fd \<in> {fst (m_outputPipe p), snd (m_outputPipe p), fst (m_inputPipe p), snd (m_inputPipe p)}
    then None else p_fds os fd)"
proof -
  from assms(1) obtain q os1 where d: "die W p os = Some (q, os1)"
    "os' = fold close_valid [fst (m_outputPipe q), snd (m_outputPipe q), fst (m_inputPipe q), snd (m_inputPipe q)] os1"
    by (auto simp: delete_ExternalProcess_def bind_eq_Some_conv)
  note f = die_frame [OF d(1) assms(2)]
  show ?thesis using d(2) f(1,2) by (auto simp: same_object_def close_valid_def fun_eq_iff)
qed

text \<open>What a pipe of the constructor adds, and what is left of it when the child has been started.\<close>

definition pipe_fds :: "nat \<Rightarrow> (int \<times> int) option \<Rightarrow> (int \<Rightarrow> fd_file option) \<Rightarrow> int \<Rightarrow> fd_file option" where
  "pipe_fds k ends fds = (case ends of None \<Rightarrow> fds | Some (r, w) \<Rightarrow> fds(r \<mapsto> Pipe_end k False, w \<mapsto> Pipe_end k True))"

lemma make_pipe_eq: "make_pipe W os = (pw_pipe W (pt os), (ptick os)\<lparr>p_fds := pipe_fds (pt os) (pw_pipe W (pt os)) (p_fds os)\<rparr>)"
  by (auto simp: make_pipe_def pipe_fds_def ptick_def split: option.split)

lemma new_special:
  "new_ExternalProcess W commandline SPECIAL envp nudges os = (p0, os0) \<Longrightarrow>
   m_outputPipe p0 = or_invalid (pw_pipe W (pt os)) \<and> m_inputPipe p0 = or_invalid (pw_pipe W (Suc (pt os))) \<and>
   p_fds os0 = pipe_fds (Suc (pt os)) (pw_pipe W (Suc (pt os))) (pipe_fds (pt os) (pw_pipe W (pt os)) (p_fds os)) \<and>
   pt os0 = Suc (Suc (pt os)) \<and> m_child_output_mode p0 = SPECIAL \<and> \<not> m_hasBeenRun p0 \<and>
   m_argv p0 = split_commandline W commandline \<and> m_envp p0 = addToEnv W envp"
  by (auto simp: new_ExternalProcess_def make_pipe_eq Let_def)

lemma new_plain:
  "new_ExternalProcess W commandline mode envp nudges os = (p0, os0) \<Longrightarrow> mode \<noteq> SPECIAL \<Longrightarrow>
   m_outputPipe p0 = (- 1, - 1) \<and> m_inputPipe p0 = (- 1, - 1) \<and> os0 = os \<and> m_child_output_mode p0 = mode \<and> \<not> m_hasBeenRun p0"
  by (auto simp: new_ExternalProcess_def Let_def or_invalid_def)

text \<open>The process and the descriptors when \<open>initProcess\<close> succeeds.\<close>

lemma init_started:
  assumes "initProcess W p0 os0 = Some (True, p1, os1)"
  obtains r w where "pw_pipe W (pt os0) = Some (r, w)" "m_fd_pipe p1 = (- 1, w)" "has_child p1" "m_hasBeenRun p1 = m_hasBeenRun p0"
    "m_outputPipe p1 = (fst (m_outputPipe p0), if m_child_output_mode p0 = SPECIAL then - 1 else snd (m_outputPipe p0))"
    "m_inputPipe p1 = (if m_child_output_mode p0 = SPECIAL then - 1 else fst (m_inputPipe p0), snd (m_inputPipe p0))"
    "p_fds os1 = (let fds = (p_fds os0)(w \<mapsto> Pipe_end (pt os0) True, r := None) in
      if m_child_output_mode p0 = SPECIAL then fds(snd (m_outputPipe p0) := None, fst (m_inputPipe p0) := None) else fds)"
    "p_log os1 = p_log os0"
proof -
  obtain r w where p: "pw_pipe W (pt os0) = Some (r, w)"
    using assms by (auto simp: initProcess_def make_pipe_eq Let_def split: option.splits)
  show ?thesis
  proof (rule that [OF p])
  qed (use assms p in \<open>auto simp: initProcess_def make_pipe_eq Let_def pipe_fds_def has_child_def close_fd_def ptick_def fun_eq_iff split: if_splits\<close>)
qed

lemma pipe_fds_other:
  "fd \<noteq> fst (or_invalid ends) \<Longrightarrow> fd \<noteq> snd (or_invalid ends) \<Longrightarrow> pipe_fds k ends fds fd = fds fd"
  by (cases ends) (auto simp: pipe_fds_def or_invalid_def)

lemma pipe_fds_invalid:
  assumes "free_pipes W os" shows "pipe_fds k (pw_pipe W j) fds (- 1) = fds (- 1)"
proof (cases "pw_pipe W j")
  case (Some ab)
  from free_pipesD(2,3) [OF assms, of j "fst ab" "snd ab"] Some show ?thesis by (auto simp: pipe_fds_def split_beta)
qed (simp add: pipe_fds_def)

lemma free_end:
  assumes "free_pipes W os"
  shows "p_fds os (fst (or_invalid (pw_pipe W k))) = None" "p_fds os (snd (or_invalid (pw_pipe W k))) = None"
  using assms free_pipesD [OF assms] by (cases "pw_pipe W k"; auto simp: or_invalid_def free_pipes_def)+

text \<open>The descriptors that the object of a started process holds; the others are as they were before it was made.\<close>

definition held :: "ExternalProcess \<Rightarrow> int set" where
  "held p = {fst (m_outputPipe p), snd (m_outputPipe p), fst (m_inputPipe p), snd (m_inputPipe p)} - {- 1}"

lemma started_fds:
  assumes "new_ExternalProcess W commandline mode envp nudges os = (p0, os0)" and "initProcess W p0 os0 = Some (True, p1, os1)"
    and "free_pipes W os"
  shows "runnable p1 \<and> p_log os1 = p_log os \<and> p_fds os (snd (m_fd_pipe p1)) = None \<and> snd (m_fd_pipe p1) \<notin> held p1 \<and>
    (\<forall>fd \<in> held p1. p_fds os fd = None) \<and> (\<forall>fd. fd \<notin> held p1 \<longrightarrow> fd \<noteq> snd (m_fd_pipe p1) \<longrightarrow> p_fds os1 fd = p_fds os fd)"
proof -
  obtain r w where i: "pw_pipe W (pt os0) = Some (r, w)" "m_fd_pipe p1 = (- 1, w)" "has_child p1" "m_hasBeenRun p1 = m_hasBeenRun p0"
    "m_outputPipe p1 = (fst (m_outputPipe p0), if m_child_output_mode p0 = SPECIAL then - 1 else snd (m_outputPipe p0))"
    "m_inputPipe p1 = (if m_child_output_mode p0 = SPECIAL then - 1 else fst (m_inputPipe p0), snd (m_inputPipe p0))"
    "p_fds os1 = (let fds = (p_fds os0)(w \<mapsto> Pipe_end (pt os0) True, r := None) in
      if m_child_output_mode p0 = SPECIAL then fds(snd (m_outputPipe p0) := None, fst (m_inputPipe p0) := None) else fds)"
    "p_log os1 = p_log os0"
    by (rule init_started [OF assms(2)])
  have n: "p_fds os (- 1) = None" using assms(3) by (simp add: free_pipes_def)
  note f = free_pipesD [OF assms(3) i(1)]
  show ?thesis
  proof (cases "mode = SPECIAL")
    case False
    note c = new_plain [OF assms(1) False]
    show ?thesis using c i f n False by (auto simp: runnable_def held_def)
  next
    case True
    note c = new_special [OF assms(1) [unfolded True]]
    let ?out = "or_invalid (pw_pipe W (pt os))" and ?in = "or_invalid (pw_pipe W (Suc (pt os)))"
    have l: "p_log os0 = p_log os" using assms(1) True by (auto simp: new_ExternalProcess_def make_pipe_eq Let_def)
    have h: "held p1 = {fst ?out, snd ?in} - {- 1}" using c i(5,6) by (auto simp: held_def)
    have e: "p_fds os (fst ?out) = None" "p_fds os (snd ?out) = None" "p_fds os (fst ?in) = None" "p_fds os (snd ?in) = None"
      by (rule free_end [OF assms(3)])+
    have ends: "(w \<noteq> fst (or_invalid (pw_pipe W k)) \<or> fst (or_invalid (pw_pipe W k)) = - 1) \<and>
        (w \<noteq> snd (or_invalid (pw_pipe W k)) \<or> snd (or_invalid (pw_pipe W k)) = - 1)" if "k \<noteq> pt os0" for k
    proof (cases "pw_pipe W k")
      case (Some ab)
      from free_pipes_distinct [OF assms(3) _ i(1) that, of "fst ab" "snd ab"] Some show ?thesis by (auto simp: or_invalid_def)
    qed (simp add: or_invalid_def)
    have wout: "w \<noteq> fst ?out \<or> fst ?out = - 1" and win: "w \<noteq> snd ?in \<or> snd ?in = - 1"
      using ends [of "pt os"] ends [of "Suc (pt os)"] c by auto
    have os1: "p_fds os1 = (p_fds os0)(w \<mapsto> Pipe_end (pt os0) True, r := None, snd ?out := None, fst ?in := None)"
      using i(7) c by (simp add: Let_def)
    have a: "p_fds os1 fd = p_fds os fd" if "fd \<notin> held p1" "fd \<noteq> w" for fd
    proof (cases "fd \<in> {fst ?in, snd ?out, r} \<or> fd = - 1")
      case True
      then show ?thesis
      proof
        assume "fd \<in> {fst ?in, snd ?out, r}"
        then show ?thesis using e f that(2) by (auto simp: os1)
      next
        assume m: "fd = - 1"
        have "p_fds os0 (- 1) = None"
          using c n by (simp add: pipe_fds_invalid [OF assms(3)])
        then show ?thesis using m f n by (simp add: os1)
      qed
    next
      case False
      then have x: "fd \<noteq> fst ?out" "fd \<noteq> snd ?out" "fd \<noteq> fst ?in" "fd \<noteq> snd ?in" "fd \<noteq> r" using that(1) h by auto
      have "p_fds os1 fd = p_fds os0 fd" using x that(2) by (simp add: os1)
      also have "\<dots> = p_fds os fd" using c x by (simp add: pipe_fds_other)
      finally show ?thesis .
    qed
    have "\<not> m_hasBeenRun p1" "snd (m_fd_pipe p1) = w" using c i(2,4) by simp_all
    moreover have "w \<notin> held p1" using wout win by (auto simp: h)
    ultimately show ?thesis using i(3,8) l f(5) e a by (auto simp: runnable_def h)
  qed
qed

lemma delete_held:
  "delete_ExternalProcess W p os = Some os' \<Longrightarrow> has_child p \<Longrightarrow> p_fds os' = (\<lambda>fd. if fd \<in> held p then None else p_fds os fd)"
  by (auto simp: delete_fds held_def fun_eq_iff)

text \<open>
  C39: From the constructor to the destructor, with a debugged run or a run to the end in between, no descriptor stays
  open. One that was started but never run keeps one end of the pipe over which it was to be let go.
\<close>

theorem descriptors_are_closed:
  assumes "new_ExternalProcess W commandline mode envp nudges os = (p0, os0)" and "initProcess W p0 os0 = Some (True, p1, os1)"
    and "free_pipes W os" and "child_state (m_childPID p1) os = Runs"
  shows "((\<exists>t post fatal out out'. debug W t post fatal out p1 os1 = Some (out', p2, os2)) \<or>
      (\<exists>ok. runAndWaitForCompletion W p1 os1 = Some (ok, p2, os2)) \<longrightarrow>
      delete_ExternalProcess W p2 os2 = Some os3 \<longrightarrow> p_fds os3 = p_fds os) \<and>
    (delete_ExternalProcess W p1 os1 = Some os3 \<longrightarrow>
      p_fds os3 = (p_fds os)(snd (m_fd_pipe p1) := p_fds os1 (snd (m_fd_pipe p1))))"
proof (intro conjI impI)
  note s = started_fds [OF assms(1-3)]
  have st: "child_state (m_childPID p1) os1 = Runs" using assms(4) s by (simp add: child_state_def child_events_def)
  {
    assume r: "(\<exists>t post fatal out out'. debug W t post fatal out p1 os1 = Some (out', p2, os2)) \<or>
      (\<exists>ok. runAndWaitForCompletion W p1 os1 = Some (ok, p2, os2))" and d: "delete_ExternalProcess W p2 os2 = Some os3"
    have e: "ends_child (started p1) (close_fd (snd (m_fd_pipe p1)) os1) p2 os2"
      using r debug_ends completion_ends s st by blast
    then have o: "same_object (started p1) p2" "p_fds os2 = (p_fds os1)(snd (m_fd_pipe p1) := None)" by (simp_all add: ends_child_def)
    have c: "has_child p2" using s has_child_same [OF o(1)] by (simp add: runnable_def)
    have "held p2 = held p1" using o(1) by (simp add: same_object_def held_def)
    then show "p_fds os3 = p_fds os" using delete_held [OF d c] s o(2) by (auto simp: fun_eq_iff)
  }
  assume d: "delete_ExternalProcess W p1 os1 = Some os3"
  have c: "has_child p1" using s by (simp add: runnable_def)
  show "p_fds os3 = (p_fds os)(snd (m_fd_pipe p1) := p_fds os1 (snd (m_fd_pipe p1)))"
    using delete_held [OF d c] s by (auto simp: fun_eq_iff)
qed

text \<open>A process with redirected streams, a child that never does anything, and the time-out.\<close>

lemma deaf_pipes: "free_pipes deaf_W demo_os"
  by (auto simp: free_pipes_def deaf_W_def demo_W_def demo_os_def)

lemma deaf_debug:
  assumes "runnable p" obtains out' p' os' where "debug deaf_W 5000 True False new_output p os = Some (out', p', os')"
proof -
  have "in_time deaf_W" "dies deaf_W" "maps_readable deaf_W" by (rule deaf_ok)+
  then have "\<exists>r. debug deaf_W 5000 True False new_output p os = Some r"
    using debug_loop_returns [of deaf_W] assms unfolding debug_runnable [OF assms] in_time_def by (auto simp: runnable_def)
  then show ?thesis using that by (metis prod_cases3)
qed

lemma deaf_delete: "has_child p \<Longrightarrow> \<exists>os'. delete_ExternalProcess deaf_W p os = Some os'"
  using kill_run_returns [OF deaf_ok(2), of p os] by (auto simp: kill_run_def delete_ExternalProcess_def bind_eq_Some_conv)

theorem descriptors_are_closed_witness:
  "\<exists>p0 os0 p1 os1 out p2 os2 os3. new_ExternalProcess deaf_W ''t'' SPECIAL [] False demo_os = (p0, os0) \<and>
    initProcess deaf_W p0 os0 = Some (True, p1, os1) \<and> p_fds os1 \<noteq> p_fds demo_os \<and>
    debug deaf_W 5000 True False new_output p1 os1 = Some (out, p2, os2) \<and>
    delete_ExternalProcess deaf_W p2 os2 = Some os3 \<and> p_fds os3 = p_fds demo_os"
proof -
  obtain p0 os0 where n: "new_ExternalProcess deaf_W ''t'' SPECIAL [] False demo_os = (p0, os0)"
    by (cases "new_ExternalProcess deaf_W ''t'' SPECIAL [] False demo_os")
  have "\<exists>p1 os1. initProcess deaf_W p0 os0 = Some (True, p1, os1) \<and> m_childPID p1 = 77 \<and> p_fds os1 10 \<noteq> None"
    using n by (auto simp: new_ExternalProcess_def initProcess_def make_pipe_def deaf_W_def demo_W_def demo_os_def
      or_invalid_def split_commandline_def ptick_def close_fd_def Let_def)
  then obtain p1 os1 where i: "initProcess deaf_W p0 os0 = Some (True, p1, os1)" "m_childPID p1 = 77" "p_fds os1 10 \<noteq> None" by blast
  have st: "child_state (m_childPID p1) demo_os = Runs" by (simp add: child_state_def child_events_def demo_os_def)
  note s = started_fds [OF n i(1) deaf_pipes]
  obtain out p2 os2 where d: "debug deaf_W 5000 True False new_output p1 os1 = Some (out, p2, os2)"
    using s by (blast intro: deaf_debug)
  have "child_state (m_childPID p1) os1 = Runs" using st s by (simp add: child_state_def child_events_def)
  from debug_ends [OF d _ this] s have "same_object (started p1) p2" by (simp add: ends_child_def)
  then have "has_child p2" using s has_child_same [of "started p1" p2] by (simp add: runnable_def)
  then obtain os3 where e: "delete_ExternalProcess deaf_W p2 os2 = Some os3" using deaf_delete by blast
  have "(\<exists>t post fatal out out'. debug deaf_W t post fatal out p1 os1 = Some (out', p2, os2)) \<or>
      (\<exists>ok. runAndWaitForCompletion deaf_W p1 os1 = Some (ok, p2, os2))" using d by blast
  with descriptors_are_closed [OF n i(1) deaf_pipes st, of p2 os2 os3] e have "p_fds os3 = p_fds demo_os" by blast
  moreover have "p_fds os1 \<noteq> p_fds demo_os" using i(3) by (auto simp: demo_os_def)
  ultimately show ?thesis using n i(1) d e by blast
qed

lemma dup2_Some: "dup2 C old new fds = Some fds' \<longleftrightarrow> fds old \<noteq> None \<and> cw_dup2 C new \<and> fds' = fds(new := fds old)"
  by (auto simp: dup2_def)

lemma redirect_special:
  assumes "redirect C p fds = Some fds'" and "m_child_output_mode p = SPECIAL"
    and "m_inputPipe p = (x, y)" and "m_outputPipe p = (a, b)"
  obtains A B where "A = fds(0 := fds x)" "B = A(1 := A b)" "fds x \<noteq> None" "A b \<noteq> None"
    "fds' = B(2 := B b, a := None, b := None, x := None, y := None)"
proof -
  have "do {
      fds \<leftarrow> dup2 C x 0 fds;
      fds \<leftarrow> dup2 C b 1 fds;
      fds \<leftarrow> dup2 C b 2 fds;
      Some (fds(a := None, b := None, x := None, y := None))
    } = Some fds'"
    using assms(1) by (simp add: redirect_def assms(2-4))
  then obtain A B D where s: "dup2 C x 0 fds = Some A" "dup2 C b 1 A = Some B" "dup2 C b 2 B = Some D"
    "fds' = D(a := None, b := None, x := None, y := None)"
    by (auto simp: bind_eq_Some_conv)
  note d = s(1-3) [unfolded dup2_Some]
  show ?thesis
  proof (rule that)
    show "A = fds(0 := fds x)" "B = A(1 := A b)" "fds x \<noteq> None" "A b \<noteq> None" using d by blast+
    show "fds' = B(2 := B b, a := None, b := None, x := None, y := None)" using d s(4) by blast
  qed
qed

lemma six_closed: "(F(a := None, b := None, x := None, y := None, w := None, r := None)) k =
    (if k \<in> {a, b, x, y, w, r} then None else F k)"
  by simp

lemma six_opened: "k \<notin> {a, b, x, y, w, r} \<Longrightarrow>
    (F(a \<mapsto> A, b \<mapsto> B, x \<mapsto> X, y \<mapsto> Y, r \<mapsto> R, w \<mapsto> V)) k = F k"
  by simp

text \<open>
  C40: The program that a child with redirected streams executes reads from the input pipe and writes both its output and
  its errors to the output pipe; of its other descriptors none is an end of a pipe of the object.
\<close>

theorem child_has_standard_streams:
  assumes "new_ExternalProcess W commandline SPECIAL envp nudges os = (p0, os0)" and "make_pipe W os0 = (Some ends, os1)"
    and "free_pipes W os"
    and "child_main C chrootPath (p0\<lparr>m_fd_pipe := ends\<rparr>) (p_fds os1) = Child_execs argv env root fds"
  shows "fds = (p_fds os)(0 \<mapsto> Pipe_end (Suc (pt os)) False, 1 \<mapsto> Pipe_end (pt os) True, 2 \<mapsto> Pipe_end (pt os) True) \<and>
    Some argv = pw_wordexp W (c_string commandline) \<and> root = chrootPath"
proof -
  note c = new_special [OF assms(1)]
  obtain r w where p: "pw_pipe W (pt os0) = Some (r, w)" "ends = (r, w)" using assms(2) by (cases ends) (simp add: make_pipe_eq)
  have f1: "p_fds os1 = (p_fds os0)(r \<mapsto> Pipe_end (pt os0) False, w \<mapsto> Pipe_end (pt os0) True)"
    using assms(2) p by (auto simp: make_pipe_eq pipe_fds_def)
  let ?out = "or_invalid (pw_pipe W (pt os))" and ?in = "or_invalid (pw_pipe W (Suc (pt os)))"
  have "r \<noteq> - 1" "w \<noteq> - 1" using free_pipesD(2,3) [OF assms(3) p(1)] by auto
  moreover have "p_fds os (- 1) = None" using assms(3) by (simp add: free_pipes_def)
  ultimately have n: "p_fds os1 (- 1) = None" using c by (simp add: f1 pipe_fds_invalid [OF assms(3)])
  obtain fds1 where r1: "redirect C (p0\<lparr>m_fd_pipe := ends\<rparr>) (p_fds os1) = Some fds1"
    and e: "fds = fds1(w := None, r := None)" "m_argv p0 = Some argv" "root = chrootPath"
    using assms(4) p(2) by (auto simp: child_main_def Let_def split: option.splits if_splits)
  obtain a b x y where q: "?out = (a, b)" "?in = (x, y)" by (metis surj_pair)
  have pc: "m_child_output_mode (p0\<lparr>m_fd_pipe := ends\<rparr>) = SPECIAL" "m_inputPipe (p0\<lparr>m_fd_pipe := ends\<rparr>) = (x, y)"
    "m_outputPipe (p0\<lparr>m_fd_pipe := ends\<rparr>) = (a, b)"
    using c by (simp_all add: q)
  obtain A B where some: "A = (p_fds os1)(0 := p_fds os1 x)" "B = A(1 := A b)" "p_fds os1 x \<noteq> None" "A b \<noteq> None"
    "fds1 = B(2 := B b, a := None, b := None, x := None, y := None)"
    by (rule redirect_special [OF r1 pc])
  have i: "pw_pipe W (Suc (pt os)) = Some (x, y)" using some(3) n q by (cases "pw_pipe W (Suc (pt os))") (auto simp: or_invalid_def)
  have o: "pw_pipe W (pt os) = Some (a, b)" using some(1,4) n q by (cases "pw_pipe W (pt os)") (auto simp: or_invalid_def)
  note d = free_pipesD [OF assms(3) i] free_pipesD [OF assms(3) o] free_pipesD [OF assms(3) p(1)]
    free_pipes_distinct [OF assms(3) i o] free_pipes_distinct [OF assms(3) i p(1)] free_pipes_distinct [OF assms(3) o p(1)]
  have f: "p_fds os1 = (p_fds os)(a \<mapsto> Pipe_end (pt os) False, b \<mapsto> Pipe_end (pt os) True, x \<mapsto> Pipe_end (Suc (pt os)) False,
      y \<mapsto> Pipe_end (Suc (pt os)) True, r \<mapsto> Pipe_end (pt os0) False, w \<mapsto> Pipe_end (pt os0) True)"
    using c f1 by (simp add: i o pipe_fds_def)
  have g: "p_fds os1 x = Some (Pipe_end (Suc (pt os)) False)" "p_fds os1 b = Some (Pipe_end (pt os) True)" using d c by (auto simp: f)
  have lt: "b \<noteq> 0" "b \<noteq> 1" using d by auto
  have g': "A b = Some (Pipe_end (pt os) True)" "B b = Some (Pipe_end (pt os) True)"
    using g(2) lt by (simp_all add: some(1,2))
  have B1: "B = (p_fds os1)(0 \<mapsto> Pipe_end (Suc (pt os)) False, 1 \<mapsto> Pipe_end (pt os) True)"
    by (subst some(2), subst g'(1), subst some(1), subst g(1), rule refl)
  have h: "fds = (p_fds os1)(0 \<mapsto> Pipe_end (Suc (pt os)) False, 1 \<mapsto> Pipe_end (pt os) True, 2 \<mapsto> Pipe_end (pt os) True,
      a := None, b := None, x := None, y := None, w := None, r := None)"
    by (subst e(1), subst some(5), subst g'(2), subst B1, rule refl)
  have "fds k = ((p_fds os)(0 \<mapsto> Pipe_end (Suc (pt os)) False, 1 \<mapsto> Pipe_end (pt os) True, 2 \<mapsto> Pipe_end (pt os) True)) k" for k
  proof (cases "k \<in> {a, b, x, y, w, r}")
    case True
    then have "3 \<le> k" "p_fds os k = None" using d by blast+
    moreover have "fds k = None" unfolding h six_closed using True by simp
    ultimately show ?thesis by simp
  next
    case False
    then have "p_fds os1 k = p_fds os k" unfolding f by (rule six_opened)
    with False show ?thesis unfolding h six_closed by simp
  qed
  then show ?thesis using c e(2,3) by (auto simp: split_commandline_def)
qed

text \<open>All calls of the child succeed.\<close>

definition demo_C :: child_world where
  "demo_C = \<lparr>cw_mask = True, cw_open = 5, cw_dup2 = (\<lambda>_. True), cw_chroot = True, cw_chdir = True, cw_read = True,
     cw_traceme = True, cw_raise = True, cw_exec = True\<rparr>"

theorem child_has_standard_streams_witness:
  "\<exists>p0 os0 ends os1 argv env root fds. new_ExternalProcess demo_W ''t'' SPECIAL [] False demo_os = (p0, os0) \<and>
    make_pipe demo_W os0 = (Some ends, os1) \<and>
    child_main demo_C ''/r'' (p0\<lparr>m_fd_pipe := ends\<rparr>) (p_fds os1) = Child_execs argv env root fds \<and>
    argv = [''t''] \<and> fds 0 = Some (Pipe_end 1 False) \<and> fds 10 = None"
proof -
  obtain p0 os0 where n: "new_ExternalProcess demo_W ''t'' SPECIAL [] False demo_os = (p0, os0)"
    by (cases "new_ExternalProcess demo_W ''t'' SPECIAL [] False demo_os")
  have w: "pw_pipe demo_W k = Some (10 + 2 * int k, 11 + 2 * int k)" "pw_wordexp demo_W t = Some [t]" for k t
    by (simp_all add: demo_W_def)
  have o: "pt demo_os = 0" "p_fds demo_os = Map.empty" by (simp_all add: demo_os_def)
  note c = new_special [OF n, unfolded o w split_commandline_def]
  have p: "m_outputPipe p0 = (10, 11)" "m_inputPipe p0 = (12, 13)" "m_argv p0 = Some [c_string ''t'']" "m_child_output_mode p0 = SPECIAL"
    using c by (simp_all add: or_invalid_def)
  have f: "p_fds os0 = [10 \<mapsto> Pipe_end 0 False, 11 \<mapsto> Pipe_end 0 True, 12 \<mapsto> Pipe_end 1 False, 13 \<mapsto> Pipe_end 1 True]" "pt os0 = 2"
    using c by (simp_all add: pipe_fds_def)
  have "\<exists>ends os1 argv env root fds. make_pipe demo_W os0 = (Some ends, os1) \<and>
    child_main demo_C ''/r'' (p0\<lparr>m_fd_pipe := ends\<rparr>) (p_fds os1) = Child_execs argv env root fds"
    by (simp add: make_pipe_eq w f pipe_fds_def child_main_def redirect_def dup2_def demo_C_def p Let_def)
  then obtain ends os1 argv env root fds where m: "make_pipe demo_W os0 = (Some ends, os1)"
    and c: "child_main demo_C ''/r'' (p0\<lparr>m_fd_pipe := ends\<rparr>) (p_fds os1) = Child_execs argv env root fds" by blast
  have "free_pipes demo_W demo_os" using deaf_pipes by (simp add: free_pipes_def deaf_W_def)
  from child_has_standard_streams [OF n m this c] have "argv = [''t'']" "fds 0 = Some (Pipe_end 1 False)" "fds 10 = None"
    by (simp_all add: demo_os_def demo_W_def c_string_def)
  with n m c show ?thesis by blast
qed

end
