(* ===== verification/Spec2Isabelle.thy ===== *)
theory Spec2Isabelle
  imports LMProps TGProps TEProps RegProps TRMultiProps TRGdbProps ProcessProps
begin

text \<open>
  FLUFFI is a distributed fuzzer. A global manager (GM) assigns local managers to fuzz jobs and agents to
  local managers. A local manager (LM) keeps one fuzz job: its database holds the population of interesting
  testcases, the covered blocks, the crashes and the agents. Testcase generators (TG) fetch testcases of the
  population from the LM, mutate them and hand the children to testcase runners (TR), which execute the target
  and send what they saw to testcase evaluators (TE); these compare the coverage with what is known and report to
  the LM what is worth keeping. All of them exchange the protobuf messages of \<open>FLUFFI.proto\<close> over ZeroMQ.
  The sources of the agents are C++ under \<open>src/core\<close>; this library models them method by method.

  \<^bold>\<open>Conventions.\<close> A class with state is a record, a message or an enumeration a datatype, with the names of the
  source. Machine integers that may wrap are words, C++ \<open>int\<close>s whose range is not at stake are integers. A method
  that changes state returns the new state. \<open>None\<close> stands for the end of the process (\<open>_exit\<close> on a ZeroMQ error, an
  exception nobody catches, a null pointer), for a wait that never ends, or for a thrown exception where the text says
  so; \<open>partial_function (option)\<close> is used for the loops that may not end. What the program asks of its surroundings is
  answered by oracles that may answer differently each time: \<open>env\<close> (network, file system, clock, random numbers,
  stop requests; each question takes one \<open>tick\<close>) and \<open>dbenv\<close> (does the database server execute the statement,
  its clock, the order of unordered rows; each statement takes one \<open>stmt_no\<close>). Theorems hold for all oracles unless
  they say otherwise. A value that C++ reads uninitialised comes from the oracle as well. A step of a transition system
  is one handled message or one pass of a worker loop: handlers of a process may run in parallel in the code, but they
  share only the database, whose statements are atomic, and structures that are locked during each method.

  \<^bold>\<open>Shared code\<close> (\<open>src/core/SharedCode\<close>).
  \<^item> \<open>Prelude\<close>: ordered sets, substring search, \<open>stoi\<close>/\<open>stoull\<close>, the locales \<open>invariant_system\<close> (reachable states
    keep an invariant) and \<open>abstraction\<close> (a detailed system implements an abstract one).
  \<^item> \<open>Protocol\<close>: \<open>FLUFFI.proto\<close> and the wrapper classes, with their conversions and orders (locale
    \<open>strict_weak_order\<close>, interpreted for service descriptors and testcase identifiers).
  \<^item> \<open>Util\<close>: the string functions of \<open>Util.cpp\<close>. \<open>FileTransfer\<close>: its testcase files and their transfer in chunks, with
    \<open>GetTestcaseChunkRequestHandler.cpp\<close>.
  \<^item> \<open>Agent\<close>: the state of an agent process and the garbage collector (\<open>GarbageCollectorWorker.cpp\<close>).
  \<^item> \<open>CommInt\<close>: sockets per peer, requests with time-outs, round-trip times, the registry of handlers, the registration
    at the managers (\<open>CommInt.cpp\<close>, \<open>CommWorker.cpp\<close>, \<open>WorkerThreadState.cpp\<close>).
  \<^item> \<open>Status\<close>: log messages and status lines, written by the agents and parsed by the LM.
  \<^item> \<open>Process\<close>: starting, watching, debugging and ending a process (\<open>ExternalProcess.cpp\<close>). \<open>ProcessFacts\<close>: what may
    have happened to a child at each time, and when the loops end. \<open>ProcessCrash\<close>: from what was seen of a child to
    the report.

  \<^bold>\<open>Local manager\<close> (\<open>src/core/LocalManager\<close>).
  \<^item> \<open>DBServer\<close>: how a statement runs on the server. \<open>LMTables\<close>: the tables of \<open>createLMDB.sql\<close> and the effects of the
    statements. \<open>LMDatabase\<close>: \<open>LMDatabaseManager.cpp\<close>, one definition per method.
  \<^item> \<open>LMHandlers\<close>: all message handlers. \<open>LMWorkers\<close>: one pass of each worker thread.
  \<^item> \<open>LMView\<close>, \<open>LMEvaluation\<close>, \<open>LMLimits\<close>: what the methods mean for the abstract content of the database (a map from
    testcase identifiers to what is known of the testcase), for the path of an evaluation, and for the bounds of the tables.
  \<^item> \<open>LMSystem\<close>: the LM as a transition system and its invariant (interpretation of \<open>invariant_system\<close>).
    \<open>LMStore\<close>: the abstract store of testcases that it implements (interpretation of \<open>abstraction\<close>).

  \<^bold>\<open>Generator\<close> (\<open>src/core/TestcaseGenerator\<close>). \<open>TGQueue\<close>: the testcase queue with its contract (locale
  \<open>testcase_queue\<close>). \<open>TGMutators\<close>: the mutators; the mutation engines are parameters (record \<open>engines\<close>). \<open>TGWorkers\<close>: the
  queue cleaner, the queue filler, the handler that hands testcases out, the transition system. \<open>TGFacts\<close>: its invariant
  and what leaves the queue.

  \<^bold>\<open>Evaluator\<close> (\<open>src/core/TestcaseEvaluator\<close>). \<open>TEEval\<close>: coverage cache, queue of outcomes, coverage evaluator, workers,
  transition system and invariant.

  \<^bold>\<open>Global manager\<close> (\<open>src/core/GlobalManager\<close>). \<open>GMDatabase\<close>: the tables of \<open>createGMDB.sql\<close> and
  \<open>GMDatabaseManager.cpp\<close>. \<open>GMSystem\<close>: the registration handler, the monitor and the transition system. \<open>GMFacts\<close>: facts on them.

  \<^bold>\<open>Runner\<close> (\<open>src/core/TestcaseRunner\<close>, \<open>src/core/SharedMemIPC\<close>; of the executors the Linux parts).
  \<^item> \<open>TRRunner\<close>: the partners and how one is drawn, the configuration, the loop of the main worker over executors of any
    class (record \<open>executors\<close>), the transition system. \<open>TRFacts\<close>: its invariant.
  \<^item> \<open>TRDynRio\<close>: \<open>TestExecutorDynRio.cpp\<close>, the coverage files, and \<open>TestExecutorDynRioSingle.cpp\<close>, one process per testcase.
  \<^item> \<open>TRQemu\<close>: \<open>TestExecutorQemuUserSingle.cpp\<close>, its directory, module table and binary trace.
  \<^item> \<open>SharedMem\<close>: messages over shared memory (\<open>SharedMemIPC.cpp\<close>), with the objects of the operating system that both sides
    share. \<open>SharedMemProps\<close>: the channel as two mailboxes.
  \<^item> \<open>TRFed\<close>: what the executors share that keep a target for many testcases, with a feeder at the other end of a channel.
    \<open>TRFedProps\<close>: the exchange with a feeder that answers.
  \<^item> \<open>TRMulti\<close>: \<open>TestExecutorDynRioMulti.cpp\<close>, such an executor under DynamoRIO.
  \<^item> \<open>TRGdbText\<close>, \<open>TRGdbThread\<close>, \<open>TRGdb\<close>: \<open>TestExecutorGDB.cpp\<close>, such an executor with GDB. The first has the texts that
    GDB prints and is given, the second the thread that talks to GDB and the one that reads its output
    (\<open>GDBThreadCommunication.cpp\<close>), the third the executor itself. \<open>TRGdbFacts\<close>: facts on the texts and on single
    stops. \<open>TRGdbMemory\<close>: what the commands do to the memory of the target, as a transition system of the thread
    (\<open>debugging\<close>). \<open>TRGdbReport\<close>: the blocks that the thread reports, and how it goes on for a scripted dialogue.
  \<^item> \<open>TRExecutors\<close>: the executors as the runner calls them, with the contract that each leaves files other than its own alone
    (locale \<open>test_executor\<close>).

  What an executor runs (the target, a shell, DynamoRIO) is a parameter: \<open>dynrio\<close>, \<open>qemu\<close> and \<open>multi_env\<close> say how a process
  ended and what it left behind. The directory of testcases is taken to be an absolute path already. The thread that debugs
  a target in \<open>TRMulti\<close> is not a part of the model: the executor sees its output when it looks, once for each condition.
  In \<open>TRGdb\<close> the executor sees its thread in the same way; the thread is modelled on its own in \<open>TRGdbThread\<close>, where the
  executor and GDB are what acts between two of its looks at the shared object.
  The other side of a channel acts only while this side waits.

  \<^bold>\<open>Properties.\<close> \<open>LMProps\<close>: what an evaluation stores, the invariants and the refinement of the LM, the bounds on its
  tables, registration and billing. \<open>TGProps\<close>: no testcase leaves the generator unsettled, the queue is served in order,
  rounds end, children have distinct identifiers. \<open>TEProps\<close>: which runs are discarded, the path of new coverage from the
  evaluator into the population, coverage that is lost. \<open>GMProps\<close> and \<open>RegProps\<close>: assignment of local managers to jobs
  and of agents to local managers, the round of the monitor, the waiting loops. \<open>TRProps\<close>: the path of a testcase from the
  generator through the runner to the evaluator, coverage files and traces, errors of the set-up. \<open>SharedMemProps\<close> and
  \<open>TRMultiProps\<close>: the channel, a round with a feeder, restarts. \<open>TRGdbProps\<close>: breakpoints in the memory of the target, stops,
  GDB's output, what is reported of a run, a target that ends by itself. \<open>ProcessProps\<close>: no child stays behind, the end
  of a debugged run and its report, descriptors. Each property is numbered (C1, C2, ...);
  a property with hypotheses is followed by a theorem that applies it at a concrete input.

  \<^bold>\<open>Bounds and fuel.\<close> No fuel is used but for loops that are bounded in the code (ten attempts for a nice name, five
  registrations, ten deletions in a destructor). The loops of the debugger thread and of \<open>pselect\<close> may wait forever; their
  properties that promise a result say for which surroundings they return.

  \<^bold>\<open>Not modelled.\<close> ZeroMQ, protobuf, MySQL and the operating system beyond the answers above: in particular collations of
  string columns and values too long for a column (the latter count as refused statements); the set-up of connections and
  threads, command lines and logging; the mutation engines; 32-bit overflow of percentages, ratings outside the column's
  range and time-outs summed up over months. The streams to a child process; the executors are not connected to
  \<open>Process\<close>, they see how a process ended as described above. The feeders and starters of targets, the Windows
  parts, the test programs \<open>FluffiTester\<close>, and the web application under \<open>src/srv\<close>.
\<close>

end
